(* ===== verification/Sm_Prelude.thy ===== *)
theory Sm_Prelude
  imports Main "HOL-Library.Sublist" "HOL-Library.Word"
begin

text \<open>
  What every component of the Serial Modem shares: bytes and C strings, the character
  classification and the string searches of the C library the sources call, the error
  numbers, decimal printing (the \<open>%d\<close> and \<open>%u\<close> conversions of \<open>printf\<close>), the run of a step
  function over a list of events, and the collections of rewrite rules the component proofs
  draw on.

  A byte (\<open>uint8_t\<close>, \<open>char\<close>) is HOL's \<^typ>\<open>char\<close>, which has exactly 256 values; a byte
  buffer is a \<^typ>\<open>char list\<close>; a C string is the list of its bytes before the terminating
  NUL. Sizes that the code keeps below a buffer bound are \<^typ>\<open>nat\<close>; counters that may wrap
  are words of their width.
\<close>

named_theorems at_defs \<open>definitions the component proofs unfold together\<close>
named_theorems frame \<open>what an operation leaves unchanged\<close>

section \<open>Bytes and characters\<close>

type_synonym byte = char
type_synonym bytes = "char list"

abbreviation (input) NUL :: char where "NUL \<equiv> CHR 0x00"
abbreviation (input) BS :: char where "BS \<equiv> CHR 0x08"
abbreviation (input) LF :: char where "LF \<equiv> CHR 0x0A"
abbreviation (input) CR :: char where "CR \<equiv> CHR 0x0D"
abbreviation (input) DEL :: char where "DEL \<equiv> CHR 0x7F"
abbreviation (input) DQUOTE :: char where "DQUOTE \<equiv> CHR 0x22"

abbreviation (input) CRLF_STR :: string where "CRLF_STR \<equiv> [CR, LF]"
abbreviation (input) OK_STR :: string where "OK_STR \<equiv> CRLF_STR @ ''OK'' @ CRLF_STR"
abbreviation (input) ERROR_STR :: string where "ERROR_STR \<equiv> CRLF_STR @ ''ERROR'' @ CRLF_STR"

text \<open>The classification functions of \<open>ctype.h\<close> in the C locale.\<close>

definition byte_val :: "char \<Rightarrow> nat" where
  "byte_val c = of_char c"

definition c_islower :: "char \<Rightarrow> bool" where
  "c_islower c \<longleftrightarrow> 97 \<le> byte_val c \<and> byte_val c \<le> 122"

definition c_isupper :: "char \<Rightarrow> bool" where
  "c_isupper c \<longleftrightarrow> 65 \<le> byte_val c \<and> byte_val c \<le> 90"

definition c_isdigit :: "char \<Rightarrow> bool" where
  "c_isdigit c \<longleftrightarrow> 48 \<le> byte_val c \<and> byte_val c \<le> 57"

definition c_isalpha :: "char \<Rightarrow> bool" where
  "c_isalpha c \<longleftrightarrow> c_islower c \<or> c_isupper c"

definition c_isspace :: "char \<Rightarrow> bool" where
  "c_isspace c \<longleftrightarrow> byte_val c = 32 \<or> (9 \<le> byte_val c \<and> byte_val c \<le> 13)"

definition c_toupper :: "char \<Rightarrow> char" where
  "c_toupper c = (if c_islower c then char_of (byte_val c - 32) else c)"

lemmas ctype_defs = byte_val_def c_islower_def c_isupper_def c_isdigit_def c_isalpha_def
  c_isspace_def c_toupper_def

lemma byte_val_less [simp]: "byte_val c < 256"
  by (simp add: byte_val_def)

lemma byte_val_eq_iff [simp]: "byte_val c = byte_val d \<longleftrightarrow> c = d"
  by (simp add: byte_val_def)

lemma byte_val_char_of [simp]: "n < 256 \<Longrightarrow> byte_val (char_of n) = n"
  by (simp add: byte_val_def of_char_of)

lemma c_toupper_not_lower [simp]: "\<not> c_islower (c_toupper c)"
  by (auto simp: c_toupper_def c_islower_def)

lemma c_toupper_idem [simp]: "c_toupper (c_toupper c) = c_toupper c"
  by (metis c_toupper_def c_toupper_not_lower)

lemma c_toupper_eq_id: "\<not> c_islower c \<Longrightarrow> c_toupper c = c"
  by (simp add: c_toupper_def)

section \<open>C strings in buffers\<close>

text \<open>The C string that starts at the head of a buffer, and the byte at an index of a C string
  (its terminator included; reading further is out of bounds and not modelled).\<close>

definition cstr :: "bytes \<Rightarrow> string" where
  "cstr buf = takeWhile (\<lambda>c. c \<noteq> NUL) buf"

definition cstr_nth :: "string \<Rightarrow> nat \<Rightarrow> char" where
  "cstr_nth s i = (if i < length s then s ! i else NUL)"

definition no_nul :: "string \<Rightarrow> bool" where
  "no_nul s \<longleftrightarrow> NUL \<notin> set s"

lemma cstr_no_nul [simp]: "no_nul (cstr buf)"
  by (auto simp: no_nul_def cstr_def dest: set_takeWhileD)

lemma cstr_id [simp]: "no_nul s \<Longrightarrow> cstr s = s"
  by (auto simp: no_nul_def cstr_def takeWhile_eq_all_conv)

lemma cstr_append_nul [simp]: "no_nul s \<Longrightarrow> cstr (s @ NUL # r) = s"
  by (auto simp: no_nul_def cstr_def takeWhile_tail)

lemma no_nul_Nil [simp]: "no_nul []"
  by (simp add: no_nul_def)

lemma no_nul_Cons [simp]: "no_nul (c # s) \<longleftrightarrow> c \<noteq> NUL \<and> no_nul s"
  by (auto simp: no_nul_def)

lemma no_nul_append [simp]: "no_nul (s @ t) \<longleftrightarrow> no_nul s \<and> no_nul t"
  by (auto simp: no_nul_def)

lemma no_nul_take [simp]: "no_nul s \<Longrightarrow> no_nul (take n s)"
  by (auto simp: no_nul_def dest: in_set_takeD)

lemma no_nul_drop [simp]: "no_nul s \<Longrightarrow> no_nul (drop n s)"
  by (auto simp: no_nul_def dest: in_set_dropD)

section \<open>String searches\<close>

text \<open>\<open>strstr\<close>: the index of the first occurrence of a needle (\<open>strnstr\<close> is this on a prefix of
  the buffer).\<close>

fun strstr_pos :: "string \<Rightarrow> string \<Rightarrow> nat option" where
  "strstr_pos [] n = (if n = [] then Some 0 else None)"
| "strstr_pos (h # hs) n =
     (if prefix n (h # hs) then Some 0 else map_option Suc (strstr_pos hs n))"

lemma strstr_pos_Some:
  "strstr_pos h n = Some i \<Longrightarrow> prefix n (drop i h) \<and> i + length n \<le> length h"
proof (induction h n arbitrary: i rule: strstr_pos.induct)
  case (1 n)
  then show ?case by (simp split: if_splits)
next
  case (2 c hs n)
  then show ?case
    by (auto split: if_splits dest: prefix_length_le)
qed

lemma strstr_pos_first:
  "strstr_pos h n = Some i \<Longrightarrow> j < i \<Longrightarrow> \<not> prefix n (drop j h)"
proof (induction h n arbitrary: i j rule: strstr_pos.induct)
  case (1 n)
  then show ?case by (simp split: if_splits)
next
  case (2 c hs n)
  then show ?case
    by (cases j) (auto split: if_splits)
qed

lemma strstr_pos_None:
  "strstr_pos h n = None \<Longrightarrow> \<not> prefix n (drop j h)"
proof (induction h n arbitrary: j rule: strstr_pos.induct)
  case (1 n)
  then show ?case by (auto split: if_splits)
next
  case (2 c hs n)
  then show ?case
    by (cases j) (auto split: if_splits)
qed

lemma strstr_pos_None_iff: "strstr_pos h n = None \<longleftrightarrow> \<not> sublist n h"
proof
  assume none: "strstr_pos h n = None"
  show "\<not> sublist n h"
  proof
    assume "sublist n h"
    then obtain p s where "h = p @ n @ s" by (auto simp: sublist_def)
    then have "prefix n (drop (length p) h)" by simp
    with strstr_pos_None [OF none] show False by blast
  qed
next
  assume no: "\<not> sublist n h"
  show "strstr_pos h n = None"
  proof (cases "strstr_pos h n")
    case (Some i)
    then have "prefix n (drop i h)" by (simp add: strstr_pos_Some)
    then have "sublist n (drop i h)" by blast
    with no show ?thesis by (meson sublist_drop sublist_order.order_trans)
  qed simp
qed

text \<open>\<open>strncasecmp(s, t, strlen(t)) == 0\<close>: \<open>t\<close> is a case-insensitive prefix of \<open>s\<close>.\<close>

definition casecmp_prefix :: "string \<Rightarrow> string \<Rightarrow> bool" where
  "casecmp_prefix t s \<longleftrightarrow> prefix (map c_toupper t) (map c_toupper s)"

section \<open>Decimal conversions\<close>

fun show_nat :: "nat \<Rightarrow> string" where
  "show_nat n = (if n < 10 then [char_of (48 + n)]
                 else show_nat (n div 10) @ [char_of (48 + n mod 10)])"

declare show_nat.simps [simp del]

definition show_int :: "int \<Rightarrow> string" where
  "show_int i = (if i < 0 then CHR ''-'' # show_nat (nat (- i)) else show_nat (nat i))"

lemma show_nat_digits: "\<forall>c\<in>set (show_nat n). c_isdigit c"
proof (induction n rule: show_nat.induct)
  case (1 n)
  then show ?case
    by (subst show_nat.simps) (auto simp: c_isdigit_def)
qed

lemma show_nat_not_Nil [simp]: "show_nat n \<noteq> []"
  by (subst show_nat.simps) simp

text \<open>The value of a digit string: the inverse of the printer.\<close>

definition digit_val :: "char \<Rightarrow> nat" where
  "digit_val c = byte_val c - 48"

definition digits_val :: "string \<Rightarrow> nat" where
  "digits_val s = foldl (\<lambda>n c. 10 * n + digit_val c) 0 s"

lemma digits_val_snoc: "digits_val (s @ [c]) = 10 * digits_val s + digit_val c"
  by (simp add: digits_val_def)

lemma digits_val_show_nat [simp]: "digits_val (show_nat n) = n"
proof (induction n rule: show_nat.induct)
  case (1 n)
  show ?case
  proof (cases "n < 10")
    case True
    then show ?thesis by (subst show_nat.simps) (simp add: digits_val_def digit_val_def)
  next
    case False
    with 1 show ?thesis
      by (subst show_nat.simps) (simp add: digits_val_snoc digit_val_def)
  qed
qed

lemma find_append_None: "find P xs = None \<Longrightarrow> find P (xs @ ys) = find P ys"
  by (induction xs) (auto split: if_splits)

section \<open>Error numbers\<close>

text \<open>The values of the C library of the toolchain; only their being positive and distinct
  matters. The two codes past \<open>__ELASTERROR\<close> are the enumerators of \<open>sm_defines.h\<close>.\<close>

abbreviation (input) EPERM :: int where "EPERM \<equiv> 1"
abbreviation (input) ENOENT :: int where "ENOENT \<equiv> 2"
abbreviation (input) EINTR :: int where "EINTR \<equiv> 4"
abbreviation (input) EIO :: int where "EIO \<equiv> 5"
abbreviation (input) E2BIG :: int where "E2BIG \<equiv> 7"
abbreviation (input) EAGAIN :: int where "EAGAIN \<equiv> 11"
abbreviation (input) ENOMEM :: int where "ENOMEM \<equiv> 12"
abbreviation (input) EFAULT :: int where "EFAULT \<equiv> 14"
abbreviation (input) EBUSY :: int where "EBUSY \<equiv> 16"
abbreviation (input) ENODEV :: int where "ENODEV \<equiv> 19"
abbreviation (input) EINVAL :: int where "EINVAL \<equiv> 22"
abbreviation (input) ENODATA :: int where "ENODATA \<equiv> 61"
abbreviation (input) EBADMSG :: int where "EBADMSG \<equiv> 77"
abbreviation (input) EOPNOTSUPP :: int where "EOPNOTSUPP \<equiv> 95"
abbreviation (input) ECONNRESET :: int where "ECONNRESET \<equiv> 104"
abbreviation (input) ENOBUFS :: int where "ENOBUFS \<equiv> 105"
abbreviation (input) ENETDOWN :: int where "ENETDOWN \<equiv> 115"
abbreviation (input) EOVERFLOW :: int where "EOVERFLOW \<equiv> 139"
abbreviation (input) EADDRNOTAVAIL :: int where "EADDRNOTAVAIL \<equiv> 125"
abbreviation (input) ENOTCONN :: int where "ENOTCONN \<equiv> 128"
abbreviation (input) EALREADY :: int where "EALREADY \<equiv> 120"
abbreviation (input) ENOTSUP :: int where "ENOTSUP \<equiv> 134"
abbreviation (input) SILENT_AT_COMMAND_RET :: int where "SILENT_AT_COMMAND_RET \<equiv> 2000"
abbreviation (input) AT_COMMAND_CONTINUE_RET :: int where "AT_COMMAND_CONTINUE_RET \<equiv> 2001"

section \<open>Machines driven by a list of events\<close>

text \<open>Every handler of the program is a step function on its state. An invariant that each
  step keeps is kept by any sequence of steps; a projection each step maps to a step of
  another machine makes the runs correspond.\<close>

locale invariant_machine =
  fixes step :: "'s \<Rightarrow> 'e \<Rightarrow> 's"
    and inv :: "'s \<Rightarrow> bool"
  assumes step_inv: "inv s \<Longrightarrow> inv (step s e)"
begin

lemma run_inv: "inv s \<Longrightarrow> inv (foldl step s es)"
  by (induction es arbitrary: s) (simp_all add: step_inv)

end

locale simulation_machine =
  fixes step :: "'s \<Rightarrow> 'e \<Rightarrow> 's"
    and inv :: "'s \<Rightarrow> bool"
    and astep :: "'a \<Rightarrow> 'e \<Rightarrow> 'a"
    and abs :: "'s \<Rightarrow> 'a"
  assumes sim_inv: "inv s \<Longrightarrow> inv (step s e)"
    and sim_step: "inv s \<Longrightarrow> abs (step s e) = astep (abs s) e"
begin

lemma run_abs: "inv s \<Longrightarrow> abs (foldl step s es) = foldl astep (abs s) es"
  by (induction es arbitrary: s) (simp_all add: sim_inv sim_step)

end

sublocale simulation_machine \<subseteq> invariant_machine step inv
  by unfold_locales (rule sim_inv)

end
