(* ===== verification/Rx_Slab.thy ===== *)
theory Rx_Slab
  imports Sm_Prelude
begin

text \<open>
  The reference-counted receive buffers that the UART handler (\<open>sm_uart_handler.c\<close>) and the AT
  client (\<open>sm_at_client.c\<close>) both build on a memory slab of the kernel. A pointer into the slab is
  its offset from the start of the slab; a block is its number. The slab itself is kernel code: its
  two operations are a parameter, and \<open>mem_slab\<close> is what its documentation promises. The locale
  \<open>buffer_pool\<close> shows that the reference counting frees a block exactly when its last user is gone.
\<close>

section \<open>The memory slab of the kernel\<close>

text \<open>\<open>k_mem_slab_alloc\<close> without waiting and \<open>k_mem_slab_free\<close>.\<close>

record 'sl slab_ops =
  sl_alloc :: "'sl \<Rightarrow> nat option \<times> 'sl"
  sl_free :: "nat \<Rightarrow> 'sl \<Rightarrow> 'sl"

locale mem_slab =
  fixes M :: "'sl slab_ops"
    and free :: "'sl \<Rightarrow> nat set"
    and slab_ok :: "'sl \<Rightarrow> bool"
  assumes alloc_ok: "slab_ok s \<Longrightarrow> sl_alloc M s = (r, s') \<Longrightarrow> slab_ok s'"
    and alloc_block: "slab_ok s \<Longrightarrow> sl_alloc M s = (Some b, s') \<Longrightarrow> b \<in> free s \<and> free s' = free s - {b}"
    and alloc_none: "slab_ok s \<Longrightarrow> sl_alloc M s = (None, s') \<Longrightarrow> free s = {} \<and> free s' = {}"
    and free_ok: "slab_ok s \<Longrightarrow> b \<notin> free s \<Longrightarrow> slab_ok (sl_free M b s)"
    and free_block: "slab_ok s \<Longrightarrow> b \<notin> free s \<Longrightarrow> free (sl_free M b s) = insert b (free s)"

text \<open>A free list, as the kernel keeps it.\<close>

definition free_list :: "nat list slab_ops" where
  "free_list = \<lparr>sl_alloc = (\<lambda>s. case s of [] \<Rightarrow> (None, []) | b # bs \<Rightarrow> (Some b, bs)), sl_free = (#)\<rparr>"

interpretation fl: mem_slab free_list set distinct
  by unfold_locales (auto simp: free_list_def split: list.splits)

section \<open>Reference-counted blocks\<close>

record 'sl rx_pool =
  p_slab :: 'sl
  p_ref :: "nat \<Rightarrow> int"

text \<open>Allocation returns a block with one reference. \<open>start\<close> is the function \<open>block_start_get\<close> of
  the component, from a pointer into a block to the block.\<close>

definition rx_buf_alloc :: "'sl slab_ops \<Rightarrow> 'sl rx_pool \<Rightarrow> nat option \<times> 'sl rx_pool" where
  "rx_buf_alloc M P =
     (case sl_alloc M (p_slab P) of
        (None, s) \<Rightarrow> (None, P\<lparr>p_slab := s\<rparr>)
      | (Some b, s) \<Rightarrow> (Some b, P\<lparr>p_slab := s, p_ref := (p_ref P)(b := 1)\<rparr>))"

definition rx_buf_ref :: "(nat \<Rightarrow> nat) \<Rightarrow> nat \<Rightarrow> 'sl rx_pool \<Rightarrow> 'sl rx_pool" where
  "rx_buf_ref start p P = P\<lparr>p_ref := (p_ref P)(start p := p_ref P (start p) + 1)\<rparr>"

definition rx_buf_unref :: "'sl slab_ops \<Rightarrow> (nat \<Rightarrow> nat) \<Rightarrow> nat \<Rightarrow> 'sl rx_pool \<Rightarrow> 'sl rx_pool" where
  "rx_buf_unref M start p P =
     (let b = start p; ref_counter = p_ref P b; P' = P\<lparr>p_ref := (p_ref P)(b := ref_counter - 1)\<rparr>
      in if ref_counter = 1 then P'\<lparr>p_slab := sl_free M b (p_slab P')\<rparr> else P')"

text \<open>The pool against the number of users of each block: a block is free when it has no user, and
  its counter is the number of its users otherwise.\<close>

definition pool_ok :: "('sl \<Rightarrow> nat set) \<Rightarrow> ('sl \<Rightarrow> bool) \<Rightarrow> nat \<Rightarrow> (nat \<Rightarrow> nat) \<Rightarrow> 'sl rx_pool \<Rightarrow> bool" where
  "pool_ok fr sok n us P \<longleftrightarrow> sok (p_slab P) \<and>
     (\<forall>b. b \<in> fr (p_slab P) \<longleftrightarrow> b < n \<and> us b = 0) \<and>
     (\<forall>b. 0 < us b \<longrightarrow> b < n \<and> p_ref P b = int (us b))"

text \<open>A layout of the blocks: \<open>hdr\<close> bytes of header and \<open>size\<close> bytes of data in each \<open>stride\<close>.\<close>

locale block_layout =
  fixes start :: "nat \<Rightarrow> nat" and stride :: nat and hdr :: nat and size :: nat
  assumes start_data: "off < size \<Longrightarrow> start (b * stride + hdr + off) = b"
    and fits: "hdr + size \<le> stride"

locale buffer_pool = mem_slab M free slab_ok
  for M :: "'sl slab_ops" and free and slab_ok
begin

abbreviation good :: "nat \<Rightarrow> (nat \<Rightarrow> nat) \<Rightarrow> 'sl rx_pool \<Rightarrow> bool" where
  "good \<equiv> pool_ok free slab_ok"

lemma alloc_good:
  assumes "good n us P" and "rx_buf_alloc M P = (Some b, P')"
  shows "us b = 0 \<and> b < n \<and> good n (us(b := 1)) P'"
proof -
  obtain s where a: "sl_alloc M (p_slab P) = (Some b, s)" and P': "P' = P\<lparr>p_slab := s, p_ref := (p_ref P)(b := 1)\<rparr>"
    using assms(2) by (auto simp: rx_buf_alloc_def split: prod.splits option.splits)
  have ok: "slab_ok (p_slab P)" using assms(1) by (simp add: pool_ok_def)
  from alloc_block [OF ok a] alloc_ok [OF ok a] show ?thesis
    using assms(1) by (auto simp: pool_ok_def P')
qed

lemma alloc_fails:
  assumes "good n us P" and "rx_buf_alloc M P = (None, P')"
  shows "good n us P' \<and> (\<forall>b < n. 0 < us b)"
proof -
  obtain s where a: "sl_alloc M (p_slab P) = (None, s)" and P': "P' = P\<lparr>p_slab := s\<rparr>"
    using assms(2) by (auto simp: rx_buf_alloc_def split: prod.splits option.splits)
  have ok: "slab_ok (p_slab P)" using assms(1) by (simp add: pool_ok_def)
  from alloc_none [OF ok a] alloc_ok [OF ok a] show ?thesis
    using assms(1) by (auto simp: pool_ok_def P')
qed

lemma ref_good:
  "good n us P \<Longrightarrow> 0 < us (st p) \<Longrightarrow> good n (us(st p := us (st p) + 1)) (rx_buf_ref st p P)"
  by (auto simp: pool_ok_def rx_buf_ref_def)

lemma unref_good:
  assumes "good n us P" and "0 < us (st p)"
  shows "good n (us(st p := us (st p) - 1)) (rx_buf_unref M st p P)"
proof (cases "us (st p) = 1")
  case True
  have "slab_ok (p_slab P)" "st p \<notin> free (p_slab P)" using assms by (auto simp: pool_ok_def)
  then show ?thesis
    using assms True free_ok free_block by (auto simp: pool_ok_def rx_buf_unref_def Let_def)
next
  case False
  then show ?thesis using assms by (auto simp: pool_ok_def rx_buf_unref_def Let_def)
qed

text \<open>A reference taken and dropped again changes nothing but what it must.\<close>

lemma ref_unref_good:
  assumes "good n us P" and "0 < us (st p)"
  shows "good n us (rx_buf_unref M st p (rx_buf_ref st p P))"
  using unref_good [of n _ "rx_buf_ref st p P" st p, OF ref_good [of n us P st p, OF assms]] assms(2) by simp

end

interpretation fp: buffer_pool free_list set distinct ..

end
