(* ===== verification/Ring_Buffer.thy ===== *)
theory Ring_Buffer
  imports Sm_Prelude
begin

text \<open>
  The interface of Zephyr's byte ring buffer (\<open>zephyr/sys/ring_buffer.h\<close>), which the AT host
  (\<open>data_rb\<close>, \<open>urc_buf\<close>), the UART handler and the AT client (\<open>tx_buf\<close>) all use. The ring
  buffer is not part of the repository: its operations are a record of functions that the
  components take as a parameter, and what its documentation promises is the locale
  \<open>ring_buffer\<close>. At the end an implementation that wraps around at its capacity, so that a
  claim may return less than what is stored, shows that the promises can be kept.
\<close>

record 'rb ring_ops =
  rb_init :: "nat \<Rightarrow> 'rb"
  rb_put :: "bytes \<Rightarrow> 'rb \<Rightarrow> nat \<times> 'rb"
  rb_get_claim :: "nat \<Rightarrow> 'rb \<Rightarrow> bytes \<times> 'rb"
  rb_get_finish :: "nat \<Rightarrow> 'rb \<Rightarrow> int \<times> 'rb"
  rb_size_get :: "'rb \<Rightarrow> nat"
  rb_is_empty :: "'rb \<Rightarrow> bool"
  rb_reset :: "'rb \<Rightarrow> 'rb"
  rb_capacity_get :: "'rb \<Rightarrow> nat"

text \<open>The content is in two parts: what a reader has claimed and not yet finished, and what
  is available to the next claim. The size and emptiness queries are specified when no claim
  is outstanding, which is where the sources use their values.\<close>

locale ring_buffer =
  fixes R :: "'rb ring_ops"
    and claimed :: "'rb \<Rightarrow> bytes"
    and avail :: "'rb \<Rightarrow> bytes"
    and ok :: "'rb \<Rightarrow> bool"
  assumes init_ok: "0 < n \<Longrightarrow> ok (rb_init R n)"
    and init_content: "0 < n \<Longrightarrow> claimed (rb_init R n) = [] \<and> avail (rb_init R n) = []"
    and init_capacity: "0 < n \<Longrightarrow> rb_capacity_get R (rb_init R n) = n"
    and capacity_bound: "ok b \<Longrightarrow>
      0 < rb_capacity_get R b \<and> length (claimed b) + length (avail b) \<le> rb_capacity_get R b"
    and put_ok: "ok b \<Longrightarrow> ok (snd (rb_put R d b))"
    and put_count: "ok b \<Longrightarrow> fst (rb_put R d b) =
      min (length d) (rb_capacity_get R b - length (claimed b) - length (avail b))"
    and put_content: "ok b \<Longrightarrow> claimed (snd (rb_put R d b)) = claimed b \<and>
      avail (snd (rb_put R d b)) = avail b @ take (fst (rb_put R d b)) d"
    and put_capacity: "ok b \<Longrightarrow> rb_capacity_get R (snd (rb_put R d b)) = rb_capacity_get R b"
    and claim_ok: "ok b \<Longrightarrow> ok (snd (rb_get_claim R m b))"
    and claim_content: "ok b \<Longrightarrow>
      claimed (snd (rb_get_claim R m b)) = claimed b @ fst (rb_get_claim R m b) \<and>
      avail b = fst (rb_get_claim R m b) @ avail (snd (rb_get_claim R m b))"
    and claim_bound: "ok b \<Longrightarrow> length (fst (rb_get_claim R m b)) \<le> m"
    and claim_progress: "ok b \<Longrightarrow> avail b \<noteq> [] \<Longrightarrow> 0 < m \<Longrightarrow> fst (rb_get_claim R m b) \<noteq> []"
    and claim_capacity: "ok b \<Longrightarrow> rb_capacity_get R (snd (rb_get_claim R m b)) = rb_capacity_get R b"
    and finish_ok: "ok b \<Longrightarrow> ok (snd (rb_get_finish R n b))"
    and finish_content: "ok b \<Longrightarrow> n \<le> length (claimed b) \<Longrightarrow>
      fst (rb_get_finish R n b) = 0 \<and> claimed (snd (rb_get_finish R n b)) = [] \<and>
      avail (snd (rb_get_finish R n b)) = drop n (claimed b) @ avail b"
    and finish_bad: "ok b \<Longrightarrow> length (claimed b) < n \<Longrightarrow>
      fst (rb_get_finish R n b) = - EINVAL \<and> snd (rb_get_finish R n b) = b"
    and finish_capacity: "ok b \<Longrightarrow> rb_capacity_get R (snd (rb_get_finish R n b)) = rb_capacity_get R b"
    and size_get: "ok b \<Longrightarrow> claimed b = [] \<Longrightarrow> rb_size_get R b = length (avail b)"
    and is_empty: "ok b \<Longrightarrow> claimed b = [] \<Longrightarrow> rb_is_empty R b \<longleftrightarrow> avail b = []"
    and reset_ok: "ok b \<Longrightarrow> ok (rb_reset R b)"
    and reset_content: "ok b \<Longrightarrow> claimed (rb_reset R b) = [] \<and> avail (rb_reset R b) = []"
    and reset_capacity: "ok b \<Longrightarrow> rb_capacity_get R (rb_reset R b) = rb_capacity_get R b"
begin

lemmas ring_ok = init_ok put_ok claim_ok finish_ok reset_ok

lemma claim_empty: "ok b \<Longrightarrow> avail b = [] \<Longrightarrow> fst (rb_get_claim R m b) = []"
  using claim_content [of b m] by simp

lemma claim_length: "ok b \<Longrightarrow> length (fst (rb_get_claim R m b)) \<le> length (avail b)"
  using claim_content [of b m] by (metis length_append le_add1)

text \<open>Claiming with nothing outstanding and finishing \<open>n\<close> of the bytes claimed removes exactly
  the first \<open>n\<close> bytes.\<close>

lemma claim_finish:
  assumes "ok b" and "claimed b = []" and "n \<le> length (fst (rb_get_claim R m b))"
  defines "b' \<equiv> snd (rb_get_finish R n (snd (rb_get_claim R m b)))"
  shows "ok b'" and "claimed b' = []" and "avail b' = drop n (avail b)"
proof -
  let ?x = "fst (rb_get_claim R m b)" and ?c = "snd (rb_get_claim R m b)"
  have okc: "ok ?c" using assms(1) by (rule claim_ok)
  have cl: "claimed ?c = ?x" and av: "avail b = ?x @ avail ?c"
    using claim_content [OF assms(1), of m] assms(2) by simp_all
  show "ok b'" unfolding b'_def using okc by (rule finish_ok)
  from finish_content [OF okc, of n] assms(3) cl
  have "claimed b' = [] \<and> avail b' = drop n ?x @ avail ?c" by (simp add: b'_def)
  moreover have "drop n ?x @ avail ?c = drop n (avail b)"
    using av assms(3) by simp
  ultimately show "claimed b' = []" and "avail b' = drop n (avail b)" by simp_all
qed

end

section \<open>An implementation that wraps around\<close>

text \<open>The bytes are kept as two lists and \<open>r_pos\<close> is the position of the first available byte
  in the circular storage: a claim never crosses the end of the storage.\<close>

record ring =
  r_cap :: nat
  r_pos :: nat
  r_claimed :: bytes
  r_avail :: bytes

definition ring_init :: "nat \<Rightarrow> ring" where
  "ring_init n = \<lparr>r_cap = n, r_pos = 0, r_claimed = [], r_avail = []\<rparr>"

definition ring_put :: "bytes \<Rightarrow> ring \<Rightarrow> nat \<times> ring" where
  "ring_put d b =
     (let n = min (length d) (r_cap b - length (r_claimed b) - length (r_avail b))
      in (n, b\<lparr>r_avail := r_avail b @ take n d\<rparr>))"

definition ring_claim :: "nat \<Rightarrow> ring \<Rightarrow> bytes \<times> ring" where
  "ring_claim m b =
     (let n = min m (r_cap b - r_pos b); x = take n (r_avail b)
      in (x, b\<lparr>r_claimed := r_claimed b @ x, r_avail := drop n (r_avail b),
               r_pos := (r_pos b + length x) mod r_cap b\<rparr>))"

definition ring_finish :: "nat \<Rightarrow> ring \<Rightarrow> int \<times> ring" where
  "ring_finish n b =
     (if length (r_claimed b) < n then (- EINVAL, b)
      else (0, b\<lparr>r_claimed := [], r_avail := drop n (r_claimed b) @ r_avail b,
                 r_pos := (r_pos b + r_cap b - (length (r_claimed b) - n)) mod r_cap b\<rparr>))"

definition ring_ops :: "ring ring_ops" where
  "ring_ops = \<lparr>rb_init = ring_init, rb_put = ring_put, rb_get_claim = ring_claim,
     rb_get_finish = ring_finish, rb_size_get = (\<lambda>b. length (r_avail b)),
     rb_is_empty = (\<lambda>b. r_avail b = []),
     rb_reset = (\<lambda>b. b\<lparr>r_pos := 0, r_claimed := [], r_avail := []\<rparr>),
     rb_capacity_get = r_cap\<rparr>"

definition ring_wf :: "ring \<Rightarrow> bool" where
  "ring_wf b \<longleftrightarrow> 0 < r_cap b \<and> r_pos b < r_cap b \<and>
     length (r_claimed b) + length (r_avail b) \<le> r_cap b"

lemmas ring_impl_defs = ring_ops_def ring_init_def ring_put_def ring_claim_def ring_finish_def
  ring_wf_def

interpretation ring: ring_buffer ring_ops r_claimed r_avail ring_wf
proof unfold_locales
  fix b :: ring and m :: nat
  assume "ring_wf b" "r_avail b \<noteq> []" "0 < m"
  then show "fst (rb_get_claim ring_ops m b) \<noteq> []"
    by (auto simp: ring_impl_defs Let_def)
qed (auto simp: ring_impl_defs Let_def min_def)

end
