(* ===== verification/Uart_Driver.thy ===== *)
theory Uart_Driver
  imports Rx_Slab Ring_Buffer
begin

text \<open>
  The asynchronous UART driver (\<open>zephyr/drivers/uart.h\<close>) as the UART handler and the AT client see
  it. The driver is not part of the repository: its functions are a parameter on a state of its own,
  and the locale \<open>uart_driver\<close> states what its documentation promises of the calls and of the events
  it delivers to the callback: at most one transmission at a time, buffers that belong to the driver
  from \<open>uart_rx_enable\<close> or \<open>uart_rx_buf_rsp\<close> until \<open>UART_RX_BUF_RELEASED\<close>, and received bytes
  reported in order at the fill level of such a buffer.
\<close>

text \<open>The events; the pointers are offsets into the slab of the component. \<open>UART_RX_STOPPED\<close> stands
  for the events the callbacks ignore.\<close>

datatype uart_event =
    UART_TX_DONE nat
  | UART_TX_ABORTED nat
  | UART_RX_RDY nat nat nat
  | UART_RX_BUF_REQUEST
  | UART_RX_BUF_RELEASED "nat option"
  | UART_RX_DISABLED
  | UART_RX_STOPPED

text \<open>\<open>d_mem\<close> reads a byte of the slab's memory, which only the driver writes; \<open>d_next\<close> is the next
  event that the driver delivers while the caller waits, or None when the wait is over.\<close>

record 'w uart_drv =
  d_ready :: "'w \<Rightarrow> bool"
  d_config_get :: "'w \<Rightarrow> int \<times> 32 word"
  d_configure :: "32 word \<Rightarrow> 'w \<Rightarrow> int \<times> 'w"
  d_err_check :: "'w \<Rightarrow> int \<times> 'w"
  d_callback_set :: "'w \<Rightarrow> int \<times> 'w"
  d_tx :: "bytes \<Rightarrow> 'w \<Rightarrow> int \<times> 'w"
  d_tx_abort :: "'w \<Rightarrow> int \<times> 'w"
  d_rx_enable :: "nat \<Rightarrow> nat \<Rightarrow> 'w \<Rightarrow> int \<times> 'w"
  d_rx_disable :: "'w \<Rightarrow> int \<times> 'w"
  d_rx_buf_rsp :: "nat \<Rightarrow> nat \<Rightarrow> 'w \<Rightarrow> int \<times> 'w"
  d_mem :: "'w \<Rightarrow> nat \<Rightarrow> byte"
  d_next :: "'w \<Rightarrow> uart_event option \<times> 'w"
  d_uptime :: "'w \<Rightarrow> 32 word"

section \<open>The contract\<close>

text \<open>A buffer of the driver: its address, its size, and how far its content was reported. The
  driver may write behind that.\<close>

type_synonym rx_own = "nat \<times> nat \<times> nat"

definition writable :: "rx_own list \<Rightarrow> nat set" where
  "writable own = {q. \<exists>(p, n, f) \<in> set own. p + f \<le> q \<and> q < p + n}"

definition report :: "nat \<Rightarrow> nat \<Rightarrow> rx_own list \<Rightarrow> rx_own list" where
  "report p k own = map (\<lambda>(q, n, f). if q = p then (q, n, k) else (q, n, f)) own"

lemma report_fst [simp]: "map fst (report p k own) = map fst own"
  by (auto simp: report_def)

definition mem_read :: "(nat \<Rightarrow> byte) \<Rightarrow> nat \<Rightarrow> nat \<Rightarrow> bytes" where
  "mem_read m p n = map m [p..<p + n]"

lemma mem_read_length [simp]: "length (mem_read m p n) = n"
  by (simp add: mem_read_def)

lemma mem_read_take: "k \<le> n \<Longrightarrow> take k (mem_read m p n) = mem_read m p k"
  by (simp add: mem_read_def take_map)

lemma mem_read_drop: "k \<le> n \<Longrightarrow> drop k (mem_read m p n) = mem_read m (p + k) (n - k)"
  by (simp add: mem_read_def drop_map)

lemma mem_read_cong: "(\<And>q. p \<le> q \<Longrightarrow> q < p + n \<Longrightarrow> m q = m' q) \<Longrightarrow> mem_read m p n = mem_read m' p n"
  by (simp add: mem_read_def)

text \<open>The observations of the driver: the transmission in progress, what went out on the line, the
  buffers it holds, and what came in.\<close>

record 'w uart_obs =
  o_tx :: "'w \<Rightarrow> bytes option"
  o_wire :: "'w \<Rightarrow> bytes"
  o_own :: "'w \<Rightarrow> rx_own list"
  o_line :: "'w \<Rightarrow> bytes"

definition tx_same :: "'w uart_obs \<Rightarrow> 'w \<Rightarrow> 'w \<Rightarrow> bool" where
  "tx_same V w w' \<longleftrightarrow> o_tx V w' = o_tx V w \<and> o_wire V w' = o_wire V w"

definition mem_same :: "'w uart_drv \<Rightarrow> nat set \<Rightarrow> 'w \<Rightarrow> 'w \<Rightarrow> bool" where
  "mem_same D A w w' \<longleftrightarrow> (\<forall>q. q \<notin> A \<longrightarrow> d_mem D w' q = d_mem D w q)"

definition rx_same :: "'w uart_drv \<Rightarrow> 'w uart_obs \<Rightarrow> 'w \<Rightarrow> 'w \<Rightarrow> bool" where
  "rx_same D V w w' \<longleftrightarrow> o_own V w' = o_own V w \<and> o_line V w' = o_line V w \<and>
     mem_same D (writable (o_own V w)) w w'"

text \<open>What an event changes, for the driver itself.\<close>

fun event_ok :: "'w uart_drv \<Rightarrow> 'w uart_obs \<Rightarrow> 'w \<Rightarrow> uart_event \<Rightarrow> 'w \<Rightarrow> bool" where
  "event_ok D V w (UART_TX_DONE n) w' \<longleftrightarrow> rx_same D V w w' \<and> o_tx V w' = None \<and>
     (\<exists>d. o_tx V w = Some d \<and> n = length d \<and> o_wire V w' = o_wire V w @ d)"
| "event_ok D V w (UART_TX_ABORTED n) w' \<longleftrightarrow> rx_same D V w w' \<and> o_tx V w' = None \<and>
     (\<exists>d. o_tx V w = Some d \<and> n \<le> length d \<and> o_wire V w' = o_wire V w @ take n d)"
| "event_ok D V w (UART_RX_RDY p off len) w' \<longleftrightarrow> tx_same V w w' \<and> 0 < len \<and>
     (\<exists>n. (p, n, off) \<in> set (o_own V w) \<and> off + len \<le> n) \<and>
     o_own V w' = report p (off + len) (o_own V w) \<and>
     o_line V w' = o_line V w @ mem_read (d_mem D w') (p + off) len \<and>
     mem_same D (writable (o_own V w)) w w'"
| "event_ok D V w (UART_RX_BUF_RELEASED (Some p)) w' \<longleftrightarrow> tx_same V w w' \<and>
     p \<in> fst ` set (o_own V w) \<and> o_own V w' = filter (\<lambda>x. fst x \<noteq> p) (o_own V w) \<and>
     o_line V w' = o_line V w \<and> mem_same D (writable (o_own V w)) w w'"
| "event_ok D V w UART_RX_DISABLED w' \<longleftrightarrow> tx_same V w w' \<and> rx_same D V w w' \<and> o_own V w = []"
| "event_ok D V w ev w' \<longleftrightarrow> tx_same V w w' \<and> rx_same D V w w'"

text \<open>A call that gives the driver a buffer.\<close>

definition buf_given :: "'w uart_drv \<Rightarrow> 'w uart_obs \<Rightarrow> nat \<Rightarrow> nat \<Rightarrow> 'w \<Rightarrow> 'w \<Rightarrow> bool" where
  "buf_given D V p n w w' \<longleftrightarrow> tx_same V w w' \<and> o_line V w' = o_line V w \<and>
     o_own V w' = o_own V w @ [(p, n, 0)] \<and> mem_same D (writable (o_own V w) \<union> {p..<p + n}) w w'"

locale uart_driver =
  fixes D :: "'w uart_drv" and V :: "'w uart_obs"
  assumes tx_sign: "d_tx D d w = (e, w') \<Longrightarrow> e \<le> 0"
    and tx_started: "d_tx D d w = (0, w') \<Longrightarrow> d \<noteq> [] \<Longrightarrow>
      o_tx V w = None \<and> o_tx V w' = Some d \<and> o_wire V w' = o_wire V w \<and> rx_same D V w w'"
    and tx_rx: "d_tx D d w = (e, w') \<Longrightarrow> rx_same D V w w'"
    and tx_failed: "d_tx D d w = (e, w') \<Longrightarrow> e \<noteq> 0 \<Longrightarrow> tx_same V w w' \<and> rx_same D V w w'"
    and tx_abort: "d_tx_abort D w = (e, w') \<Longrightarrow> tx_same V w w' \<and> rx_same D V w w'"
    and rx_enabled: "d_rx_enable D p n w = (0, w') \<Longrightarrow> buf_given D V p n w w'"
    and rx_enable_failed: "d_rx_enable D p n w = (e, w') \<Longrightarrow> e \<noteq> 0 \<Longrightarrow> tx_same V w w' \<and> rx_same D V w w'"
    and buf_rsp: "d_rx_buf_rsp D p n w = (0, w') \<Longrightarrow> buf_given D V p n w w'"
    and buf_rsp_failed: "d_rx_buf_rsp D p n w = (e, w') \<Longrightarrow> e \<noteq> 0 \<Longrightarrow> tx_same V w w' \<and> rx_same D V w w'"
    and rx_disable: "d_rx_disable D w = (e, w') \<Longrightarrow> tx_same V w w' \<and> rx_same D V w w'"
    and configure: "d_configure D b w = (e, w') \<Longrightarrow> tx_same V w w' \<and> rx_same D V w w'"
    and err_check: "d_err_check D w = (e, w') \<Longrightarrow> tx_same V w w' \<and> rx_same D V w w'"
    and callback_set: "d_callback_set D w = (e, w') \<Longrightarrow> tx_same V w w' \<and> rx_same D V w w'"
    and next_event: "d_next D w = (Some ev, w') \<Longrightarrow> event_ok D V w ev w'"
    and next_none: "d_next D w = (None, w') \<Longrightarrow> tx_same V w w' \<and> rx_same D V w w'"

end
