(* ===== verification/Uart_Handler.thy ===== *)
theory Uart_Handler
  imports Uart_Driver
begin

text \<open>
  The UART handler (\<open>sm_uart_handler.c\<close>): reception into reference-counted slab blocks, an event
  queue of received fragments, transmission from a ring buffer one claim at a time, the callback of
  the UART driver, and the modem pipe on top. The functions are in the order in which they call each
  other; the waiting functions run the callback on the events that the driver delivers meanwhile.
\<close>

section \<open>State\<close>

text \<open>\<open>struct rx_event_t\<close>: a fragment of a block that was received and not read yet.\<close>

record rx_event_t =
  re_buf :: nat
  re_len :: nat

text \<open>What the users of the pipe are told, directly or by a work item.\<close>

datatype pipe_note = OPENED | RECEIVE_READY | TRANSMIT_IDLE | CLOSED

text \<open>The configuration, the ring buffer, slab and driver below, whether the work queue runs, and
  the fuel of the waiting loops.\<close>

record ('rb, 'sl, 'w) uart_env =
  u_cfg_rx_buf_size :: nat
  u_cfg_rx_buf_count :: nat
  u_rb :: "'rb ring_ops"
  u_slab :: "'sl slab_ops"
  u_drv :: "'w uart_drv"
  u_workq_started :: "'w \<Rightarrow> bool"
  u_fuel :: nat

text \<open>The bits of \<open>uart_state\<close> and \<open>sm_pipe.state\<close>, the semaphore, the buffers, whether the two work
  items are pending, and the notifications sent so far. \<open>u_fault\<close>: a loop ran out of fuel.\<close>

record ('rb, 'sl, 'w) uart =
  u_tx_enabled :: bool
  u_rx_enabled :: bool
  u_rx_recovery :: bool
  u_rx_recovery_disabled :: bool
  u_pipe_init :: bool
  u_pipe_open :: bool
  u_idle_work :: bool
  u_closed_work :: bool
  u_tx_done_sem :: nat
  u_tx_buf :: 'rb
  u_pool :: "'sl rx_pool"
  u_rx_events :: "rx_event_t list"
  u_notes :: "pipe_note list"
  u_baudrate :: "32 word"
  u_world :: 'w
  u_fault :: bool

definition UART_RX_EVENT_COUNT :: "('rb, 'sl, 'w) uart_env \<Rightarrow> nat" where
  "UART_RX_EVENT_COUNT U = (u_cfg_rx_buf_count U * u_cfg_rx_buf_size U) div 128"

definition UART_RX_EVENT_COUNT_FOR_BUF :: "('rb, 'sl, 'w) uart_env \<Rightarrow> nat" where
  "UART_RX_EVENT_COUNT_FOR_BUF U = UART_RX_EVENT_COUNT U div u_cfg_rx_buf_count U"

text \<open>\<open>struct rx_buf_t\<close>: a counter and a length of four bytes each, and the data.\<close>

abbreviation (input) RX_BUF_HDR :: nat where "RX_BUF_HDR \<equiv> 8"

definition UART_SLAB_BLOCK_SIZE :: "('rb, 'sl, 'w) uart_env \<Rightarrow> nat" where
  "UART_SLAB_BLOCK_SIZE U = RX_BUF_HDR + u_cfg_rx_buf_size U"

definition block_start_get :: "('rb, 'sl, 'w) uart_env \<Rightarrow> nat \<Rightarrow> nat" where
  "block_start_get U buf = buf div UART_SLAB_BLOCK_SIZE U"

text \<open>The address of a block and of its data.\<close>

definition block_addr :: "('rb, 'sl, 'w) uart_env \<Rightarrow> nat \<Rightarrow> nat" where
  "block_addr U b = b * UART_SLAB_BLOCK_SIZE U"

definition block_data :: "('rb, 'sl, 'w) uart_env \<Rightarrow> nat \<Rightarrow> nat" where
  "block_data U b = b * UART_SLAB_BLOCK_SIZE U + RX_BUF_HDR"

definition pool_alloc :: "('rb, 'sl, 'w) uart_env \<Rightarrow> ('rb, 'sl, 'w) uart \<Rightarrow> nat option \<times> ('rb, 'sl, 'w) uart" where
  "pool_alloc U u = (case rx_buf_alloc (u_slab U) (u_pool u) of (b, P) \<Rightarrow> (b, u\<lparr>u_pool := P\<rparr>))"

definition pool_ref :: "('rb, 'sl, 'w) uart_env \<Rightarrow> nat \<Rightarrow> ('rb, 'sl, 'w) uart \<Rightarrow> ('rb, 'sl, 'w) uart" where
  "pool_ref U p u = u\<lparr>u_pool := rx_buf_ref (block_start_get U) p (u_pool u)\<rparr>"

definition pool_unref :: "('rb, 'sl, 'w) uart_env \<Rightarrow> nat \<Rightarrow> ('rb, 'sl, 'w) uart \<Rightarrow> ('rb, 'sl, 'w) uart" where
  "pool_unref U p u = u\<lparr>u_pool := rx_buf_unref (u_slab U) (block_start_get U) p (u_pool u)\<rparr>"

definition sem_give :: "('rb, 'sl, 'w) uart \<Rightarrow> ('rb, 'sl, 'w) uart" where
  "sem_give u = u\<lparr>u_tx_done_sem := 1\<rparr>"

definition uart_notify :: "pipe_note \<Rightarrow> ('rb, 'sl, 'w) uart \<Rightarrow> ('rb, 'sl, 'w) uart" where
  "uart_notify n u = u\<lparr>u_notes := u_notes u @ [n]\<rparr>"

section \<open>Reception\<close>

definition rx_enable :: "('rb, 'sl, 'w) uart_env \<Rightarrow> ('rb, 'sl, 'w) uart \<Rightarrow> int \<times> ('rb, 'sl, 'w) uart" where
  "rx_enable U u =
     (if u_rx_enabled u \<or> u_rx_recovery_disabled u then (0, u)
      else case pool_alloc U u of
        (None, u) \<Rightarrow> (- ENOMEM, u)
      | (Some b, u) \<Rightarrow>
          (case d_rx_enable (u_drv U) (block_data U b) (u_cfg_rx_buf_size U) (u_world u) of (ret, w) \<Rightarrow>
             let u = u\<lparr>u_world := w\<rparr>
             in if ret \<noteq> 0 then (ret, pool_unref U (block_addr U b) u)
                else (0, u\<lparr>u_rx_enabled := True\<rparr>)))"

definition rx_recovery :: "('rb, 'sl, 'w) uart_env \<Rightarrow> ('rb, 'sl, 'w) uart \<Rightarrow> ('rb, 'sl, 'w) uart" where
  "rx_recovery U u =
     (if u_rx_recovery_disabled u then u
      else (snd (rx_enable U (u\<lparr>u_rx_recovery := True\<rparr>)))\<lparr>u_rx_recovery := False\<rparr>)"

section \<open>Transmission and the callback of the driver\<close>

definition tx_enable :: "('rb, 'sl, 'w) uart \<Rightarrow> ('rb, 'sl, 'w) uart" where
  "tx_enable u = (if u_tx_enabled u then u else sem_give (u\<lparr>u_tx_enabled := True\<rparr>))"

definition tx_start :: "('rb, 'sl, 'w) uart_env \<Rightarrow> ('rb, 'sl, 'w) uart \<Rightarrow> int \<times> ('rb, 'sl, 'w) uart" where
  "tx_start U u =
     (if \<not> u_tx_enabled u then (- EAGAIN, u)
      else case rb_get_claim (u_rb U) (rb_capacity_get (u_rb U) (u_tx_buf u)) (u_tx_buf u) of (buf, rb) \<Rightarrow>
        (case d_tx (u_drv U) buf (u_world u) of (err, w) \<Rightarrow>
           let u = u\<lparr>u_tx_buf := rb, u_world := w\<rparr>
           in if err \<noteq> 0 then (err, u\<lparr>u_tx_buf := snd (rb_get_finish (u_rb U) 0 rb)\<rparr>) else (0, u)))"

definition uart_callback_notify_pipe_transmit_idle :: "('rb, 'sl, 'w) uart \<Rightarrow> ('rb, 'sl, 'w) uart" where
  "uart_callback_notify_pipe_transmit_idle u = (if u_pipe_open u then u\<lparr>u_idle_work := True\<rparr> else u)"

definition uart_callback_notify_pipe_closure :: "('rb, 'sl, 'w) uart \<Rightarrow> ('rb, 'sl, 'w) uart" where
  "uart_callback_notify_pipe_closure u =
     (if u_pipe_init u \<and> \<not> u_pipe_open u \<and> \<not> u_rx_enabled u \<and> \<not> u_tx_enabled u
      then u\<lparr>u_closed_work := True\<rparr> else u)"

text \<open>The two branches of the callback that end a transmission, and the one that hands out the
  next receive buffer.\<close>

definition callback_tx :: "('rb, 'sl, 'w) uart_env \<Rightarrow> bool \<Rightarrow> nat \<Rightarrow> ('rb, 'sl, 'w) uart \<Rightarrow> ('rb, 'sl, 'w) uart" where
  "callback_tx U aborted len u =
     (let u = u\<lparr>u_tx_buf := snd (rb_get_finish (u_rb U) len (u_tx_buf u))\<rparr>;
          u = (if rb_is_empty (u_rb U) (u_tx_buf u) \<or> (aborted \<and> \<not> u_tx_enabled u) then sem_give u
               else snd (tx_start U u))
      in uart_callback_notify_pipe_transmit_idle u)"

definition callback_rx_rdy ::
  "('rb, 'sl, 'w) uart_env \<Rightarrow> nat \<Rightarrow> nat \<Rightarrow> nat \<Rightarrow> ('rb, 'sl, 'w) uart \<Rightarrow> ('rb, 'sl, 'w) uart" where
  "callback_rx_rdy U buf offset len u =
     (if \<not> u_workq_started U (u_world u) then u
      else
        let u = pool_ref U buf u; rx_event = \<lparr>re_buf = buf + offset, re_len = len\<rparr>
        in if UART_RX_EVENT_COUNT U \<le> length (u_rx_events u) then pool_unref U buf u
           else uart_notify RECEIVE_READY (u\<lparr>u_rx_events := u_rx_events u @ [rx_event]\<rparr>))"

definition callback_rx_buf_request :: "('rb, 'sl, 'w) uart_env \<Rightarrow> ('rb, 'sl, 'w) uart \<Rightarrow> ('rb, 'sl, 'w) uart" where
  "callback_rx_buf_request U u =
     (if UART_RX_EVENT_COUNT U - length (u_rx_events u) < UART_RX_EVENT_COUNT_FOR_BUF U then u
      else case pool_alloc U u of
        (None, u) \<Rightarrow> u
      | (Some b, u) \<Rightarrow>
          (case d_rx_buf_rsp (u_drv U) (block_data U b) (u_cfg_rx_buf_size U) (u_world u) of (err, w) \<Rightarrow>
             let u = u\<lparr>u_world := w\<rparr>
             in if err \<noteq> 0 then pool_unref U (block_addr U b) u else u))"

definition uart_callback :: "('rb, 'sl, 'w) uart_env \<Rightarrow> uart_event \<Rightarrow> ('rb, 'sl, 'w) uart \<Rightarrow> ('rb, 'sl, 'w) uart" where
  "uart_callback U evt u = uart_callback_notify_pipe_closure
     (case evt of
        UART_TX_DONE len \<Rightarrow> callback_tx U False len u
      | UART_TX_ABORTED len \<Rightarrow> callback_tx U True len u
      | UART_RX_RDY buf offset len \<Rightarrow> callback_rx_rdy U buf offset len u
      | UART_RX_BUF_REQUEST \<Rightarrow> callback_rx_buf_request U u
      | UART_RX_BUF_RELEASED buf \<Rightarrow> (case buf of None \<Rightarrow> u | Some p \<Rightarrow> pool_unref U p u)
      | UART_RX_DISABLED \<Rightarrow> uart_notify RECEIVE_READY (u\<lparr>u_rx_enabled := False\<rparr>)
      | UART_RX_STOPPED \<Rightarrow> u)"

definition notify_transmit_idle_fn :: "('rb, 'sl, 'w) uart \<Rightarrow> ('rb, 'sl, 'w) uart" where
  "notify_transmit_idle_fn u = uart_notify TRANSMIT_IDLE (u\<lparr>u_idle_work := False\<rparr>)"

definition notify_closed_fn :: "('rb, 'sl, 'w) uart \<Rightarrow> ('rb, 'sl, 'w) uart" where
  "notify_closed_fn u = uart_notify CLOSED (u\<lparr>u_closed_work := False\<rparr>)"

section \<open>Waiting\<close>

text \<open>\<open>k_sleep\<close>: the driver delivers events until the time is over. \<open>k_sem_take\<close> with a timeout:
  the same, until the semaphore is given.\<close>

fun k_sleep :: "('rb, 'sl, 'w) uart_env \<Rightarrow> nat \<Rightarrow> ('rb, 'sl, 'w) uart \<Rightarrow> ('rb, 'sl, 'w) uart" where
  "k_sleep U 0 u = u\<lparr>u_fault := True\<rparr>"
| "k_sleep U (Suc fuel) u =
     (case d_next (u_drv U) (u_world u) of
        (None, w) \<Rightarrow> u\<lparr>u_world := w\<rparr>
      | (Some ev, w) \<Rightarrow> k_sleep U fuel (uart_callback U ev (u\<lparr>u_world := w\<rparr>)))"

fun sem_take_timeout :: "('rb, 'sl, 'w) uart_env \<Rightarrow> nat \<Rightarrow> ('rb, 'sl, 'w) uart \<Rightarrow> bool \<times> ('rb, 'sl, 'w) uart" where
  "sem_take_timeout U fuel u =
     (if 0 < u_tx_done_sem u then (True, u\<lparr>u_tx_done_sem := u_tx_done_sem u - 1\<rparr>)
      else case fuel of
        0 \<Rightarrow> (False, u\<lparr>u_fault := True\<rparr>)
      | Suc fuel \<Rightarrow>
          (case d_next (u_drv U) (u_world u) of
             (None, w) \<Rightarrow> (False, u\<lparr>u_world := w\<rparr>)
           | (Some ev, w) \<Rightarrow> sem_take_timeout U fuel (uart_callback U ev (u\<lparr>u_world := w\<rparr>))))"

text \<open>\<open>while (...) k_sleep(K_MSEC(10));\<close>\<close>

fun sleep_while ::
  "('rb, 'sl, 'w) uart_env \<Rightarrow> (('rb, 'sl, 'w) uart \<Rightarrow> bool) \<Rightarrow> nat \<Rightarrow> ('rb, 'sl, 'w) uart \<Rightarrow> ('rb, 'sl, 'w) uart" where
  "sleep_while U flag 0 u = (if flag u then u\<lparr>u_fault := True\<rparr> else u)"
| "sleep_while U flag (Suc fuel) u = (if flag u then sleep_while U flag fuel (k_sleep U (u_fuel U) u) else u)"

definition rx_disable :: "('rb, 'sl, 'w) uart_env \<Rightarrow> ('rb, 'sl, 'w) uart \<Rightarrow> int \<times> ('rb, 'sl, 'w) uart" where
  "rx_disable U u =
     (let u = sleep_while U u_rx_recovery (u_fuel U) (u\<lparr>u_rx_recovery_disabled := True\<rparr>)
      in case d_rx_disable (u_drv U) (u_world u) of (err, w) \<Rightarrow>
        let u = u\<lparr>u_world := w\<rparr>
        in if err \<noteq> 0 \<and> err \<noteq> - EFAULT then (err, u)
           else (0, sleep_while U u_rx_enabled (u_fuel U) u))"

definition tx_disable :: "('rb, 'sl, 'w) uart_env \<Rightarrow> ('rb, 'sl, 'w) uart \<Rightarrow> int \<times> ('rb, 'sl, 'w) uart" where
  "tx_disable U u =
     (if \<not> u_tx_enabled u then (0, u)
      else case sem_take_timeout U (u_fuel U) (u\<lparr>u_tx_enabled := False\<rparr>) of
        (True, u) \<Rightarrow> (0, u)
      | (False, u) \<Rightarrow>
          (case d_tx_abort (u_drv U) (u_world u) of (err, w) \<Rightarrow>
             let u = u\<lparr>u_world := w\<rparr>
             in if err = 0 then (0, u) else if err \<noteq> - EFAULT then (err, u) else (0, u)))"

definition sm_uart_pipe_init_internal :: "('rb, 'sl, 'w) uart \<Rightarrow> int \<times> ('rb, 'sl, 'w) uart" where
  "sm_uart_pipe_init_internal u =
     (if u_pipe_init u then (- EALREADY, u)
      else (0, u\<lparr>u_idle_work := False, u_closed_work := False, u_pipe_init := True\<rparr>))"

text \<open>\<open>do { err = uart_err_check() ... } while (err)\<close>: the result is 0 or \<open>-EIO\<close> after half a
  second of errors.\<close>

fun err_check_loop ::
  "('rb, 'sl, 'w) uart_env \<Rightarrow> 32 word \<Rightarrow> nat \<Rightarrow> ('rb, 'sl, 'w) uart \<Rightarrow> int \<times> ('rb, 'sl, 'w) uart" where
  "err_check_loop U start 0 u = (0, u\<lparr>u_fault := True\<rparr>)"
| "err_check_loop U start (Suc fuel) u =
     (case d_err_check (u_drv U) (u_world u) of (err, w) \<Rightarrow>
        let u = u\<lparr>u_world := w\<rparr>
        in if err = 0 then (0, u)
           else if 500 < d_uptime (u_drv U) w - start then (- EIO, u)
           else err_check_loop U start fuel (k_sleep U (u_fuel U) u))"

definition sm_uart_handler_enable :: "('rb, 'sl, 'w) uart_env \<Rightarrow> ('rb, 'sl, 'w) uart \<Rightarrow> int \<times> ('rb, 'sl, 'w) uart" where
  "sm_uart_handler_enable U u =
     (if \<not> d_ready (u_drv U) (u_world u) then (- ENODEV, u)
      else case d_config_get (u_drv U) (u_world u) of (err, baudrate) \<Rightarrow>
        if err \<noteq> 0 then (err, u)
        else
          let u = u\<lparr>u_tx_enabled := False, u_rx_enabled := False, u_rx_recovery := False,
                    u_rx_recovery_disabled := False, u_baudrate := baudrate\<rparr>
          in case err_check_loop U (d_uptime (u_drv U) (u_world u)) (u_fuel U) u of (err, u) \<Rightarrow>
            if err \<noteq> 0 then (err, u)
            else case d_callback_set (u_drv U) (u_world u) of (err, w) \<Rightarrow>
              let u = u\<lparr>u_world := w\<rparr>
              in if err \<noteq> 0 then (- EFAULT, u)
                 else case sm_uart_pipe_init_internal u of (err, u) \<Rightarrow>
                   if err \<noteq> 0 \<and> err \<noteq> - EALREADY then (err, u) else (0, u))"

definition sm_uart_handler_disable :: "('rb, 'sl, 'w) uart_env \<Rightarrow> ('rb, 'sl, 'w) uart \<Rightarrow> int \<times> ('rb, 'sl, 'w) uart" where
  "sm_uart_handler_disable U u =
     (case tx_disable U u of (err, u) \<Rightarrow>
        if err \<noteq> 0 then (err, u)
        else case rx_disable U u of (err, u) \<Rightarrow> if err \<noteq> 0 then (err, u) else (0, u))"

section \<open>The pipe\<close>

definition pipe_open :: "('rb, 'sl, 'w) uart_env \<Rightarrow> ('rb, 'sl, 'w) uart \<Rightarrow> int \<times> ('rb, 'sl, 'w) uart" where
  "pipe_open U u =
     (if \<not> u_pipe_init u then (- EINVAL, u)
      else if u_pipe_open u then (- EALREADY, u)
      else case rx_enable U (u\<lparr>u_pipe_open := True, u_rx_recovery_disabled := False\<rparr>) of (ret, u) \<Rightarrow>
        if ret \<noteq> 0 then (ret, u) else (0, uart_notify OPENED (tx_enable u)))"

text \<open>The loop that fills the ring buffer: the number of bytes it takes.\<close>

function put_loop :: "'rb ring_ops \<Rightarrow> bytes \<Rightarrow> 'rb \<Rightarrow> nat \<times> 'rb" where
  "put_loop R d b =
     (if d = [] then (0, b)
      else case rb_put R d b of (n, b) \<Rightarrow>
        if n = 0 then (0, b) else (case put_loop R (drop n d) b of (m, b) \<Rightarrow> (n + m, b)))"
  by pat_completeness auto
termination by (relation "measure (\<lambda>(R, d, b). length d)") auto

declare put_loop.simps [simp del]

definition pipe_transmit :: "('rb, 'sl, 'w) uart_env \<Rightarrow> bytes \<Rightarrow> ('rb, 'sl, 'w) uart \<Rightarrow> int \<times> ('rb, 'sl, 'w) uart" where
  "pipe_transmit U d u =
     (if \<not> u_pipe_open u then (- EPERM, u)
      else if d = [] then (- EINVAL, u)
      else case put_loop (u_rb U) d (u_tx_buf u) of (sent, rb) \<Rightarrow>
        let u = u\<lparr>u_tx_buf := rb\<rparr>
        in if 0 < u_tx_done_sem u
           then case tx_start U (u\<lparr>u_tx_done_sem := u_tx_done_sem u - 1\<rparr>) of (err, u) \<Rightarrow>
             if err = - EAGAIN then (int sent, sem_give u)
             else if err \<noteq> 0 then (err, sem_give u)
             else (int sent, u)
           else (int sent, u))"

text \<open>The loop of \<open>pipe_receive\<close>. A fragment that is longer than the rest of the caller's buffer
  is put back in front with what is left of it, and the buffer is then full.\<close>

function receive_loop :: "('rb, 'sl, 'w) uart_env \<Rightarrow> nat \<Rightarrow> ('rb, 'sl, 'w) uart \<Rightarrow> bytes \<times> ('rb, 'sl, 'w) uart" where
  "receive_loop U sz u =
     (if sz = 0 then ([], u)
      else case u_rx_events u of
        [] \<Rightarrow> ([], u)
      | rx_event # es \<Rightarrow>
          let u = u\<lparr>u_rx_events := es\<rparr>;
              copy_size = min sz (re_len rx_event);
              data = mem_read (d_mem (u_drv U) (u_world u)) (re_buf rx_event) copy_size
          in if re_len rx_event = copy_size
             then case receive_loop U (sz - copy_size) (pool_unref U (re_buf rx_event) u) of (rest, u) \<Rightarrow>
               (data @ rest, u)
             else
               let rx_event = \<lparr>re_buf = re_buf rx_event + copy_size, re_len = re_len rx_event - copy_size\<rparr>
               in if length es < UART_RX_EVENT_COUNT U then (data, u\<lparr>u_rx_events := rx_event # es\<rparr>)
                  else (data, pool_unref U (re_buf rx_event) u))"
  by pat_completeness auto
termination by (relation "measure (\<lambda>(U, sz, u). length (u_rx_events u))") (auto simp: pool_unref_def)

declare receive_loop.simps [simp del]

definition pipe_receive :: "('rb, 'sl, 'w) uart_env \<Rightarrow> nat \<Rightarrow> ('rb, 'sl, 'w) uart \<Rightarrow> bytes \<times> ('rb, 'sl, 'w) uart" where
  "pipe_receive U sz u =
     (if sz = 0 then ([], u)
      else case receive_loop U sz u of (d, u) \<Rightarrow>
        (d, if u_rx_events u = [] then rx_recovery U u else u))"

definition pipe_close :: "('rb, 'sl, 'w) uart_env \<Rightarrow> ('rb, 'sl, 'w) uart \<Rightarrow> int \<times> ('rb, 'sl, 'w) uart" where
  "pipe_close U u =
     (if \<not> u_pipe_open u then (- EALREADY, u) else sm_uart_handler_disable U (u\<lparr>u_pipe_open := False\<rparr>))"

definition sm_uart_pipe_get :: "'p \<Rightarrow> ('rb, 'sl, 'w) uart \<Rightarrow> 'p option" where
  "sm_uart_pipe_get pipe u = (if u_pipe_init u then Some pipe else None)"

end
