(* ===== verification/At_Grammar.thy ===== *)
theory At_Grammar
  imports Sm_Prelude
begin

text \<open>
  The text level of the AT host (\<open>app/src/sm_at_host.c\<close>): the grammar check of a received
  command line (\<open>cmd_grammar_check\<close>), the search for the last occurrence of a string
  (\<open>strrstr\<close>) and the reformatting of the modem's final result code (\<open>format_final_result\<close>).
  The check is proved to decide a declarative grammar, and the reformatting to insert exactly
  one CRLF before the final result without writing outside the response buffer.
\<close>

section \<open>The grammar check\<close>

definition body_char :: "char \<Rightarrow> bool" where
  "body_char c \<longleftrightarrow> c_isalpha c \<or> c_isdigit c \<or> c = CHR ''_''"

text \<open>\<open>cmd\<close> is the memory the pointer argument addresses, up to the NUL the caller has stored
  after \<open>length\<close> bytes.\<close>

definition cmd_grammar_check :: "string \<Rightarrow> nat \<Rightarrow> int" where
  "cmd_grammar_check cmd len =
     (if len < 2 \<or> c_toupper (cstr_nth cmd 0) \<noteq> CHR ''A'' \<or> c_toupper (cstr_nth cmd 1) \<noteq> CHR ''T''
      then - EINVAL
      else let cmd = drop 2 cmd in
      if cstr_nth cmd 0 = NUL then 0
      else if c_toupper (cstr_nth cmd 0) = CHR ''E'' \<and>
              (cstr_nth cmd 1 = CHR ''0'' \<or> cstr_nth cmd 1 = CHR ''1'') \<and> cstr_nth cmd 2 = NUL
      then 0
      else if cstr_nth cmd 0 \<noteq> CHR ''+'' \<and> cstr_nth cmd 0 \<noteq> CHR ''%'' \<and> cstr_nth cmd 0 \<noteq> CHR ''#''
      then - EINVAL
      else let body = drop 1 cmd; cmd = dropWhile body_char body in
      if length cmd = length body then - EINVAL
      else if cstr_nth cmd 0 = NUL then 0
      else if cstr_nth cmd 0 \<noteq> CHR ''='' \<and> cstr_nth cmd 0 \<noteq> CHR ''?'' then - EINVAL
      else if cstr_nth cmd 0 = CHR ''?'' then (if cstr_nth cmd 1 = NUL then 0 else - EINVAL)
      else if cstr_nth cmd 1 = NUL then 0
      else if cstr_nth cmd 1 = CHR ''?'' then (if cstr_nth cmd 2 = NUL then 0 else - EINVAL)
      else 0)"

text \<open>The grammar of the comment above the function, as productions. Parameters are any
  non-empty text. The form of a line is stated once for any predicate on what follows the body.\<close>

definition at_prefix :: "string \<Rightarrow> bool" where
  "at_prefix p \<longleftrightarrow> map c_toupper p = ''AT''"

definition at_separator :: "char \<Rightarrow> bool" where
  "at_separator c \<longleftrightarrow> c \<in> {CHR ''+'', CHR ''%'', CHR ''#''}"

definition at_body :: "string \<Rightarrow> bool" where
  "at_body b \<longleftrightarrow> b \<noteq> [] \<and> list_all body_char b"

inductive at_tail :: "string \<Rightarrow> bool" where
  action: "at_tail []"
| set_none: "at_tail ''=''"
| read: "at_tail ''?''"
| test: "at_tail ''=?''"
| set_params: "ps \<noteq> [] \<Longrightarrow> at_tail (CHR ''='' # ps)"

inductive at_line :: "(string \<Rightarrow> bool) \<Rightarrow> string \<Rightarrow> bool" for T where
  attention: "at_prefix p \<Longrightarrow> at_line T p"
| echo: "at_prefix p \<Longrightarrow> c_toupper e = CHR ''E'' \<Longrightarrow> d \<in> {CHR ''0'', CHR ''1''} \<Longrightarrow>
     at_line T (p @ [e, d])"
| extended: "at_prefix p \<Longrightarrow> at_separator s \<Longrightarrow> at_body b \<Longrightarrow> T t \<Longrightarrow>
     at_line T (p @ s # b @ t)"

definition at_command :: "string \<Rightarrow> bool" where
  "at_command = at_line at_tail"

text \<open>A set command whose parameters are a question mark and something behind it.\<close>

inductive question_params :: "string \<Rightarrow> bool" where
  "at_prefix p \<Longrightarrow> at_separator s \<Longrightarrow> at_body b \<Longrightarrow> ps \<noteq> [] \<Longrightarrow>
     question_params (p @ s # b @ ''=?'' @ ps)"

text \<open>What the check accepts behind the body.\<close>

definition accepted_tail :: "string \<Rightarrow> bool" where
  "accepted_tail t \<longleftrightarrow> at_tail t \<and> (\<forall>ps. t = ''=?'' @ ps \<longrightarrow> ps = [])"

lemma at_prefix_iff: "at_prefix p \<longleftrightarrow>
  (\<exists>a t. p = [a, t] \<and> c_toupper a = CHR ''A'' \<and> c_toupper t = CHR ''T'')"
  by (auto simp: at_prefix_def map_eq_Cons_conv)

inductive_simps at_tail_Nil: "at_tail []"
inductive_simps at_tail_Cons: "at_tail (c # t)"

lemma accepted_tail_Nil: "accepted_tail []"
  by (simp add: accepted_tail_def at_tail_Nil)

lemma accepted_tail_Cons: "accepted_tail (c # t) \<longleftrightarrow>
  c = CHR ''='' \<and> (t = [] \<or> hd t \<noteq> CHR ''?'' \<or> tl t = []) \<or> c = CHR ''?'' \<and> t = []"
  by (cases t) (auto simp: accepted_tail_def at_tail_Cons)

lemma cstr_nth_0 [simp]: "no_nul s \<Longrightarrow> cstr_nth s 0 = NUL \<longleftrightarrow> s = []"
  by (cases s) (auto simp: cstr_nth_def)

lemma cstr_nth_Cons_0 [simp]: "cstr_nth (c # s) 0 = c"
  by (simp add: cstr_nth_def)

lemma cstr_nth_Cons_Suc [simp]: "cstr_nth (c # s) (Suc i) = cstr_nth s i"
  by (simp add: cstr_nth_def)

lemma cstr_nth_Nil [simp]: "cstr_nth [] i = NUL"
  by (simp add: cstr_nth_def)

text \<open>The tail after the body: what the last part of the check accepts.\<close>

definition tail_check :: "string \<Rightarrow> int" where
  "tail_check cmd =
     (if cstr_nth cmd 0 = NUL then 0
      else if cstr_nth cmd 0 \<noteq> CHR ''='' \<and> cstr_nth cmd 0 \<noteq> CHR ''?'' then - EINVAL
      else if cstr_nth cmd 0 = CHR ''?'' then (if cstr_nth cmd 1 = NUL then 0 else - EINVAL)
      else if cstr_nth cmd 1 = NUL then 0
      else if cstr_nth cmd 1 = CHR ''?'' then (if cstr_nth cmd 2 = NUL then 0 else - EINVAL)
      else 0)"

lemma tail_check_iff: "no_nul t \<Longrightarrow> tail_check t = 0 \<longleftrightarrow> accepted_tail t"
proof (cases t)
  case (Cons c u)
  assume "no_nul t"
  with Cons show ?thesis
    by (cases u) (auto simp: tail_check_def accepted_tail_Cons numeral_2_eq_2)
qed (simp add: tail_check_def accepted_tail_Nil)

lemma body_not_tail: "body_char c \<Longrightarrow> accepted_tail (c # t) \<Longrightarrow> False"
  by (auto simp: accepted_tail_Cons body_char_def ctype_defs)

lemma split_body:
  "(\<exists>b t. r = b @ t \<and> at_body b \<and> accepted_tail t) \<longleftrightarrow>
   length (dropWhile body_char r) \<noteq> length r \<and> accepted_tail (dropWhile body_char r)"
  (is "?L \<longleftrightarrow> ?R")
proof
  assume ?L
  then obtain b t where r: "r = b @ t" and b: "b \<noteq> []" "list_all body_char b" and t: "accepted_tail t"
    by (auto simp: at_body_def)
  have "dropWhile body_char r = dropWhile body_char t"
    using r b by (simp add: dropWhile_append2 list_all_iff)
  moreover have "dropWhile body_char t = t"
  proof (cases t)
    case (Cons c u)
    then have "\<not> body_char c" using t body_not_tail by blast
    with Cons show ?thesis by simp
  qed simp
  ultimately show ?R using r b t by simp
next
  assume R: ?R
  have r: "r = takeWhile body_char r @ dropWhile body_char r" by simp
  have "takeWhile body_char r \<noteq> []"
    using R by (metis append_Nil r)
  then have "at_body (takeWhile body_char r)"
    by (auto simp: at_body_def list_all_iff dest: set_takeWhileD)
  with R r show ?L by blast
qed

text \<open>After \<open>AT\<close>: the rest of the check on the rest of the line.\<close>

definition rest_check :: "string \<Rightarrow> int" where
  "rest_check cmd =
     (if cstr_nth cmd 0 = NUL then 0
      else if c_toupper (cstr_nth cmd 0) = CHR ''E'' \<and>
              (cstr_nth cmd 1 = CHR ''0'' \<or> cstr_nth cmd 1 = CHR ''1'') \<and> cstr_nth cmd 2 = NUL
      then 0
      else if cstr_nth cmd 0 \<noteq> CHR ''+'' \<and> cstr_nth cmd 0 \<noteq> CHR ''%'' \<and> cstr_nth cmd 0 \<noteq> CHR ''#''
      then - EINVAL
      else let body = drop 1 cmd; cmd = dropWhile body_char body in
      if length cmd = length body then - EINVAL else tail_check cmd)"

lemma cmd_grammar_check_split:
  "cmd_grammar_check cmd len =
     (if len < 2 \<or> c_toupper (cstr_nth cmd 0) \<noteq> CHR ''A'' \<or> c_toupper (cstr_nth cmd 1) \<noteq> CHR ''T''
      then - EINVAL else rest_check (drop 2 cmd))"
  unfolding cmd_grammar_check_def rest_check_def tail_check_def Let_def ..

lemma no_nul_dropWhile: "no_nul s \<Longrightarrow> no_nul (dropWhile P s)"
  by (auto simp: no_nul_def dest: set_dropWhileD)

lemma separator_not_E: "at_separator s \<Longrightarrow> c_toupper s \<noteq> CHR ''E''"
  by (auto simp: at_separator_def ctype_defs)

definition rest_ok :: "string \<Rightarrow> bool" where
  "rest_ok r \<longleftrightarrow>
    r = [] \<or> (\<exists>e d. r = [e, d] \<and> c_toupper e = CHR ''E'' \<and> d \<in> {CHR ''0'', CHR ''1''}) \<or>
    (\<exists>s b t. r = s # b @ t \<and> at_separator s \<and> at_body b \<and> accepted_tail t)"

lemma rest_check_iff:
  assumes "no_nul r"
  shows "rest_check r = 0 \<longleftrightarrow> rest_ok r"
proof (cases r)
  case Nil
  then show ?thesis by (simp add: rest_check_def rest_ok_def)
next
  case (Cons c r')
  have nn: "no_nul (dropWhile body_char r')" using assms Cons by (simp add: no_nul_dropWhile)
  have ext: "(\<exists>s b t. r = s # b @ t \<and> at_separator s \<and> at_body b \<and> accepted_tail t) \<longleftrightarrow>
    at_separator c \<and> length (dropWhile body_char r') \<noteq> length r' \<and> accepted_tail (dropWhile body_char r')"
    using Cons split_body [of r'] by (metis list.inject)
  have echo: "(\<exists>e d. r = [e, d] \<and> c_toupper e = CHR ''E'' \<and> d \<in> {CHR ''0'', CHR ''1''}) \<longleftrightarrow>
    c_toupper c = CHR ''E'' \<and> (cstr_nth r' 0 = CHR ''0'' \<or> cstr_nth r' 0 = CHR ''1'') \<and>
    cstr_nth r' 1 = NUL"
  proof (cases r')
    case (Cons d u)
    then show ?thesis using \<open>r = c # r'\<close> assms by (cases u) auto
  qed (use Cons in simp)
  show ?thesis
    using assms Cons ext echo tail_check_iff [OF nn]
    by (auto simp: rest_ok_def rest_check_def Let_def numeral_2_eq_2 at_separator_def
        dest: separator_not_E)
qed

lemma accepted_split:
  "at_line accepted_tail (a # t # r) \<longleftrightarrow> c_toupper a = CHR ''A'' \<and> c_toupper t = CHR ''T'' \<and> rest_ok r"
  (is "_ \<longleftrightarrow> ?R")
proof
  assume "at_line accepted_tail (a # t # r)"
  then show ?R by (cases rule: at_line.cases) (auto simp: at_prefix_iff rest_ok_def)
next
  assume R: ?R
  then have p: "at_prefix [a, t]" by (simp add: at_prefix_iff)
  from R consider "r = []"
    | e d where "r = [e, d]" "c_toupper e = CHR ''E''" "d \<in> {CHR ''0'', CHR ''1''}"
    | s b u where "r = s # b @ u" "at_separator s" "at_body b" "accepted_tail u"
    unfolding rest_ok_def by blast
  then show "at_line accepted_tail (a # t # r)"
  proof cases
    case 1
    then show ?thesis using at_line.attention [OF p, of accepted_tail] by simp
  next
    case 2
    then show ?thesis using at_line.echo [OF p 2(2,3), of accepted_tail] by simp
  next
    case 3
    then show ?thesis using at_line.extended [of _ _ _ accepted_tail, OF p 3(2-4)] by simp
  qed
qed

lemma cmd_grammar_check_iff:
  assumes "no_nul s"
  shows "cmd_grammar_check s (length s) = 0 \<longleftrightarrow> at_line accepted_tail s"
proof (cases "\<exists>a t r. s = a # t # r")
  case True
  then obtain a t r where s: "s = a # t # r" by blast
  with assms rest_check_iff [of r] show ?thesis
    by (auto simp: cmd_grammar_check_split accepted_split)
next
  case False
  then have "length s < 2"
    by (metis One_nat_def Suc_1 length_Cons less_Suc_eq_0_disj list.exhaust list.size(3) not_less_eq zero_less_Suc)
  moreover have "\<not> at_line accepted_tail s"
    using False by (auto simp: at_line.simps at_prefix_iff)
  ultimately show ?thesis by (simp add: cmd_grammar_check_split)
qed

lemma cmd_grammar_check_range: "cmd_grammar_check s n \<in> {0, - EINVAL}"
  unfolding cmd_grammar_check_split rest_check_def tail_check_def Let_def by simp

text \<open>The lines that the check accepts are those of the grammar without the set commands whose
  parameters start with a question mark.\<close>

lemma line_tail_unique:
  assumes "length p = 2" "length q = 2" "at_body b" "at_body c" "p @ s # b @ t = q @ r # c @ ''=?'' @ ps"
    and "at_tail t"
  shows "t = ''=?'' @ ps"
proof -
  have d: "dropWhile body_char (b @ u) = u" if "at_body b" "u = [] \<or> \<not> body_char (hd u)" for b u
    using that by (cases u) (auto simp: at_body_def list_all_iff dropWhile_append2)
  have "b @ t = c @ ''=?'' @ ps" using assms(1,2,5) by (simp add: append_eq_append_conv)
  moreover have "dropWhile body_char (b @ t) = t" using assms(3,6)
    by (intro d) (auto simp: at_tail.simps body_char_def ctype_defs)
  moreover have "dropWhile body_char (c @ ''=?'' @ ps) = ''=?'' @ ps" using assms(4)
    by (intro d) (auto simp: body_char_def ctype_defs)
  ultimately show ?thesis by metis
qed

lemma accepted_lines: "at_line accepted_tail s \<longleftrightarrow> at_command s \<and> \<not> question_params s"
proof
  assume "at_line accepted_tail s"
  then show "at_command s \<and> \<not> question_params s"
  proof cases
    case attention
    then show ?thesis by (auto simp: at_command_def at_prefix_iff question_params.simps intro: at_line.attention)
  next
    case (echo p e d)
    then show ?thesis using at_line.echo [OF echo(2-4), of at_tail]
      by (auto simp: at_command_def at_prefix_iff question_params.simps at_body_def)
  next
    case (extended p c b t)
    have "\<not> question_params s"
    proof
      assume "question_params s"
      then obtain q r d ps where q: "s = q @ r # d @ ''=?'' @ ps" "at_prefix q" "at_body d" "ps \<noteq> []"
        by (auto simp: question_params.simps)
      have "t = ''=?'' @ ps" by (rule line_tail_unique [of p q b d c t r ps])
        (use extended q in \<open>auto simp: at_prefix_iff accepted_tail_def\<close>)
      then show False using extended(5) q(4) by (simp add: accepted_tail_def)
    qed
    then show ?thesis using extended by (auto simp: at_command_def accepted_tail_def intro: at_line.extended)
  qed
next
  assume a: "at_command s \<and> \<not> question_params s"
  then have "at_line at_tail s" by (simp add: at_command_def)
  then show "at_line accepted_tail s"
  proof cases
    case (extended p c b t)
    then show ?thesis using a by (auto simp: accepted_tail_def question_params.simps intro!: at_line.extended)
  qed (auto intro: at_line.intros)
qed

section \<open>The last occurrence of a string\<close>

fun strrstr_loop :: "string \<Rightarrow> string \<Rightarrow> nat \<Rightarrow> nat option" where
  "strrstr_loop s t 0 = (if take (length t) s = t then Some 0 else None)"
| "strrstr_loop s t (Suc i) =
     (if take (length t) (drop (Suc i) s) = t then Some (Suc i) else strrstr_loop s t i)"

definition strrstr :: "string option \<Rightarrow> string option \<Rightarrow> nat option" where
  "strrstr str1 str2 =
     (case (str1, str2) of
        (Some s, Some t) \<Rightarrow>
          (if length t > length s \<or> length s = 0 \<or> length t = 0 then None
           else strrstr_loop s t (length s - length t))
      | _ \<Rightarrow> None)"

lemma strrstr_loop_Some:
  "strrstr_loop s t n = Some i \<Longrightarrow>
   i \<le> n \<and> take (length t) (drop i s) = t \<and> (\<forall>j. i < j \<and> j \<le> n \<longrightarrow> take (length t) (drop j s) \<noteq> t)"
  by (induction s t n rule: strrstr_loop.induct) (auto split: if_splits simp: le_Suc_eq)

lemma strrstr_loop_None:
  "strrstr_loop s t n = None \<Longrightarrow> j \<le> n \<Longrightarrow> take (length t) (drop j s) \<noteq> t"
  by (induction s t n rule: strrstr_loop.induct) (auto split: if_splits simp: le_Suc_eq)

lemma strrstr_Some:
  assumes "strrstr (Some s) (Some t) = Some i"
  shows "i + length t \<le> length s" and "take (length t) (drop i s) = t"
    and "i < j \<Longrightarrow> take (length t) (drop j s) \<noteq> t"
proof -
  from assms have l: "length t \<le> length s" "t \<noteq> []"
    and lp: "strrstr_loop s t (length s - length t) = Some i"
    by (auto simp: strrstr_def split: if_splits)
  from strrstr_loop_Some [OF lp] l show "i + length t \<le> length s"
    and eq: "take (length t) (drop i s) = t" by auto
  show "take (length t) (drop j s) \<noteq> t" if "i < j"
  proof (cases "j \<le> length s - length t")
    case True
    with strrstr_loop_Some [OF lp] that show ?thesis by blast
  next
    case False
    then have "length s - j < length t" using l by (cases t) auto
    then have "length (take (length t) (drop j s)) < length t" by simp
    then show ?thesis by force
  qed
qed

section \<open>The final result code\<close>

text \<open>The search order of \<open>format_final_result\<close>: OK, ERROR, CME ERROR, CMS ERROR.\<close>

definition final_result_pos :: "string \<Rightarrow> nat option" where
  "final_result_pos buf =
     (case strrstr (Some buf) (Some (''OK'' @ CRLF_STR)) of Some r \<Rightarrow> Some r
      | None \<Rightarrow> (case strrstr (Some buf) (Some (''ERROR'' @ CRLF_STR)) of Some r \<Rightarrow> Some r
      | None \<Rightarrow> (case strrstr (Some buf) (Some ''+CME ERROR:'') of Some r \<Rightarrow> Some r
      | None \<Rightarrow> strrstr (Some buf) (Some ''+CMS ERROR:''))))"

text \<open>\<open>memmove\<close> within a buffer, and the whole function on the memory of the buffer.\<close>

definition buf_write :: "bytes \<Rightarrow> nat \<Rightarrow> bytes \<Rightarrow> bytes" where
  "buf_write b at d = take at b @ d @ drop (at + length d) b"

definition format_final_result :: "bytes \<Rightarrow> nat \<Rightarrow> nat \<Rightarrow> bytes" where
  "format_final_result buf buf_len buf_max_len =
     (case final_result_pos (cstr buf) of
        None \<Rightarrow> buf
      | Some result \<Rightarrow>
          (if result \<noteq> length CRLF_STR then
             (if buf_len + length CRLF_STR < buf_max_len then
                (let buf = buf_write buf (result + length CRLF_STR) (drop result (cstr buf));
                     buf = buf[result := CR];
                     buf = buf[result + 1 := LF]
                 in buf[buf_len + length CRLF_STR := NUL])
              else buf)
           else buf))"

lemma final_result_pos_bound:
  "final_result_pos s = Some r \<Longrightarrow> r < length s"
  by (auto simp: final_result_pos_def split: option.splits dest!: strrstr_Some(1))

lemma cstr_split:
  assumes "length (cstr b) < length b"
  shows "b = cstr b @ NUL # drop (Suc (length (cstr b))) b"
proof -
  have "b ! length (cstr b) = NUL"
    using assms nth_length_takeWhile [of "\<lambda>c. c \<noteq> NUL" b] by (simp add: cstr_def)
  moreover have "take (length (cstr b)) b = cstr b"
    unfolding cstr_def by (rule takeWhile_eq_take [symmetric])
  ultimately show ?thesis using id_take_nth_drop [OF assms] by simp
qed

lemma buf_write_shift:
  assumes "r \<le> length s"
  shows "buf_write (s @ NUL # x # y # rest) (r + 2) (drop r s) =
    take (r + 2) (s @ NUL # x # y # rest) @ drop r s @ y # rest"
  using assms by (simp add: buf_write_def)

lemma format_final_result_memory:
  assumes s: "s = cstr b" and len: "length s + 2 < length b"
    and pos: "final_result_pos s = Some r" and r: "r \<noteq> 2"
  shows "format_final_result b (length s) (length b) =
    take r s @ CRLF_STR @ drop r s @ NUL # drop (length s + 3) b"
proof -
  from len s have "b = s @ NUL # drop (Suc (length s)) b" using cstr_split by simp
  moreover obtain x y rest where "drop (Suc (length s)) b = x # y # rest"
  proof -
    have "2 \<le> length (drop (Suc (length s)) b)" using len by simp
    then show ?thesis using that
      by (metis Suc_le_length_iff numeral_2_eq_2)
  qed
  ultimately have b: "b = s @ NUL # x # y # rest" by simp
  have rl: "r \<le> length s" using final_result_pos_bound [OF pos] by simp
  define m where "m = take (r + 2) b @ drop r s @ y # rest"
  have m: "buf_write b (r + 2) (drop r s) = m"
    unfolding m_def b using rl by (rule buf_write_shift)
  obtain c d where tk: "take (r + 2) b = take r s @ c # d # []"
  proof -
    have "take (r + 2) b = take r b @ take 2 (drop r b)" by (rule take_add)
    moreover have "take r b = take r s" using b rl by simp
    moreover have "length (take 2 (drop r b)) = 2" using b rl by simp
    then obtain c d where "take 2 (drop r b) = [c, d]"
      by (auto simp: length_Suc_conv numeral_2_eq_2 simp del: length_take)
    ultimately show ?thesis using that by simp
  qed
  have "m[r := CR, r + 1 := LF, length s + 2 := NUL] = take r s @ CRLF_STR @ drop r s @ NUL # rest"
    unfolding m_def tk using rl by (simp add: list_update_append nth_append Suc_diff_le)
  moreover have "drop (length s + 3) b = rest" by (simp add: b)
  ultimately show ?thesis
    using pos r len m s by (simp add: format_final_result_def Let_def)
qed

section \<open>Properties\<close>



text \<open>The reformatting of a response inserts one CRLF in front of the final result code and
  terminates the string there; it writes nothing else, in particular nothing past the response
  buffer, which keeps its length.\<close>

lemma format_final_result_inserts:
  assumes "final_result_pos (cstr b) = Some r" and "r \<noteq> 2" and "length (cstr b) + 2 < length b"
  defines "b' \<equiv> format_final_result b (length (cstr b)) (length b)"
  shows "cstr b' = take r (cstr b) @ CRLF_STR @ drop r (cstr b) \<and> length b' = length b \<and>
    drop (length (cstr b) + 3) b' = drop (length (cstr b) + 3) b"
proof -
  have r: "r < length (cstr b)" by (rule final_result_pos_bound [OF assms(1)])
  define s where "s = take r (cstr b) @ CRLF_STR @ drop r (cstr b)"
  have b': "b' = s @ NUL # drop (length (cstr b) + 3) b"
    unfolding b'_def s_def using format_final_result_memory [OF refl assms(3,1,2)] by simp
  have l: "length s = length (cstr b) + 2" using r by (simp add: s_def)
  have "no_nul s" by (simp add: s_def)
  then have "cstr b' = s" unfolding b' by (rule cstr_append_nul)
  moreover have "length b' = length b" "drop (length (cstr b) + 3) b' = drop (length (cstr b) + 3) b"
    unfolding b' using assms(3) l by simp_all
  ultimately show ?thesis by (simp add: s_def)
qed

end
