(* ===== verification/Client_Response.thy ===== *)
theory Client_Response
  imports At_Grammar
begin

text \<open>
  The response side of the AT client (\<open>sm_at_client.c\<close>, \<open>sm_at_client_monitor.c\<close>): the search for a
  final result code in what was received, the accumulation of received fragments in the response
  buffer, and the dispatch of notifications to the monitors.
\<close>

section \<open>Finding the response\<close>

datatype at_cmd_state = AT_CMD_OK | AT_CMD_ERROR | AT_CMD_ERROR_CMS | AT_CMD_ERROR_CME | AT_CMD_PENDING

definition at_responses :: "(at_cmd_state \<times> string) list" where
  "at_responses =
     [(AT_CMD_OK, CRLF_STR @ ''OK'' @ CRLF_STR),
      (AT_CMD_ERROR, CRLF_STR @ ''ERROR'' @ CRLF_STR),
      (AT_CMD_ERROR_CMS, CRLF_STR @ ''+CMS ERROR:''),
      (AT_CMD_ERROR_CME, CRLF_STR @ ''+CME ERROR:'')]"

text \<open>The loop over the responses: the new state and the number of bytes processed, or None when
  the function returns 0.\<close>

fun parse_loop :: "(at_cmd_state \<times> string) list \<Rightarrow> bytes \<Rightarrow> (at_cmd_state \<times> nat) option" where
  "parse_loop [] data = None"
| "parse_loop ((at_state, rsp) # rs) data =
     (case strstr_pos data rsp of
        None \<Rightarrow> parse_loop rs data
      | Some i \<Rightarrow>
          (if at_state = AT_CMD_OK \<or> at_state = AT_CMD_ERROR then Some (at_state, i + length rsp)
           else case strstr_pos (drop (i + length rsp) data) CRLF_STR of
             Some j \<Rightarrow> Some (at_state, i + length rsp + j + 2)
           | None \<Rightarrow> parse_loop rs data))"

definition parse_at_response :: "bytes \<Rightarrow> (at_cmd_state \<times> nat) option" where
  "parse_at_response data = parse_loop at_responses data"

section \<open>The response buffer\<close>

text \<open>\<open>at_cmd_resp[0..resp_len)\<close>, \<open>sm_at_state\<close>, the semaphore \<open>at_rsp\<close>, whether a data handler is
  registered, and what was passed to the monitors and to the data handler.\<close>

record response =
  rs_resp :: bytes
  rs_state :: at_cmd_state
  rs_at_rsp :: nat
  rs_has_data_handler :: bool
  rs_dispatched :: "bytes list"
  rs_data :: "bytes list"

definition response_pending :: "nat \<Rightarrow> nat \<Rightarrow> bytes \<Rightarrow> response \<Rightarrow> response" where
  "response_pending max_size copy_len data R =
     (let R' = (case parse_at_response (rs_resp R) of None \<Rightarrow> R | Some (st, n) \<Rightarrow> R\<lparr>rs_state := st\<rparr>);
          processed = (case parse_at_response (rs_resp R) of None \<Rightarrow> 0 | Some (st, n) \<Rightarrow> n);
          processed = (if processed = 0 \<and> length (rs_resp R) = max_size then length (rs_resp R) else processed)
      in if 0 < processed then
           let resp = drop processed (rs_resp R);
               resp = (if copy_len < length data
                       then resp @ take (min (length data - copy_len) (max_size - length resp)) (drop copy_len data)
                       else resp)
           in R'\<lparr>rs_resp := resp, rs_at_rsp := 1\<rparr>
         else R')"

definition response_handler :: "nat \<Rightarrow> bytes \<Rightarrow> response \<Rightarrow> response" where
  "response_handler max_size data R =
     (let copy_len = min (length data) (max_size - length (rs_resp R));
          R = R\<lparr>rs_resp := rs_resp R @ take copy_len data\<rparr>;
          R = (if rs_state R = AT_CMD_PENDING then response_pending max_size copy_len data R else R);
          resp = rs_resp R; n = length resp;
          R = (if rs_state R \<noteq> AT_CMD_PENDING \<and> 2 \<le> n \<and> resp ! (n - 2) = CR \<and> resp ! (n - 1) = LF
               then R\<lparr>rs_dispatched := rs_dispatched R @ [resp], rs_resp := []\<rparr> else R)
      in if rs_has_data_handler R then R\<lparr>rs_data := rs_data R @ [data]\<rparr> else R)"

section \<open>Monitors\<close>

text \<open>\<open>struct sm_monitor_entry\<close>: a filter (None is \<open>MON_ANY\<close>) and whether it is paused. The heap of
  the notifications is a parameter: whether it has room for one of a given size.\<close>

record sm_monitor_entry =
  mon_filter :: "string option"
  mon_paused :: bool

definition sm_monitor_pause :: "sm_monitor_entry \<Rightarrow> sm_monitor_entry" where
  "sm_monitor_pause mon = mon\<lparr>mon_paused := True\<rparr>"

definition sm_monitor_resume :: "sm_monitor_entry \<Rightarrow> sm_monitor_entry" where
  "sm_monitor_resume mon = mon\<lparr>mon_paused := False\<rparr>"

definition is_paused :: "sm_monitor_entry \<Rightarrow> bool" where
  "is_paused mon = mon_paused mon"

definition has_match :: "sm_monitor_entry \<Rightarrow> string \<Rightarrow> bool" where
  "has_match mon notif \<longleftrightarrow> (case mon_filter mon of None \<Rightarrow> True | Some f \<Rightarrow> strstr_pos notif f \<noteq> None)"

text \<open>The check before queuing searches the bytes of the notification; the check before the handler
  is called searches the C string that was copied.\<close>

definition has_monitor_match :: "sm_monitor_entry list \<Rightarrow> bytes \<Rightarrow> bool" where
  "has_monitor_match mons d \<longleftrightarrow> list_ex (\<lambda>e. \<not> is_paused e \<and> has_match e d) mons"

text \<open>The loop of \<open>sm_monitor_dispatch\<close> on the bytes from \<open>current\<close> on: the notifications put into the
  queue and the heap.\<close>

function dispatch_loop :: "(nat \<Rightarrow> 'h \<Rightarrow> bool \<times> 'h) \<Rightarrow> sm_monitor_entry list \<Rightarrow> bytes \<Rightarrow> 'h \<Rightarrow> string list \<times> 'h" where
  "dispatch_loop alloc mons current hp =
     (if current = [] then ([], hp)
      else
        let next_delim = strstr_pos current (CRLF_STR @ CRLF_STR);
            notif_len = (case next_delim of Some i \<Rightarrow> i + 2 | None \<Rightarrow> length current);
            notif = take notif_len current;
            rest = (\<lambda>hp. case next_delim of Some i \<Rightarrow> dispatch_loop alloc mons (drop (i + 2) current) hp | None \<Rightarrow> ([], hp))
        in if has_monitor_match mons notif then
             (case alloc (4 + notif_len + 1) hp of
                (False, hp) \<Rightarrow> ([], hp)
              | (True, hp) \<Rightarrow> (case rest hp of (ns, hp) \<Rightarrow> (cstr notif # ns, hp)))
           else rest hp)"
  by pat_completeness auto
termination by (relation "measure (\<lambda>(alloc, mons, current, hp). length current)") auto

declare dispatch_loop.simps [simp del]

text \<open>The queue and the work item of the monitors. \<open>mon_calls\<close>: the calls of the handlers, by the
  number of the monitor.\<close>

record 'h monitor =
  mon_fifo :: "string list"
  mon_heap :: 'h
  mon_work :: bool
  mon_calls :: "(nat \<times> string) list"

definition sm_monitor_dispatch ::
  "(nat \<Rightarrow> 'h \<Rightarrow> bool \<times> 'h) \<Rightarrow> sm_monitor_entry list \<Rightarrow> bytes \<Rightarrow> 'h monitor \<Rightarrow> 'h monitor" where
  "sm_monitor_dispatch alloc mons notif M =
     (case dispatch_loop alloc mons notif (mon_heap M) of (ns, hp) \<Rightarrow>
        M\<lparr>mon_fifo := mon_fifo M @ ns, mon_heap := hp, mon_work := mon_work M \<or> ns \<noteq> []\<rparr>)"

definition monitor_calls :: "sm_monitor_entry list \<Rightarrow> string \<Rightarrow> (nat \<times> string) list" where
  "monitor_calls mons d =
     map (\<lambda>i. (i, d)) (filter (\<lambda>i. \<not> is_paused (mons ! i) \<and> has_match (mons ! i) d) [0..<length mons])"

fun sm_monitor_task :: "(nat \<Rightarrow> 'h \<Rightarrow> 'h) \<Rightarrow> sm_monitor_entry list \<Rightarrow> string list \<Rightarrow> 'h monitor \<Rightarrow> 'h monitor" where
  "sm_monitor_task dealloc mons [] M = M\<lparr>mon_fifo := []\<rparr>"
| "sm_monitor_task dealloc mons (d # ds) M =
     sm_monitor_task dealloc mons ds
       (M\<lparr>mon_fifo := ds, mon_heap := dealloc (4 + length d + 1) (mon_heap M), mon_calls := mon_calls M @ monitor_calls mons d\<rparr>)"

section \<open>Facts about the search\<close>

lemma parse_loop_Some:
  "parse_loop rs d = Some (st, n) \<Longrightarrow> (\<forall>(q, r) \<in> set rs. r \<noteq> [] \<and> q \<noteq> AT_CMD_PENDING) \<Longrightarrow>
   0 < n \<and> n \<le> length d \<and> st \<noteq> AT_CMD_PENDING"
proof (induction rs d rule: parse_loop.induct)
  case (2 q r rs d)
  show ?case
  proof (cases "strstr_pos d r")
    case None
    then show ?thesis using 2 by auto
  next
    case (Some i)
    note b = strstr_pos_Some [OF Some]
    consider (final) "q = AT_CMD_OK \<or> q = AT_CMD_ERROR"
      | (cut) "\<not> (q = AT_CMD_OK \<or> q = AT_CMD_ERROR)" "strstr_pos (drop (i + length r) d) CRLF_STR = None"
      | (line) j where "\<not> (q = AT_CMD_OK \<or> q = AT_CMD_ERROR)" "strstr_pos (drop (i + length r) d) CRLF_STR = Some j"
      by (cases "strstr_pos (drop (i + length r) d) CRLF_STR") auto
    then show ?thesis
    proof cases
      case final
      then show ?thesis using "2.prems" Some b by auto
    next
      case cut
      then show ?thesis using "2.IH"(2) [OF Some cut] "2.prems" Some by auto
    next
      case line
      then show ?thesis using "2.prems" Some b strstr_pos_Some [OF line(2)] by auto
    qed
  qed
qed simp

lemma parse_Some:
  "parse_at_response d = Some (st, n) \<Longrightarrow> 0 < n \<and> n \<le> length d \<and> st \<noteq> AT_CMD_PENDING"
  unfolding parse_at_response_def by (erule parse_loop_Some) (simp add: at_responses_def)

text \<open>A prefix of the data holds no response whose marker the data does not hold earlier.\<close>

lemma strstr_pos_prefix:
  assumes "strstr_pos (p @ q) r = Some i" and "length p < i + length r" shows "strstr_pos p r = None"
proof (cases "strstr_pos p r")
  case (Some j)
  have j: "prefix r (drop j p)" "j + length r \<le> length p" using strstr_pos_Some [OF Some] by auto
  then have "prefix r (drop j (p @ q))" by (auto simp: prefix_def)
  moreover have "j < i" using j assms(2) by linarith
  ultimately show ?thesis using strstr_pos_first [OF assms(1)] by blast
qed

lemma strstr_pos_prefix_None: "\<not> sublist r (p @ q) \<Longrightarrow> strstr_pos p r = None"
  unfolding strstr_pos_None_iff by (meson sublist_append_rightI sublist_order.order_trans)

text \<open>A text without a separator is a part of one side of it.\<close>

lemma sublist_sep:
  assumes "c \<notin> set x" and "sublist x (a @ c # b)" shows "sublist x a \<or> sublist x b"
proof -
  obtain p s where e: "a @ c # b = p @ x @ s" using assms(2) by (auto simp: sublist_def)
  then consider (left) u where "a = p @ u" "u @ c # b = x @ s" | (right) u where "p = a @ u" "c # b = u @ x @ s"
    by (auto simp: append_eq_append_conv2)
  then show ?thesis
  proof cases
    case left
    then consider v where "u = x @ v" | v where "x = u @ v" "c # b = v @ s" by (auto simp: append_eq_append_conv2)
    then show ?thesis
    proof cases
      case 2
      then show ?thesis using assms(1) left by (cases v) auto
    qed (use left in auto)
  next
    case right
    then show ?thesis using assms(1) by (cases u) (auto simp: Cons_eq_append_conv)
  qed
qed

section \<open>Facts about the response buffer\<close>

lemma response_handler_pending:
  assumes "rs_state R = AT_CMD_PENDING" and "length (rs_resp R @ d) < m" and "parse_at_response (rs_resp R @ d) = None"
  shows "rs_resp (response_handler m d R) = rs_resp R @ d \<and> rs_state (response_handler m d R) = AT_CMD_PENDING \<and>
    rs_at_rsp (response_handler m d R) = rs_at_rsp R \<and> rs_dispatched (response_handler m d R) = rs_dispatched R"
  using assms by (simp add: response_handler_def response_pending_def Let_def)

lemma response_handler_found:
  assumes "rs_state R = AT_CMD_PENDING" and "length (rs_resp R @ d) \<le> m" and "parse_at_response (rs_resp R @ d) = Some (st, n)"
  defines "rest \<equiv> drop n (rs_resp R @ d)"
  shows "rs_state (response_handler m d R) = st \<and> rs_at_rsp (response_handler m d R) = 1 \<and>
    (if 2 \<le> length rest \<and> rest ! (length rest - 2) = CR \<and> rest ! (length rest - 1) = LF
     then rs_resp (response_handler m d R) = [] \<and> rs_dispatched (response_handler m d R) = rs_dispatched R @ [rest]
     else rs_resp (response_handler m d R) = rest \<and> rs_dispatched (response_handler m d R) = rs_dispatched R)"
proof -
  note n = parse_Some [OF assms(3)]
  have c: "min (length d) (m - length (rs_resp R)) = length d" using assms(2) by simp
  have p: "response_pending m (length d) d (R\<lparr>rs_resp := rs_resp R @ d\<rparr>) = R\<lparr>rs_state := st, rs_resp := rest, rs_at_rsp := 1\<rparr>"
    using assms(3) n by (simp add: response_pending_def rest_def)
  show ?thesis using n assms(1) unfolding response_handler_def c by (simp add: p Let_def)
qed

lemma response_run_pending:
  assumes "rs_state R = AT_CMD_PENDING" and "length (rs_resp R @ concat ds) < m"
    and "\<And>k. 0 < k \<Longrightarrow> k \<le> length ds \<Longrightarrow> parse_at_response (rs_resp R @ concat (take k ds)) = None"
  defines "R' \<equiv> foldl (\<lambda>R d. response_handler m d R) R ds"
  shows "rs_resp R' = rs_resp R @ concat ds \<and> rs_state R' = AT_CMD_PENDING \<and> rs_at_rsp R' = rs_at_rsp R \<and> rs_dispatched R' = rs_dispatched R"
  unfolding R'_def using assms(1-3)
proof (induction ds arbitrary: R)
  case (Cons d ds)
  have h: "rs_resp (response_handler m d R) = rs_resp R @ d" "rs_state (response_handler m d R) = AT_CMD_PENDING"
    "rs_at_rsp (response_handler m d R) = rs_at_rsp R" "rs_dispatched (response_handler m d R) = rs_dispatched R"
    using response_handler_pending [OF Cons.prems(1), of d m] Cons.prems(2) Cons.prems(3) [of 1] by auto
  have "parse_at_response (rs_resp (response_handler m d R) @ concat (take k ds)) = None" if "0 < k" "k \<le> length ds" for k
    using Cons.prems(3) [of "Suc k"] that by (simp add: h)
  from Cons.IH [OF h(2) _ this] Cons.prems(2) show ?case by (simp add: h)
qed simp

section \<open>Facts about the monitors\<close>

text \<open>The notifications of a buffer.\<close>

function notif_split :: "bytes \<Rightarrow> bytes list" where
  "notif_split d =
     (if d = [] then []
      else case strstr_pos d (CRLF_STR @ CRLF_STR) of
        None \<Rightarrow> [d]
      | Some i \<Rightarrow> take (i + 2) d # notif_split (drop (i + 2) d))"
  by pat_completeness auto
termination by (relation "measure length") auto

declare notif_split.simps [simp del]

lemma notif_split_concat: "concat (notif_split d) = d"
  by (induction d rule: notif_split.induct) (subst notif_split.simps, auto split: option.split)

lemma dispatch_loop_split:
  assumes "\<And>n hp. fst (alloc n hp)"
  shows "fst (dispatch_loop alloc mons d hp) = map cstr (filter (has_monitor_match mons) (notif_split d))"
proof (induction d arbitrary: hp rule: notif_split.induct)
  case (1 d)
  show ?case
  proof (cases "d = []")
    case False
    show ?thesis
    proof (cases "strstr_pos d (CRLF_STR @ CRLF_STR)")
      case None
      then show ?thesis using False assms
        by (subst dispatch_loop.simps, subst notif_split.simps) (auto simp: Let_def case_prod_unfold split: bool.split)
    next
      case (Some i)
      then show ?thesis using False 1 [OF False Some] assms
        by (subst dispatch_loop.simps, subst notif_split.simps) (auto simp: Let_def case_prod_unfold split: bool.split)
    qed
  qed (simp add: dispatch_loop.simps notif_split.simps)
qed

lemma sm_monitor_task_calls:
  "mon_calls (sm_monitor_task dealloc mons ds M) = mon_calls M @ concat (map (monitor_calls mons) ds) \<and>
   mon_fifo (sm_monitor_task dealloc mons ds M) = []"
  by (induction ds arbitrary: M) auto

lemma no_match_no_calls: "\<not> has_monitor_match mons d \<Longrightarrow> monitor_calls mons d = []"
  by (auto simp: has_monitor_match_def monitor_calls_def list_ex_iff filter_empty_conv)

lemma concat_filter_calls:
  "(\<forall>d \<in> set ds. no_nul d) \<Longrightarrow>
   concat (map (monitor_calls mons) (map cstr (filter (has_monitor_match mons) ds))) = concat (map (monitor_calls mons) ds)"
  by (induction ds) (auto simp: no_match_no_calls)

lemma notif_split_no_nul: "no_nul d \<Longrightarrow> \<forall>x \<in> set (notif_split d). no_nul x"
proof -
  assume "no_nul d"
  then have "no_nul (concat (notif_split d))" by (simp add: notif_split_concat)
  then show ?thesis by (auto simp: no_nul_def)
qed

section \<open>Properties\<close>


text \<open>The response buffer never holds more than its size, whatever is received and in whatever
  fragments, and a handler for data gets every fragment unchanged.\<close>

lemma response_buffer_bounded:
  fixes ds :: "bytes list"
  assumes "length (rs_resp R) \<le> m"
  defines "R' \<equiv> foldl (\<lambda>R d. response_handler m d R) R ds"
  shows "length (rs_resp R') \<le> m \<and> (rs_has_data_handler R \<longrightarrow> rs_data R' = rs_data R @ ds)"
proof -
  have pend: "length (rs_resp (response_pending m c d R)) \<le> m \<and> rs_has_data_handler (response_pending m c d R) = rs_has_data_handler R \<and>
      rs_data (response_pending m c d R) = rs_data R" if "length (rs_resp R) \<le> m" for c d R
    using that by (auto simp: response_pending_def Let_def min_def split: option.split prod.split)
  have step: "length (rs_resp (response_handler m d R)) \<le> m \<and> rs_has_data_handler (response_handler m d R) = rs_has_data_handler R \<and>
      rs_data (response_handler m d R) = (if rs_has_data_handler R then rs_data R @ [d] else rs_data R)"
    if "length (rs_resp R) \<le> m" for d R
  proof -
    have le: "length (rs_resp R) + min (length d) (m - length (rs_resp R)) \<le> m" using that by simp
    show ?thesis using le pend [of "R\<lparr>rs_resp := rs_resp R @ take (min (length d) (m - length (rs_resp R))) d\<rparr>" "min (length d) (m - length (rs_resp R))" d]
      by (simp add: response_handler_def Let_def)
  qed
  have "length (rs_resp (foldl (\<lambda>R d. response_handler m d R) R ds)) \<le> m \<and>
      (rs_has_data_handler R \<longrightarrow> rs_data (foldl (\<lambda>R d. response_handler m d R) R ds) = rs_data R @ ds)"
    using assms(1) by (induction ds arbitrary: R) (use step in simp_all)
  then show ?thesis by (simp add: R'_def)
qed

text \<open>A response that does not fit into the buffer wakes the sender although no result code was
  found: the command is still pending, and what was received of it is dropped.\<close>

lemma response_overflow_pending:
  assumes "rs_state R = AT_CMD_PENDING" and "length (rs_resp R @ d) = m" and "0 < m" and "parse_at_response (rs_resp R @ d) = None"
  shows "rs_state (response_handler m d R) = AT_CMD_PENDING \<and> rs_at_rsp (response_handler m d R) = 1 \<and>
    rs_resp (response_handler m d R) = []"
  using assms by (auto simp: response_handler_def response_pending_def Let_def)

text \<open>Once the buffer is full of bytes that do not end a line while no command is pending, nothing
  that is received later reaches the monitors.\<close>

lemma response_full_buffer_mutes_monitors:
  fixes ds :: "bytes list"
  assumes "rs_state R \<noteq> AT_CMD_PENDING" and "length (rs_resp R) = m" and "2 \<le> m" and "rs_resp R ! (m - 1) \<noteq> LF"
  defines "R' \<equiv> foldl (\<lambda>R d. response_handler m d R) R ds"
  shows "rs_dispatched R' = rs_dispatched R \<and> rs_resp R' = rs_resp R"
proof -
  have "rs_dispatched (foldl (\<lambda>R d. response_handler m d R) R ds) = rs_dispatched R \<and>
      rs_resp (foldl (\<lambda>R d. response_handler m d R) R ds) = rs_resp R"
    using assms(1-4)
  proof (induction ds arbitrary: R)
    case (Cons d ds)
    have "rs_state (response_handler m d R) = rs_state R" "rs_resp (response_handler m d R) = rs_resp R"
      "rs_dispatched (response_handler m d R) = rs_dispatched R"
      using Cons.prems by (simp_all add: response_handler_def Let_def)
    then show ?case using Cons.IH [of "response_handler m d R"] Cons.prems by simp
  qed simp
  then show ?thesis by (simp add: R'_def)
qed

text \<open>Dispatching a buffer of notifications and running the work item calls, for every
  notification of the buffer in order, exactly the active monitors whose filter it matches: splitting
  the buffer loses nothing, and the check before a notification is queued never withholds one from a
  monitor. Here the heap has room.\<close>

lemma monitors_get_matching_notifications:
  fixes mons :: "sm_monitor_entry list"
  assumes "\<And>n hp. fst (alloc n hp)" and "no_nul d" and "mon_fifo M = []"
  defines "M' \<equiv> sm_monitor_dispatch alloc mons d M"
  shows "concat (notif_split d) = d \<and>
    mon_calls (sm_monitor_task dealloc mons (mon_fifo M') M') = mon_calls M @ concat (map (monitor_calls mons) (notif_split d))"
proof -
  have f: "mon_fifo M' = map cstr (filter (has_monitor_match mons) (notif_split d))" "mon_calls M' = mon_calls M"
    using dispatch_loop_split [OF assms(1)] assms(3)
    by (simp_all add: M'_def sm_monitor_dispatch_def case_prod_unfold)
  show ?thesis using sm_monitor_task_calls [of dealloc mons "mon_fifo M'" M'] f
      concat_filter_calls [OF notif_split_no_nul [OF assms(2)]] notif_split_concat by simp
qed


end
