(* ===== verification/C_Library.thy ===== *)
theory C_Library
  imports Sm_Prelude
begin

text \<open>
  The number conversions and the formatted input of the C library that the sources call: \<open>strtol\<close> and
  \<open>strtoul\<close> for a long of 32 bits, and \<open>sscanf\<close> on a format given as the list of its directives. The
  round trips with the decimal printers of the prelude are proved here once for the components that
  parse what the modem or the user wrote.
\<close>

section \<open>strtol and strtoul\<close>

text \<open>The value of a digit in a base up to 36.\<close>

definition base_digit :: "nat \<Rightarrow> char \<Rightarrow> bool" where
  "base_digit base c \<longleftrightarrow>
     (if c_isdigit c then byte_val c - 48 < base
      else c_isalpha c \<and> byte_val (c_toupper c) - 55 < base)"

definition base_digit_val :: "char \<Rightarrow> nat" where
  "base_digit_val c = (if c_isdigit c then byte_val c - 48 else byte_val (c_toupper c) - 55)"

definition base_val :: "nat \<Rightarrow> string \<Rightarrow> nat" where
  "base_val base s = foldl (\<lambda>n c. base * n + base_digit_val c) 0 s"

definition c_sign :: "string \<Rightarrow> bool \<times> string" where
  "c_sign s = (case s of [] \<Rightarrow> (False, []) | c # t \<Rightarrow> if c = CHR ''-'' then (True, t) else if c = CHR ''+'' then (False, t) else (False, s))"

text \<open>The base and the text behind an optional prefix \<open>0x\<close>, which needs a digit behind it.\<close>

definition c_base :: "nat \<Rightarrow> string \<Rightarrow> nat \<times> string" where
  "c_base base s =
     (if (base = 0 \<or> base = 16) \<and> 2 < length s \<and> s ! 0 = CHR ''0'' \<and> c_toupper (s ! 1) = CHR ''X'' \<and> base_digit 16 (s ! 2)
      then (16, drop 2 s)
      else (if base = 0 then if s \<noteq> [] \<and> s ! 0 = CHR ''0'' then 8 else 10 else base, s))"

text \<open>The sign, the value and the text that was not converted, or None when there is no number.\<close>

definition c_strto :: "nat \<Rightarrow> string \<Rightarrow> (bool \<times> nat \<times> string) option" where
  "c_strto base s =
     (case c_sign (dropWhile c_isspace s) of (neg, s) \<Rightarrow>
        (case c_base base s of (b, s) \<Rightarrow>
           (let ds = takeWhile (base_digit b) s
            in if ds = [] then None else Some (neg, base_val b ds, dropWhile (base_digit b) s))))"

abbreviation (input) LONG_MAX :: int where "LONG_MAX \<equiv> 2147483647"
abbreviation (input) LONG_MIN :: int where "LONG_MIN \<equiv> - 2147483648"

text \<open>The result, whether \<open>errno\<close> is \<open>ERANGE\<close>, and the end pointer as the text behind it.\<close>

definition c_strtol :: "string \<Rightarrow> nat \<Rightarrow> int \<times> bool \<times> string" where
  "c_strtol s base =
     (case c_strto base s of
        None \<Rightarrow> (0, False, s)
      | Some (neg, n, rest) \<Rightarrow>
          (let v = (if neg then - int n else int n)
           in if LONG_MAX < v then (LONG_MAX, True, rest)
              else if v < LONG_MIN then (LONG_MIN, True, rest)
              else (v, False, rest)))"

definition c_strtoul :: "string \<Rightarrow> nat \<Rightarrow> 32 word" where
  "c_strtoul s base =
     (case c_strto base s of
        None \<Rightarrow> 0
      | Some (neg, n, rest) \<Rightarrow>
          (if 2 ^ 32 \<le> n then - 1 else if neg then - word_of_nat n else word_of_nat n))"

section \<open>sscanf\<close>

text \<open>A directive of the format: a character that must appear, white space, a decimal number, a
  non-empty run of characters of a set up to a width. The flag says whether the value is stored.\<close>

datatype scan_dir =
    SLit char
  | SSpace
  | SDec bool
  | SSet bool nat "char \<Rightarrow> bool"

datatype scan_val = VInt int | VStr string

text \<open>One conversion on the rest of the input: Inl True when the input ended, Inl False when it does
  not match, and the value and the rest otherwise. A decimal number is stored in an int of 32 bits: as
  with \<open>strtol\<close>, which converts it, a number outside of its range gives the nearest value in it.\<close>

definition int32_clamp :: "int \<Rightarrow> int" where
  "int32_clamp v = (if LONG_MAX < v then LONG_MAX else if v < LONG_MIN then LONG_MIN else v)"

lemma int32_clamp_id [simp]: "LONG_MIN \<le> v \<Longrightarrow> v \<le> LONG_MAX \<Longrightarrow> int32_clamp v = v"
  by (simp add: int32_clamp_def)

definition scan_dec :: "string \<Rightarrow> bool + int \<times> string" where
  "scan_dec s =
     (let s = dropWhile c_isspace s
      in if s = [] then Inl True
         else case c_sign s of (neg, s) \<Rightarrow>
           (let ds = takeWhile c_isdigit s
            in if ds = [] then Inl (s = [])
               else Inr (int32_clamp (if neg then - int (digits_val ds) else int (digits_val ds)), dropWhile c_isdigit s)))"

definition scan_set :: "nat \<Rightarrow> (char \<Rightarrow> bool) \<Rightarrow> string \<Rightarrow> bool + string \<times> string" where
  "scan_set width P s =
     (if s = [] then Inl True
      else let x = take width (takeWhile P s) in if x = [] then Inl False else Inr (x, drop (length x) s))"

text \<open>\<open>EOF\<close> is returned when the input ends before the first conversion; \<open>conv\<close> says whether one was
  made.\<close>

abbreviation (input) EOF :: int where "EOF \<equiv> - 1"

fun scan_loop :: "scan_dir list \<Rightarrow> string \<Rightarrow> bool \<Rightarrow> scan_val list \<Rightarrow> int \<times> scan_val list" where
  "scan_loop [] s conv vs = (int (length vs), vs)"
| "scan_loop (SLit c # ds) s conv vs =
     (case s of
        [] \<Rightarrow> (if conv then int (length vs) else EOF, vs)
      | x # s \<Rightarrow> if x = c then scan_loop ds s conv vs else (int (length vs), vs))"
| "scan_loop (SSpace # ds) s conv vs = scan_loop ds (dropWhile c_isspace s) conv vs"
| "scan_loop (SDec st # ds) s conv vs =
     (case scan_dec s of
        Inl eof \<Rightarrow> (if eof \<and> \<not> conv then EOF else int (length vs), vs)
      | Inr (v, s) \<Rightarrow> scan_loop ds s True (if st then vs @ [VInt v] else vs))"
| "scan_loop (SSet st width P # ds) s conv vs =
     (case scan_set width P s of
        Inl eof \<Rightarrow> (if eof \<and> \<not> conv then EOF else int (length vs), vs)
      | Inr (v, s) \<Rightarrow> scan_loop ds s True (if st then vs @ [VStr v] else vs))"

definition c_sscanf :: "string \<Rightarrow> scan_dir list \<Rightarrow> int \<times> scan_val list" where
  "c_sscanf s fmt = scan_loop fmt s False []"

text \<open>The characters of a format that stand for themselves.\<close>

abbreviation slits :: "string \<Rightarrow> scan_dir list" where "slits s \<equiv> map SLit s"

section \<open>Round trips with the printers\<close>

lemma digit_is_base [simp]: "c_isdigit c \<Longrightarrow> base_digit 10 c"
  by (auto simp: base_digit_def c_isdigit_def)

lemma digit_no_space [simp]: "c_isdigit c \<Longrightarrow> \<not> c_isspace c"
  by (auto simp: c_isdigit_def c_isspace_def)

lemma minus_no_space [simp]: "\<not> c_isspace CHR ''-''" "\<not> c_isdigit CHR ''-''"
  by (simp_all add: c_isspace_def c_isdigit_def byte_val_def)

lemma digit_no_sign [simp]: "c_isdigit c \<Longrightarrow> c \<noteq> CHR ''-'' \<and> c \<noteq> CHR ''+''"
  by (auto simp: c_isdigit_def byte_val_def)

lemma base_val_digits: "(\<forall>c\<in>set s. c_isdigit c) \<Longrightarrow> base_val 10 s = digits_val s"
proof -
  assume "\<forall>c\<in>set s. c_isdigit c"
  then have "foldl (\<lambda>n c. 10 * n + base_digit_val c) k s = foldl (\<lambda>n c. 10 * n + digit_val c) k s" for k
    by (induction s arbitrary: k) (auto simp: base_digit_val_def digit_val_def)
  then show ?thesis by (simp add: base_val_def digits_val_def)
qed

lemma show_nat_hd: "\<exists>c t. show_nat n = c # t \<and> c_isdigit c"
  using show_nat_digits [of n] show_nat_not_Nil [of n] by (cases "show_nat n") auto

lemma takeWhile_append_stop: "(\<forall>c\<in>set s. P c) \<Longrightarrow> (r = [] \<or> \<not> P (hd r)) \<Longrightarrow> takeWhile P (s @ r) = s \<and> dropWhile P (s @ r) = r"
  by (induction s) (auto simp: takeWhile_eq_Nil_iff dropWhile_eq_self_iff)

lemma show_int_split:
  obtains s where "\<forall>c\<in>set s. c_isdigit c" "s \<noteq> []" "show_int i = (if i < 0 then CHR ''-'' # s else s)" "int (digits_val s) = \<bar>i\<bar>"
proof -
  show thesis using that [of "show_nat (nat \<bar>i\<bar>)"] show_nat_digits by (auto simp: show_int_def)
qed

lemma c_sign_digits: "(\<forall>c\<in>set s. c_isdigit c) \<Longrightarrow> s \<noteq> [] \<Longrightarrow> c_sign (s @ r) = (False, s @ r) \<and> dropWhile c_isspace (s @ r) = s @ r"
  by (cases s) (auto simp: c_sign_def)

lemma c_strto_show_int:
  assumes "r = [] \<or> \<not> base_digit 10 (hd r)"
  shows "c_strto 10 (show_int i @ r) = Some (i < 0, nat \<bar>i\<bar>, r)"
proof -
  obtain s where s: "\<forall>c\<in>set s. c_isdigit c" "s \<noteq> []" "show_int i = (if i < 0 then CHR ''-'' # s else s)" "int (digits_val s) = \<bar>i\<bar>"
    by (rule show_int_split)
  have t: "takeWhile (base_digit 10) (s @ r) = s" "dropWhile (base_digit 10) (s @ r) = r"
    using takeWhile_append_stop [of s "base_digit 10" r] s(1) assms by auto
  have v: "base_val 10 s = nat \<bar>i\<bar>" using base_val_digits [OF s(1)] s(4) by simp
  have b: "c_base 10 x = (10, x)" for x by (simp add: c_base_def)
  show ?thesis using s(2,3) t v c_sign_digits [OF s(1,2), of r] by (simp add: c_strto_def b c_sign_def [of "CHR ''-'' # s @ r"])
qed

lemma scan_dec_show_int:
  assumes "r = [] \<or> \<not> c_isdigit (hd r)"
  shows "scan_dec (show_int i @ r) = Inr (int32_clamp i, r)"
proof -
  obtain s where s: "\<forall>c\<in>set s. c_isdigit c" "s \<noteq> []" "show_int i = (if i < 0 then CHR ''-'' # s else s)" "int (digits_val s) = \<bar>i\<bar>"
    by (rule show_int_split)
  have t: "takeWhile c_isdigit (s @ r) = s" "dropWhile c_isdigit (s @ r) = r"
    using takeWhile_append_stop [of s c_isdigit r] s(1) assms by auto
  show ?thesis using s(2-4) t c_sign_digits [OF s(1,2), of r]
    by (auto simp: scan_dec_def Let_def simp del: dropWhile_eq_Nil_conv simp: c_sign_def [of "CHR ''-'' # s @ r"])
qed

lemma scan_lits [simp]: "scan_loop (slits p @ ds) (p @ s) conv vs = scan_loop ds s conv vs"
  by (induction p) auto

end
