(* ===== verification/At_Client.thy ===== *)
theory At_Client
  imports Uart_Handler Client_Response C_Library
begin

text \<open>
  The AT client library (\<open>sm_at_client.c\<close>): its UART with reference-counted receive blocks and a
  transmit ring, the DTR and RI lines with the automatic switching of the UART, and the calls of the
  application. The driver, the slab and the ring buffer are the same parameters as those of the UART
  handler; the GPIO driver is another one.
\<close>

section \<open>State\<close>

text \<open>The GPIO calls on the DTR and RI pins. \<open>g_ri_config\<close> returns the error and whether the pin has a
  pull-down.\<close>

record 'w gpio_ops =
  g_dtr_ready :: "'w \<Rightarrow> bool"
  g_dtr_configure :: "'w \<Rightarrow> int \<times> 'w"
  g_dtr_set :: "bool \<Rightarrow> 'w \<Rightarrow> int \<times> 'w"
  g_dtr_disconnect :: "'w \<Rightarrow> int \<times> 'w"
  g_ri_ready :: "'w \<Rightarrow> bool"
  g_ri_configure :: "'w \<Rightarrow> int \<times> 'w"
  g_ri_config :: "'w \<Rightarrow> int \<times> bool"
  g_ri_sense_set :: "bool \<Rightarrow> 'w \<Rightarrow> 'w"
  g_ri_add_callback :: "'w \<Rightarrow> int \<times> 'w"
  g_ri_interrupt :: "'w \<Rightarrow> int \<times> 'w"

text \<open>\<open>k_hwfc\<close>: the error of reading the configuration of the UART, and whether it has hardware flow
  control. \<open>k_term\<close>: the configured command terminator.\<close>

record ('rb, 'sl, 'w) client_env =
  k_cfg_rx_buf_size :: nat
  k_cfg_rx_buf_count :: nat
  k_cfg_resp_max_size :: nat
  k_term :: string
  k_rb :: "'rb ring_ops"
  k_slab :: "'sl slab_ops"
  k_drv :: "'w uart_drv"
  k_gpio :: "'w gpio_ops"
  k_hwfc :: "'w \<Rightarrow> int \<times> bool"
  k_fuel :: nat

record ('rb, 'sl, 'w) client =
  k_tx_enabled :: bool
  k_rx_enabled :: bool
  k_rx_recovery :: bool
  k_rx_recovery_disabled :: bool
  k_tx_done_sem :: nat
  k_uart_disabled_sem :: nat
  k_tx_buf :: 'rb
  k_pool :: "'sl rx_pool"
  k_events :: "rx_event_t list"
  k_rsp :: response
  k_initialized :: bool
  k_ri_handler :: bool
  k_ri_calls :: nat
  k_automatic :: bool
  k_active :: bool
  k_inactivity :: nat
  k_rx_process_work :: bool
  k_enable_work :: bool
  k_disable_work :: "nat option"
  k_in_workq :: bool
  k_world :: 'w
  k_fault :: bool

text \<open>\<open>struct rx_buf_t\<close> of the client has a counter of four bytes only.\<close>

abbreviation (input) CLIENT_BUF_HDR :: nat where "CLIENT_BUF_HDR \<equiv> 4"

definition client_block_size :: "('rb, 'sl, 'w) client_env \<Rightarrow> nat" where
  "client_block_size U = CLIENT_BUF_HDR + k_cfg_rx_buf_size U"

text \<open>The subtraction is on \<open>size_t\<close> of 32 bits and wraps around below the first data byte of the
  slab.\<close>

definition client_block_start_get :: "('rb, 'sl, 'w) client_env \<Rightarrow> nat \<Rightarrow> nat" where
  "client_block_start_get U buf = unat (word_of_nat buf - word_of_nat CLIENT_BUF_HDR :: 32 word) div client_block_size U"

lemma client_block_start:
  assumes "CLIENT_BUF_HDR \<le> buf" and "buf < 2 ^ 32"
  shows "client_block_start_get U buf = (buf - CLIENT_BUF_HDR) div client_block_size U"
proof -
  have "(word_of_nat buf - word_of_nat CLIENT_BUF_HDR :: 32 word) = word_of_nat (buf - CLIENT_BUF_HDR)"
    using assms(1) by (metis of_nat_diff)
  moreover have "unat (word_of_nat (buf - CLIENT_BUF_HDR) :: 32 word) = buf - CLIENT_BUF_HDR"
    using assms(2) by (simp add: unat_of_nat)
  ultimately show ?thesis by (simp add: client_block_start_get_def)
qed

definition client_block_addr :: "('rb, 'sl, 'w) client_env \<Rightarrow> nat \<Rightarrow> nat" where
  "client_block_addr U b = b * client_block_size U"

definition client_block_data :: "('rb, 'sl, 'w) client_env \<Rightarrow> nat \<Rightarrow> nat" where
  "client_block_data U b = b * client_block_size U + CLIENT_BUF_HDR"

definition buf_alloc :: "('rb, 'sl, 'w) client_env \<Rightarrow> ('rb, 'sl, 'w) client \<Rightarrow> nat option \<times> ('rb, 'sl, 'w) client" where
  "buf_alloc U u = (case rx_buf_alloc (k_slab U) (k_pool u) of (b, P) \<Rightarrow> (b, u\<lparr>k_pool := P\<rparr>))"

definition buf_ref :: "('rb, 'sl, 'w) client_env \<Rightarrow> nat \<Rightarrow> ('rb, 'sl, 'w) client \<Rightarrow> ('rb, 'sl, 'w) client" where
  "buf_ref U p u = u\<lparr>k_pool := rx_buf_ref (client_block_start_get U) p (k_pool u)\<rparr>"

definition buf_unref :: "('rb, 'sl, 'w) client_env \<Rightarrow> nat \<Rightarrow> ('rb, 'sl, 'w) client \<Rightarrow> ('rb, 'sl, 'w) client" where
  "buf_unref U p u = u\<lparr>k_pool := rx_buf_unref (k_slab U) (client_block_start_get U) p (k_pool u)\<rparr>"

section \<open>Reception\<close>

definition client_rx_enable :: "('rb, 'sl, 'w) client_env \<Rightarrow> ('rb, 'sl, 'w) client \<Rightarrow> int \<times> ('rb, 'sl, 'w) client" where
  "client_rx_enable U u =
     (if k_rx_enabled u then (0, u)
      else case buf_alloc U u of
        (None, u) \<Rightarrow> (- ENOMEM, u)
      | (Some b, u) \<Rightarrow>
          (case d_rx_enable (k_drv U) (client_block_data U b) (k_cfg_rx_buf_size U) (k_world u) of (ret, w) \<Rightarrow>
             let u = u\<lparr>k_world := w\<rparr>
             in if ret = - EBUSY then (0, (buf_unref U (client_block_data U b) u)\<lparr>k_rx_enabled := True\<rparr>)
                else if ret \<noteq> 0 then (ret, buf_unref U (client_block_data U b) u)
                else (0, u\<lparr>k_rx_enabled := True\<rparr>)))"

text \<open>A failed recovery schedules the work item again.\<close>

definition client_rx_recovery :: "('rb, 'sl, 'w) client_env \<Rightarrow> ('rb, 'sl, 'w) client \<Rightarrow> ('rb, 'sl, 'w) client" where
  "client_rx_recovery U u =
     (if k_rx_recovery_disabled u then u
      else case client_rx_enable U (u\<lparr>k_rx_recovery := True\<rparr>) of (err, u) \<Rightarrow>
        (if err \<noteq> 0 then u\<lparr>k_rx_process_work := True\<rparr> else u)\<lparr>k_rx_recovery := False\<rparr>)"

text \<open>The work item that hands the queued fragments to the response handler.\<close>

fun rx_process_loop :: "('rb, 'sl, 'w) client_env \<Rightarrow> rx_event_t list \<Rightarrow> ('rb, 'sl, 'w) client \<Rightarrow> ('rb, 'sl, 'w) client" where
  "rx_process_loop U [] u = u\<lparr>k_events := []\<rparr>"
| "rx_process_loop U (e # es) u =
     rx_process_loop U es
       (buf_unref U (re_buf e)
         (u\<lparr>k_events := es,
            k_rsp := response_handler (k_cfg_resp_max_size U)
                       (mem_read (d_mem (k_drv U) (k_world u)) (re_buf e) (re_len e)) (k_rsp u)\<rparr>))"

definition rx_process :: "('rb, 'sl, 'w) client_env \<Rightarrow> ('rb, 'sl, 'w) client \<Rightarrow> ('rb, 'sl, 'w) client" where
  "rx_process U u = client_rx_recovery U (rx_process_loop U (k_events u) (u\<lparr>k_rx_process_work := False\<rparr>))"

section \<open>Transmission and the callback of the driver\<close>

definition client_tx_start :: "('rb, 'sl, 'w) client_env \<Rightarrow> ('rb, 'sl, 'w) client \<Rightarrow> int \<times> ('rb, 'sl, 'w) client" where
  "client_tx_start U u =
     (if \<not> k_tx_enabled u then (- EAGAIN, u)
      else case rb_get_claim (k_rb U) (rb_capacity_get (k_rb U) (k_tx_buf u)) (k_tx_buf u) of (buf, rb) \<Rightarrow>
        (case d_tx (k_drv U) buf (k_world u) of (err, w) \<Rightarrow>
           let u = u\<lparr>k_tx_buf := rb, k_world := w\<rparr>
           in if err \<noteq> 0 then (err, u\<lparr>k_tx_buf := snd (rb_get_finish (k_rb U) 0 rb)\<rparr>) else (0, u)))"

definition client_sem_give :: "('rb, 'sl, 'w) client \<Rightarrow> ('rb, 'sl, 'w) client" where
  "client_sem_give u = u\<lparr>k_tx_done_sem := 1\<rparr>"

definition client_tx_enable :: "('rb, 'sl, 'w) client \<Rightarrow> int \<times> ('rb, 'sl, 'w) client" where
  "client_tx_enable u = (0, if k_tx_enabled u then u else client_sem_give (u\<lparr>k_tx_enabled := True\<rparr>))"

text \<open>Its only caller passes \<open>K_NO_WAIT\<close>.\<close>

definition client_tx_disable :: "('rb, 'sl, 'w) client_env \<Rightarrow> ('rb, 'sl, 'w) client \<Rightarrow> int \<times> ('rb, 'sl, 'w) client" where
  "client_tx_disable U u =
     (if \<not> k_tx_enabled u then (0, u)
      else
        let u = u\<lparr>k_tx_enabled := False\<rparr>
        in if 0 < k_tx_done_sem u then (0, u\<lparr>k_tx_done_sem := k_tx_done_sem u - 1\<rparr>)
           else case d_tx_abort (k_drv U) (k_world u) of (err, w) \<Rightarrow>
             let u = u\<lparr>k_world := w\<rparr>
             in if err = 0 then (0, u) else if err \<noteq> - EFAULT then (err, u) else (0, u))"

definition reschedule_disable :: "('rb, 'sl, 'w) client \<Rightarrow> ('rb, 'sl, 'w) client" where
  "reschedule_disable u = (if k_active u \<and> k_automatic u then u\<lparr>k_disable_work := Some (k_inactivity u)\<rparr> else u)"

definition client_tx_done :: "('rb, 'sl, 'w) client_env \<Rightarrow> nat \<Rightarrow> ('rb, 'sl, 'w) client \<Rightarrow> ('rb, 'sl, 'w) client" where
  "client_tx_done U len u =
     (let u = u\<lparr>k_tx_buf := snd (rb_get_finish (k_rb U) len (k_tx_buf u))\<rparr>
      in if rb_is_empty (k_rb U) (k_tx_buf u) then reschedule_disable (client_sem_give u)
         else case client_tx_start U u of (err, u) \<Rightarrow> if err \<noteq> 0 then client_sem_give u else u)"

text \<open>An abort drops everything that waits to be sent.\<close>

definition client_tx_aborted :: "('rb, 'sl, 'w) client_env \<Rightarrow> nat \<Rightarrow> ('rb, 'sl, 'w) client \<Rightarrow> ('rb, 'sl, 'w) client" where
  "client_tx_aborted U len u =
     reschedule_disable ((client_sem_give
       (u\<lparr>k_tx_buf := rb_reset (k_rb U) (snd (rb_get_finish (k_rb U) len (k_tx_buf u)))\<rparr>))\<lparr>k_rsp := (k_rsp u)\<lparr>rs_at_rsp := 0\<rparr>\<rparr>)"

definition client_rx_rdy :: "('rb, 'sl, 'w) client_env \<Rightarrow> nat \<Rightarrow> nat \<Rightarrow> nat \<Rightarrow> ('rb, 'sl, 'w) client \<Rightarrow> ('rb, 'sl, 'w) client" where
  "client_rx_rdy U buf offset len u =
     (let u = buf_ref U buf u
      in if k_cfg_rx_buf_count U \<le> length (k_events u) then buf_unref U buf u
         else
           let u = u\<lparr>k_events := k_events u @ [\<lparr>re_buf = buf + offset, re_len = len\<rparr>], k_rx_process_work := True\<rparr>
           in if rb_is_empty (k_rb U) (k_tx_buf u) then reschedule_disable u else u)"

definition client_rx_buf_request :: "('rb, 'sl, 'w) client_env \<Rightarrow> ('rb, 'sl, 'w) client \<Rightarrow> ('rb, 'sl, 'w) client" where
  "client_rx_buf_request U u =
     (case buf_alloc U u of
        (None, u) \<Rightarrow> u
      | (Some b, u) \<Rightarrow>
          (case d_rx_buf_rsp (k_drv U) (client_block_data U b) (k_cfg_rx_buf_size U) (k_world u) of (err, w) \<Rightarrow>
             let u = u\<lparr>k_world := w\<rparr>
             in if err \<noteq> 0 then buf_unref U (client_block_addr U b) u else u))"

definition client_callback :: "('rb, 'sl, 'w) client_env \<Rightarrow> uart_event \<Rightarrow> ('rb, 'sl, 'w) client \<Rightarrow> ('rb, 'sl, 'w) client" where
  "client_callback U evt u =
     (case evt of
        UART_TX_DONE len \<Rightarrow> client_tx_done U len u
      | UART_TX_ABORTED len \<Rightarrow> client_tx_aborted U len u
      | UART_RX_RDY buf offset len \<Rightarrow> client_rx_rdy U buf offset len u
      | UART_RX_BUF_REQUEST \<Rightarrow> client_rx_buf_request U u
      | UART_RX_BUF_RELEASED buf \<Rightarrow> (case buf of None \<Rightarrow> u | Some p \<Rightarrow> buf_unref U p u)
      | UART_RX_DISABLED \<Rightarrow> u\<lparr>k_rx_enabled := False, k_uart_disabled_sem := 1, k_rx_process_work := True\<rparr>
      | UART_RX_STOPPED \<Rightarrow> u)"

section \<open>Waiting\<close>

text \<open>While the caller waits, the work item of the reception runs when it is pending, unless the caller
  occupies the work queue itself (\<open>k_in_workq\<close>), and the driver delivers events. The result is whether
  the condition came true; \<open>forever\<close>: the wait has no timeout. The work items that switch the UART on
  and off are steps of their own.\<close>

fun client_wait ::
  "('rb, 'sl, 'w) client_env \<Rightarrow> bool \<Rightarrow> (('rb, 'sl, 'w) client \<Rightarrow> bool) \<Rightarrow> nat \<Rightarrow> ('rb, 'sl, 'w) client \<Rightarrow> bool \<times> ('rb, 'sl, 'w) client" where
  "client_wait U forever ready fuel u =
     (if ready u then (True, u)
      else case fuel of
        0 \<Rightarrow> (False, u\<lparr>k_fault := True\<rparr>)
      | Suc fuel \<Rightarrow>
          (if k_rx_process_work u \<and> \<not> k_in_workq u then client_wait U forever ready fuel (rx_process U u)
           else case d_next (k_drv U) (k_world u) of
             (None, w) \<Rightarrow>
               (if forever then client_wait U forever ready fuel (u\<lparr>k_world := w\<rparr>) else (False, u\<lparr>k_world := w\<rparr>))
           | (Some ev, w) \<Rightarrow> client_wait U forever ready fuel (client_callback U ev (u\<lparr>k_world := w\<rparr>))))"

declare client_wait.simps [simp del]

definition client_sleep :: "('rb, 'sl, 'w) client_env \<Rightarrow> ('rb, 'sl, 'w) client \<Rightarrow> ('rb, 'sl, 'w) client" where
  "client_sleep U u = snd (client_wait U False (\<lambda>u. False) (k_fuel U) u)"

fun client_sleep_while ::
  "('rb, 'sl, 'w) client_env \<Rightarrow> (('rb, 'sl, 'w) client \<Rightarrow> bool) \<Rightarrow> nat \<Rightarrow> ('rb, 'sl, 'w) client \<Rightarrow> ('rb, 'sl, 'w) client" where
  "client_sleep_while U flag 0 u = (if flag u then u\<lparr>k_fault := True\<rparr> else u)"
| "client_sleep_while U flag (Suc fuel) u = (if flag u then client_sleep_while U flag fuel (client_sleep U u) else u)"

definition client_rx_disable :: "('rb, 'sl, 'w) client_env \<Rightarrow> ('rb, 'sl, 'w) client \<Rightarrow> int \<times> ('rb, 'sl, 'w) client" where
  "client_rx_disable U u =
     (let u = client_sleep_while U k_rx_recovery (k_fuel U) (u\<lparr>k_rx_recovery_disabled := True\<rparr>)
      in if \<not> k_rx_enabled u then (0, u)
         else case d_rx_disable (k_drv U) (k_world u) of (err, w) \<Rightarrow>
           let u = u\<lparr>k_uart_disabled_sem := 0, k_world := w\<rparr>
           in if err \<noteq> 0 \<and> err \<noteq> - EFAULT then (err, u)
              else case client_wait U False (\<lambda>u. 0 < k_uart_disabled_sem u) (k_fuel U) u of (taken, u) \<Rightarrow>
                (0, u\<lparr>k_uart_disabled_sem := 0, k_rx_enabled := False\<rparr>))"

section \<open>The DTR and RI lines\<close>

definition dtr_pin_set :: "('rb, 'sl, 'w) client_env \<Rightarrow> bool \<Rightarrow> ('rb, 'sl, 'w) client \<Rightarrow> int \<times> ('rb, 'sl, 'w) client" where
  "dtr_pin_set U level u =
     (if g_dtr_ready (k_gpio U) (k_world u) then
        (case g_dtr_set (k_gpio U) level (k_world u) of (err, w) \<Rightarrow>
           (if err \<noteq> 0 then - EFAULT else 0, u\<lparr>k_world := w\<rparr>))
      else (- EFAULT, u))"

definition wait_without_hwfc :: "('rb, 'sl, 'w) client_env \<Rightarrow> ('rb, 'sl, 'w) client \<Rightarrow> ('rb, 'sl, 'w) client" where
  "wait_without_hwfc U u =
     (case k_hwfc U (k_world u) of (err, rts_cts) \<Rightarrow> if err \<noteq> 0 \<or> \<not> rts_cts then client_sleep U u else u)"

definition dtr_uart_disable :: "('rb, 'sl, 'w) client_env \<Rightarrow> ('rb, 'sl, 'w) client \<Rightarrow> int \<times> ('rb, 'sl, 'w) client" where
  "dtr_uart_disable U u =
     (case client_tx_disable U (u\<lparr>k_active := False\<rparr>) of (err, u) \<Rightarrow>
        if err \<noteq> 0 then (err, u)
        else case dtr_pin_set U False u of (err, u) \<Rightarrow>
          if err \<noteq> 0 then (err, u)
          else case client_rx_disable U (wait_without_hwfc U u) of (err, u) \<Rightarrow>
            if err \<noteq> 0 then (err, u) else (0, u))"

definition dtr_uart_disable_work_fn :: "('rb, 'sl, 'w) client_env \<Rightarrow> ('rb, 'sl, 'w) client \<Rightarrow> ('rb, 'sl, 'w) client" where
  "dtr_uart_disable_work_fn U u = (snd (dtr_uart_disable U (u\<lparr>k_disable_work := None, k_in_workq := True\<rparr>)))\<lparr>k_in_workq := False\<rparr>"

definition dtr_uart_enable :: "('rb, 'sl, 'w) client_env \<Rightarrow> ('rb, 'sl, 'w) client \<Rightarrow> int \<times> ('rb, 'sl, 'w) client" where
  "dtr_uart_enable U u =
     (case client_rx_enable U (u\<lparr>k_active := True, k_rx_recovery_disabled := False\<rparr>) of (err, u) \<Rightarrow>
        if err \<noteq> 0 then (err, u)
        else case dtr_pin_set U True u of (err, u) \<Rightarrow>
          if err \<noteq> 0 then (err, u)
          else case client_tx_enable (wait_without_hwfc U u) of (err, u) \<Rightarrow>
            if err \<noteq> 0 then (err, u)
            else if \<not> rb_is_empty (k_rb U) (k_tx_buf u) then
              (case client_tx_start U u of (err, u) \<Rightarrow> if err \<noteq> 0 then (err, u) else (0, u))
            else (0, u))"

definition dtr_uart_enable_work_fn :: "('rb, 'sl, 'w) client_env \<Rightarrow> ('rb, 'sl, 'w) client \<Rightarrow> ('rb, 'sl, 'w) client" where
  "dtr_uart_enable_work_fn U u = (snd (dtr_uart_enable U (u\<lparr>k_enable_work := False, k_in_workq := True\<rparr>)))\<lparr>k_in_workq := False\<rparr>"

definition gpio_cb_func :: "bool \<Rightarrow> ('rb, 'sl, 'w) client \<Rightarrow> ('rb, 'sl, 'w) client" where
  "gpio_cb_func ri_pin u =
     (if \<not> ri_pin then u
      else
        let u = (if k_automatic u \<and> \<not> k_active u then u\<lparr>k_enable_work := True\<rparr> else u)
        in if k_ri_handler u then u\<lparr>k_ri_calls := k_ri_calls u + 1\<rparr> else u)"

definition gpio_init_ri :: "'w gpio_ops \<Rightarrow> 'w \<Rightarrow> int \<times> 'w" where
  "gpio_init_ri G w =
     (case g_ri_configure G w of (err, w) \<Rightarrow>
        if err \<noteq> 0 then (err, w)
        else case g_ri_config G w of (err, pull_down) \<Rightarrow>
          if err \<noteq> 0 then (err, w)
          else case g_ri_add_callback G (g_ri_sense_set G pull_down w) of (err, w) \<Rightarrow>
            if err \<noteq> 0 then (err, w)
            else case g_ri_interrupt G w of (err, w) \<Rightarrow> if err \<noteq> 0 then (err, w) else (0, w))"

definition gpio_init :: "('rb, 'sl, 'w) client_env \<Rightarrow> ('rb, 'sl, 'w) client \<Rightarrow> int \<times> ('rb, 'sl, 'w) client" where
  "gpio_init U u =
     (let G = k_gpio U;
          dtr = (if g_dtr_ready G (k_world u) then g_dtr_configure G (k_world u) else (0, k_world u));
          u = u\<lparr>k_world := snd dtr\<rparr>
      in if fst dtr \<noteq> 0 then (- EFAULT, u)
         else if g_ri_ready G (k_world u) then
           (case gpio_init_ri G (k_world u) of (err, w) \<Rightarrow> (err, u\<lparr>k_world := w\<rparr>))
         else (0, u))"

section \<open>Initialisation\<close>

fun client_err_check ::
  "('rb, 'sl, 'w) client_env \<Rightarrow> 32 word \<Rightarrow> nat \<Rightarrow> ('rb, 'sl, 'w) client \<Rightarrow> int \<times> ('rb, 'sl, 'w) client" where
  "client_err_check U start 0 u = (0, u\<lparr>k_fault := True\<rparr>)"
| "client_err_check U start (Suc fuel) u =
     (case d_err_check (k_drv U) (k_world u) of (err, w) \<Rightarrow>
        let u = u\<lparr>k_world := w\<rparr>
        in if err = 0 then (0, u)
           else if 500 < d_uptime (k_drv U) w - start then (- EIO, u)
           else client_err_check U start fuel (client_sleep U u))"

definition uart_init :: "('rb, 'sl, 'w) client_env \<Rightarrow> ('rb, 'sl, 'w) client \<Rightarrow> int \<times> ('rb, 'sl, 'w) client" where
  "uart_init U u =
     (if \<not> d_ready (k_drv U) (k_world u) then (- ENODEV, u)
      else case d_config_get (k_drv U) (k_world u) of (err, baudrate) \<Rightarrow>
        if err \<noteq> 0 then (err, u)
        else case client_err_check U (d_uptime (k_drv U) (k_world u)) (k_fuel U) u of (err, u) \<Rightarrow>
          if err \<noteq> 0 then (err, u)
          else case d_callback_set (k_drv U) (k_world u) of (err, w) \<Rightarrow>
            let u = u\<lparr>k_world := w\<rparr>
            in if err \<noteq> 0 then (- EFAULT, u)
               else case client_rx_enable U (u\<lparr>k_tx_enabled := False, k_rx_enabled := False, k_rx_recovery := False,
                                               k_rx_recovery_disabled := False\<rparr>) of (err, u) \<Rightarrow>
                 (err, snd (client_tx_enable u)))"

definition sm_at_client_init ::
  "('rb, 'sl, 'w) client_env \<Rightarrow> bool \<Rightarrow> bool \<Rightarrow> nat \<Rightarrow> ('rb, 'sl, 'w) client \<Rightarrow> int \<times> ('rb, 'sl, 'w) client" where
  "sm_at_client_init U handler automatic inactivity u =
     (if k_initialized u then (- EALREADY, u)
      else
        let u = u\<lparr>k_initialized := True, k_ri_handler := False,
                  k_rsp := (k_rsp u)\<lparr>rs_has_data_handler := handler, rs_state := AT_CMD_OK\<rparr>\<rparr>
        in case gpio_init U u of (err, u) \<Rightarrow>
          if err \<noteq> 0 then (- EFAULT, u)
          else case uart_init U u of (err, u) \<Rightarrow>
            if err \<noteq> 0 then (- EFAULT, u)
            else (0, reschedule_disable (u\<lparr>k_automatic := automatic, k_inactivity := inactivity, k_active := True\<rparr>)))"

definition sm_at_client_uninit :: "('rb, 'sl, 'w) client_env \<Rightarrow> ('rb, 'sl, 'w) client \<Rightarrow> int \<times> ('rb, 'sl, 'w) client" where
  "sm_at_client_uninit U u =
     (let u = snd (dtr_uart_disable U u)
      in (0, u\<lparr>k_world := snd (g_dtr_disconnect (k_gpio U) (k_world u)), k_ri_handler := False, k_initialized := False,
               k_rsp := (k_rsp u)\<lparr>rs_has_data_handler := False, rs_state := AT_CMD_OK\<rparr>\<rparr>))"

definition sm_at_client_register_ri_handler ::
  "('rb, 'sl, 'w) client_env \<Rightarrow> bool \<Rightarrow> ('rb, 'sl, 'w) client \<Rightarrow> int \<times> ('rb, 'sl, 'w) client" where
  "sm_at_client_register_ri_handler U handler u =
     (if \<not> g_ri_ready (k_gpio U) (k_world u) then (- EFAULT, u) else (0, u\<lparr>k_ri_handler := handler\<rparr>))"

section \<open>Sending\<close>

text \<open>The loop of \<open>tx_write\<close>: when the ring buffer is full it waits for the end of the transmission in
  progress and starts the next one. A wait that does not end leaves \<open>k_fault\<close>.\<close>

fun tx_write_loop :: "('rb, 'sl, 'w) client_env \<Rightarrow> nat \<Rightarrow> bytes \<Rightarrow> ('rb, 'sl, 'w) client \<Rightarrow> int \<times> ('rb, 'sl, 'w) client" where
  "tx_write_loop U fuel [] u = (0, u)"
| "tx_write_loop U 0 (b # bs) u = (0, u\<lparr>k_fault := True\<rparr>)"
| "tx_write_loop U (Suc fuel) (b # bs) u =
     (case rb_put (k_rb U) (b # bs) (k_tx_buf u) of (n, rb) \<Rightarrow>
        let u = u\<lparr>k_tx_buf := rb\<rparr>
        in if n \<noteq> 0 then tx_write_loop U fuel (drop n (b # bs)) u
           else if \<not> k_tx_enabled u then (- EIO, u)
           else case client_wait U True (\<lambda>u. 0 < k_tx_done_sem u) (k_fuel U) u of (taken, u) \<Rightarrow>
             if \<not> taken then (0, u)
             else case client_tx_start U (u\<lparr>k_tx_done_sem := k_tx_done_sem u - 1\<rparr>) of (err, u) \<Rightarrow>
               if err \<noteq> 0 then (err, client_sem_give u) else tx_write_loop U fuel (b # bs) u)"

definition tx_flush :: "('rb, 'sl, 'w) client_env \<Rightarrow> ('rb, 'sl, 'w) client \<Rightarrow> int \<times> ('rb, 'sl, 'w) client" where
  "tx_flush U u =
     (if \<not> k_tx_enabled u then (- EAGAIN, u)
      else if 0 < k_tx_done_sem u then
        (case client_tx_start U (u\<lparr>k_tx_done_sem := k_tx_done_sem u - 1\<rparr>) of (err, u) \<Rightarrow>
           if err \<noteq> 0 then (err, client_sem_give u) else (0, u))
      else (0, u))"

definition tx_write :: "('rb, 'sl, 'w) client_env \<Rightarrow> bytes \<Rightarrow> bool \<Rightarrow> ('rb, 'sl, 'w) client \<Rightarrow> int \<times> ('rb, 'sl, 'w) client" where
  "tx_write U data flush u =
     (let u = (if k_automatic u \<and> \<not> k_active u then snd (dtr_uart_enable U u) else u)
      in case tx_write_loop U (k_fuel U) data u of (err, u) \<Rightarrow>
        if err \<noteq> 0 then (err, u) else if flush then tx_flush U u else (0, u))"

text \<open>The result of a command is the state it left, as a number.\<close>

definition at_cmd_state_code :: "at_cmd_state \<Rightarrow> int" where
  "at_cmd_state_code st =
     (case st of AT_CMD_OK \<Rightarrow> 0 | AT_CMD_ERROR \<Rightarrow> 1 | AT_CMD_ERROR_CMS \<Rightarrow> 2 | AT_CMD_ERROR_CME \<Rightarrow> 3 | AT_CMD_PENDING \<Rightarrow> 4)"

definition set_state :: "at_cmd_state \<Rightarrow> ('rb, 'sl, 'w) client \<Rightarrow> ('rb, 'sl, 'w) client" where
  "set_state st u = u\<lparr>k_rsp := (k_rsp u)\<lparr>rs_state := st\<rparr>\<rparr>"

definition sm_at_client_send_cmd ::
  "('rb, 'sl, 'w) client_env \<Rightarrow> string \<Rightarrow> nat \<Rightarrow> ('rb, 'sl, 'w) client \<Rightarrow> int \<times> ('rb, 'sl, 'w) client" where
  "sm_at_client_send_cmd U command timeout u =
     (if \<not> k_initialized u then (- EPERM, u)
      else case tx_write U command False (set_state AT_CMD_PENDING u) of (ret, u) \<Rightarrow>
        if ret < 0 then (ret, u)
        else case tx_write U (k_term U) True u of (ret, u) \<Rightarrow>
          if ret < 0 then (ret, u)
          else case client_wait U (timeout = 0) (\<lambda>u. 0 < rs_at_rsp (k_rsp u)) (k_fuel U) u of (taken, u) \<Rightarrow>
            if \<not> taken then (- EAGAIN, set_state AT_CMD_ERROR u)
            else (at_cmd_state_code (rs_state (k_rsp u)), u\<lparr>k_rsp := (k_rsp u)\<lparr>rs_at_rsp := rs_at_rsp (k_rsp u) - 1\<rparr>\<rparr>))"

definition sm_at_client_send_data ::
  "('rb, 'sl, 'w) client_env \<Rightarrow> bytes \<Rightarrow> ('rb, 'sl, 'w) client \<Rightarrow> int \<times> ('rb, 'sl, 'w) client" where
  "sm_at_client_send_data U data u = (if \<not> k_initialized u then (- EPERM, u) else tx_write U data True u)"

definition sm_at_client_automatic_dtr_uart ::
  "('rb, 'sl, 'w) client_env \<Rightarrow> nat \<Rightarrow> ('rb, 'sl, 'w) client \<Rightarrow> ('rb, 'sl, 'w) client" where
  "sm_at_client_automatic_dtr_uart U inactivity u =
     (if \<not> k_initialized u then u
      else
        let u = u\<lparr>k_automatic := True, k_inactivity := inactivity\<rparr>;
            u = (if \<not> k_active u \<and> \<not> rb_is_empty (k_rb U) (k_tx_buf u) then u\<lparr>k_enable_work := True\<rparr> else u)
        in if k_active u then u\<lparr>k_disable_work := Some (k_inactivity u)\<rparr> else u)"

definition sm_at_client_disable_dtr_uart :: "('rb, 'sl, 'w) client \<Rightarrow> ('rb, 'sl, 'w) client" where
  "sm_at_client_disable_dtr_uart u =
     (if \<not> k_initialized u then u else u\<lparr>k_automatic := False, k_enable_work := False, k_disable_work := Some 0\<rparr>)"

definition sm_at_client_enable_dtr_uart :: "('rb, 'sl, 'w) client \<Rightarrow> ('rb, 'sl, 'w) client" where
  "sm_at_client_enable_dtr_uart u =
     (if \<not> k_initialized u then u else u\<lparr>k_automatic := False, k_disable_work := None, k_enable_work := True\<rparr>)"

section \<open>Commands of the shell\<close>

text \<open>The arguments are the list \<open>argv\<close>; what is printed is left out.\<close>

definition sm_at_client_shell ::
  "('rb, 'sl, 'w) client_env \<Rightarrow> string list \<Rightarrow> ('rb, 'sl, 'w) client \<Rightarrow> int \<times> ('rb, 'sl, 'w) client" where
  "sm_at_client_shell U argv u = (if length argv < 2 then (0, u) else sm_at_client_send_cmd U (argv ! 1) 10 u)"

definition sm_at_client_shell_smsh_dtr_uart_disable :: "('rb, 'sl, 'w) client \<Rightarrow> int \<times> ('rb, 'sl, 'w) client" where
  "sm_at_client_shell_smsh_dtr_uart_disable u = (0, sm_at_client_disable_dtr_uart u)"

definition sm_at_client_shell_smsh_dtr_uart_enable :: "('rb, 'sl, 'w) client \<Rightarrow> int \<times> ('rb, 'sl, 'w) client" where
  "sm_at_client_shell_smsh_dtr_uart_enable u = (0, sm_at_client_enable_dtr_uart u)"

definition sm_at_client_shell_smsh_dtr_uart_auto ::
  "('rb, 'sl, 'w) client_env \<Rightarrow> string list \<Rightarrow> ('rb, 'sl, 'w) client \<Rightarrow> int \<times> ('rb, 'sl, 'w) client" where
  "sm_at_client_shell_smsh_dtr_uart_auto U argv u =
     (let timeout = (if 2 \<le> length argv then c_strtoul (argv ! 1) 10 else 0)
      in if timeout = 0 then (- EINVAL, u) else (0, sm_at_client_automatic_dtr_uart U (unat timeout) u))"

end
