(* ===== verification/Uart_Tx.thy ===== *)
theory Uart_Tx
  imports Uart_Handler
begin

text \<open>
  The transmission of the UART handler. The ring buffer holds what was claimed for the transmission
  in progress and what waits behind it; the semaphore is free only when nothing is in progress. Under
  the contract of the driver, what went out on the line followed by the ring buffer's content is a
  stream to which only \<open>pipe_transmit\<close> appends, and from which nothing is lost or sent twice.
\<close>

section \<open>The invariant and the stream\<close>

definition tx_stream :: "'w uart_obs \<Rightarrow> ('rb \<Rightarrow> bytes) \<Rightarrow> ('rb \<Rightarrow> bytes) \<Rightarrow> ('rb, 'sl, 'w) uart \<Rightarrow> bytes" where
  "tx_stream V cl av u = o_wire V (u_world u) @ cl (u_tx_buf u) @ av (u_tx_buf u)"

definition tx_inv :: "'w uart_obs \<Rightarrow> ('rb \<Rightarrow> bytes) \<Rightarrow> ('rb \<Rightarrow> bool) \<Rightarrow> ('rb, 'sl, 'w) uart \<Rightarrow> bool" where
  "tx_inv V cl ok u \<longleftrightarrow> ok (u_tx_buf u) \<and> u_tx_done_sem u \<le> 1 \<and>
     (case o_tx V (u_world u) of
        None \<Rightarrow> cl (u_tx_buf u) = []
      | Some d \<Rightarrow> d \<noteq> [] \<and> cl (u_tx_buf u) = d \<and> u_tx_done_sem u = 0)"

text \<open>What an operation leaves alone: of the transmission, and of the reception.\<close>

definition tx_frame :: "'w uart_obs \<Rightarrow> ('rb, 'sl, 'w) uart \<Rightarrow> ('rb, 'sl, 'w) uart \<Rightarrow> bool" where
  "tx_frame V u u' \<longleftrightarrow> u_tx_buf u' = u_tx_buf u \<and> u_tx_done_sem u' = u_tx_done_sem u \<and>
     u_tx_enabled u' = u_tx_enabled u \<and> tx_same V (u_world u) (u_world u')"

definition rx_frame :: "'w uart_drv \<Rightarrow> 'w uart_obs \<Rightarrow> ('rb, 'sl, 'w) uart \<Rightarrow> ('rb, 'sl, 'w) uart \<Rightarrow> bool" where
  "rx_frame D V u u' \<longleftrightarrow> u_pool u' = u_pool u \<and> u_rx_events u' = u_rx_events u \<and>
     rx_same D V (u_world u) (u_world u')"

lemma tx_same_refl [simp]: "tx_same V w w"
  by (simp add: tx_same_def)

lemma rx_same_refl [simp]: "rx_same D V w w"
  by (simp add: rx_same_def mem_same_def)

lemma tx_same_trans: "tx_same V w w' \<Longrightarrow> tx_same V w' w'' \<Longrightarrow> tx_same V w w''"
  by (simp add: tx_same_def)

lemma rx_same_trans: "rx_same D V w w' \<Longrightarrow> rx_same D V w' w'' \<Longrightarrow> rx_same D V w w''"
  by (auto simp: rx_same_def mem_same_def)

lemma tx_frame_refl [simp]: "tx_frame V u u"
  by (simp add: tx_frame_def)

lemma tx_frame_trans: "tx_frame V u u' \<Longrightarrow> tx_frame V u' u'' \<Longrightarrow> tx_frame V u u''"
  by (auto simp: tx_frame_def intro: tx_same_trans)

lemma rx_frame_refl [simp]: "rx_frame D V u u"
  by (simp add: rx_frame_def)

lemma rx_frame_trans: "rx_frame D V u u' \<Longrightarrow> rx_frame D V u' u'' \<Longrightarrow> rx_frame D V u u''"
  by (auto simp: rx_frame_def intro: rx_same_trans)

lemma tx_inv_frame: "tx_frame V u u' \<Longrightarrow> tx_inv V cl ok u' = tx_inv V cl ok u"
  by (auto simp: tx_frame_def tx_same_def tx_inv_def split: option.splits)

lemma tx_stream_frame: "tx_frame V u u' \<Longrightarrow> tx_stream V cl av u' = tx_stream V cl av u"
  by (simp add: tx_frame_def tx_same_def tx_stream_def)

text \<open>The updates that concern neither.\<close>

lemma notify_frames [simp]:
  "tx_frame V u (uart_notify n u)" "rx_frame D V u (uart_notify n u)"
  "tx_frame V u (uart_callback_notify_pipe_closure u)" "rx_frame D V u (uart_callback_notify_pipe_closure u)"
  "tx_frame V u (uart_callback_notify_pipe_transmit_idle u)" "rx_frame D V u (uart_callback_notify_pipe_transmit_idle u)"
  "tx_frame V u (notify_transmit_idle_fn u)" "rx_frame D V u (notify_transmit_idle_fn u)"
  "tx_frame V u (notify_closed_fn u)" "rx_frame D V u (notify_closed_fn u)"
  by (simp_all add: tx_frame_def rx_frame_def uart_notify_def uart_callback_notify_pipe_closure_def
      uart_callback_notify_pipe_transmit_idle_def notify_transmit_idle_fn_def notify_closed_fn_def)

lemma sem_give_frame [simp]: "rx_frame D V u (sem_give u)"
  by (simp add: rx_frame_def sem_give_def)

lemma tx_enable_frame [simp]: "rx_frame D V u (tx_enable u)"
  by (simp add: rx_frame_def sem_give_def tx_enable_def)

lemma pool_frames [simp]:
  "tx_frame V u (pool_ref U p u)" "tx_frame V u (pool_unref U p u)" "pool_alloc U u = (b, u') \<Longrightarrow> tx_frame V u u'"
  by (auto simp: tx_frame_def pool_ref_def pool_unref_def pool_alloc_def split: prod.splits)

lemma notify_sel [simp]:
  "u_tx_enabled (uart_callback_notify_pipe_closure u) = u_tx_enabled u"
  "u_tx_enabled (uart_callback_notify_pipe_transmit_idle u) = u_tx_enabled u"
  "u_tx_enabled (uart_notify n u) = u_tx_enabled u" "u_tx_enabled (sem_give u) = u_tx_enabled u"
  by (simp_all add: uart_notify_def uart_callback_notify_pipe_closure_def sem_give_def
      uart_callback_notify_pipe_transmit_idle_def)

lemmas notify_tx [simp] =
  notify_frames(1) [THEN tx_inv_frame] notify_frames(1) [THEN tx_stream_frame]
  notify_frames(3) [THEN tx_inv_frame] notify_frames(3) [THEN tx_stream_frame]
  notify_frames(5) [THEN tx_inv_frame] notify_frames(5) [THEN tx_stream_frame]
  notify_frames(7) [THEN tx_inv_frame] notify_frames(7) [THEN tx_stream_frame]
  notify_frames(9) [THEN tx_inv_frame] notify_frames(9) [THEN tx_stream_frame]

section \<open>Filling the ring buffer\<close>

lemma put_loop_Nil [simp]: "put_loop R [] b = (0, b)"
  by (simp add: put_loop.simps)

context ring_buffer
begin

text \<open>The loop takes what fits, in one round: a second round finds the buffer full.\<close>

lemma put_loop_put:
  assumes "ok b"
  shows "put_loop R d b = (if d = [] then (0, b) else
    case rb_put R d b of (n, b1) \<Rightarrow> if n = length d \<or> n = 0 then (n, b1) else (n, snd (rb_put R (drop n d) b1)))"
proof -
  obtain n b1 where p: "rb_put R d b = (n, b1)" by fastforce
  have ok1: "ok b1" using put_ok [OF assms, of d] p by simp
  have n: "n = min (length d) (rb_capacity_get R b - length (claimed b) - length (avail b))"
    and c1: "claimed b1 = claimed b" "avail b1 = avail b @ take n d" "rb_capacity_get R b1 = rb_capacity_get R b"
    using put_count [OF assms, of d] put_content [OF assms, of d] put_capacity [OF assms, of d] p by auto
  have "fst (rb_put R (drop n d) b1) = 0" if "n < length d"
    using that n c1 put_count [OF ok1, of "drop n d"] by (auto simp: min_def split: if_splits)
  moreover have "n \<le> length d" using n by simp
  ultimately show ?thesis
    using p by (auto simp: put_loop.simps [of R d b] put_loop.simps [of R "drop n d" b1] prod_eq_iff case_prod_unfold)
qed

lemma put_loop_law:
  assumes "ok b" and "put_loop R d b = (n, b')"
  shows "ok b' \<and> n = min (length d) (rb_capacity_get R b - length (claimed b) - length (avail b)) \<and>
    claimed b' = claimed b \<and> avail b' = avail b @ take n d \<and> rb_capacity_get R b' = rb_capacity_get R b"
proof -
  obtain m b1 where p: "rb_put R d b = (m, b1)" by fastforce
  have ok1: "ok b1" using put_ok [OF assms(1), of d] p by simp
  have m: "m = min (length d) (rb_capacity_get R b - length (claimed b) - length (avail b))"
    and c1: "claimed b1 = claimed b" "avail b1 = avail b @ take m d" "rb_capacity_get R b1 = rb_capacity_get R b"
    using put_count [OF assms(1), of d] put_content [OF assms(1), of d] put_capacity [OF assms(1), of d] p by auto
  let ?q = "rb_put R (drop m d) b1"
  have q0: "m < length d \<Longrightarrow> fst ?q = 0"
    using m c1 put_count [OF ok1, of "drop m d"] by (auto simp: min_def split: if_splits)
  have q: "ok (snd ?q)" "claimed (snd ?q) = claimed b1" "avail (snd ?q) = avail b1 @ take (fst ?q) (drop m d)"
    "rb_capacity_get R (snd ?q) = rb_capacity_get R b1"
    using put_ok [OF ok1] put_content [OF ok1] put_capacity [OF ok1] by auto
  show ?thesis
    using assms put_loop_put [OF assms(1), of d] p m c1 ok1 q q0
    by (auto simp: case_prod_unfold split: if_splits)
qed

text \<open>A non-empty transmission leaves data in the buffer, taken now or before.\<close>

lemma put_loop_nonempty:
  "ok b \<Longrightarrow> put_loop R d b = (n, b') \<Longrightarrow> d \<noteq> [] \<Longrightarrow> claimed b = [] \<Longrightarrow> avail b' \<noteq> []"
  using put_loop_law [of b d n b'] capacity_bound [of b] by (cases d) (auto simp: min_def split: if_splits)

end

section \<open>The operations keep the stream\<close>

locale uart_tx = ring_buffer "u_rb U" cl av ok + uart_driver "u_drv U" V
  for U :: "('rb, 'sl, 'w) uart_env" and cl av ok V
begin

abbreviation inv :: "('rb, 'sl, 'w) uart \<Rightarrow> bool" where "inv \<equiv> tx_inv V cl ok"
abbreviation stream :: "('rb, 'sl, 'w) uart \<Rightarrow> bytes" where "stream \<equiv> tx_stream V cl av"

lemma tx_start_law:
  assumes "tx_start U u = (e, u')" and "inv u" and "o_tx V (u_world u) = None" and "u_tx_done_sem u = 0"
    and "av (u_tx_buf u) \<noteq> []"
  shows "inv u' \<and> stream u' = stream u \<and> rx_frame (u_drv U) V u u' \<and> u_tx_done_sem u' = 0 \<and> e \<le> 0 \<and>
    (e = 0 \<longleftrightarrow> o_tx V (u_world u') \<noteq> None) \<and> u_tx_enabled u' = u_tx_enabled u \<and> u_pipe_open u' = u_pipe_open u"
proof (cases "u_tx_enabled u")
  case True
  let ?b = "u_tx_buf u"
  obtain x rb where cm: "rb_get_claim (u_rb U) (rb_capacity_get (u_rb U) ?b) ?b = (x, rb)" by fastforce
  obtain err w where tx: "d_tx (u_drv U) x (u_world u) = (err, w)" by fastforce
  have okb: "ok ?b" and cl0: "cl ?b = []" using assms(2,3) by (auto simp: tx_inv_def)
  have x: "x \<noteq> []" 
    using claim_progress [OF okb assms(5), of "rb_capacity_get (u_rb U) ?b"] capacity_bound [OF okb] cm by auto
  have c: "ok rb" "cl rb = x" "av ?b = x @ av rb" 
    using claim_ok [OF okb, of "rb_capacity_get (u_rb U) ?b"] claim_content [OF okb, of "rb_capacity_get (u_rb U) ?b"] cm cl0
    by auto
  show ?thesis
  proof (cases "err = 0")
    case True
    then show ?thesis using assms tx_started [of x "u_world u" w] tx x c cm cl0 \<open>u_tx_enabled u\<close>
      by (auto simp: tx_start_def tx_inv_def tx_stream_def rx_frame_def)
  next
    case False
    have f: "ok (snd (rb_get_finish (u_rb U) 0 rb))" "cl (snd (rb_get_finish (u_rb U) 0 rb)) = []"
      "av (snd (rb_get_finish (u_rb U) 0 rb)) = av ?b"
      using finish_ok [OF c(1)] finish_content [OF c(1), of 0] c by auto
    show ?thesis using False assms tx_failed [OF tx False] tx_sign [OF tx] tx c cm cl0 f \<open>u_tx_enabled u\<close>
      by (auto simp: tx_start_def tx_inv_def tx_stream_def rx_frame_def tx_same_def)
  qed
qed (use assms in \<open>auto simp: tx_start_def\<close>)

lemma callback_tx_law:
  fixes ab :: bool
  assumes "inv u" and "o_tx V (u_world u) = Some d" and "n \<le> length d" and "rx_same (u_drv U) V (u_world u) w"
    and "o_tx V w = None" and "o_wire V w = o_wire V (u_world u) @ take n d"
  defines "u' \<equiv> callback_tx U ab n (u\<lparr>u_world := w\<rparr>)"
  shows "inv u' \<and> stream u' = stream u \<and> rx_frame (u_drv U) V u u' \<and> u_tx_enabled u' = u_tx_enabled u"
proof -
  let ?b = "snd (rb_get_finish (u_rb U) n (u_tx_buf u))"
  let ?u = "u\<lparr>u_world := w, u_tx_buf := ?b\<rparr>"
  have okb: "ok (u_tx_buf u)" "cl (u_tx_buf u) = d" "u_tx_done_sem u = 0" using assms(1,2) by (auto simp: tx_inv_def)
  then have b: "ok ?b" "cl ?b = []" "av ?b = drop n d @ av (u_tx_buf u)"
    using finish_ok [OF okb(1)] finish_content [OF okb(1), of n] assms(3) by auto
  have f: "rx_frame (u_drv U) V u ?u" using assms(4) by (simp add: rx_frame_def)
  have i: "inv ?u" and s: "stream ?u = stream u" using b okb assms(5,6) by (auto simp: tx_inv_def tx_stream_def)
  show ?thesis
  proof (cases "rb_is_empty (u_rb U) ?b \<or> (ab \<and> \<not> u_tx_enabled u)")
    case True
    have g: "inv (sem_give ?u)" "stream (sem_give ?u) = stream ?u" using b assms(5) by (auto simp: tx_inv_def tx_stream_def sem_give_def)
    have "u' = uart_callback_notify_pipe_transmit_idle (sem_give ?u)"
      using True by (simp add: u'_def callback_tx_def Let_def)
    moreover have "rx_frame (u_drv U) V u u'" unfolding calculation
      by (rule rx_frame_trans [OF f rx_frame_trans]) (rule sem_give_frame, simp)
    ultimately show ?thesis using g s by simp
  next
    case False
    obtain e u2 where t: "tx_start U ?u = (e, u2)" by fastforce
    have "av ?b \<noteq> []" using False is_empty [OF b(1,2)] by auto
    then have l: "inv u2" "stream u2 = stream ?u" "rx_frame (u_drv U) V ?u u2" "u_tx_enabled u2 = u_tx_enabled u"
      using tx_start_law [OF t i] assms(5) okb by auto
    have u': "u' = uart_callback_notify_pipe_transmit_idle u2"
      using False t by (auto simp: u'_def callback_tx_def Let_def)
    have "rx_frame (u_drv U) V u u'" unfolding u'
      by (rule rx_frame_trans [OF f rx_frame_trans [OF l(3)]]) simp
    then show ?thesis unfolding u' using l s by simp
  qed
qed

text \<open>The capacity of the ring buffer never changes.\<close>

lemma tx_start_capacity:
  "ok (u_tx_buf u) \<Longrightarrow> rb_capacity_get (u_rb U) (u_tx_buf (snd (tx_start U u))) = rb_capacity_get (u_rb U) (u_tx_buf u)"
  using claim_capacity claim_ok finish_capacity by (simp add: tx_start_def Let_def case_prod_unfold)

lemma callback_tx_capacity:
  "ok (u_tx_buf u) \<Longrightarrow> rb_capacity_get (u_rb U) (u_tx_buf (callback_tx U ab n u)) = rb_capacity_get (u_rb U) (u_tx_buf u)"
  using finish_capacity finish_ok tx_start_capacity
  by (simp add: callback_tx_def Let_def uart_callback_notify_pipe_transmit_idle_def sem_give_def)

lemma rx_enable_frame:
  assumes "rx_enable U u = (e, u')" shows "tx_frame V u u'"
proof (cases "u_rx_enabled u \<or> u_rx_recovery_disabled u")
  case False
  obtain b u1 where a: "pool_alloc U u = (b, u1)" by fastforce
  have f1: "tx_frame V u u1" by (rule pool_frames(3) [OF a])
  show ?thesis
  proof (cases b)
    case (Some k)
    obtain e w where d: "d_rx_enable (u_drv U) (block_data U k) (u_cfg_rx_buf_size U) (u_world u1) = (e, w)" by fastforce
    have "tx_same V (u_world u1) w"
      using rx_enabled [of "block_data U k" "u_cfg_rx_buf_size U" "u_world u1" w]
        rx_enable_failed [OF d] d by (cases "e = 0") (auto simp: buf_given_def)
    then have "tx_frame V u1 u'" using assms False a Some d
      by (auto simp: rx_enable_def Let_def tx_frame_def pool_unref_def split: if_splits)
    then show ?thesis by (rule tx_frame_trans [OF f1])
  qed (use f1 assms False a in \<open>auto simp: rx_enable_def\<close>)
qed (use assms in \<open>auto simp: rx_enable_def\<close>)

lemma rx_recovery_frame: "tx_frame V u (rx_recovery U u)"
proof (cases "u_rx_recovery_disabled u")
  case False
  obtain e u1 where e: "rx_enable U (u\<lparr>u_rx_recovery := True\<rparr>) = (e, u1)" by fastforce
  show ?thesis using rx_enable_frame [OF e] False e by (simp add: rx_recovery_def tx_frame_def)
qed (simp add: rx_recovery_def)

lemma rx_rdy_frame: "tx_frame V u (callback_rx_rdy U p off n u)"
  by (simp add: callback_rx_rdy_def Let_def tx_frame_def uart_notify_def pool_ref_def pool_unref_def)

lemma buf_request_frame: "tx_frame V u (callback_rx_buf_request U u)"
proof (cases "UART_RX_EVENT_COUNT U - length (u_rx_events u) < UART_RX_EVENT_COUNT_FOR_BUF U")
  case False
  obtain b u1 where a: "pool_alloc U u = (b, u1)" by fastforce
  have f1: "tx_frame V u u1" by (rule pool_frames(3) [OF a])
  show ?thesis
  proof (cases b)
    case (Some k)
    obtain e w where d: "d_rx_buf_rsp (u_drv U) (block_data U k) (u_cfg_rx_buf_size U) (u_world u1) = (e, w)" by fastforce
    have "tx_same V (u_world u1) w"
      using buf_rsp [of "block_data U k" "u_cfg_rx_buf_size U" "u_world u1" w]
        buf_rsp_failed [OF d] d by (cases "e = 0") (auto simp: buf_given_def)
    then have "tx_frame V u1 (callback_rx_buf_request U u)" using False a Some d
      by (simp add: callback_rx_buf_request_def Let_def tx_frame_def pool_unref_def)
    then show ?thesis by (rule tx_frame_trans [OF f1])
  qed (use f1 False a in \<open>simp add: callback_rx_buf_request_def\<close>)
qed (simp add: callback_rx_buf_request_def)

text \<open>The callback, on any event that the driver may deliver.\<close>

lemma callback_law:
  assumes "inv u" and "event_ok (u_drv U) V (u_world u) ev w"
  defines "u' \<equiv> uart_callback U ev (u\<lparr>u_world := w\<rparr>)"
  shows "inv u' \<and> stream u' = stream u \<and> u_tx_enabled u' = u_tx_enabled u"
proof -
  define u1 where "u1 = (case ev of
        UART_TX_DONE len \<Rightarrow> callback_tx U False len (u\<lparr>u_world := w\<rparr>)
      | UART_TX_ABORTED len \<Rightarrow> callback_tx U True len (u\<lparr>u_world := w\<rparr>)
      | UART_RX_RDY buf offset len \<Rightarrow> callback_rx_rdy U buf offset len (u\<lparr>u_world := w\<rparr>)
      | UART_RX_BUF_REQUEST \<Rightarrow> callback_rx_buf_request U (u\<lparr>u_world := w\<rparr>)
      | UART_RX_BUF_RELEASED buf \<Rightarrow> (case buf of None \<Rightarrow> (u\<lparr>u_world := w\<rparr>) | Some p \<Rightarrow> pool_unref U p (u\<lparr>u_world := w\<rparr>))
      | UART_RX_DISABLED \<Rightarrow> uart_notify RECEIVE_READY (u\<lparr>u_world := w, u_rx_enabled := False\<rparr>)
      | UART_RX_STOPPED \<Rightarrow> (u\<lparr>u_world := w\<rparr>))"
  have u': "u' = uart_callback_notify_pipe_closure u1"
    unfolding u'_def uart_callback_def u1_def by (cases ev) simp_all
  have "inv u1 \<and> stream u1 = stream u \<and> u_tx_enabled u1 = u_tx_enabled u"
  proof (cases "\<exists>n. ev = UART_TX_DONE n \<or> ev = UART_TX_ABORTED n")
    case True
    then obtain n ab where ev: "u1 = callback_tx U ab n (u\<lparr>u_world := w\<rparr>)" "ev = UART_TX_DONE n \<or> ev = UART_TX_ABORTED n"
      by (auto simp: u1_def)
    with assms(2) obtain d where d: "o_tx V (u_world u) = Some d" "n \<le> length d" "rx_same (u_drv U) V (u_world u) w"
      "o_tx V w = None" "o_wire V w = o_wire V (u_world u) @ take n d" by fastforce
    show ?thesis unfolding ev using callback_tx_law [OF assms(1) d, of ab] by simp
  next
    case False
    then have s: "tx_same V (u_world u) w" using assms(2) by (cases "(u_drv U, V, u_world u, ev, w)" rule: event_ok.cases) auto
    then have f0: "tx_frame V u (u\<lparr>u_world := w\<rparr>)" by (simp add: tx_frame_def)
    have f1: "tx_frame V (u\<lparr>u_world := w\<rparr>) u1"
      using False rx_rdy_frame [of "u\<lparr>u_world := w\<rparr>"] buf_request_frame [of "u\<lparr>u_world := w\<rparr>"]
      by (auto simp: u1_def tx_frame_def uart_notify_def pool_unref_def split: uart_event.split option.split)
    note f = tx_frame_trans [OF f0 f1]
    show ?thesis using tx_inv_frame [OF f, of cl ok] tx_stream_frame [OF f, of cl av] f assms(1) by (simp add: tx_frame_def)
  qed
  moreover have c: "tx_frame V u1 u'" unfolding u' by simp
  ultimately show ?thesis
    using tx_inv_frame [OF c, of cl ok] tx_stream_frame [OF c, of cl av] by (simp add: tx_frame_def)
qed

end

section \<open>Waiting and closing\<close>

text \<open>A step that concerns neither the transmit buffer and the semaphore nor the receive buffers.\<close>

definition quiet :: "'w uart_drv \<Rightarrow> 'w uart_obs \<Rightarrow> ('rb, 'sl, 'w) uart \<Rightarrow> ('rb, 'sl, 'w) uart \<Rightarrow> bool" where
  "quiet D V u u' \<longleftrightarrow> u_tx_buf u' = u_tx_buf u \<and> u_tx_done_sem u' = u_tx_done_sem u \<and>
     tx_same V (u_world u) (u_world u') \<and> rx_frame D V u u'"

lemma quiet_tx: "quiet D V u u' \<Longrightarrow> tx_inv V cl ok u' = tx_inv V cl ok u \<and> tx_stream V cl av u' = tx_stream V cl av u"
  by (auto simp: quiet_def tx_same_def tx_inv_def tx_stream_def split: option.splits)

text \<open>A predicate that the callback keeps, that quiet steps keep and that taking the semaphore
  keeps is kept by everything that waits, since the only other thing that happens while the code
  waits is the callback.\<close>

locale waiting = uart_driver "u_drv U" V
  for U :: "('rb, 'sl, 'w) uart_env" and V +
  fixes P :: "('rb, 'sl, 'w) uart \<Rightarrow> bool"
  assumes P_event: "P u \<Longrightarrow> event_ok (u_drv U) V (u_world u) ev w \<Longrightarrow> P (uart_callback U ev (u\<lparr>u_world := w\<rparr>))"
    and P_quiet: "P u \<Longrightarrow> quiet (u_drv U) V u u' \<Longrightarrow> P u'"
    and P_take: "P u \<Longrightarrow> 0 < u_tx_done_sem u \<Longrightarrow> P (u\<lparr>u_tx_done_sem := u_tx_done_sem u - 1\<rparr>)"
begin

lemma P_world: "P u \<Longrightarrow> tx_same V (u_world u) w \<and> rx_same (u_drv U) V (u_world u) w \<Longrightarrow> P (u\<lparr>u_world := w\<rparr>)"
  by (erule P_quiet) (simp add: quiet_def rx_frame_def)

lemma P_flags:
  assumes "P u"
  shows "P (u\<lparr>u_fault := f\<rparr>)" "P (u\<lparr>u_rx_recovery_disabled := f\<rparr>)" "P (u\<lparr>u_pipe_open := f\<rparr>)" "P (u\<lparr>u_tx_enabled := f\<rparr>)"
  by (rule P_quiet [OF assms], simp add: quiet_def rx_frame_def)+

lemma k_sleep_keeps: "P u \<Longrightarrow> P (k_sleep U fuel u)"
proof (induction fuel arbitrary: u)
  case (Suc fuel)
  obtain r w where n: "d_next (u_drv U) (u_world u) = (r, w)" by fastforce
  show ?case
  proof (cases r)
    case None
    then show ?thesis using P_world [OF Suc.prems] next_none n by simp
  next
    case (Some ev)
    then show ?thesis using Suc.IH [OF P_event [OF Suc.prems, of ev w]] next_event n by simp
  qed
qed (simp add: P_flags)

lemma sem_take_keeps: "P u \<Longrightarrow> P (snd (sem_take_timeout U fuel u))"
proof (induction fuel arbitrary: u)
  case 0
  then show ?case using P_take P_flags by simp
next
  case (Suc fuel)
  obtain r w where n: "d_next (u_drv U) (u_world u) = (r, w)" by fastforce
  show ?case
  proof (cases "0 < u_tx_done_sem u")
    case True
    then show ?thesis using P_take Suc.prems by simp
  next
    case False
    show ?thesis
    proof (cases r)
      case None
      then show ?thesis using P_world [OF Suc.prems] next_none n False by simp
    next
      case (Some ev)
      then show ?thesis using Suc.IH [OF P_event [OF Suc.prems, of ev w]] next_event n False
        by (simp add: sem_take_timeout.simps [of U "Suc fuel" u] del: sem_take_timeout.simps)
    qed
  qed
qed

lemma sleep_while_keeps: "P u \<Longrightarrow> P (sleep_while U flag fuel u)"
  by (induction fuel arbitrary: u) (simp_all add: P_flags k_sleep_keeps)

lemma rx_disable_keeps: "P u \<Longrightarrow> P (snd (rx_disable U u))"
  using rx_disable [OF prod.collapse [symmetric]]
  by (simp add: rx_disable_def Let_def case_prod_unfold P_flags sleep_while_keeps P_world)

lemma tx_disable_keeps: "P u \<Longrightarrow> P (snd (tx_disable U u))"
  using tx_abort [OF prod.collapse [symmetric]]
  by (simp add: tx_disable_def Let_def case_prod_unfold P_flags sem_take_keeps P_world del: sem_take_timeout.simps split: bool.split)

lemma sm_uart_handler_disable_keeps: "P u \<Longrightarrow> P (snd (sm_uart_handler_disable U u))"
  using rx_disable_keeps tx_disable_keeps by (simp add: sm_uart_handler_disable_def case_prod_unfold)

lemma pipe_close_keeps: "P u \<Longrightarrow> P (snd (pipe_close U u))"
  by (simp add: pipe_close_def sm_uart_handler_disable_keeps P_flags)

end

context uart_tx
begin

lemma kept: "waiting U V (\<lambda>u. inv u \<and> stream u = s)"
proof unfold_locales
  fix u u' and ev w
  show "inv u \<and> stream u = s \<Longrightarrow> event_ok (u_drv U) V (u_world u) ev w \<Longrightarrow>
      inv (uart_callback U ev (u\<lparr>u_world := w\<rparr>)) \<and> stream (uart_callback U ev (u\<lparr>u_world := w\<rparr>)) = s"
    using callback_law by blast
  show "inv u \<and> stream u = s \<Longrightarrow> quiet (u_drv U) V u u' \<Longrightarrow> inv u' \<and> stream u' = s"
    using quiet_tx [of "u_drv U" V u u' cl ok av] by simp
  show "inv u \<and> stream u = s \<Longrightarrow> 0 < u_tx_done_sem u \<Longrightarrow>
      inv (u\<lparr>u_tx_done_sem := u_tx_done_sem u - 1\<rparr>) \<and> stream (u\<lparr>u_tx_done_sem := u_tx_done_sem u - 1\<rparr>) = s"
    by (auto simp: tx_inv_def tx_stream_def split: option.splits)
qed

lemma pipe_close_law: "inv u \<Longrightarrow> inv (snd (pipe_close U u)) \<and> stream (snd (pipe_close U u)) = stream u"
  using waiting.pipe_close_keeps [OF kept, of u "stream u"] by simp

text \<open>Transmission appends what it takes, also when it reports an error.\<close>

lemma pipe_transmit_law:
  assumes "inv u" and "pipe_transmit U d u = (n, u')" and "d \<noteq> []"
  defines "k \<equiv> min (length d) (rb_capacity_get (u_rb U) (u_tx_buf u) - length (cl (u_tx_buf u)) - length (av (u_tx_buf u)))"
  shows "inv u' \<and> rx_frame (u_drv U) V u u' \<and>
    (if u_pipe_open u then stream u' = stream u @ take k d \<and> (n = int k \<or> n < 0) else u' = u \<and> n = - EPERM)"
proof (cases "u_pipe_open u")
  case True
  obtain m rb where p: "put_loop (u_rb U) d (u_tx_buf u) = (m, rb)" by fastforce
  have okb: "ok (u_tx_buf u)" using assms(1) by (simp add: tx_inv_def)
  note l = put_loop_law [OF okb p, folded k_def]
  let ?u = "u\<lparr>u_tx_buf := rb\<rparr>"
  have i: "inv ?u" and s: "stream ?u = stream u @ take k d" and f: "rx_frame (u_drv U) V u ?u"
    using assms(1) l by (auto simp: tx_inv_def tx_stream_def rx_frame_def split: option.splits)
  show ?thesis
  proof (cases "0 < u_tx_done_sem u")
    case sem: True
    let ?v = "?u\<lparr>u_tx_done_sem := u_tx_done_sem u - 1\<rparr>"
    obtain e v where t: "tx_start U ?v = (e, v)" by fastforce
    have iv: "inv ?v" "o_tx V (u_world ?v) = None" "u_tx_done_sem ?v = 0" "cl (u_tx_buf u) = []"
      and sv: "stream ?v = stream ?u" and fv: "rx_frame (u_drv U) V ?u ?v"
      using i l sem assms(1) by (auto simp: tx_inv_def tx_stream_def rx_frame_def split: option.splits)
    have "av (u_tx_buf ?v) \<noteq> []" using put_loop_nonempty [OF okb p assms(3) iv(4)] by simp
    note q = tx_start_law [OF t iv(1-3) this]
    have g: "inv (sem_give v)" "stream (sem_give v) = stream v" if "e \<noteq> 0"
      using q that by (auto simp: tx_inv_def tx_stream_def sem_give_def)
    have u': "(n, u') = (if e = 0 then (int k, v) else if e = - EAGAIN then (int k, sem_give v) else (e, sem_give v))"
      using assms(2,3) True sem p t l by (auto simp: pipe_transmit_def Let_def)
    have fr: "rx_frame (u_drv U) V u v" using q by (auto intro: rx_frame_trans [OF f rx_frame_trans [OF fv]])
    have "rx_frame (u_drv U) V u (sem_give v)" by (rule rx_frame_trans [OF fr]) simp
    then show ?thesis using u' q g sv s True fr by (auto split: if_splits)
  qed (use assms(2,3) True p l i s f in \<open>auto simp: pipe_transmit_def Let_def\<close>)
qed (use assms in \<open>auto simp: pipe_transmit_def\<close>)

lemma tx_start_rx: "rx_frame (u_drv U) V u (snd (tx_start U u))"
  using tx_rx by (auto simp: tx_start_def Let_def case_prod_unfold rx_frame_def) (metis prod.collapse)+

lemma callback_tx_rx: "rx_frame (u_drv U) V u (callback_tx U ab n u)"
proof -
  let ?u = "u\<lparr>u_tx_buf := snd (rb_get_finish (u_rb U) n (u_tx_buf u))\<rparr>"
  have f: "rx_frame (u_drv U) V u ?u" by (simp add: rx_frame_def)
  have "rx_frame (u_drv U) V u (uart_callback_notify_pipe_transmit_idle (sem_give ?u))"
    "rx_frame (u_drv U) V u (uart_callback_notify_pipe_transmit_idle (snd (tx_start U ?u)))"
    by (rule rx_frame_trans [OF f rx_frame_trans [OF sem_give_frame notify_frames(6)]])
      (rule rx_frame_trans [OF f rx_frame_trans [OF tx_start_rx notify_frames(6)]])
  then show ?thesis by (simp add: callback_tx_def Let_def)
qed

lemma pipe_transmit_rx: "rx_frame (u_drv U) V u (snd (pipe_transmit U d u))"
proof -
  have f: "rx_frame (u_drv U) V u (u\<lparr>u_tx_buf := b, u_tx_done_sem := n\<rparr>)" "rx_frame (u_drv U) V u (u\<lparr>u_tx_buf := b\<rparr>)" for b n
    by (simp_all add: rx_frame_def)
  have "rx_frame (u_drv U) V u (snd (tx_start U (u\<lparr>u_tx_buf := b, u_tx_done_sem := n\<rparr>)))"
    "rx_frame (u_drv U) V u (sem_give (snd (tx_start U (u\<lparr>u_tx_buf := b, u_tx_done_sem := n\<rparr>))))" for b n
    using rx_frame_trans [OF f(1) tx_start_rx] rx_frame_trans [OF rx_frame_trans [OF f(1) tx_start_rx] sem_give_frame] by blast+
  then show ?thesis using f by (auto simp: pipe_transmit_def Let_def case_prod_unfold)
qed

lemma pipe_open_law:
  assumes "inv u" and "u_tx_enabled u \<or> o_tx V (u_world u) = None"
  shows "inv (snd (pipe_open U u)) \<and> stream (snd (pipe_open U u)) = stream u"
proof -
  obtain e u1 where r: "rx_enable U (u\<lparr>u_pipe_open := True, u_rx_recovery_disabled := False\<rparr>) = (e, u1)" by fastforce
  have f: "tx_frame V u u1" using rx_enable_frame [OF r] by (simp add: tx_frame_def)
  then have "inv u1" "stream u1 = stream u" "u_tx_enabled u1 \<or> o_tx V (u_world u1) = None"
    using tx_inv_frame [OF f, of cl ok] tx_stream_frame [OF f, of cl av] assms by (simp_all add: tx_frame_def tx_same_def)
  moreover have "inv (tx_enable u1) \<and> stream (tx_enable u1) = stream u1"
    using calculation by (auto simp: tx_enable_def sem_give_def tx_inv_def tx_stream_def split: option.splits)
  ultimately show ?thesis using assms r by (simp add: pipe_open_def)
qed

lemma receive_loop_frame: "tx_frame V u (snd (receive_loop U n u))"
proof (induction U n u rule: receive_loop.induct)
  case (1 U n u)
  show ?case
  proof (cases "n = 0 \<or> u_rx_events u = []")
    case False
    then obtain e es where "u_rx_events u = e # es" "n \<noteq> 0" by (cases "u_rx_events u") auto
    moreover have "tx_frame V u (u\<lparr>u_rx_events := es\<rparr>)" by (simp add: tx_frame_def)
    ultimately show ?thesis
      using 1 [of e es "u\<lparr>u_rx_events := es\<rparr>" "min n (re_len e)"]
      by (subst receive_loop.simps) (auto simp: Let_def case_prod_unfold tx_frame_def pool_unref_def)
  qed (auto simp: receive_loop.simps)
qed

lemma pipe_receive_law:
  "inv u \<Longrightarrow> inv (snd (pipe_receive U n u)) \<and> stream (snd (pipe_receive U n u)) = stream u"
proof -
  have f: "tx_frame V u (snd (pipe_receive U n u))"
    using receive_loop_frame tx_frame_trans [OF receive_loop_frame rx_recovery_frame]
    by (simp add: pipe_receive_def case_prod_unfold)
  show "inv u \<Longrightarrow> ?thesis" using tx_inv_frame [OF f, of cl ok] tx_stream_frame [OF f, of cl av] by simp
qed

end

end
