(* ===== verification/Client_Tx.thy ===== *)
theory Client_Tx
  imports At_Client Uart_Tx
begin

text \<open>
  The transmission of the AT client. As in the UART handler, what went out on the line followed by
  the content of the ring buffer is a stream to which only \<open>tx_write\<close> appends; unlike there, an abort
  drops the rest of the stream, so what reaches the line is a subsequence of what was written. The
  theorems about \<open>dtr_uart_enable\<close> and about refused buffers state where the client departs from this
  discipline.
\<close>

section \<open>The invariant and the stream\<close>

definition client_stream :: "'w uart_obs \<Rightarrow> ('rb \<Rightarrow> bytes) \<Rightarrow> ('rb \<Rightarrow> bytes) \<Rightarrow> ('rb, 'sl, 'w) client \<Rightarrow> bytes" where
  "client_stream V cl av u = o_wire V (k_world u) @ cl (k_tx_buf u) @ av (k_tx_buf u)"

definition client_inv :: "'w uart_obs \<Rightarrow> ('rb \<Rightarrow> bytes) \<Rightarrow> ('rb \<Rightarrow> bool) \<Rightarrow> ('rb, 'sl, 'w) client \<Rightarrow> bool" where
  "client_inv V cl ok u \<longleftrightarrow> ok (k_tx_buf u) \<and> k_tx_done_sem u \<le> 1 \<and>
     (case o_tx V (k_world u) of
        None \<Rightarrow> cl (k_tx_buf u) = []
      | Some d \<Rightarrow> cl (k_tx_buf u) = d \<and> k_tx_done_sem u = 0)"

text \<open>What the reception leaves alone.\<close>

definition client_frame :: "'w uart_obs \<Rightarrow> ('rb, 'sl, 'w) client \<Rightarrow> ('rb, 'sl, 'w) client \<Rightarrow> bool" where
  "client_frame V u u' \<longleftrightarrow> k_tx_buf u' = k_tx_buf u \<and> k_tx_done_sem u' = k_tx_done_sem u \<and>
     k_tx_enabled u' = k_tx_enabled u \<and> tx_same V (k_world u) (k_world u')"

lemma client_frame_refl [simp]: "client_frame V u u"
  by (simp add: client_frame_def)

lemma client_frame_trans: "client_frame V u u' \<Longrightarrow> client_frame V u' u'' \<Longrightarrow> client_frame V u u''"
  by (auto simp: client_frame_def intro: tx_same_trans)

lemma client_inv_frame: "client_frame V u u' \<Longrightarrow> client_inv V cl ok u' = client_inv V cl ok u"
  by (auto simp: client_frame_def tx_same_def client_inv_def split: option.splits)

lemma client_stream_frame: "client_frame V u u' \<Longrightarrow> client_stream V cl av u' = client_stream V cl av u"
  by (simp add: client_frame_def tx_same_def client_stream_def)

text \<open>A stream that may have lost bytes, but not when no transmission is aborted.\<close>

definition flows :: "'w uart_drv \<Rightarrow> bytes \<Rightarrow> bytes \<Rightarrow> bool" where
  "flows D s s' \<longleftrightarrow> subseq s' s \<and> ((\<forall>w n w'. d_next D w \<noteq> (Some (UART_TX_ABORTED n), w')) \<longrightarrow> s' = s)"

lemma flows_refl [simp]: "flows D s s"
  by (simp add: flows_def)

lemma flows_trans: "flows D s s' \<Longrightarrow> flows D s' s'' \<Longrightarrow> flows D s s''"
  by (auto simp: flows_def intro: subseq_order.order_trans)

lemma flows_append: "flows D s s' \<Longrightarrow> flows D (s @ x) (s' @ x)"
  by (auto simp: flows_def intro: list_emb_append_mono)

section \<open>The reception does not touch the transmission\<close>

lemma client_frames [simp]:
  "client_frame V u (buf_ref U p u)" "client_frame V u (buf_unref U p u)" "client_frame V u (reschedule_disable u)"
  "client_frame V u (u\<lparr>k_rsp := r\<rparr>)" "client_frame V u (u\<lparr>k_events := es\<rparr>)" "client_frame V u (u\<lparr>k_rx_process_work := b\<rparr>)"
  "client_frame V u (u\<lparr>k_fault := b\<rparr>)"
  by (simp_all add: client_frame_def buf_ref_def buf_unref_def reschedule_disable_def)

lemma buf_alloc_frame: "buf_alloc U u = (b, u') \<Longrightarrow> client_frame V u u' \<and> k_world u' = k_world u"
  by (auto simp: buf_alloc_def client_frame_def split: prod.splits)

lemma rx_process_loop_frame: "client_frame V u (rx_process_loop U es u)"
proof (induction es arbitrary: u)
  case (Cons e es)
  show ?case by (simp, rule client_frame_trans [OF _ Cons.IH]) (simp add: client_frame_def buf_unref_def)
qed (simp add: client_frame_def)

locale client_tx = ring_buffer "k_rb U" cl av ok + uart_driver "k_drv U" V
  for U :: "('rb, 'sl, 'w) client_env" and cl av ok V +
  assumes tx_empty: "d_tx (k_drv U) [] w = (0, w') \<Longrightarrow>
    o_tx V w = None \<and> o_tx V w' = Some [] \<and> o_wire V w' = o_wire V w \<and> rx_same (k_drv U) V w w'"
begin

abbreviation kinv :: "('rb, 'sl, 'w) client \<Rightarrow> bool" where "kinv \<equiv> client_inv V cl ok"
abbreviation kstream :: "('rb, 'sl, 'w) client \<Rightarrow> bytes" where "kstream \<equiv> client_stream V cl av"

lemma rx_enable_frame: "client_frame V u (snd (client_rx_enable U u))"
proof (cases "k_rx_enabled u")
  case False
  obtain b u1 where a: "buf_alloc U u = (b, u1)" by fastforce
  note f1 = buf_alloc_frame [OF a, of V]
  show ?thesis
  proof (cases b)
    case (Some k)
    obtain e w where d: "d_rx_enable (k_drv U) (client_block_data U k) (k_cfg_rx_buf_size U) (k_world u1) = (e, w)" by fastforce
    have "tx_same V (k_world u1) w"
      using rx_enabled [of "client_block_data U k" "k_cfg_rx_buf_size U" "k_world u1" w]
        rx_enable_failed [OF d] d by (cases "e = 0") (auto simp: buf_given_def)
    then have "client_frame V u1 (snd (client_rx_enable U u))" using False a Some d
      by (simp add: client_rx_enable_def Let_def client_frame_def buf_unref_def)
    then show ?thesis using client_frame_trans f1 by blast
  qed (use f1 False a in \<open>simp add: client_rx_enable_def\<close>)
qed (simp add: client_rx_enable_def)

lemma rx_process_frame: "client_frame V u (rx_process U u)"
proof -
  let ?v = "rx_process_loop U (k_events u) (u\<lparr>k_rx_process_work := False\<rparr>)"
  have "client_frame V ?v (client_rx_recovery U ?v)"
    using rx_enable_frame [of "?v\<lparr>k_rx_recovery := True\<rparr>"]
    by (simp add: client_rx_recovery_def client_frame_def case_prod_unfold)
  moreover have "client_frame V u ?v" by (rule client_frame_trans [OF _ rx_process_loop_frame]) simp
  ultimately show ?thesis unfolding rx_process_def by (rule client_frame_trans [rotated])
qed

lemma rx_rdy_frame: "client_frame V u (client_rx_rdy U p off n u)"
  by (simp add: client_rx_rdy_def Let_def client_frame_def buf_ref_def buf_unref_def reschedule_disable_def)

lemma buf_request_frame: "client_frame V u (client_rx_buf_request U u)"
proof -
  obtain b u1 where a: "buf_alloc U u = (b, u1)" by fastforce
  note f1 = buf_alloc_frame [OF a, of V]
  show ?thesis
  proof (cases b)
    case (Some k)
    obtain e w where d: "d_rx_buf_rsp (k_drv U) (client_block_data U k) (k_cfg_rx_buf_size U) (k_world u1) = (e, w)" by fastforce
    have "tx_same V (k_world u1) w"
      using buf_rsp [of "client_block_data U k" "k_cfg_rx_buf_size U" "k_world u1" w]
        buf_rsp_failed [OF d] d by (cases "e = 0") (auto simp: buf_given_def)
    then have "client_frame V u1 (client_rx_buf_request U u)" using a Some d
      by (simp add: client_rx_buf_request_def Let_def client_frame_def buf_unref_def)
    then show ?thesis using client_frame_trans f1 by blast
  qed (use f1 a in \<open>simp add: client_rx_buf_request_def\<close>)
qed

section \<open>The transmission\<close>

lemma tx_start_law:
  assumes "client_tx_start U u = (e, u')" and "kinv u" and "o_tx V (k_world u) = None" and "k_tx_done_sem u = 0"
  shows "kinv u' \<and> kstream u' = kstream u \<and> k_tx_done_sem u' = 0 \<and> (e = 0 \<longleftrightarrow> o_tx V (k_world u') \<noteq> None) \<and>
    k_tx_enabled u' = k_tx_enabled u"
proof (cases "k_tx_enabled u")
  case True
  let ?b = "k_tx_buf u"
  obtain x rb where cm: "rb_get_claim (k_rb U) (rb_capacity_get (k_rb U) ?b) ?b = (x, rb)" by fastforce
  obtain err w where tx: "d_tx (k_drv U) x (k_world u) = (err, w)" by fastforce
  have okb: "ok ?b" and cl0: "cl ?b = []" using assms(2,3) by (auto simp: client_inv_def)
  have c: "ok rb" "cl rb = x" "av ?b = x @ av rb"
    using claim_ok [OF okb, of "rb_capacity_get (k_rb U) ?b"] claim_content [OF okb, of "rb_capacity_get (k_rb U) ?b"] cm cl0
    by auto
  show ?thesis
  proof (cases "err = 0")
    case True
    have "o_tx V w = Some x \<and> o_wire V w = o_wire V (k_world u)"
      using tx_started [of x "k_world u" w] tx_empty [of "k_world u" w] tx True by (cases "x = []") auto
    then show ?thesis using assms tx True c cm cl0 \<open>k_tx_enabled u\<close>
      by (auto simp: client_tx_start_def client_inv_def client_stream_def)
  next
    case False
    have f: "ok (snd (rb_get_finish (k_rb U) 0 rb))" "cl (snd (rb_get_finish (k_rb U) 0 rb)) = []"
      "av (snd (rb_get_finish (k_rb U) 0 rb)) = av ?b"
      using finish_ok [OF c(1)] finish_content [OF c(1), of 0] c by auto
    show ?thesis using False assms tx_failed [OF tx False] tx c cm cl0 f \<open>k_tx_enabled u\<close>
      by (auto simp: client_tx_start_def client_inv_def client_stream_def tx_same_def)
  qed
qed (use assms in \<open>auto simp: client_tx_start_def\<close>)

lemma sem_give_law:
  "kinv u \<Longrightarrow> o_tx V (k_world u) = None \<Longrightarrow> kinv (client_sem_give u) \<and> kstream (client_sem_give u) = kstream u"
  by (simp add: client_inv_def client_stream_def client_sem_give_def)

lemma tx_done_law:
  assumes "kinv u" and "o_tx V (k_world u) = Some d" and "o_tx V w = None" and "o_wire V w = o_wire V (k_world u) @ d"
  defines "u' \<equiv> client_tx_done U (length d) (u\<lparr>k_world := w\<rparr>)"
  shows "kinv u' \<and> kstream u' = kstream u \<and> k_tx_enabled u' = k_tx_enabled u"
proof -
  let ?b = "snd (rb_get_finish (k_rb U) (length d) (k_tx_buf u))"
  let ?u = "u\<lparr>k_world := w, k_tx_buf := ?b\<rparr>"
  have okb: "ok (k_tx_buf u)" "cl (k_tx_buf u) = d" "k_tx_done_sem u = 0" using assms(1,2) by (auto simp: client_inv_def)
  then have b: "ok ?b" "cl ?b = []" "av ?b = av (k_tx_buf u)"
    using finish_ok [OF okb(1)] finish_content [OF okb(1), of "length d"] by auto
  have i: "kinv ?u" and s: "kstream ?u = kstream u" using b okb assms(3,4) by (auto simp: client_inv_def client_stream_def)
  show ?thesis
  proof (cases "rb_is_empty (k_rb U) ?b")
    case True
    then have u': "u' = reschedule_disable (client_sem_give ?u)" by (simp add: u'_def client_tx_done_def)
    note f = client_frames(3) [of V "client_sem_give ?u"]
    show ?thesis unfolding u' using sem_give_law [OF i] assms(3) s
        client_inv_frame [OF f, of cl ok] client_stream_frame [OF f, of cl av] f
      by (simp add: client_frame_def client_sem_give_def)
  next
    case False
    obtain e u2 where t: "client_tx_start U ?u = (e, u2)" by fastforce
    note l = tx_start_law [OF t i]
    have "u' = (if e = 0 then u2 else client_sem_give u2)" using False t by (simp add: u'_def client_tx_done_def)
    then show ?thesis using l sem_give_law [of u2] assms(3) okb s by (auto simp: client_sem_give_def)
  qed
qed

lemma tx_aborted_law:
  assumes "kinv u" and "o_tx V (k_world u) = Some d" and "n \<le> length d" and "o_tx V w = None"
    and "o_wire V w = o_wire V (k_world u) @ take n d"
  defines "u' \<equiv> client_tx_aborted U n (u\<lparr>k_world := w\<rparr>)"
  shows "kinv u' \<and> subseq (kstream u') (kstream u) \<and> k_tx_enabled u' = k_tx_enabled u"
proof -
  let ?b = "rb_reset (k_rb U) (snd (rb_get_finish (k_rb U) n (k_tx_buf u)))"
  have okb: "ok (k_tx_buf u)" "cl (k_tx_buf u) = d" using assms(1,2) by (auto simp: client_inv_def)
  then have b: "ok ?b" "cl ?b = []" "av ?b = []"
    using finish_ok [OF okb(1)] reset_ok reset_content by auto
  have "subseq (take n d) (d @ av (k_tx_buf u))" by (metis append_take_drop_id append.assoc subseq_rev_drop_many subseq_order.order_refl)
  then have s: "subseq (o_wire V w) (kstream u)" using okb assms(5)
    by (auto simp: client_stream_def intro: list_emb_append_mono)
  show ?thesis using b s assms(4)
    by (simp add: u'_def client_tx_aborted_def reschedule_disable_def client_sem_give_def client_inv_def client_stream_def)
qed

text \<open>The callback, on any event that the driver may deliver.\<close>

lemma callback_law:
  assumes "kinv u" and "d_next (k_drv U) (k_world u) = (Some ev, w)"
  defines "u' \<equiv> client_callback U ev (u\<lparr>k_world := w\<rparr>)"
  shows "kinv u' \<and> flows (k_drv U) (kstream u) (kstream u') \<and> k_tx_enabled u' = k_tx_enabled u"
proof -
  have ev: "event_ok (k_drv U) V (k_world u) ev w" by (rule next_event [OF assms(2)])
  consider (complete) n where "ev = UART_TX_DONE n" | (aborted) n where "ev = UART_TX_ABORTED n"
    | (rx) "\<forall>n. ev \<noteq> UART_TX_DONE n \<and> ev \<noteq> UART_TX_ABORTED n" by blast
  then show ?thesis
  proof cases
    case complete
    then show ?thesis using tx_done_law [OF assms(1)] ev by (auto simp: u'_def client_callback_def)
  next
    case aborted
    then show ?thesis using tx_aborted_law [OF assms(1)] ev assms(2) by (auto simp: u'_def client_callback_def flows_def)
  next
    case rx
    then have "tx_same V (k_world u) w" using ev by (cases "(k_drv U, V, k_world u, ev, w)" rule: event_ok.cases) auto
    then have f0: "client_frame V u (u\<lparr>k_world := w\<rparr>)" by (simp add: client_frame_def)
    have f1: "client_frame V (u\<lparr>k_world := w\<rparr>) u'"
      using rx rx_rdy_frame [of "u\<lparr>k_world := w\<rparr>"] buf_request_frame [of "u\<lparr>k_world := w\<rparr>"]
      by (auto simp: u'_def client_callback_def client_frame_def buf_unref_def split: uart_event.split option.split)
    note f = client_frame_trans [OF f0 f1]
    show ?thesis using client_inv_frame [OF f, of cl ok] client_stream_frame [OF f, of cl av] f assms(1) by (simp add: client_frame_def)
  qed
qed

lemma wait_law:
  assumes "kinv u" and "client_wait U forever ready fuel u = (taken, u')"
  shows "kinv u' \<and> flows (k_drv U) (kstream u) (kstream u') \<and> k_tx_enabled u' = k_tx_enabled u \<and> (taken \<longrightarrow> ready u')"
  using assms
proof (induction fuel arbitrary: u)
  case 0
  note f = client_frames(7) [of V u True]
  show ?case using 0 client_inv_frame [OF f, of cl ok] client_stream_frame [OF f, of cl av]
    by (auto simp: client_wait.simps split: if_splits)
next
  case (Suc fuel)
  note step = client_wait.simps [of U forever ready "Suc fuel" u]
  have rec: ?case if "client_wait U forever ready fuel v = (taken, u')" "kinv v" "flows (k_drv U) (kstream u) (kstream v)"
    "k_tx_enabled v = k_tx_enabled u" for v
    using Suc.IH [OF that(2,1)] that flows_trans by auto
  consider (ready) "ready u" | (work) "\<not> ready u" "k_rx_process_work u \<and> \<not> k_in_workq u"
    | (idle) w where "\<not> ready u" "\<not> (k_rx_process_work u \<and> \<not> k_in_workq u)" "d_next (k_drv U) (k_world u) = (None, w)"
    | (event) ev w where "\<not> ready u" "\<not> (k_rx_process_work u \<and> \<not> k_in_workq u)" "d_next (k_drv U) (k_world u) = (Some ev, w)"
    by (metis option.exhaust surj_pair)
  then show ?case
  proof cases
    case ready
    then show ?thesis using Suc.prems by (simp add: step)
  next
    case work
    note f = rx_process_frame [of u]
    show ?thesis by (rule rec [of "rx_process U u"])
      (use work Suc.prems client_inv_frame [OF f, of cl ok] client_stream_frame [OF f, of cl av] f in \<open>simp_all add: step client_frame_def\<close>)
  next
    case idle
    have f: "client_frame V u (u\<lparr>k_world := w\<rparr>)" using next_none [OF idle(3)] by (simp add: client_frame_def)
    note i = client_inv_frame [OF f, of cl ok] client_stream_frame [OF f, of cl av]
    have e: "(if forever then client_wait U forever ready fuel (u\<lparr>k_world := w\<rparr>) else (False, u\<lparr>k_world := w\<rparr>)) = (taken, u')"
      using Suc.prems(2) unfolding step if_not_P [OF idle(1)] nat.case if_not_P [OF idle(2)] idle(3) by simp
    show ?thesis
    proof (cases forever)
      case True
      show ?thesis by (rule rec [of "u\<lparr>k_world := w\<rparr>"]) (use e Suc.prems(1) i True in simp_all)
    next
      case False
      then show ?thesis using e Suc.prems(1) i by auto
    qed
  next
    case event
    have "client_wait U forever ready fuel (client_callback U ev (u\<lparr>k_world := w\<rparr>)) = (taken, u')"
      using Suc.prems(2) unfolding step if_not_P [OF event(1)] nat.case if_not_P [OF event(2)] event(3) by simp
    then show ?thesis using rec callback_law [OF Suc.prems(1) event(3)] by blast
  qed
qed

lemma wait_forever: "client_wait U True ready fuel u = (False, u') \<Longrightarrow> k_fault u'"
proof (induction fuel arbitrary: u)
  case (Suc fuel)
  show ?case using Suc.prems Suc.IH unfolding client_wait.simps [of U True ready "Suc fuel" u]
    by (auto split: if_splits prod.splits option.splits)
qed (auto simp: client_wait.simps split: if_splits)

lemma put_law:
  assumes "kinv u" and "rb_put (k_rb U) d (k_tx_buf u) = (n, rb)"
  shows "kinv (u\<lparr>k_tx_buf := rb\<rparr>) \<and> kstream (u\<lparr>k_tx_buf := rb\<rparr>) = kstream u @ take n d"
proof -
  have okb: "ok (k_tx_buf u)" using assms(1) by (simp add: client_inv_def)
  have "ok rb" "cl rb = cl (k_tx_buf u)" "av rb = av (k_tx_buf u) @ take n d"
    using put_ok [OF okb, of d] put_content [OF okb, of d] assms(2) by auto
  then show ?thesis using assms(1) by (simp add: client_inv_def client_stream_def cong: option.case_cong)
qed

text \<open>Taking the semaphore and starting a transmission, with the semaphore given back on an error.\<close>

lemma take_start_law:
  assumes "kinv u" and "0 < k_tx_done_sem u" and "client_tx_start U (u\<lparr>k_tx_done_sem := k_tx_done_sem u - 1\<rparr>) = (e, v)"
  shows "kinv (if e \<noteq> 0 then client_sem_give v else v) \<and> kstream (if e \<noteq> 0 then client_sem_give v else v) = kstream u"
proof -
  let ?u = "u\<lparr>k_tx_done_sem := k_tx_done_sem u - 1\<rparr>"
  have "kinv ?u" "o_tx V (k_world ?u) = None" "k_tx_done_sem ?u = 0" "kstream ?u = kstream u"
    using assms(1,2) by (auto simp: client_inv_def client_stream_def split: option.splits)
  from tx_start_law [OF assms(3) this(1-3)] this(4) sem_give_law [of v] show ?thesis by auto
qed

text \<open>One round of the loop: bytes were put, or the transmission was started again, or it ends.\<close>

lemma write_step:
  assumes "kinv u" and "d \<noteq> []" and "tx_write_loop U (Suc fuel) d u = (e, u')"
  obtains (more) n v where "0 < n" "n \<le> length d" "kinv v" "kstream v = kstream u @ take n d" "tx_write_loop U fuel (drop n d) v = (e, u')"
    | (again) v where "kinv v" "flows (k_drv U) (kstream u) (kstream v)" "tx_write_loop U fuel d v = (e, u')"
    | (stop) "kinv u'" "flows (k_drv U) (kstream u) (kstream u')" "e \<noteq> 0 \<or> k_fault u'"
proof -
  obtain b bs where d: "d = b # bs" using assms(2) by (cases d) auto
  obtain n rb where p: "rb_put (k_rb U) d (k_tx_buf u) = (n, rb)" by fastforce
  let ?u = "u\<lparr>k_tx_buf := rb\<rparr>"
  note l = put_law [OF assms(1) p]
  have le: "n \<le> length d" using put_count [of "k_tx_buf u" d] assms(1) p by (simp add: client_inv_def)
  have step: "(if n \<noteq> 0 then tx_write_loop U fuel (drop n d) ?u
           else if \<not> k_tx_enabled ?u then (- EIO, ?u)
           else case client_wait U True (\<lambda>u. 0 < k_tx_done_sem u) (k_fuel U) ?u of (taken, u) \<Rightarrow>
             if \<not> taken then (0, u)
             else case client_tx_start U (u\<lparr>k_tx_done_sem := k_tx_done_sem u - 1\<rparr>) of (err, u) \<Rightarrow>
               if err \<noteq> 0 then (err, client_sem_give u) else tx_write_loop U fuel d u) = (e, u')"
    using assms(3) p unfolding d by (simp add: Let_def)
  consider (put) "n \<noteq> 0" | (off) "n = 0" "\<not> k_tx_enabled u" | (full) "n = 0" "k_tx_enabled u" by blast
  then show thesis
  proof cases
    case put
    then show ?thesis using more [of n ?u] le l step by simp
  next
    case off
    then show ?thesis using stop step l by auto
  next
    case full
    obtain taken v where w: "client_wait U True (\<lambda>u. 0 < k_tx_done_sem u) (k_fuel U) ?u = (taken, v)" by fastforce
    have wl: "kinv v" "flows (k_drv U) (kstream u) (kstream v)" "taken \<longrightarrow> 0 < k_tx_done_sem v"
      using wait_law [OF _ w] l full by auto
    obtain err v2 where s: "client_tx_start U (v\<lparr>k_tx_done_sem := k_tx_done_sem v - 1\<rparr>) = (err, v2)" by fastforce
    show ?thesis
    proof (cases taken)
      case False
      then show ?thesis using stop wl step full w wait_forever [of "\<lambda>u. 0 < k_tx_done_sem u" "k_fuel U" ?u v] by auto
    next
      case True
      then have "kinv (if err \<noteq> 0 then client_sem_give v2 else v2)" "kstream (if err \<noteq> 0 then client_sem_give v2 else v2) = kstream v"
        using take_start_law [OF wl(1) _ s] wl(3) by auto
      then show ?thesis using again [of v2] stop wl(2) step full w s True by (cases "err = 0") auto
    qed
  qed
qed

lemma write_loop_law:
  assumes "kinv u" and "tx_write_loop U fuel d u = (e, u')"
  shows "kinv u' \<and> (\<exists>k \<le> length d. flows (k_drv U) (kstream u @ take k d) (kstream u') \<and>
    (e = 0 \<and> \<not> k_fault u' \<longrightarrow> k = length d))"
  using assms
proof (induction fuel arbitrary: d u)
  case 0
  note f = client_frames(7) [of V u True]
  show ?case using 0 client_inv_frame [OF f, of cl ok] client_stream_frame [OF f, of cl av] by (cases d) auto
next
  case (Suc fuel d u)
  show ?case
  proof (cases "d = []")
    case False
    show ?thesis using Suc.prems(1) False Suc.prems(2)
    proof (cases rule: write_step)
      case (more n v)
      from Suc.IH [OF more(3,5)] more obtain k where k: "kinv u'" "k \<le> length d - n"
        "flows (k_drv U) (kstream u @ take n d @ take k (drop n d)) (kstream u')" "e = 0 \<and> \<not> k_fault u' \<longrightarrow> k = length d - n" by auto
      then show ?thesis using more(2) by (intro conjI k(1) exI [of _ "n + k"]) (auto simp: take_add)
    next
      case (again v)
      from Suc.IH [OF again(1,3)] flows_trans [OF flows_append [OF again(2)]] show ?thesis by blast
    next
      case stop
      then show ?thesis by (intro conjI exI [of _ 0]) auto
    qed
  qed (use Suc.prems in auto)
qed

lemma flush_law: "kinv u \<Longrightarrow> tx_flush U u = (e, u') \<Longrightarrow> kinv u' \<and> kstream u' = kstream u \<and> k_fault u' = k_fault u"
proof -
  assume i: "kinv u" and f: "tx_flush U u = (e, u')"
  have "k_fault u' = k_fault u" using f
    by (auto simp: tx_flush_def client_tx_start_def Let_def client_sem_give_def split: if_splits prod.splits)
  moreover obtain err v where s: "client_tx_start U (u\<lparr>k_tx_done_sem := k_tx_done_sem u - 1\<rparr>) = (err, v)" by fastforce
  ultimately show ?thesis using i f take_start_law [OF i _ s] by (auto simp: tx_flush_def split: if_splits)
qed

text \<open>Data that fits into the ring buffer is taken at once.\<close>

lemma write_loop_fits:
  assumes "ok (k_tx_buf u)" and "length d \<le> rb_capacity_get (k_rb U) (k_tx_buf u) - length (cl (k_tx_buf u)) - length (av (k_tx_buf u))"
    and "0 < fuel"
  shows "tx_write_loop U fuel d u = (0, if d = [] then u else u\<lparr>k_tx_buf := snd (rb_put (k_rb U) d (k_tx_buf u))\<rparr>) \<and>
    fst (rb_put (k_rb U) d (k_tx_buf u)) = length d"
proof (cases d)
  case Nil
  then show ?thesis using put_count [OF assms(1), of d] by simp
next
  case (Cons b bs)
  obtain f where "fuel = Suc f" using assms(3) by (cases fuel) auto
  moreover have "fst (rb_put (k_rb U) d (k_tx_buf u)) = length d" using put_count [OF assms(1), of d] assms(2) by simp
  ultimately show ?thesis using Cons by (simp add: case_prod_unfold)
qed

text \<open>A transmission that the driver refuses because another one is in progress takes the claim of
  that one back.\<close>

lemma busy_start_unclaims:
  assumes "ok (k_tx_buf u)" and "cl (k_tx_buf u) = x" and "o_tx V (k_world u) = Some x" and "k_tx_enabled u"
    and "client_tx_start U u = (e, v)"
  shows "e \<noteq> 0 \<and> cl (k_tx_buf v) = [] \<and> av (k_tx_buf v) = x @ av (k_tx_buf u) \<and> ok (k_tx_buf v) \<and>
    o_tx V (k_world v) = Some x \<and> o_wire V (k_world v) = o_wire V (k_world u) \<and> k_tx_enabled v"
proof -
  let ?b = "k_tx_buf u"
  obtain y rb where cm: "rb_get_claim (k_rb U) (rb_capacity_get (k_rb U) ?b) ?b = (y, rb)" by fastforce
  obtain err w where tx: "d_tx (k_drv U) y (k_world u) = (err, w)" by fastforce
  have c: "ok rb" "cl rb = x @ y" "av ?b = y @ av rb"
    using claim_ok [OF assms(1), of "rb_capacity_get (k_rb U) ?b"] claim_content [OF assms(1), of "rb_capacity_get (k_rb U) ?b"] cm assms(2)
    by auto
  have e: "err \<noteq> 0" using tx_started [of y "k_world u" w] tx_empty [of "k_world u" w] tx assms(3) by (cases "y = []") auto
  have f: "ok (snd (rb_get_finish (k_rb U) 0 rb))" "cl (snd (rb_get_finish (k_rb U) 0 rb)) = []"
    "av (snd (rb_get_finish (k_rb U) 0 rb)) = x @ av ?b"
    using finish_ok [OF c(1)] finish_content [OF c(1), of 0] c by auto
  show ?thesis using assms tx_failed [OF tx e] tx e cm f by (auto simp: client_tx_start_def tx_same_def)
qed

lemma tx_start_keeps:
  assumes "client_tx_start U u = (e, v)" and "ok (k_tx_buf u)" and "cl (k_tx_buf u) = []"
  shows "kstream v = kstream u \<and> k_tx_done_sem v = k_tx_done_sem u \<and> k_tx_enabled v = k_tx_enabled u \<and> k_active v = k_active u \<and>
    (e = 0 \<longrightarrow> (\<exists>x. o_tx V (k_world v) = Some x \<and> cl (k_tx_buf v) = x \<and> ok (k_tx_buf v) \<and> (av (k_tx_buf u) \<noteq> [] \<longrightarrow> x \<noteq> [])))"
proof (cases "k_tx_enabled u")
  case True
  let ?b = "k_tx_buf u"
  obtain x rb where cm: "rb_get_claim (k_rb U) (rb_capacity_get (k_rb U) ?b) ?b = (x, rb)" by fastforce
  obtain err w where tx: "d_tx (k_drv U) x (k_world u) = (err, w)" by fastforce
  have c: "ok rb" "cl rb = x" "av ?b = x @ av rb" "av ?b \<noteq> [] \<longrightarrow> x \<noteq> []"
    using claim_ok [OF assms(2), of "rb_capacity_get (k_rb U) ?b"] claim_content [OF assms(2), of "rb_capacity_get (k_rb U) ?b"]
      claim_progress [OF assms(2), of "rb_capacity_get (k_rb U) ?b"] capacity_bound [OF assms(2)] cm assms(3) by auto
  have f: "cl (snd (rb_get_finish (k_rb U) 0 rb)) = []" "av (snd (rb_get_finish (k_rb U) 0 rb)) = av ?b"
    using finish_content [OF c(1), of 0] c by auto
  have t: "o_wire V w = o_wire V (k_world u) \<and> (err = 0 \<longrightarrow> o_tx V w = Some x)"
    using tx_started [of x "k_world u" w] tx_empty [of "k_world u" w] tx_failed [OF tx] tx
    by (cases "err = 0"; cases "x = []") (auto simp: tx_same_def)
  have "(e, v) = (if err \<noteq> 0 then (err, u\<lparr>k_tx_buf := rb, k_world := w, k_tx_buf := snd (rb_get_finish (k_rb U) 0 rb)\<rparr>)
      else (0, u\<lparr>k_tx_buf := rb, k_world := w\<rparr>))"
    using assms(1) True tx cm by (simp add: client_tx_start_def Let_def)
  then show ?thesis using assms(2,3) c f t by (cases "err = 0") (simp_all add: client_stream_def)
qed (use assms in \<open>auto simp: client_tx_start_def client_stream_def\<close>)

lemma rx_enable_active: "k_active (snd (client_rx_enable U u)) = k_active u"
  by (auto simp: client_rx_enable_def buf_alloc_def buf_unref_def Let_def split: prod.splits option.splits)

text \<open>Switching the UART on with data in the buffer starts its transmission and leaves the semaphore
  free.\<close>

lemma dtr_enable_starts:
  assumes "kinv u" and "\<not> k_tx_enabled u" and "o_tx V (k_world u) = None" and "av (k_tx_buf u) \<noteq> []"
    and "\<And>w. k_hwfc U w = (0, True)" and "\<And>l w. tx_same V w (snd (g_dtr_set (k_gpio U) l w))"
    and "dtr_uart_enable U u = (0, v)"
  obtains x where "x \<noteq> []" "o_tx V (k_world v) = Some x" "cl (k_tx_buf v) = x" "ok (k_tx_buf v)" "k_tx_done_sem v = 1"
    "k_tx_enabled v" "k_active v" "kstream v = kstream u"
proof -
  let ?u = "u\<lparr>k_active := True, k_rx_recovery_disabled := False\<rparr>"
  obtain e1 u1 where r: "client_rx_enable U ?u = (e1, u1)" by fastforce
  obtain e2 u2 where p: "dtr_pin_set U True u1 = (e2, u2)" by fastforce
  have "client_frame V u ?u" by (simp add: client_frame_def)
  moreover have f1: "client_frame V ?u u1" using rx_enable_frame [of ?u] r by simp
  moreover have f2: "client_frame V u1 u2" using p assms(6) [of "k_world u1" True]
    by (auto simp: dtr_pin_set_def client_frame_def split: if_splits prod.splits)
  ultimately have f: "client_frame V u u2" using client_frame_trans by blast
  have act: "k_active u2" using rx_enable_active [of ?u] r p by (auto simp: dtr_pin_set_def split: if_splits prod.splits)
  let ?v = "client_sem_give (u2\<lparr>k_tx_enabled := True\<rparr>)"
  have v: "ok (k_tx_buf ?v)" "cl (k_tx_buf ?v) = []" "av (k_tx_buf ?v) \<noteq> []" "kstream ?v = kstream u" "k_tx_done_sem ?v = 1" "k_active ?v" "k_tx_enabled ?v"
    using f assms(1-4) act by (auto simp: client_frame_def tx_same_def client_inv_def client_stream_def client_sem_give_def)
  have e: "e1 = 0" "e2 = 0" using assms(7) r p by (auto simp: dtr_uart_enable_def split: if_splits)
  have ne: "\<not> rb_is_empty (k_rb U) (k_tx_buf ?v)" using is_empty [OF v(1,2)] v(3) by simp
  have "client_tx_start U ?v = (0, v)"
    using assms(2,7) e r p ne f by (auto simp: dtr_uart_enable_def wait_without_hwfc_def assms(5) client_tx_enable_def client_frame_def split: prod.splits if_splits)
  from tx_start_keeps [OF this v(1,2)] v that show thesis by auto
qed

lemma finish_keeps: "ok b \<Longrightarrow> length (cl b) < n \<Longrightarrow> snd (rb_get_finish (k_rb U) n b) = b"
  using finish_bad by simp

end

section \<open>Properties\<close>

text \<open>Writing to the AT client appends to the stream of bytes on the line and in the transmit
  buffer: what is on the line and in the buffer afterwards is what was there, followed by a part of
  the data, with nothing altered, duplicated or reordered; bytes are missing only if a transmission
  was aborted, and all of the data was taken when the call reports success. Data that fits into the
  free space of the buffer is taken completely and without waiting.\<close>

lemma client_writes_in_order:
  assumes "client_tx U cl av ok V" and "client_inv V cl ok u" and "\<not> (k_automatic u \<and> \<not> k_active u)"
    and "tx_write U d flush u = (e, u')"
  shows "client_inv V cl ok u' \<and>
    (\<exists>k \<le> length d. flows (k_drv U) (client_stream V cl av u @ take k d) (client_stream V cl av u') \<and>
       (e = 0 \<and> \<not> k_fault u' \<longrightarrow> k = length d)) \<and>
    (length d \<le> rb_capacity_get (k_rb U) (k_tx_buf u) - length (cl (k_tx_buf u)) - length (av (k_tx_buf u)) \<and> 0 < k_fuel U \<longrightarrow>
       client_stream V cl av u' = client_stream V cl av u @ d \<and> k_fault u' = k_fault u)"
proof -
  note flush = client_tx.flush_law [OF assms(1)] and loop = client_tx.write_loop_law [OF assms(1)]
  have okb: "ok (k_tx_buf u)" using assms(2) by (simp add: client_inv_def)
  obtain err v where w: "tx_write_loop U (k_fuel U) d u = (err, v)" by fastforce
  have r: "(if err \<noteq> 0 then (err, v) else if flush then tx_flush U v else (0, v)) = (e, u')"
    using assms(4) w unfolding tx_write_def Let_def if_not_P [OF assms(3)] by simp
  from loop [OF assms(2) w] obtain k where k: "client_inv V cl ok v" "k \<le> length d"
    "flows (k_drv U) (client_stream V cl av u @ take k d) (client_stream V cl av v)" "err = 0 \<and> \<not> k_fault v \<longrightarrow> k = length d" by auto
  have s: "client_inv V cl ok u'" "client_stream V cl av u' = client_stream V cl av v" "k_fault u' = k_fault v" "e = 0 \<longrightarrow> err = 0"
    using flush [OF k(1)] r k(1) by (auto split: if_splits)
  have fit: "client_stream V cl av v = client_stream V cl av u @ d \<and> k_fault v = k_fault u"
    if "length d \<le> rb_capacity_get (k_rb U) (k_tx_buf u) - length (cl (k_tx_buf u)) - length (av (k_tx_buf u))" "0 < k_fuel U"
  proof -
    have f: "v = (if d = [] then u else u\<lparr>k_tx_buf := snd (rb_put (k_rb U) d (k_tx_buf u))\<rparr>)" "fst (rb_put (k_rb U) d (k_tx_buf u)) = length d"
      using client_tx.write_loop_fits [OF assms(1) okb that] w by auto
    show ?thesis using client_tx.put_law [OF assms(1,2) prod.collapse [symmetric], of d] f by auto
  qed
  show ?thesis using k s fit by auto
qed

text \<open>Switching the UART on while data waits in the transmit buffer starts a transmission without
  taking the semaphore that says one is in progress. The next write then finds the driver busy, takes
  back the claim of that transmission and reports an error; when the transmission ends its bytes are
  still in the buffer, and they are sent a second time.\<close>

lemma dtr_enable_resends:
  assumes "client_tx U cl av ok V" and "client_inv V cl ok u" and "\<not> k_tx_enabled u" and "o_tx V (k_world u) = None"
    and "av (k_tx_buf u) \<noteq> []"
    and "\<And>w. k_hwfc U w = (0, True)" and "\<And>l w. tx_same V w (snd (g_dtr_set (k_gpio U) l w))"
    and "dtr_uart_enable U u = (0, u1)"
    and "length d \<le> rb_capacity_get (k_rb U) (k_tx_buf u1) - length (cl (k_tx_buf u1)) - length (av (k_tx_buf u1))" and "0 < k_fuel U"
    and "tx_write U d True u1 = (e, u2)"
    and "event_ok (k_drv U) V (k_world u2) (UART_TX_DONE n) w"
  shows "e \<noteq> 0 \<and> (\<exists>x r. x \<noteq> [] \<and> client_stream V cl av u = o_wire V (k_world u1) @ x @ r \<and>
    o_wire V w = o_wire V (k_world u1) @ x \<and>
    client_stream V cl av (client_callback U (UART_TX_DONE n) (u2\<lparr>k_world := w\<rparr>)) = o_wire V (k_world u1) @ x @ x @ r @ d)"
proof -
  note C = assms(1) [THEN client_tx.busy_start_unclaims] assms(1) [THEN client_tx.tx_start_keeps]
  note rb = client_tx.axioms(1) [OF assms(1)]
  obtain x where x: "x \<noteq> []" "o_tx V (k_world u1) = Some x" "cl (k_tx_buf u1) = x" "ok (k_tx_buf u1)" "k_tx_done_sem u1 = 1"
    "k_tx_enabled u1" "k_active u1" "client_stream V cl av u1 = client_stream V cl av u"
    using client_tx.dtr_enable_starts [OF assms(1-8)] by metis
  let ?b = "if d = [] then k_tx_buf u1 else snd (rb_put (k_rb U) d (k_tx_buf u1))"
  let ?v = "u1\<lparr>k_tx_buf := ?b, k_tx_done_sem := 0\<rparr>"
  have w: "tx_write_loop U (k_fuel U) d u1 = (0, u1\<lparr>k_tx_buf := ?b\<rparr>)" and c: "fst (rb_put (k_rb U) d (k_tx_buf u1)) = length d"
    using client_tx.write_loop_fits [OF assms(1) x(4) assms(9,10)] by auto
  have b: "ok ?b" "cl ?b = x" "av ?b = av (k_tx_buf u1) @ d"
    using ring_buffer.put_ok [OF rb x(4), of d] ring_buffer.put_content [OF rb x(4), of d] c x(3,4) by auto
  obtain e' v where s: "client_tx_start U ?v = (e', v)" by fastforce
  have v: "e' \<noteq> 0" "cl (k_tx_buf v) = []" "av (k_tx_buf v) = x @ av (k_tx_buf u1) @ d" "ok (k_tx_buf v)"
    "o_tx V (k_world v) = Some x" "o_wire V (k_world v) = o_wire V (k_world u1)" "k_tx_enabled v"
    using C(1) [OF _ _ _ _ s, of x] b x by auto
  have e: "e = e'" "u2 = client_sem_give v" using assms(11) x(5-7) w s v(1) by (auto simp: tx_write_def tx_flush_def)
  have n: "n = length x" "o_wire V w = o_wire V (k_world u1) @ x"
    using assms(12) v(5,6) by (auto simp: e client_sem_give_def)
  let ?u3 = "(client_sem_give v)\<lparr>k_world := w\<rparr>"
  have f: "snd (rb_get_finish (k_rb U) (length x) (k_tx_buf v)) = k_tx_buf v"
    using client_tx.finish_keeps [OF assms(1) v(4), of "length x"] v(2) x(1) by simp
  have ne: "\<not> rb_is_empty (k_rb U) (k_tx_buf v)" using ring_buffer.is_empty [OF rb v(4,2)] v(3) x(1) by simp
  obtain e3 u3 where t: "client_tx_start U ?u3 = (e3, u3)" by fastforce
  have "client_stream V cl av u3 = client_stream V cl av ?u3" using C(2) [OF t] v by (simp add: client_sem_give_def)
  then have "client_stream V cl av (client_callback U (UART_TX_DONE n) (u2\<lparr>k_world := w\<rparr>)) = client_stream V cl av ?u3"
    using t f ne by (simp add: client_callback_def client_tx_done_def n e client_stream_def client_sem_give_def)
  then show ?thesis using v n x(1) x(8) e x(3)
    by (intro conjI exI [of _ x] exI [of _ "av (k_tx_buf u1)"]) (auto simp: client_stream_def client_sem_give_def)
qed

text \<open>When the driver refuses a buffer that it had requested, the client drops a reference of the
  wrong block: the new block keeps its reference for ever, and the block before it loses one, which
  frees it if it was the last one although the driver or a queued fragment still uses it.\<close>

lemma refused_buffer_misaccounted:
  assumes "sl_alloc (k_slab U) (p_slab (k_pool u)) = (Some (Suc b), s)" and "client_block_addr U (Suc b) < 2 ^ 32"
    and "d_rx_buf_rsp (k_drv U) (client_block_data U (Suc b)) (k_cfg_rx_buf_size U) (k_world u) = (e, w)" and "e \<noteq> 0"
  defines "P \<equiv> k_pool (client_rx_buf_request U u)"
  shows "p_ref P (Suc b) = 1 \<and> p_ref P b = p_ref (k_pool u) b - 1 \<and>
    p_slab P = (if p_ref (k_pool u) b = 1 then sl_free (k_slab U) b s else s)"
proof -
  have "client_block_start_get U (client_block_addr U (Suc b)) = (client_block_addr U (Suc b) - 4) div client_block_size U"
    by (rule client_block_start) (use assms(2) in \<open>simp_all add: client_block_addr_def client_block_size_def\<close>)
  also have "client_block_addr U (Suc b) - 4 = (client_block_size U - 4) + b * client_block_size U"
    by (simp add: client_block_addr_def client_block_size_def)
  also have "\<dots> div client_block_size U = b" by (simp add: client_block_size_def)
  finally show ?thesis using assms(1,3,4)
    by (simp add: P_def client_rx_buf_request_def buf_alloc_def rx_buf_alloc_def buf_unref_def rx_buf_unref_def Let_def)
qed

end
