(* ===== verification/Uart_Rx.thy ===== *)
theory Uart_Rx
  imports Uart_Tx
begin

text \<open>
  The reception of the UART handler. Every block of the slab is free or referenced as often as the
  driver and the queued fragments use it, and a queued fragment lies in a part of its block that the
  driver has already reported and does not write any more. So what waits to be read is a queue of
  bytes: reported bytes are appended, \<open>pipe_receive\<close> takes them from the front, and nothing else
  touches them.
\<close>

section \<open>Layout of the blocks\<close>

lemma block_start_in:
  assumes "block_data U b \<le> q" and "q < block_data U b + u_cfg_rx_buf_size U"
  shows "block_start_get U q = b"
proof -
  obtain k where "q = b * UART_SLAB_BLOCK_SIZE U + k" "k < UART_SLAB_BLOCK_SIZE U"
    using assms by (intro that [of "q - b * UART_SLAB_BLOCK_SIZE U"]) (auto simp: block_data_def UART_SLAB_BLOCK_SIZE_def)
  then show ?thesis by (simp add: block_start_get_def)
qed

interpretation uart_layout: block_layout "block_start_get U" "UART_SLAB_BLOCK_SIZE U" RX_BUF_HDR "u_cfg_rx_buf_size U" for U
  by unfold_locales (rule block_start_in, simp_all add: block_data_def UART_SLAB_BLOCK_SIZE_def)

lemma block_start_addr [simp]: "block_start_get U (block_addr U b) = b"
  by (simp add: block_start_get_def block_addr_def UART_SLAB_BLOCK_SIZE_def)

lemma block_start_data [simp]: "0 < u_cfg_rx_buf_size U \<Longrightarrow> block_start_get U (block_data U b) = b"
  by (rule block_start_in) simp_all

section \<open>Invariant and content\<close>

definition rx_users :: "('rb, 'sl, 'w) uart_env \<Rightarrow> rx_own list \<Rightarrow> rx_event_t list \<Rightarrow> nat \<Rightarrow> nat" where
  "rx_users U own evs b =
     count_list (map (\<lambda>e. block_start_get U (re_buf e)) evs) b + count_list (map (\<lambda>x. block_start_get U (fst x)) own) b"

definition own_wf :: "('rb, 'sl, 'w) uart_env \<Rightarrow> rx_own list \<Rightarrow> bool" where
  "own_wf U own \<longleftrightarrow> distinct (map fst own) \<and>
     (\<forall>(p, n, f) \<in> set own. p = block_data U (block_start_get U p) \<and> n = u_cfg_rx_buf_size U \<and> f \<le> n)"

text \<open>A fragment: within the data of its block, and reported if the driver still has the block.\<close>

definition event_wf :: "('rb, 'sl, 'w) uart_env \<Rightarrow> rx_own list \<Rightarrow> rx_event_t \<Rightarrow> bool" where
  "event_wf U own e \<longleftrightarrow> 0 < re_len e \<and>
     (let p = block_data U (block_start_get U (re_buf e))
      in p \<le> re_buf e \<and> re_buf e + re_len e \<le> p + u_cfg_rx_buf_size U \<and>
         (\<forall>(q, n, f) \<in> set own. q = p \<longrightarrow> re_buf e + re_len e \<le> p + f))"

definition rx_inv ::
  "('rb, 'sl, 'w) uart_env \<Rightarrow> 'w uart_obs \<Rightarrow> ('sl \<Rightarrow> nat set) \<Rightarrow> ('sl \<Rightarrow> bool) \<Rightarrow> ('rb, 'sl, 'w) uart \<Rightarrow> bool" where
  "rx_inv U V fr sok u \<longleftrightarrow>
     pool_ok fr sok (u_cfg_rx_buf_count U) (rx_users U (o_own V (u_world u)) (u_rx_events u)) (u_pool u) \<and>
     own_wf U (o_own V (u_world u)) \<and> (\<forall>e \<in> set (u_rx_events u). event_wf U (o_own V (u_world u)) e) \<and>
     length (u_rx_events u) \<le> UART_RX_EVENT_COUNT U"

text \<open>The bytes that wait to be read.\<close>

definition event_data :: "(nat \<Rightarrow> byte) \<Rightarrow> rx_event_t \<Rightarrow> bytes" where
  "event_data m e = mem_read m (re_buf e) (re_len e)"

definition rx_pending :: "('rb, 'sl, 'w) uart_env \<Rightarrow> ('rb, 'sl, 'w) uart \<Rightarrow> bytes" where
  "rx_pending U u = concat (map (event_data (d_mem (u_drv U) (u_world u))) (u_rx_events u))"

definition rx_kept :: "('rb, 'sl, 'w) uart_env \<Rightarrow> 'w uart_obs \<Rightarrow> ('rb, 'sl, 'w) uart \<Rightarrow> ('rb, 'sl, 'w) uart \<Rightarrow> bool" where
  "rx_kept U V u u' \<longleftrightarrow> rx_pending U u' = rx_pending U u \<and> o_line V (u_world u') = o_line V (u_world u)"

lemma event_in_block:
  assumes "event_wf U own e" and "re_buf e \<le> q" and "q < re_buf e + re_len e"
  shows "block_start_get U q = block_start_get U (re_buf e)"
  using assms by (intro block_start_in) (auto simp: event_wf_def Let_def)

text \<open>The driver writes into no queued fragment.\<close>

lemma event_not_writable:
  assumes "event_wf U own e" and "own_wf U own" and "re_buf e \<le> q" and "q < re_buf e + re_len e"
  shows "q \<notin> writable own"
proof
  assume "q \<in> writable own"
  then obtain p n f where o: "(p, n, f) \<in> set own" "p + f \<le> q" "q < p + n" by (auto simp: writable_def)
  have p: "p = block_data U (block_start_get U p)" "n = u_cfg_rx_buf_size U" using assms(2) o(1) by (auto simp: own_wf_def)
  have "block_start_get U q = block_start_get U p" using p o by (intro block_start_in) auto
  then have "block_data U (block_start_get U (re_buf e)) = p"
    using event_in_block [OF assms(1,3,4)] p by simp
  with assms(1,4) o show False by (fastforce simp: event_wf_def Let_def)
qed

lemma pending_kept:
  assumes "\<forall>e \<in> set evs. event_wf U own e" and "own_wf U own" and "mem_same D (writable own \<union> X) w w'"
    and "\<And>e q. e \<in> set evs \<Longrightarrow> re_buf e \<le> q \<Longrightarrow> q < re_buf e + re_len e \<Longrightarrow> q \<notin> X"
  shows "concat (map (event_data (d_mem D w')) evs) = concat (map (event_data (d_mem D w)) evs)"
proof (intro arg_cong [of _ _ concat] map_cong refl)
  fix e assume e: "e \<in> set evs"
  show "event_data (d_mem D w') e = event_data (d_mem D w) e" unfolding event_data_def
  proof (rule mem_read_cong)
    fix q assume "re_buf e \<le> q" "q < re_buf e + re_len e"
    with e event_not_writable [of U own e q] assms show "d_mem D w' q = d_mem D w q" by (auto simp: mem_same_def)
  qed
qed

lemma rx_frame_inv:
  "rx_frame (u_drv U) V u u' \<Longrightarrow> rx_inv U V fr sok u \<Longrightarrow> rx_inv U V fr sok u' \<and> rx_kept U V u u'"
  using pending_kept [of "u_rx_events u" U "o_own V (u_world u)" "u_drv U" "{}" "u_world u" "u_world u'"]
  by (simp add: rx_frame_def rx_same_def rx_inv_def rx_pending_def rx_kept_def)

lemma count_list_map_pos: "x \<in> set xs \<Longrightarrow> 0 < count_list (map f xs) (f x)"
  by (induction xs) auto

lemma rx_users_used: "e \<in> set evs \<Longrightarrow> 0 < rx_users U own evs (block_start_get U (re_buf e))"
  using count_list_map_pos [of e evs "\<lambda>e. block_start_get U (re_buf e)"] by (simp add: rx_users_def)

lemma rx_users_own: "x \<in> set own \<Longrightarrow> 0 < rx_users U own evs (block_start_get U (fst x))"
  using count_list_map_pos [of x own "\<lambda>x. block_start_get U (fst x)"] by (simp add: rx_users_def)

lemma rx_users_unused:
  "rx_users U own evs b = 0 \<Longrightarrow> (\<forall>e \<in> set evs. block_start_get U (re_buf e) \<noteq> b) \<and> (\<forall>x \<in> set own. block_start_get U (fst x) \<noteq> b)"
  by (auto simp: rx_users_def count_list_0_iff)

lemma rx_users_add_event:
  "rx_users U own (evs @ [e]) = (rx_users U own evs)(block_start_get U (re_buf e) := rx_users U own evs (block_start_get U (re_buf e)) + 1)"
  by (auto simp: rx_users_def fun_eq_iff)

lemma rx_users_remove_event:
  "rx_users U own evs = (rx_users U own (e # evs))(block_start_get U (re_buf e) := rx_users U own (e # evs) (block_start_get U (re_buf e)) - 1)"
  by (auto simp: rx_users_def fun_eq_iff)

lemma rx_users_add_own:
  "rx_users U (own @ [x]) evs = (rx_users U own evs)(block_start_get U (fst x) := rx_users U own evs (block_start_get U (fst x)) + 1)"
  by (auto simp: rx_users_def fun_eq_iff)

lemma rx_users_report [simp]: "rx_users U (report p k own) evs = rx_users U own evs"
proof -
  have "map (\<lambda>x. block_start_get U (fst x)) (report p k own) = map (\<lambda>x. block_start_get U (fst x)) own"
    by (auto simp: report_def)
  then show ?thesis unfolding rx_users_def by presburger
qed

lemma rx_users_release:
  assumes "distinct (map fst own)" and "p \<in> fst ` set own"
  shows "rx_users U (filter (\<lambda>x. fst x \<noteq> p) own) evs =
    (rx_users U own evs)(block_start_get U p := rx_users U own evs (block_start_get U p) - 1)"
proof -
  from assms(2) obtain x where x: "x \<in> set own" "p = fst x" by auto
  then obtain xs ys where own: "own = xs @ x # ys" by (meson split_list)
  have "filter (\<lambda>x. fst x \<noteq> p) xs = xs" "filter (\<lambda>x. fst x \<noteq> p) ys = ys"
    using assms(1) x(2) unfolding own filter_id_conv by (simp_all add: image_iff) metis+
  then have "filter (\<lambda>x. fst x \<noteq> p) own = xs @ ys" using x(2) by (simp add: own)
  then show ?thesis using x(2) by (simp add: own rx_users_def fun_eq_iff)
qed

section \<open>The operations\<close>

lemma own_wf_add:
  assumes "own_wf U own" and "\<forall>x \<in> set own. block_start_get U (fst x) \<noteq> b" and "0 < u_cfg_rx_buf_size U"
  shows "own_wf U (own @ [(block_data U b, u_cfg_rx_buf_size U, 0)])"
  using assms by (fastforce simp: own_wf_def)

lemma event_wf_add:
  assumes "event_wf U own e" and "block_start_get U (re_buf e) \<noteq> b" and "0 < u_cfg_rx_buf_size U"
  shows "event_wf U (own @ [(block_data U b, n, f)]) e"
proof -
  have "block_data U (block_start_get U (re_buf e)) \<noteq> block_data U b"
    using assms(2) block_start_data [OF assms(3), of b] block_start_data [OF assms(3), of "block_start_get U (re_buf e)"] by metis
  then show ?thesis using assms(1) by (auto simp: event_wf_def Let_def)
qed

lemma event_wf_mono:
  assumes "event_wf U own e" and "\<And>q n f'. (q, n, f') \<in> set own' \<Longrightarrow> \<exists>f \<le> f'. (q, n, f) \<in> set own"
  shows "event_wf U own' e"
  using assms unfolding event_wf_def Let_def by (fastforce dest: assms(2))

lemma report_mono:
  assumes "own_wf U own" and "(p, n, off) \<in> set own" and "(q, m, f') \<in> set (report p (off + l) own)"
  shows "\<exists>f \<le> f'. (q, m, f) \<in> set own"
proof (cases "q = p")
  case True
  then obtain f where "(p, m, f) \<in> set own" "f' = off + l" using assms(3) by (auto simp: report_def split: if_splits)
  moreover have "f = off" using assms(1,2) calculation(1) eq_key_imp_eq_value [of own p] by (auto simp: own_wf_def)
  ultimately show ?thesis using True by (intro exI [of _ f]) simp
qed (use assms(3) in \<open>auto simp: report_def split: if_splits\<close>)

lemma own_wf_report:
  assumes "own_wf U own" and "(p, n, off) \<in> set own" and "off + l \<le> n"
  shows "own_wf U (report p (off + l) own)"
proof -
  have n: "n = u_cfg_rx_buf_size U" using assms(1,2) by (auto simp: own_wf_def)
  have "q = block_data U (block_start_get U q) \<and> m = u_cfg_rx_buf_size U \<and> f \<le> m"
    if "(q, m, f) \<in> set (report p (off + l) own)" for q m f
  proof -
    obtain f0 where "(q, m, f0) \<in> set own" "f = f0 \<or> f = off + l" using \<open>(q, m, f) \<in> _\<close>
      by (auto simp: report_def split: if_splits)
    then show ?thesis using assms(1,3) n by (auto simp: own_wf_def)
  qed
  moreover have "distinct (map fst (report p (off + l) own))" using assms(1) by (simp add: own_wf_def)
  ultimately show ?thesis unfolding own_wf_def by blast
qed

lemma own_wf_filter: "own_wf U own \<Longrightarrow> own_wf U (filter Q own)"
  by (auto simp: own_wf_def distinct_map_filter)

locale uart_rx = uart_driver "u_drv U" V + buffer_pool "u_slab U" free slab_ok
  for U :: "('rb, 'sl, 'w) uart_env" and V free slab_ok +
  assumes size_pos: "0 < u_cfg_rx_buf_size U"
begin

abbreviation rinv :: "('rb, 'sl, 'w) uart \<Rightarrow> bool" where "rinv \<equiv> rx_inv U V free slab_ok"

text \<open>Giving a fresh block to the driver, or taking it back when the driver refuses.\<close>

lemma give_block:
  assumes "rinv u" and "pool_alloc U u = (Some b, u1)" and "buf_given (u_drv U) V (block_data U b) (u_cfg_rx_buf_size U) (u_world u1) w"
  shows "rinv (u1\<lparr>u_world := w\<rparr>) \<and> rx_kept U V u (u1\<lparr>u_world := w\<rparr>)"
proof -
  let ?own = "o_own V (u_world u)" and ?evs = "u_rx_events u"
  obtain P where al: "rx_buf_alloc (u_slab U) (u_pool u) = (Some b, P)" and u1: "u1 = u\<lparr>u_pool := P\<rparr>"
    using assms(2) by (auto simp: pool_alloc_def split: prod.splits)
  have i: "pool_ok free slab_ok (u_cfg_rx_buf_count U) (rx_users U ?own ?evs) (u_pool u)" "own_wf U ?own"
    "\<forall>e \<in> set ?evs. event_wf U ?own e" "length ?evs \<le> UART_RX_EVENT_COUNT U"
    using assms(1) by (auto simp: rx_inv_def)
  have P: "rx_users U ?own ?evs b = 0" "pool_ok free slab_ok (u_cfg_rx_buf_count U) ((rx_users U ?own ?evs)(b := 1)) P"
    using alloc_good [OF i(1) al] by auto
  note un = rx_users_unused [OF P(1)]
  have own: "o_own V w = ?own @ [(block_data U b, u_cfg_rx_buf_size U, 0)]"
    and m: "mem_same (u_drv U) (writable ?own \<union> {block_data U b..<block_data U b + u_cfg_rx_buf_size U}) (u_world u) w"
    using assms(3) u1 by (auto simp: buf_given_def)
  have us: "rx_users U (o_own V w) ?evs = (rx_users U ?own ?evs)(b := 1)"
    unfolding own rx_users_add_own using P(1) size_pos by simp
  have "rinv (u1\<lparr>u_world := w\<rparr>)"
    using i P(2) us un own_wf_add [OF i(2) conjunct2 [OF un] size_pos] event_wf_add [OF _ _ size_pos, of ?own _ b]
    by (simp add: rx_inv_def u1 own)
  moreover have "concat (map (event_data (d_mem (u_drv U) w)) ?evs) = concat (map (event_data (d_mem (u_drv U) (u_world u))) ?evs)"
  proof (rule pending_kept [OF i(3,2) m])
    fix e q assume e: "e \<in> set ?evs" "re_buf e \<le> q" "q < re_buf e + re_len e"
    have "block_start_get U q \<noteq> b" using event_in_block [of U ?own e q] e i(3) un by auto
    then show "q \<notin> {block_data U b..<block_data U b + u_cfg_rx_buf_size U}" using block_start_in [of U b q] by auto
  qed
  moreover have "o_line V w = o_line V (u_world u)" using assms(3) u1 by (simp add: buf_given_def)
  ultimately show ?thesis by (simp add: rx_pending_def rx_kept_def u1)
qed

lemma refuse_block:
  assumes "rinv u" and "pool_alloc U u = (Some b, u1)" and "rx_same (u_drv U) V (u_world u1) w"
  defines "u' \<equiv> pool_unref U (block_addr U b) (u1\<lparr>u_world := w\<rparr>)"
  shows "rinv u' \<and> rx_kept U V u u'"
proof -
  let ?us = "rx_users U (o_own V (u_world u)) (u_rx_events u)" and ?n = "u_cfg_rx_buf_count U"
  obtain P where al: "rx_buf_alloc (u_slab U) (u_pool u) = (Some b, P)" and u1: "u1 = u\<lparr>u_pool := P\<rparr>"
    using assms(2) by (auto simp: pool_alloc_def split: prod.splits)
  have i: "pool_ok free slab_ok ?n ?us (u_pool u)" using assms(1) by (auto simp: rx_inv_def)
  have P: "?us b = 0" "pool_ok free slab_ok ?n (?us(b := 1)) P" using alloc_good [OF i al] by auto
  have "pool_ok free slab_ok ?n ((?us(b := 1))(b := 0)) (rx_buf_unref (u_slab U) (block_start_get U) (block_addr U b) P)"
    using unref_good [OF P(2), of "block_start_get U" "block_addr U b"] by simp
  moreover have "(?us(b := 1))(b := 0) = ?us" using P(1) by auto
  ultimately have "rinv (u\<lparr>u_pool := rx_buf_unref (u_slab U) (block_start_get U) (block_addr U b) P\<rparr>)"
    using assms(1) by (simp add: rx_inv_def)
  moreover have "rx_frame (u_drv U) V (u\<lparr>u_pool := rx_buf_unref (u_slab U) (block_start_get U) (block_addr U b) P\<rparr>) u'"
    using assms(3) by (simp add: rx_frame_def u'_def pool_unref_def u1)
  ultimately show ?thesis using rx_frame_inv [of U V _ u' free slab_ok] by (auto simp: rx_pending_def rx_kept_def)
qed

lemma no_block:
  assumes "rinv u" and "pool_alloc U u = (None, u1)" shows "rinv u1 \<and> rx_kept U V u u1"
  using assms alloc_fails by (fastforce simp: pool_alloc_def rx_inv_def rx_pending_def rx_kept_def split: prod.splits)

lemma rx_enable_law:
  assumes "rinv u" shows "rinv (snd (rx_enable U u)) \<and> rx_kept U V u (snd (rx_enable U u))"
proof (cases "u_rx_enabled u \<or> u_rx_recovery_disabled u")
  case False
  obtain b u1 where a: "pool_alloc U u = (b, u1)" by fastforce
  show ?thesis
  proof (cases b)
    case (Some k)
    obtain e w where d: "d_rx_enable (u_drv U) (block_data U k) (u_cfg_rx_buf_size U) (u_world u1) = (e, w)" by fastforce
    show ?thesis
    proof (cases "e = 0")
      case True
      have "rinv (u1\<lparr>u_world := w\<rparr>) \<and> rx_kept U V u (u1\<lparr>u_world := w\<rparr>)"
        using give_block [OF assms a [unfolded Some]] rx_enabled d True by blast
      then show ?thesis using False a Some d True by (simp add: rx_enable_def rx_inv_def rx_pending_def rx_kept_def)
    next
      case e: False
      then show ?thesis using refuse_block [OF assms a [unfolded Some]] rx_enable_failed [OF d e] False a Some d
        by (simp add: rx_enable_def)
    qed
  qed (use no_block [OF assms] False a in \<open>auto simp: rx_enable_def\<close>)
qed (use assms in \<open>simp add: rx_enable_def rx_kept_def\<close>)

lemma rx_recovery_law:
  assumes "rinv u" shows "rinv (rx_recovery U u) \<and> rx_kept U V u (rx_recovery U u)"
proof -
  have "rinv (u\<lparr>u_rx_recovery := True\<rparr>)" using assms by (simp add: rx_inv_def)
  from rx_enable_law [OF this] show ?thesis using assms by (simp add: rx_recovery_def rx_inv_def rx_pending_def rx_kept_def)
qed

lemma buf_request_law:
  assumes "rinv u" shows "rinv (callback_rx_buf_request U u) \<and> rx_kept U V u (callback_rx_buf_request U u)"
proof (cases "UART_RX_EVENT_COUNT U - length (u_rx_events u) < UART_RX_EVENT_COUNT_FOR_BUF U")
  case False
  obtain b u1 where a: "pool_alloc U u = (b, u1)" by fastforce
  show ?thesis
  proof (cases b)
    case (Some k)
    obtain e w where d: "d_rx_buf_rsp (u_drv U) (block_data U k) (u_cfg_rx_buf_size U) (u_world u1) = (e, w)" by fastforce
    show ?thesis
    proof (cases "e = 0")
      case True
      then show ?thesis using give_block [OF assms a [unfolded Some]] buf_rsp d False a Some
        by (simp add: callback_rx_buf_request_def)
    next
      case e: False
      then show ?thesis using refuse_block [OF assms a [unfolded Some]] buf_rsp_failed [OF d e] False a Some d
        by (simp add: callback_rx_buf_request_def)
    qed
  qed (use no_block [OF assms] False a in \<open>auto simp: callback_rx_buf_request_def\<close>)
qed (use assms in \<open>simp add: callback_rx_buf_request_def rx_kept_def\<close>)

text \<open>A report appends to the queue, unless it is full or the work queue does not run yet.\<close>

lemma rx_rdy_law:
  assumes "rinv u" and "event_ok (u_drv U) V (u_world u) (UART_RX_RDY p off n) w"
  defines "u' \<equiv> callback_rx_rdy U p off n (u\<lparr>u_world := w\<rparr>)"
  shows "rinv u' \<and> rx_pending U u' = rx_pending U u @
    (if u_workq_started U w \<and> length (u_rx_events u) < UART_RX_EVENT_COUNT U then mem_read (d_mem (u_drv U) w) (p + off) n else [])"
proof -
  let ?own = "o_own V (u_world u)" and ?evs = "u_rx_events u" and ?m = "u_cfg_rx_buf_count U"
  let ?e = "\<lparr>re_buf = p + off, re_len = n\<rparr>"
  obtain k where k: "0 < n" "(p, k, off) \<in> set ?own" "off + n \<le> k" "o_own V w = report p (off + n) ?own"
    and m: "mem_same (u_drv U) (writable ?own) (u_world u) w"
    using assms(2) by auto
  have i: "pool_ok free slab_ok ?m (rx_users U ?own ?evs) (u_pool u)" "own_wf U ?own"
    "\<forall>e \<in> set ?evs. event_wf U ?own e" "length ?evs \<le> UART_RX_EVENT_COUNT U"
    using assms(1) by (auto simp: rx_inv_def)
  define b where "b = block_start_get U p"
  have p: "p = block_data U b" "k = u_cfg_rx_buf_size U" using i(2) k(2) by (auto simp: own_wf_def b_def)
  have sb: "block_start_get U (p + off) = b" using p k by (intro block_start_in) auto
  have ow: "own_wf U (o_own V w)" unfolding k(4) by (rule own_wf_report [OF i(2) k(2,3)])
  have ev: "\<forall>e \<in> set ?evs. event_wf U (o_own V w) e" unfolding k(4)
    using i(3) event_wf_mono report_mono [OF i(2) k(2)] by metis
  have en: "event_wf U (o_own V w) ?e" unfolding k(4) event_wf_def using k p sb
    by (auto simp: Let_def report_def split: if_splits)
  have base: "rinv (u\<lparr>u_world := w\<rparr>)" using i ow ev by (simp add: rx_inv_def k(4))
  have pend: "concat (map (event_data (d_mem (u_drv U) w)) ?evs) = rx_pending U u"
    unfolding rx_pending_def using pending_kept [of ?evs U ?own "u_drv U" "{}" "u_world u" w] i m by simp
  have used: "0 < rx_users U ?own ?evs b" using rx_users_own [OF k(2), of U ?evs] by (simp add: b_def)
  show ?thesis
  proof (cases "u_workq_started U w")
    case True
    show ?thesis
    proof (cases "length ?evs < UART_RX_EVENT_COUNT U")
      case room: True
      have "pool_ok free slab_ok ?m (rx_users U ?own (?evs @ [?e])) (rx_buf_ref (block_start_get U) p (u_pool u))"
        using ref_good [OF i(1), of "block_start_get U" p] used sb by (simp add: rx_users_add_event b_def)
      then have "rinv (u\<lparr>u_world := w, u_pool := rx_buf_ref (block_start_get U) p (u_pool u), u_rx_events := ?evs @ [?e]\<rparr>)"
        using ow ev en room by (simp add: rx_inv_def k(4))
      then show ?thesis using True room pend
        by (simp add: u'_def callback_rx_rdy_def pool_ref_def uart_notify_def rx_inv_def rx_pending_def event_data_def)
    next
      case full: False
      have "pool_ok free slab_ok ?m (rx_users U ?own ?evs)
          (rx_buf_unref (u_slab U) (block_start_get U) p (rx_buf_ref (block_start_get U) p (u_pool u)))"
        using ref_unref_good [OF i(1), of "block_start_get U" p] used by (simp add: b_def)
      then show ?thesis using True full base pend
        by (simp add: u'_def callback_rx_rdy_def pool_ref_def pool_unref_def rx_inv_def rx_pending_def k(4))
    qed
  qed (use base pend in \<open>simp add: u'_def callback_rx_rdy_def rx_pending_def\<close>)
qed

lemma released_law:
  assumes "rinv u" and "event_ok (u_drv U) V (u_world u) (UART_RX_BUF_RELEASED (Some p)) w"
  defines "u' \<equiv> pool_unref U p (u\<lparr>u_world := w\<rparr>)"
  shows "rinv u' \<and> rx_kept U V u u'"
proof -
  let ?own = "o_own V (u_world u)" and ?evs = "u_rx_events u"
  have o: "p \<in> fst ` set ?own" "o_own V w = filter (\<lambda>x. fst x \<noteq> p) ?own" "mem_same (u_drv U) (writable ?own) (u_world u) w"
    using assms(2) by auto
  have i: "pool_ok free slab_ok (u_cfg_rx_buf_count U) (rx_users U ?own ?evs) (u_pool u)" "own_wf U ?own"
    "\<forall>e \<in> set ?evs. event_wf U ?own e" "length ?evs \<le> UART_RX_EVENT_COUNT U"
    using assms(1) by (auto simp: rx_inv_def)
  have "0 < rx_users U ?own ?evs (block_start_get U p)" using rx_users_own [of _ ?own U ?evs] o(1) by auto
  from unref_good [of _ _ _ "block_start_get U" p, OF i(1) this]
  have "pool_ok free slab_ok (u_cfg_rx_buf_count U) (rx_users U (o_own V w) ?evs) (rx_buf_unref (u_slab U) (block_start_get U) p (u_pool u))"
    using rx_users_release [of ?own p U ?evs] i(2) o(1,2) by (simp add: own_wf_def)
  moreover have "\<forall>e \<in> set ?evs. event_wf U (o_own V w) e" using i(3) by (auto simp: event_wf_def o(2) Let_def)
  ultimately have "rinv u'" using i own_wf_filter [OF i(2)] by (simp add: rx_inv_def u'_def pool_unref_def o(2))
  moreover have "rx_kept U V u u'" using pending_kept [of ?evs U ?own "u_drv U" "{}" "u_world u" w] i o(3) assms(2)
    by (simp add: rx_pending_def u'_def pool_unref_def rx_kept_def)
  ultimately show ?thesis ..
qed

text \<open>Reading.\<close>

lemma take_event:
  assumes "rinv u" and "u_rx_events u = e # es"
  shows "rinv (pool_unref U (re_buf e) (u\<lparr>u_rx_events := es\<rparr>))"
proof -
  let ?us = "rx_users U (o_own V (u_world u)) (e # es)"
  have i: "pool_ok free slab_ok (u_cfg_rx_buf_count U) ?us (u_pool u)" using assms by (auto simp: rx_inv_def)
  have "0 < ?us (block_start_get U (re_buf e))" by (rule rx_users_used) simp
  note A = unref_good [of _ _ _ "block_start_get U" "re_buf e", OF i this]
  have "pool_ok free slab_ok (u_cfg_rx_buf_count U) (rx_users U (o_own V (u_world u)) es)
      (rx_buf_unref (u_slab U) (block_start_get U) (re_buf e) (u_pool u))"
    by (subst rx_users_remove_event [of U _ es e]) (rule A)
  then show ?thesis using assms by (simp add: rx_inv_def pool_unref_def)
qed

lemma split_event:
  assumes "rinv u" and "u_rx_events u = e # es" and "k < re_len e"
  shows "rinv (u\<lparr>u_rx_events := \<lparr>re_buf = re_buf e + k, re_len = re_len e - k\<rparr> # es\<rparr>)"
proof -
  have w: "event_wf U (o_own V (u_world u)) e" using assms(1,2) by (simp add: rx_inv_def)
  have b: "block_start_get U (re_buf e + k) = block_start_get U (re_buf e)"
    by (rule event_in_block [OF w]) (use assms(3) in simp_all)
  have "event_wf U (o_own V (u_world u)) \<lparr>re_buf = re_buf e + k, re_len = re_len e - k\<rparr>"
    using w assms(3) b by (auto simp: event_wf_def Let_def)
  moreover have "rx_users U own (\<lparr>re_buf = re_buf e + k, re_len = re_len e - k\<rparr> # es) = rx_users U own (e # es)" for own
    using b by (simp add: rx_users_def fun_eq_iff)
  ultimately show ?thesis using assms(1,2) by (simp add: rx_inv_def)
qed

lemma receive_loop_law:
  assumes "rinv u"
  shows "rinv (snd (receive_loop U n u)) \<and> fst (receive_loop U n u) = take n (rx_pending U u) \<and>
    rx_pending U (snd (receive_loop U n u)) = drop n (rx_pending U u) \<and> u_world (snd (receive_loop U n u)) = u_world u"
  using assms
proof (induction "u_rx_events u" arbitrary: u n)
  case Nil
  then show ?case by (simp add: receive_loop.simps rx_pending_def split: list.split)
next
  case (Cons e es)
  let ?m = "d_mem (u_drv U) (u_world u)"
  let ?rest = "concat (map (event_data ?m) es)"
  have pend: "rx_pending U u = event_data ?m e @ ?rest" using Cons(2) [symmetric] by (simp add: rx_pending_def)
  have len: "length (event_data ?m e) = re_len e" by (simp add: event_data_def)
  show ?case
  proof (cases "n = 0")
    case True
    then show ?thesis using Cons.prems by (simp add: receive_loop.simps)
  next
    case False
    show ?thesis
    proof (cases "re_len e \<le> n")
      case True
      let ?u = "pool_unref U (re_buf e) (u\<lparr>u_rx_events := es\<rparr>)"
      have r: "receive_loop U n u = (event_data ?m e @ fst (receive_loop U (n - re_len e) ?u), snd (receive_loop U (n - re_len e) ?u))"
        using False True Cons(2) [symmetric] by (subst receive_loop.simps) (simp add: event_data_def case_prod_unfold Let_def)
      have "es = u_rx_events ?u" "rx_pending U ?u = ?rest" "u_world ?u = u_world u" by (simp_all add: pool_unref_def rx_pending_def)
      then show ?thesis unfolding r pend
        using Cons(1) [of ?u "n - re_len e"] take_event [OF Cons.prems Cons(2) [symmetric]] True len by simp
    next
      case short: False
      let ?e = "\<lparr>re_buf = re_buf e + n, re_len = re_len e - n\<rparr>"
      have "length es < UART_RX_EVENT_COUNT U" using Cons.prems Cons(2) [symmetric] by (simp add: rx_inv_def)
      then have r: "receive_loop U n u = (take n (event_data ?m e), u\<lparr>u_rx_events := ?e # es\<rparr>)"
        using False short Cons(2) [symmetric] by (subst receive_loop.simps) (simp add: event_data_def mem_read_take Let_def)
      have "event_data ?m ?e = drop n (event_data ?m e)" using short by (simp add: event_data_def mem_read_drop)
      then show ?thesis unfolding r pend
        using split_event [OF Cons.prems Cons(2) [symmetric], of n] short len by (simp add: rx_pending_def)
    qed
  qed
qed

lemma pipe_receive_fifo:
  assumes "rinv u"
  shows "rinv (snd (pipe_receive U n u)) \<and> fst (pipe_receive U n u) = take n (rx_pending U u) \<and>
    rx_pending U (snd (pipe_receive U n u)) = drop n (rx_pending U u) \<and>
    o_line V (u_world (snd (pipe_receive U n u))) = o_line V (u_world u)"
  using receive_loop_law [OF assms, of n] rx_recovery_law [of "snd (receive_loop U n u)"] assms
  by (simp add: pipe_receive_def case_prod_unfold rx_kept_def)

end

section \<open>Both directions\<close>

text \<open>The reception from one state to a later one: what the line delivered meanwhile, and what of it
  and of the earlier queue is still waiting.\<close>

definition rx_adv :: "('rb, 'sl, 'w) uart_env \<Rightarrow> 'w uart_obs \<Rightarrow> bytes \<Rightarrow> ('rb, 'sl, 'w) uart \<Rightarrow> ('rb, 'sl, 'w) uart \<Rightarrow> bool" where
  "rx_adv U V d u u' \<longleftrightarrow> (\<exists>l. o_line V (u_world u') = o_line V (u_world u) @ l \<and> subseq (d @ rx_pending U u') (rx_pending U u @ l))"

lemma rx_adv_kept: "rx_kept U V u u' \<Longrightarrow> rx_adv U V [] u u'"
  by (simp add: rx_adv_def rx_kept_def)

lemma rx_adv_trans:
  assumes "rx_adv U V d u u'" and "rx_adv U V d' u' u''"
  shows "rx_adv U V (d @ d') u u''"
proof -
  obtain l l' where l: "o_line V (u_world u') = o_line V (u_world u) @ l" "subseq (d @ rx_pending U u') (rx_pending U u @ l)"
    "o_line V (u_world u'') = o_line V (u_world u') @ l'" "subseq (d' @ rx_pending U u'') (rx_pending U u' @ l')"
    using assms by (auto simp: rx_adv_def)
  have "subseq (d @ d' @ rx_pending U u'') (d @ rx_pending U u' @ l')"
    by (rule list_emb_append_mono [OF subseq_order.order_refl l(4)])
  moreover have "subseq ((d @ rx_pending U u') @ l') ((rx_pending U u @ l) @ l')" by (rule list_emb_append_mono [OF l(2)]) simp
  ultimately show ?thesis using l(1,3) subseq_order.order_trans unfolding rx_adv_def by fastforce
qed

locale uart_stack = uart_tx U cl av ok V + uart_rx U V free slab_ok
  for U :: "('rb, 'sl, 'w) uart_env" and cl av ok V free slab_ok
begin

lemma callback_rx_law:
  assumes "rinv u" and "event_ok (u_drv U) V (u_world u) ev w"
  defines "u' \<equiv> uart_callback U ev (u\<lparr>u_world := w\<rparr>)"
  shows "rinv u' \<and> rx_adv U V [] u u'"
proof -
  have cl: "rinv (uart_callback_notify_pipe_closure v) \<and> rx_adv U V [] u (uart_callback_notify_pipe_closure v)"
    if "rinv v \<and> rx_adv U V [] u v" for v
    using rx_frame_inv [OF notify_frames(4) [of "u_drv U" V v]] rx_adv_trans [of U V "[]" u v "[]"] rx_adv_kept that
    by fastforce
  have same: "rinv v \<and> rx_adv U V [] u v" if "rx_frame (u_drv U) V u v" for v
    using rx_frame_inv [OF that assms(1)] rx_adv_kept by blast
  show ?thesis
  proof (cases ev)
    case (UART_TX_DONE n)
    then have "rx_same (u_drv U) V (u_world u) w" using assms(2) by auto
    then have "rx_frame (u_drv U) V u (u\<lparr>u_world := w\<rparr>)" by (simp add: rx_frame_def)
    from rx_frame_trans [OF this callback_tx_rx] show ?thesis using cl same UART_TX_DONE by (simp add: u'_def uart_callback_def)
  next
    case (UART_TX_ABORTED n)
    then have "rx_same (u_drv U) V (u_world u) w" using assms(2) by auto
    then have "rx_frame (u_drv U) V u (u\<lparr>u_world := w\<rparr>)" by (simp add: rx_frame_def)
    from rx_frame_trans [OF this callback_tx_rx] show ?thesis using cl same UART_TX_ABORTED by (simp add: u'_def uart_callback_def)
  next
    case (UART_RX_RDY p off n)
    let ?v = "callback_rx_rdy U p off n (u\<lparr>u_world := w\<rparr>)"
    have l: "rinv ?v" "rx_pending U ?v = rx_pending U u @ (if u_workq_started U w \<and> length (u_rx_events u) < UART_RX_EVENT_COUNT U
        then mem_read (d_mem (u_drv U) w) (p + off) n else [])"
      using rx_rdy_law [OF assms(1), of p off n w] assms(2) UART_RX_RDY by auto
    have "u_world ?v = w" by (simp add: callback_rx_rdy_def Let_def uart_notify_def pool_ref_def pool_unref_def)
    then have "rx_adv U V [] u ?v" using l(2) assms(2) UART_RX_RDY
      by (intro exI [of _ "mem_read (d_mem (u_drv U) w) (p + off) n"] rx_adv_def [THEN iffD2]) (auto intro: list_emb_append2)
    then show ?thesis using cl l UART_RX_RDY by (simp add: u'_def uart_callback_def)
  next
    case UART_RX_BUF_REQUEST
    have f: "rx_frame (u_drv U) V u (u\<lparr>u_world := w\<rparr>)" using assms(2) UART_RX_BUF_REQUEST by (simp add: rx_frame_def)
    have "rinv (callback_rx_buf_request U (u\<lparr>u_world := w\<rparr>)) \<and> rx_adv U V [] u (callback_rx_buf_request U (u\<lparr>u_world := w\<rparr>))"
      using buf_request_law [of "u\<lparr>u_world := w\<rparr>"] same [OF f] rx_adv_trans [of U V "[]" u "u\<lparr>u_world := w\<rparr>" "[]"] rx_adv_kept
      by fastforce
    then show ?thesis using cl UART_RX_BUF_REQUEST by (simp add: u'_def uart_callback_def)
  next
    case (UART_RX_BUF_RELEASED r)
    show ?thesis
    proof (cases r)
      case None
      have "rx_frame (u_drv U) V u (u\<lparr>u_world := w\<rparr>)" using assms(2) UART_RX_BUF_RELEASED None by (simp add: rx_frame_def)
      then show ?thesis using cl same UART_RX_BUF_RELEASED None by (simp add: u'_def uart_callback_def)
    next
      case (Some p)
      have "event_ok (u_drv U) V (u_world u) (UART_RX_BUF_RELEASED (Some p)) w" using assms(2) UART_RX_BUF_RELEASED Some by simp
      from cl [OF conj_forward [OF released_law [OF assms(1) this] _ rx_adv_kept]] show ?thesis
        using UART_RX_BUF_RELEASED Some by (simp add: u'_def uart_callback_def)
    qed
  next
    case UART_RX_DISABLED
    have "rx_frame (u_drv U) V u (uart_notify RECEIVE_READY (u\<lparr>u_world := w, u_rx_enabled := False\<rparr>))"
      using assms(2) UART_RX_DISABLED by (simp add: rx_frame_def uart_notify_def)
    then show ?thesis using cl same UART_RX_DISABLED by (simp add: u'_def uart_callback_def)
  next
    case UART_RX_STOPPED
    have "rx_frame (u_drv U) V u (u\<lparr>u_world := w\<rparr>)" using assms(2) UART_RX_STOPPED by (simp add: rx_frame_def)
    then show ?thesis using cl same UART_RX_STOPPED by (simp add: u'_def uart_callback_def)
  qed
qed

end

end
