(* ===== verification/Uart_Pipe.thy ===== *)
theory Uart_Pipe
  imports Uart_Rx
begin

text \<open>
  The UART handler as a pipe: the calls of its users, the events of its driver and its work items in
  any order. Over every such run, what the users read is, in order, taken from what the driver
  received. Over the orderly ones, in which the pipe is not opened while an earlier transmission is
  still in progress, the bytes on the line are the bytes that the pipe accepted, in order, followed by
  what the ring buffer still holds.
\<close>

section \<open>Runs\<close>

datatype uart_act =
    Driver uart_event
  | Transmit bytes int
  | Receive nat bytes
  | Open int
  | Close int
  | Idle_Work
  | Closed_Work

inductive uart_step ::
  "('rb, 'sl, 'w) uart_env \<Rightarrow> 'w uart_obs \<Rightarrow> ('rb, 'sl, 'w) uart \<Rightarrow> uart_act \<Rightarrow> ('rb, 'sl, 'w) uart \<Rightarrow> bool"
  for U V where
  driver: "event_ok (u_drv U) V (u_world u) ev w \<Longrightarrow> uart_step U V u (Driver ev) (uart_callback U ev (u\<lparr>u_world := w\<rparr>))"
| transmit: "d \<noteq> [] \<Longrightarrow> pipe_transmit U d u = (n, u') \<Longrightarrow> uart_step U V u (Transmit d n) u'"
| receive: "pipe_receive U n u = (d, u') \<Longrightarrow> uart_step U V u (Receive n d) u'"
| api_open: "pipe_open U u = (e, u') \<Longrightarrow> uart_step U V u (Open e) u'"
| api_close: "pipe_close U u = (e, u') \<Longrightarrow> uart_step U V u (Close e) u'"
| idle_work: "uart_step U V u Idle_Work (notify_transmit_idle_fn u)"
| closed_work: "uart_step U V u Closed_Work (notify_closed_fn u)"

inductive uart_run ::
  "('rb, 'sl, 'w) uart_env \<Rightarrow> 'w uart_obs \<Rightarrow> ('rb, 'sl, 'w) uart \<Rightarrow> uart_act list \<Rightarrow> ('rb, 'sl, 'w) uart \<Rightarrow> bool"
  for U V where
  refl: "uart_run U V u [] u"
| step: "uart_step U V u a u' \<Longrightarrow> uart_run U V u' as u'' \<Longrightarrow> uart_run U V u (a # as) u''"

text \<open>Closing the pipe may leave an aborted transmission in progress. A run is orderly when the pipe is
  not opened, with transmission disabled, before the driver has reported its end; nothing in the code
  prevents that (\<open>reopen_unclaims\<close> below shows what happens).\<close>

definition orderly_act :: "'w uart_obs \<Rightarrow> ('rb, 'sl, 'w) uart \<Rightarrow> uart_act \<Rightarrow> bool" where
  "orderly_act V u a \<longleftrightarrow> (case a of Open e \<Rightarrow> u_tx_enabled u \<or> o_tx V (u_world u) = None | _ \<Rightarrow> True)"

inductive orderly_run ::
  "('rb, 'sl, 'w) uart_env \<Rightarrow> 'w uart_obs \<Rightarrow> ('rb, 'sl, 'w) uart \<Rightarrow> uart_act list \<Rightarrow> ('rb, 'sl, 'w) uart \<Rightarrow> bool"
  for U V where
  refl: "orderly_run U V u [] u"
| step: "uart_step U V u a u' \<Longrightarrow> orderly_act V u a \<Longrightarrow> orderly_run U V u' as u'' \<Longrightarrow> orderly_run U V u (a # as) u''"

text \<open>What the actions accepted for transmission (a transmission that reports an error may have
  accepted a prefix), and what they read.\<close>

inductive accepted :: "uart_act list \<Rightarrow> bytes \<Rightarrow> bool" where
  "accepted [] []"
| "accepted as s \<Longrightarrow> k \<le> length d \<Longrightarrow> (0 \<le> n \<longrightarrow> n = int k) \<Longrightarrow> accepted (Transmit d n # as) (take k d @ s)"
| "accepted as s \<Longrightarrow> \<forall>d n. a \<noteq> Transmit d n \<Longrightarrow> accepted (a # as) s"

fun received :: "uart_act list \<Rightarrow> bytes" where
  "received [] = []"
| "received (Receive n d # as) = d @ received as"
| "received (a # as) = received as"

lemma received_Cons: "received (a # as) = received [a] @ received as"
  by (cases a) simp_all

definition uart_ok ::
  "('rb, 'sl, 'w) uart_env \<Rightarrow> 'w uart_obs \<Rightarrow> ('rb \<Rightarrow> bytes) \<Rightarrow> ('rb \<Rightarrow> bool) \<Rightarrow> ('sl \<Rightarrow> nat set) \<Rightarrow> ('sl \<Rightarrow> bool) \<Rightarrow>
   ('rb, 'sl, 'w) uart \<Rightarrow> bool" where
  "uart_ok U V cl ok fr sok u \<longleftrightarrow> tx_inv V cl ok u \<and> rx_inv U V fr sok u"

context uart_stack
begin

abbreviation uok :: "('rb, 'sl, 'w) uart \<Rightarrow> bool" where "uok \<equiv> uart_ok U V cl ok free slab_ok"

lemma close_waiting: "waiting U V (\<lambda>u. inv u \<and> stream u = s)"
proof unfold_locales
  fix u u' and ev w
  show "inv u \<and> stream u = s \<Longrightarrow> event_ok (u_drv U) V (u_world u) ev w \<Longrightarrow>
      inv (uart_callback U ev (u\<lparr>u_world := w\<rparr>)) \<and> stream (uart_callback U ev (u\<lparr>u_world := w\<rparr>)) = s"
    using callback_law [of u ev w] by simp
  show "inv u \<and> stream u = s \<Longrightarrow> quiet (u_drv U) V u u' \<Longrightarrow> inv u' \<and> stream u' = s"
    using quiet_tx [of "u_drv U" V u u' cl ok av] by simp
  show "inv u \<and> stream u = s \<Longrightarrow> 0 < u_tx_done_sem u \<Longrightarrow>
      inv (u\<lparr>u_tx_done_sem := u_tx_done_sem u - 1\<rparr>) \<and> stream (u\<lparr>u_tx_done_sem := u_tx_done_sem u - 1\<rparr>) = s"
    by (auto simp: tx_inv_def tx_stream_def split: option.splits)
qed

lemma close_waiting_rx: "waiting U V (\<lambda>u. rinv u \<and> rx_adv U V [] u0 u)"
proof unfold_locales
  fix u u' and ev w
  show "rinv u \<and> rx_adv U V [] u0 u \<Longrightarrow> event_ok (u_drv U) V (u_world u) ev w \<Longrightarrow>
      rinv (uart_callback U ev (u\<lparr>u_world := w\<rparr>)) \<and> rx_adv U V [] u0 (uart_callback U ev (u\<lparr>u_world := w\<rparr>))"
    using callback_rx_law [of u ev w] rx_adv_trans [of U V "[]" u0 u "[]"] by simp
  show "rinv u \<and> rx_adv U V [] u0 u \<Longrightarrow> quiet (u_drv U) V u u' \<Longrightarrow> rinv u' \<and> rx_adv U V [] u0 u'"
    using rx_frame_inv [of U V u u' free slab_ok] rx_adv_trans [of U V "[]" u0 u "[]" u'] rx_adv_kept [of U V u u']
    by (simp add: quiet_def)
  show "rinv u \<and> rx_adv U V [] u0 u \<Longrightarrow> 0 < u_tx_done_sem u \<Longrightarrow>
      rinv (u\<lparr>u_tx_done_sem := u_tx_done_sem u - 1\<rparr>) \<and> rx_adv U V [] u0 (u\<lparr>u_tx_done_sem := u_tx_done_sem u - 1\<rparr>)"
    by (auto simp: rx_inv_def rx_adv_def rx_pending_def)
qed

lemma rx_adv_frame: "rinv u \<Longrightarrow> rx_frame (u_drv U) V u u' \<Longrightarrow> rinv u' \<and> rx_adv U V [] u u'"
  using rx_frame_inv rx_adv_kept by blast

lemma open_rx_law:
  assumes "rinv u"
  shows "rinv (snd (pipe_open U u)) \<and> rx_adv U V [] u (snd (pipe_open U u))"
proof -
  let ?v = "u\<lparr>u_pipe_open := True, u_rx_recovery_disabled := False\<rparr>"
  obtain e u1 where r: "rx_enable U ?v = (e, u1)" by fastforce
  have "rinv ?v" "rx_kept U V u ?v" using assms by (simp_all add: rx_inv_def rx_kept_def rx_pending_def)
  then have u1: "rinv u1" "rx_adv U V [] u u1" using rx_enable_law [of ?v] r by (auto simp: rx_kept_def intro: rx_adv_kept)
  have f: "rx_frame (u_drv U) V u1 (uart_notify OPENED (tx_enable u1))" by (rule rx_frame_trans [OF tx_enable_frame]) simp
  show ?thesis
    using u1 rx_adv_frame [OF u1(1) f] rx_adv_trans [OF u1(2), of "[]"] r assms
    by (auto simp: pipe_open_def intro: rx_adv_kept [unfolded rx_kept_def])
qed

text \<open>One step of the pipe: what it receives, and what it sends.\<close>

lemma step_rx_law:
  assumes "uart_step U V u a u'" and "rinv u"
  shows "rinv u' \<and> rx_adv U V (received [a]) u u'"
  using assms
proof (cases rule: uart_step.cases)
  case (driver ev w)
  then show ?thesis using callback_rx_law [of u ev w] assms(2) by simp
next
  case (transmit d n)
  then show ?thesis using rx_adv_frame [OF assms(2) pipe_transmit_rx, of d] by simp
next
  case (receive n d)
  then show ?thesis using pipe_receive_fifo [OF assms(2), of n] by (simp add: rx_adv_def)
next
  case (api_open e)
  then show ?thesis using open_rx_law [OF assms(2)] by simp
next
  case (api_close e)
  have "rinv u \<and> rx_adv U V [] u u" using assms(2) rx_adv_kept [of U V u u] by (simp add: rx_kept_def)
  from waiting.pipe_close_keeps [OF close_waiting_rx this] show ?thesis using api_close by simp
next
  case idle_work
  then show ?thesis using rx_adv_frame [OF assms(2) notify_frames(8)] by simp
next
  case closed_work
  then show ?thesis using rx_adv_frame [OF assms(2) notify_frames(10)] by simp
qed

lemma step_tx_law:
  assumes "uart_step U V u a u'" and "inv u" and "orderly_act V u a"
  shows "inv u' \<and> (\<exists>s. accepted [a] s \<and> stream u' = stream u @ s)"
  using assms
proof (cases rule: uart_step.cases)
  case (driver ev w)
  then show ?thesis using callback_law [of u ev w] assms(2) by (auto intro!: exI [of _ "[]"] accepted.intros)
next
  case (transmit d n)
  note l = pipe_transmit_law [of u d n u']
  show ?thesis
  proof (cases "u_pipe_open u")
    case True
    let ?k = "min (length d) (rb_capacity_get (u_rb U) (u_tx_buf u) - length (cl (u_tx_buf u)) - length (av (u_tx_buf u)))"
    have "accepted [Transmit d n] (take ?k d @ [])" using l assms(2) transmit True by (intro accepted.intros) auto
    then show ?thesis using l assms(2) transmit True by auto
  next
    case False
    have "accepted [Transmit d n] (take 0 d @ [])" using l assms(2) transmit False by (intro accepted.intros) auto
    then show ?thesis using l assms(2) transmit False by auto
  qed
next
  case (receive n d)
  then show ?thesis using pipe_receive_law [OF assms(2), of n] by (auto intro!: exI [of _ "[]"] accepted.intros)
next
  case (api_open e)
  then show ?thesis using pipe_open_law [OF assms(2)] assms(3) by (auto simp: orderly_act_def intro!: exI [of _ "[]"] accepted.intros)
next
  case (api_close e)
  have "inv u \<and> stream u = stream u" using assms(2) by simp
  from waiting.pipe_close_keeps [OF close_waiting this] show ?thesis using api_close
    by (auto intro!: exI [of _ "[]"] accepted.intros)
qed (use assms(2) in \<open>auto intro!: exI [of _ "[]"] accepted.intros\<close>)

lemma step_law:
  assumes "uart_step U V u a u'" and "uok u" and "orderly_act V u a"
  shows "uok u' \<and> (\<exists>s. accepted [a] s \<and> stream u' = stream u @ s) \<and> rx_adv U V (received [a]) u u'"
  using step_rx_law [OF assms(1)] step_tx_law [OF assms(1) _ assms(3)] assms(2) by (simp add: uart_ok_def)

lemma accepted_append: "accepted as s \<Longrightarrow> accepted bs t \<Longrightarrow> accepted (as @ bs) (s @ t)"
  by (induction rule: accepted.induct) (auto intro: accepted.intros)

lemma run_rx_law: "uart_run U V u as u' \<Longrightarrow> rinv u \<Longrightarrow> rinv u' \<and> rx_adv U V (received as) u u'"
proof (induction rule: uart_run.induct)
  case (refl u)
  then show ?case using rx_adv_kept [of U V u u] by (simp add: rx_kept_def)
next
  case (step u a u' as u'')
  from step_rx_law [OF step.hyps(1) step.prems] have s: "rinv u'" "rx_adv U V (received [a]) u u'" by auto
  then have "rinv u''" "rx_adv U V (received as) u' u''" using step.IH by auto
  then show ?case using rx_adv_trans [OF s(2)] received_Cons [of a as] by simp
qed

lemma run_law: "orderly_run U V u as u' \<Longrightarrow> inv u \<Longrightarrow> inv u' \<and> (\<exists>s. accepted as s \<and> stream u' = stream u @ s)"
proof (induction rule: orderly_run.induct)
  case (refl u)
  then show ?case by (auto intro: accepted.intros)
next
  case (step u a u' as u'')
  from step_tx_law [OF step.hyps(1) step.prems step.hyps(2)] obtain s where
    s: "inv u'" "accepted [a] s" "stream u' = stream u @ s" by auto
  then obtain t where t: "inv u''" "accepted as t" "stream u'' = stream u' @ t" using step.IH by auto
  have "accepted (a # as) (s @ t)" using accepted_append [OF s(2) t(2)] by simp
  then show ?case using s t by (intro conjI exI [of _ "s @ t"]) auto
qed

lemma orderly_is_run: "orderly_run U V u as u' \<Longrightarrow> uart_run U V u as u'"
  by (induction rule: orderly_run.induct) (auto intro: uart_run.intros)

end

section \<open>Transmission never stalls\<close>

text \<open>With TX enabled, the semaphore is free whenever no transmission is in progress. The driver
  must not refuse a transmission while it is idle.\<close>

definition tx_live :: "'w uart_obs \<Rightarrow> ('rb, 'sl, 'w) uart \<Rightarrow> bool" where
  "tx_live V u \<longleftrightarrow> (u_tx_enabled u \<longrightarrow> o_tx V (u_world u) = None \<longrightarrow> u_tx_done_sem u = 1)"

lemma tx_live_frame: "tx_frame V u u' \<Longrightarrow> tx_live V u' = tx_live V u"
  by (simp add: tx_frame_def tx_same_def tx_live_def)

lemmas notify_live [simp] = notify_frames(1,3,5,7,9) [THEN tx_live_frame]

lemma sem_give_live [simp]: "tx_live V (sem_give u)"
  by (simp add: tx_live_def sem_give_def)

lemma uart_callback_enabled [simp]: "u_tx_enabled (uart_callback U ev u) = u_tx_enabled u"
proof -
  have t: "u_tx_enabled (snd (tx_start U v)) = u_tx_enabled v" for v
    by (simp add: tx_start_def Let_def case_prod_unfold)
  have "u_tx_enabled (callback_tx U ab n u) = u_tx_enabled u" for ab n by (simp add: callback_tx_def Let_def t)
  moreover have "u_tx_enabled (callback_rx_rdy U a b c u) = u_tx_enabled u" for a b c
    by (simp add: callback_rx_rdy_def Let_def pool_ref_def pool_unref_def)
  moreover have "u_tx_enabled (callback_rx_buf_request U u) = u_tx_enabled u"
    by (simp add: callback_rx_buf_request_def Let_def pool_alloc_def pool_unref_def case_prod_unfold split: option.split)
  ultimately show ?thesis by (simp add: uart_callback_def pool_unref_def split: uart_event.split option.split)
qed

lemma uart_callback_open [simp]: "u_pipe_open (uart_callback U ev u) = u_pipe_open u"
proof -
  have n: "u_pipe_open (uart_callback_notify_pipe_closure v) = u_pipe_open v"
    "u_pipe_open (uart_callback_notify_pipe_transmit_idle v) = u_pipe_open v"
    "u_pipe_open (uart_notify k v) = u_pipe_open v" "u_pipe_open (sem_give v) = u_pipe_open v"
    "u_pipe_open (snd (tx_start U v)) = u_pipe_open v" for v k
    by (simp_all add: uart_notify_def uart_callback_notify_pipe_closure_def sem_give_def tx_start_def Let_def
        case_prod_unfold uart_callback_notify_pipe_transmit_idle_def)
  have "u_pipe_open (callback_rx_rdy U a b c u) = u_pipe_open u" for a b c
    by (simp add: callback_rx_rdy_def Let_def pool_ref_def pool_unref_def n)
  moreover have "u_pipe_open (callback_rx_buf_request U u) = u_pipe_open u"
    by (simp add: callback_rx_buf_request_def Let_def pool_alloc_def pool_unref_def case_prod_unfold split: option.split)
  ultimately show ?thesis
    by (simp add: uart_callback_def callback_tx_def Let_def n pool_unref_def split: uart_event.split option.split)
qed

lemma k_sleep_enabled [simp]: "u_tx_enabled (k_sleep U fuel u) = u_tx_enabled u"
  by (induction fuel arbitrary: u) (simp_all split: prod.split option.split)

lemma sem_take_enabled [simp]: "u_tx_enabled (snd (sem_take_timeout U fuel u)) = u_tx_enabled u"
proof (induction fuel arbitrary: u)
  case (Suc fuel)
  then show ?case
    by (simp add: sem_take_timeout.simps [of U "Suc fuel"] del: sem_take_timeout.simps split: prod.split option.split)
qed simp

lemma sleep_while_enabled [simp]: "u_tx_enabled (sleep_while U flag fuel u) = u_tx_enabled u"
  by (induction fuel arbitrary: u) simp_all

lemma tx_disable_off: "\<not> u_tx_enabled (snd (tx_disable U u))"
  by (simp add: tx_disable_def Let_def case_prod_unfold del: sem_take_timeout.simps split: bool.split)

lemma handler_disable_off: "\<not> u_tx_enabled (snd (sm_uart_handler_disable U u))"
  using tx_disable_off [of U u] by (simp add: sm_uart_handler_disable_def rx_disable_def Let_def case_prod_unfold)

locale prompt_uart = uart_stack +
  assumes tx_accepts: "o_tx V w = None \<Longrightarrow> d \<noteq> [] \<Longrightarrow> fst (d_tx (u_drv U) d w) = 0"
begin

lemma tx_start_live:
  assumes "tx_start U u = (e, u')" and "inv u" and "o_tx V (u_world u) = None" and "u_tx_done_sem u = 0" and "av (u_tx_buf u) \<noteq> []"
  shows "tx_live V u' \<and> (e = 0 \<longleftrightarrow> u_tx_enabled u) \<and> (u_tx_enabled u \<longrightarrow> o_tx V (u_world u') \<noteq> None)"
proof (cases "u_tx_enabled u")
  case True
  let ?b = "u_tx_buf u"
  have "ok ?b" using assms(2) by (simp add: tx_inv_def)
  then have "fst (rb_get_claim (u_rb U) (rb_capacity_get (u_rb U) ?b) ?b) \<noteq> []"
    using claim_progress [of ?b "rb_capacity_get (u_rb U) ?b"] capacity_bound [of ?b] assms(5) by auto
  from tx_accepts [OF assms(3) this] have "e = 0" using assms(1) True
    by (simp add: tx_start_def Let_def case_prod_unfold)
  then show ?thesis using tx_start_law [OF assms] True by (auto simp: tx_live_def)
qed (use assms in \<open>auto simp: tx_start_def tx_live_def\<close>)

lemma callback_tx_live:
  assumes "inv u" and "o_tx V (u_world u) = Some d" and "n \<le> length d" and "o_tx V w = None"
  shows "tx_live V (callback_tx U ab n (u\<lparr>u_world := w\<rparr>))"
proof -
  let ?b = "snd (rb_get_finish (u_rb U) n (u_tx_buf u))"
  let ?u = "u\<lparr>u_world := w, u_tx_buf := ?b\<rparr>"
  have okb: "ok (u_tx_buf u)" "cl (u_tx_buf u) = d" "u_tx_done_sem u = 0" using assms(1,2) by (auto simp: tx_inv_def)
  then have b: "ok ?b" "cl ?b = []" using finish_ok [OF okb(1)] finish_content [OF okb(1), of n] assms(3) by auto
  have i: "inv ?u" using b okb assms(4) by (auto simp: tx_inv_def)
  show ?thesis
  proof (cases "rb_is_empty (u_rb U) ?b \<or> (ab \<and> \<not> u_tx_enabled u)")
    case True
    then have "callback_tx U ab n (u\<lparr>u_world := w\<rparr>) = uart_callback_notify_pipe_transmit_idle (sem_give ?u)"
      by (simp add: callback_tx_def Let_def)
    then show ?thesis by simp
  next
    case False
    obtain e u2 where t: "tx_start U ?u = (e, u2)" by fastforce
    have "av ?b \<noteq> []" using False is_empty [OF b] by auto
    then have "tx_live V u2" using tx_start_live [OF t i] assms(4) okb by simp
    moreover have "callback_tx U ab n (u\<lparr>u_world := w\<rparr>) = uart_callback_notify_pipe_transmit_idle u2"
      using False t by (auto simp: callback_tx_def Let_def)
    ultimately show ?thesis by simp
  qed
qed

lemma callback_live:
  assumes "inv u" and "tx_live V u" and "event_ok (u_drv U) V (u_world u) ev w"
  shows "tx_live V (uart_callback U ev (u\<lparr>u_world := w\<rparr>))"
proof (cases "\<exists>n. ev = UART_TX_DONE n \<or> ev = UART_TX_ABORTED n")
  case True
  then obtain n ab where ev: "uart_callback U ev (u\<lparr>u_world := w\<rparr>) =
      uart_callback_notify_pipe_closure (callback_tx U ab n (u\<lparr>u_world := w\<rparr>))" "ev = UART_TX_DONE n \<or> ev = UART_TX_ABORTED n"
    by (auto simp: uart_callback_def)
  with assms(3) obtain d where "o_tx V (u_world u) = Some d" "n \<le> length d" "o_tx V w = None" by fastforce
  from callback_tx_live [OF assms(1) this] show ?thesis by (simp add: ev(1))
next
  case False
  let ?w = "u\<lparr>u_world := w\<rparr>"
  have "tx_same V (u_world u) w" using assms(3) False by (cases "(u_drv U, V, u_world u, ev, w)" rule: event_ok.cases) auto
  then have f0: "tx_frame V u ?w" by (simp add: tx_frame_def)
  have "tx_frame V ?w (uart_callback U ev ?w)"
    unfolding uart_callback_def
    by (rule tx_frame_trans [OF _ notify_frames(3)])
      (use False rx_rdy_frame [of ?w] buf_request_frame [of ?w] in
        \<open>auto simp: tx_frame_def uart_notify_def pool_unref_def split: uart_event.split option.split\<close>)
  from tx_live_frame [OF tx_frame_trans [OF f0 this]] show ?thesis using assms(2) by simp
qed

lemma transmit_live:
  assumes "inv u" and "tx_live V u" and "pipe_transmit U d u = (n, u')" and "d \<noteq> []"
  shows "tx_live V u' \<and> (u_pipe_open u \<and> u_tx_enabled u \<longrightarrow> 0 \<le> n \<and> o_tx V (u_world u') \<noteq> None)"
proof (cases "u_pipe_open u")
  case True
  obtain m rb where p: "put_loop (u_rb U) d (u_tx_buf u) = (m, rb)" by fastforce
  have okb: "ok (u_tx_buf u)" using assms(1) by (simp add: tx_inv_def)
  note l = put_loop_law [OF okb p]
  show ?thesis
  proof (cases "0 < u_tx_done_sem u")
    case sem: True
    let ?v = "u\<lparr>u_tx_buf := rb, u_tx_done_sem := u_tx_done_sem u - 1\<rparr>"
    obtain e v where t: "tx_start U ?v = (e, v)" by fastforce
    have iv: "inv ?v" "o_tx V (u_world ?v) = None" "u_tx_done_sem ?v = 0" "cl (u_tx_buf u) = []"
      using assms(1) l sem by (auto simp: tx_inv_def split: option.splits)
    have "av (u_tx_buf ?v) \<noteq> []" using put_loop_nonempty [OF okb p assms(4) iv(4)] by simp
    note q = tx_start_live [OF t iv(1-3) this] tx_start_law [OF t iv(1-3) this]
    have en: "u_tx_enabled ?v = u_tx_enabled u" by simp
    have "(n, u') = (if e = 0 then (int m, v) else if e = - EAGAIN then (int m, sem_give v) else (e, sem_give v))"
      using assms(3,4) True sem p t by (auto simp: pipe_transmit_def Let_def)
    then show ?thesis using q en by (auto simp: tx_live_def sem_give_def split: if_splits)
  next
    case False
    then show ?thesis using assms p True by (auto simp: pipe_transmit_def Let_def tx_live_def)
  qed
qed (use assms in \<open>auto simp: pipe_transmit_def\<close>)

lemma step_live:
  assumes "uart_step U V u a u'" and "inv u" and "tx_live V u"
  shows "tx_live V u'"
  using assms
proof (cases rule: uart_step.cases)
  case (driver ev w)
  then show ?thesis using callback_live assms(2,3) by simp
next
  case (transmit d n)
  then show ?thesis using transmit_live [of u d n u'] assms(2,3) by simp
next
  case (receive n d)
  have "tx_frame V u (snd (pipe_receive U n u))"
    using receive_loop_frame tx_frame_trans [OF receive_loop_frame rx_recovery_frame]
    by (simp add: pipe_receive_def case_prod_unfold)
  then show ?thesis using tx_live_frame [of V u u'] receive assms(3) by simp
next
  case (api_open e)
  obtain r u1 where r: "rx_enable U (u\<lparr>u_pipe_open := True, u_rx_recovery_disabled := False\<rparr>) = (r, u1)" by fastforce
  have "tx_frame V u u1" using rx_enable_frame [OF r] by (simp add: tx_frame_def)
  then have "tx_live V u1" using tx_live_frame [of V u u1] assms(3) by simp
  then have "tx_live V (uart_notify OPENED (tx_enable u1))" by (simp add: tx_live_def tx_enable_def sem_give_def uart_notify_def)
  then show ?thesis using api_open r \<open>tx_live V u1\<close> assms(3) by (auto simp: pipe_open_def split: if_splits)
next
  case (api_close e)
  then show ?thesis using handler_disable_off [of U "u\<lparr>u_pipe_open := False\<rparr>"] assms(3)
    by (auto simp: pipe_close_def tx_live_def split: if_splits)
qed (use assms(3) in simp_all)

lemma run_live: "orderly_run U V u as u' \<Longrightarrow> inv u \<Longrightarrow> tx_live V u \<Longrightarrow> tx_live V u'"
proof (induction rule: orderly_run.induct)
  case (step u a u' as u'')
  then show ?case using step_tx_law [OF step.hyps(1) step.prems(1) step.hyps(2)] step_live [OF step.hyps(1) step.prems] by blast
qed

end

lemma rx_enable_flags [simp]:
  "u_pipe_open (snd (rx_enable U u)) = u_pipe_open u" "u_pipe_init (snd (rx_enable U u)) = u_pipe_init u"
  "u_tx_enabled (snd (rx_enable U u)) = u_tx_enabled u"
  by (simp_all add: rx_enable_def Let_def case_prod_unfold pool_alloc_def pool_unref_def split: option.split)

context uart_tx
begin

text \<open>Opening while a transmission is still in progress frees the semaphore, and the next
  transmission takes back the claim of the one in progress.\<close>

lemma reopen_law:
  assumes "inv u" and "o_tx V (u_world u) = Some d" and "\<not> u_tx_enabled u" and "pipe_open U u = (0, u1)"
    and "x \<noteq> []" and "length (cl (u_tx_buf u)) + length (av (u_tx_buf u)) < rb_capacity_get (u_rb U) (u_tx_buf u)"
    and "pipe_transmit U x u1 = (n, u2)"
  shows "o_tx V (u_world u2) = Some d \<and> cl (u_tx_buf u2) = [] \<and>
    (\<exists>k. 0 < k \<and> av (u_tx_buf u2) = d @ av (u_tx_buf u) @ take k x) \<and> u_tx_done_sem u2 = 1"
proof -
  let ?b = "u_tx_buf u"
  obtain r v where r: "rx_enable U (u\<lparr>u_pipe_open := True, u_rx_recovery_disabled := False\<rparr>) = (r, v)" by fastforce
  have u1: "u1 = uart_notify OPENED (tx_enable v)" using assms(4) r by (simp add: pipe_open_def split: if_splits)
  have "u_pipe_open v" using rx_enable_flags(1) [of U "u\<lparr>u_pipe_open := True, u_rx_recovery_disabled := False\<rparr>"] r by simp
  then have op: "u_pipe_open u1" by (simp add: u1 uart_notify_def tx_enable_def sem_give_def)
  have "tx_frame V u v" using rx_enable_frame [OF r] by (simp add: tx_frame_def)
  then have w: "u_tx_buf u1 = ?b" "o_tx V (u_world u1) = Some d" "u_tx_enabled u1" "u_tx_done_sem u1 = 1"
    using assms(2,3) u1 by (simp_all add: tx_frame_def tx_same_def uart_notify_def tx_enable_def sem_give_def)
  have b: "ok ?b" "cl ?b = d" using assms(1,2) by (auto simp: tx_inv_def)
  obtain m rb where p: "put_loop (u_rb U) x ?b = (m, rb)" by fastforce
  note l = put_loop_law [OF b(1) p]
  have m: "0 < m" "av rb \<noteq> []" using l assms(5,6) by (cases x; simp)+
  obtain y rc where c: "rb_get_claim (u_rb U) (rb_capacity_get (u_rb U) rb) rb = (y, rc)" by fastforce
  have okr: "ok rb" "cl rb = d" using l b by simp_all
  have y: "y \<noteq> []" using claim_progress [OF okr(1) m(2), of "rb_capacity_get (u_rb U) rb"] capacity_bound [OF okr(1)] c by simp
  have rc: "ok rc" "cl rc = d @ y" "av rb = y @ av rc"
    using claim_ok [OF okr(1), of "rb_capacity_get (u_rb U) rb"] claim_content [OF okr(1), of "rb_capacity_get (u_rb U) rb"] c okr(2)
    by simp_all
  obtain e w' where t: "d_tx (u_drv U) y (u_world u1) = (e, w')" by fastforce
  have e: "e \<noteq> 0" using tx_started [of y "u_world u1" w'] t y w by auto
  have f: "cl (snd (rb_get_finish (u_rb U) 0 rc)) = []" "av (snd (rb_get_finish (u_rb U) 0 rc)) = d @ av rb"
    using finish_content [OF rc(1), of 0] rc by auto
  have "tx_same V (u_world u1) w'" using tx_failed [OF t e] by simp
  moreover have "u2 = sem_give (u1\<lparr>u_tx_buf := rb, u_tx_done_sem := 0, u_tx_buf := rc, u_world := w', u_tx_buf := snd (rb_get_finish (u_rb U) 0 rc)\<rparr>)"
    using assms(5,7) op w p c t e by (auto simp: pipe_transmit_def tx_start_def Let_def split: if_splits)
  moreover have "av rb = av ?b @ take m x" using l by simp
  ultimately show ?thesis using w f m(1) by (intro conjI exI [of _ m]) (simp_all add: sem_give_def tx_same_def)
qed

end

section \<open>Properties\<close>


text \<open>C6: Over any run of the UART pipe, what its users read followed by what still waits to be read
  is a subsequence of what waited before followed by the bytes the driver received: received bytes
  are delivered in order and unaltered, although the driver keeps writing into the same blocks, and
  none is delivered twice.\<close>

theorem uart_receives_in_order:
  assumes "uart_stack U cl av ok V free slab_ok" and "uart_ok U V cl ok free slab_ok u" and "uart_run U V u as u'"
  shows "\<exists>l. o_line V (u_world u') = o_line V (u_world u) @ l \<and>
    subseq (received as @ rx_pending U u') (rx_pending U u @ l)"
  using uart_stack.run_rx_law [OF assms(1,3)] assms(2) by (auto simp: rx_adv_def uart_ok_def)

text \<open>A received fragment is appended completely to what waits to be read if the event queue has
  room, and reading \<open>n\<close> bytes returns exactly the first \<open>n\<close> waiting bytes and leaves the others.\<close>

lemma uart_receive_fifo:
  assumes "uart_stack U cl av ok V free slab_ok" and "uart_ok U V cl ok free slab_ok u"
    and "event_ok (u_drv U) V (u_world u) (UART_RX_RDY p off k) w" and "u_workq_started U w"
    and "length (u_rx_events u) < UART_RX_EVENT_COUNT U"
  defines "u' \<equiv> uart_callback U (UART_RX_RDY p off k) (u\<lparr>u_world := w\<rparr>)"
  shows "rx_pending U u' = rx_pending U u @ mem_read (d_mem (u_drv U) w) (p + off) k \<and>
    fst (pipe_receive U n u') = take n (rx_pending U u') \<and>
    rx_pending U (snd (pipe_receive U n u')) = drop n (rx_pending U u')"
proof -
  have i: "tx_inv V cl ok u" "rx_inv U V free slab_ok u" using assms(2) by (auto simp: uart_ok_def)
  note rx = uart_stack.axioms(2) [OF assms(1)]
  have "rx_pending U u' = rx_pending U (callback_rx_rdy U p off k (u\<lparr>u_world := w\<rparr>))"
    by (simp add: u'_def uart_callback_def uart_callback_notify_pipe_closure_def rx_pending_def)
  then show ?thesis
    using uart_rx.rx_rdy_law [OF rx i(2) assms(3)] assms(4,5)
      uart_rx.pipe_receive_fifo [OF rx, of u' n] uart_stack.callback_rx_law [OF assms(1) i(2) assms(3)]
    by (simp add: u'_def)
qed

text \<open>C7: No receive block leaks and none is freed early: in every state of a run a block of the slab
  is free exactly if neither the driver nor a queued fragment uses it, and its reference counter is
  the number of its users otherwise. So all blocks are free once reception has stopped and
  everything was read.\<close>

theorem uart_blocks_accounted:
  assumes "uart_stack U cl av ok V free slab_ok" and "uart_ok U V cl ok free slab_ok u" and "uart_run U V u as u'"
  defines "us \<equiv> rx_users U (o_own V (u_world u')) (u_rx_events u')"
  shows "(\<forall>b. b \<in> free (p_slab (u_pool u')) \<longleftrightarrow> b < u_cfg_rx_buf_count U \<and> us b = 0) \<and>
    (\<forall>b. 0 < us b \<longrightarrow> p_ref (u_pool u') b = int (us b)) \<and>
    (o_own V (u_world u') = [] \<and> u_rx_events u' = [] \<longrightarrow> free (p_slab (u_pool u')) = {..<u_cfg_rx_buf_count U})"
proof -
  have "rx_inv U V free slab_ok u'" using uart_stack.run_rx_law [OF assms(1,3)] assms(2) by (simp add: uart_ok_def)
  then show ?thesis by (auto simp: rx_inv_def pool_ok_def us_def rx_users_def)
qed


text \<open>When opening the pipe fails because reception cannot be enabled, the pipe stays marked as
  open with transmission disabled: opening it again is refused as already open, and what is
  transmitted meanwhile is buffered without being sent.\<close>

lemma pipe_open_failure_sticks:
  assumes "u_pipe_init u" and "\<not> u_pipe_open u" and "\<not> u_tx_enabled u" and "pipe_open U u = (e, u')" and "e \<noteq> 0"
  shows "fst (pipe_open U u') = - EALREADY \<and> \<not> u_tx_enabled u' \<and> fst (tx_start U u') = - EAGAIN"
proof -
  have "rx_enable U (u\<lparr>u_pipe_open := True, u_rx_recovery_disabled := False\<rparr>) = (e, u')"
    using assms(1,2,4,5) by (auto simp: pipe_open_def split: if_splits prod.splits)
  moreover have "u_pipe_open u' \<and> u_pipe_init u' \<and> \<not> u_tx_enabled u'" using assms(1,3) calculation
      rx_enable_flags [of U "u\<lparr>u_pipe_open := True, u_rx_recovery_disabled := False\<rparr>"] by simp
  ultimately show ?thesis by (simp add: pipe_open_def tx_start_def)
qed

text \<open>Closing the pipe may leave an aborted transmission in progress. If the pipe is opened before
  the driver has reported its end, the semaphore is given although the driver is busy; the next
  transmission then takes back the claim on the bytes in progress, which are queued again in front of
  the new data although the driver still sends them.\<close>

lemma reopen_unclaims:
  assumes "uart_stack U cl av ok V free slab_ok" and "uart_ok U V cl ok free slab_ok u"
    and "o_tx V (u_world u) = Some d" and "\<not> u_tx_enabled u" and "pipe_open U u = (0, u1)" and "x \<noteq> []"
    and "length (cl (u_tx_buf u)) + length (av (u_tx_buf u)) < rb_capacity_get (u_rb U) (u_tx_buf u)"
    and "pipe_transmit U x u1 = (n, u2)"
  shows "o_tx V (u_world u2) = Some d \<and> cl (u_tx_buf u2) = [] \<and>
    (\<exists>k. 0 < k \<and> av (u_tx_buf u2) = d @ av (u_tx_buf u) @ take k x) \<and> u_tx_done_sem u2 = 1"
  using uart_tx.reopen_law [OF uart_stack.axioms(1) [OF assms(1)] _ assms(3-8)] assms(2) by (simp add: uart_ok_def)

end
