(* ===== verification/At_Host_State.thy ===== *)
theory At_Host_State
  imports Ring_Buffer At_Grammar
begin

unbundle bit_operations_syntax

text \<open>
  The state of the AT host (\<open>app/src/sm_at_host.c\<close>) and the operations that only look up or
  update it: the contexts, one per AT pipe, the list of instances, the current context, the
  choice of the context that gets unsolicited result codes (URCs), the operation modes, the
  message queue of the host and the idle timer.

  A context pointer is a number, \<open>NULL\<close> is \<^const>\<open>None\<close>, and the memory of the contexts is a
  function from numbers to records; a context is valid when it is in the instance list. What
  is not in the repository (the modem library, the pipes, the heap, the kernel's work queues
  and events) is a record \<open>env\<close> of functions that the operations take as a parameter: most of
  them act on an opaque world, the ones that call back into the program (a data mode handler,
  the execution of an AT command, a work item) on the whole state. The build configuration is
  part of that record. Work items and timers run one after the other, as on the work queue;
  mutexes and spinlocks are then no-ops.
  The ghost flag \<open>h_fault\<close> is set where the C code would dereference \<open>NULL\<close>, write past the end
  of a buffer or violate an assertion, and where a loop has used up its fuel: theorems that say an operation returns show that it stays unset.
\<close>

type_synonym ctx_id = nat

text \<open>Pipe pointers: a real pipe, or the poison value \<open>0xdeadbeef\<close>.\<close>

datatype pipe = Pipe nat | Poison

datatype sm_operation_mode = SM_AT_COMMAND_MODE | SM_DATA_MODE | SM_NULL_MODE | SM_INVALID_MODE
datatype sm_event = SM_EVENT_NONE | SM_EVENT_URC | SM_EVENT_AT_MODE
datatype sm_pipe_event = SM_PIPE_EVENT_NONE | SM_PIPE_EVENT_OPENED | SM_PIPE_EVENT_CLOSED
datatype modem_pipe_event = MODEM_PIPE_EVENT_OPENED | MODEM_PIPE_EVENT_RECEIVE_READY
  | MODEM_PIPE_EVENT_TRANSMIT_IDLE | MODEM_PIPE_EVENT_CLOSED
datatype sm_datamode_operation = DATAMODE_SEND | DATAMODE_EXIT

abbreviation (input) SM_DATAMODE_FLAGS_NONE :: "8 word" where "SM_DATAMODE_FLAGS_NONE \<equiv> 0"
abbreviation (input) SM_DATAMODE_FLAGS_MORE_DATA :: "8 word" where "SM_DATAMODE_FLAGS_MORE_DATA \<equiv> 1"
abbreviation (input) SM_DATAMODE_FLAGS_EXIT_HANDLER :: "8 word" where "SM_DATAMODE_FLAGS_EXIT_HANDLER \<equiv> 2"

abbreviation (input) AT_BUF_MIN_SIZE :: nat where "AT_BUF_MIN_SIZE \<equiv> 128"
abbreviation (input) AT_BUF_MAX_SIZE :: nat where "AT_BUF_MAX_SIZE \<equiv> 8192"
abbreviation (input) URC_RETRY_DELAY :: nat where "URC_RETRY_DELAY \<equiv> 100"
abbreviation (input) SM_AT_MAX_RSP_LEN :: nat where "SM_AT_MAX_RSP_LEN \<equiv> 2100"
abbreviation (input) MSGQ_LEN :: nat where "MSGQ_LEN \<equiv> 10"
abbreviation (input) SIZE_MOD :: nat where "SIZE_MOD \<equiv> 2 ^ 32"

record data_mode =
  dm_handler :: "nat option"
  dm_handler_result :: int
  dm_time_limit :: "16 word"
  dm_data_len :: nat

text \<open>The state of a socket (\<open>sm_at_socket.c\<close>) and the poll settings of a context (\<open>sm_at_socket.h\<close>). A
  pointer to a socket is its index in the table; the pipe of a socket is the one of the context that
  used it last. The two work items of the poll settings are identified by the context.\<close>

record sm_async_poll =
  po_events :: "8 word"
  po_revents :: "32 word"
  po_delayed_revents :: "8 word"
  po_xapoll_events :: "8 word"
  po_xapoll_events_requested :: "8 word"
  po_adr_flags :: "8 word"
  po_disable :: bool
  po_adr_hex :: bool

record sm_send_ntf =
  nt_ready :: bool
  nt_status :: int
  nt_bytes_sent :: int

record sm_socket =
  sk_type :: int
  sk_role :: "16 word"
  sk_sec_tag :: int
  sk_family :: int
  sk_fd :: int
  sk_cid :: "16 word"
  sk_local_port :: "16 word"
  sk_send_flags :: "32 word"
  sk_send_cb_set :: bool
  sk_connected :: bool
  sk_listen :: bool
  sk_async_poll :: sm_async_poll
  sk_send_ntf :: sm_send_ntf
  sk_pipe :: "pipe option"

record async_poll_ctx =
  apc_xapoll_events_requested :: "8 word"
  apc_adr_flags :: "8 word"
  apc_adr_hex :: bool
  apc_datamode_sock :: "nat option"

record 'rb sm_at_host_ctx =
  c_pipe :: "pipe option"
  c_at_mode :: sm_operation_mode
  c_data_mode :: data_mode
  c_at_buf :: bytes
  c_at_buf_size :: nat
  c_data_rb :: 'rb
  c_data_rb_buf :: bool
  c_quit_str_match :: nat
  c_inactivity_timer :: nat
  c_idle_timer :: nat
  c_inside_quotes :: bool
  c_executing_lock :: int
  c_at_cmd_len :: nat
  c_echo_len :: nat
  c_prev_character :: char
  c_null_dropped_count :: nat
  c_null_match_count :: nat
  c_echo_enabled :: bool
  c_idle_work_list :: "nat list"
  c_buffered_urcs :: "string list"
  c_poll_ctx :: async_poll_ctx

record sm_at_host_msg =
  m_ctx :: "ctx_id option"
  m_pipe :: "pipe option"
  m_pipe_event :: sm_pipe_event
  m_sm_event :: sm_event

text \<open>The callback and user data attached to a pipe, and the work items of the work queue.\<close>

datatype pipe_cb = NoHandler | NullPipeHandler | AtPipeHandler "ctx_id option" | CmuxModule
  | PppModule | TraceBackend
datatype work = HostWork | RxWork ctx_id | RawSendWork ctx_id | PollWork ctx_id

record ('rb, 'w) host =
  h_ctx :: "ctx_id \<Rightarrow> 'rb sm_at_host_ctx"
  h_instances :: "ctx_id list"
  h_current :: "ctx_id option"
  h_urc_buf :: 'rb
  h_urc_channel :: nat
  h_msgq :: "sm_at_host_msg list"
  h_works :: "work list"
  h_pipe_cb :: "pipe \<Rightarrow> pipe_cb"
  h_cmux_uart_pipe :: "pipe option"
  h_cmux_dlcis :: "pipe option list"
  h_uart_baudrate :: nat
  h_fwd_cgev_notifs :: bool
  h_bootloader_mode :: bool
  h_socks :: "sm_socket list"
  h_udp_url :: string
  h_udp_port :: "16 word"
  h_world :: 'w
  h_fault :: bool

datatype term_mode = CR_TERMINATION | LF_TERMINATION | CR_LF_TERMINATION
datatype xdfu = XdfuInit | XdfuWrite | XdfuApply

record ('rb, 'w) env =
  cfg_termination :: term_mode
  cfg_datamode_terminator :: string
  cfg_datamode_buf_size :: nat
  cfg_at_buf_size :: nat
  cfg_at_echo_max_len :: nat
  cfg_urc_delay_ms :: nat
  cfg_uart_rx_buf_size :: nat
  cfg_cmux :: bool
  cfg_ppp :: bool
  cfg_cmux_channel_count :: nat
  e_rb :: "'rb ring_ops"
  e_malloc :: "nat \<Rightarrow> 'w \<Rightarrow> bool \<times> 'w"
  e_malloc_ctx :: "'w \<Rightarrow> ctx_id option \<times> 'w"
  e_free_ctx :: "ctx_id \<Rightarrow> 'w \<Rightarrow> 'w"
  e_in_isr :: "'w \<Rightarrow> bool"
  e_work_submit :: "'w \<Rightarrow> int \<times> 'w"
  e_work_pending :: "nat \<Rightarrow> 'w \<Rightarrow> bool"
  e_pipe_transmit :: "pipe \<Rightarrow> bytes \<Rightarrow> 'w \<Rightarrow> int \<times> 'w"
  e_pipe_receive :: "pipe \<Rightarrow> 'w \<Rightarrow> (int \<times> char) \<times> 'w"
  e_pipe_is_open :: "pipe \<Rightarrow> 'w \<Rightarrow> bool"
  e_pipe_open :: "pipe \<Rightarrow> 'w \<Rightarrow> int \<times> 'w"
  e_pipe_close :: "pipe \<Rightarrow> 'w \<Rightarrow> int \<times> 'w"
  e_event_post :: "ctx_id \<Rightarrow> modem_pipe_event \<Rightarrow> 'w \<Rightarrow> 'w"
  e_event_wait_idle :: "ctx_id \<Rightarrow> 'w \<Rightarrow> bool \<times> 'w"
  e_pm_suspend :: "'w \<Rightarrow> int \<times> 'w"
  e_pm_resume :: "'w \<Rightarrow> int \<times> 'w"
  e_fuel :: nat
  e_datamode_handler ::
    "nat \<Rightarrow> sm_datamode_operation \<Rightarrow> bytes \<Rightarrow> 8 word \<Rightarrow> ('rb, 'w) host \<Rightarrow> int \<times> ('rb, 'w) host"
  e_at_cmd :: "nat \<Rightarrow> string \<Rightarrow> ('rb, 'w) host \<Rightarrow> (int \<times> bytes) \<times> ('rb, 'w) host"
  e_xdfu :: "xdfu \<Rightarrow> string \<Rightarrow> ('rb, 'w) host \<Rightarrow> int \<times> ('rb, 'w) host"
  e_final_reset :: "('rb, 'w) host \<Rightarrow> ('rb, 'w) host"
  e_run_work :: "nat \<Rightarrow> ('rb, 'w) host \<Rightarrow> ('rb, 'w) host"

text \<open>Updates of one context, of its data mode and of the world.\<close>

definition upd_ctx ::
  "ctx_id \<Rightarrow> ('rb sm_at_host_ctx \<Rightarrow> 'rb sm_at_host_ctx) \<Rightarrow> ('rb, 'w) host \<Rightarrow> ('rb, 'w) host" where
  "upd_ctx i f h = h\<lparr>h_ctx := (h_ctx h)(i := f (h_ctx h i))\<rparr>"

definition upd_dm :: "(data_mode \<Rightarrow> data_mode) \<Rightarrow> 'rb sm_at_host_ctx \<Rightarrow> 'rb sm_at_host_ctx" where
  "upd_dm f c = c\<lparr>c_data_mode := f (c_data_mode c)\<rparr>"

definition fault :: "('rb, 'w) host \<Rightarrow> ('rb, 'w) host" where
  "fault h = h\<lparr>h_fault := True\<rparr>"

lemma upd_ctx_same [simp]: "h_ctx (upd_ctx i f h) i = f (h_ctx h i)"
  by (simp add: upd_ctx_def)

lemma upd_ctx_other [simp]: "j \<noteq> i \<Longrightarrow> h_ctx (upd_ctx i f h) j = h_ctx h j"
  by (simp add: upd_ctx_def)

lemma upd_ctx_sel [simp]:
  "h_instances (upd_ctx i f h) = h_instances h"
  "h_current (upd_ctx i f h) = h_current h"
  "h_urc_buf (upd_ctx i f h) = h_urc_buf h"
  "h_urc_channel (upd_ctx i f h) = h_urc_channel h"
  "h_msgq (upd_ctx i f h) = h_msgq h"
  "h_works (upd_ctx i f h) = h_works h"
  "h_pipe_cb (upd_ctx i f h) = h_pipe_cb h"
  "h_cmux_uart_pipe (upd_ctx i f h) = h_cmux_uart_pipe h"
  "h_cmux_dlcis (upd_ctx i f h) = h_cmux_dlcis h"
  "h_uart_baudrate (upd_ctx i f h) = h_uart_baudrate h"
  "h_bootloader_mode (upd_ctx i f h) = h_bootloader_mode h"
  "h_fwd_cgev_notifs (upd_ctx i f h) = h_fwd_cgev_notifs h"
  "h_socks (upd_ctx i f h) = h_socks h"
  "h_udp_url (upd_ctx i f h) = h_udp_url h"
  "h_udp_port (upd_ctx i f h) = h_udp_port h"
  "h_world (upd_ctx i f h) = h_world h"
  "h_fault (upd_ctx i f h) = h_fault h"
  by (simp_all add: upd_ctx_def)

lemma upd_dm_sel [simp]:
  "c_data_mode (upd_dm f c) = f (c_data_mode c)"
  "c_pipe (upd_dm f c) = c_pipe c"
  "c_at_mode (upd_dm f c) = c_at_mode c"
  "c_data_rb (upd_dm f c) = c_data_rb c"
  "c_data_rb_buf (upd_dm f c) = c_data_rb_buf c"
  "c_quit_str_match (upd_dm f c) = c_quit_str_match c"
  "c_at_cmd_len (upd_dm f c) = c_at_cmd_len c"
  "c_at_buf (upd_dm f c) = c_at_buf c"
  "c_at_buf_size (upd_dm f c) = c_at_buf_size c"
  "c_idle_timer (upd_dm f c) = c_idle_timer c"
  "c_executing_lock (upd_dm f c) = c_executing_lock c"
  "c_buffered_urcs (upd_dm f c) = c_buffered_urcs c"
  "c_poll_ctx (upd_dm f c) = c_poll_ctx c"
  by (simp_all add: upd_dm_def)

lemma fault_sel [simp]: "h_fault (fault h)" "h_ctx (fault h) = h_ctx h"
  "h_instances (fault h) = h_instances h" "h_current (fault h) = h_current h"
  "h_world (fault h) = h_world h" "h_urc_buf (fault h) = h_urc_buf h" "h_socks (fault h) = h_socks h" "h_msgq (fault h) = h_msgq h"
  by (simp_all add: fault_def)

section \<open>Validity and lookup of contexts\<close>

definition sm_at_ctx_check :: "ctx_id option \<Rightarrow> ('rb, 'w) host \<Rightarrow> bool" where
  "sm_at_ctx_check ctx h = (case ctx of None \<Rightarrow> False | Some i \<Rightarrow> i \<in> set (h_instances h))"

definition sm_at_host_get_ctx_from :: "pipe option \<Rightarrow> ('rb, 'w) host \<Rightarrow> ctx_id option" where
  "sm_at_host_get_ctx_from pipe h =
     (case pipe of
        None \<Rightarrow> None
      | Some p \<Rightarrow> find (\<lambda>i. c_pipe (h_ctx h i) = Some p) (h_instances h))"

definition get_sm_mode :: "ctx_id option \<Rightarrow> ('rb, 'w) host \<Rightarrow> sm_operation_mode" where
  "get_sm_mode ctx h =
     (case ctx of
        None \<Rightarrow> SM_INVALID_MODE
      | Some i \<Rightarrow> if sm_at_ctx_check ctx h then c_at_mode (h_ctx h i) else SM_INVALID_MODE)"

definition in_datamode_ctx :: "ctx_id option \<Rightarrow> ('rb, 'w) host \<Rightarrow> bool" where
  "in_datamode_ctx ctx h \<longleftrightarrow> get_sm_mode ctx h = SM_DATA_MODE"

definition in_datamode_pipe :: "pipe option \<Rightarrow> ('rb, 'w) host \<Rightarrow> bool" where
  "in_datamode_pipe pipe h \<longleftrightarrow> in_datamode_ctx (sm_at_host_get_ctx_from pipe h) h"

definition in_at_mode_ctx :: "ctx_id option \<Rightarrow> ('rb, 'w) host \<Rightarrow> bool" where
  "in_at_mode_ctx ctx h \<longleftrightarrow> get_sm_mode ctx h = SM_AT_COMMAND_MODE"

definition in_at_mode_pipe :: "pipe option \<Rightarrow> ('rb, 'w) host \<Rightarrow> bool" where
  "in_at_mode_pipe pipe h =
     (case sm_at_host_get_ctx_from pipe h of None \<Rightarrow> False | Some i \<Rightarrow> in_at_mode_ctx (Some i) h)"

definition is_idle_ctx :: "ctx_id option \<Rightarrow> ('rb, 'w) host \<Rightarrow> bool" where
  "is_idle_ctx ctx h =
     (case ctx of
        None \<Rightarrow> False
      | Some i \<Rightarrow> sm_at_ctx_check ctx h \<and> in_at_mode_ctx ctx h \<and>
          c_executing_lock (h_ctx h i) = 0 \<and> c_idle_timer (h_ctx h i) = 0)"

definition is_idle_pipe :: "pipe option \<Rightarrow> ('rb, 'w) host \<Rightarrow> bool" where
  "is_idle_pipe pipe h =
     (case sm_at_host_get_ctx_from pipe h of None \<Rightarrow> False | Some i \<Rightarrow> is_idle_ctx (Some i) h)"

text \<open>Two queries of the CMUX module (\<open>app/src/sm_cmux.c\<close>).\<close>

definition sm_cmux_is_started :: "('rb, 'w) host \<Rightarrow> bool" where
  "sm_cmux_is_started h \<longleftrightarrow> h_cmux_uart_pipe h \<noteq> None"

definition sm_cmux_get_dlci :: "nat \<Rightarrow> ('rb, 'w) host \<Rightarrow> pipe option" where
  "sm_cmux_get_dlci address h =
     (let i = int address - 1
      in if i < 0 \<or> i \<ge> int (length (h_cmux_dlcis h)) then None else h_cmux_dlcis h ! nat i)"

text \<open>The context URCs go to: with CMUX the selected channel, or the first channel in AT mode;
  otherwise (or if no channel is in AT mode) the first instance.\<close>

definition first_instance :: "('rb, 'w) host \<Rightarrow> ctx_id option" where
  "first_instance h = (case h_instances h of [] \<Rightarrow> None | i # _ \<Rightarrow> Some i)"

definition sm_at_host_get_urc_ctx :: "('rb, 'w) env \<Rightarrow> ('rb, 'w) host \<Rightarrow> ctx_id option" where
  "sm_at_host_get_urc_ctx E h =
     (if cfg_cmux E \<and> sm_cmux_is_started h then
        (if h_urc_channel h = 0 then
           (case find (\<lambda>ch. in_at_mode_ctx (sm_at_host_get_ctx_from (sm_cmux_get_dlci ch h) h) h)
                   [1..<Suc (cfg_cmux_channel_count E)] of
              Some ch \<Rightarrow> sm_at_host_get_ctx_from (sm_cmux_get_dlci ch h) h
            | None \<Rightarrow> first_instance h)
         else sm_at_host_get_ctx_from (sm_cmux_get_dlci (h_urc_channel h) h) h)
      else first_instance h)"

definition sm_at_host_get_current :: "('rb, 'w) env \<Rightarrow> ('rb, 'w) host \<Rightarrow> ctx_id option" where
  "sm_at_host_get_current E h =
     (case h_current h of Some i \<Rightarrow> Some i | None \<Rightarrow> sm_at_host_get_urc_ctx E h)"

definition sm_at_host_set_current_ctx :: "ctx_id option \<Rightarrow> ('rb, 'w) host \<Rightarrow> ('rb, 'w) host" where
  "sm_at_host_set_current_ctx ctx h = h\<lparr>h_current := ctx\<rparr>"

definition sm_at_host_get_pipe :: "ctx_id option \<Rightarrow> ('rb, 'w) host \<Rightarrow> pipe option" where
  "sm_at_host_get_pipe ctx h =
     (if \<not> sm_at_ctx_check ctx h then None
      else case ctx of None \<Rightarrow> None | Some i \<Rightarrow> c_pipe (h_ctx h i))"

definition sm_at_host_get_current_pipe :: "('rb, 'w) env \<Rightarrow> ('rb, 'w) host \<Rightarrow> pipe option" where
  "sm_at_host_get_current_pipe E h = sm_at_host_get_pipe (sm_at_host_get_current E h) h"

text \<open>A pointer to the poll settings is the context they are in.\<close>

definition sm_at_host_get_async_poll_ctx :: "pipe option \<Rightarrow> ('rb, 'w) host \<Rightarrow> ctx_id option" where
  "sm_at_host_get_async_poll_ctx pipe h =
     (let ctx = sm_at_host_get_ctx_from pipe h in if sm_at_ctx_check ctx h then ctx else None)"

definition sm_at_host_get_pipe_from_poll_ctx :: "ctx_id option \<Rightarrow> ('rb, 'w) host \<Rightarrow> pipe option" where
  "sm_at_host_get_pipe_from_poll_ctx poll_ctx h =
     (case poll_ctx of None \<Rightarrow> None | Some i \<Rightarrow> if sm_at_ctx_check poll_ctx h then c_pipe (h_ctx h i) else None)"

definition is_open_pipe :: "('rb, 'w) env \<Rightarrow> pipe option \<Rightarrow> ('rb, 'w) host \<Rightarrow> bool" where
  "is_open_pipe E pipe h =
     (case pipe of None \<Rightarrow> False | Some p \<Rightarrow> e_pipe_is_open E p (h_world h))"

definition is_open_ctx :: "('rb, 'w) env \<Rightarrow> ctx_id option \<Rightarrow> ('rb, 'w) host \<Rightarrow> bool" where
  "is_open_ctx E ctx h =
     (case ctx of None \<Rightarrow> False | Some i \<Rightarrow> is_open_pipe E (sm_at_host_get_pipe ctx h) h)"

section \<open>Modes, timer and message queue\<close>

definition check_idle_timer ::
  "('rb, 'w) env \<Rightarrow> ctx_id option \<Rightarrow> bool \<Rightarrow> ('rb, 'w) host \<Rightarrow> ('rb, 'w) host" where
  "check_idle_timer E ctx reschedule h =
     (case ctx of
        None \<Rightarrow> h
      | Some i \<Rightarrow>
          (if reschedule \<or> c_idle_timer (h_ctx h i) = 0 then
             (let delay = (if c_echo_enabled (h_ctx h i) \<and> (reschedule \<or> c_at_cmd_len (h_ctx h i) \<noteq> 0)
                           then cfg_urc_delay_ms E else URC_RETRY_DELAY)
              in upd_ctx i (\<lambda>c. c\<lparr>c_idle_timer := delay\<rparr>) h)
           else h))"

text \<open>\<open>k_work_submit_to_queue\<close> on the work queue of the application. An item that waits in the queue
  already is not added once more.\<close>

definition work_submit ::
  "('rb, 'w) env \<Rightarrow> work \<Rightarrow> ('rb, 'w) host \<Rightarrow> int \<times> ('rb, 'w) host" where
  "work_submit E wk h =
     (case e_work_submit E (h_world h) of
        (ret, w) \<Rightarrow>
          (ret, if ret < 0 \<or> wk \<in> set (h_works h) then h\<lparr>h_world := w\<rparr>
                else h\<lparr>h_world := w, h_works := h_works h @ [wk]\<rparr>))"

definition send_msg ::
  "('rb, 'w) env \<Rightarrow> sm_at_host_msg \<Rightarrow> ('rb, 'w) host \<Rightarrow> ('rb, 'w) host" where
  "send_msg E msg h =
     (let h = (if length (h_msgq h) < MSGQ_LEN then h\<lparr>h_msgq := h_msgq h @ [msg]\<rparr>
               else h\<lparr>h_msgq := [msg]\<rparr>)
      in case work_submit E HostWork h of
           (ret, h) \<Rightarrow>
             (if ret < 0 \<and> ret = - ENODEV \<and> m_ctx msg \<noteq> None
              then check_idle_timer E (m_ctx msg) True h
              else h))"

definition sm_at_host_event_notify ::
  "('rb, 'w) env \<Rightarrow> ctx_id option \<Rightarrow> sm_event \<Rightarrow> ('rb, 'w) host \<Rightarrow> ('rb, 'w) host" where
  "sm_at_host_event_notify E ctx event h =
     send_msg E \<lparr>m_ctx = ctx, m_pipe = None, m_pipe_event = SM_PIPE_EVENT_NONE, m_sm_event = event\<rparr> h"

definition set_sm_mode ::
  "('rb, 'w) env \<Rightarrow> ctx_id option \<Rightarrow> sm_operation_mode \<Rightarrow> ('rb, 'w) host \<Rightarrow> bool \<times> ('rb, 'w) host" where
  "set_sm_mode E ctx mode h =
     (case ctx of
        None \<Rightarrow> (False, h)
      | Some i \<Rightarrow>
          (if \<not> sm_at_ctx_check ctx h then (False, h)
           else case c_at_mode (h_ctx h i) of
             SM_AT_COMMAND_MODE \<Rightarrow>
               (if mode = SM_DATA_MODE then
                  (if \<not> c_data_rb_buf (h_ctx h i) then
                     (case e_malloc E (cfg_datamode_buf_size E) (h_world h) of
                        (False, w) \<Rightarrow> (False, h\<lparr>h_world := w\<rparr>)
                      | (True, w) \<Rightarrow>
                          (True, upd_ctx i (\<lambda>c. c\<lparr>c_data_rb_buf := True,
                             c_data_rb := rb_init (e_rb E) (cfg_datamode_buf_size E),
                             c_at_mode := mode\<rparr>) (h\<lparr>h_world := w\<rparr>)))
                   else (True, upd_ctx i (\<lambda>c. c\<lparr>c_at_mode := mode\<rparr>) h))
                else (False, h))
           | SM_DATA_MODE \<Rightarrow>
               (if mode = SM_NULL_MODE \<or> mode = SM_AT_COMMAND_MODE
                then (True, upd_ctx i (\<lambda>c. c\<lparr>c_at_mode := mode\<rparr>) h) else (False, h))
           | SM_NULL_MODE \<Rightarrow>
               (if mode = SM_AT_COMMAND_MODE \<or> mode = SM_NULL_MODE
                then (True, upd_ctx i (\<lambda>c. c\<lparr>c_at_mode := mode\<rparr>) h) else (False, h))
           | SM_INVALID_MODE \<Rightarrow> (False, h)))"

section \<open>Properties\<close>

text \<open>The operation mode of a context changes only along the allowed transitions (AT command mode
  to data mode, data mode to null mode or back to AT command mode, null mode to itself or to AT
  command mode), data mode is entered only with a data buffer, no other context is touched, and a
  refused transition changes no context at all.\<close>

lemma set_sm_mode_transitions:
  assumes "set_sm_mode E ctx m h = (accepted, h')"
  shows "if accepted then
      (\<exists>i. ctx = Some i \<and> i \<in> set (h_instances h) \<and>
        (c_at_mode (h_ctx h i), m) \<in> {(SM_AT_COMMAND_MODE, SM_DATA_MODE), (SM_DATA_MODE, SM_NULL_MODE),
          (SM_DATA_MODE, SM_AT_COMMAND_MODE), (SM_NULL_MODE, SM_AT_COMMAND_MODE), (SM_NULL_MODE, SM_NULL_MODE)} \<and>
        c_at_mode (h_ctx h' i) = m \<and> (m = SM_DATA_MODE \<longrightarrow> c_data_rb_buf (h_ctx h' i)) \<and>
        (\<forall>j. j \<noteq> i \<longrightarrow> h_ctx h' j = h_ctx h j))
    else h_ctx h' = h_ctx h"
proof (cases ctx)
  case None
  then show ?thesis using assms by (auto simp: set_sm_mode_def)
next
  case (Some i)
  obtain b w where m: "e_malloc E (cfg_datamode_buf_size E) (h_world h) = (b, w)" by fastforce
  show ?thesis using assms Some m
    by (cases b; cases "c_at_mode (h_ctx h i)"; cases "c_data_rb_buf (h_ctx h i)")
      (auto simp: set_sm_mode_def sm_at_ctx_check_def split: if_splits)
qed

text \<open>A message posted to the host is always queued as the newest one; the queue never holds more
  than ten messages, and messages are only lost all at once, when the queue is full.\<close>

lemma send_msg_queue:
  assumes "length (h_msgq h) \<le> MSGQ_LEN"
  shows "h_msgq (send_msg E msg h) = (if length (h_msgq h) = MSGQ_LEN then [msg] else h_msgq h @ [msg]) \<and>
    length (h_msgq (send_msg E msg h)) \<le> MSGQ_LEN"
proof -
  have q: "h_msgq (check_idle_timer E ctx r h1) = h_msgq h1" for ctx r h1
    by (simp add: check_idle_timer_def Let_def split: option.split)
  have w: "h_msgq (snd (work_submit E wk h1)) = h_msgq h1" for wk h1
    by (simp add: work_submit_def case_prod_unfold)
  have "h_msgq (send_msg E msg h) = (if length (h_msgq h) < MSGQ_LEN then h_msgq h @ [msg] else [msg])"
    unfolding send_msg_def Let_def by (simp add: case_prod_unfold q w)
  then show ?thesis using assms by auto
qed

end
