(* ===== verification/At_Host_Tx.thy ===== *)
theory At_Host_Tx
  imports At_Host_State
begin

text \<open>
  Output of the AT host (\<open>app/src/sm_at_host.c\<close>): the blocking transmission on a pipe,
  responses, unsolicited result codes with their global ring buffer and per-context lists,
  and the conditions under which buffered URCs are flushed.
\<close>

section \<open>Transmission on a pipe\<close>

text \<open>The loop of \<open>sm_at_host_pipe_tx_blocking\<close>: \<open>Some e\<close> is an early return of \<open>e\<close>, \<open>None\<close>
  the end of the loop. A transmission that takes no bytes waits for the pipe to become idle;
  five timeouts of that wait give up.\<close>

fun tx_loop ::
  "('rb, 'w) env \<Rightarrow> ctx_id \<Rightarrow> pipe \<Rightarrow> nat \<Rightarrow> nat \<Rightarrow> bytes \<Rightarrow> ('rb, 'w) host \<Rightarrow>
   int option \<times> ('rb, 'w) host" where
  "tx_loop E i p fuel retries [] h = (None, h)"
| "tx_loop E i p 0 retries (b # bs) h = (Some 0, fault h)"
| "tx_loop E i p (Suc fuel) retries (b # bs) h =
     (case e_pipe_transmit E p (b # bs) (h_world h) of
        (ret, w) \<Rightarrow>
          (if ret < 0 then (Some ret, h\<lparr>h_world := w\<rparr>)
           else if ret = 0 then
             (case e_event_wait_idle E i w of
                (True, w) \<Rightarrow> tx_loop E i p fuel retries (b # bs) (h\<lparr>h_world := w\<rparr>)
              | (False, w) \<Rightarrow>
                  (if retries - 1 = 0 then (Some (- EIO), h\<lparr>h_world := w\<rparr>)
                   else tx_loop E i p fuel (retries - 1) (b # bs) (h\<lparr>h_world := w\<rparr>)))
           else tx_loop E i p fuel retries (drop (nat ret) (b # bs)) (h\<lparr>h_world := w\<rparr>)))"

definition sm_at_host_pipe_tx_blocking ::
  "('rb, 'w) env \<Rightarrow> ctx_id option \<Rightarrow> bytes \<Rightarrow> ('rb, 'w) host \<Rightarrow> int \<times> ('rb, 'w) host" where
  "sm_at_host_pipe_tx_blocking E ctx buf h =
     (case ctx of
        None \<Rightarrow> (- EINVAL, h)
      | Some i \<Rightarrow>
          (case c_pipe (h_ctx h i) of
             None \<Rightarrow> (- EINVAL, h)
           | Some p \<Rightarrow>
               (case tx_loop E i p (e_fuel E) 5 buf h of
                  (Some ret, h) \<Rightarrow> (ret, h)
                | (None, h) \<Rightarrow> (int (length buf), h))))"

section \<open>Flushing URCs\<close>

text \<open>One claim of the global buffer per round; the fuel is its size, since every round removes
  at least one byte.\<close>

fun send_urcs_loop ::
  "('rb, 'w) env \<Rightarrow> ctx_id \<Rightarrow> nat \<Rightarrow> ('rb, 'w) host \<Rightarrow> ('rb, 'w) host" where
  "send_urcs_loop E i 0 h = (if rb_is_empty (e_rb E) (h_urc_buf h) then h else fault h)"
| "send_urcs_loop E i (Suc fuel) h =
     (if rb_is_empty (e_rb E) (h_urc_buf h) then h
      else case rb_get_claim (e_rb E) 65535 (h_urc_buf h) of
        (p, rb) \<Rightarrow>
          (case sm_at_host_pipe_tx_blocking E (Some i) p (h\<lparr>h_urc_buf := rb\<rparr>) of
             (sent, h) \<Rightarrow>
               send_urcs_loop E i fuel
                 (h\<lparr>h_urc_buf := snd (rb_get_finish (e_rb E) (length p) (h_urc_buf h))\<rparr>)))"

definition send_urcs :: "('rb, 'w) env \<Rightarrow> ctx_id option \<Rightarrow> ('rb, 'w) host \<Rightarrow> ('rb, 'w) host" where
  "send_urcs E ctx h =
     (case ctx of
        None \<Rightarrow> h
      | Some i \<Rightarrow>
          (if ctx \<noteq> sm_at_host_get_urc_ctx E h then h
           else send_urcs_loop E i (rb_size_get (e_rb E) (h_urc_buf h)) h))"

text \<open>The list of URCs of one context; \<open>sys_slist_get\<close> takes the head off.\<close>

fun flush_loop :: "('rb, 'w) env \<Rightarrow> ctx_id \<Rightarrow> nat \<Rightarrow> ('rb, 'w) host \<Rightarrow> ('rb, 'w) host" where
  "flush_loop E i 0 h = (case c_buffered_urcs (h_ctx h i) of [] \<Rightarrow> h | _ # _ \<Rightarrow> fault h)"
| "flush_loop E i (Suc fuel) h =
     (case c_buffered_urcs (h_ctx h i) of
        [] \<Rightarrow> h
      | urc # urcs \<Rightarrow>
          (let h = upd_ctx i (\<lambda>c. c\<lparr>c_buffered_urcs := urcs\<rparr>) h
           in flush_loop E i fuel (snd (sm_at_host_pipe_tx_blocking E (Some i) urc h))))"

definition flush_pipe_urcs :: "('rb, 'w) env \<Rightarrow> ctx_id \<Rightarrow> ('rb, 'w) host \<Rightarrow> ('rb, 'w) host" where
  "flush_pipe_urcs E i h =
     (let h = send_urcs E (Some i) h
      in flush_loop E i (length (c_buffered_urcs (h_ctx h i))) h)"

section \<open>Responses and URCs\<close>

definition sm_at_send_internal ::
  "('rb, 'w) env \<Rightarrow> ctx_id option \<Rightarrow> bytes \<Rightarrow> bool \<Rightarrow> ('rb, 'w) host \<Rightarrow> int \<times> ('rb, 'w) host" where
  "sm_at_send_internal E ctx data urc h =
     (if e_in_isr E (h_world h) then (- EINTR, h)
      else if urc then
        (case (case ctx of
           None \<Rightarrow>
             (case sm_at_host_get_urc_ctx E h of
                None \<Rightarrow> (Inl (- EIO), h\<lparr>h_urc_buf := rb_reset (e_rb E) (h_urc_buf h)\<rparr>)
              | Some i \<Rightarrow>
                  (case rb_put (e_rb E) data (h_urc_buf h) of
                     (ret, rb) \<Rightarrow>
                       (if ret < length data
                        then (Inl (- EIO), h\<lparr>h_urc_buf := rb_reset (e_rb E) rb\<rparr>)
                        else (Inr i, h\<lparr>h_urc_buf := rb\<rparr>))))
         | Some i \<Rightarrow>
             (case e_malloc E (length data + 1) (h_world h) of
                (False, w) \<Rightarrow> (Inl (- ENOMEM), h\<lparr>h_world := w\<rparr>)
              | (True, w) \<Rightarrow>
                  (Inr i, upd_ctx i (\<lambda>c. c\<lparr>c_buffered_urcs := c_buffered_urcs c @ [cstr data]\<rparr>)
                            (h\<lparr>h_world := w\<rparr>)))) of
           (Inl err, h) \<Rightarrow> (err, h)
         | (Inr i, h) \<Rightarrow>
             (0, if \<not> is_idle_ctx (Some i) h then check_idle_timer E (Some i) False h
                 else sm_at_host_event_notify E (Some i) SM_EVENT_URC h))
      else
        (case sm_at_host_pipe_tx_blocking E ctx data h of
           (ret, h) \<Rightarrow>
             (if ret < 0 then (ret, h)
              else if ret = int (length data) then (0, h) else (- EIO, h))))"

text \<open>The text is what \<open>vsnprintf\<close> produces from the format and its arguments; the response
  buffer truncates it.\<close>

definition rsp_send_internal ::
  "('rb, 'w) env \<Rightarrow> ctx_id option \<Rightarrow> bool \<Rightarrow> string \<Rightarrow> ('rb, 'w) host \<Rightarrow> ('rb, 'w) host" where
  "rsp_send_internal E ctx urc text h =
     snd (sm_at_send_internal E ctx (take (SM_AT_MAX_RSP_LEN - 1) text) urc h)"

definition rsp_send :: "('rb, 'w) env \<Rightarrow> string \<Rightarrow> ('rb, 'w) host \<Rightarrow> ('rb, 'w) host" where
  "rsp_send E text h =
     (let ctx = sm_at_host_get_current E h
      in if \<not> sm_at_ctx_check ctx h then h
         else let h = (if is_idle_ctx ctx h then flush_pipe_urcs E (the ctx) h else h)
              in rsp_send_internal E ctx False text h)"

definition rsp_send_to ::
  "('rb, 'w) env \<Rightarrow> pipe option \<Rightarrow> string \<Rightarrow> ('rb, 'w) host \<Rightarrow> ('rb, 'w) host" where
  "rsp_send_to E pipe text h =
     (let ctx = sm_at_host_get_ctx_from pipe h
      in if \<not> sm_at_ctx_check ctx h then h
         else let h = (if is_idle_ctx ctx h then flush_pipe_urcs E (the ctx) h else h)
              in rsp_send_internal E ctx False text h)"

definition urc_send_to ::
  "('rb, 'w) env \<Rightarrow> pipe option \<Rightarrow> string \<Rightarrow> ('rb, 'w) host \<Rightarrow> ('rb, 'w) host" where
  "urc_send_to E pipe text h =
     rsp_send_internal E (sm_at_host_get_ctx_from pipe h) True text h"

definition urc_send :: "('rb, 'w) env \<Rightarrow> string \<Rightarrow> ('rb, 'w) host \<Rightarrow> ('rb, 'w) host" where
  "urc_send E text h = rsp_send_internal E None True text h"

definition data_send ::
  "('rb, 'w) env \<Rightarrow> pipe option \<Rightarrow> bytes \<Rightarrow> ('rb, 'w) host \<Rightarrow> ('rb, 'w) host" where
  "data_send E pipe data h =
     (let ctx = sm_at_host_get_ctx_from pipe h
      in if \<not> sm_at_ctx_check ctx h then h
         else let h = (if is_idle_ctx ctx h then flush_pipe_urcs E (the ctx) h else h)
              in snd (sm_at_send_internal E ctx data False h))"

definition rsp_send_ok :: "('rb, 'w) env \<Rightarrow> ('rb, 'w) host \<Rightarrow> ('rb, 'w) host" where
  "rsp_send_ok E h = rsp_send E OK_STR h"

definition rsp_send_error :: "('rb, 'w) env \<Rightarrow> ('rb, 'w) host \<Rightarrow> ('rb, 'w) host" where
  "rsp_send_error E h = rsp_send E ERROR_STR h"

definition notification_handler :: "('rb, 'w) env \<Rightarrow> string \<Rightarrow> ('rb, 'w) host \<Rightarrow> ('rb, 'w) host" where
  "notification_handler E notification h =
     (if cfg_ppp E \<and> \<not> h_fwd_cgev_notifs h \<and> prefix ''+CGEV: '' notification then h
      else urc_send E (CRLF_STR @ notification) h)"

definition idle_timer_handler :: "('rb, 'w) env \<Rightarrow> ctx_id \<Rightarrow> ('rb, 'w) host \<Rightarrow> ('rb, 'w) host" where
  "idle_timer_handler E i h = sm_at_host_event_notify E (Some i) SM_EVENT_URC h"

definition sm_at_host_cmd_done :: "('rb, 'w) env \<Rightarrow> ctx_id option \<Rightarrow> ('rb, 'w) host \<Rightarrow> ('rb, 'w) host" where
  "sm_at_host_cmd_done E ctx h =
     (if \<not> sm_at_ctx_check ctx h then h
      else let i = the ctx; before = c_executing_lock (h_ctx h i);
               h = upd_ctx i (\<lambda>c. c\<lparr>c_executing_lock := c_executing_lock c - 1\<rparr>) h
           in if before = 1 \<and> is_open_ctx E ctx h
              then snd (work_submit E (RxWork i) (sm_at_host_event_notify E ctx SM_EVENT_URC h))
              else h)"

definition sm_at_host_lock_ctx :: "('rb, 'w) env \<Rightarrow> ctx_id option \<Rightarrow> ('rb, 'w) host \<Rightarrow> ('rb, 'w) host" where
  "sm_at_host_lock_ctx E ctx h =
     (if \<not> sm_at_ctx_check ctx h then h
      else let h = (if is_idle_ctx ctx h then flush_pipe_urcs E (the ctx) h else h)
           in upd_ctx (the ctx) (\<lambda>c. c\<lparr>c_executing_lock := c_executing_lock c + 1\<rparr>) h)"

text \<open>The forms of lock and unlock that take a pipe.\<close>

definition sm_at_host_lock_pipe :: "('rb, 'w) env \<Rightarrow> pipe option \<Rightarrow> ('rb, 'w) host \<Rightarrow> ('rb, 'w) host" where
  "sm_at_host_lock_pipe E p h = sm_at_host_lock_ctx E (sm_at_host_get_ctx_from p h) h"

definition sm_at_host_cmd_done_pipe :: "('rb, 'w) env \<Rightarrow> pipe option \<Rightarrow> ('rb, 'w) host \<Rightarrow> ('rb, 'w) host" where
  "sm_at_host_cmd_done_pipe E p h = sm_at_host_cmd_done E (sm_at_host_get_ctx_from p h) h"

text \<open>The loop of idle work: each item is taken off the list and run.\<close>

fun idle_work_loop :: "('rb, 'w) env \<Rightarrow> ctx_id \<Rightarrow> nat \<Rightarrow> ('rb, 'w) host \<Rightarrow> ('rb, 'w) host" where
  "idle_work_loop E i 0 h = (case c_idle_work_list (h_ctx h i) of [] \<Rightarrow> h | _ # _ \<Rightarrow> fault h)"
| "idle_work_loop E i (Suc fuel) h =
     (case c_idle_work_list (h_ctx h i) of
        [] \<Rightarrow> h
      | work # works \<Rightarrow>
          idle_work_loop E i fuel
            (e_run_work E work (upd_ctx i (\<lambda>c. c\<lparr>c_idle_work_list := works\<rparr>) h)))"

definition idle_work :: "('rb, 'w) env \<Rightarrow> ctx_id \<Rightarrow> ('rb, 'w) host \<Rightarrow> ('rb, 'w) host" where
  "idle_work E i h =
     (let h = sm_at_host_set_current_ctx (Some i) h;
          h = flush_pipe_urcs E i h;
          h = idle_work_loop E i (e_fuel E) h
      in sm_at_host_set_current_ctx None h)"

definition sm_at_host_queue_idle_work ::
  "('rb, 'w) env \<Rightarrow> pipe option \<Rightarrow> nat \<Rightarrow> ('rb, 'w) host \<Rightarrow> ('rb, 'w) host" where
  "sm_at_host_queue_idle_work E pipe work h =
     (case sm_at_host_get_ctx_from pipe h of
        None \<Rightarrow> h
      | Some i \<Rightarrow>
          (if e_work_pending E work (h_world h) then h
           else let h = (if work \<in> set (c_idle_work_list (h_ctx h i)) then h
                         else upd_ctx i (\<lambda>c. c\<lparr>c_idle_work_list := c_idle_work_list c @ [work]\<rparr>) h)
                in if is_idle_ctx (Some i) h then sm_at_host_event_notify E (Some i) SM_EVENT_URC h
                   else h))"

section \<open>What output leaves unchanged\<close>

text \<open>Output touches the world, the URC buffers, the idle timers, the queues and the ghost flag:
  of a context only its list of URCs and its idle timer.\<close>

definition ctx_frame :: "'rb sm_at_host_ctx \<Rightarrow> 'rb sm_at_host_ctx \<Rightarrow> bool" where
  "ctx_frame c c' \<longleftrightarrow> (\<exists>u t. c' = c\<lparr>c_buffered_urcs := u, c_idle_timer := t\<rparr>)"

definition out_frame :: "('rb, 'w) host \<Rightarrow> ('rb, 'w) host \<Rightarrow> bool" where
  "out_frame h h' \<longleftrightarrow>
     (\<exists>f w b flt q wk. h' = h\<lparr>h_ctx := f, h_world := w, h_urc_buf := b, h_msgq := q, h_works := wk,
        h_fault := flt\<rparr> \<and> (h_fault h \<longrightarrow> flt) \<and> (\<forall>j. ctx_frame (h_ctx h j) (f j)))"

lemma ctx_frame_refl [simp]: "ctx_frame c c"
  unfolding ctx_frame_def by (rule exI [of _ "c_buffered_urcs c"], rule exI [of _ "c_idle_timer c"]) simp

lemma ctx_frame_trans: "ctx_frame a b \<Longrightarrow> ctx_frame b c \<Longrightarrow> ctx_frame a c"
  unfolding ctx_frame_def by (elim exE) (simp, blast)

lemma ctx_frame_urcs [simp]: "ctx_frame c (c\<lparr>c_buffered_urcs := u\<rparr>)"
  unfolding ctx_frame_def by (rule exI [of _ u], rule exI [of _ "c_idle_timer c"]) simp

lemma ctx_frame_timer [simp]: "ctx_frame c (c\<lparr>c_idle_timer := t\<rparr>)"
  unfolding ctx_frame_def by (rule exI [of _ "c_buffered_urcs c"], rule exI [of _ t]) simp

lemma ctx_frameD:
  assumes "ctx_frame c c'"
  shows "c_pipe c' = c_pipe c" "c_at_mode c' = c_at_mode c" "c_data_mode c' = c_data_mode c"
    "c_at_buf c' = c_at_buf c" "c_at_buf_size c' = c_at_buf_size c" "c_data_rb c' = c_data_rb c"
    "c_data_rb_buf c' = c_data_rb_buf c" "c_quit_str_match c' = c_quit_str_match c"
    "c_inactivity_timer c' = c_inactivity_timer c" "c_inside_quotes c' = c_inside_quotes c"
    "c_executing_lock c' = c_executing_lock c" "c_at_cmd_len c' = c_at_cmd_len c"
    "c_echo_len c' = c_echo_len c" "c_prev_character c' = c_prev_character c"
    "c_null_dropped_count c' = c_null_dropped_count c" "c_null_match_count c' = c_null_match_count c"
    "c_echo_enabled c' = c_echo_enabled c" "c_idle_work_list c' = c_idle_work_list c"
    "c_poll_ctx c' = c_poll_ctx c"
  using assms by (auto simp: ctx_frame_def)

lemma out_frame_refl [simp]: "out_frame h h"
  unfolding out_frame_def
  by (rule exI [of _ "h_ctx h"], rule exI [of _ "h_world h"], rule exI [of _ "h_urc_buf h"],
      rule exI [of _ "h_fault h"], rule exI [of _ "h_msgq h"], rule exI [of _ "h_works h"]) simp

lemma out_frame_iff:
  "out_frame h h' \<longleftrightarrow>
     h' = h\<lparr>h_ctx := h_ctx h', h_world := h_world h', h_urc_buf := h_urc_buf h',
            h_msgq := h_msgq h', h_works := h_works h', h_fault := h_fault h'\<rparr> \<and>
     (h_fault h \<longrightarrow> h_fault h') \<and> (\<forall>j. ctx_frame (h_ctx h j) (h_ctx h' j))"
  (is "_ \<longleftrightarrow> ?R")
proof
  assume "out_frame h h'"
  then show ?R unfolding out_frame_def by (elim exE conjE) simp
next
  assume ?R
  then show "out_frame h h'" unfolding out_frame_def by blast
qed

lemma out_frameD:
  assumes "out_frame h h'"
  shows "h_instances h' = h_instances h" "h_current h' = h_current h"
    "h_urc_channel h' = h_urc_channel h" "h_pipe_cb h' = h_pipe_cb h"
    "h_cmux_uart_pipe h' = h_cmux_uart_pipe h" "h_cmux_dlcis h' = h_cmux_dlcis h"
    "h_uart_baudrate h' = h_uart_baudrate h" "h_bootloader_mode h' = h_bootloader_mode h"
    "h_fwd_cgev_notifs h' = h_fwd_cgev_notifs h"
    "ctx_frame (h_ctx h j) (h_ctx h' j)" "h_fault h \<Longrightarrow> h_fault h'"
    "h_socks h' = h_socks h" "h_udp_url h' = h_udp_url h" "h_udp_port h' = h_udp_port h"
  using assms by (auto simp: out_frame_def)

lemma out_frame_trans [trans]:
  assumes "out_frame a b" and "out_frame b c"
  shows "out_frame a c"
proof -
  have "\<forall>j. ctx_frame (h_ctx a j) (h_ctx c j)"
    using assms by (auto simp: out_frame_iff intro: ctx_frame_trans)
  moreover have "h_fault a \<longrightarrow> h_fault c" using assms by (simp add: out_frame_iff)
  moreover have "c = a\<lparr>h_ctx := h_ctx c, h_world := h_world c, h_urc_buf := h_urc_buf c,
      h_msgq := h_msgq c, h_works := h_works c, h_fault := h_fault c\<rparr>"
    using out_frameD [OF assms(1)] out_frameD [OF assms(2)] by simp
  ultimately show ?thesis by (simp add: out_frame_iff)
qed

lemma out_frame_world [simp, intro]: "out_frame h (h\<lparr>h_world := w\<rparr>)"
  by (simp add: out_frame_iff)

lemma out_frame_urc_buf [simp, intro]: "out_frame h (h\<lparr>h_urc_buf := b\<rparr>)"
  by (simp add: out_frame_iff)

lemma out_frame_msgq [simp, intro]: "out_frame h (h\<lparr>h_msgq := q\<rparr>)"
  by (simp add: out_frame_iff)

lemma out_frame_works [simp, intro]: "out_frame h (h\<lparr>h_world := w, h_works := q\<rparr>)"
  by (simp add: out_frame_iff)

lemma out_frame_fault [simp, intro]: "out_frame h (fault h)"
  by (simp add: out_frame_iff fault_def)

lemma out_frame_upd_ctx [intro]:
  "(\<And>c. ctx_frame c (f c)) \<Longrightarrow> out_frame h (upd_ctx i f h)"
  by (simp add: out_frame_iff upd_ctx_def)

lemma tx_loop_frame [frame]: "out_frame h (snd (tx_loop E i p fuel r d h))"
proof (induction fuel arbitrary: r d h)
  case 0
  show ?case by (cases d) auto
next
  case (Suc fuel)
  have step: "out_frame h (snd (tx_loop E i p fuel r' d' (h\<lparr>h_world := w\<rparr>)))" for r' d' w
    by (rule out_frame_trans [OF out_frame_world Suc.IH])
  show ?case
    by (cases d) (auto simp: step split: prod.splits bool.splits)
qed

lemma tx_blocking_frame [frame]: "out_frame h (snd (sm_at_host_pipe_tx_blocking E ctx d h))"
proof -
  have "out_frame h h'" if "tx_loop E i p fuel r d h = (x, h')" for i p fuel r x h'
    using tx_loop_frame [of h E i p fuel r d] that by simp
  then show ?thesis
    by (auto simp: sm_at_host_pipe_tx_blocking_def split: option.splits prod.splits)
qed

lemma send_urcs_loop_frame [frame]: "out_frame h (send_urcs_loop E i fuel h)"
proof (induction E i fuel h rule: send_urcs_loop.induct)
  case (2 E i fuel h)
  show ?case
  proof (cases "rb_is_empty (e_rb E) (h_urc_buf h)")
    case False
    obtain d rb where cl: "rb_get_claim (e_rb E) 65535 (h_urc_buf h) = (d, rb)" by fastforce
    obtain n h1 where tx: "sm_at_host_pipe_tx_blocking E (Some i) d (h\<lparr>h_urc_buf := rb\<rparr>) = (n, h1)"
      by fastforce
    have "out_frame h (h\<lparr>h_urc_buf := rb\<rparr>)" by simp
    also have "out_frame (h\<lparr>h_urc_buf := rb\<rparr>) h1"
      using tx_blocking_frame [of "h\<lparr>h_urc_buf := rb\<rparr>" E "Some i" d] by (simp add: tx)
    also have "out_frame h1 (h1\<lparr>h_urc_buf := snd (rb_get_finish (e_rb E) (length d) (h_urc_buf h1))\<rparr>)"
      by simp
    finally show ?thesis
      using 2 [OF False cl [symmetric] tx [symmetric]] False cl tx
      by (auto intro: out_frame_trans)
  qed simp
qed simp

lemma send_urcs_frame [frame]: "out_frame h (send_urcs E ctx h)"
  by (auto simp: send_urcs_def send_urcs_loop_frame split: option.splits)

lemma flush_loop_frame [frame]: "out_frame h (flush_loop E i fuel h)"
proof (induction E i fuel h rule: flush_loop.induct)
  case (2 E i fuel h)
  show ?case
  proof (cases "c_buffered_urcs (h_ctx h i)")
    case (Cons u us)
    let ?h = "upd_ctx i (\<lambda>c. c\<lparr>c_buffered_urcs := us\<rparr>) h"
    have "out_frame h ?h" by (rule out_frame_upd_ctx) simp
    also have "out_frame ?h (snd (sm_at_host_pipe_tx_blocking E (Some i) u ?h))"
      by (rule tx_blocking_frame)
    finally show ?thesis using 2 [OF Cons refl] Cons by (auto intro: out_frame_trans)
  qed simp
qed (simp split: list.splits)

lemma flush_pipe_urcs_frame [frame]: "out_frame h (flush_pipe_urcs E i h)"
  unfolding flush_pipe_urcs_def Let_def
  by (rule out_frame_trans [OF send_urcs_frame flush_loop_frame])

lemma check_idle_timer_frame [frame]: "out_frame h (check_idle_timer E ctx r h)"
  by (auto simp: check_idle_timer_def Let_def split: option.splits intro!: out_frame_upd_ctx)

lemma work_submit_frame [frame]: "out_frame h (snd (work_submit E wk h))"
  by (auto simp: work_submit_def split: prod.splits)

lemma send_msg_frame [frame]: "out_frame h (send_msg E msg h)"
proof -
  let ?h = "if length (h_msgq h) < MSGQ_LEN then h\<lparr>h_msgq := h_msgq h @ [msg]\<rparr> else h\<lparr>h_msgq := [msg]\<rparr>"
  have "out_frame h ?h" by simp
  also have "out_frame ?h (snd (work_submit E HostWork ?h))" by (rule work_submit_frame)
  also have "out_frame (snd (work_submit E HostWork ?h)) (send_msg E msg h)"
    using check_idle_timer_frame
    by (auto simp: send_msg_def Let_def split: prod.splits)
  finally show ?thesis .
qed

lemma event_notify_frame [frame]: "out_frame h (sm_at_host_event_notify E ctx ev h)"
  unfolding sm_at_host_event_notify_def by (rule send_msg_frame)

lemma urc_done_frame: "out_frame h (if \<not> is_idle_ctx ctx h then check_idle_timer E ctx False h
  else sm_at_host_event_notify E ctx SM_EVENT_URC h)"
  by (simp add: check_idle_timer_frame event_notify_frame)

lemma sm_at_send_internal_frame [frame]: "out_frame h (snd (sm_at_send_internal E ctx d urc h))"
proof (cases "e_in_isr E (h_world h) \<or> \<not> urc")
  case True
  then show ?thesis
    using tx_blocking_frame [of h E ctx d]
    by (auto simp: sm_at_send_internal_def split: prod.splits)
next
  case False
  have q: "out_frame h (upd_ctx i (\<lambda>c. c\<lparr>c_buffered_urcs := c_buffered_urcs c @ [u]\<rparr>) (h\<lparr>h_world := w\<rparr>))"
    for i u w
    by (rule out_frame_trans [OF out_frame_world out_frame_upd_ctx]) simp
  show ?thesis
    using False q
    by (auto simp: sm_at_send_internal_def split: option.splits prod.splits bool.splits
        intro: out_frame_trans [OF _ check_idle_timer_frame]
          out_frame_trans [OF _ event_notify_frame])
qed

lemma rsp_send_internal_frame [frame]: "out_frame h (rsp_send_internal E ctx urc t h)"
  unfolding rsp_send_internal_def by (rule sm_at_send_internal_frame)

lemma flush_if_frame: "out_frame h (if b then flush_pipe_urcs E i h else h)"
  by (simp add: flush_pipe_urcs_frame)

lemma rsp_send_frame [frame]: "out_frame h (rsp_send E t h)"
  by (auto simp: rsp_send_def Let_def rsp_send_internal_frame
      intro: out_frame_trans [OF flush_pipe_urcs_frame rsp_send_internal_frame])

lemma rsp_send_to_frame [frame]: "out_frame h (rsp_send_to E p t h)"
  by (auto simp: rsp_send_to_def Let_def rsp_send_internal_frame
      intro: out_frame_trans [OF flush_pipe_urcs_frame rsp_send_internal_frame])

lemma urc_send_frame [frame]: "out_frame h (urc_send E t h)"
  unfolding urc_send_def by (rule rsp_send_internal_frame)

lemma urc_send_to_frame [frame]: "out_frame h (urc_send_to E p t h)"
  unfolding urc_send_to_def by (rule rsp_send_internal_frame)

lemma data_send_frame [frame]: "out_frame h (data_send E p d h)"
  by (auto simp: data_send_def Let_def sm_at_send_internal_frame
      intro: out_frame_trans [OF flush_pipe_urcs_frame sm_at_send_internal_frame])

lemma rsp_send_ok_frame [frame]: "out_frame h (rsp_send_ok E h)"
  unfolding rsp_send_ok_def by (rule rsp_send_frame)

lemma rsp_send_error_frame [frame]: "out_frame h (rsp_send_error E h)"
  unfolding rsp_send_error_def by (rule rsp_send_frame)

lemma notification_handler_frame [frame]: "out_frame h (notification_handler E n h)"
  by (simp add: notification_handler_def urc_send_frame)

text \<open>Lookups do not see such a change.\<close>

lemma out_frame_lookup:
  assumes f: "out_frame h h'"
  shows "sm_at_ctx_check ctx h' = sm_at_ctx_check ctx h"
    and "sm_at_host_get_ctx_from p h' = sm_at_host_get_ctx_from p h"
    and "get_sm_mode ctx h' = get_sm_mode ctx h"
    and "sm_at_host_get_urc_ctx E h' = sm_at_host_get_urc_ctx E h"
    and "sm_at_host_get_current E h' = sm_at_host_get_current E h"
proof -
  note d = out_frameD [OF f] and c = ctx_frameD [OF out_frameD(10) [OF f]]
  show check: "sm_at_ctx_check ctx h' = sm_at_ctx_check ctx h" for ctx
    by (simp add: sm_at_ctx_check_def d split: option.split)
  show lk: "sm_at_host_get_ctx_from p h' = sm_at_host_get_ctx_from p h" for p
    by (simp add: sm_at_host_get_ctx_from_def d c split: option.split)
  show mode: "get_sm_mode ctx h' = get_sm_mode ctx h" for ctx
    by (simp add: get_sm_mode_def check c split: option.split)
  have cmux: "sm_cmux_is_started h' = sm_cmux_is_started h" "first_instance h' = first_instance h"
    by (simp_all add: sm_cmux_is_started_def first_instance_def d)
  have dlci: "sm_cmux_get_dlci ch h' = sm_cmux_get_dlci ch h" for ch
    by (simp add: sm_cmux_get_dlci_def d)
  show urc: "sm_at_host_get_urc_ctx E h' = sm_at_host_get_urc_ctx E h"
    unfolding sm_at_host_get_urc_ctx_def in_at_mode_ctx_def by (simp only: cmux dlci lk mode d)
  show "sm_at_host_get_current E h' = sm_at_host_get_current E h"
    by (simp add: sm_at_host_get_current_def urc d split: option.split)
qed

section \<open>What output leaves unchanged in the environment\<close>

text \<open>An observation of the world that neither the pipes, nor the heap, nor the work queue change
  is not changed by output either. The data a data mode handler has delivered is one.\<close>

locale world_kept =
  fixes E :: "('rb, 'w) env"
    and obs :: "'w \<Rightarrow> 'a"
  assumes transmit_obs: "e_pipe_transmit E p d w = (n, w') \<Longrightarrow> obs w' = obs w"
    and wait_obs: "e_event_wait_idle E i w = (b, w') \<Longrightarrow> obs w' = obs w"
    and submit_obs: "e_work_submit E w = (n, w') \<Longrightarrow> obs w' = obs w"
    and malloc_obs: "e_malloc E sz w = (b, w') \<Longrightarrow> obs w' = obs w"
begin

lemmas env_obs = transmit_obs wait_obs submit_obs malloc_obs

lemma tx_loop_obs: "obs (h_world (snd (tx_loop E i p fuel r d h))) = obs (h_world h)"
proof (induction fuel arbitrary: r d h)
  case 0
  show ?case by (cases d) auto
next
  case (Suc fuel)
  then show ?case
    by (cases d) (auto split: prod.splits bool.splits dest!: env_obs)
qed

lemma tx_blocking_obs [simp]:
  "obs (h_world (snd (sm_at_host_pipe_tx_blocking E ctx d h))) = obs (h_world h)"
  using tx_loop_obs [of "the ctx" "the (c_pipe (h_ctx h (the ctx)))" "e_fuel E" 5 d h]
  by (auto simp: sm_at_host_pipe_tx_blocking_def split: option.splits prod.splits)

lemma tx_blocking_obsD:
  "sm_at_host_pipe_tx_blocking E ctx d h = (n, h') \<Longrightarrow> obs (h_world h') = obs (h_world h)"
  using tx_blocking_obs [of ctx d h] by simp

lemma send_urcs_loop_obs [simp]: "obs (h_world (send_urcs_loop E i fuel h)) = obs (h_world h)"
proof (induction fuel arbitrary: h)
  case (Suc fuel)
  then show ?case by (auto split: prod.splits dest!: tx_blocking_obsD)
qed simp

lemma flush_loop_obs [simp]: "obs (h_world (flush_loop E i fuel h)) = obs (h_world h)"
  by (induction fuel arbitrary: h) (auto simp: Let_def split: list.splits)

lemma flush_pipe_urcs_obs [simp]: "obs (h_world (flush_pipe_urcs E i h)) = obs (h_world h)"
  by (simp add: flush_pipe_urcs_def send_urcs_def Let_def)

lemma check_idle_timer_world [simp]: "h_world (check_idle_timer E ctx r h) = h_world h"
  by (simp add: check_idle_timer_def Let_def split: option.split)

lemma work_submit_obs [simp]: "obs (h_world (snd (work_submit E wk h))) = obs (h_world h)"
  by (auto simp: work_submit_def split: prod.splits dest: submit_obs)

lemma event_notify_obs [simp]: "obs (h_world (sm_at_host_event_notify E ctx ev h)) = obs (h_world h)"
proof -
  have "obs (h_world h2) = obs (h_world h1)" if "work_submit E HostWork h1 = (n, h2)" for h1 h2 n
    using work_submit_obs [of HostWork h1] that by simp
  then show ?thesis
    by (auto simp: sm_at_host_event_notify_def send_msg_def Let_def split: prod.splits)
qed

lemma sm_at_send_internal_obs [simp]:
  "obs (h_world (snd (sm_at_send_internal E ctx d urc h))) = obs (h_world h)"
proof (cases "e_in_isr E (h_world h) \<or> \<not> urc")
  case True
  then show ?thesis
    by (auto simp: sm_at_send_internal_def split: prod.split dest!: tx_blocking_obsD)
next
  case False
  then show ?thesis
    by (auto simp: sm_at_send_internal_def split: option.splits prod.splits bool.splits
        dest!: malloc_obs)
qed

lemma rsp_send_obs [simp]: "obs (h_world (rsp_send E t h)) = obs (h_world h)"
  by (simp add: rsp_send_def rsp_send_internal_def Let_def)

lemma urc_send_obs [simp]: "obs (h_world (urc_send E t h)) = obs (h_world h)"
  by (simp add: urc_send_def rsp_send_internal_def)

end

section \<open>The contract of a pipe\<close>

lemma tx_loop_only_world:
  "h_urc_buf (snd (tx_loop E i p fuel r d h)) = h_urc_buf h \<and> h_ctx (snd (tx_loop E i p fuel r d h)) = h_ctx h"
proof (induction fuel arbitrary: r d h)
  case 0
  show ?case by (cases d) (simp_all add: fault_def)
next
  case (Suc fuel)
  then show ?case by (cases d) (auto split: prod.split bool.split)
qed

text \<open>An early return of the loop carries an error, unless the fuel ran out.\<close>

lemma tx_loop_err:
  "fst (tx_loop E i p fuel r d h) = Some e \<Longrightarrow> e < 0 \<or> h_fault (snd (tx_loop E i p fuel r d h))"
proof (induction fuel arbitrary: r d h)
  case 0
  then show ?case by (cases d) auto
next
  case (Suc fuel)
  then show ?case
    by (cases d) (auto dest: Suc.IH split: prod.splits bool.splits if_splits)
qed

text \<open>What the host relies on: a transmission takes a prefix of the bytes it is given and returns its
  length (an error may be returned after some bytes were taken), and waiting transmits nothing.
  \<open>sent p w\<close> is what the pipe has accepted so far, \<open>good\<close> an invariant of the environment.\<close>

text \<open>A pipe that takes no byte of the data when its transmission fails.\<close>

definition clean_errors :: "('rb, 'w) env \<Rightarrow> (pipe \<Rightarrow> 'w \<Rightarrow> bytes) \<Rightarrow> pipe \<Rightarrow> bool" where
  "clean_errors E sent p \<longleftrightarrow> (\<forall>d w n w'. e_pipe_transmit E p d w = (n, w') \<and> n < 0 \<longrightarrow> sent p w' = sent p w)"

locale pipe_sink =
  fixes E :: "('rb, 'w) env"
    and sent :: "pipe \<Rightarrow> 'w \<Rightarrow> bytes"
    and good :: "'w \<Rightarrow> bool"
  assumes transmit_good: "good w \<Longrightarrow> e_pipe_transmit E p d w = (n, w') \<Longrightarrow> good w'"
    and wait_good: "good w \<Longrightarrow> e_event_wait_idle E i w = (b, w') \<Longrightarrow> good w'"
    and transmit_sent: "good w \<Longrightarrow> e_pipe_transmit E p d w = (n, w') \<Longrightarrow> d \<noteq> [] \<Longrightarrow>
      \<exists>k \<le> length d. sent p w' = sent p w @ take k d \<and> (0 \<le> n \<longrightarrow> n = int k)"
    and wait_sent: "good w \<Longrightarrow> e_event_wait_idle E i w = (b, w') \<Longrightarrow> sent p w' = sent p w"
begin

text \<open>The loop sends everything, or stops with an error after a prefix.\<close>

lemma tx_loop_sent:
  assumes "good (h_world h)"
  shows "good (h_world (snd (tx_loop E i p fuel r d h))) \<and>
    (\<exists>k \<le> length d. sent p (h_world (snd (tx_loop E i p fuel r d h))) = sent p (h_world h) @ take k d \<and>
     (fst (tx_loop E i p fuel r d h) = None \<longrightarrow> k = length d) \<and>
     (fst (tx_loop E i p fuel r d h) \<noteq> None \<and> clean_errors E sent p \<longrightarrow> k < length d))"
  using assms
proof (induction fuel arbitrary: r d h)
  case 0
  then show ?case by (cases d) (auto intro: exI [of _ 0])
next
  case (Suc fuel)
  show ?case
  proof (cases d)
    case Nil
    then show ?thesis using Suc.prems by simp
  next
    case (Cons b bs)
    obtain n w where tr: "e_pipe_transmit E p d (h_world h) = (n, w)" by fastforce
    have gw: "good w" using transmit_good Suc.prems tr by blast
    obtain k0 where k0: "k0 \<le> length d" "sent p w = sent p (h_world h) @ take k0 d" "0 \<le> n \<longrightarrow> n = int k0"
      using transmit_sent [OF Suc.prems tr] Cons by auto
    obtain ev w' where wt: "e_event_wait_idle E i w = (ev, w')" by fastforce
    have w': "good w'" "sent p w' = sent p w" using wait_good wait_sent gw wt by blast+
    consider (neg) "n < 0" | (zero) "n = 0" | (pos) "0 < n" by linarith
    then show ?thesis
    proof cases
      case neg
      then have "sent p w = sent p (h_world h)" if "clean_errors E sent p" using tr that unfolding clean_errors_def by blast
      then have "clean_errors E sent p \<longrightarrow> k0 = 0" using k0(2) Cons by (cases k0) auto
      then show ?thesis using neg Cons tr k0 gw by (intro conjI exI [of _ k0]) auto
    next
      case zero
      have "sent p w' = sent p (h_world h)" using k0 w' zero by simp
      then show ?thesis
        using Suc.IH [of "h\<lparr>h_world := w'\<rparr>" r d] Suc.IH [of "h\<lparr>h_world := w'\<rparr>" "r - 1" d] Cons tr wt zero w'
        by (cases ev) (auto intro: exI [of _ 0])
    next
      case pos
      let ?d = "drop (nat n) d"
      let ?t = "tx_loop E i p fuel r ?d (h\<lparr>h_world := w\<rparr>)"
      have hw: "h_world (h\<lparr>h_world := w\<rparr>) = w" by simp
      note ih = Suc.IH [of "h\<lparr>h_world := w\<rparr>" r ?d, unfolded hw, OF gw]
      obtain k where k: "k \<le> length ?d \<and> sent p (h_world (snd ?t)) = sent p w @ take k ?d \<and>
          (fst ?t = None \<longrightarrow> k = length ?d) \<and> (fst ?t \<noteq> None \<and> clean_errors E sent p \<longrightarrow> k < length ?d)"
        by (rule exE [OF conjunct2 [OF ih]])
      have step: "tx_loop E i p (Suc fuel) r d h = tx_loop E i p fuel r ?d (h\<lparr>h_world := w\<rparr>)"
        using Cons tr pos by simp
      have "take (nat n) d @ take k ?d = take (nat n + k) d" by (simp add: take_add)
      then show ?thesis unfolding step
        using k conjunct1 [OF ih] k0 pos by (intro conjI exI [of _ "nat n + k"]) auto
    qed
  qed
qed

lemma tx_blocking_sent:
  assumes "sm_at_host_pipe_tx_blocking E (Some i) d h = (ret, h')" and "c_pipe (h_ctx h i) = Some p"
    and "good (h_world h)"
  shows "\<exists>k \<le> length d. sent p (h_world h') = sent p (h_world h) @ take k d \<and>
     (k = length d \<and> ret = int (length d) \<or> ret < 0 \<and> (clean_errors E sent p \<longrightarrow> k < length d) \<or> h_fault h')"
proof -
  obtain e h1 where l: "tx_loop E i p (e_fuel E) 5 d h = (e, h1)" by fastforce
  obtain k where "k \<le> length d" "sent p (h_world h1) = sent p (h_world h) @ take k d"
    "e = None \<longrightarrow> k = length d" "e \<noteq> None \<and> clean_errors E sent p \<longrightarrow> k < length d"
    using tx_loop_sent [OF assms(3), of i p "e_fuel E" 5 d] l by auto
  then show ?thesis
    using assms l tx_loop_err [of E i p "e_fuel E" 5 d h]
    by (intro exI [of _ k]) (auto simp: sm_at_host_pipe_tx_blocking_def split: option.splits)
qed

end

text \<open>A pipe that answers: once it has reported to be idle after refusing data, it accepts some
  of it. Then the loop ends within two rounds per byte and one per timeout.\<close>

locale responsive_pipe = pipe_sink +
  assumes idle_accepts: "good w \<Longrightarrow> e_pipe_transmit E p d w = (0, w1) \<Longrightarrow>
      e_event_wait_idle E i w1 = (True, w2) \<Longrightarrow> d \<noteq> [] \<Longrightarrow> fst (e_pipe_transmit E p d w2) \<noteq> 0"
begin

lemma tx_loop_no_fault:
  assumes "0 < r" and "good (h_world h)"
    and "2 * length d + r \<le> fuel + (if fst (e_pipe_transmit E p d (h_world h)) \<noteq> 0 then 1 else 0)"
  shows "h_fault (snd (tx_loop E i p fuel r d h)) = h_fault h"
  using assms
proof (induction fuel arbitrary: r d h)
  case 0
  then show ?case by (cases d) (auto split: if_splits)
next
  case (Suc fuel)
  show ?case
  proof (cases "d = []")
    case False
    obtain n w where tr: "e_pipe_transmit E p d (h_world h) = (n, w)" by fastforce
    have gw: "good w" and n: "0 \<le> n \<longrightarrow> n \<le> int (length d)"
      using transmit_good [OF Suc.prems(2) tr] transmit_sent [OF Suc.prems(2) tr False] by auto
    obtain ev w' where wt: "e_event_wait_idle E i w = (ev, w')" by fastforce
    have gw': "good w'" by (rule wait_good [OF gw wt])
    consider (neg) "n < 0" | (idle) "n = 0" "ev" | (timeout) "n = 0" "\<not> ev" | (pos) "0 < n" by linarith
    then show ?thesis
    proof cases
      case neg
      then show ?thesis using False tr by (cases d) auto
    next
      case idle
      have "fst (e_pipe_transmit E p d w') \<noteq> 0" using idle_accepts Suc.prems(2) tr wt idle False by auto
      then show ?thesis using False tr wt idle Suc.IH [of r "h\<lparr>h_world := w'\<rparr>" d] Suc.prems gw' by (cases d) auto
    next
      case timeout
      then show ?thesis using False tr wt Suc.IH [of "r - 1" "h\<lparr>h_world := w'\<rparr>" d] Suc.prems gw' by (cases d) auto
    next
      case pos
      have "2 * length (drop (nat n) d) + r \<le> fuel" using pos n Suc.prems tr by auto
      then show ?thesis using False tr pos Suc.IH [of r "h\<lparr>h_world := w\<rparr>" "drop (nat n) d"] Suc.prems gw
        by (cases d) auto
    qed
  qed (cases fuel, auto)
qed

lemma tx_blocking_no_fault:
  "good (h_world h) \<Longrightarrow> 2 * length d + 5 \<le> e_fuel E \<Longrightarrow>
   h_fault (snd (sm_at_host_pipe_tx_blocking E ctx d h)) = h_fault h"
  using tx_loop_no_fault [of 5 h d "e_fuel E" "the (c_pipe (h_ctx h (the ctx)))" "the ctx"]
  by (auto simp: sm_at_host_pipe_tx_blocking_def split: option.splits prod.splits)

end

text \<open>A pipe in order, whose transmission never fails and which becomes idle in time: everything is
  sent.\<close>

locale healthy_pipe = responsive_pipe +
  assumes no_error: "good w \<Longrightarrow> d \<noteq> [] \<Longrightarrow> 0 \<le> fst (e_pipe_transmit E p d w)"
    and idle_in_time: "good w \<Longrightarrow> e_pipe_transmit E p d w = (0, w1) \<Longrightarrow> d \<noteq> [] \<Longrightarrow> fst (e_event_wait_idle E i w1)"
begin

lemma tx_loop_all:
  assumes "good (h_world h)"
    and "2 * length d \<le> fuel + (if fst (e_pipe_transmit E p d (h_world h)) \<noteq> 0 then 1 else 0)"
  shows "fst (tx_loop E i p fuel r d h) = None"
  using assms
proof (induction fuel arbitrary: d h)
  case 0
  then show ?case by (cases d) (auto split: if_splits)
next
  case (Suc fuel)
  show ?case
  proof (cases "d = []")
    case False
    obtain n w where tr: "e_pipe_transmit E p d (h_world h) = (n, w)" by fastforce
    have gw: "good w" and n: "0 \<le> n" "n \<le> int (length d)"
      using transmit_good [OF Suc.prems(1) tr] transmit_sent [OF Suc.prems(1) tr False]
        no_error [OF Suc.prems(1) False, of p] tr by auto
    obtain ev w' where wt: "e_event_wait_idle E i w = (ev, w')" by fastforce
    have gw': "good w'" by (rule wait_good [OF gw wt])
    show ?thesis
    proof (cases "n = 0")
      case True
      then have ev: "ev" using idle_in_time [OF Suc.prems(1)] tr False wt by (metis fst_conv)
      have "fst (e_pipe_transmit E p d w') \<noteq> 0" using idle_accepts Suc.prems(1) tr wt True ev False by auto
      then show ?thesis using False tr wt True ev Suc.IH [of "h\<lparr>h_world := w'\<rparr>" d] Suc.prems gw'
        by (cases d) auto
    next
      case pos: False
      have "2 * length (drop (nat n) d) \<le> fuel" using pos n Suc.prems tr by auto
      then show ?thesis using False tr pos n Suc.IH [of "h\<lparr>h_world := w\<rparr>" "drop (nat n) d"] gw
        by (cases d) auto
    qed
  qed (cases fuel, auto)
qed

lemma tx_blocking_all:
  assumes "c_pipe (h_ctx h i) = Some p" and "2 * length d + 5 \<le> e_fuel E" and "good (h_world h)"
  obtains h' where "sm_at_host_pipe_tx_blocking E (Some i) d h = (int (length d), h')"
    "sent p (h_world h') = sent p (h_world h) @ d" "h_fault h' = h_fault h" "good (h_world h')"
    "h_urc_buf h' = h_urc_buf h" "h_ctx h' = h_ctx h"
proof -
  obtain e h' where t: "tx_loop E i p (e_fuel E) 5 d h = (e, h')" by fastforce
  have e: "e = None" using tx_loop_all [OF assms(3), of d "e_fuel E" p i 5] assms(2) t by simp
  have "h_fault h' = h_fault h" using tx_loop_no_fault [OF _ assms(3), of 5 d "e_fuel E" p i] assms(2) t by simp
  moreover have "sent p (h_world h') = sent p (h_world h) @ d" "good (h_world h')"
    using tx_loop_sent [OF assms(3), of i p "e_fuel E" 5 d] t e by auto
  moreover have "h_urc_buf h' = h_urc_buf h" "h_ctx h' = h_ctx h"
    using tx_loop_only_world [of E i p "e_fuel E" 5 d h] t by simp_all
  ultimately show ?thesis using that assms(1) t e by (simp add: sm_at_host_pipe_tx_blocking_def)
qed

end

text \<open>Flushing URCs on such a pipe.\<close>

locale urc_output = healthy_pipe E sent good + ring_buffer "e_rb E" claimed avail ok
  for E :: "('rb, 'w) env" and sent good claimed avail ok
begin

lemma send_urcs_loop_all:
  assumes "ok (h_urc_buf h)" and "claimed (h_urc_buf h) = []" and "c_pipe (h_ctx h i) = Some p"
    and "2 * length (avail (h_urc_buf h)) + 5 \<le> e_fuel E" and "length (avail (h_urc_buf h)) \<le> fuel"
    and "good (h_world h)"
  defines "h' \<equiv> send_urcs_loop E i fuel h"
  shows "ok (h_urc_buf h') \<and> claimed (h_urc_buf h') = [] \<and> avail (h_urc_buf h') = [] \<and> h_fault h' = h_fault h \<and>
    h_ctx h' = h_ctx h \<and> good (h_world h') \<and> sent p (h_world h') = sent p (h_world h) @ avail (h_urc_buf h)"
  unfolding h'_def using assms(1-6)
proof (induction fuel arbitrary: h)
  case 0
  then show ?case using is_empty by simp
next
  case (Suc fuel)
  let ?b = "h_urc_buf h"
  show ?case
  proof (cases "avail ?b = []")
    case True
    then show ?thesis using Suc.prems is_empty by simp
  next
    case False
    obtain d rb where cl: "rb_get_claim (e_rb E) 65535 ?b = (d, rb)" by fastforce
    have d: "d \<noteq> []" using claim_progress [OF Suc.prems(1) False, of 65535] cl by simp
    have split: "avail ?b = d @ avail rb" using claim_content [OF Suc.prems(1), of 65535] cl by simp
    have "2 * length d + 5 \<le> e_fuel E" using split Suc.prems(4) by simp
    then obtain h1 where tx: "sm_at_host_pipe_tx_blocking E (Some i) d (h\<lparr>h_urc_buf := rb\<rparr>) = (int (length d), h1)"
      "sent p (h_world h1) = sent p (h_world h) @ d" "h_fault h1 = h_fault h" "h_urc_buf h1 = rb" "h_ctx h1 = h_ctx h"
      "good (h_world h1)"
      using tx_blocking_all [of "h\<lparr>h_urc_buf := rb\<rparr>" i p d] Suc.prems(3,6) by auto
    let ?b2 = "snd (rb_get_finish (e_rb E) (length d) rb)"
    have b2: "ok ?b2" "claimed ?b2 = []" "avail ?b2 = avail rb"
      using claim_finish [OF Suc.prems(1,2), of "length d" 65535] cl split by simp_all
    have "length (avail rb) \<le> fuel" using split d Suc.prems(5) by (cases d) auto
    then have "ok (h_urc_buf (send_urcs_loop E i fuel (h1\<lparr>h_urc_buf := ?b2\<rparr>))) \<and>
        claimed (h_urc_buf (send_urcs_loop E i fuel (h1\<lparr>h_urc_buf := ?b2\<rparr>))) = [] \<and>
        avail (h_urc_buf (send_urcs_loop E i fuel (h1\<lparr>h_urc_buf := ?b2\<rparr>))) = [] \<and>
        h_fault (send_urcs_loop E i fuel (h1\<lparr>h_urc_buf := ?b2\<rparr>)) = h_fault h \<and>
        h_ctx (send_urcs_loop E i fuel (h1\<lparr>h_urc_buf := ?b2\<rparr>)) = h_ctx h \<and>
        good (h_world (send_urcs_loop E i fuel (h1\<lparr>h_urc_buf := ?b2\<rparr>))) \<and>
        sent p (h_world (send_urcs_loop E i fuel (h1\<lparr>h_urc_buf := ?b2\<rparr>))) = sent p (h_world h1) @ avail rb"
      using Suc.IH [of "h1\<lparr>h_urc_buf := ?b2\<rparr>"] b2 tx Suc.prems(3,4) split by simp
    moreover have "send_urcs_loop E i (Suc fuel) h = send_urcs_loop E i fuel (h1\<lparr>h_urc_buf := ?b2\<rparr>)"
      using cl tx False Suc.prems(1,2) is_empty by simp
    ultimately show ?thesis using split tx(2) by simp
  qed
qed

lemma flush_loop_all:
  assumes "c_pipe (h_ctx h i) = Some p" and "length (c_buffered_urcs (h_ctx h i)) \<le> fuel"
    and "\<forall>u \<in> set (c_buffered_urcs (h_ctx h i)). 2 * length u + 5 \<le> e_fuel E" and "good (h_world h)"
  defines "h' \<equiv> flush_loop E i fuel h"
  shows "c_buffered_urcs (h_ctx h' i) = [] \<and> h_fault h' = h_fault h \<and> h_urc_buf h' = h_urc_buf h \<and>
    sent p (h_world h') = sent p (h_world h) @ concat (c_buffered_urcs (h_ctx h i))"
  unfolding h'_def using assms(1-4)
proof (induction fuel arbitrary: h)
  case (Suc fuel)
  show ?case
  proof (cases "c_buffered_urcs (h_ctx h i)")
    case (Cons u us)
    let ?h = "upd_ctx i (\<lambda>c. c\<lparr>c_buffered_urcs := us\<rparr>) h"
    obtain h1 where tx: "sm_at_host_pipe_tx_blocking E (Some i) u ?h = (int (length u), h1)"
      "sent p (h_world h1) = sent p (h_world h) @ u" "h_fault h1 = h_fault h" "h_urc_buf h1 = h_urc_buf h"
      "h_ctx h1 = h_ctx ?h" "good (h_world h1)"
      using tx_blocking_all [of ?h i p u] Suc.prems Cons by auto
    then show ?thesis using Suc.IH [of h1] Suc.prems Cons by simp
  qed simp
qed simp

end

section \<open>Properties\<close>


text \<open>Flushing the context that receives the URCs sends, in this order, the buffered global URCs
  and the URCs queued for this context, each completely and none twice; both queues are empty
  afterwards, and the fuel of the loops is enough.\<close>

lemma flush_pipe_urcs_in_order:
  assumes "urc_output E sent good cl av ok" and "c_pipe (h_ctx h i) = Some p" and "sm_at_host_get_urc_ctx E h = Some i"
    and "ok (h_urc_buf h)" and "cl (h_urc_buf h) = []" and "2 * length (av (h_urc_buf h)) + 5 \<le> e_fuel E"
    and "\<forall>u \<in> set (c_buffered_urcs (h_ctx h i)). 2 * length u + 5 \<le> e_fuel E" and "good (h_world h)"
  defines "h' \<equiv> flush_pipe_urcs E i h"
  shows "sent p (h_world h') =
      sent p (h_world h) @ av (h_urc_buf h) @ concat (c_buffered_urcs (h_ctx h i)) \<and>
    av (h_urc_buf h') = [] \<and> c_buffered_urcs (h_ctx h' i) = [] \<and> h_fault h' = h_fault h"
proof -
  have rb: "ring_buffer (e_rb E) cl av ok" using assms(1) by (simp add: urc_output_def)
  let ?h1 = "send_urcs_loop E i (length (av (h_urc_buf h))) h"
  have size: "rb_size_get (e_rb E) (h_urc_buf h) = length (av (h_urc_buf h))"
    by (rule ring_buffer.size_get [OF rb assms(4,5)])
  have h1: "send_urcs E (Some i) h = ?h1" using assms(3) size by (simp add: send_urcs_def)
  note u = urc_output.send_urcs_loop_all [OF assms(1,4,5,2,6) order_refl assms(8)]
  have h': "h' = flush_loop E i (length (c_buffered_urcs (h_ctx ?h1 i))) ?h1"
    unfolding h'_def flush_pipe_urcs_def Let_def h1 ..
  have p1: "c_pipe (h_ctx ?h1 i) = Some p" "good (h_world ?h1)"
    "\<forall>u \<in> set (c_buffered_urcs (h_ctx ?h1 i)). 2 * length u + 5 \<le> e_fuel E"
    using u assms(2,7) by simp_all
  from urc_output.flush_loop_all [OF assms(1) p1(1) order_refl p1(3,2)] u
  show ?thesis unfolding h' by simp
qed

text \<open>A URC is never transmitted by the code that raises it. It is appended to the global buffer,
  behind the URCs raised before, or, when the buffer has no room for it, the whole buffer is
  dropped and the error is reported.\<close>

lemma urc_send_buffers:
  assumes "ring_buffer (e_rb E) cl av ok" and "ok (h_urc_buf h)" and "\<not> e_in_isr E (h_world h)"
    and "sm_at_host_get_urc_ctx E h = Some i" and "length t < SM_AT_MAX_RSP_LEN"
    and "fst (sm_at_send_internal E None t True h) = ret"
  shows "(if length (cl (h_urc_buf h)) + length (av (h_urc_buf h)) + length t \<le> rb_capacity_get (e_rb E) (h_urc_buf h)
      then av (h_urc_buf (urc_send E t h)) = av (h_urc_buf h) @ t \<and> ret = 0
      else av (h_urc_buf (urc_send E t h)) = [] \<and> ret = - EIO) \<and>
    (\<exists>b. urc_send E t h = check_idle_timer E (Some i) False (h\<lparr>h_urc_buf := b\<rparr>) \<or>
      urc_send E t h = sm_at_host_event_notify E (Some i) SM_EVENT_URC (h\<lparr>h_urc_buf := b\<rparr>) \<or>
      urc_send E t h = h\<lparr>h_urc_buf := b\<rparr>)"
proof -
  obtain n rb where put: "rb_put (e_rb E) t (h_urc_buf h) = (n, rb)" by fastforce
  have q: "h_urc_buf (check_idle_timer E ctx r h1) = h_urc_buf h1" for ctx r h1
    by (simp add: check_idle_timer_def Let_def split: option.split)
  have w: "h_urc_buf (snd (work_submit E wk h1)) = h_urc_buf h1" for wk h1
    by (simp add: work_submit_def case_prod_unfold)
  have e: "h_urc_buf (sm_at_host_event_notify E ctx ev h1) = h_urc_buf h1" for ctx ev h1
    unfolding sm_at_host_event_notify_def send_msg_def Let_def by (simp add: case_prod_unfold q w)
  have okb: "ok rb" "ok (rb_reset (e_rb E) rb)" "av (rb_reset (e_rb E) rb) = []"
    using ring_buffer.put_ok [OF assms(1,2), of t] ring_buffer.reset_ok [OF assms(1)]
      ring_buffer.reset_content [OF assms(1)] put by auto
  have n: "n = min (length t) (rb_capacity_get (e_rb E) (h_urc_buf h) - length (cl (h_urc_buf h)) - length (av (h_urc_buf h)))"
    "av rb = av (h_urc_buf h) @ take n t"
    using ring_buffer.put_count [OF assms(1,2), of t] ring_buffer.put_content [OF assms(1,2), of t] put by auto
  have us: "urc_send E t h = (if n < length t then h\<lparr>h_urc_buf := rb_reset (e_rb E) rb\<rparr>
      else if \<not> is_idle_ctx (Some i) (h\<lparr>h_urc_buf := rb\<rparr>) then check_idle_timer E (Some i) False (h\<lparr>h_urc_buf := rb\<rparr>)
      else sm_at_host_event_notify E (Some i) SM_EVENT_URC (h\<lparr>h_urc_buf := rb\<rparr>))"
    "ret = (if n < length t then - EIO else 0)"
    using assms(3-6) put by (auto simp: urc_send_def rsp_send_internal_def sm_at_send_internal_def)
  show ?thesis unfolding us using n okb ring_buffer.capacity_bound [OF assms(1,2)] by (auto simp: q e)
qed

end
