(* ===== verification/At_Host_Data.thy ===== *)
theory At_Host_Data
  imports At_Host_Tx
begin

text \<open>
  Data mode of the AT host (\<open>app/src/sm_at_host.c\<close>): entering and leaving it, the ring buffer
  between the pipe and the data mode handler, the search for the terminator string, and the
  null mode that discards input after a handler failed.
\<close>

definition get_min_data_mode_idle_timeout_ms ::
  "('rb, 'w) env \<Rightarrow> ('rb, 'w) host \<Rightarrow> 16 word" where
  "get_min_data_mode_idle_timeout_ms E h =
     (if h_uart_baudrate h = 0 then 1000
      else word_of_nat ((cfg_uart_rx_buf_size E * (8 + 1 + 1) * 1000) mod 2 ^ 32 div h_uart_baudrate h)
           + 10)"

definition enter_datamode ::
  "('rb, 'w) env \<Rightarrow> nat option \<Rightarrow> nat \<Rightarrow> ('rb, 'w) host \<Rightarrow> int \<times> ('rb, 'w) host" where
  "enter_datamode E handler data_len h =
     (case (handler, sm_at_host_get_current E h) of
        (None, _) \<Rightarrow> (- EINVAL, h)
      | (Some _, None) \<Rightarrow> (- EINVAL, fault h)
      | (Some _, Some i) \<Rightarrow>
          (if dm_handler (c_data_mode (h_ctx h i)) \<noteq> None then (- EINVAL, h)
           else case set_sm_mode E (Some i) SM_DATA_MODE h of
             (False, h) \<Rightarrow> (- EINVAL, h)
           | (True, h) \<Rightarrow>
               (0, upd_ctx i (\<lambda>c. upd_dm (\<lambda>d. d\<lparr>dm_handler := handler, dm_data_len := data_len,
                       dm_time_limit := (if dm_time_limit d = 0
                         then get_min_data_mode_idle_timeout_ms E h else dm_time_limit d)\<rparr>)
                     (c\<lparr>c_data_rb := rb_reset (e_rb E) (c_data_rb c)\<rparr>)) h)))"

definition exit_datamode ::
  "('rb, 'w) env \<Rightarrow> ctx_id option \<Rightarrow> ('rb, 'w) host \<Rightarrow> bool \<times> ('rb, 'w) host" where
  "exit_datamode E ctx h =
     (case ctx of
        None \<Rightarrow> (False, h)
      | Some i \<Rightarrow>
          (case set_sm_mode E ctx SM_AT_COMMAND_MODE h of
             (False, h) \<Rightarrow> (False, h)
           | (True, h) \<Rightarrow>
               (let h = (case dm_handler (c_data_mode (h_ctx h i)) of
                           Some cb \<Rightarrow>
                             snd (e_datamode_handler E cb DATAMODE_EXIT [] SM_DATAMODE_FLAGS_NONE h)
                         | None \<Rightarrow> h);
                    h = upd_ctx i (\<lambda>c. upd_dm (\<lambda>d. d\<lparr>dm_handler := None, dm_data_len := 0\<rparr>)
                          (c\<lparr>c_quit_str_match := 0, c_data_rb := rb_reset (e_rb E) (c_data_rb c)\<rparr>)) h;
                    h = (if dm_handler_result (c_data_mode (h_ctx h i)) \<noteq> 0
                         then upd_ctx i (upd_dm (\<lambda>d. d\<lparr>dm_handler_result := -1\<rparr>)) h else h);
                    h = rsp_send E (CRLF_STR @ ''#XDATAMODE: '' @
                          show_int (dm_handler_result (c_data_mode (h_ctx h i))) @ CRLF_STR) h;
                    h = upd_ctx i (upd_dm (\<lambda>d. d\<lparr>dm_handler_result := 0\<rparr>)) h
                in (True, sm_at_host_event_notify E ctx SM_EVENT_AT_MODE h))))"

definition exit_datamode_handler ::
  "('rb, 'w) env \<Rightarrow> ctx_id option \<Rightarrow> int \<Rightarrow> ('rb, 'w) host \<Rightarrow> ('rb, 'w) host" where
  "exit_datamode_handler E ctx result h =
     (case ctx of
        None \<Rightarrow> h
      | Some i \<Rightarrow>
          (case set_sm_mode E ctx SM_NULL_MODE h of
             (False, h) \<Rightarrow> h
           | (True, h) \<Rightarrow>
               (let h = sm_at_host_set_current_ctx ctx h;
                    h = (case dm_handler (c_data_mode (h_ctx h i)) of
                           Some cb \<Rightarrow>
                             snd (e_datamode_handler E cb DATAMODE_EXIT [] SM_DATAMODE_FLAGS_EXIT_HANDLER h)
                         | None \<Rightarrow> h);
                    h = upd_ctx i (upd_dm (\<lambda>d. d\<lparr>dm_handler := None, dm_handler_result := result,
                          dm_data_len := 0\<rparr>)) h
                in sm_at_host_set_current_ctx None h)))"

section \<open>The ring buffer of data mode\<close>

text \<open>The loop of \<open>raw_send\<close>. Its fuel is twice the number of buffered bytes and one more round:
  a round removes at least a byte, or is a retry after which the next round does.\<close>

fun raw_send_loop ::
  "('rb, 'w) env \<Rightarrow> ctx_id \<Rightarrow> 8 word \<Rightarrow> nat \<Rightarrow> bool \<Rightarrow> ('rb, 'w) host \<Rightarrow> ('rb, 'w) host" where
  "raw_send_loop E i flags 0 retry h = fault h"
| "raw_send_loop E i flags (Suc fuel) retry h =
     (let size = rb_size_get (e_rb E) (c_data_rb (h_ctx h i))
      in case rb_get_claim (e_rb E) (cfg_datamode_buf_size E) (c_data_rb (h_ctx h i)) of
        (data, rb) \<Rightarrow>
          (let claim = length data; h = upd_ctx i (\<lambda>c. c\<lparr>c_data_rb := rb\<rparr>) h
           in if claim = 0 then h
              else let send_flags = (if claim \<noteq> size then flags OR SM_DATAMODE_FLAGS_MORE_DATA else flags)
              in case dm_handler (c_data_mode (h_ctx h i)) of
                   Some cb \<Rightarrow>
                     (case e_datamode_handler E cb DATAMODE_SEND data send_flags h of
                        (ret, h) \<Rightarrow>
                          (let (ret, retry, h) =
                             (if ret < 0 \<or> (ret = 0 \<and> \<not> retry) then
                                (int claim, retry,
                                 exit_datamode_handler E (Some i) (if ret \<noteq> 0 then ret else - EAGAIN) h)
                              else if ret = 0 \<and> retry then (ret, False, h)
                              else (ret, True, h));
                             h = upd_ctx i (\<lambda>c. c\<lparr>c_data_rb :=
                                   snd (rb_get_finish (e_rb E) (nat ret) (c_data_rb c))\<rparr>) h
                           in raw_send_loop E i flags fuel retry h))
                 | None \<Rightarrow>
                     raw_send_loop E i flags fuel retry
                       (upd_ctx i (\<lambda>c. c\<lparr>c_data_rb :=
                          snd (rb_get_finish (e_rb E) claim (c_data_rb c))\<rparr>) h)))"

definition raw_send :: "('rb, 'w) env \<Rightarrow> 8 word \<Rightarrow> ('rb, 'w) host \<Rightarrow> ('rb, 'w) host" where
  "raw_send E flags h =
     (case sm_at_host_get_current E h of
        None \<Rightarrow> fault h
      | Some i \<Rightarrow>
          raw_send_loop E i flags (2 * rb_size_get (e_rb E) (c_data_rb (h_ctx h i)) + 1) True h)"

text \<open>\<open>write_data_buf\<close>: the rest of the buffer that is still to be stored. A full ring buffer is
  sent first; after that the next round stores a byte, so two rounds per byte are enough.\<close>

fun write_loop ::
  "('rb, 'w) env \<Rightarrow> ctx_id \<Rightarrow> nat \<Rightarrow> bytes \<Rightarrow> ('rb, 'w) host \<Rightarrow> ('rb, 'w) host" where
  "write_loop E i fuel [] h = h"
| "write_loop E i 0 (b # bs) h = fault h"
| "write_loop E i (Suc fuel) (b # bs) h =
     (case rb_put (e_rb E) (b # bs) (c_data_rb (h_ctx h i)) of
        (ret, rb) \<Rightarrow>
          (let h = upd_ctx i (\<lambda>c. c\<lparr>c_data_rb := rb\<rparr>) h
           in if ret \<noteq> 0 then write_loop E i fuel (drop ret (b # bs)) h
              else write_loop E i fuel (b # bs) (raw_send E SM_DATAMODE_FLAGS_MORE_DATA h)))"

definition write_data_buf :: "('rb, 'w) env \<Rightarrow> bytes \<Rightarrow> ('rb, 'w) host \<Rightarrow> ('rb, 'w) host" where
  "write_data_buf E buf h =
     (case sm_at_host_get_current E h of
        None \<Rightarrow> fault h
      | Some i \<Rightarrow>
          (let h = (if rb_is_empty (e_rb E) (c_data_rb (h_ctx h i))
                    then upd_ctx i (\<lambda>c. c\<lparr>c_data_rb := rb_reset (e_rb E) (c_data_rb c)\<rparr>) h
                    else h)
           in write_loop E i (2 * length buf) buf h))"

definition raw_send_scheduled :: "('rb, 'w) env \<Rightarrow> ctx_id \<Rightarrow> ('rb, 'w) host \<Rightarrow> ('rb, 'w) host" where
  "raw_send_scheduled E i h =
     (let h = sm_at_host_set_current_ctx (Some i) h;
          h = (if c_quit_str_match (h_ctx h i) > 0
               then upd_ctx i (\<lambda>c. c\<lparr>c_quit_str_match := 0\<rparr>)
                      (write_data_buf E (take (c_quit_str_match (h_ctx h i)) (cfg_datamode_terminator E)) h)
               else h);
          h = raw_send E SM_DATAMODE_FLAGS_NONE h
      in sm_at_host_set_current_ctx None h)"

definition inactivity_timer_handler :: "('rb, 'w) env \<Rightarrow> ctx_id \<Rightarrow> ('rb, 'w) host \<Rightarrow> ('rb, 'w) host" where
  "inactivity_timer_handler E i h =
     (if \<not> rb_is_empty (e_rb E) (c_data_rb (h_ctx h i))
      then snd (work_submit E (RawSendWork i) h) else h)"

section \<open>Reception in data mode\<close>

text \<open>The match of the terminator. The jump back to \<open>retry_match\<close> is taken only with a non-empty
  partial match, which it clears, so two passes are enough.\<close>

fun raw_match ::
  "('rb, 'w) env \<Rightarrow> nat \<Rightarrow> ctx_id \<Rightarrow> char \<Rightarrow> ('rb, 'w) host \<Rightarrow> ('rb, 'w) host" where
  "raw_match E 0 i c h = fault h"
| "raw_match E (Suc passes) i c h =
     (let quit_str = cfg_datamode_terminator E; m = c_quit_str_match (h_ctx h i)
      in if c = cstr_nth quit_str m then
           (let h = upd_ctx i (\<lambda>x. x\<lparr>c_quit_str_match := (m + 1) mod 256\<rparr>) h
            in if (m + 1) mod 256 = length quit_str
               then upd_ctx i (\<lambda>x. x\<lparr>c_quit_str_match := 0\<rparr>)
                      (snd (exit_datamode E (Some i) (raw_send E SM_DATAMODE_FLAGS_NONE h)))
               else h)
         else if m > 0 then
           raw_match E passes i c
             (upd_ctx i (\<lambda>x. x\<lparr>c_quit_str_match := 0\<rparr>) (write_data_buf E (take m quit_str) h))
         else write_data_buf E [c] h)"

definition raw_rx_handler ::
  "('rb, 'w) env \<Rightarrow> ctx_id \<Rightarrow> char \<Rightarrow> ('rb, 'w) host \<Rightarrow> ('rb, 'w) host" where
  "raw_rx_handler E i c h =
     (if dm_data_len (c_data_mode (h_ctx h i)) > 0 then
        (let h = write_data_buf E [c] h;
             h = upd_ctx i (upd_dm (\<lambda>d. d\<lparr>dm_data_len := (dm_data_len d + (SIZE_MOD - 1)) mod SIZE_MOD\<rparr>)) h
         in if dm_data_len (c_data_mode (h_ctx h i)) = 0
            then snd (exit_datamode E (Some i) (raw_send E SM_DATAMODE_FLAGS_NONE h))
            else h)
      else raw_match E 2 i c h)"

section \<open>Null mode\<close>

definition null_handler ::
  "('rb, 'w) env \<Rightarrow> ctx_id \<Rightarrow> char \<Rightarrow> ('rb, 'w) host \<Rightarrow> ('rb, 'w) host" where
  "null_handler E i c h =
     (let quit_str = cfg_datamode_terminator E;
          hit = (c = cstr_nth quit_str (c_null_match_count (h_ctx h i)));
          count = (if hit then (c_null_match_count (h_ctx h i) + 1) mod 256 else 0);
          match = (hit \<and> count = length quit_str);
          h = upd_ctx i (\<lambda>x. x\<lparr>c_null_match_count := count,
                c_null_dropped_count := (c_null_dropped_count x + 1) mod SIZE_MOD\<rparr>) h
      in if match then
           (let h = upd_ctx i (\<lambda>x. x\<lparr>c_null_dropped_count :=
                      (c_null_dropped_count x + (SIZE_MOD - length quit_str)
                       + rb_size_get (e_rb E) (c_data_rb x)) mod SIZE_MOD\<rparr>) h;
                h = snd (exit_datamode E (Some i) h)
            in upd_ctx i (\<lambda>x. x\<lparr>c_null_match_count := 0, c_null_dropped_count := 0\<rparr>) h)
         else h)"

section \<open>The terminator, as an automaton\<close>

text \<open>What data mode does with its input when the handler accepts everything: the bytes that
  belong to the stream so far and the length of the partial match at its end, until the
  terminator stops it.\<close>

datatype scan = Scanning nat bytes | Stopped bytes

fun scan_step :: "string \<Rightarrow> scan \<Rightarrow> char \<Rightarrow> scan" where
  "scan_step quit (Stopped out) c = Stopped out"
| "scan_step quit (Scanning m out) c =
     (if c = quit ! m then (if m + 1 = length quit then Stopped out else Scanning (m + 1) out)
      else if 0 < m \<and> c = quit ! 0 then Scanning 1 (out @ take m quit)
      else Scanning 0 (out @ take m quit @ [c]))"

lemma scan_stopped [simp]: "foldl (scan_step quit) (Stopped out) cs = Stopped out"
  by (induction cs) simp_all

text \<open>A terminator that repeats one character, such as the default of three plus signs, is found
  at its first occurrence, and everything before it is in the stream.\<close>

lemma strstr_pos_skip:
  "c \<noteq> q \<Longrightarrow> 0 < n \<Longrightarrow> m < n \<Longrightarrow>
   strstr_pos (replicate m q @ c # cs) (replicate n q) =
   map_option (\<lambda>k. m + Suc k) (strstr_pos cs (replicate n q))"
proof (induction m)
  case 0
  then show ?case by (cases n) (auto simp: option.map_comp comp_def)
next
  case (Suc m)
  have "\<not> prefix (replicate n q) (replicate (Suc m) q @ c # cs)"
  proof
    assume "prefix (replicate n q) (replicate (Suc m) q @ c # cs)"
    then obtain zs where "replicate (Suc m) q @ c # cs = replicate n q @ zs" by (elim prefixE)
    from arg_cong [OF this, of "\<lambda>l. l ! Suc m"] have "c = q" using Suc.prems by (simp add: nth_append)
    then show False using Suc.prems by simp
  qed
  then show ?case using Suc by (simp add: option.map_comp comp_def)
qed

lemma scan_found:
  assumes "m < n" and "strstr_pos (replicate m q @ cs) (replicate n q) = Some k"
  shows "foldl (scan_step (replicate n q)) (Scanning m out) cs = Stopped (out @ take k (replicate m q @ cs))"
  using assms
proof (induction cs arbitrary: m out k)
  case Nil
  then show ?case using strstr_pos_Some [of "replicate m q" "replicate n q" k] by simp
next
  case (Cons c cs)
  show ?case
  proof (cases "c = q")
    case True
    have eq: "replicate (Suc m) q @ cs = replicate m q @ c # cs" using True by (simp add: replicate_app_Cons_same)
    have hit: "strstr_pos (replicate m q @ c # cs) (replicate (Suc m) q) = Some 0"
      unfolding eq [symmetric] by simp
    show ?thesis
    proof (cases "Suc m = n")
      case last: True
      then have "k = 0" using Cons.prems hit by auto
      then show ?thesis using last True by simp
    next
      case False
      then show ?thesis using Cons.IH [of "Suc m" k out, unfolded eq] Cons.prems True by simp
    qed
  next
    case False
    then obtain k' where k': "strstr_pos cs (replicate n q) = Some k'" "k = m + Suc k'"
      using Cons.prems strstr_pos_skip [of c q n m cs] by auto
    then show ?thesis using Cons.IH [of 0 k' "out @ replicate m q @ [c]"] Cons.prems False by simp
  qed
qed

lemma scan_not_found:
  assumes "m < n" and "strstr_pos (replicate m q @ cs) (replicate n q) = None"
  shows "\<exists>m' out'. foldl (scan_step (replicate n q)) (Scanning m out) cs = Scanning m' out' \<and>
    m' < n \<and> out' @ replicate m' q = out @ replicate m q @ cs"
  using assms
proof (induction cs arbitrary: m out)
  case (Cons c cs)
  show ?case
  proof (cases "c = q")
    case True
    have eq: "replicate (Suc m) q @ cs = replicate m q @ c # cs" using True by (simp add: replicate_app_Cons_same)
    have hit: "strstr_pos (replicate m q @ c # cs) (replicate (Suc m) q) = Some 0"
      unfolding eq [symmetric] by simp
    have "Suc m \<noteq> n" using Cons.prems hit by auto
    then show ?thesis using Cons.IH [of "Suc m" out, unfolded eq] Cons.prems True by simp
  next
    case False
    then have "strstr_pos cs (replicate n q) = None" using Cons.prems strstr_pos_skip [of c q n m cs] by auto
    then show ?thesis using Cons.IH [of 0 "out @ replicate m q @ [c]"] Cons.prems False by simp
  qed
qed simp

section \<open>Frames of data mode\<close>

text \<open>What delivering buffered data changes: besides what output changes, the ring buffer of the
  context; and when the handler fails the context is in null mode, without a handler, and there
  is no current context any more.\<close>

definition data_same :: "ctx_id \<Rightarrow> ('rb, 'w) host \<Rightarrow> ('rb, 'w) host \<Rightarrow> bool" where
  "data_same i h h' \<longleftrightarrow>
     c_at_mode (h_ctx h' i) = c_at_mode (h_ctx h i) \<and>
     c_data_mode (h_ctx h' i) = c_data_mode (h_ctx h i) \<and> h_current h' = h_current h"

definition data_failed :: "ctx_id \<Rightarrow> ('rb, 'w) host \<Rightarrow> ('rb, 'w) host \<Rightarrow> bool" where
  "data_failed i h h' \<longleftrightarrow>
     c_at_mode (h_ctx h i) \<in> {SM_DATA_MODE, SM_NULL_MODE} \<and> c_at_mode (h_ctx h' i) = SM_NULL_MODE \<and>
     dm_handler (c_data_mode (h_ctx h' i)) = None \<and> dm_data_len (c_data_mode (h_ctx h' i)) = 0 \<and>
     h_current h' = None"

text \<open>Of another context, also the poll context of the sockets may change: a handler may share it.\<close>

definition dctx_frame :: "'rb sm_at_host_ctx \<Rightarrow> 'rb sm_at_host_ctx \<Rightarrow> bool" where
  "dctx_frame c c' \<longleftrightarrow> (\<exists>p. ctx_frame (c\<lparr>c_poll_ctx := p\<rparr>) c')"

lemma dctx_frame_ctx: "ctx_frame c c' \<Longrightarrow> dctx_frame c c'"
  unfolding dctx_frame_def by (rule exI [of _ "c_poll_ctx c"]) simp

lemma dctx_frame_refl [simp]: "dctx_frame c c"
  by (rule dctx_frame_ctx) simp

lemma dctx_frame_poll [simp]: "dctx_frame c (c\<lparr>c_poll_ctx := p\<rparr>)"
  unfolding dctx_frame_def by (rule exI [of _ p]) simp

lemma dctx_frame_trans: "dctx_frame a b \<Longrightarrow> dctx_frame b c \<Longrightarrow> dctx_frame a c"
  unfolding dctx_frame_def ctx_frame_def by (elim exE) (simp, blast)

lemma dctx_frameD:
  assumes "dctx_frame c c'"
  shows "c_pipe c' = c_pipe c" "c_at_mode c' = c_at_mode c" "c_data_mode c' = c_data_mode c"
    "c_data_rb c' = c_data_rb c" "c_quit_str_match c' = c_quit_str_match c"
  using assms by (auto simp: dctx_frame_def ctx_frame_def)

definition data_frame :: "ctx_id \<Rightarrow> ('rb, 'w) host \<Rightarrow> ('rb, 'w) host \<Rightarrow> bool" where
  "data_frame i h h' \<longleftrightarrow>
     h_instances h' = h_instances h \<and> h_urc_channel h' = h_urc_channel h \<and>
     h_cmux_uart_pipe h' = h_cmux_uart_pipe h \<and> h_cmux_dlcis h' = h_cmux_dlcis h \<and>
     (\<forall>j. j \<noteq> i \<longrightarrow> dctx_frame (h_ctx h j) (h_ctx h' j)) \<and>
     c_pipe (h_ctx h' i) = c_pipe (h_ctx h i) \<and>
     c_quit_str_match (h_ctx h' i) = c_quit_str_match (h_ctx h i) \<and>
     (data_same i h h' \<or> data_failed i h h')"

lemma data_frame_trans [trans]:
  assumes "data_frame i a b" and "data_frame i b c"
  shows "data_frame i a c"
  using assms unfolding data_frame_def data_same_def data_failed_def
  by (auto intro: dctx_frame_trans)

lemma data_frame_out: "out_frame h h' \<Longrightarrow> data_frame i h h'"
  using ctx_frameD [OF out_frameD(10) [of h h' i]] out_frameD [of h h']
  by (auto simp: data_frame_def data_same_def intro: dctx_frame_ctx)

lemma data_frame_refl [simp]: "data_frame i h h"
  by (rule data_frame_out) simp

lemma data_frame_rb [simp]: "data_frame i h (upd_ctx i (\<lambda>c. c\<lparr>c_data_rb := f c\<rparr>) h)"
  by (simp add: data_frame_def data_same_def)

text \<open>Lookups agree, since a failure leaves data mode for null mode.\<close>

lemma data_frame_lookup:
  assumes f: "data_frame i h h'"
  shows "sm_at_ctx_check ctx h' = sm_at_ctx_check ctx h"
    and "sm_at_host_get_ctx_from p h' = sm_at_host_get_ctx_from p h"
    and "in_at_mode_ctx ctx h' = in_at_mode_ctx ctx h"
    and "sm_at_host_get_urc_ctx E h' = sm_at_host_get_urc_ctx E h"
proof -
  note d = f [unfolded data_frame_def]
  have pipe: "c_pipe (h_ctx h' j) = c_pipe (h_ctx h j)" for j
    using d dctx_frameD(1) [of "h_ctx h j" "h_ctx h' j"] by (cases "j = i") simp_all
  have at: "c_at_mode (h_ctx h' j) = SM_AT_COMMAND_MODE \<longleftrightarrow> c_at_mode (h_ctx h j) = SM_AT_COMMAND_MODE" for j
    using d dctx_frameD(2) [of "h_ctx h j" "h_ctx h' j"]
    by (cases "j = i") (auto simp: data_same_def data_failed_def)
  show check: "sm_at_ctx_check ctx h' = sm_at_ctx_check ctx h" for ctx
    using d by (simp add: sm_at_ctx_check_def split: option.split)
  show lk: "sm_at_host_get_ctx_from p h' = sm_at_host_get_ctx_from p h" for p
    using d by (simp add: sm_at_host_get_ctx_from_def pipe split: option.split)
  show mode: "in_at_mode_ctx ctx h' = in_at_mode_ctx ctx h" for ctx
    by (simp add: in_at_mode_ctx_def get_sm_mode_def check at split: option.split)
  have "sm_cmux_is_started h' = sm_cmux_is_started h" "first_instance h' = first_instance h"
    "\<And>ch. sm_cmux_get_dlci ch h' = sm_cmux_get_dlci ch h" "h_urc_channel h' = h_urc_channel h"
    using d by (simp_all add: sm_cmux_is_started_def first_instance_def sm_cmux_get_dlci_def)
  then show "sm_at_host_get_urc_ctx E h' = sm_at_host_get_urc_ctx E h"
    unfolding sm_at_host_get_urc_ctx_def by (simp only: lk mode)
qed

lemma data_frame_current:
  "data_frame i h h' \<Longrightarrow> sm_at_host_get_urc_ctx E h = Some i \<Longrightarrow> sm_at_host_get_current E h = Some i \<Longrightarrow>
   sm_at_host_get_current E h' = Some i"
  using data_frame_lookup(4) [of i h h' E]
  by (auto simp: sm_at_host_get_current_def data_frame_def data_same_def data_failed_def
      split: option.split)

lemma urc_ctx_upd:
  assumes "c_pipe (f (h_ctx h i)) = c_pipe (h_ctx h i)" and "c_at_mode (f (h_ctx h i)) = c_at_mode (h_ctx h i)"
  shows "sm_at_host_get_urc_ctx E (upd_ctx i f h) = sm_at_host_get_urc_ctx E h"
proof -
  let ?h = "upd_ctx i f h"
  have pipe: "c_pipe (h_ctx ?h j) = c_pipe (h_ctx h j)" and mode: "c_at_mode (h_ctx ?h j) = c_at_mode (h_ctx h j)" for j
    using assms by (cases "j = i"; simp)+
  have "sm_at_host_get_ctx_from p ?h = sm_at_host_get_ctx_from p h"
    "in_at_mode_ctx ctx ?h = in_at_mode_ctx ctx h" "sm_cmux_is_started ?h = sm_cmux_is_started h"
    "first_instance ?h = first_instance h" "sm_cmux_get_dlci ch ?h = sm_cmux_get_dlci ch h" for p ctx ch
    by (simp_all add: sm_at_host_get_ctx_from_def pipe in_at_mode_ctx_def get_sm_mode_def sm_at_ctx_check_def mode
        sm_cmux_is_started_def first_instance_def sm_cmux_get_dlci_def split: option.split)
  then show ?thesis unfolding sm_at_host_get_urc_ctx_def by (simp only: upd_ctx_sel)
qed

text \<open>The invariant of a context in data mode or null mode: its ring buffer is well formed, has
  the configured capacity and no outstanding claim, and there is a handler exactly in data mode. \<open>rd\<close>
  says in which states a handler can be called.\<close>

definition data_inv ::
  "('rb, 'w) env \<Rightarrow> ('rb \<Rightarrow> bytes) \<Rightarrow> ('rb \<Rightarrow> bool) \<Rightarrow> (nat \<Rightarrow> ctx_id \<Rightarrow> ('rb, 'w) host \<Rightarrow> bool) \<Rightarrow> ctx_id \<Rightarrow> ('rb, 'w) host \<Rightarrow> bool" where
  "data_inv E cl ok rd i h \<longleftrightarrow>
     i \<in> set (h_instances h) \<and> ok (c_data_rb (h_ctx h i)) \<and> cl (c_data_rb (h_ctx h i)) = [] \<and>
     rb_capacity_get (e_rb E) (c_data_rb (h_ctx h i)) = cfg_datamode_buf_size E \<and>
     (c_at_mode (h_ctx h i) = SM_DATA_MODE \<and> (\<exists>cb. dm_handler (c_data_mode (h_ctx h i)) = Some cb \<and> rd cb i h) \<or>
      c_at_mode (h_ctx h i) = SM_NULL_MODE \<and> dm_handler (c_data_mode (h_ctx h i)) = None)"

text \<open>All buffered data is gone: it was delivered, or the handler failed and the rest was dropped.\<close>

definition drained ::
  "('rb, 'w) env \<Rightarrow> ('rb \<Rightarrow> bytes) \<Rightarrow> ('rb \<Rightarrow> bytes) \<Rightarrow> ('rb \<Rightarrow> bool) \<Rightarrow> (nat \<Rightarrow> ctx_id \<Rightarrow> ('rb, 'w) host \<Rightarrow> bool) \<Rightarrow> ('w \<Rightarrow> bytes) \<Rightarrow> ctx_id \<Rightarrow>
   ('rb, 'w) host \<Rightarrow> ('rb, 'w) host \<Rightarrow> bool" where
  "drained E cl av ok rd dl i h h' \<longleftrightarrow>
     data_inv E cl ok rd i h' \<and> data_frame i h h' \<and> h_fault h' = h_fault h \<and>
     av (c_data_rb (h_ctx h' i)) = [] \<and>
     (\<exists>k \<le> length (av (c_data_rb (h_ctx h i))).
        dl (h_world h') = dl (h_world h) @ take k (av (c_data_rb (h_ctx h i))) \<and>
        (k = length (av (c_data_rb (h_ctx h i))) \<and> data_same i h h' \<or>
         c_at_mode (h_ctx h' i) = SM_NULL_MODE))"

text \<open>Bytes were added at the end of the buffered data, or the handler failed. As long as data mode
  lasts, what was delivered and what is buffered is the whole stream.\<close>

definition written ::
  "('rb, 'w) env \<Rightarrow> ('rb \<Rightarrow> bytes) \<Rightarrow> ('rb \<Rightarrow> bytes) \<Rightarrow> ('rb \<Rightarrow> bool) \<Rightarrow> (nat \<Rightarrow> ctx_id \<Rightarrow> ('rb, 'w) host \<Rightarrow> bool) \<Rightarrow> ('w \<Rightarrow> bytes) \<Rightarrow> ctx_id \<Rightarrow> bytes \<Rightarrow>
   ('rb, 'w) host \<Rightarrow> ('rb, 'w) host \<Rightarrow> bool" where
  "written E cl av ok rd dl i buf h h' \<longleftrightarrow>
     data_inv E cl ok rd i h' \<and> data_frame i h h' \<and> h_fault h' = h_fault h \<and>
     prefix (dl (h_world h')) (dl (h_world h) @ av (c_data_rb (h_ctx h i)) @ buf) \<and>
     (c_at_mode (h_ctx h i) = SM_NULL_MODE \<longrightarrow> dl (h_world h') = dl (h_world h)) \<and>
     (c_at_mode (h_ctx h' i) = SM_DATA_MODE \<longrightarrow> data_same i h h' \<and>
        dl (h_world h') @ av (c_data_rb (h_ctx h' i)) = dl (h_world h) @ av (c_data_rb (h_ctx h i)) @ buf)"

text \<open>Reception while data mode lasts, and its view as the automaton of the terminator.\<close>

definition data_rx :: "('rb, 'w) env \<Rightarrow> ctx_id \<Rightarrow> ('rb, 'w) host \<Rightarrow> char \<Rightarrow> ('rb, 'w) host" where
  "data_rx E i h c = (if c_at_mode (h_ctx h i) = SM_DATA_MODE then raw_rx_handler E i c h else h)"

definition data_rx_inv ::
  "('rb, 'w) env \<Rightarrow> ('rb \<Rightarrow> bytes) \<Rightarrow> ('rb \<Rightarrow> bool) \<Rightarrow> (nat \<Rightarrow> ctx_id \<Rightarrow> ('rb, 'w) host \<Rightarrow> bool) \<Rightarrow> ctx_id \<Rightarrow> ('rb, 'w) host \<Rightarrow> bool" where
  "data_rx_inv E cl ok rd i h \<longleftrightarrow>
     (c_at_mode (h_ctx h i) = SM_DATA_MODE \<longrightarrow>
        data_inv E cl ok rd i h \<and> h_current h = Some i \<and> dm_data_len (c_data_mode (h_ctx h i)) = 0 \<and>
        c_quit_str_match (h_ctx h i) < length (cfg_datamode_terminator E))"

definition data_scan ::
  "('rb \<Rightarrow> bytes) \<Rightarrow> ('w \<Rightarrow> bytes) \<Rightarrow> ctx_id \<Rightarrow> ('rb, 'w) host \<Rightarrow> scan" where
  "data_scan av dl i h =
     (if c_at_mode (h_ctx h i) = SM_DATA_MODE
      then Scanning (c_quit_str_match (h_ctx h i)) (dl (h_world h) @ av (c_data_rb (h_ctx h i)))
      else Stopped (dl (h_world h)))"

section \<open>The contract of a data mode handler\<close>

text \<open>What the readiness of a handler may depend on: everything but the modes, the buffers and the
  current context, which the host changes around its calls.\<close>

definition handler_view :: "('rb, 'w) host \<Rightarrow> ('rb, 'w) host \<Rightarrow> bool" where
  "handler_view h h' \<longleftrightarrow> h_instances h' = h_instances h \<and> h_socks h' = h_socks h \<and> h_udp_url h' = h_udp_url h \<and>
     h_udp_port h' = h_udp_port h \<and> h_world h' = h_world h \<and>
     (\<forall>j. c_pipe (h_ctx h' j) = c_pipe (h_ctx h j) \<and> c_poll_ctx (h_ctx h' j) = c_poll_ctx (h_ctx h j))"

lemma handler_view_upd [simp]:
  "c_pipe (f (h_ctx h i)) = c_pipe (h_ctx h i) \<Longrightarrow> c_poll_ctx (f (h_ctx h i)) = c_poll_ctx (h_ctx h i) \<Longrightarrow>
   handler_view h (upd_ctx i f h)"
  "c_pipe (f (h_ctx h i)) = c_pipe (h_ctx h i) \<Longrightarrow> c_poll_ctx (f (h_ctx h i)) = c_poll_ctx (h_ctx h i) \<Longrightarrow>
   handler_view (upd_ctx i f h) h"
  by (auto simp: handler_view_def upd_ctx_def)

lemma handler_view_current [simp]:
  "handler_view h (h\<lparr>h_current := c\<rparr>)" "handler_view (h\<lparr>h_current := c\<rparr>) h"
  by (simp_all add: handler_view_def)

text \<open>What the end of data mode may change: besides what output changes, the state of the sockets
  module.\<close>

definition exit_frame :: "('rb, 'w) host \<Rightarrow> ('rb, 'w) host \<Rightarrow> bool" where
  "exit_frame h h' \<longleftrightarrow> h_instances h' = h_instances h \<and> h_current h' = h_current h \<and>
     h_urc_channel h' = h_urc_channel h \<and> h_cmux_uart_pipe h' = h_cmux_uart_pipe h \<and>
     h_cmux_dlcis h' = h_cmux_dlcis h \<and> (\<forall>j. dctx_frame (h_ctx h j) (h_ctx h' j))"

lemma exit_frame_out: "out_frame h h' \<Longrightarrow> exit_frame h h'"
  using out_frameD [of h h'] by (auto simp: exit_frame_def intro: dctx_frame_ctx)

lemma exit_frame_refl [simp]: "exit_frame h h"
  by (rule exit_frame_out) simp

lemma exit_frameD:
  assumes "exit_frame h h'"
  shows "h_instances h' = h_instances h" "h_current h' = h_current h" "h_urc_channel h' = h_urc_channel h"
    "h_cmux_uart_pipe h' = h_cmux_uart_pipe h" "h_cmux_dlcis h' = h_cmux_dlcis h" "dctx_frame (h_ctx h j) (h_ctx h' j)"
  using assms by (simp_all add: exit_frame_def)

text \<open>A handler sends a prefix of its data onward and says how much; an error may be returned
  after some of it was sent, and the handler may have left data mode itself. The end of data
  mode sends nothing. It is called for the current context, of which it is the handler, in states in
  which it is ready, and it stays so while data mode lasts. \<open>delivered\<close> is what all handlers have sent
  so far.\<close>

locale data_sink = ring_buffer "e_rb E" claimed avail ok + world_kept E delivered
  for E :: "('rb, 'w) env" and claimed avail ok
    and ready :: "nat \<Rightarrow> ctx_id \<Rightarrow> ('rb, 'w) host \<Rightarrow> bool" and delivered :: "'w \<Rightarrow> bytes" +
  assumes buf_size: "0 < cfg_datamode_buf_size E"
    and ready_view: "ready cb i h \<Longrightarrow> handler_view h h' \<Longrightarrow> ready cb i h'"
    and handler_send: "e_datamode_handler E cb DATAMODE_SEND d fl h = (n, h') \<Longrightarrow>
      sm_at_host_get_current E h = Some i \<Longrightarrow> i \<in> set (h_instances h) \<Longrightarrow>
      c_at_mode (h_ctx h i) = SM_DATA_MODE \<Longrightarrow> dm_handler (c_data_mode (h_ctx h i)) = Some cb \<Longrightarrow> ready cb i h \<Longrightarrow>
      n \<le> int (length d) \<and> data_frame i h h' \<and> c_data_rb (h_ctx h' i) = c_data_rb (h_ctx h i) \<and>
      h_fault h' = h_fault h \<and> (0 \<le> n \<longrightarrow> data_same i h h') \<and> (data_same i h h' \<longrightarrow> ready cb i h') \<and>
      (\<exists>k \<le> length d. delivered (h_world h') = delivered (h_world h) @ take k d \<and> (0 \<le> n \<longrightarrow> k = nat n))"
    and handler_exit: "e_datamode_handler E cb DATAMODE_EXIT [] fl h = (n, h') \<Longrightarrow>
      h_current h = Some i \<Longrightarrow> i \<in> set (h_instances h) \<Longrightarrow> dm_handler (c_data_mode (h_ctx h i)) = Some cb \<Longrightarrow>
      ready cb i h \<Longrightarrow> exit_frame h h' \<and> h_fault h' = h_fault h \<and> delivered (h_world h') = delivered (h_world h)"
begin

lemma ready_upd [simp]:
  "ready cb i (upd_ctx j (\<lambda>c. c\<lparr>c_data_rb := f c\<rparr>) h) = ready cb i h"
  "ready cb i (upd_ctx j (\<lambda>c. c\<lparr>c_quit_str_match := n\<rparr>) h) = ready cb i h"
  "ready cb i (upd_ctx j (\<lambda>c. c\<lparr>c_at_mode := m\<rparr>) h) = ready cb i h"
  "ready cb i (h\<lparr>h_current := c\<rparr>) = ready cb i h"
  by (rule iffI; erule ready_view; simp)+

lemma data_inv_quit [simp]:
  "data_inv E claimed ok ready i (upd_ctx i (\<lambda>x. x\<lparr>c_quit_str_match := v\<rparr>) h) = data_inv E claimed ok ready i h"
  by (simp add: data_inv_def)

lemma exit_handler_effect:
  assumes "exit_datamode_handler E (Some i) r h = h'" and "i \<in> set (h_instances h)"
    and "c_at_mode (h_ctx h i) \<in> {SM_DATA_MODE, SM_NULL_MODE}"
    and ready: "\<And>cb. dm_handler (c_data_mode (h_ctx h i)) = Some cb \<Longrightarrow> ready cb i h"
  shows "data_frame i h h'" and "data_failed i h h'" and "c_data_rb (h_ctx h' i) = c_data_rb (h_ctx h i)"
    and "h_fault h' = h_fault h" and "delivered (h_world h') = delivered (h_world h)"
proof -
  let ?h1 = "sm_at_host_set_current_ctx (Some i) (upd_ctx i (\<lambda>c. c\<lparr>c_at_mode := SM_NULL_MODE\<rparr>) h)"
  define h2 where "h2 = (case dm_handler (c_data_mode (h_ctx ?h1 i)) of
      Some cb \<Rightarrow> snd (e_datamode_handler E cb DATAMODE_EXIT [] SM_DATAMODE_FLAGS_EXIT_HANDLER ?h1)
    | None \<Rightarrow> ?h1)"
  have out: "exit_frame ?h1 h2 \<and> h_fault h2 = h_fault ?h1 \<and> delivered (h_world h2) = delivered (h_world ?h1)"
  proof (cases "dm_handler (c_data_mode (h_ctx ?h1 i))")
    case (Some cb)
    have "ready cb i ?h1" using ready Some by (simp add: sm_at_host_set_current_ctx_def)
    moreover obtain m hx where "e_datamode_handler E cb DATAMODE_EXIT [] SM_DATAMODE_FLAGS_EXIT_HANDLER ?h1 = (m, hx)" by fastforce
    ultimately show ?thesis using Some assms(2) handler_exit [of cb SM_DATAMODE_FLAGS_EXIT_HANDLER ?h1 m hx i]
      by (simp add: h2_def sm_at_host_set_current_ctx_def)
  qed (simp add: h2_def)
  have mode: "set_sm_mode E (Some i) SM_NULL_MODE h = (True, upd_ctx i (\<lambda>c. c\<lparr>c_at_mode := SM_NULL_MODE\<rparr>) h)"
    using assms(2,3) by (auto simp: set_sm_mode_def sm_at_ctx_check_def)
  have eq: "h' = sm_at_host_set_current_ctx None
      (upd_ctx i (upd_dm (\<lambda>d. d\<lparr>dm_handler := None, dm_handler_result := r, dm_data_len := 0\<rparr>)) h2)"
    using assms(1) by (simp add: exit_datamode_handler_def mode h2_def Let_def)
  note c = dctx_frameD [OF exit_frameD(6) [OF conjunct1 [OF out]]] and d = exit_frameD [OF conjunct1 [OF out]]
  show "data_failed i h h'" using assms(3) c by (simp add: eq data_failed_def sm_at_host_set_current_ctx_def)
  moreover have "dctx_frame (h_ctx h j) (h_ctx h' j)" if "j \<noteq> i" for j
    using d(6) [of j] that by (simp add: eq sm_at_host_set_current_ctx_def)
  ultimately show "data_frame i h h'" using c d
    by (simp add: data_frame_def eq sm_at_host_set_current_ctx_def)
  show "c_data_rb (h_ctx h' i) = c_data_rb (h_ctx h i)" "h_fault h' = h_fault h"
    "delivered (h_world h') = delivered (h_world h)"
    using c out by (simp_all add: eq sm_at_host_set_current_ctx_def)
qed

text \<open>Finishing a claim of which the first \<open>n\<close> bytes are done removes them.\<close>

lemma claim_finish_inv:
  assumes inv: "data_inv E claimed ok ready i h"
    and cl: "rb_get_claim (e_rb E) m (c_data_rb (h_ctx h i)) = (d, rb)" and "n \<le> length d"
    and same: "c_data_rb (h_ctx h' i) = rb" and fr: "data_frame i h h'"
    and rd: "\<And>cb. data_same i h h' \<Longrightarrow> dm_handler (c_data_mode (h_ctx h i)) = Some cb \<Longrightarrow> ready cb i h'"
  defines "h4 \<equiv> upd_ctx i (\<lambda>c. c\<lparr>c_data_rb := snd (rb_get_finish (e_rb E) n (c_data_rb c))\<rparr>) h'"
  shows "data_inv E claimed ok ready i h4" and "avail (c_data_rb (h_ctx h4 i)) = drop n (avail (c_data_rb (h_ctx h i)))"
    and "data_frame i h h4" and "prefix d (avail (c_data_rb (h_ctx h i)))"
proof -
  let ?b = "c_data_rb (h_ctx h i)"
  have ok: "ok ?b" and e: "claimed ?b = []" and cap: "rb_capacity_get (e_rb E) ?b = cfg_datamode_buf_size E"
    using inv by (simp_all add: data_inv_def)
  have cf: "fst (rb_get_claim (e_rb E) m ?b) = d" "snd (rb_get_claim (e_rb E) m ?b) = rb" using cl by simp_all
  note fin = claim_finish [OF ok e, of n m, unfolded cf, OF \<open>n \<le> length d\<close>]
  have cap': "rb_capacity_get (e_rb E) (snd (rb_get_finish (e_rb E) n rb)) = cfg_datamode_buf_size E"
    using claim_ok [OF ok, of m] claim_capacity [OF ok, of m] finish_capacity [of rb n] cap cf by simp
  show "data_frame i h h4" unfolding h4_def by (rule data_frame_trans [OF fr data_frame_rb])
  then show "data_inv E claimed ok ready i h4"
    using inv fin cap' same rd by (auto simp: h4_def data_inv_def data_frame_def data_same_def data_failed_def)
  show "avail (c_data_rb (h_ctx h4 i)) = drop n (avail ?b)" using fin(3) same by (simp add: h4_def)
  show "prefix d (avail ?b)" using claim_content [OF ok, of m] cf by simp
qed

text \<open>One round of \<open>raw_send\<close> with a handler.\<close>

lemma raw_send_round:
  assumes inv: "data_inv E claimed ok ready i h" and cur: "sm_at_host_get_current E h = Some i"
    and cl: "rb_get_claim (e_rb E) m (c_data_rb (h_ctx h i)) = (d, rb)" and "d \<noteq> []"
    and hd: "dm_handler (c_data_mode (h_ctx h i)) = Some cb"
    and send: "e_datamode_handler E cb DATAMODE_SEND d fl (upd_ctx i (\<lambda>c. c\<lparr>c_data_rb := rb\<rparr>) h) = (ret, h2)"
    and h3: "(n, h3) = (if ret < 0 \<or> ret = 0 \<and> \<not> retry
         then (length d, exit_datamode_handler E (Some i) (if ret \<noteq> 0 then ret else - EAGAIN) h2) else (nat ret, h2))"
  defines "h4 \<equiv> upd_ctx i (\<lambda>c. c\<lparr>c_data_rb := snd (rb_get_finish (e_rb E) n (c_data_rb c))\<rparr>) h3"
  shows "data_inv E claimed ok ready i h4" and "avail (c_data_rb (h_ctx h4 i)) = drop n (avail (c_data_rb (h_ctx h i)))"
    and "data_frame i h h4" and "h_fault h4 = h_fault h" and "n \<le> length d"
    and "\<exists>k \<le> n. delivered (h_world h4) = delivered (h_world h) @ take k (avail (c_data_rb (h_ctx h i))) \<and>
         (k = n \<and> data_same i h h4 \<or> data_failed i h h4)"
    and "ret < 0 \<Longrightarrow> data_failed i h h4"
proof -
  let ?h1 = "upd_ctx i (\<lambda>c. c\<lparr>c_data_rb := rb\<rparr>) h"
  have i: "i \<in> set (h_instances h)" and dm: "c_at_mode (h_ctx h i) = SM_DATA_MODE"
    using inv hd by (auto simp: data_inv_def)
  have f1: "data_frame i h ?h1" by simp
  have cur1: "sm_at_host_get_current E ?h1 = Some i"
    using cur data_frame_lookup(4) [OF f1, of E]
    by (auto simp: sm_at_host_get_current_def split: option.splits)
  have rd1: "ready cb i ?h1" using inv hd by (auto simp: data_inv_def)
  have hs: "ret \<le> int (length d) \<and> data_frame i ?h1 h2 \<and> c_data_rb (h_ctx h2 i) = rb \<and>
      h_fault h2 = h_fault h \<and> (0 \<le> ret \<longrightarrow> data_same i ?h1 h2) \<and> (data_same i ?h1 h2 \<longrightarrow> ready cb i h2) \<and>
      (\<exists>k \<le> length d. delivered (h_world h2) = delivered (h_world h) @ take k d \<and> (0 \<le> ret \<longrightarrow> k = nat ret))"
    using handler_send [OF send cur1 _ _ _ rd1] i dm hd by simp
  then obtain k where s: "ret \<le> int (length d)" "data_frame i ?h1 h2" "c_data_rb (h_ctx h2 i) = rb"
    "h_fault h2 = h_fault h" "0 \<le> ret \<longrightarrow> data_same i ?h1 h2" "k \<le> length d"
    "delivered (h_world h2) = delivered (h_world h) @ take k d" "0 \<le> ret \<longrightarrow> k = nat ret"
    by blast
  have rd2: "ready cb' i h2" if "dm_handler (c_data_mode (h_ctx h2 i)) = Some cb'" for cb'
    using hs hd that by (auto simp: data_frame_def data_same_def data_failed_def)
  have f2: "data_frame i h h2" by (rule data_frame_trans [OF f1 s(2)])
  have ins2: "i \<in> set (h_instances h2)" "c_at_mode (h_ctx h2 i) \<in> {SM_DATA_MODE, SM_NULL_MODE}"
    using f2 i dm by (auto simp: data_frame_def data_same_def data_failed_def)
  note ex = exit_handler_effect [OF refl ins2 rd2, of "if ret \<noteq> 0 then ret else - EAGAIN"]
  have res: "n \<le> length d \<and> data_frame i h h3 \<and> c_data_rb (h_ctx h3 i) = rb \<and> h_fault h3 = h_fault h \<and>
      delivered (h_world h3) = delivered (h_world h) @ take k d \<and>
      (k = n \<and> data_same i h h3 \<or> k \<le> n \<and> data_failed i h h3)"
    using h3 s ex f2 data_frame_trans [OF f2 ex(1)] dm
    by (auto simp: data_same_def data_failed_def split: if_splits)
  then have n: "n \<le> length d" and rb3: "c_data_rb (h_ctx h3 i) = rb" and f3: "data_frame i h h3" by simp_all
  have rd3: "ready cb' i h3" if "data_same i h h3" "dm_handler (c_data_mode (h_ctx h i)) = Some cb'" for cb'
    using rd2 [of cb'] h3 ex(2) that by (auto simp: data_same_def data_failed_def split: if_splits)
  note fin = claim_finish_inv [OF inv cl n rb3 f3 rd3]
  show "data_inv E claimed ok ready i h4" "avail (c_data_rb (h_ctx h4 i)) = drop n (avail (c_data_rb (h_ctx h i)))"
    "data_frame i h h4" using fin by (simp_all add: h4_def)
  show "h_fault h4 = h_fault h" "n \<le> length d" using res by (simp_all add: h4_def)
  show "data_failed i h h4" if "ret < 0"
    using that ex(2) h3 f2 dm by (auto simp: h4_def data_failed_def data_frame_def data_same_def split: if_splits)
  have "take k d = take k (avail (c_data_rb (h_ctx h i)))"
    using fin(4) \<open>k \<le> length d\<close> by (auto simp: prefix_def)
  then show "\<exists>k \<le> n. delivered (h_world h4) = delivered (h_world h) @ take k (avail (c_data_rb (h_ctx h i))) \<and>
         (k = n \<and> data_same i h h4 \<or> data_failed i h h4)"
    using res by (intro exI [of _ k]) (auto simp: h4_def data_same_def data_failed_def)
qed

lemma drained_step:
  assumes "data_frame i h h1" and "h_fault h1 = h_fault h" and "n \<le> length (avail (c_data_rb (h_ctx h i)))"
    and av: "avail (c_data_rb (h_ctx h1 i)) = drop n (avail (c_data_rb (h_ctx h i)))"
    and k: "k \<le> n" "delivered (h_world h1) = delivered (h_world h) @ take k (avail (c_data_rb (h_ctx h i)))"
      "k = n \<and> data_same i h h1 \<or> c_at_mode (h_ctx h1 i) = SM_NULL_MODE \<and> dm_handler (c_data_mode (h_ctx h1 i)) = None"
    and d: "drained E claimed avail ok ready delivered i h1 h'"
    and nul: "c_at_mode (h_ctx h1 i) = SM_NULL_MODE \<Longrightarrow> delivered (h_world h') = delivered (h_world h1)"
  shows "drained E claimed avail ok ready delivered i h h'"
proof -
  let ?p = "avail (c_data_rb (h_ctx h i))" and ?p1 = "avail (c_data_rb (h_ctx h1 i))"
  obtain k1 where k1: "k1 \<le> length ?p1" "delivered (h_world h') = delivered (h_world h1) @ take k1 ?p1"
    "k1 = length ?p1 \<and> data_same i h1 h' \<or> c_at_mode (h_ctx h' i) = SM_NULL_MODE"
    using d by (auto simp: drained_def)
  have f: "data_frame i h h'" using assms(1) d data_frame_trans by (auto simp: drained_def)
  show ?thesis
  proof (cases "c_at_mode (h_ctx h1 i) = SM_NULL_MODE")
    case True
    have "c_at_mode (h_ctx h' i) = SM_NULL_MODE"
      using d True by (auto simp: drained_def data_frame_def data_same_def data_failed_def)
    then show ?thesis using d f assms(2,3) k nul [OF True] unfolding drained_def
      by (auto intro!: exI [of _ k])
  next
    case False
    then have "k = n" "data_same i h h1" using k(3) by auto
    moreover have "take n ?p @ take k1 (drop n ?p) = take (n + k1) ?p" by (simp add: take_add)
    ultimately show ?thesis using d f assms(2,3) k k1 av unfolding drained_def
      by (auto simp: data_same_def intro!: exI [of _ "n + k1"])
  qed
qed

lemma raw_send_loop_empty:
  assumes inv: "data_inv E claimed ok ready i h" and "avail (c_data_rb (h_ctx h i)) = []"
  shows "drained E claimed avail ok ready delivered i h (raw_send_loop E i fl (Suc fuel) retry h)"
    and "delivered (h_world (raw_send_loop E i fl (Suc fuel) retry h)) = delivered (h_world h)"
proof -
  let ?b = "c_data_rb (h_ctx h i)" and ?m = "cfg_datamode_buf_size E"
  obtain rb where cl: "rb_get_claim (e_rb E) ?m ?b = ([], rb)"
    using claim_empty [of ?b ?m] assms
    by (cases "rb_get_claim (e_rb E) ?m ?b") (auto simp: data_inv_def)
  have "ok ?b" using inv by (simp add: data_inv_def)
  from claim_ok [OF this, of ?m] claim_content [OF this, of ?m] claim_capacity [OF this, of ?m]
  have "ok rb \<and> claimed rb = [] \<and> avail rb = [] \<and> rb_capacity_get (e_rb E) rb = ?m"
    using cl assms by (simp add: data_inv_def)
  then show "drained E claimed avail ok ready delivered i h (raw_send_loop E i fl (Suc fuel) retry h)"
    "delivered (h_world (raw_send_loop E i fl (Suc fuel) retry h)) = delivered (h_world h)"
    using assms cl by (auto simp: drained_def data_inv_def data_same_def Let_def)
qed

lemma raw_send_loop_null:
  assumes "data_inv E claimed ok ready i h" and "dm_handler (c_data_mode (h_ctx h i)) = None"
    and "length (avail (c_data_rb (h_ctx h i))) < fuel"
  shows "drained E claimed avail ok ready delivered i h (raw_send_loop E i fl fuel retry h) \<and>
     delivered (h_world (raw_send_loop E i fl fuel retry h)) = delivered (h_world h)"
  using assms
proof (induction fuel arbitrary: retry h)
  case (Suc fuel)
  let ?b = "c_data_rb (h_ctx h i)"
  obtain d rb where cl: "rb_get_claim (e_rb E) (cfg_datamode_buf_size E) ?b = (d, rb)" by fastforce
  have ok: "ok ?b" using Suc.prems by (simp add: data_inv_def)
  have null: "c_at_mode (h_ctx h i) = SM_NULL_MODE" using Suc.prems by (auto simp: data_inv_def)
  let ?h1 = "upd_ctx i (\<lambda>c. c\<lparr>c_data_rb := rb\<rparr>) h"
  show ?case
  proof (cases "avail ?b = []")
    case True
    then show ?thesis using raw_send_loop_empty Suc.prems(1) by simp
  next
    case False
    have "d \<noteq> []" using claim_progress [OF ok False buf_size] cl by simp
    then have lt: "length (avail ?b) - length d < fuel" using Suc.prems(3) False
      by (cases d; cases "avail ?b") auto
    let ?h4 = "upd_ctx i (\<lambda>c. c\<lparr>c_data_rb := snd (rb_get_finish (e_rb E) (length d) (c_data_rb c))\<rparr>) ?h1"
    have rdh: "ready cb i ?h1" if "dm_handler (c_data_mode (h_ctx h i)) = Some cb" for cb using Suc.prems(2) that by simp
    note fin = claim_finish_inv [OF Suc.prems(1) cl order_refl, of ?h1, OF _ _ rdh]
    have h4: "data_inv E claimed ok ready i ?h4" "avail (c_data_rb (h_ctx ?h4 i)) = drop (length d) (avail ?b)"
      "data_frame i h ?h4" "length d \<le> length (avail ?b)"
      using fin by (simp_all add: prefix_length_le)
    have step: "raw_send_loop E i fl (Suc fuel) retry h = raw_send_loop E i fl fuel retry ?h4"
      using cl \<open>d \<noteq> []\<close> Suc.prems(2) by (simp add: Let_def)
    have ih: "drained E claimed avail ok ready delivered i ?h4 (raw_send_loop E i fl fuel retry ?h4) \<and>
        delivered (h_world (raw_send_loop E i fl fuel retry ?h4)) = delivered (h_world ?h4)"
      using h4 Suc.prems lt by (intro Suc.IH) auto
    show ?thesis unfolding step
      using drained_step [of i h ?h4 "length d" 0, OF h4(3) _ h4(4,2)] ih null Suc.prems(2) by simp
  qed
qed simp

lemma raw_send_loop_drains:
  assumes "data_inv E claimed ok ready i h"
    and "dm_handler (c_data_mode (h_ctx h i)) \<noteq> None \<Longrightarrow> sm_at_host_get_current E h = Some i"
    and "2 * length (avail (c_data_rb (h_ctx h i))) +
         (if retry \<or> avail (c_data_rb (h_ctx h i)) = [] then 1 else 0) \<le> fuel"
  shows "drained E claimed avail ok ready delivered i h (raw_send_loop E i fl fuel retry h)"
  using assms
proof (induction fuel arbitrary: retry h)
  case (Suc fuel)
  let ?b = "c_data_rb (h_ctx h i)"
  show ?case
  proof (cases "avail ?b = [] \<or> dm_handler (c_data_mode (h_ctx h i)) = None")
    case True
    then show ?thesis
      using Suc.prems raw_send_loop_null [of i h "Suc fuel" fl retry] raw_send_loop_empty [of i h fl fuel retry]
      by (auto split: if_splits)
  next
    case False
    obtain d rb where cl: "rb_get_claim (e_rb E) (cfg_datamode_buf_size E) ?b = (d, rb)" by fastforce
    have ok: "ok ?b" using Suc.prems by (simp add: data_inv_def)
    have d: "d \<noteq> []" using claim_progress [OF ok] buf_size cl False by (metis fst_conv)
    obtain cb where cb: "dm_handler (c_data_mode (h_ctx h i)) = Some cb" using False by auto
    define fl' where "fl' = (if length d \<noteq> rb_size_get (e_rb E) ?b then fl OR SM_DATAMODE_FLAGS_MORE_DATA else fl)"
    obtain ret h2 where send: "e_datamode_handler E cb DATAMODE_SEND d fl'
        (upd_ctx i (\<lambda>c. c\<lparr>c_data_rb := rb\<rparr>) h) = (ret, h2)" by fastforce
    define bad where "bad \<longleftrightarrow> ret < 0 \<or> ret = 0 \<and> \<not> retry"
    obtain n h3 where h3: "(n, h3) = (if bad
         then (length d, exit_datamode_handler E (Some i) (if ret \<noteq> 0 then ret else - EAGAIN) h2) else (nat ret, h2))"
      by (cases bad) auto
    define h4 where "h4 = upd_ctx i (\<lambda>c. c\<lparr>c_data_rb := snd (rb_get_finish (e_rb E) n (c_data_rb c))\<rparr>) h3"
    define retry' where "retry' \<longleftrightarrow> (if bad then retry else ret \<noteq> 0)"
    have step: "raw_send_loop E i fl (Suc fuel) retry h = raw_send_loop E i fl fuel retry' h4"
      using cl d cb send h3 by (auto simp: Let_def fl'_def h4_def retry'_def bad_def split: if_splits)
    let ?p = "avail ?b" and ?p4 = "avail (c_data_rb (h_ctx h4 i))"
    have cur: "sm_at_host_get_current E h = Some i" using Suc.prems(2) cb by simp
    note rd = raw_send_round [OF Suc.prems(1) cur cl d cb send h3 [unfolded bad_def], folded h4_def]
    have len: "n \<le> length ?p" using rd(5) claim_length [OF ok] cl by (metis fst_conv le_trans)
    obtain k where k: "k \<le> n" "delivered (h_world h4) = delivered (h_world h) @ take k ?p"
      "k = n \<and> data_same i h h4 \<or> data_failed i h h4" using rd(6) by auto
    have null: "dm_handler (c_data_mode (h_ctx h4 i)) = None" if "c_at_mode (h_ctx h4 i) = SM_NULL_MODE"
      using rd(1) that by (auto simp: data_inv_def)
    have n0: "n = 0 \<longleftrightarrow> ret = 0 \<and> retry" using h3 d by (auto simp: bad_def split: if_splits)
    have l4: "length ?p4 = length ?p - n" and p: "length ?p \<noteq> 0" using rd(2) False by simp_all
    have r0: "n = 0 \<Longrightarrow> \<not> retry' \<and> retry \<and> ?p4 \<noteq> []" using n0 rd(2) False by (auto simp: retry'_def bad_def)
    have fuel: "2 * length ?p4 + (if retry' \<or> ?p4 = [] then 1 else 0) \<le> fuel"
    proof (cases "n = 0")
      case True
      then show ?thesis using r0 l4 Suc.prems(3) by simp
    next
      case False
      then have "2 * length ?p4 + 1 \<le> fuel" using l4 p len Suc.prems(3) by linarith
      then show ?thesis by simp
    qed
    then have fuel': "length ?p4 < fuel" by (cases ?p4) auto
    have "sm_at_host_get_current E h4 = Some i" if "dm_handler (c_data_mode (h_ctx h4 i)) \<noteq> None"
      using cur k(3) that data_frame_lookup(4) [OF rd(3), of E]
      by (auto simp: sm_at_host_get_current_def data_same_def data_failed_def split: option.splits)
    then have "drained E claimed avail ok ready delivered i h4 (raw_send_loop E i fl fuel retry' h4)"
      using rd(1) fuel by (intro Suc.IH) auto
    then show ?thesis unfolding step
      using drained_step [OF rd(3,4) len rd(2) k(1,2)] k(3) raw_send_loop_null [OF rd(1) null fuel']
      by (auto simp: data_failed_def)
  qed
qed (auto split: if_splits)

text \<open>A handler that fails on what it is given ends data mode.\<close>

lemma raw_send_loop_fails:
  assumes inv: "data_inv E claimed ok ready i h" and cur: "sm_at_host_get_current E h = Some i"
    and dm: "c_at_mode (h_ctx h i) = SM_DATA_MODE" "dm_handler (c_data_mode (h_ctx h i)) = Some cb"
    and ne: "avail (c_data_rb (h_ctx h i)) \<noteq> []" and fuel: "2 * length (avail (c_data_rb (h_ctx h i))) + 1 \<le> fuel"
    and fails: "\<And>d fl' h'. ready cb i h' \<Longrightarrow> fl' AND fl = fl \<Longrightarrow> fst (e_datamode_handler E cb DATAMODE_SEND d fl' h') < 0"
  shows "c_at_mode (h_ctx (raw_send_loop E i fl fuel True h) i) = SM_NULL_MODE"
proof -
  let ?b = "c_data_rb (h_ctx h i)"
  obtain f where f: "fuel = Suc f" using fuel by (cases fuel) auto
  obtain d rb where cl: "rb_get_claim (e_rb E) (cfg_datamode_buf_size E) ?b = (d, rb)" by fastforce
  have ok: "ok ?b" and rd: "ready cb i h" using inv dm by (auto simp: data_inv_def)
  have d: "d \<noteq> []" using claim_progress [OF ok ne buf_size] cl by simp
  define fl' where "fl' = (if length d \<noteq> rb_size_get (e_rb E) ?b then fl OR SM_DATAMODE_FLAGS_MORE_DATA else fl)"
  let ?h1 = "upd_ctx i (\<lambda>c. c\<lparr>c_data_rb := rb\<rparr>) h"
  obtain ret h2 where send: "e_datamode_handler E cb DATAMODE_SEND d fl' ?h1 = (ret, h2)" by fastforce
  have "fl' AND fl = fl" by (simp add: fl'_def bit.conj_disj_distrib2)
  then have ret: "ret < 0" using fails [of ?h1 fl' d] rd send by simp
  let ?h3 = "exit_datamode_handler E (Some i) ret h2"
  let ?h4 = "upd_ctx i (\<lambda>c. c\<lparr>c_data_rb := snd (rb_get_finish (e_rb E) (length d) (c_data_rb c))\<rparr>) ?h3"
  have step: "raw_send_loop E i fl fuel True h = raw_send_loop E i fl f True ?h4"
    using cl d dm(2) send ret by (auto simp: Let_def fl'_def f)
  note rd4 = raw_send_round [OF inv cur cl d dm(2) send, of "length d" ?h3 True, simplified ret, simplified]
  have failed: "c_at_mode (h_ctx ?h4 i) = SM_NULL_MODE" "dm_handler (c_data_mode (h_ctx ?h4 i)) = None"
    using rd4(7) ret by (simp_all add: data_failed_def)
  have "length (avail (c_data_rb (h_ctx ?h4 i))) < f" using rd4 ret ne fuel d f by (cases d; cases "avail ?b") auto
  then have "drained E claimed avail ok ready delivered i ?h4 (raw_send_loop E i fl f True ?h4)"
    using rd4 ret failed by (intro conjunct1 [OF raw_send_loop_null]) auto
  then show ?thesis unfolding step using failed by (auto simp: drained_def data_frame_def data_same_def data_failed_def)
qed

lemma raw_send_eq:
  "data_inv E claimed ok ready i h \<Longrightarrow> sm_at_host_get_current E h = Some i \<Longrightarrow>
   raw_send E fl h = raw_send_loop E i fl (2 * length (avail (c_data_rb (h_ctx h i))) + 1) True h"
  by (simp add: raw_send_def data_inv_def size_get del: raw_send_loop.simps)

lemma raw_send_drains:
  assumes "data_inv E claimed ok ready i h" and "sm_at_host_get_current E h = Some i"
  shows "drained E claimed avail ok ready delivered i h (raw_send E fl h)"
  unfolding raw_send_eq [OF assms] using assms by (intro raw_send_loop_drains) auto

lemma drained_written:
  "drained E claimed avail ok ready delivered i h h' \<Longrightarrow> data_inv E claimed ok ready i h \<Longrightarrow>
   (c_at_mode (h_ctx h i) = SM_NULL_MODE \<Longrightarrow> delivered (h_world h') = delivered (h_world h)) \<Longrightarrow>
   written E claimed avail ok ready delivered i [] h h'"
  by (auto simp: drained_def written_def take_is_prefix data_inv_def)

lemma raw_send_null_delivered:
  assumes "data_inv E claimed ok ready i h" and "sm_at_host_get_current E h = Some i"
    and "c_at_mode (h_ctx h i) = SM_NULL_MODE"
  shows "delivered (h_world (raw_send E fl h)) = delivered (h_world h)"
proof -
  have "dm_handler (c_data_mode (h_ctx h i)) = None" using assms by (auto simp: data_inv_def)
  then show ?thesis unfolding raw_send_eq [OF assms(1,2)]
    by (intro conjunct2 [OF raw_send_loop_null [OF assms(1)]]) simp_all
qed

lemma written_trans:
  assumes "written E claimed avail ok ready delivered i b1 h h1" and "written E claimed avail ok ready delivered i b2 h1 h2"
  shows "written E claimed avail ok ready delivered i (b1 @ b2) h h2"
proof -
  have f: "data_frame i h h2" using assms data_frame_trans by (auto simp: written_def)
  have inv: "data_inv E claimed ok ready i h2" "data_inv E claimed ok ready i h1" using assms by (auto simp: written_def)
  show ?thesis
  proof (cases "c_at_mode (h_ctx h1 i) = SM_NULL_MODE")
    case True
    then have "c_at_mode (h_ctx h2 i) = SM_NULL_MODE"
      using assms(2) by (auto simp: written_def data_frame_def data_same_def data_failed_def)
    moreover have "prefix (delivered (h_world h1)) ((delivered (h_world h) @ avail (c_data_rb (h_ctx h i)) @ b1) @ b2)"
      by (rule prefix_prefix) (use assms(1) in \<open>simp add: written_def\<close>)
    ultimately show ?thesis using assms f True unfolding written_def by auto
  next
    case False
    then have "c_at_mode (h_ctx h1 i) = SM_DATA_MODE" using inv(2) by (auto simp: data_inv_def)
    then show ?thesis using assms f False unfolding written_def
      by (auto simp: data_same_def prefix_def) (metis append.assoc)+
  qed
qed

lemma put_written:
  assumes inv: "data_inv E claimed ok ready i h" and put: "rb_put (e_rb E) buf (c_data_rb (h_ctx h i)) = (n, rb)"
  shows "written E claimed avail ok ready delivered i (take n buf) h (upd_ctx i (\<lambda>c. c\<lparr>c_data_rb := rb\<rparr>) h)"
    and "n = min (length buf) (cfg_datamode_buf_size E - length (avail (c_data_rb (h_ctx h i))))"
proof -
  let ?b = "c_data_rb (h_ctx h i)"
  have ok: "ok ?b" and e: "claimed ?b = []" using inv by (simp_all add: data_inv_def)
  have "ok rb" "n = min (length buf) (rb_capacity_get (e_rb E) ?b - length (avail ?b))" "claimed rb = []"
    "avail rb = avail ?b @ take n buf" "rb_capacity_get (e_rb E) rb = rb_capacity_get (e_rb E) ?b"
    using put_ok [OF ok, of buf] put_count [OF ok, of buf] put_content [OF ok, of buf]
      put_capacity [OF ok, of buf] put e by simp_all
  then show "written E claimed avail ok ready delivered i (take n buf) h (upd_ctx i (\<lambda>c. c\<lparr>c_data_rb := rb\<rparr>) h)"
    "n = min (length buf) (cfg_datamode_buf_size E - length (avail (c_data_rb (h_ctx h i))))"
    using inv by (auto simp: written_def data_inv_def data_same_def)
qed

text \<open>A chunk that fits into the empty buffer needs at most one \<open>raw_send\<close>.\<close>

lemma write_loop_put_all:
  assumes inv: "data_inv E claimed ok ready i h"
    and "length buf + length (avail (c_data_rb (h_ctx h i))) \<le> cfg_datamode_buf_size E" and "0 < fuel"
  shows "written E claimed avail ok ready delivered i buf h (write_loop E i fuel buf h)"
proof (cases buf)
  case Nil
  then show ?thesis using inv by (cases fuel) (auto simp: written_def data_same_def)
next
  case (Cons b bs)
  obtain f where f: "fuel = Suc f" using assms(3) by (cases fuel) auto
  obtain n rb where put: "rb_put (e_rb E) buf (c_data_rb (h_ctx h i)) = (n, rb)" by fastforce
  have n: "n = length buf" using put_written(2) [OF inv put] assms(2) by simp
  have "write_loop E i fuel buf h = write_loop E i f [] (upd_ctx i (\<lambda>c. c\<lparr>c_data_rb := rb\<rparr>) h)"
    using put n Cons f by simp
  also have "\<dots> = upd_ctx i (\<lambda>c. c\<lparr>c_data_rb := rb\<rparr>) h" by (cases f) simp_all
  finally show ?thesis using put_written(1) [OF inv put] n by simp
qed

lemma write_loop_full:
  assumes inv: "data_inv E claimed ok ready i h" and cur: "sm_at_host_get_current E h = Some i"
    and full: "length (avail (c_data_rb (h_ctx h i))) = cfg_datamode_buf_size E"
    and "length buf \<le> cfg_datamode_buf_size E" and "buf \<noteq> []" and "1 < fuel"
  shows "written E claimed avail ok ready delivered i buf h (write_loop E i fuel buf h)"
proof -
  obtain f where f: "fuel = Suc f" "0 < f" using assms(6) by (cases fuel) auto
  obtain n rb where put: "rb_put (e_rb E) buf (c_data_rb (h_ctx h i)) = (n, rb)" by fastforce
  have n: "n = 0" using put_written(2) [OF inv put] full by simp
  let ?h1 = "upd_ctx i (\<lambda>c. c\<lparr>c_data_rb := rb\<rparr>) h"
  let ?h2 = "raw_send E SM_DATAMODE_FLAGS_MORE_DATA ?h1"
  have w1: "written E claimed avail ok ready delivered i [] h ?h1" using put_written(1) [OF inv put] n by simp
  then have inv1: "data_inv E claimed ok ready i ?h1" by (simp add: written_def)
  have cur1: "sm_at_host_get_current E ?h1 = Some i"
    using cur data_frame_lookup(4) [OF data_frame_rb, of E i "\<lambda>_. rb" h]
    by (auto simp: sm_at_host_get_current_def split: option.splits)
  note dr = raw_send_drains [OF inv1 cur1, of SM_DATAMODE_FLAGS_MORE_DATA]
  have w2: "written E claimed avail ok ready delivered i [] ?h1 ?h2"
    by (rule drained_written [OF dr inv1]) (rule raw_send_null_delivered [OF inv1 cur1])
  have "written E claimed avail ok ready delivered i buf ?h2 (write_loop E i f buf ?h2)"
    using dr assms(4) f(2) by (intro write_loop_put_all) (auto simp: drained_def)
  moreover have "write_loop E i fuel buf h = write_loop E i f buf ?h2"
    using put n assms(5) f by (cases buf) auto
  ultimately show ?thesis using written_trans [OF written_trans [OF w1 w2]] by simp
qed

lemma write_loop_written:
  assumes inv: "data_inv E claimed ok ready i h" and cur: "sm_at_host_get_current E h = Some i"
    and len: "length buf \<le> cfg_datamode_buf_size E" and fuel: "2 * length buf \<le> fuel"
  shows "written E claimed avail ok ready delivered i buf h (write_loop E i fuel buf h)"
proof (cases "buf = [] \<or> length buf + length (avail (c_data_rb (h_ctx h i))) \<le> cfg_datamode_buf_size E")
  case True
  then show ?thesis using write_loop_put_all [OF inv, of buf fuel] fuel inv
    by (cases buf; cases fuel) (auto simp: written_def data_same_def)
next
  case False
  have cap: "length (avail (c_data_rb (h_ctx h i))) \<le> cfg_datamode_buf_size E"
    using inv capacity_bound [of "c_data_rb (h_ctx h i)"] by (simp add: data_inv_def)
  obtain n rb where put: "rb_put (e_rb E) buf (c_data_rb (h_ctx h i)) = (n, rb)" by fastforce
  let ?h1 = "upd_ctx i (\<lambda>c. c\<lparr>c_data_rb := rb\<rparr>) h"
  show ?thesis
  proof (cases "length (avail (c_data_rb (h_ctx h i))) = cfg_datamode_buf_size E")
    case True
    then show ?thesis using write_loop_full [OF inv cur True len] False fuel by (cases buf) auto
  next
    case notfull: False
    have n: "0 < n" "n < length buf" "n = cfg_datamode_buf_size E - length (avail (c_data_rb (h_ctx h i)))"
      using put_written(2) [OF inv put] False cap notfull by (auto simp: min_def)
    have w1: "written E claimed avail ok ready delivered i (take n buf) h ?h1" by (rule put_written(1) [OF inv put])
    obtain f where f: "fuel = Suc f" "1 < f" using fuel n by (cases fuel) auto
    have full: "length (avail (c_data_rb (h_ctx ?h1 i))) = cfg_datamode_buf_size E"
      using put_content [of "c_data_rb (h_ctx h i)" buf] inv put n cap by (auto simp: data_inv_def)
    have cur1: "sm_at_host_get_current E ?h1 = Some i"
      using cur data_frame_lookup(4) [OF data_frame_rb, of E i "\<lambda>_. rb" h]
      by (auto simp: sm_at_host_get_current_def split: option.splits)
    have "written E claimed avail ok ready delivered i (drop n buf) ?h1 (write_loop E i f (drop n buf) ?h1)"
      using w1 len n f by (intro write_loop_full cur1 full) (auto simp: written_def)
    moreover have "write_loop E i fuel buf h = write_loop E i f (drop n buf) ?h1"
      using put n f False by (cases buf) auto
    ultimately show ?thesis using written_trans [OF w1, of "drop n buf"] by simp
  qed
qed

lemma write_data_buf_written:
  assumes inv: "data_inv E claimed ok ready i h" and cur: "sm_at_host_get_current E h = Some i"
    and len: "length buf \<le> cfg_datamode_buf_size E"
  shows "written E claimed avail ok ready delivered i buf h (write_data_buf E buf h)"
proof (cases "rb_is_empty (e_rb E) (c_data_rb (h_ctx h i))")
  case True
  let ?h1 = "upd_ctx i (\<lambda>c. c\<lparr>c_data_rb := rb_reset (e_rb E) (c_data_rb c)\<rparr>) h"
  have cur1: "sm_at_host_get_current E ?h1 = Some i"
    using cur data_frame_lookup(4) [OF data_frame_rb, of E i "\<lambda>c. rb_reset (e_rb E) (c_data_rb c)" h]
    by (auto simp: sm_at_host_get_current_def split: option.splits)
  have "written E claimed avail ok ready delivered i [] h ?h1"
    using inv True reset_ok [of "c_data_rb (h_ctx h i)"] reset_content [of "c_data_rb (h_ctx h i)"]
      reset_capacity [of "c_data_rb (h_ctx h i)"] is_empty [of "c_data_rb (h_ctx h i)"]
    by (auto simp: written_def data_inv_def data_same_def)
  moreover from this have "written E claimed avail ok ready delivered i buf ?h1 (write_loop E i (2 * length buf) buf ?h1)"
    by (intro write_loop_written cur1 len) (auto simp: written_def)
  ultimately show ?thesis using written_trans [of i "[]" h ?h1] cur True
    by (simp add: write_data_buf_def)
next
  case False
  then show ?thesis using write_loop_written [OF inv cur len order_refl] cur
    by (simp add: write_data_buf_def)
qed

text \<open>Writing to a full buffer with a handler that fails when it is told that there is more data.\<close>

lemma write_full_fails:
  assumes inv: "data_inv E claimed ok ready i h" and cur: "sm_at_host_get_current E h = Some i"
    and dm: "c_at_mode (h_ctx h i) = SM_DATA_MODE" "dm_handler (c_data_mode (h_ctx h i)) = Some cb"
    and full: "length (avail (c_data_rb (h_ctx h i))) = cfg_datamode_buf_size E"
    and len: "length buf \<le> cfg_datamode_buf_size E" and ne: "buf \<noteq> []"
    and fails: "\<And>d fl h'. ready cb i h' \<Longrightarrow> fl AND SM_DATAMODE_FLAGS_MORE_DATA \<noteq> 0 \<Longrightarrow>
      fst (e_datamode_handler E cb DATAMODE_SEND d fl h') < 0"
  shows "c_at_mode (h_ctx (write_data_buf E buf h) i) = SM_NULL_MODE"
proof -
  obtain n rb where put: "rb_put (e_rb E) buf (c_data_rb (h_ctx h i)) = (n, rb)" by fastforce
  let ?h1 = "upd_ctx i (\<lambda>c. c\<lparr>c_data_rb := rb\<rparr>) h"
  let ?h2 = "raw_send E SM_DATAMODE_FLAGS_MORE_DATA ?h1"
  have n: "n = 0" using put_written(2) [OF inv put] full by simp
  have w1: "written E claimed avail ok ready delivered i [] h ?h1" using put_written(1) [OF inv put] n by simp
  then have inv1: "data_inv E claimed ok ready i ?h1" by (simp add: written_def)
  have av1: "avail (c_data_rb (h_ctx ?h1 i)) = avail (c_data_rb (h_ctx h i))"
    using put_content [of "c_data_rb (h_ctx h i)" buf] inv put n by (simp add: data_inv_def)
  have cur1: "sm_at_host_get_current E ?h1 = Some i"
    using cur data_frame_lookup(4) [OF data_frame_rb, of E i "\<lambda>_. rb" h]
    by (auto simp: sm_at_host_get_current_def split: option.splits)
  have "fl AND SM_DATAMODE_FLAGS_MORE_DATA = SM_DATAMODE_FLAGS_MORE_DATA \<Longrightarrow> fl AND SM_DATAMODE_FLAGS_MORE_DATA \<noteq> 0" for fl :: "8 word"
    by simp
  then have null: "c_at_mode (h_ctx ?h2 i) = SM_NULL_MODE" unfolding raw_send_eq [OF inv1 cur1]
    using dm full av1 buf_size by (intro raw_send_loop_fails [OF inv1 cur1, of cb] fails) auto
  note dr = raw_send_drains [OF inv1 cur1, of SM_DATAMODE_FLAGS_MORE_DATA]
  obtain f where f: "2 * length buf = Suc f" "0 < f" using ne by (cases "length buf") auto
  have "written E claimed avail ok ready delivered i buf ?h2 (write_loop E i f buf ?h2)"
    using dr len f(2) by (intro write_loop_put_all) (auto simp: drained_def)
  then have "c_at_mode (h_ctx (write_loop E i f buf ?h2) i) = SM_NULL_MODE"
    using null by (auto simp: written_def data_frame_def data_same_def data_failed_def)
  moreover have "\<not> rb_is_empty (e_rb E) (c_data_rb (h_ctx h i))"
    using full buf_size inv is_empty [of "c_data_rb (h_ctx h i)"] by (auto simp: data_inv_def)
  moreover have "write_loop E i (2 * length buf) buf h = write_loop E i f buf ?h2"
    using put n ne f by (cases buf) auto
  ultimately show ?thesis using cur by (simp add: write_data_buf_def)
qed

text \<open>Leaving data mode: the handler is told and forgotten, the buffer is empty, and the context
  is back in AT command mode.\<close>

lemma exit_datamode_effect:
  assumes "exit_datamode E (Some i) h = (b, h')" and i: "i \<in> set (h_instances h)"
    and mode: "c_at_mode (h_ctx h i) \<in> {SM_DATA_MODE, SM_NULL_MODE}" and rb: "ok (c_data_rb (h_ctx h i))"
    and rd: "\<And>cb. dm_handler (c_data_mode (h_ctx h i)) = Some cb \<Longrightarrow> ready cb i h \<and> h_current h = Some i"
  shows "b" and "c_at_mode (h_ctx h' i) = SM_AT_COMMAND_MODE" and "dm_handler (c_data_mode (h_ctx h' i)) = None"
    and "dm_data_len (c_data_mode (h_ctx h' i)) = 0" and "c_quit_str_match (h_ctx h' i) = 0"
    and "avail (c_data_rb (h_ctx h' i)) = []" and "delivered (h_world h') = delivered (h_world h)"
    and "h_instances h' = h_instances h" and "h_current h' = h_current h"
proof -
  define h1 where "h1 = upd_ctx i (\<lambda>c. c\<lparr>c_at_mode := SM_AT_COMMAND_MODE\<rparr>) h"
  define h2 where "h2 = (case dm_handler (c_data_mode (h_ctx h1 i)) of
      Some cb \<Rightarrow> snd (e_datamode_handler E cb DATAMODE_EXIT [] SM_DATAMODE_FLAGS_NONE h1) | None \<Rightarrow> h1)"
  define h3 where "h3 = upd_ctx i (\<lambda>c. upd_dm (\<lambda>d. d\<lparr>dm_handler := None, dm_data_len := 0\<rparr>)
      (c\<lparr>c_quit_str_match := 0, c_data_rb := rb_reset (e_rb E) (c_data_rb c)\<rparr>)) h2"
  define h4 where "h4 = (if dm_handler_result (c_data_mode (h_ctx h3 i)) \<noteq> 0
      then upd_ctx i (upd_dm (\<lambda>d. d\<lparr>dm_handler_result := -1\<rparr>)) h3 else h3)"
  define h5 where "h5 = rsp_send E (CRLF_STR @ ''#XDATAMODE: '' @
      show_int (dm_handler_result (c_data_mode (h_ctx h4 i))) @ CRLF_STR) h4"
  define h6 where "h6 = upd_ctx i (upd_dm (\<lambda>d. d\<lparr>dm_handler_result := 0\<rparr>)) h5"
  have m: "set_sm_mode E (Some i) SM_AT_COMMAND_MODE h = (True, h1)"
    using i mode by (auto simp: set_sm_mode_def sm_at_ctx_check_def h1_def)
  have "exit_datamode E (Some i) h = (True, sm_at_host_event_notify E (Some i) SM_EVENT_AT_MODE h6)"
    by (simp only: exit_datamode_def m option.case prod.case bool.case Let_def h2_def h3_def h4_def h5_def h6_def)
  then have res: "b" "h' = sm_at_host_event_notify E (Some i) SM_EVENT_AT_MODE h6"
    using assms(1) by simp_all
  show "b" by (rule res)
  have o2: "exit_frame h1 h2 \<and> delivered (h_world h2) = delivered (h_world h1)"
  proof (cases "dm_handler (c_data_mode (h_ctx h1 i))")
    case (Some cb)
    then have "ready cb i h1" "h_current h1 = Some i" using rd by (simp_all add: h1_def)
    moreover obtain m hx where "e_datamode_handler E cb DATAMODE_EXIT [] SM_DATAMODE_FLAGS_NONE h1 = (m, hx)" by fastforce
    ultimately show ?thesis using Some i handler_exit [of cb SM_DATAMODE_FLAGS_NONE h1 m hx i] by (simp add: h2_def h1_def)
  qed (simp add: h2_def)
  have o5: "out_frame h4 h5" unfolding h5_def by (rule rsp_send_frame)
  have o7: "out_frame h6 h'" unfolding res(2) by (rule event_notify_frame)
  note c2 = dctx_frameD [OF exit_frameD(6) [OF conjunct1 [OF o2]]] and d2 = exit_frameD [OF conjunct1 [OF o2]]
    and c5 = ctx_frameD [OF out_frameD(10) [OF o5]] and d5 = out_frameD [OF o5]
    and c7 = ctx_frameD [OF out_frameD(10) [OF o7]] and d7 = out_frameD [OF o7]
  have c4: "c_at_mode (h_ctx h4 i) = SM_AT_COMMAND_MODE" "dm_handler (c_data_mode (h_ctx h4 i)) = None"
    "dm_data_len (c_data_mode (h_ctx h4 i)) = 0" "c_quit_str_match (h_ctx h4 i) = 0"
    "c_data_rb (h_ctx h4 i) = rb_reset (e_rb E) (c_data_rb (h_ctx h i))"
    by (simp_all add: h4_def h3_def c2) (simp_all add: h1_def)
  then show "c_at_mode (h_ctx h' i) = SM_AT_COMMAND_MODE" "dm_handler (c_data_mode (h_ctx h' i)) = None"
    "dm_data_len (c_data_mode (h_ctx h' i)) = 0" "c_quit_str_match (h_ctx h' i) = 0"
    "avail (c_data_rb (h_ctx h' i)) = []"
    using reset_content [OF rb] by (simp_all add: c7 h6_def c5)
  show "h_instances h' = h_instances h" "h_current h' = h_current h"
    using d2 d5 d7 by (simp_all add: h6_def h4_def h3_def h1_def)
  show "delivered (h_world h') = delivered (h_world h)"
    using conjunct2 [OF o2] by (simp add: res(2) h6_def h5_def h4_def h3_def h1_def)
qed

end

text \<open>A handler that accepts some of what it is given never ends data mode on its own.\<close>

locale reliable_sink = data_sink +
  assumes handler_accepts: "e_datamode_handler E cb DATAMODE_SEND d fl h = (n, h') \<Longrightarrow>
      sm_at_host_get_current E h = Some i \<Longrightarrow> i \<in> set (h_instances h) \<Longrightarrow>
      c_at_mode (h_ctx h i) = SM_DATA_MODE \<Longrightarrow> dm_handler (c_data_mode (h_ctx h i)) = Some cb \<Longrightarrow> ready cb i h \<Longrightarrow>
      d \<noteq> [] \<Longrightarrow> 0 < n"
begin

lemma raw_send_loop_stays:
  assumes "data_inv E claimed ok ready i h" and "sm_at_host_get_current E h = Some i"
    and "c_at_mode (h_ctx h i) = SM_DATA_MODE"
  shows "c_at_mode (h_ctx (raw_send_loop E i fl fuel True h) i) = SM_DATA_MODE"
  using assms
proof (induction fuel arbitrary: h)
  case (Suc fuel)
  let ?b = "c_data_rb (h_ctx h i)"
  obtain d rb where cl: "rb_get_claim (e_rb E) (cfg_datamode_buf_size E) ?b = (d, rb)" by fastforce
  show ?case
  proof (cases "d = []")
    case True
    then show ?thesis using cl Suc.prems by (simp add: Let_def)
  next
    case False
    obtain cb where cb: "dm_handler (c_data_mode (h_ctx h i)) = Some cb" "ready cb i h"
      using Suc.prems by (auto simp: data_inv_def)
    define fl' where "fl' = (if length d \<noteq> rb_size_get (e_rb E) ?b then fl OR SM_DATAMODE_FLAGS_MORE_DATA else fl)"
    let ?h1 = "upd_ctx i (\<lambda>c. c\<lparr>c_data_rb := rb\<rparr>) h"
    obtain ret h2 where send: "e_datamode_handler E cb DATAMODE_SEND d fl' ?h1 = (ret, h2)" by fastforce
    have "sm_at_host_get_current E ?h1 = Some i"
      using Suc.prems(2) data_frame_lookup(4) [OF data_frame_rb, of E i "\<lambda>_. rb" h]
      by (auto simp: sm_at_host_get_current_def split: option.splits)
    then have ret: "0 < ret" "data_same i ?h1 h2"
      using handler_accepts [OF send] handler_send [OF send] Suc.prems False cb by (auto simp: data_inv_def)
    let ?h4 = "upd_ctx i (\<lambda>c. c\<lparr>c_data_rb := snd (rb_get_finish (e_rb E) (nat ret) (c_data_rb c))\<rparr>) h2"
    have step: "raw_send_loop E i fl (Suc fuel) True h = raw_send_loop E i fl fuel True ?h4"
      using cl False cb send ret by (simp add: Let_def fl'_def)
    note rd = raw_send_round [OF Suc.prems(1,2) cl False cb(1) send, of "nat ret" h2 True]
    have same: "data_same i h ?h4" using ret(2) by (auto simp: data_same_def)
    have inv4: "data_inv E claimed ok ready i ?h4" "data_frame i h ?h4" using rd ret by auto
    then have "sm_at_host_get_current E ?h4 = Some i"
      using Suc.prems(2) same data_frame_lookup(4) [of i h ?h4 E]
      by (auto simp: sm_at_host_get_current_def data_same_def split: option.splits)
    then show ?thesis unfolding step using inv4 same Suc.prems(3)
      by (intro Suc.IH) (auto simp: data_same_def)
  qed
qed simp

lemma raw_send_stays:
  assumes "data_inv E claimed ok ready i h" and "sm_at_host_get_current E h = Some i"
    and "c_at_mode (h_ctx h i) = SM_DATA_MODE"
  shows "c_at_mode (h_ctx (raw_send E fl h) i) = SM_DATA_MODE"
  unfolding raw_send_eq [OF assms(1,2)] by (rule raw_send_loop_stays [OF assms])

lemma write_loop_stays:
  assumes "data_inv E claimed ok ready i h" and "sm_at_host_get_current E h = Some i"
    and "c_at_mode (h_ctx h i) = SM_DATA_MODE"
  shows "c_at_mode (h_ctx (write_loop E i fuel buf h) i) = SM_DATA_MODE"
  using assms
proof (induction fuel arbitrary: buf h)
  case 0
  then show ?case by (cases buf) simp_all
next
  case (Suc fuel)
  obtain n rb where put: "rb_put (e_rb E) buf (c_data_rb (h_ctx h i)) = (n, rb)" by fastforce
  let ?h1 = "upd_ctx i (\<lambda>c. c\<lparr>c_data_rb := rb\<rparr>) h"
  have inv1: "data_inv E claimed ok ready i ?h1" using put_written(1) [OF Suc.prems(1) put] by (simp add: written_def)
  have cur1: "sm_at_host_get_current E ?h1 = Some i"
    using Suc.prems(2) data_frame_lookup(4) [OF data_frame_rb, of E i "\<lambda>_. rb" h]
    by (auto simp: sm_at_host_get_current_def split: option.splits)
  have dm1: "c_at_mode (h_ctx ?h1 i) = SM_DATA_MODE" using Suc.prems by simp
  let ?h2 = "raw_send E SM_DATAMODE_FLAGS_MORE_DATA ?h1"
  have dr: "drained E claimed avail ok ready delivered i ?h1 ?h2" by (rule raw_send_drains [OF inv1 cur1])
  have dm2: "c_at_mode (h_ctx ?h2 i) = SM_DATA_MODE" by (rule raw_send_stays [OF inv1 cur1 dm1])
  then have "data_same i ?h1 ?h2" using dr by (auto simp: drained_def)
  then have cur2: "sm_at_host_get_current E ?h2 = Some i"
    using cur1 dr data_frame_lookup(4) [of i ?h1 ?h2 E]
    by (auto simp: sm_at_host_get_current_def data_same_def drained_def split: option.splits)
  show ?case
    using put Suc.IH [OF inv1 cur1 dm1] Suc.IH [OF _ cur2 dm2] dr Suc.prems
    by (cases buf) (auto simp: drained_def Let_def)
qed

lemma write_data_buf_stays:
  assumes inv: "data_inv E claimed ok ready i h" and cur: "h_current h = Some i"
    and dm: "c_at_mode (h_ctx h i) = SM_DATA_MODE" and len: "length buf \<le> cfg_datamode_buf_size E"
  defines "h' \<equiv> write_data_buf E buf h"
  shows "data_inv E claimed ok ready i h'" and "h_current h' = Some i" and "c_at_mode (h_ctx h' i) = SM_DATA_MODE"
    and "c_data_mode (h_ctx h' i) = c_data_mode (h_ctx h i)"
    and "c_quit_str_match (h_ctx h' i) = c_quit_str_match (h_ctx h i)"
    and "delivered (h_world h') @ avail (c_data_rb (h_ctx h' i)) =
         delivered (h_world h) @ avail (c_data_rb (h_ctx h i)) @ buf"
proof -
  have cur': "sm_at_host_get_current E h = Some i" using cur by (simp add: sm_at_host_get_current_def)
  let ?h1 = "upd_ctx i (\<lambda>c. c\<lparr>c_data_rb := rb_reset (e_rb E) (c_data_rb c)\<rparr>) h"
  have inv1: "data_inv E claimed ok ready i ?h1"
    using inv reset_ok [of "c_data_rb (h_ctx h i)"] reset_content [of "c_data_rb (h_ctx h i)"]
      reset_capacity [of "c_data_rb (h_ctx h i)"] by (auto simp: data_inv_def)
  have cur1: "sm_at_host_get_current E ?h1 = Some i" using cur by (simp add: sm_at_host_get_current_def)
  show dm': "c_at_mode (h_ctx h' i) = SM_DATA_MODE"
    using write_loop_stays [OF inv cur' dm] write_loop_stays [OF inv1 cur1] dm cur'
    by (auto simp: h'_def write_data_buf_def)
  have "written E claimed avail ok ready delivered i buf h h'"
    unfolding h'_def by (rule write_data_buf_written [OF inv cur' len])
  then show "data_inv E claimed ok ready i h'" "h_current h' = Some i"
    "c_data_mode (h_ctx h' i) = c_data_mode (h_ctx h i)"
    "c_quit_str_match (h_ctx h' i) = c_quit_str_match (h_ctx h i)"
    "delivered (h_world h') @ avail (c_data_rb (h_ctx h' i)) =
     delivered (h_world h) @ avail (c_data_rb (h_ctx h i)) @ buf"
    using dm' cur by (auto simp: written_def data_same_def data_frame_def)
qed

end

text \<open>With such a handler, reception is the automaton.\<close>

locale data_terminal = reliable_sink +
  fixes i :: ctx_id
  assumes quit_len: "0 < length (cfg_datamode_terminator E)" "length (cfg_datamode_terminator E) < 256"
      "length (cfg_datamode_terminator E) \<le> cfg_datamode_buf_size E"
begin

lemma raw_match_miss:
  assumes inv: "data_inv E claimed ok ready i h" "h_current h = Some i" "c_at_mode (h_ctx h i) = SM_DATA_MODE"
    and dl: "dm_data_len (c_data_mode (h_ctx h i)) = 0"
    and m: "c_quit_str_match (h_ctx h i) = 0" "c \<noteq> cfg_datamode_terminator E ! 0"
    and h'_def: "h' = raw_match E (Suc passes) i c h"
  shows "data_rx_inv E claimed ok ready i h' \<and> data_scan avail delivered i h' =
    Scanning 0 (delivered (h_world h) @ avail (c_data_rb (h_ctx h i)) @ [c])"
proof -
  have "h' = write_data_buf E [c] h" using m quit_len by (simp add: h'_def cstr_nth_def)
  then show ?thesis
    using write_data_buf_stays [OF inv, of "[c]"] buf_size quit_len dl m
    by (auto simp: data_rx_inv_def data_scan_def)
qed

lemma raw_match_hit:
  assumes inv: "data_inv E claimed ok ready i h" "h_current h = Some i" "c_at_mode (h_ctx h i) = SM_DATA_MODE"
    and dl: "dm_data_len (c_data_mode (h_ctx h i)) = 0"
    and m: "c_quit_str_match (h_ctx h i) = m" "c = cfg_datamode_terminator E ! m"
      "Suc m < length (cfg_datamode_terminator E)"
    and h'_def: "h' = raw_match E (Suc passes) i c h"
  shows "data_rx_inv E claimed ok ready i h' \<and> data_scan avail delivered i h' =
    Scanning (Suc m) (delivered (h_world h) @ avail (c_data_rb (h_ctx h i)))"
proof -
  have "h' = upd_ctx i (\<lambda>x. x\<lparr>c_quit_str_match := Suc m\<rparr>) h"
    using m quit_len by (simp add: h'_def cstr_nth_def Let_def)
  then show ?thesis using inv dl m by (simp add: data_rx_inv_def data_scan_def)
qed

lemma raw_match_exit:
  assumes inv: "data_inv E claimed ok ready i h" "h_current h = Some i" "c_at_mode (h_ctx h i) = SM_DATA_MODE"
    and m: "c_quit_str_match (h_ctx h i) = m" "c = cfg_datamode_terminator E ! m"
      "Suc m = length (cfg_datamode_terminator E)"
    and h'_def: "h' = raw_match E (Suc passes) i c h"
  shows "data_rx_inv E claimed ok ready i h' \<and> data_scan avail delivered i h' =
    Stopped (delivered (h_world h) @ avail (c_data_rb (h_ctx h i)))"
proof -
  let ?h1 = "upd_ctx i (\<lambda>x. x\<lparr>c_quit_str_match := Suc m\<rparr>) h"
  let ?h2 = "raw_send E SM_DATAMODE_FLAGS_NONE ?h1"
  obtain b h3 where ex: "exit_datamode E (Some i) ?h2 = (b, h3)" by fastforce
  have h': "h' = upd_ctx i (\<lambda>x. x\<lparr>c_quit_str_match := 0\<rparr>) h3"
    using m quit_len ex by (simp add: h'_def cstr_nth_def Let_def)
  have inv1: "data_inv E claimed ok ready i ?h1" "sm_at_host_get_current E ?h1 = Some i"
    "c_at_mode (h_ctx ?h1 i) = SM_DATA_MODE"
    using inv by (simp_all add: sm_at_host_get_current_def)
  note dr = raw_send_drains [OF inv1(1,2), of SM_DATAMODE_FLAGS_NONE]
    and dm = raw_send_stays [OF inv1, of SM_DATAMODE_FLAGS_NONE]
  have d2: "i \<in> set (h_instances ?h2)" "ok (c_data_rb (h_ctx ?h2 i))"
    "delivered (h_world ?h2) = delivered (h_world h) @ avail (c_data_rb (h_ctx h i))"
    using dr dm by (auto simp: drained_def data_inv_def)
  have rd2: "ready cb i ?h2 \<and> h_current ?h2 = Some i" if "dm_handler (c_data_mode (h_ctx ?h2 i)) = Some cb" for cb
    using dr dm that inv by (auto simp: drained_def data_inv_def data_same_def)
  note e = exit_datamode_effect [OF ex d2(1) _ d2(2) rd2]
  show ?thesis unfolding h' using e dm d2(3) by (simp add: data_rx_inv_def data_scan_def)
qed

lemma data_rx_simulates:
  assumes "data_rx_inv E claimed ok ready i h"
  shows "data_rx_inv E claimed ok ready i (data_rx E i h c) \<and>
    data_scan avail delivered i (data_rx E i h c) =
    scan_step (cfg_datamode_terminator E) (data_scan avail delivered i h) c"
proof (cases "c_at_mode (h_ctx h i) = SM_DATA_MODE")
  case False
  then show ?thesis using assms by (simp add: data_rx_def data_scan_def)
next
  case True
  let ?Q = "cfg_datamode_terminator E" and ?m = "c_quit_str_match (h_ctx h i)"
  have inv: "data_inv E claimed ok ready i h" "h_current h = Some i"
    and dl: "dm_data_len (c_data_mode (h_ctx h i)) = 0" and m: "?m < length ?Q"
    using assms True by (auto simp: data_rx_inv_def)
  note st = inv True
  have rx: "data_rx E i h c = raw_match E (Suc 1) i c h"
    using True dl by (simp add: data_rx_def raw_rx_handler_def numeral_2_eq_2)
  have sc: "data_scan avail delivered i h = Scanning ?m (delivered (h_world h) @ avail (c_data_rb (h_ctx h i)))"
    using True by (simp add: data_scan_def)
  consider (hit) "c = ?Q ! ?m" "Suc ?m < length ?Q" | (exit) "c = ?Q ! ?m" "Suc ?m = length ?Q"
    | (miss) "c \<noteq> ?Q ! ?m" "?m = 0" | (retry) "c \<noteq> ?Q ! ?m" "0 < ?m"
    using m by linarith
  then show ?thesis
  proof cases
    case hit
    then show ?thesis unfolding rx sc using raw_match_hit [OF st dl refl hit refl, of 1] by simp
  next
    case exit
    then show ?thesis unfolding rx sc using raw_match_exit [OF st refl exit refl, of 1] by simp
  next
    case miss
    then show ?thesis unfolding rx sc using raw_match_miss [OF st dl miss(2) _ refl, of c 1] by simp
  next
    case retry
    let ?h1 = "write_data_buf E (take ?m ?Q) h"
    let ?h2 = "upd_ctx i (\<lambda>x. x\<lparr>c_quit_str_match := 0\<rparr>) ?h1"
    have "length (take ?m ?Q) \<le> cfg_datamode_buf_size E" using quit_len(3) by simp
    note w = write_data_buf_stays [OF st this]
    have s2: "data_inv E claimed ok ready i ?h2" "h_current ?h2 = Some i" "c_at_mode (h_ctx ?h2 i) = SM_DATA_MODE"
      and d2: "dm_data_len (c_data_mode (h_ctx ?h2 i)) = 0" and m2: "c_quit_str_match (h_ctx ?h2 i) = 0"
      using w dl by simp_all
    have rx2: "data_rx E i h c = raw_match E (Suc 0) i c ?h2"
      using retry m unfolding rx by (simp add: cstr_nth_def Let_def)
    show ?thesis unfolding rx2 sc
      using raw_match_hit [OF s2 d2 m2 _ _ refl, of c 0] raw_match_miss [OF s2 d2 m2 _ refl, of c 0] retry m w(6)
      by (cases "c = ?Q ! 0") auto
  qed
qed

end

sublocale data_terminal \<subseteq> rx: simulation_machine "data_rx E i" "data_rx_inv E claimed ok ready i"
    "scan_step (cfg_datamode_terminator E)" "data_scan avail delivered i"
  by unfold_locales (simp_all add: data_rx_simulates)

context data_terminal
begin

lemmas data_rx_run = rx.run_abs

end

section \<open>Properties\<close>

text \<open>Sending the buffered data of data mode always ends with an empty buffer and without a claim
  left open. Either the handler got every byte, in order, and data mode goes on; or it failed, got
  a prefix, and the context is in null mode with the rest dropped.\<close>

lemma raw_send_drains_buffer:
  fixes flags :: "8 word"
  assumes "data_sink E cl av ok rd dl" and "data_inv E cl ok rd i h" and "sm_at_host_get_current E h = Some i"
  defines "h' \<equiv> raw_send E flags h"
  shows "data_inv E cl ok rd i h' \<and> av (c_data_rb (h_ctx h' i)) = [] \<and> h_fault h' = h_fault h \<and>
    (\<exists>k. dl (h_world h') = dl (h_world h) @ take k (av (c_data_rb (h_ctx h i))) \<and>
       (k = length (av (c_data_rb (h_ctx h i))) \<and> c_at_mode (h_ctx h' i) = c_at_mode (h_ctx h i) \<or>
        c_at_mode (h_ctx h' i) = SM_NULL_MODE))"
  using data_sink.raw_send_drains [OF assms(1-3), of flags] unfolding h'_def
  by (auto simp: drained_def data_same_def)


text \<open>At every baud rate from 1200 on and with a receive buffer of at most 4096 bytes, the shortest
  idle time of data mode is the time to receive one buffer plus 10 ms, rounded down: the product
  does not overflow and the value is not truncated to 16 bits.\<close>

lemma min_data_mode_timeout_exact:
  assumes "1200 \<le> h_uart_baudrate h" and "cfg_uart_rx_buf_size E \<le> 4096"
  shows "unat (get_min_data_mode_idle_timeout_ms E h) =
    cfg_uart_rx_buf_size E * 10000 div h_uart_baudrate h + 10"
proof -
  let ?n = "cfg_uart_rx_buf_size E * 10000" and ?q = "cfg_uart_rx_buf_size E * 10000 div h_uart_baudrate h"
  have "?q \<le> ?n div 1200" using assms(1) by (intro div_le_mono2) simp_all
  also have "\<dots> \<le> 4096 * 10000 div 1200" using assms(2) by (intro div_le_mono) simp
  finally have q: "?q + 10 < 2 ^ 16" by simp
  have "?n mod 2 ^ 32 = ?n" using assms(2) by simp
  then have "get_min_data_mode_idle_timeout_ms E h = word_of_nat (?q + 10)"
    using assms(1) by (simp add: get_min_data_mode_idle_timeout_ms_def mult.commute)
  then have "unat (get_min_data_mode_idle_timeout_ms E h) = (?q + 10) mod 2 ^ 16" by (simp only: unat_of_nat) simp
  then show ?thesis using q by simp
qed

text \<open>C35: A handler that fails while a partial terminator is written back clears the current context in
  the middle of the reception of a byte, so that the byte itself is then written to the buffer of
  the context that receives the URCs, when that is another one. This happens when the buffer of data
  mode is full, a part of the terminator was matched, the next byte is none of the terminator's, and the
  handler fails when it is called with the flag for more data.\<close>

theorem data_failure_misroutes_byte:
  assumes "data_sink E cl av ok rd dl" and "data_inv E cl ok rd i h" and "h_current h = Some i"
    and "c_at_mode (h_ctx h i) = SM_DATA_MODE" and "dm_data_len (c_data_mode (h_ctx h i)) = 0"
    and "length (av (c_data_rb (h_ctx h i))) = cfg_datamode_buf_size E"
    and "0 < c_quit_str_match (h_ctx h i)" and "c_quit_str_match (h_ctx h i) < length (cfg_datamode_terminator E)"
    and "length (cfg_datamode_terminator E) \<le> cfg_datamode_buf_size E" and "c \<notin> set (cfg_datamode_terminator E)"
    and "sm_at_host_get_urc_ctx E h = Some j" and "j \<noteq> i"
    and fails: "\<And>cb d fl h'. dm_handler (c_data_mode (h_ctx h i)) = Some cb \<Longrightarrow> rd cb i h' \<Longrightarrow>
      fl AND SM_DATAMODE_FLAGS_MORE_DATA \<noteq> 0 \<Longrightarrow> fst (e_datamode_handler E cb DATAMODE_SEND d fl h') < 0"
  shows "\<exists>h1. raw_rx_handler E i c h = write_data_buf E [c] h1 \<and> sm_at_host_get_current E h1 = Some j \<and> j \<noteq> i \<and>
    c_at_mode (h_ctx h1 i) = SM_NULL_MODE"
proof -
  let ?Q = "cfg_datamode_terminator E" and ?m = "c_quit_str_match (h_ctx h i)"
  let ?h0 = "write_data_buf E (take ?m ?Q) h"
  let ?h1 = "upd_ctx i (\<lambda>x. x\<lparr>c_quit_str_match := 0\<rparr>) ?h0"
  have cur: "sm_at_host_get_current E h = Some i" using assms(3) by (simp add: sm_at_host_get_current_def)
  have len: "length (take ?m ?Q) \<le> cfg_datamode_buf_size E" and ne: "take ?m ?Q \<noteq> []" using assms(7-9) by auto
  note w = data_sink.write_data_buf_written [OF assms(1,2) cur len]
  have fr: "data_frame i h ?h0" using w by (auto simp: written_def)
  obtain cb where cb: "dm_handler (c_data_mode (h_ctx h i)) = Some cb" using assms(2,4) by (auto simp: data_inv_def)
  have "c_at_mode (h_ctx ?h0 i) = SM_NULL_MODE"
    by (rule data_sink.write_full_fails [OF assms(1,2) cur assms(4) cb assms(6) len ne fails [OF cb]])
  then have failed: "data_failed i h ?h0" using fr assms(4) by (auto simp: data_frame_def data_same_def)
  have "sm_at_host_get_urc_ctx E ?h1 = sm_at_host_get_urc_ctx E ?h0"
    by (rule urc_ctx_upd) simp_all
  then have "sm_at_host_get_current E ?h1 = Some j"
    using failed assms(11) data_frame_lookup(4) [OF fr, of E]
    by (simp add: sm_at_host_get_current_def data_failed_def)
  moreover have "raw_rx_handler E i c h = write_data_buf E [c] ?h1"
  proof -
    have "0 < length ?Q" using assms(8) by linarith
    then have "?Q ! ?m \<noteq> c" "?Q ! 0 \<noteq> c" "?Q \<noteq> []" using assms(8,10) nth_mem [of ?m ?Q] nth_mem [of 0 ?Q] by auto
    then show ?thesis using assms(5,7,8)
      by (simp add: raw_rx_handler_def numeral_2_eq_2 Let_def cstr_nth_def)
  qed
  moreover have "c_at_mode (h_ctx ?h1 i) = SM_NULL_MODE" using failed by (simp add: data_failed_def)
  ultimately show ?thesis using assms(12) by blast
qed

end
