(* ===== verification/At_Host_Cmd.thy ===== *)
theory At_Host_Cmd
  imports At_Host_Data
begin

text \<open>
  Command mode of the AT host (\<open>app/src/sm_at_host.c\<close>): assembling a command line from received
  bytes (with echo, backspace, quoting and a command buffer that grows and shrinks), executing
  it, and the dispatch of received bytes by operation mode.
\<close>

section \<open>Executing a command line\<close>

definition handle_bootloader_at_cmd ::
  "('rb, 'w) env \<Rightarrow> string \<Rightarrow> ('rb, 'w) host \<Rightarrow> ('rb, 'w) host" where
  "handle_bootloader_at_cmd E at_cmd h =
     (if casecmp_prefix ''AT#XDFUINIT'' at_cmd then
        (case e_xdfu E XdfuInit at_cmd h of
           (err, h) \<Rightarrow> if err \<noteq> 0 then rsp_send_error E h else rsp_send_ok E h)
      else if casecmp_prefix ''AT#XDFUWRITE'' at_cmd then
        (case e_xdfu E XdfuWrite at_cmd h of
           (err, h) \<Rightarrow> if err \<noteq> 0 then rsp_send_error E h else rsp_send_ok E h)
      else if casecmp_prefix ''AT#XDFUAPPLY'' at_cmd then
        (case e_xdfu E XdfuApply at_cmd h of
           (err, h) \<Rightarrow> if err \<noteq> 0 then rsp_send_error E h else rsp_send_ok E h)
      else if casecmp_prefix ''AT#XRESET'' at_cmd then e_final_reset E h
      else rsp_send_error E h)"

text \<open>The bytes before the first \<open>AT\<close> are skipped; with no \<open>AT\<close> the whole line stays.\<close>

fun skip_to_at :: "string \<Rightarrow> string option" where
  "skip_to_at (a # t # s) =
     (if c_toupper a = CHR ''A'' \<and> c_toupper t = CHR ''T'' then Some (a # t # s)
      else skip_to_at (t # s))"
| "skip_to_at _ = None"

definition cmd_send ::
  "('rb, 'w) env \<Rightarrow> ctx_id \<Rightarrow> string \<Rightarrow> ('rb, 'w) host \<Rightarrow> ('rb, 'w) host" where
  "cmd_send E i buf h =
     (let at_cmd = (case skip_to_at buf of Some s \<Rightarrow> s | None \<Rightarrow> buf);
          err = cmd_grammar_check at_cmd (length at_cmd)
      in if err < 0 then (if err = - ENOENT then h else rsp_send_error E h)
         else if h_bootloader_mode h then handle_bootloader_at_cmd E (cstr at_cmd) h
         else
           let dec = upd_ctx i (\<lambda>c. c\<lparr>c_executing_lock := c_executing_lock c - 1\<rparr>);
               h = upd_ctx i (\<lambda>c. c\<lparr>c_executing_lock := c_executing_lock c + 1\<rparr>) h
           in case e_at_cmd E (cfg_at_buf_size E + 1 - 2) (cstr at_cmd) h of
                ((err, rsp), h) \<Rightarrow>
                  (if err = - AT_COMMAND_CONTINUE_RET then h
                   else if err = - SILENT_AT_COMMAND_RET then dec h
                   else if err < 0 then dec (rsp_send_error E h)
                   else
                     (let rsp_buf = CR # LF # rsp; len = length (cstr rsp_buf)
                      in dec (if len > length CRLF_STR
                              then snd (sm_at_send_internal E (Some i)
                                     (cstr (format_final_result rsp_buf len (cfg_at_buf_size E + 1))) False h)
                              else h))))"

section \<open>Assembling a command line\<close>

definition cmd_finish :: "('rb, 'w) env \<Rightarrow> ctx_id \<Rightarrow> ('rb, 'w) host \<Rightarrow> ('rb, 'w) host" where
  "cmd_finish E i h =
     (let h = upd_ctx i (\<lambda>c. c\<lparr>c_inside_quotes := False, c_at_cmd_len := 0, c_echo_len := 0\<rparr>) h;
          h = (if c_at_buf_size (h_ctx h i) > AT_BUF_MIN_SIZE then
                 (case e_malloc E AT_BUF_MIN_SIZE (h_world h) of
                    (True, w) \<Rightarrow> upd_ctx i (\<lambda>c. c\<lparr>c_at_buf := take AT_BUF_MIN_SIZE (c_at_buf c),
                                   c_at_buf_size := AT_BUF_MIN_SIZE\<rparr>) (h\<lparr>h_world := w\<rparr>)
                  | (False, w) \<Rightarrow> h\<lparr>h_world := w\<rparr>)
               else h);
          h = upd_ctx i (\<lambda>c. c\<lparr>c_idle_timer := 0\<rparr>) h
      in sm_at_host_event_notify E (Some i) SM_EVENT_URC h)"

text \<open>The part from \<open>handle_echo\<close> on: the echo, and the execution of a complete line.\<close>

definition cmd_echo ::
  "('rb, 'w) env \<Rightarrow> ctx_id \<Rightarrow> char \<Rightarrow> bool \<Rightarrow> ('rb, 'w) host \<Rightarrow> ('rb, 'w) host" where
  "cmd_echo E i c send h =
     (if c_echo_enabled (h_ctx h i) then
        (let h = upd_ctx i (\<lambda>x. x\<lparr>c_echo_len := (c_echo_len x + 1) mod SIZE_MOD\<rparr>) h;
             truncate = (c_echo_len (h_ctx h i) \<ge> cfg_at_echo_max_len E);
             h = (if \<not> truncate then snd (sm_at_send_internal E (Some i) [c] False h) else h)
         in if send \<and> truncate then
              snd (sm_at_send_internal E (Some i)
                (case cfg_termination E of
                   CR_TERMINATION \<Rightarrow> [CR] | LF_TERMINATION \<Rightarrow> [LF] | CR_LF_TERMINATION \<Rightarrow> [CR, LF])
                False h)
            else h)
      else h)"

definition cmd_execute :: "('rb, 'w) env \<Rightarrow> ctx_id \<Rightarrow> ('rb, 'w) host \<Rightarrow> ('rb, 'w) host" where
  "cmd_execute E i h =
     (let x = h_ctx h i
      in if c_at_cmd_len x > c_at_buf_size x - 1 then rsp_send_error E h
         else if c_at_cmd_len x > 0 then
           cmd_send E i (take (c_at_cmd_len x) (c_at_buf x))
             (upd_ctx i (\<lambda>c. c\<lparr>c_at_buf := (c_at_buf c)[c_at_cmd_len c := NUL]\<rparr>) h)
         else h)"

definition cmd_echo_send ::
  "('rb, 'w) env \<Rightarrow> ctx_id \<Rightarrow> char \<Rightarrow> bool \<Rightarrow> ('rb, 'w) host \<Rightarrow> ('rb, 'w) host" where
  "cmd_echo_send E i c send h =
     (let h = cmd_echo E i c send h
      in if send then cmd_finish E i (cmd_execute E i h) else h)"

text \<open>The editing of the buffer: the backspace, the termination character, the stored byte.\<close>

definition cmd_backspace :: "'rb sm_at_host_ctx \<Rightarrow> 'rb sm_at_host_ctx" where
  "cmd_backspace x =
     (let len = c_at_cmd_len x - 1
      in x\<lparr>c_at_cmd_len := len,
           c_inside_quotes := (if c_prev_character x = DQUOTE then \<not> c_inside_quotes x
                               else c_inside_quotes x),
           c_prev_character := (if len > 0 then c_at_buf x ! (len - 1) else NUL)\<rparr>)"

definition cmd_terminates :: "term_mode \<Rightarrow> 'rb sm_at_host_ctx \<Rightarrow> char \<Rightarrow> bool" where
  "cmd_terminates tm x c \<longleftrightarrow> \<not> c_inside_quotes x \<and>
     (c = CR \<and> tm = CR_TERMINATION \<or> c = LF \<and> tm = LF_TERMINATION \<or>
      c = LF \<and> tm = CR_LF_TERMINATION \<and> c_at_cmd_len x > 0 \<and> c_prev_character x = CR)"

definition cmd_trim_cr :: "term_mode \<Rightarrow> 'rb sm_at_host_ctx \<Rightarrow> 'rb sm_at_host_ctx" where
  "cmd_trim_cr tm x =
     (if tm = CR_LF_TERMINATION then x\<lparr>c_at_cmd_len := c_at_cmd_len x - 1\<rparr> else x)"

definition cmd_store :: "char \<Rightarrow> 'rb sm_at_host_ctx \<Rightarrow> 'rb sm_at_host_ctx" where
  "cmd_store c x =
     x\<lparr>c_at_buf := (if c_at_cmd_len x < c_at_buf_size x - 1 then (c_at_buf x)[c_at_cmd_len x := c]
                    else c_at_buf x),
       c_at_cmd_len := c_at_cmd_len x + 1,
       c_inside_quotes := (if c = DQUOTE then \<not> c_inside_quotes x else c_inside_quotes x),
       c_prev_character := c\<rparr>"

text \<open>Growing the buffer. \<open>realloc\<close> keeps the old bytes; the new ones are indeterminate and
  modelled as zero.\<close>

definition cmd_grow ::
  "('rb, 'w) env \<Rightarrow> ctx_id \<Rightarrow> ('rb, 'w) host \<Rightarrow> bool \<times> ('rb, 'w) host" where
  "cmd_grow E i h =
     (let x = h_ctx h i
      in if c_at_cmd_len x \<ge> c_at_buf_size x - 2 then
           (let new_size = c_at_buf_size x * 2
            in if new_size > AT_BUF_MAX_SIZE then (False, rsp_send_error E h)
               else case e_malloc E new_size (h_world h) of
                 (False, w) \<Rightarrow> (False, rsp_send_error E (h\<lparr>h_world := w\<rparr>))
               | (True, w) \<Rightarrow>
                   (True, upd_ctx i (\<lambda>c. c\<lparr>c_at_buf := c_at_buf c @ replicate (new_size - length (c_at_buf c)) NUL,
                      c_at_buf_size := new_size\<rparr>) (h\<lparr>h_world := w\<rparr>)))
         else (True, h))"

definition cmd_rx_handler ::
  "('rb, 'w) env \<Rightarrow> ctx_id \<Rightarrow> char \<Rightarrow> ('rb, 'w) host \<Rightarrow> ('rb, 'w) host" where
  "cmd_rx_handler E i c h =
     (let h = check_idle_timer E (Some i) True h; x = h_ctx h i
      in if (c_at_cmd_len x = 0 \<and> c_toupper c \<noteq> CHR ''A'') \<or> (c_at_cmd_len x = 1 \<and> c_toupper c \<noteq> CHR ''T'')
         then cmd_echo_send E i c False
                (upd_ctx i (\<lambda>x. x\<lparr>c_inside_quotes := False, c_at_cmd_len := 0\<rparr>) h)
         else case cmd_grow E i h of
           (False, h) \<Rightarrow> cmd_finish E i h
         | (True, h) \<Rightarrow>
             (if (c = BS \<or> c = DEL) \<and> c_at_cmd_len (h_ctx h i) \<noteq> 0
              then cmd_echo_send E i c False (upd_ctx i cmd_backspace h)
              else if cmd_terminates (cfg_termination E) (h_ctx h i) c
              then cmd_echo_send E i c True (upd_ctx i (cmd_trim_cr (cfg_termination E)) h)
              else cmd_echo_send E i c False (upd_ctx i (cmd_store c) h)))"

section \<open>Dispatch of received bytes\<close>

definition sm_at_receive ::
  "('rb, 'w) env \<Rightarrow> ctx_id \<Rightarrow> char \<Rightarrow> ('rb, 'w) host \<Rightarrow> ('rb, 'w) host" where
  "sm_at_receive E i c h =
     (let h = upd_ctx i (\<lambda>x. x\<lparr>c_inactivity_timer := 0\<rparr>) h;
          h = (case get_sm_mode (Some i) h of
                 SM_AT_COMMAND_MODE \<Rightarrow> cmd_rx_handler E i c h
               | SM_DATA_MODE \<Rightarrow> raw_rx_handler E i c h
               | SM_NULL_MODE \<Rightarrow> null_handler E i c h
               | SM_INVALID_MODE \<Rightarrow> h)
      in if get_sm_mode (Some i) h = SM_DATA_MODE
         then upd_ctx i (\<lambda>x. x\<lparr>c_inactivity_timer := unat (dm_time_limit (c_data_mode x))\<rparr>) h
         else h)"

text \<open>One byte per call of the pipe, while there is data and the pipe has not changed. How much
  data there is depends on the sender: the loop has the fuel of the environment.\<close>

fun rx_loop ::
  "('rb, 'w) env \<Rightarrow> ctx_id \<Rightarrow> pipe \<Rightarrow> nat \<Rightarrow> ('rb, 'w) host \<Rightarrow> ('rb, 'w) host" where
  "rx_loop E i p 0 h = fault h"
| "rx_loop E i p (Suc fuel) h =
     (case e_pipe_receive E p (h_world h) of
        ((ret, c), w) \<Rightarrow>
          (let h = h\<lparr>h_world := w\<rparr>
           in if ret \<le> 0 then h
              else let h = sm_at_receive E i c h
                   in if c_pipe (h_ctx h i) = Some p then rx_loop E i p fuel h else h))"

definition at_pipe_rx_work_fn :: "('rb, 'w) env \<Rightarrow> ctx_id \<Rightarrow> ('rb, 'w) host \<Rightarrow> ('rb, 'w) host" where
  "at_pipe_rx_work_fn E i h =
     (if \<not> sm_at_ctx_check (Some i) h then h
      else case c_pipe (h_ctx h i) of
        None \<Rightarrow> h
      | Some p \<Rightarrow>
          (if c_executing_lock (h_ctx h i) > 0 then h
           else sm_at_host_set_current_ctx None
                  (rx_loop E i p (e_fuel E) (sm_at_host_set_current_ctx (Some i) h))))"

definition sm_at_host_echo :: "('rb, 'w) env \<Rightarrow> bool \<Rightarrow> ('rb, 'w) host \<Rightarrow> ('rb, 'w) host" where
  "sm_at_host_echo E enable h =
     (case sm_at_host_get_current E h of
        None \<Rightarrow> fault h
      | Some i \<Rightarrow> upd_ctx i (\<lambda>c. c\<lparr>c_echo_enabled := enable, c_idle_timer := 0\<rparr>) h)"

section \<open>The wrapper of custom commands, and two commands of the host\<close>

text \<open>The AT parser and the functions of the modem library that classify an error are
  parameters; the callback runs on the host's state. The result is the return code and the
  text stored as the response.\<close>

datatype at_parser_cmd_type = CMD_TYPE_SET | CMD_TYPE_READ | CMD_TYPE_TEST | CMD_TYPE_UNKNOWN
datatype nrf_modem_at_err_type = NRF_MODEM_AT_ERROR | NRF_MODEM_AT_CME_ERROR | NRF_MODEM_AT_CMS_ERROR

record 'p at_parser_ops =
  ap_init :: "string \<Rightarrow> int + 'p"
  ap_cmd_count_get :: "'p \<Rightarrow> int + nat"
  ap_cmd_type_get :: "'p \<Rightarrow> int + at_parser_cmd_type"
  ap_num_get_u16 :: "'p \<Rightarrow> nat \<Rightarrow> int + 16 word"
  ap_num_get_u32 :: "'p \<Rightarrow> nat \<Rightarrow> int + 32 word"
  ap_num_get_s32 :: "'p \<Rightarrow> nat \<Rightarrow> int + 32 word"
  ap_string_get :: "'p \<Rightarrow> nat \<Rightarrow> nat \<Rightarrow> int \<times> bytes"
  ap_string_ptr_get :: "'p \<Rightarrow> nat \<Rightarrow> int + bytes"
  ap_custom_respond :: "nat \<Rightarrow> string \<Rightarrow> int"
  ap_err_type :: "int \<Rightarrow> nrf_modem_at_err_type"
  ap_err :: "int \<Rightarrow> int"

definition sm_at_cb_wrapper ::
  "'p at_parser_ops \<Rightarrow> nat \<Rightarrow> string \<Rightarrow>
   (at_parser_cmd_type \<Rightarrow> 'p \<Rightarrow> nat \<Rightarrow> 's \<Rightarrow> int \<times> 's) \<Rightarrow> 's \<Rightarrow> (int \<times> string option) \<times> 's" where
  "sm_at_cb_wrapper P len at_cmd cb s =
     (case ap_init P at_cmd of
        Inl err \<Rightarrow> ((err, None), s)
      | Inr parser \<Rightarrow>
     (case ap_cmd_count_get P parser of
        Inl err \<Rightarrow> ((err, None), s)
      | Inr valid_count \<Rightarrow>
     (case ap_cmd_type_get P parser of
        Inl err \<Rightarrow> ((err, None), s)
      | Inr type \<Rightarrow>
     (case cb type parser valid_count s of
        (err, s) \<Rightarrow>
          (if err = 0 then
             (let text = ''OK'' @ CRLF_STR in ((ap_custom_respond P len text, Some text), s))
           else if err > 0 then
             (let text = (case ap_err_type P err of
                  NRF_MODEM_AT_CME_ERROR \<Rightarrow> ''+CME ERROR: '' @ show_int (ap_err P err) @ CRLF_STR
                | NRF_MODEM_AT_CMS_ERROR \<Rightarrow> ''+CMS ERROR: '' @ show_int (ap_err P err) @ CRLF_STR
                | NRF_MODEM_AT_ERROR \<Rightarrow> ''ERROR'' @ CRLF_STR);
                  err' = ap_custom_respond P len text
              in ((if err' \<noteq> 0 then err' else err, Some text), s))
           else ((err, None), s))))))"

definition handle_at_datactrl ::
  "('rb, 'w) env \<Rightarrow> 'p at_parser_ops \<Rightarrow> at_parser_cmd_type \<Rightarrow> 'p \<Rightarrow> ('rb, 'w) host \<Rightarrow>
   int \<times> ('rb, 'w) host" where
  "handle_at_datactrl E P cmd_type parser h =
     (let min_time_limit = get_min_data_mode_idle_timeout_ms E h
      in case cmd_type of
           CMD_TYPE_SET \<Rightarrow>
             (case ap_num_get_u16 P parser 1 of
                Inl err \<Rightarrow> (err, h)
              | Inr time_limit \<Rightarrow>
                  (if time_limit < min_time_limit then (- EINVAL, h)
                   else case sm_at_host_get_current E h of
                     None \<Rightarrow> (0, fault h)
                   | Some i \<Rightarrow> (0, upd_ctx i (upd_dm (\<lambda>d. d\<lparr>dm_time_limit := time_limit\<rparr>)) h)))
         | CMD_TYPE_READ \<Rightarrow>
             (case sm_at_host_get_current E h of
                None \<Rightarrow> (0, fault h)
              | Some i \<Rightarrow>
                  (0, rsp_send E (CRLF_STR @ ''#XDATACTRL: '' @
                        show_nat (unat (dm_time_limit (c_data_mode (h_ctx h i)))) @ '','' @
                        show_nat (unat min_time_limit) @ CRLF_STR) h))
         | CMD_TYPE_TEST \<Rightarrow> (0, rsp_send E (CRLF_STR @ ''#XDATACTRL=<time_limit>'' @ CRLF_STR) h)
         | CMD_TYPE_UNKNOWN \<Rightarrow> (0, h))"

definition handle_at_xcmuxurc ::
  "('rb, 'w) env \<Rightarrow> 'p at_parser_ops \<Rightarrow> at_parser_cmd_type \<Rightarrow> 'p \<Rightarrow> ('rb, 'w) host \<Rightarrow>
   int \<times> ('rb, 'w) host" where
  "handle_at_xcmuxurc E P cmd_type parser h =
     (case cmd_type of
        CMD_TYPE_SET \<Rightarrow>
          (case ap_num_get_u16 P parser 1 of
             Inl err \<Rightarrow> (err, h)
           | Inr n \<Rightarrow>
               (let channel = unat n
                in if channel > cfg_cmux_channel_count E then (- EINVAL, h)
                   else let h = h\<lparr>h_urc_channel := channel mod 256\<rparr>
                        in (0, check_idle_timer E (sm_at_host_get_urc_ctx E h) False h)))
      | CMD_TYPE_READ \<Rightarrow> (0, rsp_send E (CRLF_STR @ ''#XCMUXURC: '' @ show_nat (h_urc_channel h) @ CRLF_STR) h)
      | CMD_TYPE_TEST \<Rightarrow> (0, rsp_send E (CRLF_STR @ ''#XCMUXURC=<channel>'' @ CRLF_STR) h)
      | CMD_TYPE_UNKNOWN \<Rightarrow> (0, h))"

section \<open>The line editor\<close>

text \<open>What the bytes of a command line mean, without buffers: the line so far, and what happens
  when it is complete. A byte that cannot start a command drops the line, a line of more than
  8190 bytes is an error, and so is one that fills a buffer of 128 to 4096 bytes when there is no
  memory for a larger one: \<open>mem\<close> says whether there is.\<close>

datatype line_out = Editing | Execute string | Overflow | NoMemory

abbreviation (input) MAX_LINE :: nat where "MAX_LINE \<equiv> 8190"

definition in_quotes :: "string \<Rightarrow> bool" where
  "in_quotes l = odd (count_list l DQUOTE)"

definition line_ends :: "term_mode \<Rightarrow> string \<Rightarrow> char \<Rightarrow> bool" where
  "line_ends tm l c \<longleftrightarrow> \<not> in_quotes l \<and>
     (c = CR \<and> tm = CR_TERMINATION \<or> c = LF \<and> tm = LF_TERMINATION \<or>
      c = LF \<and> tm = CR_LF_TERMINATION \<and> l \<noteq> [] \<and> last l = CR)"

definition line_grows :: "string \<Rightarrow> bool" where
  "line_grows l \<longleftrightarrow> length l + 2 \<in> {128, 256, 512, 1024, 2048, 4096}"

definition line_step :: "term_mode \<Rightarrow> bool \<Rightarrow> string \<Rightarrow> char \<Rightarrow> string \<times> line_out" where
  "line_step tm mem l c =
     (if (l = [] \<and> c_toupper c \<noteq> CHR ''A'') \<or> (length l = 1 \<and> c_toupper c \<noteq> CHR ''T'') then ([], Editing)
      else if MAX_LINE \<le> length l then ([], Overflow)
      else if \<not> mem \<and> line_grows l then ([], NoMemory)
      else if (c = BS \<or> c = DEL) \<and> l \<noteq> [] then (butlast l, Editing)
      else if line_ends tm l c then ([], Execute (if tm = CR_LF_TERMINATION then butlast l else l))
      else (l @ [c], Editing))"

text \<open>The line after some bytes and what each of them caused, for the answers of the heap.\<close>

fun line_run :: "term_mode \<Rightarrow> bool list \<Rightarrow> string \<Rightarrow> bytes \<Rightarrow> string \<times> line_out list" where
  "line_run tm (m # ms) l (c # cs) =
     (case line_step tm m l c of (l', out) \<Rightarrow> case line_run tm ms l' cs of (l'', outs) \<Rightarrow> (l'', out # outs))"
| "line_run tm _ l _ = (l, [])"

text \<open>What the host does for each of them. Between the steps that are visible outside, only the
  reception state of the context changes, and the heap.\<close>

definition rx_only :: "('rb, 'w) env \<Rightarrow> ctx_id \<Rightarrow> ('rb, 'w) host \<Rightarrow> ('rb, 'w) host \<Rightarrow> bool" where
  "rx_only E i h h' \<longleftrightarrow> (\<exists>buf sz len quotes prev w.
     h' = upd_ctx i (\<lambda>c. c\<lparr>c_at_buf := buf, c_at_buf_size := sz, c_inside_quotes := quotes, c_at_cmd_len := len,
            c_prev_character := prev\<rparr>) (h\<lparr>h_world := w\<rparr>) \<and>
     (w = h_world h \<or> (\<exists>n. w = snd (e_malloc E n (h_world h)))))"

definition line_acts ::
  "('rb, 'w) env \<Rightarrow> ctx_id \<Rightarrow> char \<Rightarrow> line_out \<Rightarrow> ('rb, 'w) host \<Rightarrow> ('rb, 'w) host \<Rightarrow> bool" where
  "line_acts E i c out h h' \<longleftrightarrow>
     (case out of
        Editing \<Rightarrow> \<exists>h1. rx_only E i h h1 \<and> h' = cmd_echo E i c False h1
      | Execute s \<Rightarrow> \<exists>h1 h2. rx_only E i h h1 \<and> rx_only E i (cmd_echo E i c True h1) h2 \<and>
          h' = cmd_finish E i (if s = [] then h2 else cmd_send E i s h2)
      | Overflow \<Rightarrow> h' = cmd_finish E i (rsp_send_error E h)
      | NoMemory \<Rightarrow> \<exists>n w. e_malloc E n (h_world h) = (False, w) \<and>
          h' = cmd_finish E i (rsp_send_error E (h\<lparr>h_world := w\<rparr>)))"

inductive editor_run ::
  "('rb, 'w) env \<Rightarrow> ctx_id \<Rightarrow> ('rb, 'w) host \<Rightarrow> (char \<times> line_out) list \<Rightarrow> ('rb, 'w) host \<Rightarrow> bool" for E i where
  Nil: "editor_run E i h [] h"
| Cons: "line_acts E i c out (check_idle_timer E (Some i) True h) h' \<Longrightarrow> editor_run E i h' os h'' \<Longrightarrow>
     editor_run E i h ((c, out) # os) h''"

lemma rx_only_refl [simp]: "rx_only E i h h"
  unfolding rx_only_def
  by (rule exI [of _ "c_at_buf (h_ctx h i)"], rule exI [of _ "c_at_buf_size (h_ctx h i)"], rule exI [of _ "c_at_cmd_len (h_ctx h i)"],
      rule exI [of _ "c_inside_quotes (h_ctx h i)"], rule exI [of _ "c_prev_character (h_ctx h i)"], rule exI [of _ "h_world h"])
    (simp add: upd_ctx_def)

lemma rx_only_edit:
  assumes "rx_only E i h h1"
    and "x = h_ctx h1 i" and "y = f x"
    and "y = x\<lparr>c_at_buf := c_at_buf y, c_at_buf_size := c_at_buf_size y, c_inside_quotes := c_inside_quotes y,
            c_at_cmd_len := c_at_cmd_len y, c_prev_character := c_prev_character y\<rparr>"
  shows "rx_only E i h (upd_ctx i f h1)"
proof -
  obtain b z l q p w where 1: "h1 = upd_ctx i (\<lambda>c. c\<lparr>c_at_buf := b, c_at_buf_size := z, c_inside_quotes := q, c_at_cmd_len := l,
            c_prev_character := p\<rparr>) (h\<lparr>h_world := w\<rparr>)" "w = h_world h \<or> (\<exists>n. w = snd (e_malloc E n (h_world h)))"
    using assms(1) unfolding rx_only_def by blast
  have x: "x = (h_ctx h i)\<lparr>c_at_buf := b, c_at_buf_size := z, c_inside_quotes := q, c_at_cmd_len := l, c_prev_character := p\<rparr>"
    by (simp add: assms(2) 1(1))
  have y: "(h_ctx h i)\<lparr>c_at_buf := c_at_buf y, c_at_buf_size := c_at_buf_size y, c_inside_quotes := c_inside_quotes y,
            c_at_cmd_len := c_at_cmd_len y, c_prev_character := c_prev_character y\<rparr> = y"
    using assms(4) by (simp add: x)
  have "upd_ctx i f h1 = h\<lparr>h_world := w, h_ctx := (h_ctx h)(i := y)\<rparr>"
    by (simp add: assms(2,3) 1(1) upd_ctx_def)
  also have "\<dots> = upd_ctx i (\<lambda>c. c\<lparr>c_at_buf := c_at_buf y, c_at_buf_size := c_at_buf_size y,
      c_inside_quotes := c_inside_quotes y, c_at_cmd_len := c_at_cmd_len y, c_prev_character := c_prev_character y\<rparr>) (h\<lparr>h_world := w\<rparr>)"
    by (simp add: upd_ctx_def y)
  finally have "upd_ctx i f h1 = upd_ctx i (\<lambda>c. c\<lparr>c_at_buf := c_at_buf y, c_at_buf_size := c_at_buf_size y,
      c_inside_quotes := c_inside_quotes y, c_at_cmd_len := c_at_cmd_len y, c_prev_character := c_prev_character y\<rparr>) (h\<lparr>h_world := w\<rparr>)" .
  then show ?thesis unfolding rx_only_def using 1(2) by blast
qed

lemma rx_only_edits [simp]:
  assumes "rx_only E i h h1"
  shows "rx_only E i h (upd_ctx i cmd_backspace h1)" "rx_only E i h (upd_ctx i (cmd_trim_cr tm) h1)"
    "rx_only E i h (upd_ctx i (cmd_store c) h1)"
    "rx_only E i h (upd_ctx i (\<lambda>x. x\<lparr>c_inside_quotes := False, c_at_cmd_len := 0\<rparr>) h1)"
    "rx_only E i h (upd_ctx i (\<lambda>c. c\<lparr>c_at_buf := (c_at_buf c)[c_at_cmd_len c := NUL]\<rparr>) h1)"
  by (rule rx_only_edit [OF assms refl refl], simp add: cmd_backspace_def cmd_trim_cr_def cmd_store_def Let_def)+

text \<open>The invariant of the reception state of a context.\<close>

definition line_of :: "'rb sm_at_host_ctx \<Rightarrow> string" where
  "line_of x = take (c_at_cmd_len x) (c_at_buf x)"

definition cmd_inv :: "'rb sm_at_host_ctx \<Rightarrow> bool" where
  "cmd_inv x \<longleftrightarrow>
     (\<exists>k \<le> 6. c_at_buf_size x = AT_BUF_MIN_SIZE * 2 ^ k) \<and> length (c_at_buf x) = c_at_buf_size x \<and>
     c_at_cmd_len x \<le> c_at_buf_size x - 2 \<and> c_inside_quotes x = in_quotes (line_of x) \<and>
     (0 < c_at_cmd_len x \<longrightarrow> c_prev_character x = last (line_of x))"

lemma cmd_inv_size: "cmd_inv x \<Longrightarrow> AT_BUF_MIN_SIZE \<le> c_at_buf_size x \<and> c_at_buf_size x \<le> AT_BUF_MAX_SIZE"
proof -
  assume "cmd_inv x"
  then obtain k where k: "k \<le> 6" "c_at_buf_size x = 128 * 2 ^ k" by (auto simp: cmd_inv_def)
  have "(2::nat) ^ k \<le> 2 ^ 6" using k(1) by (intro power_increasing) auto
  then show ?thesis using k(2) by simp
qed

lemma line_of_length [simp]: "cmd_inv x \<Longrightarrow> length (line_of x) = c_at_cmd_len x"
  by (auto simp: cmd_inv_def line_of_def)

lemma line_of_Nil: "cmd_inv x \<Longrightarrow> line_of x = [] \<longleftrightarrow> c_at_cmd_len x = 0"
  by (metis length_0_conv line_of_length)

lemma cmd_inv_frame:
  "ctx_frame c c' \<Longrightarrow> cmd_inv c' = cmd_inv c \<and> line_of c' = line_of c"
  using ctx_frameD [of c c'] by (simp add: cmd_inv_def line_of_def)

lemma in_quotes_snoc [simp]: "in_quotes (l @ [c]) = (if c = DQUOTE then \<not> in_quotes l else in_quotes l)"
  by (simp add: in_quotes_def)

lemma in_quotes_Nil [simp]: "\<not> in_quotes []"
  by (simp add: in_quotes_def)

lemma in_quotes_butlast:
  "l \<noteq> [] \<Longrightarrow> in_quotes (butlast l) = (if last l = DQUOTE then \<not> in_quotes l else in_quotes l)"
  by (cases l rule: rev_cases) auto

text \<open>The edits keep the invariant and are the edits of the line.\<close>

lemma cmd_store_line:
  assumes "cmd_inv x" and "c_at_cmd_len x < c_at_buf_size x - 2"
  shows "cmd_inv (cmd_store c x)" and "line_of (cmd_store c x) = line_of x @ [c]"
proof -
  have l: "c_at_cmd_len x < length (c_at_buf x)" using assms by (simp add: cmd_inv_def)
  show e: "line_of (cmd_store c x) = line_of x @ [c]"
    using assms l by (auto simp: line_of_def cmd_store_def take_Suc_conv_app_nth)
  show "cmd_inv (cmd_store c x)" using assms l unfolding cmd_inv_def e by (simp add: cmd_store_def)
qed

lemma cmd_backspace_line:
  assumes "cmd_inv x" and "c_at_cmd_len x \<noteq> 0"
  shows "cmd_inv (cmd_backspace x)" and "line_of (cmd_backspace x) = butlast (line_of x)"
proof -
  let ?n = "c_at_cmd_len x"
  have l: "?n < length (c_at_buf x)" using assms cmd_inv_size [of x] by (auto simp: cmd_inv_def)
  have ne: "line_of x \<noteq> []" using assms line_of_length [of x] by fastforce
  show e: "line_of (cmd_backspace x) = butlast (line_of x)"
    using l by (simp add: line_of_def cmd_backspace_def Let_def butlast_take)
  have last: "last (butlast (line_of x)) = c_at_buf x ! (?n - 1 - 1)" if "?n - 1 > 0"
    using that l unfolding line_of_def butlast_take [OF less_imp_le [OF l]]
    by (subst last_conv_nth) (auto simp: min_def)
  show "cmd_inv (cmd_backspace x)"
    using assms l last unfolding cmd_inv_def e
    by (auto simp: cmd_backspace_def Let_def in_quotes_butlast [OF ne])
qed

lemma cmd_terminates_iff:
  "cmd_inv x \<Longrightarrow> cmd_terminates tm x c \<longleftrightarrow> line_ends tm (line_of x) c"
  using line_of_Nil [of x] by (simp add: cmd_terminates_def line_ends_def cmd_inv_def) metis

section \<open>Reception refines the line editor\<close>

definition buf_ok :: "'rb sm_at_host_ctx \<Rightarrow> bool" where
  "buf_ok x \<longleftrightarrow> (\<exists>k \<le> 6. c_at_buf_size x = AT_BUF_MIN_SIZE * 2 ^ k) \<and> length (c_at_buf x) = c_at_buf_size x"

definition buf_same :: "ctx_id \<Rightarrow> ('rb, 'w) host \<Rightarrow> ('rb, 'w) host \<Rightarrow> bool" where
  "buf_same i h h' \<longleftrightarrow> c_at_buf (h_ctx h' i) = c_at_buf (h_ctx h i) \<and>
     c_at_buf_size (h_ctx h' i) = c_at_buf_size (h_ctx h i)"

lemma buf_same_trans [trans]: "buf_same i a b \<Longrightarrow> buf_same i b c \<Longrightarrow> buf_same i a c"
  by (simp add: buf_same_def)

lemma buf_same_out: "out_frame h h' \<Longrightarrow> buf_same i h h'"
  using ctx_frameD [OF out_frameD(10) [of h h' i]] by (simp add: buf_same_def)

lemma buf_same_refl [simp]: "buf_same i h h"
  by (simp add: buf_same_def)

lemma buf_ok_same: "buf_same i h h' \<Longrightarrow> buf_ok (h_ctx h i) \<Longrightarrow> buf_ok (h_ctx h' i)"
  by (simp add: buf_same_def buf_ok_def)

lemma cmd_finish_line:
  assumes "buf_ok (h_ctx h i)"
  shows "cmd_inv (h_ctx (cmd_finish E i h) i)" and "line_of (h_ctx (cmd_finish E i h) i) = []"
proof -
  define h1 where "h1 = upd_ctx i (\<lambda>c. c\<lparr>c_inside_quotes := False, c_at_cmd_len := 0, c_echo_len := 0\<rparr>) h"
  define h2 where "h2 = (if c_at_buf_size (h_ctx h1 i) > AT_BUF_MIN_SIZE then
                 (case e_malloc E AT_BUF_MIN_SIZE (h_world h1) of
                    (True, w) \<Rightarrow> upd_ctx i (\<lambda>c. c\<lparr>c_at_buf := take AT_BUF_MIN_SIZE (c_at_buf c),
                                   c_at_buf_size := AT_BUF_MIN_SIZE\<rparr>) (h1\<lparr>h_world := w\<rparr>)
                  | (False, w) \<Rightarrow> h1\<lparr>h_world := w\<rparr>)
               else h1)"
  define h3 where "h3 = upd_ctx i (\<lambda>c. c\<lparr>c_idle_timer := 0\<rparr>) h2"
  have eq: "cmd_finish E i h = sm_at_host_event_notify E (Some i) SM_EVENT_URC h3"
    by (simp only: cmd_finish_def Let_def h1_def h2_def h3_def)
  have f: "ctx_frame (h_ctx h3 i) (h_ctx (cmd_finish E i h) i)"
    unfolding eq by (rule out_frameD(10) [OF event_notify_frame])
  have b1: "buf_ok (h_ctx h1 i)" using assms by (simp add: h1_def buf_ok_def)
  have "buf_ok (h_ctx h2 i) \<and> c_at_cmd_len (h_ctx h2 i) = 0 \<and> \<not> c_inside_quotes (h_ctx h2 i)"
    using b1 unfolding h2_def
    by (auto simp: buf_ok_def h1_def split: prod.split bool.split intro: exI [of _ 0])
  then have "cmd_inv (h_ctx h3 i)" "line_of (h_ctx h3 i) = []"
    by (auto simp: h3_def buf_ok_def cmd_inv_def line_of_def)
  then show "cmd_inv (h_ctx (cmd_finish E i h) i)" "line_of (h_ctx (cmd_finish E i h) i) = []"
    using cmd_inv_frame [OF f] by simp_all
qed

text \<open>Echoing leaves the line alone.\<close>

definition line_same :: "ctx_id \<Rightarrow> ('rb, 'w) host \<Rightarrow> ('rb, 'w) host \<Rightarrow> bool" where
  "line_same i h h' \<longleftrightarrow> buf_same i h h' \<and> c_at_cmd_len (h_ctx h' i) = c_at_cmd_len (h_ctx h i) \<and>
     c_inside_quotes (h_ctx h' i) = c_inside_quotes (h_ctx h i) \<and>
     c_prev_character (h_ctx h' i) = c_prev_character (h_ctx h i) \<and> h_instances h' = h_instances h \<and>
     h_current h' = h_current h \<and> (\<forall>j. c_executing_lock (h_ctx h' j) = c_executing_lock (h_ctx h j))"

lemma line_same_trans [trans]: "line_same i a b \<Longrightarrow> line_same i b c \<Longrightarrow> line_same i a c"
  by (simp add: line_same_def buf_same_def)

lemma line_same_out: "out_frame h h' \<Longrightarrow> line_same i h h'"
  using ctx_frameD [OF out_frameD(10) [of h h']] out_frameD [of h h'] by (simp add: line_same_def buf_same_def)

lemma line_same_refl [simp]: "line_same i h h"
  by (simp add: line_same_def)

lemma line_sameD:
  "line_same i h h' \<Longrightarrow> cmd_inv (h_ctx h' i) = cmd_inv (h_ctx h i)"
  "line_same i h h' \<Longrightarrow> line_of (h_ctx h' i) = line_of (h_ctx h i)"
  by (simp_all add: line_same_def buf_same_def cmd_inv_def line_of_def)

lemma cmd_echo_line: "line_same i h (cmd_echo E i c send h)"
proof (cases "c_echo_enabled (h_ctx h i)")
  case True
  let ?h1 = "upd_ctx i (\<lambda>x. x\<lparr>c_echo_len := (c_echo_len x + 1) mod SIZE_MOD\<rparr>) h"
  have "line_same i h ?h1" by (auto simp: line_same_def buf_same_def upd_ctx_def)
  also have "out_frame ?h1 (cmd_echo E i c send h)"
    using True unfolding cmd_echo_def Let_def
    by (auto intro: out_frame_trans [OF sm_at_send_internal_frame sm_at_send_internal_frame]
        sm_at_send_internal_frame)
  then have "line_same i ?h1 (cmd_echo E i c send h)" by (rule line_same_out)
  finally show ?thesis .
qed (simp add: cmd_echo_def)

text \<open>Executing an AT command, in the modem library or by a handler of the application, leaves the
  buffer the command was received in well formed.\<close>

locale command_exec =
  fixes E :: "('rb, 'w) env"
  assumes at_cmd_keeps: "e_at_cmd E n s h = (r, h') \<Longrightarrow> buf_ok (h_ctx h i) \<Longrightarrow> buf_ok (h_ctx h' i)"
    and xdfu_keeps: "e_xdfu E x s h = (e, h') \<Longrightarrow> buf_ok (h_ctx h i) \<Longrightarrow> buf_ok (h_ctx h' i)"
    and reset_keeps: "buf_ok (h_ctx h i) \<Longrightarrow> buf_ok (h_ctx (e_final_reset E h) i)"
begin

lemma out_keeps: "out_frame h h' \<Longrightarrow> buf_ok (h_ctx h i) \<Longrightarrow> buf_ok (h_ctx h' i)"
  by (rule buf_ok_same [OF buf_same_out])

lemma bootloader_keeps:
  assumes "buf_ok (h_ctx h i)"
  shows "buf_ok (h_ctx (handle_bootloader_at_cmd E s h) i)"
proof -
  have "buf_ok (h_ctx (if err \<noteq> 0 then rsp_send_error E h' else rsp_send_ok E h') i)"
    if "e_xdfu E x s h = (err, h')" for x err h'
    using out_keeps [OF rsp_send_error_frame [of h' E]] out_keeps [OF rsp_send_ok_frame [of h' E]] xdfu_keeps [OF that assms] by simp
  then show ?thesis
    using assms by (auto simp: handle_bootloader_at_cmd_def reset_keeps out_keeps [OF rsp_send_error_frame] split: prod.split)
qed

lemma cmd_send_keeps:
  assumes "buf_ok (h_ctx h i)"
  shows "buf_ok (h_ctx (cmd_send E i s h) i)"
proof -
  let ?h1 = "upd_ctx i (\<lambda>c. c\<lparr>c_executing_lock := c_executing_lock c + 1\<rparr>) h"
  have h1: "buf_ok (h_ctx ?h1 i)" using assms by (simp add: buf_ok_def)
  have dec: "buf_ok (c\<lparr>c_executing_lock := n\<rparr>) = buf_ok c" for n and c :: "'rb sm_at_host_ctx" by (simp add: buf_ok_def)
  have ex: "buf_ok (h_ctx h2 i)" if "e_at_cmd E n s' ?h1 = (r, h2)" for n s' r h2
    by (rule at_cmd_keeps [OF that h1])
  show ?thesis unfolding cmd_send_def Let_def
    by (auto simp: dec assms out_keeps [OF rsp_send_error_frame] out_keeps [OF sm_at_send_internal_frame] bootloader_keeps
        dest!: ex split: prod.split)
qed

text \<open>A line is executed from the buffer, and whatever it does the buffer is well formed after it.\<close>

lemma cmd_execute_eq:
  assumes "cmd_inv x" and "x = h_ctx h i" and "0 < c_at_cmd_len x"
  shows "cmd_execute E i h = cmd_send E i (line_of x)
     (upd_ctx i (\<lambda>c. c\<lparr>c_at_buf := (c_at_buf c)[c_at_cmd_len c := NUL]\<rparr>) h)"
  using assms cmd_inv_size [OF assms(1)]
  by (auto simp: cmd_execute_def Let_def line_of_def cmd_inv_def)

lemma cmd_execute_buf:
  assumes "buf_ok (h_ctx h i)"
  shows "buf_ok (h_ctx (cmd_execute E i h) i)"
proof -
  let ?h1 = "upd_ctx i (\<lambda>c. c\<lparr>c_at_buf := (c_at_buf c)[c_at_cmd_len c := NUL]\<rparr>) h"
  have "buf_ok (h_ctx ?h1 i)" using assms by (simp add: buf_ok_def)
  then have "buf_ok (h_ctx (cmd_send E i s ?h1) i)" for s by (rule cmd_send_keeps)
  moreover have "buf_ok (h_ctx (rsp_send_error E h) i)"
    by (rule buf_ok_same [OF buf_same_out [OF rsp_send_error_frame] assms])
  ultimately show ?thesis using assms by (simp add: cmd_execute_def Let_def)
qed

lemma cmd_grow_line:
  assumes inv: "cmd_inv (h_ctx h i)" and g: "cmd_grow E i h = (b, h')"
  shows "b \<Longrightarrow> cmd_inv (h_ctx h' i) \<and> line_of (h_ctx h' i) = line_of (h_ctx h i) \<and>
         c_at_cmd_len (h_ctx h' i) = c_at_cmd_len (h_ctx h i) \<and> c_at_cmd_len (h_ctx h i) < MAX_LINE \<and>
         c_at_cmd_len (h_ctx h' i) < c_at_buf_size (h_ctx h' i) - 2 \<and> rx_only E i h h'" (is "b \<Longrightarrow> ?grown")
    and "\<not> b \<Longrightarrow> buf_ok (h_ctx h' i) \<and>
         (MAX_LINE \<le> c_at_cmd_len (h_ctx h i) \<and> h' = rsp_send_error E h \<or>
          c_at_cmd_len (h_ctx h i) < MAX_LINE \<and> line_grows (line_of (h_ctx h i)) \<and>
          (\<exists>n w. e_malloc E n (h_world h) = (False, w) \<and> h' = rsp_send_error E (h\<lparr>h_world := w\<rparr>)))" (is "\<not> b \<Longrightarrow> ?failed")
proof -
  let ?x = "h_ctx h i"
  obtain k where k: "k \<le> 6" "c_at_buf_size ?x = 128 * 2 ^ k" using inv by (auto simp: cmd_inv_def)
  have len: "c_at_cmd_len ?x \<le> c_at_buf_size ?x - 2" "length (c_at_buf ?x) = c_at_buf_size ?x"
    using inv by (auto simp: cmd_inv_def)
  have bok: "buf_ok ?x" using inv by (auto simp: cmd_inv_def buf_ok_def)
  have err: "buf_ok (h_ctx (rsp_send_error E (h\<lparr>h_world := w\<rparr>)) i)" for w
    by (rule out_keeps [OF rsp_send_error_frame]) (simp add: bok)
  obtain m w where m: "e_malloc E (2 * c_at_buf_size ?x) (h_world h) = (m, w)" by fastforce
  consider (fits) "c_at_cmd_len ?x < c_at_buf_size ?x - 2" | (grow) "\<not> c_at_cmd_len ?x < c_at_buf_size ?x - 2" "k < 6"
    | (full) "\<not> c_at_cmd_len ?x < c_at_buf_size ?x - 2" "k = 6" using k(1) by linarith
  then have "(b \<longrightarrow> ?grown) \<and> (\<not> b \<longrightarrow> ?failed)"
  proof cases
    case fits
    then have "b" "h' = h" using g by (auto simp: cmd_grow_def Let_def)
    then show ?thesis using fits inv cmd_inv_size [OF inv] by auto
  next
    case grow
    have p: "(2::nat) ^ Suc k \<le> 2 ^ 6" using grow(2) by (intro power_increasing) auto
    then have sz: "2 * c_at_buf_size ?x \<le> 8192" using k(2) by simp
    let ?h1 = "upd_ctx i (\<lambda>c. c\<lparr>c_at_buf := c_at_buf c @ replicate (2 * c_at_buf_size ?x - length (c_at_buf c)) NUL,
        c_at_buf_size := 2 * c_at_buf_size ?x\<rparr>) (h\<lparr>h_world := w\<rparr>)"
    have bh: "b = m" "h' = (if m then ?h1 else rsp_send_error E (h\<lparr>h_world := w\<rparr>))"
      using g grow sz m by (auto simp: cmd_grow_def Let_def mult.commute split: prod.splits bool.splits)
    have eq: "c_at_cmd_len ?x = c_at_buf_size ?x - 2" using grow(1) len(1) by simp
    have lt: "c_at_cmd_len ?x < MAX_LINE" using eq sz cmd_inv_size [OF inv] by linarith
    have l1: "line_of (h_ctx ?h1 i) = line_of ?x" using len by (simp add: line_of_def)
    have gr: "line_grows (line_of ?x)"
    proof -
      have "k = 0 \<or> k = 1 \<or> k = 2 \<or> k = 3 \<or> k = 4 \<or> k = 5" using grow(2) by linarith
      then show ?thesis using k(2) eq line_of_length [OF inv] by (elim disjE) (simp_all add: line_grows_def)
    qed
    have "\<exists>j\<le>6. 2 * c_at_buf_size ?x = 128 * 2 ^ j" using grow(2) k(2) by (intro exI [of _ "Suc k"]) simp
    then have inv1: "cmd_inv (h_ctx ?h1 i)" using len inv l1 unfolding cmd_inv_def by auto
    have rx: "rx_only E i h ?h1"
    proof -
      have "rx_only E i h (h\<lparr>h_world := w\<rparr>)"
        unfolding rx_only_def using m
        by (intro exI [of _ "c_at_buf ?x"] exI [of _ "c_at_buf_size ?x"] exI [of _ "c_at_cmd_len ?x"]
            exI [of _ "c_inside_quotes ?x"] exI [of _ "c_prev_character ?x"] exI [of _ w] conjI)
          (auto simp: upd_ctx_def intro!: disjI2 exI [of _ "2 * c_at_buf_size ?x"])
      then show ?thesis by (rule rx_only_edit [OF _ refl refl]) simp
    qed
    have big: "c_at_cmd_len ?x < 2 * c_at_buf_size ?x - 2" using eq cmd_inv_size [OF inv] by linarith
    show ?thesis
    proof (cases m)
      case True
      then have "b" "h' = ?h1" using bh by simp_all
      then show ?thesis using inv1 l1 lt rx big by simp
    next
      case False
      then have "\<not> b" "h' = rsp_send_error E (h\<lparr>h_world := w\<rparr>)" using bh by simp_all
      then show ?thesis using lt gr m False err [of w] by (simp, blast)
    qed
  next
    case full
    then have "\<not> b" "h' = rsp_send_error E h" using g k(2) by (auto simp: cmd_grow_def Let_def)
    then show ?thesis using full len k(2) err [of "h_world h"] by auto
  qed
  then show "b \<Longrightarrow> ?grown" "\<not> b \<Longrightarrow> ?failed" by blast+
qed

lemma cmd_edit_line:
  assumes "cmd_inv (f (h_ctx h i))" and "line_of (f (h_ctx h i)) = l"
  shows "cmd_inv (h_ctx (cmd_echo_send E i c False (upd_ctx i f h)) i) \<and>
    line_of (h_ctx (cmd_echo_send E i c False (upd_ctx i f h)) i) = l"
  using assms line_sameD [OF cmd_echo_line [of i "upd_ctx i f h" E c False]]
  by (simp add: cmd_echo_send_def Let_def)

lemma cmd_end_line:
  fixes c :: char
  assumes inv: "cmd_inv (h_ctx h i)" and len: "c_at_cmd_len (h_ctx h i) < c_at_buf_size (h_ctx h i) - 2" and rx: "rx_only E i h0 h"
  defines "l \<equiv> (if cfg_termination E = CR_LF_TERMINATION then butlast (line_of (h_ctx h i)) else line_of (h_ctx h i))"
  defines "h' \<equiv> cmd_echo_send E i c True (upd_ctx i (cmd_trim_cr (cfg_termination E)) h)"
  shows "cmd_inv (h_ctx h' i) \<and> line_of (h_ctx h' i) = []" and "line_acts E i c (Execute l) h0 h'"
proof -
  let ?h0 = "upd_ctx i (cmd_trim_cr (cfg_termination E)) h"
  let ?h1 = "cmd_echo E i c True ?h0"
  have ls: "line_same i ?h0 ?h1" by (rule cmd_echo_line)
  have bok: "buf_ok (h_ctx ?h1 i)"
    using inv ls by (auto simp: line_same_def buf_same_def buf_ok_def cmd_inv_def cmd_trim_cr_def)
  have h': "h' = cmd_finish E i (cmd_execute E i ?h1)" by (simp add: h'_def cmd_echo_send_def Let_def)
  show "cmd_inv (h_ctx h' i) \<and> line_of (h_ctx h' i) = []"
    unfolding h' using cmd_finish_line [OF cmd_execute_buf [OF bok]] by simp
  have lo: "line_of (h_ctx ?h1 i) = l"
    using ls inv unfolding l_def
    by (auto simp: line_same_def buf_same_def line_of_def cmd_trim_cr_def cmd_inv_def butlast_take)
  have lt: "c_at_cmd_len (h_ctx ?h1 i) < c_at_buf_size (h_ctx ?h1 i) - 1"
    using ls len by (auto simp: line_same_def buf_same_def cmd_trim_cr_def)
  have lb: "length (c_at_buf (h_ctx ?h1 i)) = c_at_buf_size (h_ctx ?h1 i)" using bok by (simp add: buf_ok_def)
  let ?h2 = "if l = [] then ?h1 else upd_ctx i (\<lambda>c. c\<lparr>c_at_buf := (c_at_buf c)[c_at_cmd_len c := NUL]\<rparr>) ?h1"
  have "l = [] \<longleftrightarrow> c_at_cmd_len (h_ctx ?h1 i) = 0" using lo lt lb by (auto simp: line_of_def)
  then have "cmd_execute E i ?h1 = (if l = [] then ?h2 else cmd_send E i l ?h2)"
    using lt lo by (auto simp: cmd_execute_def Let_def line_of_def)
  then show "line_acts E i c (Execute l) h0 h'" unfolding h' line_acts_def line_out.case
    using rx by (intro exI [of _ ?h0] exI [of _ ?h2] conjI) simp_all
qed

text \<open>The reception of a byte is a step of the line editor, and the host does what it says.\<close>

lemma cmd_rx_line:
  fixes c :: char
  assumes inv: "cmd_inv (h_ctx h i)"
  defines "l \<equiv> line_of (h_ctx h i)" and "h' \<equiv> cmd_rx_handler E i c h"
  shows "\<exists>m. cmd_inv (h_ctx h' i) \<and> line_of (h_ctx h' i) = fst (line_step (cfg_termination E) m l c) \<and>
    line_acts E i c (snd (line_step (cfg_termination E) m l c)) (check_idle_timer E (Some i) True h) h' \<and>
    (m \<or> (\<exists>n w. \<not> fst (e_malloc E n w)))"
proof -
  define h0 where "h0 = check_idle_timer E (Some i) True h"
  have ls: "line_same i h h0" unfolding h0_def by (rule line_same_out [OF check_idle_timer_frame])
  have inv0: "cmd_inv (h_ctx h0 i)" "line_of (h_ctx h0 i) = l"
    using inv line_sameD [OF ls] by (simp_all add: l_def)
  have len0: "c_at_cmd_len (h_ctx h0 i) = length l" using line_of_length [OF inv0(1)] inv0(2) by simp
  define dr where "dr \<longleftrightarrow> (l = [] \<and> c_toupper c \<noteq> CHR ''A'') \<or> (length l = 1 \<and> c_toupper c \<noteq> CHR ''T'')"
  note ls_def = line_step_def [of "cfg_termination E" _ l c, folded dr_def]
  have h0 [simp]: "check_idle_timer E (Some i) True h = h0" by (simp add: h0_def)
  obtain b h2 where g: "cmd_grow E i h0 = (b, h2)" by fastforce
  note gr = cmd_grow_line [OF inv0(1) g]
  have split: "h' = (if dr then cmd_echo_send E i c False
        (upd_ctx i (\<lambda>x. x\<lparr>c_inside_quotes := False, c_at_cmd_len := 0\<rparr>) h0)
      else if \<not> b then cmd_finish E i h2
      else if (c = BS \<or> c = DEL) \<and> c_at_cmd_len (h_ctx h2 i) \<noteq> 0
      then cmd_echo_send E i c False (upd_ctx i cmd_backspace h2)
      else if cmd_terminates (cfg_termination E) (h_ctx h2 i) c
      then cmd_echo_send E i c True (upd_ctx i (cmd_trim_cr (cfg_termination E)) h2)
      else cmd_echo_send E i c False (upd_ctx i (cmd_store c) h2))"
    using g len0 by (simp add: h'_def cmd_rx_handler_def Let_def dr_def split: prod.split)
  have small: "\<not> MAX_LINE \<le> length l" if "b" using gr(1) [OF that] len0 by simp
  have i2: "b \<Longrightarrow> cmd_inv (h_ctx h2 i)" "b \<Longrightarrow> line_of (h_ctx h2 i) = l"
    "b \<Longrightarrow> c_at_cmd_len (h_ctx h2 i) = length l"
    "b \<Longrightarrow> c_at_cmd_len (h_ctx h2 i) < c_at_buf_size (h_ctx h2 i) - 2" "b \<Longrightarrow> rx_only E i h0 h2"
    using gr(1) inv0(2) len0 by auto
  have reset: "cmd_inv ((h_ctx h0 i)\<lparr>c_inside_quotes := False, c_at_cmd_len := 0\<rparr>)"
    using inv0(1) by (auto simp: cmd_inv_def line_of_def)
  have edit: "line_acts E i c Editing h0 (cmd_echo_send E i c False h1)" if "rx_only E i h0 h1" for h1
    using that by (auto simp: line_acts_def cmd_echo_send_def Let_def)
  consider (drop) "dr" | (over) "\<not> dr" "\<not> b" | (bs) "\<not> dr" "b" "(c = BS \<or> c = DEL) \<and> l \<noteq> []"
    | (ends) "\<not> dr" "b" "\<not> ((c = BS \<or> c = DEL) \<and> l \<noteq> [])" "line_ends (cfg_termination E) l c"
    | (store) "\<not> dr" "b" "\<not> ((c = BS \<or> c = DEL) \<and> l \<noteq> [])" "\<not> line_ends (cfg_termination E) l c"
    by argo
  then show ?thesis
  proof cases
    case drop
    then have "h' = cmd_echo_send E i c False
        (upd_ctx i (\<lambda>x. x\<lparr>c_inside_quotes := False, c_at_cmd_len := 0\<rparr>) h0)" unfolding split by simp
    moreover have "line_step (cfg_termination E) True l c = ([], Editing)" using drop by (simp add: ls_def)
    ultimately show ?thesis
      using cmd_edit_line [of "\<lambda>x. x\<lparr>c_inside_quotes := False, c_at_cmd_len := 0\<rparr>" h0 i "[]" c] reset edit
      by (intro exI [of _ True]) (simp add: line_of_def)
  next
    case over
    then have h': "h' = cmd_finish E i h2" unfolding split by simp
    note f = gr(2) [OF over(2)]
    have fin: "cmd_inv (h_ctx h' i) \<and> line_of (h_ctx h' i) = []" unfolding h' using cmd_finish_line [OF conjunct1 [OF f]] by blast
    from f consider "MAX_LINE \<le> length l" "h2 = rsp_send_error E h0"
      | n w where "length l < MAX_LINE" "line_grows l" "e_malloc E n (h_world h0) = (False, w)" "h2 = rsp_send_error E (h0\<lparr>h_world := w\<rparr>)"
      unfolding len0 inv0(2) by blast
    then show ?thesis
    proof cases
      case 1
      then have "line_step (cfg_termination E) True l c = ([], Overflow)" using over by (simp add: ls_def)
      then show ?thesis using fin 1(2) h' by (intro exI [of _ True]) (simp add: line_acts_def)
    next
      case 2
      then have "line_step (cfg_termination E) False l c = ([], NoMemory)" using over by (simp add: ls_def)
      moreover have "\<exists>n w. \<not> fst (e_malloc E n w)" using 2(3) by (metis fst_conv)
      ultimately show ?thesis using fin 2(3,4) h' by (intro exI [of _ False]) (auto simp: line_acts_def)
    qed
  next
    case bs
    have ne: "c_at_cmd_len (h_ctx h2 i) \<noteq> 0" using i2(3) bs by simp
    have "h' = cmd_echo_send E i c False (upd_ctx i cmd_backspace h2)" unfolding split using bs ne by simp
    moreover have "line_step (cfg_termination E) True l c = (butlast l, Editing)"
      using bs small by (simp add: ls_def)
    ultimately show ?thesis
      using cmd_edit_line [of cmd_backspace h2 i "butlast l" c] cmd_backspace_line [OF i2(1) [OF bs(2)] ne] i2(2,5) bs edit
      by (intro exI [of _ True]) simp
  next
    case ends
    have "cmd_terminates (cfg_termination E) (h_ctx h2 i) c"
      using ends cmd_terminates_iff [OF i2(1)] i2(2) by simp
    then have h': "h' = cmd_echo_send E i c True (upd_ctx i (cmd_trim_cr (cfg_termination E)) h2)"
      unfolding split using ends i2(3) by auto
    have ls: "line_step (cfg_termination E) True l c =
        ([], Execute (if cfg_termination E = CR_LF_TERMINATION then butlast l else l))"
      using ends small by (simp add: ls_def)
    note e = cmd_end_line [OF i2(1,4,5), OF ends(2) ends(2) ends(2), of c, unfolded i2(2) [OF ends(2)]]
    show ?thesis unfolding h' using e ls by (intro exI [of _ True]) simp
  next
    case store
    have "\<not> cmd_terminates (cfg_termination E) (h_ctx h2 i) c"
      using store cmd_terminates_iff [OF i2(1)] i2(2) by simp
    then have "h' = cmd_echo_send E i c False (upd_ctx i (cmd_store c) h2)"
      unfolding split using store i2(3) by auto
    moreover have "line_step (cfg_termination E) True l c = (l @ [c], Editing)"
      using store small by (auto simp: ls_def)
    ultimately show ?thesis
      using cmd_edit_line [of "cmd_store c" h2 i "l @ [c]" c]
        cmd_store_line [OF i2(1) [OF store(2)] i2(4) [OF store(2)]] i2(2,5) store edit
      by (intro exI [of _ True]) simp
  qed
qed

end

text \<open>Reception in one context, as a run of the line editor.\<close>

locale line_editor = command_exec +
  fixes i :: ctx_id

sublocale line_editor \<subseteq> editor: invariant_machine "\<lambda>h c. cmd_rx_handler E i c h" "\<lambda>h. cmd_inv (h_ctx h i)"
  by unfold_locales (use cmd_rx_line in blast)

context line_editor
begin

lemmas rx_inv = editor.run_inv

lemma rx_run:
  fixes cs :: bytes
  assumes "cmd_inv (h_ctx h i)"
  shows "\<exists>ms. length ms = length cs \<and> ((\<forall>n w. fst (e_malloc E n w)) \<longrightarrow> False \<notin> set ms) \<and>
    (case line_run (cfg_termination E) ms (line_of (h_ctx h i)) cs of (l, outs) \<Rightarrow>
       line_of (h_ctx (foldl (\<lambda>h c. cmd_rx_handler E i c h) h cs) i) = l \<and> length outs = length cs \<and>
       editor_run E i h (zip cs outs) (foldl (\<lambda>h c. cmd_rx_handler E i c h) h cs))"
  using assms
proof (induction cs arbitrary: h)
  case Nil
  then show ?case by (simp add: editor_run.Nil)
next
  case (Cons c cs)
  let ?h1 = "cmd_rx_handler E i c h" and ?tm = "cfg_termination E"
  obtain m where m: "cmd_inv (h_ctx ?h1 i)" "line_of (h_ctx ?h1 i) = fst (line_step ?tm m (line_of (h_ctx h i)) c)"
    "line_acts E i c (snd (line_step ?tm m (line_of (h_ctx h i)) c)) (check_idle_timer E (Some i) True h) ?h1"
    "m \<or> (\<exists>n w. \<not> fst (e_malloc E n w))"
    using cmd_rx_line [OF Cons.prems, of c] by blast
  obtain l1 out where st: "line_step ?tm m (line_of (h_ctx h i)) c = (l1, out)" by fastforce
  have l1: "line_of (h_ctx ?h1 i) = l1" using m(2) st by simp
  obtain ms where ms: "length ms = length cs \<and> ((\<forall>n w. fst (e_malloc E n w)) \<longrightarrow> False \<notin> set ms) \<and>
    (case line_run ?tm ms l1 cs of (l, outs) \<Rightarrow>
       line_of (h_ctx (foldl (\<lambda>h c. cmd_rx_handler E i c h) ?h1 cs) i) = l \<and> length outs = length cs \<and>
       editor_run E i ?h1 (zip cs outs) (foldl (\<lambda>h c. cmd_rx_handler E i c h) ?h1 cs))"
    by (rule exE [OF Cons.IH [OF m(1), unfolded l1]])
  obtain l2 outs where r: "line_run ?tm ms l1 cs = (l2, outs)" by fastforce
  show ?case using ms m(3,4) st r
    by (intro exI [of _ "m # ms"]) (auto intro!: editor_run.Cons)
qed

end

section \<open>Properties\<close>

text \<open>C33: Whatever bytes arrive and whether or not the heap has memory, the reception state of a context stays well formed: the buffer has one
  of the seven sizes from 128 to 8192 bytes, the line with its terminating NUL fits into it, the
  quote flag is the parity of the quotes of the line, and the previous character is the last one. It is
  assumed that executing a command leaves the buffer of the context well formed.\<close>

theorem cmd_reception_invariant:
  fixes cs :: bytes
  assumes "line_editor E" and "cmd_inv (h_ctx h i)"
  defines "x \<equiv> h_ctx (foldl (\<lambda>h c. cmd_rx_handler E i c h) h cs) i"
  shows "c_at_buf_size x \<in> {128, 256, 512, 1024, 2048, 4096, 8192} \<and> length (c_at_buf x) = c_at_buf_size x \<and>
    c_at_cmd_len x + 2 \<le> c_at_buf_size x \<and>
    c_inside_quotes x = odd (count_list (take (c_at_cmd_len x) (c_at_buf x)) DQUOTE) \<and>
    (0 < c_at_cmd_len x \<longrightarrow> c_prev_character x = c_at_buf x ! (c_at_cmd_len x - 1))"
proof -
  have inv: "cmd_inv x" unfolding x_def by (rule line_editor.rx_inv [OF assms(1,2)])
  then obtain k where k: "k \<le> 6" "c_at_buf_size x = 128 * 2 ^ k" by (auto simp: cmd_inv_def)
  have "c_at_buf_size x \<in> {128, 256, 512, 1024, 2048, 4096, 8192}"
  proof -
    have "k = 0 \<or> k = 1 \<or> k = 2 \<or> k = 3 \<or> k = 4 \<or> k = 5 \<or> k = 6" using k(1) by linarith
    then show ?thesis using k(2) by (elim disjE) simp_all
  qed
  moreover have l: "length (c_at_buf x) = c_at_buf_size x" "c_at_cmd_len x \<le> c_at_buf_size x - 2"
    using inv by (auto simp: cmd_inv_def)
  moreover have "c_at_cmd_len x + 2 \<le> c_at_buf_size x" using l(2) cmd_inv_size [OF inv] by linarith
  moreover have "c_inside_quotes x = odd (count_list (take (c_at_cmd_len x) (c_at_buf x)) DQUOTE)"
    using inv by (simp add: cmd_inv_def in_quotes_def line_of_def)
  moreover have "c_prev_character x = c_at_buf x ! (c_at_cmd_len x - 1)" if "0 < c_at_cmd_len x"
  proof -
    have "line_of x \<noteq> []" using that line_of_Nil [OF inv] by simp
    then have "last (line_of x) = line_of x ! (c_at_cmd_len x - 1)"
      using last_conv_nth line_of_length [OF inv] by metis
    then show ?thesis using inv that by (simp add: cmd_inv_def line_of_def)
  qed
  ultimately show ?thesis by blast
qed

text \<open>C1: Reception implements the line editor, in what it buffers and in what it does. After any bytes
  the buffered line is the one the editor computes from them, with backspaces, quoting, the growing
  buffer, overlong lines and a heap without memory; and the host has done exactly what the editor says for
  each byte, in order: echoed it, executed the complete line it terminates and nothing else, or answered
  ERROR and dropped the line because it is too long or because the heap had no memory for a larger
  buffer. With a heap that always has memory the last case does not occur. It is assumed that executing a
  command leaves the buffer of the context well formed.\<close>

theorem cmd_reception_refines_editor:
  fixes cs :: bytes
  assumes "line_editor E" and "cmd_inv (h_ctx h i)"
  defines "h' \<equiv> foldl (\<lambda>h c. cmd_rx_handler E i c h) h cs"
  shows "\<exists>ms. length ms = length cs \<and> ((\<forall>n w. fst (e_malloc E n w)) \<longrightarrow> False \<notin> set ms) \<and>
    (case line_run (cfg_termination E) ms (line_of (h_ctx h i)) cs of (l, outs) \<Rightarrow>
       line_of (h_ctx h' i) = l \<and> length outs = length cs \<and> editor_run E i h (zip cs outs) h')"
  unfolding h'_def by (rule line_editor.rx_run [OF assms(1,2)])

text \<open>Executing a command blocks further commands and URCs while it runs and releases the block
  afterwards, on success, on error and for silent commands; only a command that announces to
  continue in the background keeps it, until it reports that it is done.\<close>

lemma cmd_send_lock_balanced:
  assumes "at_line accepted_tail s" and "no_nul s" and "\<not> h_bootloader_mode h"
    and "e_at_cmd E (cfg_at_buf_size E - 1) s
      (upd_ctx i (\<lambda>c. c\<lparr>c_executing_lock := c_executing_lock c + 1\<rparr>) h) = ((err, rsp), h2)"
    and "c_executing_lock (h_ctx h2 i) = c_executing_lock (h_ctx h i) + 1"
  shows "c_executing_lock (h_ctx (cmd_send E i s h) i) =
    c_executing_lock (h_ctx h i) + (if err = - AT_COMMAND_CONTINUE_RET then 1 else 0)"
proof -
  have g: "cmd_grammar_check s (length s) = 0" using cmd_grammar_check_iff [OF assms(2)] assms(1) by simp
  have sk: "skip_to_at s = Some s"
    using assms(1) by (cases rule: at_line.cases) (auto simp: at_prefix_iff)
  have fr: "c_executing_lock (h_ctx (rsp_send_error E h2) i) = c_executing_lock (h_ctx h2 i)"
    "c_executing_lock (h_ctx (snd (sm_at_send_internal E ctx d u h2)) i) = c_executing_lock (h_ctx h2 i)" for ctx d u
    by (rule ctx_frameD(11) [OF out_frameD(10) [OF rsp_send_error_frame]])
      (rule ctx_frameD(11) [OF out_frameD(10) [OF sm_at_send_internal_frame]])
  show ?thesis using assms(2-5) g sk
    by (simp add: cmd_send_def Let_def fr)
qed

text \<open>The response of a successful command reaches its own pipe completely: a CRLF, the text of the
  modem or handler, and a CRLF before the final result code.\<close>

lemma cmd_send_response:
  assumes "healthy_pipe E sent good" and "at_line accepted_tail s" and "no_nul s" and "\<not> h_bootloader_mode h"
    and "e_at_cmd E (cfg_at_buf_size E - 1) s
      (upd_ctx i (\<lambda>c. c\<lparr>c_executing_lock := c_executing_lock c + 1\<rparr>) h) = ((err, rsp), h2)"
    and "0 \<le> err" and "c_pipe (h_ctx h2 i) = Some p" and "cstr rsp \<noteq> []" and "\<not> e_in_isr E (h_world h2)"
    and "2 * length (cstr (format_final_result (CRLF_STR @ rsp) (length (cstr rsp) + 2) (cfg_at_buf_size E + 1))) + 5 \<le> e_fuel E"
    and "good (h_world h2)"
  shows "sent p (h_world (cmd_send E i s h)) = sent p (h_world h2) @
    cstr (format_final_result (CRLF_STR @ rsp) (length (cstr rsp) + 2) (cfg_at_buf_size E + 1))"
proof -
  let ?t = "cstr (format_final_result (CRLF_STR @ rsp) (length (cstr rsp) + 2) (cfg_at_buf_size E + 1))"
  have g: "cmd_grammar_check s (length s) = 0" using cmd_grammar_check_iff [OF assms(3)] assms(2) by simp
  have sk: "skip_to_at s = Some s"
    using assms(2) by (cases rule: at_line.cases) (auto simp: at_prefix_iff)
  have c: "cstr (CR # LF # rsp) = CR # LF # cstr rsp" by (simp add: cstr_def)
  obtain h3 where tx: "sm_at_host_pipe_tx_blocking E (Some i) ?t h2 = (int (length ?t), h3)"
    "sent p (h_world h3) = sent p (h_world h2) @ ?t"
    using healthy_pipe.tx_blocking_all [OF assms(1,7,10,11)] by metis
  have "sent p (h_world (snd (sm_at_send_internal E (Some i) ?t False h2))) = sent p (h_world h2) @ ?t"
    using assms(9) tx by (simp add: sm_at_send_internal_def)
  then show ?thesis using assms(3-8) g sk
    by (simp add: cmd_send_def Let_def c)
qed

end
