(* ===== verification/Uart_Host.thy ===== *)
theory Uart_Host
  imports Uart_Pipe At_Host_Cmd
begin

text \<open>
  The AT host on top of the UART handler. The environment of the host is instantiated with the pipe
  functions of the UART handler, on the handler's state: the contract that the host's output relies
  on then follows from the invariants of the handler and the contract of the UART driver. The command
  \<open>AT+IPR\<close> of the UART handler, which uses both, is here.
\<close>

section \<open>The pipe of the host\<close>

text \<open>The wait for the idle event of the pipe: the driver delivers events until the work item that
  notifies it is pending; it then runs.\<close>

fun uart_wait_idle :: "('rb, 'sl, 'w) uart_env \<Rightarrow> nat \<Rightarrow> ('rb, 'sl, 'w) uart \<Rightarrow> bool \<times> ('rb, 'sl, 'w) uart" where
  "uart_wait_idle U fuel u =
     (if u_idle_work u then (True, notify_transmit_idle_fn u)
      else case fuel of
        0 \<Rightarrow> (False, u)
      | Suc fuel \<Rightarrow>
          (case d_next (u_drv U) (u_world u) of
             (None, w) \<Rightarrow> (False, u\<lparr>u_world := w\<rparr>)
           | (Some ev, w) \<Rightarrow> uart_wait_idle U fuel (uart_callback U ev (u\<lparr>u_world := w\<rparr>))))"

declare uart_wait_idle.simps [simp del]

definition uart_host_env :: "('rb, 'sl, 'w) uart_env \<Rightarrow> ('rb, ('rb, 'sl, 'w) uart) env \<Rightarrow> ('rb, ('rb, 'sl, 'w) uart) env" where
  "uart_host_env U E = E\<lparr>
     e_pipe_transmit := (\<lambda>p. pipe_transmit U),
     e_pipe_receive := (\<lambda>p u. case pipe_receive U 1 u of ([], u) \<Rightarrow> ((0, NUL), u) | (c # cs, u) \<Rightarrow> ((1, c), u)),
     e_pipe_is_open := (\<lambda>p. u_pipe_open),
     e_pipe_open := (\<lambda>p. pipe_open U),
     e_pipe_close := (\<lambda>p. pipe_close U),
     e_event_wait_idle := (\<lambda>i. uart_wait_idle U (u_fuel U))\<rparr>"

lemma uart_host_env_sel [simp]:
  "e_pipe_transmit (uart_host_env U E) p = pipe_transmit U"
  "e_event_wait_idle (uart_host_env U E) i = uart_wait_idle U (u_fuel U)"
  "e_fuel (uart_host_env U E) = e_fuel E" "e_rb (uart_host_env U E) = e_rb E"
  by (simp_all add: uart_host_env_def)

context waiting
begin

lemma P_idle_fn: "P u \<Longrightarrow> P (notify_transmit_idle_fn u)"
  by (erule P_quiet) (simp add: quiet_def rx_frame_def notify_transmit_idle_fn_def uart_notify_def)

lemma wait_idle_keeps: "P u \<Longrightarrow> P (snd (uart_wait_idle U fuel u))"
proof (induction fuel arbitrary: u)
  case 0
  then show ?case by (simp add: uart_wait_idle.simps P_idle_fn)
next
  case (Suc fuel)
  obtain r w where n: "d_next (u_drv U) (u_world u) = (r, w)" by fastforce
  show ?case
  proof (cases r)
    case None
    then show ?thesis using P_world [OF Suc.prems] next_none n P_idle_fn [OF Suc.prems]
      by (simp add: uart_wait_idle.simps [of U "Suc fuel"])
  next
    case (Some ev)
    then show ?thesis using Suc.IH [OF P_event [OF Suc.prems, of ev w]] next_event n P_idle_fn [OF Suc.prems]
      by (simp add: uart_wait_idle.simps [of U "Suc fuel"])
  qed
qed

end

locale uart_host = uart_stack U cl av ok V free slab_ok
  for U :: "('rb, 'sl, 'w) uart_env" and cl av ok V free slab_ok +
  fixes E :: "('rb, ('rb, 'sl, 'w) uart) env"
begin

lemma host_transmit:
  assumes "uok u" and "pipe_transmit U d u = (n, u')"
  shows "uok u' \<and> (d \<noteq> [] \<longrightarrow> (\<exists>k \<le> length d. stream u' = stream u @ take k d \<and> (0 \<le> n \<longrightarrow> n = int k)))"
proof (cases "d = []")
  case True
  then show ?thesis using assms by (auto simp: pipe_transmit_def split: if_splits)
next
  case False
  from step_law [OF uart_step.transmit [OF False assms(2), of V] assms(1)] obtain s where
    s: "uok u'" "accepted [Transmit d n] s" "stream u' = stream u @ s" by (auto simp: orderly_act_def)
  from s(2) show ?thesis
  proof (cases rule: accepted.cases)
    case (2 t k)
    then have "t = []" by (auto elim: accepted.cases)
    then show ?thesis using s 2 by auto
  qed auto
qed

lemma host_wait:
  assumes "uok u" and "uart_wait_idle U fuel u = (b, u')"
  shows "uok u' \<and> stream u' = stream u"
proof -
  have "inv u \<and> stream u = stream u" "rinv u \<and> rx_adv U V [] u u"
    using assms(1) rx_adv_kept [of U V u u] by (simp_all add: rx_kept_def uart_ok_def)
  then show ?thesis using waiting.wait_idle_keeps [OF close_waiting, of u _ fuel] waiting.wait_idle_keeps [OF close_waiting_rx, of u u fuel] assms(2)
    by (simp add: uart_ok_def)
qed

lemma host_pipe: "pipe_sink (uart_host_env U E) (\<lambda>p. stream) uok"
proof (rule pipe_sink.intro)
  fix w p d n w' and i b
  assume g: "uok w"
  show "e_pipe_transmit (uart_host_env U E) p d w = (n, w') \<Longrightarrow> uok w'"
    using host_transmit [OF g, of d n w'] by simp
  show "e_pipe_transmit (uart_host_env U E) p d w = (n, w') \<Longrightarrow> d \<noteq> [] \<Longrightarrow>
      \<exists>k \<le> length d. stream w' = stream w @ take k d \<and> (0 \<le> n \<longrightarrow> n = int k)"
    using host_transmit [OF g, of d n w'] by simp
  show "e_event_wait_idle (uart_host_env U E) i w = (b, w') \<Longrightarrow> uok w'"
    using host_wait [OF g, of "u_fuel U" b w'] by simp
  show "e_event_wait_idle (uart_host_env U E) i w = (b, w') \<Longrightarrow> stream w' = stream w"
    using host_wait [OF g, of "u_fuel U" b w'] by simp
qed

end

sublocale uart_host \<subseteq> host: pipe_sink "uart_host_env U E" "\<lambda>p. tx_stream V cl av" "uart_ok U V cl ok free slab_ok"
  by (rule host_pipe)

section \<open>The host's loop ends\<close>

lemma wait_idle_flags:
  "u_pipe_open (snd (uart_wait_idle U fuel u)) = u_pipe_open u \<and> u_tx_enabled (snd (uart_wait_idle U fuel u)) = u_tx_enabled u \<and>
   \<not> u_idle_work (snd (uart_wait_idle U fuel u))"
proof (induction fuel arbitrary: u)
  case 0
  then show ?case by (simp add: uart_wait_idle.simps notify_transmit_idle_fn_def uart_notify_def)
next
  case (Suc fuel)
  then show ?case
    by (simp add: uart_wait_idle.simps [of U "Suc fuel"] notify_transmit_idle_fn_def uart_notify_def split: prod.split option.split)
qed

lemma transmit_flags:
  "u_pipe_open (snd (pipe_transmit U d u)) = u_pipe_open u \<and> u_tx_enabled (snd (pipe_transmit U d u)) = u_tx_enabled u \<and>
   u_idle_work (snd (pipe_transmit U d u)) = u_idle_work u"
  by (simp add: pipe_transmit_def tx_start_def Let_def case_prod_unfold sem_give_def)

text \<open>Only the end of a transmission makes the idle event pending.\<close>

lemma callback_idle:
  "\<forall>n. ev \<noteq> UART_TX_DONE n \<and> ev \<noteq> UART_TX_ABORTED n \<Longrightarrow> u_idle_work (uart_callback U ev u) = u_idle_work u"
  by (simp add: uart_callback_def uart_callback_notify_pipe_closure_def callback_rx_rdy_def callback_rx_buf_request_def
      pool_alloc_def pool_ref_def pool_unref_def uart_notify_def Let_def case_prod_unfold split: uart_event.split option.split)

definition tx_room :: "('rb, 'sl, 'w) uart_env \<Rightarrow> ('rb \<Rightarrow> bytes) \<Rightarrow> ('rb \<Rightarrow> bytes) \<Rightarrow> ('rb, 'sl, 'w) uart \<Rightarrow> nat" where
  "tx_room U cl av u = rb_capacity_get (u_rb U) (u_tx_buf u) - length (cl (u_tx_buf u)) - length (av (u_tx_buf u))"

context uart_tx
begin

lemma tx_start_wire:
  assumes "ok (u_tx_buf u)" and "av (u_tx_buf u) \<noteq> []"
  shows "o_wire V (u_world (snd (tx_start U u))) = o_wire V (u_world u)"
proof -
  obtain x rb where cm: "rb_get_claim (u_rb U) (rb_capacity_get (u_rb U) (u_tx_buf u)) (u_tx_buf u) = (x, rb)" by fastforce
  obtain e w where tx: "d_tx (u_drv U) x (u_world u) = (e, w)" by fastforce
  have "x \<noteq> []" using claim_progress [OF assms, of "rb_capacity_get (u_rb U) (u_tx_buf u)"] capacity_bound [OF assms(1)] cm by auto
  then have "o_wire V w = o_wire V (u_world u)"
    using tx_started [of x "u_world u" w] tx_failed [OF tx] tx by (cases "e = 0") (simp_all add: tx_same_def)
  then show ?thesis using cm tx by (simp add: tx_start_def Let_def)
qed

lemma callback_tx_wire:
  assumes "ok (u_tx_buf u)" and "n \<le> length (cl (u_tx_buf u))"
  shows "o_wire V (u_world (callback_tx U ab n u)) = o_wire V (u_world u)"
proof -
  let ?b = "snd (rb_get_finish (u_rb U) n (u_tx_buf u))"
  have b: "ok ?b" "cl ?b = []" using finish_ok [OF assms(1)] finish_content [OF assms] by auto
  then show ?thesis using tx_start_wire [of "u\<lparr>u_tx_buf := ?b\<rparr>"] is_empty [OF b]
    by (auto simp: callback_tx_def Let_def uart_callback_notify_pipe_transmit_idle_def sem_give_def)
qed

text \<open>The end of a transmission of which something was sent leaves room in the buffer.\<close>

lemma end_room:
  assumes "inv u" and "event_ok (u_drv U) V (u_world u) ev w" and "ev = UART_TX_DONE n \<or> ev = UART_TX_ABORTED n" and "0 < n"
  shows "0 < tx_room U cl av (uart_callback U ev (u\<lparr>u_world := w\<rparr>))"
proof -
  let ?u = "uart_callback U ev (u\<lparr>u_world := w\<rparr>)"
  obtain ab where ab: "?u = uart_callback_notify_pipe_closure (callback_tx U ab n (u\<lparr>u_world := w\<rparr>))"
    using assms(3) by (auto simp: uart_callback_def)
  obtain d where d: "o_tx V (u_world u) = Some d" "n \<le> length d" "o_wire V w = o_wire V (u_world u) @ take n d"
    using assms(2,3) by fastforce
  have buf: "ok (u_tx_buf u)" "cl (u_tx_buf u) = d" using assms(1) d(1) by (simp_all add: tx_inv_def)
  have nc: "u_tx_buf (uart_callback_notify_pipe_closure v) = u_tx_buf v"
    "u_world (uart_callback_notify_pipe_closure v) = u_world v" for v :: "('rb, 'sl, 'w) uart"
    by (simp_all add: uart_callback_notify_pipe_closure_def)
  have cap: "rb_capacity_get (u_rb U) (u_tx_buf ?u) = rb_capacity_get (u_rb U) (u_tx_buf u)"
    using callback_tx_capacity [of "u\<lparr>u_world := w\<rparr>" ab n] buf by (simp add: ab nc)
  have wire: "o_wire V (u_world ?u) = o_wire V (u_world u) @ take n d"
    using callback_tx_wire [of "u\<lparr>u_world := w\<rparr>" n ab] buf d by (simp add: ab nc)
  have "length (stream ?u) = length (stream u)" using callback_law [OF assms(1,2)] by simp
  then have "n + (length (cl (u_tx_buf ?u)) + length (av (u_tx_buf ?u))) = length (cl (u_tx_buf u)) + length (av (u_tx_buf u))"
    using d(2) by (simp add: tx_stream_def wire)
  moreover have "length (cl (u_tx_buf u)) + length (av (u_tx_buf u)) \<le> rb_capacity_get (u_rb U) (u_tx_buf u)"
    using capacity_bound [OF buf(1)] by simp
  ultimately show ?thesis using assms(4) cap by (simp add: tx_room_def)
qed

end

text \<open>A driver that has sent something whenever it reports the end of a transmission: \<open>UART_TX_DONE\<close> of
  a transmission that is never empty, or \<open>UART_TX_ABORTED\<close> with at least one byte. Then the wait for
  the idle event ends with room in the transmit buffer, unless the event was pending before.\<close>

locale progressing_uart = uart_stack U cl av ok V free slab_ok
  for U :: "('rb, 'sl, 'w) uart_env" and cl av ok V free slab_ok +
  assumes end_sent: "d_next (u_drv U) w = (Some (UART_TX_ABORTED n), w') \<Longrightarrow> 0 < n"
begin

lemma wait_room:
  assumes "inv u" and "\<not> u_idle_work u" and "uart_wait_idle U fuel u = (True, u')"
  shows "0 < tx_room U cl av u'"
  using assms
proof (induction fuel arbitrary: u)
  case 0
  then show ?case by (simp add: uart_wait_idle.simps)
next
  case (Suc fuel)
  obtain r w where n: "d_next (u_drv U) (u_world u) = (r, w)" by fastforce
  obtain ev where r: "r = Some ev"
    using Suc.prems(2,3) n by (cases r) (simp_all add: uart_wait_idle.simps [of U "Suc fuel"])
  let ?u = "uart_callback U ev (u\<lparr>u_world := w\<rparr>)"
  have e: "event_ok (u_drv U) V (u_world u) ev w" using next_event n r by blast
  have i: "inv ?u" using callback_law [OF Suc.prems(1) e] by blast
  have w: "uart_wait_idle U fuel ?u = (True, u')" using Suc.prems(2,3) n r by (simp add: uart_wait_idle.simps [of U "Suc fuel"])
  show ?case
  proof (cases "u_idle_work ?u")
    case True
    then obtain m where m: "ev = UART_TX_DONE m \<or> ev = UART_TX_ABORTED m" using callback_idle [of ev U "u\<lparr>u_world := w\<rparr>"] Suc.prems(2) by auto
    have "0 < m" using m e end_sent n r Suc.prems(1) by (auto simp: tx_inv_def)
    then show ?thesis using end_room [OF Suc.prems(1) e m] w True
      by (auto simp: uart_wait_idle.simps [of U fuel] tx_room_def notify_transmit_idle_fn_def uart_notify_def)
  qed (rule Suc.IH [OF i _ w])
qed

lemma room_accepts: "inv u \<Longrightarrow> 0 < tx_room U cl av u \<Longrightarrow> d \<noteq> [] \<Longrightarrow> fst (pipe_transmit U d u) \<noteq> 0"
  using pipe_transmit_law [of u d "fst (pipe_transmit U d u)" "snd (pipe_transmit U d u)"]
  by (cases d) (auto simp: tx_room_def split: if_splits)

end

sublocale progressing_uart \<subseteq> fresh: responsive_pipe "uart_host_env U E" "\<lambda>p. tx_stream V cl av"
    "\<lambda>u. uart_ok U V cl ok free slab_ok u \<and> \<not> u_idle_work u" for E
proof -
  have h: "uart_host U cl av ok V free slab_ok" by (rule uart_host.intro [OF uart_stack_axioms])
  note sk = pipe_sink.transmit_good [OF uart_host.host_pipe [OF h, of E]] pipe_sink.wait_good [OF uart_host.host_pipe [OF h, of E]]
    pipe_sink.transmit_sent [OF uart_host.host_pipe [OF h, of E]] pipe_sink.wait_sent [OF uart_host.host_pipe [OF h, of E]]
  show "responsive_pipe (uart_host_env U E) (\<lambda>p. stream) (\<lambda>u. uok u \<and> \<not> u_idle_work u)"
  proof (intro responsive_pipe.intro pipe_sink.intro responsive_pipe_axioms.intro, goal_cases)
    case (1 w p d n w')
    then show ?case using sk(1) [of w p d n w'] transmit_flags [of U d w] by simp
  next
    case (2 w i b w')
    then show ?case using sk(2) [of w i b w'] wait_idle_flags [of U "u_fuel U" w] by simp
  next
    case (3 w p d n w')
    then show ?case using sk(3) [of w p d n w'] by simp
  next
    case (4 w i b w' p)
    then show ?case using sk(4) [of w i b w'] by simp
  next
    case (5 w p d w1 i w2)
    have g: "uok w1" "\<not> u_idle_work w1" "uok w2"
      using 5 sk(1) [of w p d 0 w1] sk(2) [of w1 i True w2] transmit_flags [of U d w] by auto
    then have "0 < tx_room U cl av w2" using wait_room [of w1 "u_fuel U" w2] 5 by (simp add: uart_ok_def)
    then show ?case using room_accepts [of w2 d] g 5 by (simp add: uart_ok_def)
  qed
qed

context progressing_uart
begin

text \<open>An idle event that is pending at the start costs one more round.\<close>

lemma host_loop_no_fault:
  assumes "uok (h_world h)" and "2 * length d + r < fuel" and "0 < r"
  shows "h_fault (snd (tx_loop (uart_host_env U E) i p fuel r d h)) = h_fault h"
  using assms
proof (induction fuel arbitrary: d h)
  case (Suc fuel)
  have h: "uart_host U cl av ok V free slab_ok" by (rule uart_host.intro [OF uart_stack_axioms])
  show ?case
  proof (cases "d = []")
    case False
    obtain n u1 where t: "pipe_transmit U d (h_world h) = (n, u1)" by fastforce
    obtain ev u2 where w: "uart_wait_idle U (u_fuel U) u1 = (ev, u2)" by fastforce
    have g1: "uok u1" and n: "0 \<le> n \<longrightarrow> n \<le> int (length d)" using uart_host.host_transmit [OF h Suc.prems(1) t] False by auto
    have g2: "uok u2" "\<not> u_idle_work u2" using uart_host.host_wait [OF h g1 w] wait_idle_flags [of U "u_fuel U" u1] w by auto
    have f: "h_fault (snd (tx_loop (uart_host_env U E) i p fuel r' d (h\<lparr>h_world := u2\<rparr>))) = h_fault h" if "0 < r'" "r' \<le> r" for r'
      using fresh.tx_loop_no_fault [of r' "h\<lparr>h_world := u2\<rparr>" d fuel E p i] g2 Suc.prems(2) that by simp
    have "r \<noteq> 1 \<Longrightarrow> 0 < r - 1" using Suc.prems(3) by simp
    then show ?thesis using False t w n f [of r] f [of "r - 1"] Suc.IH [of "h\<lparr>h_world := u1\<rparr>" "drop (nat n) d"] g1 Suc.prems
      by (cases d; cases ev) (auto split: if_splits)
  qed (cases fuel, auto)
qed simp

end

section \<open>AT+IPR\<close>

definition uart_baudrates :: "32 word list" where
  "uart_baudrates = [115200, 230400, 460800, 921600, 1000000]"

text \<open>\<open>modem_pipe_close\<close> and \<open>modem_pipe_open\<close> call the functions of the pipe and wait for the
  notification; they are parameters.\<close>

definition handle_at_ipr ::
  "('rb, 'sl, 'w) uart_env \<Rightarrow> ('rb, ('rb, 'sl, 'w) uart) env \<Rightarrow> 'p at_parser_ops \<Rightarrow>
   (('rb, 'sl, 'w) uart \<Rightarrow> int \<times> ('rb, 'sl, 'w) uart) \<Rightarrow> (('rb, 'sl, 'w) uart \<Rightarrow> int \<times> ('rb, 'sl, 'w) uart) \<Rightarrow>
   at_parser_cmd_type \<Rightarrow> 'p \<Rightarrow> nat \<Rightarrow> ('rb, ('rb, 'sl, 'w) uart) host \<Rightarrow> int \<times> ('rb, ('rb, 'sl, 'w) uart) host" where
  "handle_at_ipr U E P mp_close mp_open cmd_type parser param_count h =
     (case d_config_get (u_drv U) (u_world (h_world h)) of (err, baudrate) \<Rightarrow>
        if err \<noteq> 0 then (err, h)
        else if cmd_type = CMD_TYPE_READ then
          (0, rsp_send E (CRLF_STR @ ''+IPR: '' @ show_nat (unat baudrate) @ CRLF_STR) h)
        else if cmd_type = CMD_TYPE_TEST then
          (0, rsp_send E (CRLF_STR @ ''+IPR: (),(115200,230400,460800,921600,1000000)'' @ CRLF_STR) h)
        else if cmd_type \<noteq> CMD_TYPE_SET \<or> param_count \<noteq> 2 then (- EINVAL, h)
        else if sm_cmux_is_started h then (- EBUSY, h)
        else case ap_num_get_u32 P parser 1 of
          Inl err \<Rightarrow> (err, h)
        | Inr baudrate \<Rightarrow>
            if baudrate \<notin> set uart_baudrates then (- EINVAL, h)
            else
              let h = rsp_send_ok E h
              in case mp_close (h_world h) of (err, u) \<Rightarrow>
                let h = h\<lparr>h_world := u\<rparr>
                in if err \<noteq> 0 then (err, h)
                   else case d_configure (u_drv U) baudrate (u_world (h_world h)) of (err, w) \<Rightarrow>
                     let h = h\<lparr>h_world := (h_world h)\<lparr>u_world := w\<rparr>\<rparr>
                     in if err \<noteq> 0 then (err, h)
                        else case mp_open (h_world h) of (err, u) \<Rightarrow>
                          let h = h\<lparr>h_world := u\<rparr>
                          in if err \<noteq> 0 then (err, h) else (- SILENT_AT_COMMAND_RET, h))"

section \<open>Properties\<close>


end
