(* ===== verification/At_Host_Life.thy ===== *)
theory At_Host_Life
  imports At_Host_Cmd
begin

text \<open>
  Life cycle of the AT host instances (\<open>app/src/sm_at_host.c\<close>): creation and destruction of
  contexts, attaching them to pipes, the pipe events, and the work function that processes the
  message queue of the host.
\<close>

section \<open>Pipe events\<close>

definition pipe_attach :: "pipe \<Rightarrow> pipe_cb \<Rightarrow> ('rb, 'w) host \<Rightarrow> ('rb, 'w) host" where
  "pipe_attach p cb h = h\<lparr>h_pipe_cb := (h_pipe_cb h)(p := cb)\<rparr>"

definition set_c_pipe :: "ctx_id \<Rightarrow> pipe option \<Rightarrow> ('rb, 'w) host \<Rightarrow> ('rb, 'w) host" where
  "set_c_pipe i p h = upd_ctx i (\<lambda>c. c\<lparr>c_pipe := p\<rparr>) h"

definition sm_at_pipe_opened ::
  "('rb, 'w) env \<Rightarrow> ctx_id option \<Rightarrow> pipe \<Rightarrow> ('rb, 'w) host \<Rightarrow> ('rb, 'w) host" where
  "sm_at_pipe_opened E ctx p h =
     (let msg = \<lparr>m_ctx = ctx, m_pipe = Some p, m_pipe_event = SM_PIPE_EVENT_OPENED,
                 m_sm_event = SM_EVENT_NONE\<rparr>
      in case ctx of
           None \<Rightarrow> send_msg E msg h
         | Some i \<Rightarrow>
             (if c_pipe (h_ctx h i) = None then set_c_pipe i (Some p) h
              else if c_pipe (h_ctx h i) = Some p then h
              else send_msg E msg h))"

definition sm_at_pipe_closed ::
  "('rb, 'w) env \<Rightarrow> ctx_id option \<Rightarrow> pipe option \<Rightarrow> ('rb, 'w) host \<Rightarrow> ('rb, 'w) host" where
  "sm_at_pipe_closed E ctx p h =
     (case ctx of
        None \<Rightarrow> h
      | Some i \<Rightarrow>
          (if c_pipe (h_ctx h i) = p then
             send_msg E \<lparr>m_ctx = ctx, m_pipe = p, m_pipe_event = SM_PIPE_EVENT_CLOSED,
                         m_sm_event = SM_EVENT_NONE\<rparr> (set_c_pipe i None h)
           else h))"

definition at_pipe_event_handler ::
  "('rb, 'w) env \<Rightarrow> pipe \<Rightarrow> modem_pipe_event \<Rightarrow> ctx_id option \<Rightarrow> ('rb, 'w) host \<Rightarrow> ('rb, 'w) host" where
  "at_pipe_event_handler E p event ctx h =
     (if ctx = None \<or> \<not> sm_at_ctx_check ctx h then h
      else let i = the ctx; h = h\<lparr>h_world := e_event_post E i event (h_world h)\<rparr>
      in case event of
           MODEM_PIPE_EVENT_RECEIVE_READY \<Rightarrow>
             (if c_pipe (h_ctx h i) \<noteq> Some p then h else snd (work_submit E (RxWork i) h))
         | MODEM_PIPE_EVENT_CLOSED \<Rightarrow> sm_at_pipe_closed E ctx (Some p) h
         | MODEM_PIPE_EVENT_OPENED \<Rightarrow> sm_at_pipe_opened E ctx p h
         | MODEM_PIPE_EVENT_TRANSMIT_IDLE \<Rightarrow> h)"

definition null_pipe_handler ::
  "('rb, 'w) env \<Rightarrow> pipe \<Rightarrow> modem_pipe_event \<Rightarrow> ('rb, 'w) host \<Rightarrow> ('rb, 'w) host" where
  "null_pipe_handler E p event h =
     (case event of MODEM_PIPE_EVENT_OPENED \<Rightarrow> sm_at_pipe_opened E None p h | _ \<Rightarrow> h)"

section \<open>Creation and destruction\<close>

text \<open>A new context: \<open>memset\<close> to zero, then the fields that are set. The ring buffer of data mode
  is not initialised before data mode is entered; it is given as the zeroed memory.\<close>

definition new_ctx :: "'rb \<Rightarrow> pipe option \<Rightarrow> 'rb sm_at_host_ctx" where
  "new_ctx zero_rb p =
     \<lparr>c_pipe = p, c_at_mode = SM_AT_COMMAND_MODE,
      c_data_mode = \<lparr>dm_handler = None, dm_handler_result = 0, dm_time_limit = 0, dm_data_len = 0\<rparr>,
      c_at_buf = replicate AT_BUF_MIN_SIZE NUL, c_at_buf_size = AT_BUF_MIN_SIZE,
      c_data_rb = zero_rb, c_data_rb_buf = False, c_quit_str_match = 0,
      c_inactivity_timer = 0, c_idle_timer = 0, c_inside_quotes = False, c_executing_lock = 0,
      c_at_cmd_len = 0, c_echo_len = 0, c_prev_character = NUL,
      c_null_dropped_count = 0, c_null_match_count = 0, c_echo_enabled = False,
      c_idle_work_list = [], c_buffered_urcs = [],
      c_poll_ctx = \<lparr>apc_xapoll_events_requested = 0, apc_adr_flags = 0, apc_adr_hex = False, apc_datamode_sock = None\<rparr>\<rparr>"

definition sm_at_host_ctx_init ::
  "('rb, 'w) env \<Rightarrow> ctx_id \<Rightarrow> pipe option \<Rightarrow> ('rb, 'w) host \<Rightarrow> int \<times> ('rb, 'w) host" where
  "sm_at_host_ctx_init E i p h =
     (case e_malloc E AT_BUF_MIN_SIZE (h_world h) of
        (False, w) \<Rightarrow> (- ENOMEM, h\<lparr>h_world := w\<rparr>)
      | (True, w) \<Rightarrow>
          (0, upd_ctx i (\<lambda>c. new_ctx (c_data_rb c) p) (h\<lparr>h_world := w\<rparr>)))"

definition sm_at_host_create_new ::
  "('rb, 'w) env \<Rightarrow> pipe \<Rightarrow> ('rb, 'w) host \<Rightarrow> ctx_id option \<times> ('rb, 'w) host" where
  "sm_at_host_create_new E p h =
     (case e_malloc_ctx E (h_world h) of
        (None, w) \<Rightarrow> (None, h\<lparr>h_world := w\<rparr>)
      | (Some i, w) \<Rightarrow>
          (case sm_at_host_ctx_init E i (Some p) (h\<lparr>h_world := w\<rparr>) of
             (err, h) \<Rightarrow>
               (if err \<noteq> 0 then (None, h\<lparr>h_world := e_free_ctx E i (h_world h)\<rparr>)
                else (Some i, pipe_attach p (AtPipeHandler (Some i))
                               (h\<lparr>h_instances := h_instances h @ [i]\<rparr>)))))"

definition sm_at_host_create ::
  "('rb, 'w) env \<Rightarrow> pipe option \<Rightarrow> ('rb, 'w) host \<Rightarrow> ctx_id option \<times> ('rb, 'w) host" where
  "sm_at_host_create E pipe h =
     (case pipe of
        None \<Rightarrow> (None, h)
      | Some p \<Rightarrow>
          (let urcs_queued = (\<not> rb_is_empty (e_rb E) (h_urc_buf h))
           in case sm_at_host_get_urc_ctx E h of
             Some i \<Rightarrow>
               (if c_pipe (h_ctx h i) = None then
                  (let h = upd_ctx i (\<lambda>c. c\<lparr>c_pipe := Some p, c_executing_lock := 0\<rparr>) h;
                       h = pipe_attach p (AtPipeHandler (Some i)) h
                   in (Some i, if urcs_queued then sm_at_host_event_notify E (Some i) SM_EVENT_URC h else h))
                else sm_at_host_create_new E p h)
           | None \<Rightarrow> sm_at_host_create_new E p h))"

definition sm_at_host_destroy ::
  "('rb, 'w) env \<Rightarrow> ctx_id option \<Rightarrow> ('rb, 'w) host \<Rightarrow> int \<times> ('rb, 'w) host" where
  "sm_at_host_destroy E ctx h =
     (case ctx of
        None \<Rightarrow> (- EINVAL, h)
      | Some i \<Rightarrow>
          (if \<not> sm_at_ctx_check ctx h then (- EINVAL, h)
           else if h_current h = ctx then (- EPERM, h)
           else if length (h_instances h) = 1 then (- EPERM, set_c_pipe i None h)
           else
             (0, (upd_ctx i (\<lambda>c. c\<lparr>c_idle_timer := 0, c_inactivity_timer := 0, c_buffered_urcs := []\<rparr>) h)
                   \<lparr>h_works := filter (\<lambda>wk. wk \<noteq> RxWork i \<and> wk \<noteq> RawSendWork i) (h_works h),
                    h_instances := remove1 i (h_instances h), h_world := e_free_ctx E i (h_world h)\<rparr>)))"

section \<open>Attaching contexts to pipes\<close>

definition sm_at_host_set_pipe ::
  "('rb, 'w) env \<Rightarrow> ctx_id option \<Rightarrow> pipe option \<Rightarrow> ('rb, 'w) host \<Rightarrow> int \<times> ('rb, 'w) host" where
  "sm_at_host_set_pipe E ctx pipe h =
     (case (ctx, pipe) of
        (Some i, Some p) \<Rightarrow>
          (if \<not> sm_at_ctx_check ctx h then (- EINVAL, h)
           else
             (let old_pipe = c_pipe (h_ctx h i);
                  h = set_c_pipe i (Some p) h;
                  h = (case old_pipe of Some q \<Rightarrow> pipe_attach q NullPipeHandler h | None \<Rightarrow> h);
                  h = (case sm_at_host_get_ctx_from pipe h of
                         Some j \<Rightarrow>
                           (if j \<noteq> i \<and> c_pipe (h_ctx h j) = Some p
                            then snd (sm_at_host_destroy E (Some j) (set_c_pipe j (Some Poison) h))
                            else h)
                       | None \<Rightarrow> h)
              in (0, pipe_attach p (AtPipeHandler ctx) h)))
      | _ \<Rightarrow> (- EINVAL, h))"

definition sm_at_host_release :: "('rb, 'w) env \<Rightarrow> ctx_id option \<Rightarrow> ('rb, 'w) host \<Rightarrow> ('rb, 'w) host" where
  "sm_at_host_release E ctx h =
     (if \<not> sm_at_ctx_check ctx h then h
      else let p = c_pipe (h_ctx h (the ctx));
               h = (case p of Some q \<Rightarrow> pipe_attach q NoHandler h | None \<Rightarrow> fault h)
           in sm_at_pipe_closed E ctx p h)"

definition sm_at_host_attach :: "('rb, 'w) env \<Rightarrow> pipe option \<Rightarrow> ('rb, 'w) host \<Rightarrow> ('rb, 'w) host" where
  "sm_at_host_attach E pipe h =
     (case pipe of
        None \<Rightarrow> h
      | Some p \<Rightarrow>
          (let h = pipe_attach p NullPipeHandler h
           in if e_pipe_is_open E p (h_world h) then sm_at_pipe_opened E None p h else h))"

section \<open>The message queue\<close>

definition host_pipe_opened ::
  "('rb, 'w) env \<Rightarrow> ctx_id option \<Rightarrow> pipe option \<Rightarrow> ('rb, 'w) host \<Rightarrow> ('rb, 'w) host" where
  "host_pipe_opened E ctx pipe h =
     (case ctx of
        Some i \<Rightarrow>
          (if c_pipe (h_ctx h i) \<noteq> None \<and> c_pipe (h_ctx h i) \<noteq> pipe then h
           else if c_pipe (h_ctx h i) \<noteq> None then h
           else case pipe of
             Some p \<Rightarrow> pipe_attach p (AtPipeHandler ctx) (set_c_pipe i pipe h)
           | None \<Rightarrow> fault h)
      | None \<Rightarrow> snd (sm_at_host_create E pipe h))"

definition host_pipe_closed ::
  "('rb, 'w) env \<Rightarrow> ctx_id option \<Rightarrow> pipe option \<Rightarrow> ('rb, 'w) host \<Rightarrow> ('rb, 'w) host" where
  "host_pipe_closed E ctx pipe h =
     (case ctx of
        Some i \<Rightarrow>
          (if c_pipe (h_ctx h i) = None then
             (let h = set_c_pipe i (Some Poison) h;
                  h = (case pipe of
                         Some p \<Rightarrow> (if h_pipe_cb h p = AtPipeHandler ctx
                                    then pipe_attach p NullPipeHandler h else h)
                       | None \<Rightarrow> fault h)
              in snd (sm_at_host_destroy E ctx h))
           else h)
      | None \<Rightarrow>
          (case pipe of
             Some p \<Rightarrow> (case h_pipe_cb h p of
                          AtPipeHandler _ \<Rightarrow> pipe_attach p NullPipeHandler h | _ \<Rightarrow> h)
           | None \<Rightarrow> fault h))"

definition host_msg ::
  "('rb, 'w) env \<Rightarrow> sm_at_host_msg \<Rightarrow> ('rb, 'w) host \<Rightarrow> ('rb, 'w) host" where
  "host_msg E msg h =
     (let ctx = (if sm_at_ctx_check (m_ctx msg) h then m_ctx msg else None);
          h = (case m_pipe_event msg of
                 SM_PIPE_EVENT_OPENED \<Rightarrow> host_pipe_opened E ctx (m_pipe msg) h
               | SM_PIPE_EVENT_CLOSED \<Rightarrow> host_pipe_closed E ctx (m_pipe msg) h
               | SM_PIPE_EVENT_NONE \<Rightarrow> h)
      in if m_sm_event msg = SM_EVENT_URC \<or> m_sm_event msg = SM_EVENT_AT_MODE then
           (if is_idle_ctx ctx h then idle_work E (the ctx) h else check_idle_timer E ctx False h)
         else h)"

fun sm_at_host_work_fn :: "('rb, 'w) env \<Rightarrow> nat \<Rightarrow> ('rb, 'w) host \<Rightarrow> ('rb, 'w) host" where
  "sm_at_host_work_fn E 0 h = (case h_msgq h of [] \<Rightarrow> h | _ # _ \<Rightarrow> fault h)"
| "sm_at_host_work_fn E (Suc fuel) h =
     (case h_msgq h of
        [] \<Rightarrow> h
      | msg # msgs \<Rightarrow> sm_at_host_work_fn E fuel (host_msg E msg (h\<lparr>h_msgq := msgs\<rparr>)))"

section \<open>Initialisation and power\<close>

definition sm_at_host_init ::
  "('rb, 'w) env \<Rightarrow> pipe option \<Rightarrow> ('rb, 'w) host \<Rightarrow> int \<times> ('rb, 'w) host" where
  "sm_at_host_init E uart_pipe h =
     (case uart_pipe of
        None \<Rightarrow> (- ENODEV, h)
      | Some p \<Rightarrow>
          (case sm_at_host_create E uart_pipe h of
             (None, h) \<Rightarrow> (- ENOMEM, h)
           | (Some i, h) \<Rightarrow>
               (case e_pipe_open E p (h_world h) of
                  (err, w) \<Rightarrow>
                    (let h = h\<lparr>h_world := w\<rparr>
                     in if err \<noteq> 0 then (err, snd (sm_at_host_destroy E (Some i) (pipe_attach p NoHandler h)))
                        else (0, h)))))"

definition at_host_power_off :: "('rb, 'w) env \<Rightarrow> bool \<Rightarrow> ('rb, 'w) host \<Rightarrow> int \<times> ('rb, 'w) host" where
  "at_host_power_off E shutting_down h =
     (let pipe = (case sm_at_host_get_current E h of Some i \<Rightarrow> c_pipe (h_ctx h i) | None \<Rightarrow> None);
          h = (if shutting_down then
                 (case pipe of None \<Rightarrow> h | Some p \<Rightarrow> h\<lparr>h_world := snd (e_pipe_close E p (h_world h))\<rparr>)
               else h)
      in case e_pm_suspend E (h_world h) of (err, w) \<Rightarrow> (err, h\<lparr>h_world := w\<rparr>))"

definition sm_at_host_power_off :: "('rb, 'w) env \<Rightarrow> ('rb, 'w) host \<Rightarrow> int \<times> ('rb, 'w) host" where
  "sm_at_host_power_off E h =
     (case at_host_power_off E False h of
        (err, h) \<Rightarrow> (err, urc_send E (''Ready'' @ CRLF_STR) h))"

definition sm_at_host_power_on :: "('rb, 'w) env \<Rightarrow> ('rb, 'w) host \<Rightarrow> int \<times> ('rb, 'w) host" where
  "sm_at_host_power_on E h =
     (case e_pm_resume E (h_world h) of
        (err, w) \<Rightarrow> (if err \<noteq> 0 \<and> err \<noteq> - EALREADY then err else 0, h\<lparr>h_world := w\<rparr>))"

section \<open>The host as a machine driven by events\<close>

text \<open>The entry points of the host: events of a pipe, which go to the callback attached to it, work
  items of the work queue, expired timers, and the calls of the other modules.\<close>

datatype host_event = PipeEvent pipe modem_pipe_event | RunWork work | IdleTimer ctx_id
  | InactivityTimer ctx_id | Attach pipe | SetPipe ctx_id pipe | Release ctx_id | CmdDone ctx_id
  | Lock ctx_id | Received ctx_id char

definition pipe_event ::
  "('rb, 'w) env \<Rightarrow> pipe \<Rightarrow> modem_pipe_event \<Rightarrow> ('rb, 'w) host \<Rightarrow> ('rb, 'w) host" where
  "pipe_event E p ev h =
     (case h_pipe_cb h p of
        AtPipeHandler ctx \<Rightarrow> at_pipe_event_handler E p ev ctx h
      | NullPipeHandler \<Rightarrow> null_pipe_handler E p ev h
      | NoHandler \<Rightarrow> h
      | CmuxModule \<Rightarrow> h
      | PppModule \<Rightarrow> h
      | TraceBackend \<Rightarrow> h)"

text \<open>Work items of other modules are numbers. Those of the sockets module are its send notifications and, for
  each context, the poll work and its wrapper that runs when the context is idle; the multiples of three
  are left to the other modules.\<close>

definition send_cb_work :: nat where "send_cb_work = 0"
definition poll_work :: "ctx_id \<Rightarrow> nat" where "poll_work i = 3 * i + 1"
definition idle_poll_work :: "ctx_id \<Rightarrow> nat" where "idle_poll_work i = 3 * i + 2"

definition run_work :: "('rb, 'w) env \<Rightarrow> work \<Rightarrow> ('rb, 'w) host \<Rightarrow> ('rb, 'w) host" where
  "run_work E wk h =
     (case wk of
        HostWork \<Rightarrow> sm_at_host_work_fn E (e_fuel E) h
      | RxWork i \<Rightarrow> at_pipe_rx_work_fn E i h
      | RawSendWork i \<Rightarrow> raw_send_scheduled E i h
      | PollWork i \<Rightarrow> e_run_work E (poll_work i) h)"

fun host_step :: "('rb, 'w) env \<Rightarrow> ('rb, 'w) host \<Rightarrow> host_event \<Rightarrow> ('rb, 'w) host" where
  "host_step E h (PipeEvent p ev) = pipe_event E p ev h"
| "host_step E h (RunWork wk) = run_work E wk h"
| "host_step E h (IdleTimer i) = idle_timer_handler E i h"
| "host_step E h (InactivityTimer i) = inactivity_timer_handler E i h"
| "host_step E h (Attach p) = sm_at_host_attach E (Some p) h"
| "host_step E h (SetPipe i p) = snd (sm_at_host_set_pipe E (Some i) (Some p) h)"
| "host_step E h (Release i) = sm_at_host_release E (Some i) h"
| "host_step E h (CmdDone i) = sm_at_host_cmd_done E (Some i) h"
| "host_step E h (Lock i) = sm_at_host_lock_ctx E (Some i) h"
| "host_step E h (Received i c) = sm_at_receive E i c h"

section \<open>Invariants of the host\<close>

text \<open>An invariant that depends on the instance list, the poll settings of the contexts, the socket table
  and an observation of the world is kept by every entry point of the host when the operations that
  create and destroy contexts keep it, and the code that the host calls (data mode handlers, AT commands,
  work items).\<close>

lemma poll_ctx_kept [simp]:
  "c_poll_ctx (cmd_backspace c) = c_poll_ctx c" "c_poll_ctx (cmd_trim_cr tm c) = c_poll_ctx c"
  "c_poll_ctx (cmd_store b c) = c_poll_ctx c"
  by (simp_all add: cmd_backspace_def cmd_trim_cr_def cmd_store_def Let_def)

locale host_machine = world_kept E obs
  for E :: "('rb, 'w) env" and obs :: "'w \<Rightarrow> 'o" +
  fixes I :: "('rb, 'w) host \<Rightarrow> bool"
  assumes I_out: "I h \<Longrightarrow> out_frame h h' \<Longrightarrow> obs (h_world h') = obs (h_world h) \<Longrightarrow> I h'"
    and I_ctx [simp]: "I h \<Longrightarrow> (\<And>c. c_poll_ctx (f c) = c_poll_ctx c) \<Longrightarrow> I (upd_ctx i f h)"
    and I_current: "I h \<Longrightarrow> I (h\<lparr>h_current := ctx\<rparr>)"
    and I_pipe_cb: "I h \<Longrightarrow> I (h\<lparr>h_pipe_cb := cbs\<rparr>)"
    and create_new_I [simp]: "I h \<Longrightarrow> I (snd (sm_at_host_create_new E p h))"
    and destroy_I [simp]: "I h \<Longrightarrow> I (snd (sm_at_host_destroy E ctx h))"
    and post_obs: "obs (e_event_post E i ev w) = obs w"
    and receive_obs: "e_pipe_receive E p w = (r, w') \<Longrightarrow> obs w' = obs w"
    and handler_I: "I h \<Longrightarrow> I (snd (e_datamode_handler E cb op d fl h))"
    and at_cmd_I: "I h \<Longrightarrow> I (snd (e_at_cmd E n s h))"
    and xdfu_I: "I h \<Longrightarrow> I (snd (e_xdfu E x s h))"
    and reset_I: "I h \<Longrightarrow> I (e_final_reset E h)"
    and work_I: "I h \<Longrightarrow> I (e_run_work E wk h)"
begin

lemma I_world: "I h \<Longrightarrow> obs w = obs (h_world h) \<Longrightarrow> I (h\<lparr>h_world := w\<rparr>)"
  by (rule I_out [OF _ out_frame_world]) simp_all

lemma I_upd [simp]:
  assumes "I h"
  shows "I (sm_at_host_set_current_ctx ctx h)" "I (fault h)" "I (pipe_attach p cb h)" "I (set_c_pipe i q h)"
    "I (h\<lparr>h_msgq := ms\<rparr>)" "I (h\<lparr>h_urc_buf := b\<rparr>)"
  using assms
  by (simp_all add: sm_at_host_set_current_ctx_def pipe_attach_def set_c_pipe_def I_current I_pipe_cb
      I_out [OF assms out_frame_fault] I_out [OF assms out_frame_msgq] I_out [OF assms out_frame_urc_buf])

lemma output_I [simp]:
  assumes "I h"
  shows "I (rsp_send E t h)" "I (rsp_send_error E h)"
    "I (rsp_send_ok E h)" "I (urc_send E t h)"
    "I (snd (sm_at_send_internal E ctx d urc h))"
    "I (flush_pipe_urcs E i h)" "I (check_idle_timer E ctx r h)"
    "I (snd (work_submit E wk h))" "I (sm_at_host_event_notify E ctx ev h)"
  by (simp_all add: rsp_send_error_def rsp_send_ok_def
      I_out [OF assms rsp_send_frame] I_out [OF assms urc_send_frame]
      I_out [OF assms sm_at_send_internal_frame] I_out [OF assms flush_pipe_urcs_frame]
      I_out [OF assms check_idle_timer_frame] I_out [OF assms work_submit_frame]
      I_out [OF assms event_notify_frame])

lemma send_msg_I [simp]: "I h \<Longrightarrow> I (send_msg E msg h)"
proof -
  assume "I h"
  then have "I (snd (work_submit E HostWork (h\<lparr>h_msgq := q\<rparr>)))" for q by simp
  then show ?thesis by (auto simp: send_msg_def Let_def split: prod.split) (metis output_I(7) snd_conv)+
qed

lemma set_sm_mode_I [simp]:
  "I h \<Longrightarrow> I (snd (set_sm_mode E ctx m h))"
  by (auto simp: set_sm_mode_def I_world malloc_obs
      split: option.split sm_operation_mode.split prod.split bool.split)

lemma exit_datamode_I [simp]:
  "I h \<Longrightarrow> I (snd (exit_datamode E ctx h))"
  by (auto simp: exit_datamode_def case_prod_unfold Let_def handler_I split: option.split bool.split)

lemma exit_datamode_handler_I [simp]:
  "I h \<Longrightarrow> I (exit_datamode_handler E ctx r h)"
  by (auto simp: exit_datamode_handler_def case_prod_unfold Let_def handler_I split: option.split bool.split)

lemma enter_datamode_I [simp]:
  "I h \<Longrightarrow> I (snd (enter_datamode E cb n h))"
  by (auto simp: enter_datamode_def case_prod_unfold Let_def split: option.split bool.split)

lemma raw_send_loop_I [simp]:
  "I h \<Longrightarrow> I (raw_send_loop E i fl fuel retry h)"
  by (induction fuel arbitrary: retry h)
    (auto simp: case_prod_unfold Let_def handler_I split: option.split)

lemma raw_send_I [simp]: "I h \<Longrightarrow> I (raw_send E fl h)"
  by (auto simp: raw_send_def simp del: raw_send_loop.simps split: option.split)

lemma write_loop_I [simp]: "I h \<Longrightarrow> I (write_loop E i fuel buf h)"
proof (induction fuel arbitrary: buf h)
  case 0
  then show ?case by (cases buf) auto
next
  case (Suc fuel)
  then show ?case by (cases buf) (auto simp: case_prod_unfold Let_def)
qed

lemma write_data_buf_I [simp]: "I h \<Longrightarrow> I (write_data_buf E buf h)"
  by (auto simp: write_data_buf_def Let_def split: option.split)

lemma raw_send_scheduled_I [simp]:
  "I h \<Longrightarrow> I (raw_send_scheduled E i h)"
  by (simp add: raw_send_scheduled_def Let_def)

lemma raw_match_I [simp]: "I h \<Longrightarrow> I (raw_match E n i c h)"
  by (induction n arbitrary: h) (simp_all add: Let_def)

lemma raw_rx_handler_I [simp]: "I h \<Longrightarrow> I (raw_rx_handler E i c h)"
  by (simp add: raw_rx_handler_def Let_def del: raw_match.simps)

lemma null_handler_I [simp]: "I h \<Longrightarrow> I (null_handler E i c h)"
  by (simp add: null_handler_def Let_def)

lemma bootloader_I [simp]:
  "I h \<Longrightarrow> I (handle_bootloader_at_cmd E s h)"
  by (simp add: handle_bootloader_at_cmd_def case_prod_unfold xdfu_I reset_I)

lemma cmd_send_I [simp]: "I h \<Longrightarrow> I (cmd_send E i s h)"
  by (simp add: cmd_send_def case_prod_unfold Let_def at_cmd_I)

lemma cmd_finish_I [simp]: "I h \<Longrightarrow> I (cmd_finish E i h)"
  by (auto simp: cmd_finish_def Let_def I_world malloc_obs split: prod.split bool.split)

lemma cmd_echo_I [simp]: "I h \<Longrightarrow> I (cmd_echo E i c s h)"
  by (simp add: cmd_echo_def Let_def)

lemma cmd_execute_I [simp]: "I h \<Longrightarrow> I (cmd_execute E i h)"
  by (simp add: cmd_execute_def Let_def)

lemma cmd_echo_send_I [simp]: "I h \<Longrightarrow> I (cmd_echo_send E i c s h)"
  by (simp add: cmd_echo_send_def Let_def)

lemma cmd_grow_I [simp]: "I h \<Longrightarrow> I (snd (cmd_grow E i h))"
  by (auto simp: cmd_grow_def Let_def I_world malloc_obs split: prod.split bool.split)

lemma cmd_rx_handler_I [simp]: "I h \<Longrightarrow> I (cmd_rx_handler E i c h)"
  by (auto simp: cmd_rx_handler_def Let_def case_prod_unfold split: bool.split)

lemma sm_at_receive_I [simp]: "I h \<Longrightarrow> I (sm_at_receive E i c h)"
  by (auto simp: sm_at_receive_def Let_def split: sm_operation_mode.split)

lemma rx_loop_I [simp]: "I h \<Longrightarrow> I (rx_loop E i p fuel h)"
  by (induction fuel arbitrary: h) (auto simp: Let_def I_world receive_obs split: prod.split)

lemma at_pipe_rx_work_fn_I [simp]:
  "I h \<Longrightarrow> I (at_pipe_rx_work_fn E i h)"
  by (auto simp: at_pipe_rx_work_fn_def simp del: rx_loop.simps split: option.split)

lemma pipe_opened_I [simp]: "I h \<Longrightarrow> I (sm_at_pipe_opened E ctx p h)"
  by (auto simp: sm_at_pipe_opened_def Let_def split: option.split)

lemma pipe_closed_I [simp]: "I h \<Longrightarrow> I (sm_at_pipe_closed E ctx p h)"
  by (auto simp: sm_at_pipe_closed_def split: option.split)

lemma pipe_event_I [simp]: "I h \<Longrightarrow> I (pipe_event E p ev h)"
  by (auto simp: pipe_event_def at_pipe_event_handler_def null_pipe_handler_def Let_def I_world post_obs
      split: pipe_cb.split modem_pipe_event.split)

lemma create_I [simp]: "I h \<Longrightarrow> I (snd (sm_at_host_create E p h))"
  by (auto simp: sm_at_host_create_def Let_def split: option.split)

lemma set_pipe_I [simp]:
  "I h \<Longrightarrow> I (snd (sm_at_host_set_pipe E ctx p h))"
  by (auto simp: sm_at_host_set_pipe_def Let_def split: option.split)

lemma release_I [simp]: "I h \<Longrightarrow> I (sm_at_host_release E ctx h)"
  by (auto simp: sm_at_host_release_def Let_def split: option.split)

lemma attach_I [simp]: "I h \<Longrightarrow> I (sm_at_host_attach E p h)"
  by (auto simp: sm_at_host_attach_def Let_def split: option.split)

lemma idle_work_loop_I [simp]: "I h \<Longrightarrow> I (idle_work_loop E i fuel h)"
  by (induction fuel arbitrary: h) (auto simp: work_I split: list.split)

lemma idle_work_I [simp]: "I h \<Longrightarrow> I (idle_work E i h)"
  by (simp add: idle_work_def Let_def del: idle_work_loop.simps)

lemma host_msg_I [simp]: "I h \<Longrightarrow> I (host_msg E msg h)"
  by (auto simp: host_msg_def host_pipe_opened_def host_pipe_closed_def Let_def
      split: option.split sm_pipe_event.split pipe_cb.split)

lemma work_fn_I [simp]: "I h \<Longrightarrow> I (sm_at_host_work_fn E fuel h)"
  by (induction fuel arbitrary: h) (auto split: list.split)

lemma cmd_done_I [simp]: "I h \<Longrightarrow> I (sm_at_host_cmd_done E ctx h)"
  by (simp add: sm_at_host_cmd_done_def Let_def)

lemma lock_ctx_I [simp]: "I h \<Longrightarrow> I (sm_at_host_lock_ctx E ctx h)"
  by (simp add: sm_at_host_lock_ctx_def Let_def)

lemma host_step_I: "I h \<Longrightarrow> I (host_step E h ev)"
  by (cases ev) (auto simp: run_work_def work_I idle_timer_handler_def inactivity_timer_handler_def
      simp del: sm_at_host_work_fn.simps split: work.split)

end

sublocale host_machine \<subseteq> events: invariant_machine "host_step E" I
  by unfold_locales (rule host_step_I)

context host_machine
begin

lemmas host_run = events.run_inv

text \<open>The callbacks may be replaced by others that keep the invariant.\<close>

lemma replace_callbacks:
  assumes "\<And>cb op d fl h. I h \<Longrightarrow> I (snd (f cb op d fl h))" "\<And>n s h. I h \<Longrightarrow> I (snd (g n s h))" "\<And>wk h. I h \<Longrightarrow> I (r wk h)"
  shows "host_machine (E\<lparr>e_datamode_handler := f, e_at_cmd := g, e_run_work := r\<rparr>) obs I"
proof -
  let ?E = "E\<lparr>e_datamode_handler := f, e_at_cmd := g, e_run_work := r\<rparr>"
  have "sm_at_host_create_new ?E = sm_at_host_create_new E" "sm_at_host_destroy ?E = sm_at_host_destroy E"
    by (auto simp: fun_eq_iff sm_at_host_create_new_def sm_at_host_destroy_def sm_at_host_ctx_init_def
        split: option.split prod.split bool.split)
  then show ?thesis
    by unfold_locales (simp_all add: assms env_obs I_out I_current I_pipe_cb post_obs receive_obs xdfu_I reset_I)
qed

end

section \<open>The instance list\<close>

text \<open>The list of contexts is never empty, has no duplicates and holds allocated contexts only.\<close>

definition inst_inv :: "('w \<Rightarrow> ctx_id set) \<Rightarrow> ('rb, 'w) host \<Rightarrow> bool" where
  "inst_inv al h \<longleftrightarrow> h_instances h \<noteq> [] \<and> distinct (h_instances h) \<and> set (h_instances h) \<subseteq> al (h_world h)"

lemma inst_inv_upd [simp]:
  "inst_inv al (upd_ctx i f h) = inst_inv al h"
  "inst_inv al (sm_at_host_set_current_ctx ctx h) = inst_inv al h"
  "inst_inv al (fault h) = inst_inv al h"
  "inst_inv al (pipe_attach p cb h) = inst_inv al h"
  "inst_inv al (set_c_pipe i q h) = inst_inv al h"
  "inst_inv al (h\<lparr>h_msgq := ms\<rparr>) = inst_inv al h"
  "inst_inv al (h\<lparr>h_urc_buf := b\<rparr>) = inst_inv al h"
  "inst_inv al (h\<lparr>h_urc_channel := ch\<rparr>) = inst_inv al h"
  by (simp_all add: inst_inv_def sm_at_host_set_current_ctx_def pipe_attach_def set_c_pipe_def)

lemma inst_inv_world: "al w = al (h_world h) \<Longrightarrow> inst_inv al (h\<lparr>h_world := w\<rparr>) = inst_inv al h"
  by (simp add: inst_inv_def)

lemma inst_inv_out: "inst_inv al h \<Longrightarrow> out_frame h h' \<Longrightarrow> al (h_world h') = al (h_world h) \<Longrightarrow> inst_inv al h'"
  using out_frameD(1) [of h h'] by (simp add: inst_inv_def)

text \<open>What the host relies on: the heap returns contexts that are not in use and forgets them when
  they are freed, nothing else allocates contexts, and the code the host calls (data mode
  handlers, AT commands, work items) manages contexts through the host only.\<close>

locale host_calls = world_kept E allocated
  for E :: "('rb, 'w) env" and allocated :: "'w \<Rightarrow> ctx_id set" +
  assumes malloc_ctx_new: "e_malloc_ctx E w = (Some i, w') \<Longrightarrow> i \<notin> allocated w \<and> allocated w' = insert i (allocated w)"
    and malloc_ctx_none: "e_malloc_ctx E w = (None, w') \<Longrightarrow> allocated w' = allocated w"
    and free_ctx: "allocated (e_free_ctx E i w) = allocated w - {i}"
    and post_alloc: "allocated (e_event_post E i ev w) = allocated w"
    and receive_alloc: "e_pipe_receive E p w = (r, w') \<Longrightarrow> allocated w' = allocated w"
    and handler_inst: "inst_inv allocated h \<Longrightarrow> inst_inv allocated (snd (e_datamode_handler E cb op d fl h))"
    and at_cmd_inst: "inst_inv allocated h \<Longrightarrow> inst_inv allocated (snd (e_at_cmd E n s h))"
    and xdfu_inst: "inst_inv allocated h \<Longrightarrow> inst_inv allocated (snd (e_xdfu E x s h))"
    and reset_inst: "inst_inv allocated h \<Longrightarrow> inst_inv allocated (e_final_reset E h)"
    and work_inst: "inst_inv allocated h \<Longrightarrow> inst_inv allocated (e_run_work E wk h)"
begin

lemma ctx_init_inst:
  "h_instances (snd (sm_at_host_ctx_init E i p h)) = h_instances h"
  "allocated (h_world (snd (sm_at_host_ctx_init E i p h))) = allocated (h_world h)"
proof -
  obtain b w where m: "e_malloc E AT_BUF_MIN_SIZE (h_world h) = (b, w)" by fastforce
  then show "h_instances (snd (sm_at_host_ctx_init E i p h)) = h_instances h"
    "allocated (h_world (snd (sm_at_host_ctx_init E i p h))) = allocated (h_world h)"
    using malloc_obs [OF m] by (cases b; simp add: sm_at_host_ctx_init_def)+
qed

lemma create_new_inst [simp]:
  assumes "inst_inv allocated h"
  shows "inst_inv allocated (snd (sm_at_host_create_new E p h))"
proof (cases "e_malloc_ctx E (h_world h)")
  case (Pair ctx w)
  show ?thesis
  proof (cases ctx)
    case None
    then show ?thesis using Pair assms by (simp add: sm_at_host_create_new_def inst_inv_world malloc_ctx_none)
  next
    case (Some i)
    have new: "i \<notin> allocated (h_world h)" "allocated w = insert i (allocated (h_world h))"
      using malloc_ctx_new Pair Some by auto
    obtain err h1 where init: "sm_at_host_ctx_init E i (Some p) (h\<lparr>h_world := w\<rparr>) = (err, h1)" by fastforce
    have h1: "h_instances h1 = h_instances h" "allocated (h_world h1) = insert i (allocated (h_world h))"
      using ctx_init_inst [of i "Some p" "h\<lparr>h_world := w\<rparr>"] init new by simp_all
    show ?thesis using assms new h1 Pair Some init
      by (auto simp: sm_at_host_create_new_def inst_inv_def pipe_attach_def free_ctx)
  qed
qed

lemma destroy_inst [simp]:
  assumes "inst_inv allocated h"
  shows "inst_inv allocated (snd (sm_at_host_destroy E ctx h))"
proof -
  have "remove1 i (h_instances h) \<noteq> []" if "i \<in> set (h_instances h)" "length (h_instances h) \<noteq> 1" for i
    using that by (cases "h_instances h") (auto simp: length_Suc_conv)
  then show ?thesis
    using assms by (auto simp: sm_at_host_destroy_def inst_inv_def sm_at_ctx_check_def free_ctx set_c_pipe_def
        split: option.split)
qed

end

sublocale host_calls \<subseteq> machine: host_machine E allocated "inst_inv allocated"
  by unfold_locales
    (simp_all add: inst_inv_out post_alloc receive_alloc handler_inst at_cmd_inst xdfu_inst reset_inst work_inst,
     simp_all add: inst_inv_def)

context host_calls
begin

lemmas host_run_inst = machine.host_run

end

section \<open>What the calls of other modules leave unchanged\<close>

lemma pipe_attach_sel [simp]:
  "h_world (pipe_attach p cb h) = h_world h" "h_ctx (pipe_attach p cb h) = h_ctx h"
  "h_instances (pipe_attach p cb h) = h_instances h" "h_current (pipe_attach p cb h) = h_current h"
  "h_msgq (pipe_attach p cb h) = h_msgq h" "h_works (pipe_attach p cb h) = h_works h"
  "h_pipe_cb (pipe_attach p cb h) = (h_pipe_cb h)(p := cb)"
  "h_cmux_uart_pipe (pipe_attach p cb h) = h_cmux_uart_pipe h" "h_cmux_dlcis (pipe_attach p cb h) = h_cmux_dlcis h"
  "h_urc_channel (pipe_attach p cb h) = h_urc_channel h" "h_fault (pipe_attach p cb h) = h_fault h"
  by (simp_all add: pipe_attach_def)

text \<open>The calls of other modules keep what the pipes, the heap and the work queue keep of the world.\<close>

context world_kept
begin

lemma send_msg_obs [simp]: "obs (h_world (send_msg E m h)) = obs (h_world h)"
proof -
  have "obs (h_world h2) = obs (h_world h1)" if "work_submit E HostWork h1 = (n, h2)" for h1 h2 n
    using work_submit_obs [of HostWork h1] that by simp
  then show ?thesis by (auto simp: send_msg_def Let_def split: prod.splits)
qed

lemma rsp_send_to_obs [simp]: "obs (h_world (rsp_send_to E p t h)) = obs (h_world h)"
  by (simp add: rsp_send_to_def rsp_send_internal_def Let_def)

lemma rsp_send_ok_obs [simp]: "obs (h_world (rsp_send_ok E h)) = obs (h_world h)"
  by (simp add: rsp_send_ok_def)

lemma urc_send_to_obs [simp]: "obs (h_world (urc_send_to E p t h)) = obs (h_world h)"
  by (simp add: urc_send_to_def rsp_send_internal_def)

lemma cmd_done_obs [simp]: "obs (h_world (sm_at_host_cmd_done_pipe E p h)) = obs (h_world h)"
  by (simp add: sm_at_host_cmd_done_pipe_def sm_at_host_cmd_done_def Let_def)

lemma pipe_closed_obs [simp]: "obs (h_world (sm_at_pipe_closed E ctx p h)) = obs (h_world h)"
  by (simp add: sm_at_pipe_closed_def set_c_pipe_def split: option.split)

lemma pipe_opened_obs [simp]: "obs (h_world (sm_at_pipe_opened E ctx p h)) = obs (h_world h)"
  by (simp add: sm_at_pipe_opened_def set_c_pipe_def Let_def split: option.split)

lemma release_obs [simp]: "obs (h_world (sm_at_host_release E ctx h)) = obs (h_world h)"
  by (simp add: sm_at_host_release_def Let_def split: option.split)

lemma attach_obs [simp]: "obs (h_world (sm_at_host_attach E p h)) = obs (h_world h)"
  by (simp add: sm_at_host_attach_def Let_def split: option.split)

end

section \<open>Properties\<close>

text \<open>C4: Whatever pipe events, work items, timers, received bytes and calls arrive in whatever order,
  the list of AT host instances never becomes empty, never holds a context twice and never holds a
  context that is not allocated.\<close>

theorem instances_invariant:
  fixes evs :: "host_event list"
  assumes "host_calls E al" and "h_instances h \<noteq> []" and "distinct (h_instances h)"
    and "set (h_instances h) \<subseteq> al (h_world h)"
  defines "h' \<equiv> foldl (host_step E) h evs"
  shows "h_instances h' \<noteq> [] \<and> distinct (h_instances h') \<and> set (h_instances h') \<subseteq> al (h_world h')"
  using host_calls.host_run_inst [OF assms(1), of h evs] assms(2-4) by (simp add: inst_inv_def h'_def)

text \<open>Destroying an instance removes exactly this one, and it is refused for the current context
  and for the last instance, which only loses its pipe.\<close>

lemma destroy_keeps_current_and_last:
  assumes "distinct (h_instances h)" and "sm_at_host_destroy E (Some i) h = (ret, h')"
  shows "(if i \<in> set (h_instances h) \<and> h_current h \<noteq> Some i \<and> length (h_instances h) \<noteq> 1
      then ret = 0 \<and> set (h_instances h') = set (h_instances h) - {i}
      else ret < 0 \<and> h_instances h' = h_instances h) \<and>
    (\<forall>j. j \<noteq> i \<longrightarrow> h_ctx h' j = h_ctx h j)"
  using assms by (auto simp: sm_at_host_destroy_def sm_at_ctx_check_def set_c_pipe_def split: if_splits)

text \<open>The first instance is created from an empty list when the UART pipe opens: initialisation
  leaves one context, attached to the pipe in AT command mode with an empty line, no data buffer
  and echo off.\<close>

lemma sm_at_host_init_first:
  assumes "h_instances h = []" and "\<not> cfg_cmux E" and "fst (sm_at_host_init E (Some p) h) = 0"
  shows "\<exists>i. h_instances (snd (sm_at_host_init E (Some p) h)) = [i] \<and>
    h_ctx (snd (sm_at_host_init E (Some p) h)) i = new_ctx (c_data_rb (h_ctx h i)) (Some p) \<and>
    h_pipe_cb (snd (sm_at_host_init E (Some p) h)) p = AtPipeHandler (Some i)"
proof -
  have urc: "sm_at_host_get_urc_ctx E h = None" using assms(1,2) by (simp add: sm_at_host_get_urc_ctx_def first_instance_def)
  obtain ctx w where m: "e_malloc_ctx E (h_world h) = (ctx, w)" by fastforce
  show ?thesis
  proof (cases ctx)
    case None
    then show ?thesis using assms(3) urc m
      by (simp add: sm_at_host_init_def sm_at_host_create_def sm_at_host_create_new_def Let_def)
  next
    case (Some i)
    obtain b w2 where mb: "e_malloc E AT_BUF_MIN_SIZE w = (b, w2)" by fastforce
    show ?thesis using assms urc m Some mb
      by (cases b) (auto simp: sm_at_host_init_def sm_at_host_create_def sm_at_host_create_new_def
          sm_at_host_ctx_init_def Let_def pipe_attach_def split: prod.splits if_splits)
  qed
qed

text \<open>Moving a context to a pipe that another context owns releases that other context only if it
  comes first in the instance list. Behind the moved context it is not found, since the pipe has
  already been stored in the moved one: both contexts then hold the same pipe.\<close>

lemma set_pipe_may_share:
  fixes E :: "('rb, 'w) env" and h :: "('rb, 'w) host"
  assumes "h_instances h = xs @ i # ys @ j # zs" and "distinct (h_instances h)" and "c_pipe (h_ctx h j) = Some p"
    and "\<forall>k \<in> set xs. c_pipe (h_ctx h k) \<noteq> Some p"
  defines "h' \<equiv> snd (sm_at_host_set_pipe E (Some i) (Some p) h)"
  shows "c_pipe (h_ctx h' i) = Some p \<and> c_pipe (h_ctx h' j) = Some p \<and> h_instances h' = h_instances h"
proof -
  let ?h1 = "set_c_pipe i (Some p) h"
  let ?h2 = "case c_pipe (h_ctx h i) of Some q \<Rightarrow> pipe_attach q NullPipeHandler ?h1 | None \<Rightarrow> ?h1"
  have ctx2: "h_ctx ?h2 = h_ctx ?h1" "h_instances ?h2 = h_instances h"
    by (simp_all add: pipe_attach_def set_c_pipe_def split: option.split)
  have "find (\<lambda>k. c_pipe (h_ctx ?h1 k) = Some p) xs = None"
    using assms(2,4) by (auto simp: find_None_iff set_c_pipe_def upd_ctx_def assms(1))
  then have f: "find (\<lambda>k. c_pipe (h_ctx ?h1 k) = Some p) (h_instances h) = Some i"
    unfolding assms(1) by (simp add: find_append_None set_c_pipe_def)
  have own: "sm_at_host_get_ctx_from (Some p) ?h2 = Some i"
    using f ctx2 by (simp add: sm_at_host_get_ctx_from_def)
  have "i \<in> set (h_instances h)" "j \<noteq> i" using assms(1,2) by auto
  then have "h' = pipe_attach p (AtPipeHandler (Some i)) ?h2"
    using own by (simp add: h'_def sm_at_host_set_pipe_def sm_at_ctx_check_def Let_def)
  then show ?thesis using ctx2 assms(3) \<open>j \<noteq> i\<close> by (simp add: pipe_attach_def set_c_pipe_def)
qed

end
