(* ===== verification/Host_Demo.thy ===== *)
theory Host_Demo
  imports At_Host_Life
begin

text \<open>
  A concrete environment of the AT host in which the contracts of the host hold, and states of
  the host in it: a pipe that takes at most four bytes at a time, a data mode handler that stores
  what it gets, a heap that counts contexts, and a modem that answers every command with OK. The
  properties of the host are applied to it.
\<close>

record demo =
  d_sent :: bytes
  d_out :: bytes
  d_alloc :: "nat list"

definition demo_handler ::
  "nat \<Rightarrow> sm_datamode_operation \<Rightarrow> bytes \<Rightarrow> 8 word \<Rightarrow> (ring, demo) host \<Rightarrow> int \<times> (ring, demo) host" where
  "demo_handler cb op d fl h =
     (case op of
        DATAMODE_SEND \<Rightarrow> (int (length d), h\<lparr>h_world := (h_world h)\<lparr>d_out := d_out (h_world h) @ d\<rparr>\<rparr>)
      | DATAMODE_EXIT \<Rightarrow> (0, h))"

definition demo_env :: "(ring, demo) env" where
  "demo_env = \<lparr>cfg_termination = CR_TERMINATION, cfg_datamode_terminator = ''+++'',
     cfg_datamode_buf_size = 4, cfg_at_buf_size = 64, cfg_at_echo_max_len = 64, cfg_urc_delay_ms = 50,
     cfg_uart_rx_buf_size = 256, cfg_cmux = False, cfg_ppp = False, cfg_cmux_channel_count = 2,
     e_rb = ring_ops, e_malloc = (\<lambda>n w. (True, w)),
     e_malloc_ctx = (\<lambda>w. let i = Suc (foldr max (d_alloc w) 0) in (Some i, w\<lparr>d_alloc := i # d_alloc w\<rparr>)),
     e_free_ctx = (\<lambda>i w. w\<lparr>d_alloc := removeAll i (d_alloc w)\<rparr>),
     e_in_isr = (\<lambda>w. False), e_work_submit = (\<lambda>w. (1, w)), e_work_pending = (\<lambda>wk w. False),
     e_pipe_transmit = (\<lambda>p d w. (int (min 4 (length d)), w\<lparr>d_sent := d_sent w @ take 4 d\<rparr>)),
     e_pipe_receive = (\<lambda>p w. ((0, NUL), w)), e_pipe_is_open = (\<lambda>p w. True),
     e_pipe_open = (\<lambda>p w. (0, w)), e_pipe_close = (\<lambda>p w. (0, w)),
     e_event_post = (\<lambda>i ev w. w), e_event_wait_idle = (\<lambda>i w. (True, w)),
     e_pm_suspend = (\<lambda>w. (0, w)), e_pm_resume = (\<lambda>w. (0, w)), e_fuel = 100,
     e_datamode_handler = demo_handler,
     e_at_cmd = (\<lambda>n s h. ((0, ''OK'' @ CRLF_STR @ [NUL]), h)), e_xdfu = (\<lambda>x s h. (0, h)),
     e_final_reset = (\<lambda>h. h), e_run_work = (\<lambda>wk h. h)\<rparr>"

definition demo_ctx :: "ring sm_at_host_ctx" where
  "demo_ctx = new_ctx (ring_init 4) (Some (Pipe 1))"

definition demo_host :: "(ring, demo) host" where
  "demo_host = \<lparr>h_ctx = (\<lambda>i. demo_ctx), h_instances = [0], h_current = Some 0, h_urc_buf = ring_init 8,
     h_urc_channel = 0, h_msgq = [], h_works = [], h_pipe_cb = (\<lambda>p. AtPipeHandler (Some 0)),
     h_cmux_uart_pipe = None, h_cmux_dlcis = [], h_uart_baudrate = 115200, h_fwd_cgev_notifs = False,
     h_bootloader_mode = False, h_socks = [], h_udp_url = [], h_udp_port = 0, h_world = \<lparr>d_sent = [], d_out = [], d_alloc = [0]\<rparr>, h_fault = False\<rparr>"

definition demo_data :: "(ring, demo) host" where
  "demo_data = upd_ctx 0 (\<lambda>c. upd_dm (\<lambda>d. d\<lparr>dm_handler := Some 7\<rparr>)
     (c\<lparr>c_at_mode := SM_DATA_MODE, c_data_rb_buf := True\<rparr>)) demo_host"

lemmas demo_defs = demo_env_def demo_ctx_def demo_host_def demo_data_def new_ctx_def ring_init_def

lemma demo_rb [simp]: "e_rb demo_env = ring_ops"
  by (simp add: demo_env_def)

interpretation demo_pipe: healthy_pipe demo_env "\<lambda>p. d_sent" "\<lambda>w. True"
  by unfold_locales (auto simp: demo_env_def min_def intro: exI [of _ 4] split: if_splits)

interpretation demo_urc: urc_output demo_env "\<lambda>p. d_sent" "\<lambda>w. True" r_claimed r_avail ring_wf
  by (rule urc_output.intro [OF demo_pipe.healthy_pipe_axioms]) (simp add: ring.ring_buffer_axioms)

definition demo_ready :: "nat \<Rightarrow> ctx_id \<Rightarrow> (ring, demo) host \<Rightarrow> bool" where
  "demo_ready cb i h \<longleftrightarrow> cb = 7"

interpretation demo_sink: data_terminal demo_env r_claimed r_avail ring_wf demo_ready d_out 0
proof -
  have rb: "ring_buffer (e_rb demo_env) r_claimed r_avail ring_wf" by (simp add: ring.ring_buffer_axioms)
  have wk: "world_kept demo_env d_out" by unfold_locales (auto simp: demo_env_def)
  have send: "n \<le> int (length d) \<and> data_frame i h h' \<and> c_data_rb (h_ctx h' i) = c_data_rb (h_ctx h i) \<and>
      h_fault h' = h_fault h \<and> (0 \<le> n \<longrightarrow> data_same i h h') \<and>
      (\<exists>k \<le> length d. d_out (h_world h') = d_out (h_world h) @ take k d \<and> (0 \<le> n \<longrightarrow> k = nat n))"
    if "demo_handler cb DATAMODE_SEND d fl h = (n, h')" for cb d fl h n h' i
    using that by (auto simp: demo_handler_def data_same_def intro: data_frame_out)
  have "data_sink demo_env r_claimed r_avail ring_wf demo_ready d_out"
    by (intro data_sink.intro rb wk data_sink_axioms.intro)
      (use send in \<open>auto simp: demo_env_def demo_handler_def demo_ready_def\<close>)
  then show "data_terminal demo_env r_claimed r_avail ring_wf demo_ready d_out"
    by (intro data_terminal.intro reliable_sink.intro reliable_sink_axioms.intro data_terminal_axioms.intro)
      (auto simp: demo_env_def demo_handler_def)
qed

interpretation demo_editor: line_editor demo_env 0
  by unfold_locales (simp_all add: demo_env_def)

interpretation demo_calls: host_calls demo_env "\<lambda>w. set (d_alloc w)"
proof -
  have fresh: "x \<in> set xs \<Longrightarrow> x \<le> foldr max xs 0" for x and xs :: "nat list"
    by (induction xs) auto
  have new: "Suc (foldr max xs 0) \<notin> set xs" for xs :: "nat list"
    using fresh [of "Suc (foldr max xs 0)" xs] by auto
  show "host_calls demo_env (\<lambda>w. set (d_alloc w))"
    by unfold_locales
      (auto simp: demo_env_def Let_def new demo_handler_def inst_inv_def split: sm_datamode_operation.split)
qed

section \<open>The properties at work\<close>



theorem cmd_reception_invariant_witness:
  "c_at_cmd_len (h_ctx (foldl (\<lambda>h c. cmd_rx_handler demo_env 0 c h) demo_host ''AT+X=1'') 0) + 2 \<le>
   c_at_buf_size (h_ctx (foldl (\<lambda>h c. cmd_rx_handler demo_env 0 c h) demo_host ''AT+X=1'') 0)"
proof -
  have "cmd_inv (h_ctx demo_host 0)"
    by (auto simp: demo_defs cmd_inv_def line_of_def intro: exI [of _ 0])
  from cmd_reception_invariant [OF demo_editor.line_editor_axioms this, of "''AT+X=1''"]
  show ?thesis by blast
qed

definition demo_input :: bytes where
  "demo_input = ''zAT+Y'' @ [BS] @ ''X=1'' @ [CR]"

theorem cmd_reception_refines_editor_witness:
  "line_of (h_ctx (foldl (\<lambda>h c. cmd_rx_handler demo_env 0 c h) demo_host demo_input) 0) = [] \<and>
   editor_run demo_env 0 demo_host (zip demo_input (replicate 9 Editing @ [Execute ''AT+X=1'']))
     (foldl (\<lambda>h c. cmd_rx_handler demo_env 0 c h) demo_host demo_input)"
proof -
  have inv: "cmd_inv (h_ctx demo_host 0)"
    by (auto simp: demo_defs cmd_inv_def line_of_def intro: exI [of _ 0])
  have run: "line_run CR_TERMINATION (replicate 10 True) [] demo_input = ([], replicate 9 Editing @ [Execute ''AT+X=1''])"
    "length demo_input = 10"
    by code_simp+
  have start: "line_of (h_ctx demo_host 0) = []" "cfg_termination demo_env = CR_TERMINATION"
    by (simp_all add: demo_defs line_of_def)
  let ?h = "foldl (\<lambda>h c. cmd_rx_handler demo_env 0 c h) demo_host demo_input"
  obtain ms where ms: "length ms = length demo_input \<and> ((\<forall>n w. fst (e_malloc demo_env n w)) \<longrightarrow> False \<notin> set ms) \<and>
    (case line_run CR_TERMINATION ms [] demo_input of (l, outs) \<Rightarrow>
       line_of (h_ctx ?h 0) = l \<and> length outs = length demo_input \<and> editor_run demo_env 0 demo_host (zip demo_input outs) ?h)"
    by (rule exE [OF cmd_reception_refines_editor [OF demo_editor.line_editor_axioms inv, of demo_input, unfolded start]])
  have "\<forall>n w. fst (e_malloc demo_env n w)" by (simp add: demo_env_def)
  then have "ms = replicate 10 True" using ms run(2) by (intro replicate_eqI) (simp, metis (full_types))
  then show ?thesis using ms run(1) by simp
qed

definition demo_line :: "(ring, demo) host" where
  "demo_line = upd_ctx 0 (\<lambda>c. c\<lparr>c_at_buf := ''AT+X'' @ replicate 124 NUL, c_at_cmd_len := 4,
     c_prev_character := CHR ''X''\<rparr>) demo_host"

lemma demo_at_command: "at_line accepted_tail ''AT+X''" "no_nul ''AT+X''"
proof -
  have "cmd_grammar_check ''AT+X'' (length ''AT+X'') = 0" by code_simp
  then show "at_line accepted_tail ''AT+X''" using cmd_grammar_check_iff [of "''AT+X''"] by simp
qed simp

theorem instances_invariant_witness:
  "h_instances (foldl (host_step demo_env) demo_host
     [Attach (Pipe 2), RunWork HostWork, Received 0 (CHR ''A''), Release 0, RunWork HostWork]) \<noteq> []"
  using instances_invariant [OF demo_calls.host_calls_axioms, of demo_host
      "[Attach (Pipe 2), RunWork HostWork, Received 0 (CHR ''A''), Release 0, RunWork HostWork]"]
  by (simp add: demo_host_def)

text \<open>The same environment with a data mode handler that fails, and two contexts: context 1 is in
  data mode with a full buffer and has matched one character of the terminator, context 0
  receives the URCs.\<close>

definition failing_env :: "(ring, demo) env" where
  "failing_env = demo_env\<lparr>e_datamode_handler := (\<lambda>cb op d fl h. (if op = DATAMODE_SEND then - EIO else 0, h))\<rparr>"

definition demo_two :: "(ring, demo) host" where
  "demo_two = upd_ctx 1 (\<lambda>c. upd_dm (\<lambda>d. d\<lparr>dm_handler := Some 7\<rparr>)
     (c\<lparr>c_pipe := Some (Pipe 2), c_at_mode := SM_DATA_MODE, c_data_rb_buf := True, c_quit_str_match := 1,
        c_data_rb := snd (ring_put ''data'' (ring_init 4))\<rparr>))
     (demo_host\<lparr>h_instances := [0, 1], h_current := Some 1\<rparr>)"

lemma failing_sel [simp]:
  "e_rb failing_env = ring_ops" "cfg_datamode_terminator failing_env = ''+++''" "cfg_datamode_buf_size failing_env = 4"
  "cfg_cmux failing_env = False"
  by (simp_all add: failing_env_def demo_env_def)

lemma demo_two_sel [simp]:
  "h_instances demo_two = [0, 1]" "h_current demo_two = Some 1"
  "c_at_mode (h_ctx demo_two 1) = SM_DATA_MODE" "dm_handler (c_data_mode (h_ctx demo_two 1)) = Some 7"
  "dm_data_len (c_data_mode (h_ctx demo_two 1)) = 0" "c_quit_str_match (h_ctx demo_two 1) = 1"
  "c_data_rb (h_ctx demo_two 1) = \<lparr>r_cap = 4, r_pos = 0, r_claimed = [], r_avail = ''data''\<rparr>"
  by (simp_all add: demo_two_def demo_defs ring_put_def Let_def)

lemma failing_sink: "data_sink failing_env r_claimed r_avail ring_wf demo_ready (\<lambda>w. [])"
proof -
  have rb: "ring_buffer (e_rb failing_env) r_claimed r_avail ring_wf"
    by (simp add: failing_env_def ring.ring_buffer_axioms)
  have wk: "world_kept failing_env (\<lambda>w. [])" by unfold_locales simp_all
  show "data_sink failing_env r_claimed r_avail ring_wf demo_ready (\<lambda>w. [])"
    by (intro data_sink.intro rb wk data_sink_axioms.intro)
      (auto simp: failing_env_def demo_env_def data_same_def demo_ready_def)
qed

theorem data_failure_misroutes_byte_witness:
  "\<exists>h1. raw_rx_handler failing_env 1 (CHR ''x'') demo_two = write_data_buf failing_env ''x'' h1 \<and>
     sm_at_host_get_current failing_env h1 = Some 0 \<and> c_at_mode (h_ctx h1 1) = SM_NULL_MODE"
proof -
  have "data_inv failing_env r_claimed ring_wf demo_ready 1 demo_two" unfolding data_inv_def demo_two_sel failing_sel
    by (simp add: ring_wf_def ring_ops_def demo_ready_def)
  moreover have "sm_at_host_get_urc_ctx failing_env demo_two = Some 0"
    by (simp add: sm_at_host_get_urc_ctx_def first_instance_def)
  moreover have "fst (e_datamode_handler failing_env cb DATAMODE_SEND d fl h) < 0" for cb d fl h by (simp add: failing_env_def)
  ultimately show ?thesis
    using data_failure_misroutes_byte [OF failing_sink, of 1 demo_two "CHR ''x''" 0]
    by (auto simp del: One_nat_def)
qed

end
