(* ===== verification/Uart_Demo.thy ===== *)
theory Uart_Demo
  imports Uart_Host Host_Demo
begin

text \<open>
  A driver that keeps the contract of the UART driver, and the UART handler running on it: a
  transmission ends when somebody waits, stopping reception releases the buffers one by one, and
  received bytes appear when the run says so. The host's environment built on it is a pipe that
  becomes idle in time.
\<close>

record loop =
  l_tx :: "bytes option"
  l_wire :: bytes
  l_own :: "rx_own list"
  l_line :: bytes
  l_mem :: "nat \<Rightarrow> byte"
  l_stop :: bool

definition loop_next :: "loop \<Rightarrow> uart_event option \<times> loop" where
  "loop_next w =
     (case l_tx w of
        Some d \<Rightarrow> (Some (UART_TX_DONE (length d)), w\<lparr>l_tx := None, l_wire := l_wire w @ d\<rparr>)
      | None \<Rightarrow>
          (if l_stop w then
             case l_own w of
               [] \<Rightarrow> (Some UART_RX_DISABLED, w\<lparr>l_stop := False\<rparr>)
             | (p, n, f) # xs \<Rightarrow> (Some (UART_RX_BUF_RELEASED (Some p)), w\<lparr>l_own := filter (\<lambda>x. fst x \<noteq> p) (l_own w)\<rparr>)
           else (None, w)))"

definition loop_give :: "nat \<Rightarrow> nat \<Rightarrow> loop \<Rightarrow> int \<times> loop" where
  "loop_give p n w = (0, w\<lparr>l_own := l_own w @ [(p, n, 0)]\<rparr>)"

definition loop_drv :: "loop uart_drv" where
  "loop_drv = \<lparr>d_ready = (\<lambda>w. True), d_config_get = (\<lambda>w. (0, 115200)), d_configure = (\<lambda>b w. (0, w)),
     d_err_check = (\<lambda>w. (0, w)), d_callback_set = (\<lambda>w. (0, w)),
     d_tx = (\<lambda>d w. if l_tx w = None then (0, w\<lparr>l_tx := Some d\<rparr>) else (- EBUSY, w)),
     d_tx_abort = (\<lambda>w. (if l_tx w = None then - EFAULT else 0, w)),
     d_rx_enable = loop_give, d_rx_disable = (\<lambda>w. (0, w\<lparr>l_stop := True\<rparr>)), d_rx_buf_rsp = loop_give,
     d_mem = l_mem, d_next = loop_next, d_uptime = (\<lambda>w. 0)\<rparr>"

definition loop_obs :: "loop uart_obs" where
  "loop_obs = \<lparr>o_tx = l_tx, o_wire = l_wire, o_own = l_own, o_line = l_line\<rparr>"

lemmas loop_defs = loop_drv_def loop_obs_def loop_give_def loop_next_def

interpretation loop: uart_driver loop_drv loop_obs
  by unfold_locales
    (auto simp: loop_defs tx_same_def rx_same_def mem_same_def buf_given_def split: if_splits option.splits list.splits prod.splits)

definition loop_uart :: "(ring, nat list, loop) uart_env" where
  "loop_uart = \<lparr>u_cfg_rx_buf_size = 128, u_cfg_rx_buf_count = 3, u_rb = ring_ops, u_slab = free_list, u_drv = loop_drv,
     u_workq_started = (\<lambda>w. True), u_fuel = 20\<rparr>"

lemma loop_uart_sel [simp]:
  "u_cfg_rx_buf_size loop_uart = 128" "u_cfg_rx_buf_count loop_uart = 3" "u_rb loop_uart = ring_ops"
  "u_slab loop_uart = free_list" "u_drv loop_uart = loop_drv" "u_workq_started loop_uart w"
  "UART_RX_EVENT_COUNT loop_uart = 3"
  by (simp_all add: loop_uart_def UART_RX_EVENT_COUNT_def)

interpretation lu: prompt_uart loop_uart r_claimed r_avail ring_wf loop_obs set distinct
proof -
  have tx: "uart_tx loop_uart r_claimed r_avail ring_wf loop_obs"
    by (intro uart_tx.intro) (simp_all add: ring.ring_buffer_axioms loop.uart_driver_axioms)
  have rx: "uart_rx loop_uart loop_obs set distinct"
    by (intro uart_rx.intro uart_rx_axioms.intro) (simp_all add: fp.buffer_pool_axioms loop.uart_driver_axioms)
  show "prompt_uart loop_uart r_claimed r_avail ring_wf loop_obs set distinct"
    by (intro prompt_uart.intro uart_stack.intro tx rx prompt_uart_axioms.intro) (simp add: loop_defs)
qed

interpretation lp: progressing_uart loop_uart r_claimed r_avail ring_wf loop_obs set distinct
proof (intro progressing_uart.intro lu.uart_stack_axioms progressing_uart_axioms.intro)
  show "d_next (u_drv loop_uart) w = (Some (UART_TX_ABORTED n), w') \<Longrightarrow> 0 < n" for w n w'
    by (simp add: loop_drv_def loop_next_def split: option.splits if_splits list.splits prod.splits)
qed

definition loop_state :: "(ring, nat list, loop) uart" where
  "loop_state = \<lparr>u_tx_enabled = False, u_rx_enabled = False, u_rx_recovery = False, u_rx_recovery_disabled = False,
     u_pipe_init = True, u_pipe_open = False, u_idle_work = False, u_closed_work = False, u_tx_done_sem = 0,
     u_tx_buf = ring_init 8, u_pool = \<lparr>p_slab = [0, 1, 2], p_ref = (\<lambda>b. 0)\<rparr>, u_rx_events = [], u_notes = [],
     u_baudrate = 115200,
     u_world = \<lparr>l_tx = None, l_wire = [], l_own = [], l_line = [], l_mem = (\<lambda>q. NUL), l_stop = False\<rparr>, u_fault = False\<rparr>"

lemma loop_state_ok: "uart_ok loop_uart loop_obs r_claimed ring_wf set distinct loop_state"
proof -
  have "b \<in> {0, 1, 2} \<longleftrightarrow> b < 3" for b :: nat by auto
  then show ?thesis
    by (simp add: uart_ok_def tx_inv_def rx_inv_def pool_ok_def rx_users_def own_wf_def loop_state_def loop_obs_def ring_wf_def ring_init_def)
qed

lemma loop_orderly [simp]: "orderly_act V u (Transmit d n)" "orderly_act V u (Driver ev)" "orderly_act V u Idle_Work"
  by (simp_all add: orderly_act_def)

section \<open>The host on this UART\<close>

lemma wait_idle_live:
  "tx_inv loop_obs r_claimed ring_wf u \<Longrightarrow> tx_live loop_obs u \<Longrightarrow> tx_live loop_obs (snd (uart_wait_idle loop_uart fuel u))"
proof (induction fuel arbitrary: u)
  case 0
  then show ?case by (simp add: uart_wait_idle.simps)
next
  case (Suc fuel)
  obtain r w where n: "d_next loop_drv (u_world u) = (r, w)" by fastforce
  show ?case
  proof (cases "r")
    case None
    then have "tx_frame loop_obs u (u\<lparr>u_world := w\<rparr>)" using loop.next_none n by (simp add: tx_frame_def)
    then show ?thesis using Suc.prems n None tx_live_frame [of loop_obs u "u\<lparr>u_world := w\<rparr>"]
      by (simp add: uart_wait_idle.simps [of loop_uart "Suc fuel"])
  next
    case (Some ev)
    then have e: "event_ok (u_drv loop_uart) loop_obs (u_world u) ev w" using loop.next_event n by simp
    show ?thesis using Suc.IH lu.callback_live [OF Suc.prems e] lu.callback_law [OF Suc.prems(1) e] Suc.prems(2) n Some
      by (simp add: uart_wait_idle.simps [of loop_uart "Suc fuel"])
  qed
qed

definition loop_good :: "(ring, nat list, loop) uart \<Rightarrow> bool" where
  "loop_good u \<longleftrightarrow> uart_ok loop_uart loop_obs r_claimed ring_wf set distinct u \<and> tx_live loop_obs u \<and>
     u_pipe_open u \<and> u_tx_enabled u \<and> \<not> u_idle_work u"

text \<open>After a transmission that took nothing, the wait ends with the buffer partly free.\<close>

lemma loop_wait:
  assumes "loop_good u" and "pipe_transmit loop_uart d u = (n, u1)" and "d \<noteq> []"
  obtains u2 where "uart_wait_idle loop_uart 20 u1 = (True, u2)" "loop_good u2"
    "length (r_claimed (u_tx_buf u2)) + length (r_avail (u_tx_buf u2)) < r_cap (u_tx_buf u2)"
proof -
  have i: "tx_inv loop_obs r_claimed ring_wf u" "tx_live loop_obs u" using assms(1) by (auto simp: loop_good_def uart_ok_def)
  have l1: "tx_live loop_obs u1" "o_tx loop_obs (u_world u1) \<noteq> None"
    using lu.transmit_live [OF i assms(2,3)] assms(1) by (auto simp: loop_good_def)
  have ok1: "uart_ok loop_uart loop_obs r_claimed ring_wf set distinct u1"
    using lu.step_law [OF uart_step.transmit [OF assms(3,2)]] assms(1) by (simp add: loop_good_def)
  have f1: "u_pipe_open u1" "u_tx_enabled u1" "\<not> u_idle_work u1"
    using transmit_flags [of loop_uart d u] assms(1,2) by (auto simp: loop_good_def)
  from l1(2) obtain x where x: "l_tx (u_world u1) = Some x" by (auto simp: loop_obs_def)
  have i1: "tx_inv loop_obs r_claimed ring_wf u1" using ok1 by (simp add: uart_ok_def)
  then have xb: "x \<noteq> []" "ring_wf (u_tx_buf u1)" "r_claimed (u_tx_buf u1) = x" using x by (auto simp: tx_inv_def loop_obs_def)
  define w where "w = (u_world u1)\<lparr>l_tx := None, l_wire := l_wire (u_world u1) @ x\<rparr>"
  have nx: "d_next loop_drv (u_world u1) = (Some (UART_TX_DONE (length x)), w)" using x by (simp add: loop_drv_def loop_next_def w_def)
  define u2 where "u2 = uart_callback loop_uart (UART_TX_DONE (length x)) (u1\<lparr>u_world := w\<rparr>)"
  have ev: "event_ok (u_drv loop_uart) loop_obs (u_world u1) (UART_TX_DONE (length x)) w" using loop.next_event [OF nx] by simp
  have st: "uart_step loop_uart loop_obs u1 (Driver (UART_TX_DONE (length x))) u2" unfolding u2_def by (rule uart_step.driver [OF ev])
  have ok2: "uart_ok loop_uart loop_obs r_claimed ring_wf set distinct u2" using lu.step_law [OF st ok1] by simp
  have s2: "tx_stream loop_obs r_claimed r_avail u2 = tx_stream loop_obs r_claimed r_avail u1"
    using lu.callback_law [OF i1 ev] by (simp add: u2_def)
  have nc: "u_tx_buf (uart_callback_notify_pipe_closure v) = u_tx_buf v" "u_idle_work (uart_callback_notify_pipe_closure v) = u_idle_work v"
    "u_world (uart_callback_notify_pipe_closure v) = u_world v" for v :: "(ring, nat list, loop) uart"
    by (simp_all add: uart_callback_notify_pipe_closure_def)
  have id2: "u_idle_work u2"
  proof -
    have "u_pipe_open (snd (tx_start loop_uart v)) = u_pipe_open v" for v by (simp add: tx_start_def Let_def case_prod_unfold)
    then show ?thesis using f1 by (simp add: u2_def uart_callback_def nc callback_tx_def Let_def
        uart_callback_notify_pipe_transmit_idle_def sem_give_def)
  qed
  have wi: "l_wire (u_world u2) = l_wire (u_world u1) @ x"
    by (simp add: u2_def uart_callback_def nc callback_tx_def Let_def uart_callback_notify_pipe_transmit_idle_def sem_give_def
        tx_start_def case_prod_unfold loop_drv_def w_def)
  have cap: "r_cap (u_tx_buf u2) = r_cap (u_tx_buf u1)"
    using lu.callback_tx_capacity [of "u1\<lparr>u_world := w\<rparr>" False "length x"] xb
    by (simp add: u2_def uart_callback_def nc ring_ops_def)
  have "length (tx_stream loop_obs r_claimed r_avail u2) = length (tx_stream loop_obs r_claimed r_avail u1)" using s2 by simp
  then have "length x + (length (r_claimed (u_tx_buf u2)) + length (r_avail (u_tx_buf u2))) =
      length (r_claimed (u_tx_buf u1)) + length (r_avail (u_tx_buf u1))" by (simp add: tx_stream_def loop_obs_def wi)
  moreover have "length (r_claimed (u_tx_buf u1)) + length (r_avail (u_tx_buf u1)) \<le> r_cap (u_tx_buf u1)" using xb(2) by (simp add: ring_wf_def)
  moreover have "0 < length x" using xb(1) by simp
  ultimately have room: "length (r_claimed (u_tx_buf u2)) + length (r_avail (u_tx_buf u2)) < r_cap (u_tx_buf u2)" using cap by linarith
  have e: "uart_wait_idle loop_uart 20 u1 = uart_wait_idle loop_uart 19 u2"
    using f1 nx by (subst uart_wait_idle.simps) (simp add: u2_def eval_nat_numeral)
  also have "\<dots> = (True, notify_transmit_idle_fn u2)" using id2 by (simp add: uart_wait_idle.simps)
  finally have e: "uart_wait_idle loop_uart 20 u1 = (True, notify_transmit_idle_fn u2)" .
  have "uart_step loop_uart loop_obs u2 Idle_Work (notify_transmit_idle_fn u2)" by (rule uart_step.idle_work)
  then have "uart_ok loop_uart loop_obs r_claimed ring_wf set distinct (notify_transmit_idle_fn u2)" using lu.step_law ok2 loop_orderly by blast
  moreover have "tx_live loop_obs (notify_transmit_idle_fn u2)" using lu.step_live [OF st i1 l1(1)] by simp
  ultimately have "loop_good (notify_transmit_idle_fn u2)" using f1
    by (simp add: loop_good_def notify_transmit_idle_fn_def uart_notify_def u2_def)
  then show ?thesis using that [OF e] room by (simp add: notify_transmit_idle_fn_def uart_notify_def)
qed

interpretation loop_host: healthy_pipe "uart_host_env loop_uart E" "\<lambda>p. tx_stream loop_obs r_claimed r_avail" loop_good for E
proof -
  have h: "uart_host loop_uart r_claimed r_avail ring_wf loop_obs set distinct" by (rule uart_host.intro [OF lu.uart_stack_axioms])
  have fuel: "u_fuel loop_uart = 20" by (simp add: loop_uart_def)
  have tr: "loop_good u'" "0 \<le> n" if "loop_good u" "pipe_transmit loop_uart d u = (n, u')" "d \<noteq> []" for u d n u'
    using lu.transmit_live [OF _ _ that(2,3)] lu.step_law [OF uart_step.transmit [OF that(3,2)]] transmit_flags [of loop_uart d u] that
    by (auto simp: loop_good_def uart_ok_def)
  have em: "pipe_transmit loop_uart [] u = (- EINVAL, u)" if "loop_good u" for u using that by (simp add: pipe_transmit_def loop_good_def)
  have wg: "loop_good u'" if "loop_good u" "uart_wait_idle loop_uart k u = (b, u')" for u k b u'
    using wait_idle_flags [of loop_uart k u] wait_idle_live [of u k] uart_host.host_wait [OF h _ that(2)] that
    by (auto simp: loop_good_def uart_ok_def)
  have pos: "0 < fst (pipe_transmit loop_uart d u)"
    if "loop_good u" "d \<noteq> []" "length (r_claimed (u_tx_buf u)) + length (r_avail (u_tx_buf u)) < r_cap (u_tx_buf u)" for u d
  proof -
    obtain n u' where t: "pipe_transmit loop_uart d u = (n, u')" by fastforce
    have "rb_capacity_get (u_rb loop_uart) (u_tx_buf u) = r_cap (u_tx_buf u)" by (simp add: ring_ops_def)
    then show ?thesis using lu.pipe_transmit_law [OF _ t that(2)] tr(2) [OF that(1) t that(2)] that t
      by (cases d) (auto simp: loop_good_def uart_ok_def min_def split: if_splits)
  qed
  show "healthy_pipe (uart_host_env loop_uart E) (\<lambda>p. tx_stream loop_obs r_claimed r_avail) loop_good"
  proof (unfold_locales, goal_cases)
    case (1 w p d n w')
    then show ?case using tr em by (cases "d = []") auto
  next
    case (2 w i b w')
    then show ?case using wg by (simp add: fuel)
  next
    case (3 w p d n w')
    then show ?case using uart_host.host_transmit [OF h, of w d n w'] by (simp add: loop_good_def)
  next
    case (4 w i b w' p)
    then show ?case using uart_host.host_wait [OF h, of w "u_fuel loop_uart" b w'] by (simp add: loop_good_def)
  next
    case (5 w p d w1 i w2)
    then have t: "pipe_transmit loop_uart d w = (0, w1)" "uart_wait_idle loop_uart 20 w1 = (True, w2)" by (simp_all add: fuel)
    obtain u2 where "uart_wait_idle loop_uart 20 w1 = (True, u2)" "loop_good u2"
      "length (r_claimed (u_tx_buf u2)) + length (r_avail (u_tx_buf u2)) < r_cap (u_tx_buf u2)"
      using loop_wait [OF 5(1) t(1) 5(4)] .
    then show ?case using pos [of w2 d] t(2) 5(4) by auto
  next
    case (6 w d p)
    obtain n u' where t: "pipe_transmit loop_uart d w = (n, u')" by fastforce
    then show ?case using tr(2) [OF 6(1) t 6(2)] by simp
  next
    case (7 w p d w1 i)
    then have t: "pipe_transmit loop_uart d w = (0, w1)" by simp
    obtain u2 where "uart_wait_idle loop_uart 20 w1 = (True, u2)" using loop_wait [OF 7(1) t 7(3)] .
    then show ?case by (simp add: fuel)
  qed
qed

section \<open>The properties at work\<close>

text \<open>The pipe is opened, then sends three bytes; or it receives three bytes of which two are read.\<close>

definition loop1 :: "(ring, nat list, loop) uart" where
  "loop1 = snd (pipe_open loop_uart loop_state)"

definition loop2 :: "(ring, nat list, loop) uart" where
  "loop2 = snd (pipe_transmit loop_uart ''abc'' loop1)"

definition loop_sent :: loop where
  "loop_sent = (u_world loop2)\<lparr>l_tx := None, l_wire := l_wire (u_world loop2) @ ''abc''\<rparr>"

definition loop_got :: loop where
  "loop_got = (u_world loop1)\<lparr>l_own := report 8 3 (l_own (u_world loop1)), l_line := l_line (u_world loop1) @ ''xyz'',
     l_mem := (\<lambda>q. if q = 8 then CHR ''x'' else if q = 9 then CHR ''y'' else if q = 10 then CHR ''z'' else l_mem (u_world loop1) q)\<rparr>"

definition loop3 :: "(ring, nat list, loop) uart" where
  "loop3 = uart_callback loop_uart (UART_RX_RDY 8 0 3) (loop1\<lparr>u_world := loop_got\<rparr>)"

lemmas loop_open_defs = pipe_open_def loop_state_def rx_enable_def pool_alloc_def rx_buf_alloc_def free_list_def
  loop_drv_def loop_give_def tx_enable_def sem_give_def uart_notify_def block_data_def UART_SLAB_BLOCK_SIZE_def

lemma loop_open: "pipe_open loop_uart loop_state = (0, loop1)"
  unfolding loop1_def by (simp add: loop_open_defs loop_uart_def Let_def prod_eq_iff)

lemma loop1_sel [simp]:
  "u_pipe_open loop1" "u_tx_enabled loop1" "l_own (u_world loop1) = [(8, 128, 0)]" "l_tx (u_world loop1) = None"
  "u_tx_buf loop1 = ring_init 8" "u_tx_done_sem loop1 = 1" "\<not> u_idle_work loop1" "l_wire (u_world loop1) = []"
  "u_rx_events loop1 = []" "l_line (u_world loop1) = []"
  unfolding loop1_def by (simp_all add: loop_open_defs loop_uart_def Let_def)

lemma loop_put: "put_loop ring_ops ''abc'' (ring_init 8) = (3, snd (ring_put ''abc'' (ring_init 8)))"
  by (subst put_loop.simps) (simp add: ring_impl_defs Let_def)

lemma loop_claim:
  "rb_get_claim ring_ops (rb_capacity_get ring_ops (snd (ring_put ''abc'' (ring_init 8)))) (snd (ring_put ''abc'' (ring_init 8))) =
     (''abc'', snd (ring_claim 8 (snd (ring_put ''abc'' (ring_init 8)))))"
  by (simp add: ring_impl_defs Let_def)

lemma loop_transmit_eq: "pipe_transmit loop_uart ''abc'' loop1 = (3, loop1\<lparr>u_tx_done_sem := 0,
    u_tx_buf := snd (ring_claim 8 (snd (ring_put ''abc'' (ring_init 8)))), u_world := (u_world loop1)\<lparr>l_tx := Some ''abc''\<rparr>\<rparr>)"
  by (simp add: pipe_transmit_def loop_put loop_claim tx_start_def loop_drv_def Let_def)

lemma loop_transmit: "pipe_transmit loop_uart ''abc'' loop1 = (3, loop2)"
  unfolding loop2_def loop_transmit_eq by simp

lemma loop2_sel [simp]:
  "l_tx (u_world loop2) = Some ''abc''" "l_wire (u_world loop2) = []" "u_tx_buf loop2 = snd (ring_claim 8 (snd (ring_put ''abc'' (ring_init 8))))"
  "u_rx_events loop2 = []" "l_line (u_world loop2) = []" "u_pipe_open loop2" "u_tx_enabled loop2"
  unfolding loop2_def loop_transmit_eq by simp_all

lemma loop_orderly_open: "orderly_act loop_obs loop_state (Open 0)"
  by (simp add: orderly_act_def loop_obs_def loop_state_def)

lemma loop1_ok: "uart_ok loop_uart loop_obs r_claimed ring_wf set distinct loop1" and loop1_live: "tx_live loop_obs loop1"
proof -
  have "uart_step loop_uart loop_obs loop_state (Open 0) loop1"
    by (rule uart_step.api_open [OF loop_open])
  then show "uart_ok loop_uart loop_obs r_claimed ring_wf set distinct loop1" using lu.step_law [of loop_state "Open 0" loop1] loop_state_ok loop_orderly_open by blast
  show "tx_live loop_obs loop1" by (simp add: tx_live_def loop_obs_def)
qed

lemma loop2_ok: "uart_ok loop_uart loop_obs r_claimed ring_wf set distinct loop2"
  using lu.step_law [OF uart_step.transmit [OF _ loop_transmit] loop1_ok] by simp

lemma loop_run_tx:
  "orderly_run loop_uart loop_obs loop_state [Open 0, Transmit ''abc'' 3, Driver (UART_TX_DONE 3)]
     (uart_callback loop_uart (UART_TX_DONE 3) (loop2\<lparr>u_world := loop_sent\<rparr>))"
proof (rule orderly_run.step [OF uart_step.api_open [OF loop_open] loop_orderly_open
      orderly_run.step [OF uart_step.transmit [OF _ loop_transmit] _ orderly_run.step [OF uart_step.driver _ orderly_run.refl]]])
  show "event_ok (u_drv loop_uart) loop_obs (u_world loop2) (UART_TX_DONE 3) loop_sent"
    by (simp add: loop_obs_def loop_sent_def rx_same_def mem_same_def loop_drv_def)
qed simp_all

lemma loop_rdy: "event_ok (u_drv loop_uart) loop_obs (u_world loop1) (UART_RX_RDY 8 0 3) loop_got"
  by (simp add: loop_obs_def loop_got_def tx_same_def mem_same_def loop_drv_def writable_def mem_read_def upt_rec)

lemma loop_run_rx:
  "uart_run loop_uart loop_obs loop1 [Driver (UART_RX_RDY 8 0 3), Receive 2 (fst (pipe_receive loop_uart 2 loop3))]
     (snd (pipe_receive loop_uart 2 loop3))"
  unfolding loop3_def
  by (rule uart_run.step [OF uart_step.driver [OF loop_rdy] uart_run.step [OF uart_step.receive [OF prod.collapse [symmetric]] uart_run.refl]])


theorem uart_receives_in_order_witness:
  "subseq (fst (pipe_receive loop_uart 2 loop3) @ rx_pending loop_uart (snd (pipe_receive loop_uart 2 loop3)))
     (o_line loop_obs (u_world (snd (pipe_receive loop_uart 2 loop3))))"
  using uart_receives_in_order [OF lu.uart_stack_axioms loop1_ok loop_run_rx]
  by (auto simp: rx_pending_def loop_obs_def)

theorem uart_blocks_accounted_witness:
  "set (p_slab (u_pool (snd (pipe_receive loop_uart 2 loop3)))) =
   {b. b < 3 \<and> rx_users loop_uart (l_own (u_world (snd (pipe_receive loop_uart 2 loop3))))
         (u_rx_events (snd (pipe_receive loop_uart 2 loop3))) b = 0}"
  using uart_blocks_accounted [OF lu.uart_stack_axioms loop1_ok loop_run_rx] by (auto simp: loop_obs_def)


text \<open>The AT host on this UART.\<close>

definition loop_env :: "(ring, (ring, nat list, loop) uart) env" where
  "loop_env = uart_host_env loop_uart \<lparr>cfg_termination = CR_TERMINATION, cfg_datamode_terminator = ''+++'',
     cfg_datamode_buf_size = 4, cfg_at_buf_size = 64, cfg_at_echo_max_len = 64, cfg_urc_delay_ms = 50,
     cfg_uart_rx_buf_size = 128, cfg_cmux = False, cfg_ppp = False, cfg_cmux_channel_count = 2,
     e_rb = ring_ops, e_malloc = (\<lambda>n w. (True, w)), e_malloc_ctx = (\<lambda>w. (None, w)), e_free_ctx = (\<lambda>i w. w),
     e_in_isr = (\<lambda>w. False), e_work_submit = (\<lambda>w. (1, w)), e_work_pending = (\<lambda>wk w. False),
     e_pipe_transmit = (\<lambda>p d w. (0, w)), e_pipe_receive = (\<lambda>p w. ((0, NUL), w)), e_pipe_is_open = (\<lambda>p w. True),
     e_pipe_open = (\<lambda>p w. (0, w)), e_pipe_close = (\<lambda>p w. (0, w)),
     e_event_post = (\<lambda>i ev w. w), e_event_wait_idle = (\<lambda>i w. (True, w)),
     e_pm_suspend = (\<lambda>w. (0, w)), e_pm_resume = (\<lambda>w. (0, w)), e_fuel = 100,
     e_datamode_handler = (\<lambda>cb op d fl h. (int (length d), h)),
     e_at_cmd = (\<lambda>n s h. ((0, ''OK'' @ CRLF_STR @ [NUL]), h)), e_xdfu = (\<lambda>x s h. (0, h)),
     e_final_reset = (\<lambda>h. h), e_run_work = (\<lambda>wk h. h)\<rparr>"

definition loop_hosted :: "(ring, (ring, nat list, loop) uart) host" where
  "loop_hosted = \<lparr>h_ctx = (\<lambda>i. demo_ctx), h_instances = [0], h_current = Some 0, h_urc_buf = ring_init 8,
     h_urc_channel = 0, h_msgq = [], h_works = [], h_pipe_cb = (\<lambda>p. AtPipeHandler (Some 0)),
     h_cmux_uart_pipe = None, h_cmux_dlcis = [], h_uart_baudrate = 115200, h_fwd_cgev_notifs = False,
     h_bootloader_mode = False, h_socks = [], h_udp_url = [], h_udp_port = 0, h_world = loop1, h_fault = False\<rparr>"


end
