(* ===== verification/Client_Demo.thy ===== *)
theory Client_Demo
  imports Client_Tx Uart_Demo
begin

text \<open>
  The AT client on the driver of the UART demonstration, and the theorems about the client at
  concrete inputs.
\<close>

section \<open>Responses and monitors\<close>

definition quiet_response :: response where
  "quiet_response = \<lparr>rs_resp = [], rs_state = AT_CMD_PENDING, rs_at_rsp = 0, rs_has_data_handler = True, rs_dispatched = [], rs_data = []\<rparr>"

lemma quiet_response_sel [simp]:
  "rs_resp quiet_response = []" "rs_state quiet_response = AT_CMD_PENDING" "rs_dispatched quiet_response = []"
  "rs_has_data_handler quiet_response" "rs_data quiet_response = []"
  by (simp_all add: quiet_response_def)

lemmas parse_eval = parse_at_response_def at_responses_def

lemma split_ok: "parse_at_response (concat (take k [CRLF_STR @ ''O''])) = None"
  by (cases k) (simp_all add: parse_eval)


definition full_response :: response where
  "full_response = quiet_response\<lparr>rs_state := AT_CMD_OK, rs_resp := ''data''\<rparr>"

definition two_monitors :: "sm_monitor_entry list" where
  "two_monitors = [\<lparr>mon_filter = Some ''+A'', mon_paused = False\<rparr>, \<lparr>mon_filter = None, mon_paused = False\<rparr>]"

definition idle_monitor :: "nat monitor" where
  "idle_monitor = \<lparr>mon_fifo = [], mon_heap = 0, mon_work = False, mon_calls = []\<rparr>"

text \<open>A heap that counts the bytes in use and never refuses.\<close>

definition big_alloc :: "nat \<Rightarrow> nat \<Rightarrow> bool \<times> nat" where
  "big_alloc n h = (True, h + n)"

lemma two_urcs: "notif_split (CRLF_STR @ ''+A'' @ CRLF_STR @ CRLF_STR @ ''+B'' @ CRLF_STR) = [CRLF_STR @ ''+A'' @ CRLF_STR, CRLF_STR @ ''+B'' @ CRLF_STR]"
  by (subst notif_split.simps, simp, subst notif_split.simps, simp)


section \<open>The client on the loop driver\<close>

definition fine_gpio :: "loop gpio_ops" where
  "fine_gpio = \<lparr>g_dtr_ready = (\<lambda>w. True), g_dtr_configure = (\<lambda>w. (0, w)), g_dtr_set = (\<lambda>l w. (0, w)),
     g_dtr_disconnect = (\<lambda>w. (0, w)), g_ri_ready = (\<lambda>w. True), g_ri_configure = (\<lambda>w. (0, w)), g_ri_config = (\<lambda>w. (0, True)),
     g_ri_sense_set = (\<lambda>l w. w), g_ri_add_callback = (\<lambda>w. (0, w)), g_ri_interrupt = (\<lambda>w. (0, w))\<rparr>"

definition loop_client :: "(ring, nat list, loop) client_env" where
  "loop_client = \<lparr>k_cfg_rx_buf_size = 128, k_cfg_rx_buf_count = 3, k_cfg_resp_max_size = 64, k_term = CRLF_STR, k_rb = ring_ops,
     k_slab = free_list, k_drv = loop_drv, k_gpio = fine_gpio, k_hwfc = (\<lambda>w. (0, True)), k_fuel = 20\<rparr>"

lemma loop_client_sel [simp]:
  "k_rb loop_client = ring_ops" "k_drv loop_client = loop_drv" "k_slab loop_client = free_list" "k_gpio loop_client = fine_gpio"
  "k_hwfc loop_client w = (0, True)" "k_fuel loop_client = 20" "k_cfg_rx_buf_size loop_client = 128"
  by (simp_all add: loop_client_def)

interpretation lc: client_tx loop_client r_claimed r_avail ring_wf loop_obs
proof -
  have "client_tx_axioms loop_client loop_obs" by unfold_locales (auto simp: loop_defs rx_same_def mem_same_def split: if_splits)
  then show "client_tx loop_client r_claimed r_avail ring_wf loop_obs"
    by (intro client_tx.intro) (simp_all add: ring.ring_buffer_axioms loop.uart_driver_axioms)
qed

text \<open>A client whose UART is switched off and whose transmit buffer holds two bytes.\<close>

definition waiting_client :: "(ring, nat list, loop) client" where
  "waiting_client = \<lparr>k_tx_enabled = False, k_rx_enabled = False, k_rx_recovery = False, k_rx_recovery_disabled = True,
     k_tx_done_sem = 0, k_uart_disabled_sem = 0, k_tx_buf = \<lparr>r_cap = 8, r_pos = 0, r_claimed = [], r_avail = ''AB''\<rparr>,
     k_pool = \<lparr>p_slab = [0, 1, 2], p_ref = (\<lambda>b. 0)\<rparr>, k_events = [], k_rsp = quiet_response, k_initialized = True,
     k_ri_handler = False, k_ri_calls = 0, k_automatic = False, k_active = False, k_inactivity = 0, k_rx_process_work = False,
     k_enable_work = False, k_disable_work = None, k_in_workq = False,
     k_world = \<lparr>l_tx = None, l_wire = [], l_own = [], l_line = [], l_mem = (\<lambda>q. NUL), l_stop = False\<rparr>, k_fault = False\<rparr>"

lemma waiting_client_inv: "client_inv loop_obs r_claimed ring_wf waiting_client"
  by (simp add: client_inv_def waiting_client_def loop_obs_def ring_wf_def)

lemmas client_eval = waiting_client_def loop_defs ring_impl_defs fine_gpio_def free_list_def dtr_uart_enable_def dtr_pin_set_def
  client_rx_enable_def buf_alloc_def rx_buf_alloc_def wait_without_hwfc_def client_tx_enable_def client_sem_give_def client_tx_start_def

definition enabled_client :: "(ring, nat list, loop) client" where
  "enabled_client = waiting_client\<lparr>k_tx_enabled := True, k_rx_enabled := True, k_rx_recovery_disabled := False, k_tx_done_sem := 1,
     k_active := True, k_pool := \<lparr>p_slab = [1, 2], p_ref = (\<lambda>b. 0)(0 := 1)\<rparr>,
     k_tx_buf := \<lparr>r_cap = 8, r_pos = 2, r_claimed = ''AB'', r_avail = []\<rparr>,
     k_world := \<lparr>l_tx = Some ''AB'', l_wire = [], l_own = [(4, 128, 0)], l_line = [], l_mem = (\<lambda>q. NUL), l_stop = False\<rparr>\<rparr>"

lemma waiting_client_enable: "dtr_uart_enable loop_client waiting_client = (0, enabled_client)"
  by (simp add: client_eval enabled_client_def client_block_data_def Let_def)

definition written_client :: "(ring, nat list, loop) client" where
  "written_client = enabled_client\<lparr>k_tx_buf := \<lparr>r_cap = 8, r_pos = 0, r_claimed = [], r_avail = ''ABC''\<rparr>\<rparr>"

lemma enabled_client_write: "tx_write loop_client ''C'' True enabled_client = (- EBUSY, written_client)"
proof -
  have "tx_write_loop loop_client 20 ''C'' enabled_client =
      (0, enabled_client\<lparr>k_tx_buf := \<lparr>r_cap = 8, r_pos = 2, r_claimed = ''AB'', r_avail = ''C''\<rparr>\<rparr>)"
    using lc.write_loop_fits [of enabled_client "''C''" 20] by (simp add: enabled_client_def ring_impl_defs)
  then show ?thesis
    by (simp add: tx_write_def tx_flush_def written_client_def enabled_client_def client_eval Let_def)
qed

text \<open>A driver that refuses the second buffer.\<close>

definition refusing_client :: "(ring, nat list, loop) client_env" where
  "refusing_client = loop_client\<lparr>k_drv := loop_drv\<lparr>d_rx_buf_rsp := (\<lambda>p n w. (- EBUSY, w))\<rparr>\<rparr>"

end
