(* ===== verification/Dtr_Uart.thy ===== *)
theory Dtr_Uart
  imports Uart_Tx
begin

text \<open>
  The DTR UART driver (\<open>dtr_uart.c\<close>), which sits between the UART handler and the UART: it powers the
  UART up and down with the DTR line, keeps a transmission back and raises RI while DTR is down, and
  passes events on to its user. The UART below, the pins and the power management are parameters. The
  events that the user's callback was called with are recorded in order; what the user does in its
  callback is a later call.
\<close>

section \<open>State\<close>

datatype pm_device_state = PM_ACTIVE | PM_SUSPENDED | PM_SUSPENDING | PM_OFF

record 'w dtr_env =
  q_uart :: "'w uart_drv"
  q_dtr_level :: "'w \<Rightarrow> bool"
  q_ri_set :: "bool \<Rightarrow> 'w \<Rightarrow> 'w"
  q_pm_state :: "'w \<Rightarrow> int \<times> pm_device_state"
  q_pm_resume :: "'w \<Rightarrow> int \<times> 'w"
  q_pm_suspend :: "'w \<Rightarrow> int \<times> 'w"
  q_dtr_ready :: "'w \<Rightarrow> bool"
  q_dtr_configure :: "'w \<Rightarrow> int \<times> 'w"
  q_ri_ready :: "'w \<Rightarrow> bool"
  q_ri_configure :: "'w \<Rightarrow> int \<times> 'w"
  q_add_callback :: "'w \<Rightarrow> int \<times> 'w"
  q_interrupt :: "'w \<Rightarrow> int \<times> 'w"
  q_fuel :: nat

text \<open>\<open>struct dtr_uart_data\<close>; \<open>v_tx_buf\<close> is the buffer with its length, \<open>v_dtr_work\<close> whether the work
  item is pending, \<open>v_events\<close> the calls of the user's callback.\<close>

record 'w dtr_uart_data =
  v_tx_buf :: "bytes option"
  v_tx_in_progress :: bool
  v_app_rx_enabled :: bool
  v_rx_active :: bool
  v_rx_disable_sync :: nat
  v_dtr_state :: bool
  v_dtr_work :: bool
  v_ri_active :: bool
  v_pm_suspended :: bool
  v_user_callback :: bool
  v_events :: "uart_event list"
  v_world :: 'w
  v_fault :: bool

section \<open>Power, callbacks and helpers\<close>

definition power_on_uart :: "'w dtr_env \<Rightarrow> 'w dtr_uart_data \<Rightarrow> 'w dtr_uart_data" where
  "power_on_uart Q u =
     (case q_pm_state Q (v_world u) of (err, st) \<Rightarrow>
        let state = (if err \<noteq> 0 then PM_OFF else st)
        in if state \<noteq> PM_ACTIVE then u\<lparr>v_world := snd (q_pm_resume Q (v_world u))\<rparr> else u)"

definition power_off_uart :: "'w dtr_env \<Rightarrow> 'w dtr_uart_data \<Rightarrow> 'w dtr_uart_data" where
  "power_off_uart Q u =
     (case q_pm_state Q (v_world u) of (err, st) \<Rightarrow>
        if err \<noteq> 0 then u
        else if st \<noteq> PM_SUSPENDED then u\<lparr>v_world := snd (q_pm_suspend Q (v_world u))\<rparr> else u)"

definition dtr_user_callback :: "uart_event \<Rightarrow> 'w dtr_uart_data \<Rightarrow> 'w dtr_uart_data" where
  "dtr_user_callback ev u = (if v_user_callback u then u\<lparr>v_events := v_events u @ [ev]\<rparr> else u)"

definition tx_complete :: "'w dtr_uart_data \<Rightarrow> 'w dtr_uart_data" where
  "tx_complete u = u\<lparr>v_tx_in_progress := False, v_tx_buf := None\<rparr>"

definition activate_tx :: "'w dtr_env \<Rightarrow> 'w dtr_uart_data \<Rightarrow> 'w dtr_uart_data" where
  "activate_tx Q u =
     (case v_tx_buf u of
        None \<Rightarrow> u
      | Some d \<Rightarrow>
          (case d_tx (q_uart Q) d (v_world u) of (err, w) \<Rightarrow>
             let u = u\<lparr>v_tx_in_progress := True, v_world := w\<rparr>
             in if err \<noteq> 0 then dtr_user_callback (UART_TX_ABORTED 0) (tx_complete u) else u))"

definition deactivate_tx :: "'w dtr_env \<Rightarrow> 'w dtr_uart_data \<Rightarrow> int \<times> 'w dtr_uart_data" where
  "deactivate_tx Q u =
     (if v_tx_buf u \<noteq> None \<and> \<not> v_tx_in_progress u
      then (0, dtr_user_callback (UART_TX_ABORTED 0) (tx_complete u))
      else case d_tx_abort (q_uart Q) (v_world u) of (err, w) \<Rightarrow> (err, u\<lparr>v_world := w\<rparr>))"

definition deactivate_rx :: "'w dtr_env \<Rightarrow> 'w dtr_uart_data \<Rightarrow> int \<times> 'w dtr_uart_data" where
  "deactivate_rx Q u =
     (case d_rx_disable (q_uart Q) (v_world u) of (err, w) \<Rightarrow>
        (if err = - EFAULT then 0 else err, u\<lparr>v_rx_active := False, v_world := w\<rparr>))"

definition activate_rx :: "'w dtr_uart_data \<Rightarrow> 'w dtr_uart_data" where
  "activate_rx u =
     (if v_rx_active u then u else if \<not> v_app_rx_enabled u then u else dtr_user_callback UART_RX_BUF_REQUEST u)"

definition ri_start :: "'w dtr_env \<Rightarrow> 'w dtr_uart_data \<Rightarrow> 'w dtr_uart_data" where
  "ri_start Q u = u\<lparr>v_world := q_ri_set Q True (v_world u), v_ri_active := True\<rparr>"

definition ri_stop :: "'w dtr_env \<Rightarrow> 'w dtr_uart_data \<Rightarrow> 'w dtr_uart_data" where
  "ri_stop Q u = (if v_ri_active u then u\<lparr>v_world := q_ri_set Q False (v_world u), v_ri_active := False\<rparr> else u)"

definition uart_dtr_input_gpio_callback :: "'w dtr_uart_data \<Rightarrow> 'w dtr_uart_data" where
  "uart_dtr_input_gpio_callback u = u\<lparr>v_dtr_work := True\<rparr>"

text \<open>The callback of the UART below.\<close>

definition dtr_uart_callback :: "uart_event \<Rightarrow> 'w dtr_uart_data \<Rightarrow> 'w dtr_uart_data" where
  "dtr_uart_callback ev u =
     (case ev of
        UART_TX_DONE n \<Rightarrow> dtr_user_callback ev (tx_complete u)
      | UART_TX_ABORTED n \<Rightarrow> dtr_user_callback ev (tx_complete u)
      | UART_RX_DISABLED \<Rightarrow>
          (let u = (if v_dtr_state u \<and> v_app_rx_enabled u then dtr_user_callback ev (u\<lparr>v_app_rx_enabled := False\<rparr>) else u)
           in if \<not> v_dtr_state u then u\<lparr>v_rx_disable_sync := 1\<rparr> else u)
      | UART_RX_STOPPED \<Rightarrow> (if v_dtr_state u \<and> v_app_rx_enabled u then dtr_user_callback ev u else u)
      | _ \<Rightarrow> dtr_user_callback ev u)"

text \<open>Taking the semaphore with a timeout, with the events that the UART delivers meanwhile.\<close>

fun dtr_sync_take :: "'w dtr_env \<Rightarrow> nat \<Rightarrow> 'w dtr_uart_data \<Rightarrow> 'w dtr_uart_data" where
  "dtr_sync_take Q fuel u =
     (if 0 < v_rx_disable_sync u then u\<lparr>v_rx_disable_sync := 0\<rparr>
      else case fuel of
        0 \<Rightarrow> u\<lparr>v_fault := True\<rparr>
      | Suc fuel \<Rightarrow>
          (case d_next (q_uart Q) (v_world u) of
             (None, w) \<Rightarrow> u\<lparr>v_world := w\<rparr>
           | (Some ev, w) \<Rightarrow> dtr_sync_take Q fuel (dtr_uart_callback ev (u\<lparr>v_world := w\<rparr>))))"

declare dtr_sync_take.simps [simp del]

definition dtr_work_handler :: "'w dtr_env \<Rightarrow> 'w dtr_uart_data \<Rightarrow> 'w dtr_uart_data" where
  "dtr_work_handler Q u =
     (let asserted = (q_dtr_level Q (v_world u) \<and> \<not> v_pm_suspended u)
      in if v_dtr_state u = asserted then u
         else
           let u = u\<lparr>v_dtr_state := asserted\<rparr>
           in if asserted then ri_stop Q (activate_tx Q (activate_rx (power_on_uart Q u)))
              else
                let u = snd (deactivate_tx Q u);
                    u = snd (deactivate_rx Q (u\<lparr>v_rx_disable_sync := 0\<rparr>))
                in power_off_uart Q (dtr_sync_take Q (q_fuel Q) u))"

section \<open>The driver's interface\<close>

definition api_callback_set :: "bool \<Rightarrow> 'w dtr_uart_data \<Rightarrow> int \<times> 'w dtr_uart_data" where
  "api_callback_set callback u = (0, u\<lparr>v_user_callback := callback\<rparr>)"

definition api_tx :: "'w dtr_env \<Rightarrow> bytes \<Rightarrow> 'w dtr_uart_data \<Rightarrow> int \<times> 'w dtr_uart_data" where
  "api_tx Q d u =
     (if d = [] then (0, dtr_user_callback (UART_TX_DONE 0) u)
      else if v_tx_buf u \<noteq> None then (- EBUSY, u)
      else if v_dtr_state u then (case d_tx (q_uart Q) d (v_world u) of (err, w) \<Rightarrow> (err, u\<lparr>v_world := w\<rparr>))
      else (0, ri_start Q (u\<lparr>v_tx_buf := Some d\<rparr>)))"

definition api_tx_abort :: "'w dtr_env \<Rightarrow> 'w dtr_uart_data \<Rightarrow> int \<times> 'w dtr_uart_data" where
  "api_tx_abort Q u = deactivate_tx Q u"

definition api_rx_enable :: "'w dtr_env \<Rightarrow> nat \<Rightarrow> nat \<Rightarrow> 'w dtr_uart_data \<Rightarrow> int \<times> 'w dtr_uart_data" where
  "api_rx_enable Q buf len u =
     (if v_app_rx_enabled u then (- EBUSY, u)
      else
        let u = u\<lparr>v_app_rx_enabled := True\<rparr>
        in if \<not> v_dtr_state u then (0, dtr_user_callback (UART_RX_BUF_RELEASED (Some buf)) u)
           else case d_rx_enable (q_uart Q) buf len (v_world u) of (err, w) \<Rightarrow> (err, u\<lparr>v_rx_active := True, v_world := w\<rparr>))"

definition api_rx_buf_rsp :: "'w dtr_env \<Rightarrow> nat \<Rightarrow> nat \<Rightarrow> 'w dtr_uart_data \<Rightarrow> int \<times> 'w dtr_uart_data" where
  "api_rx_buf_rsp Q buf len u =
     (let release = (\<lambda>err u. (err, dtr_user_callback (UART_RX_BUF_RELEASED (Some buf)) u))
      in if \<not> v_dtr_state u then release 0 u
         else if \<not> v_app_rx_enabled u then release 0 u
         else if \<not> v_rx_active u then
           (case d_rx_enable (q_uart Q) buf len (v_world u) of (err, w) \<Rightarrow>
              let u = u\<lparr>v_rx_active := True, v_world := w\<rparr>
              in if err = - EBUSY then release 0 u
                 else if err \<noteq> 0 then release err (u\<lparr>v_rx_active := False\<rparr>)
                 else (0, u))
         else (case d_rx_buf_rsp (q_uart Q) buf len (v_world u) of (err, w) \<Rightarrow> (err, u\<lparr>v_world := w\<rparr>)))"

definition api_rx_disable :: "'w dtr_env \<Rightarrow> 'w dtr_uart_data \<Rightarrow> int \<times> 'w dtr_uart_data" where
  "api_rx_disable Q u =
     (if \<not> v_app_rx_enabled u then (- EALREADY, u)
      else if \<not> v_rx_active u \<or> \<not> v_dtr_state u
      then (0, dtr_user_callback UART_RX_DISABLED (u\<lparr>v_app_rx_enabled := False\<rparr>))
      else deactivate_rx Q u)"

definition api_err_check :: "'w dtr_env \<Rightarrow> 'w dtr_uart_data \<Rightarrow> int \<times> 'w dtr_uart_data" where
  "api_err_check Q u = (case d_err_check (q_uart Q) (v_world u) of (err, w) \<Rightarrow> (err, u\<lparr>v_world := w\<rparr>))"

definition api_configure :: "'w dtr_env \<Rightarrow> 32 word \<Rightarrow> 'w dtr_uart_data \<Rightarrow> int \<times> 'w dtr_uart_data" where
  "api_configure Q baudrate u = (case d_configure (q_uart Q) baudrate (v_world u) of (err, w) \<Rightarrow> (err, u\<lparr>v_world := w\<rparr>))"

definition api_config_get :: "'w dtr_env \<Rightarrow> 'w dtr_uart_data \<Rightarrow> int \<times> 32 word" where
  "api_config_get Q u = d_config_get (q_uart Q) (v_world u)"

text \<open>The action: Some True is suspend, Some False resume, None any other.\<close>

definition dtr_uart_pm_action :: "'w dtr_env \<Rightarrow> bool option \<Rightarrow> 'w dtr_uart_data \<Rightarrow> int \<times> 'w dtr_uart_data" where
  "dtr_uart_pm_action Q action u =
     (case action of
        None \<Rightarrow> (- ENOTSUP, u)
      | Some suspend \<Rightarrow> (0, dtr_work_handler Q (u\<lparr>v_pm_suspended := suspend\<rparr>)))"

definition dtr_uart_init :: "'w dtr_env \<Rightarrow> 'w dtr_uart_data \<Rightarrow> int \<times> 'w dtr_uart_data" where
  "dtr_uart_init Q u =
     (let w = v_world u
      in if \<not> d_ready (q_uart Q) w then (- ENODEV, u)
         else if \<not> q_dtr_ready Q w then (- ENODEV, u)
         else case q_dtr_configure Q w of (err, w) \<Rightarrow>
           if err < 0 then (err, u\<lparr>v_world := w\<rparr>)
           else if \<not> q_ri_ready Q w then (- ENODEV, u\<lparr>v_world := w\<rparr>)
           else case q_ri_configure Q w of (err, w) \<Rightarrow>
             if err < 0 then (err, u\<lparr>v_world := w\<rparr>)
             else case d_callback_set (q_uart Q) w of (err, w) \<Rightarrow>
               let u = u\<lparr>v_world := w, v_rx_disable_sync := 0, v_dtr_work := False\<rparr>
               in if err < 0 then (- EINVAL, u)
                  else case q_add_callback Q w of (err, w) \<Rightarrow>
                    if err < 0 then (err, u\<lparr>v_world := w\<rparr>)
                    else case q_interrupt Q w of (err, w) \<Rightarrow>
                      if err < 0 then (err, u\<lparr>v_world := w\<rparr>)
                      else (0, u\<lparr>v_world := w, v_dtr_state := True, v_dtr_work := True\<rparr>))"

section \<open>What the user is told\<close>

text \<open>The ends of transmissions and the released buffers among the events.\<close>

definition tx_ends :: "uart_event list \<Rightarrow> nat list" where
  "tx_ends es = concat (map (\<lambda>e. case e of UART_TX_DONE n \<Rightarrow> [n] | UART_TX_ABORTED n \<Rightarrow> [n] | _ \<Rightarrow> []) es)"

definition rx_releases :: "uart_event list \<Rightarrow> nat list" where
  "rx_releases es = concat (map (\<lambda>e. case e of UART_RX_BUF_RELEASED (Some p) \<Rightarrow> [p] | _ \<Rightarrow> []) es)"

lemma tx_ends_simps [simp]: "tx_ends [] = []" "tx_ends (es @ fs) = tx_ends es @ tx_ends fs"
  "tx_ends [UART_TX_DONE n] = [n]" "tx_ends [UART_TX_ABORTED n] = [n]" "tx_ends [UART_RX_BUF_REQUEST] = []"
  "tx_ends [UART_RX_RDY p off k] = []" "tx_ends [UART_RX_BUF_RELEASED b] = []" "tx_ends [UART_RX_DISABLED] = []" "tx_ends [UART_RX_STOPPED] = []"
  by (simp_all add: tx_ends_def)

lemma rx_releases_simps [simp]: "rx_releases [] = []" "rx_releases (es @ fs) = rx_releases es @ rx_releases fs"
  "rx_releases [UART_TX_DONE n] = []" "rx_releases [UART_TX_ABORTED n] = []" "rx_releases [UART_RX_BUF_REQUEST] = []"
  "rx_releases [UART_RX_RDY p off k] = []" "rx_releases [UART_RX_BUF_RELEASED (Some p)] = [p]" "rx_releases [UART_RX_BUF_RELEASED None] = []"
  "rx_releases [UART_RX_DISABLED] = []" "rx_releases [UART_RX_STOPPED] = []"
  by (simp_all add: rx_releases_def)

text \<open>What transmissions that ended after so many bytes put on the line.\<close>

definition sent :: "bytes list \<Rightarrow> nat list \<Rightarrow> bytes" where
  "sent ds ns = concat (map2 (\<lambda>d n. take n d) ds ns)"

lemma sent_Nil [simp]: "sent ds [] = []"
  by (simp add: sent_def)

lemma sent_append: "length ns \<le> length ds \<Longrightarrow> sent (ds @ as) (ns @ ms) = sent ds ns @ sent (drop (length ns) ds @ as) ms"
proof (induction ns arbitrary: ds)
  case (Cons n ns)
  then show ?case by (cases ds) (auto simp: sent_def)
qed simp

text \<open>The transmission that the user waits for: kept back, or given to the UART.\<close>

definition dtr_current :: "'w uart_obs \<Rightarrow> 'w dtr_uart_data \<Rightarrow> bytes list" where
  "dtr_current V u = (case v_tx_buf u of Some d \<Rightarrow> [d] | None \<Rightarrow> (case o_tx V (v_world u) of Some d \<Rightarrow> [d] | None \<Rightarrow> []))"

definition dtr_good :: "'w uart_obs \<Rightarrow> 'w dtr_uart_data \<Rightarrow> bool" where
  "dtr_good V u \<longleftrightarrow> v_user_callback u \<and> distinct (map fst (o_own V (v_world u))) \<and>
     (case v_tx_buf u of
        None \<Rightarrow> \<not> v_tx_in_progress u
      | Some d \<Rightarrow> d \<noteq> [] \<and> o_tx V (v_world u) = (if v_tx_in_progress u then Some d else None))"

lemma count_take_out: "distinct xs \<Longrightarrow> p \<in> set xs \<Longrightarrow> count_list xs q = count_list (p # filter (\<lambda>q. q \<noteq> p) xs) q"
proof (induction xs)
  case (Cons x xs)
  have "x = p \<Longrightarrow> filter (\<lambda>q. q \<noteq> p) xs = xs" using Cons.prems(1) by (auto simp: filter_id_conv)
  then show ?case using Cons by (cases "x = p") (auto split: if_splits)
qed simp

text \<open>A step in which the transmissions \<open>as\<close> were accepted and the buffers \<open>gs\<close> given: the ends that the
  user is told account for what went out on the line, and the releases for the buffers.\<close>

definition dtr_flow :: "'w uart_obs \<Rightarrow> 'w dtr_uart_data \<Rightarrow> bytes list \<Rightarrow> nat list \<Rightarrow> 'w dtr_uart_data \<Rightarrow> bool" where
  "dtr_flow V u as gs u' \<longleftrightarrow> dtr_good V u' \<and> (\<exists>es. v_events u' = v_events u @ es \<and>
     length (tx_ends es) \<le> length (dtr_current V u @ as) \<and>
     o_wire V (v_world u') = o_wire V (v_world u) @ sent (dtr_current V u @ as) (tx_ends es) \<and>
     dtr_current V u' = drop (length (tx_ends es)) (dtr_current V u @ as) \<and>
     (\<forall>p. count_list (map fst (o_own V (v_world u)) @ gs) p = count_list (rx_releases es @ map fst (o_own V (v_world u'))) p))"

lemma dtr_flow_trans:
  assumes "dtr_flow V u as gs u1" and "dtr_flow V u1 as' gs' u2" shows "dtr_flow V u (as @ as') (gs @ gs') u2"
proof -
  obtain es where 1: "v_events u1 = v_events u @ es" "length (tx_ends es) \<le> length (dtr_current V u @ as)"
    "o_wire V (v_world u1) = o_wire V (v_world u) @ sent (dtr_current V u @ as) (tx_ends es)"
    "dtr_current V u1 = drop (length (tx_ends es)) (dtr_current V u @ as)"
    "\<And>p. count_list (map fst (o_own V (v_world u)) @ gs) p = count_list (rx_releases es @ map fst (o_own V (v_world u1))) p"
    using assms(1) unfolding dtr_flow_def by blast
  obtain fs where 2: "dtr_good V u2" "v_events u2 = v_events u1 @ fs" "length (tx_ends fs) \<le> length (dtr_current V u1 @ as')"
    "o_wire V (v_world u2) = o_wire V (v_world u1) @ sent (dtr_current V u1 @ as') (tx_ends fs)"
    "dtr_current V u2 = drop (length (tx_ends fs)) (dtr_current V u1 @ as')"
    "\<And>p. count_list (map fst (o_own V (v_world u1)) @ gs') p = count_list (rx_releases fs @ map fst (o_own V (v_world u2))) p"
    using assms(2) unfolding dtr_flow_def by blast
  define c where "c = dtr_current V u @ as"
  have d: "drop (length (tx_ends es)) c @ as' = drop (length (tx_ends es)) (c @ as')" using 1(2) by (simp add: c_def)
  have "o_wire V (v_world u2) = o_wire V (v_world u) @ sent (c @ as') (tx_ends (es @ fs))"
    using sent_append [OF 1(2), of as' "tx_ends fs"] 1(3,4) 2(4) by (simp add: c_def)
  moreover have "dtr_current V u2 = drop (length (tx_ends (es @ fs))) (c @ as')"
  proof -
    have "dtr_current V u2 = drop (length (tx_ends fs)) (drop (length (tx_ends es)) (c @ as'))" using 1(4) 2(5) d by (simp only: c_def)
    then show ?thesis by (simp only: drop_drop tx_ends_simps length_append add.commute)
  qed
  moreover have "length (tx_ends (es @ fs)) \<le> length (c @ as')" using 1(2,4) 2(3) by (simp add: c_def)
  moreover have "count_list (map fst (o_own V (v_world u)) @ gs @ gs') p = count_list (rx_releases (es @ fs) @ map fst (o_own V (v_world u2))) p" for p
    using 1(5) [of p] 2(6) [of p] by simp
  moreover have "v_events u2 = v_events u @ es @ fs" using 1(1) 2(2) by simp
  ultimately show ?thesis unfolding dtr_flow_def append_assoc [symmetric, of "dtr_current V u"] c_def [symmetric]
    using 2(1) by blast
qed

text \<open>A step that concerns neither the transmission nor the buffers.\<close>

lemma dtr_flow_frame:
  assumes "dtr_good V u" and "v_tx_buf u' = v_tx_buf u" and "v_tx_in_progress u' = v_tx_in_progress u" and "v_user_callback u' = v_user_callback u"
    and "o_tx V (v_world u') = o_tx V (v_world u)" and "o_wire V (v_world u') = o_wire V (v_world u)"
    and "map fst (o_own V (v_world u')) = map fst (o_own V (v_world u))"
    and "v_events u' = v_events u @ es" and "tx_ends es = []" and "rx_releases es = []"
  shows "dtr_flow V u [] [] u'"
proof -
  have "dtr_good V u'" using assms(1-7) by (simp add: dtr_good_def cong: option.case_cong)
  moreover have "dtr_current V u' = dtr_current V u" using assms(2,5) by (simp add: dtr_current_def cong: option.case_cong)
  ultimately show ?thesis using assms(6-10) by (auto simp: dtr_flow_def)
qed

lemmas dtr_frame0 = dtr_flow_frame [where es = "[]", simplified]

lemma dtr_flow_refl: "dtr_good V u \<Longrightarrow> dtr_flow V u [] [] u"
  by (rule dtr_frame0) simp_all

section \<open>The operations\<close>

locale dtr_stack = uart_driver "q_uart Q" V
  for Q :: "'w dtr_env" and V +
  assumes ri_frame: "tx_same V w (q_ri_set Q l w) \<and> rx_same (q_uart Q) V w (q_ri_set Q l w)"
    and pm_frame: "tx_same V w (snd (q_pm_resume Q w)) \<and> rx_same (q_uart Q) V w (snd (q_pm_resume Q w))"
      "tx_same V w (snd (q_pm_suspend Q w)) \<and> rx_same (q_uart Q) V w (snd (q_pm_suspend Q w))"
begin

lemma world_flow:
  assumes "dtr_good V u" and "tx_same V (v_world u) w \<and> rx_same (q_uart Q) V (v_world u) w"
  shows "dtr_flow V u [] [] (u\<lparr>v_world := w\<rparr>)"
  by (rule dtr_frame0) (use assms in \<open>simp_all add: tx_same_def rx_same_def\<close>)

lemma power_flow: "dtr_good V u \<Longrightarrow> dtr_flow V u [] [] (power_on_uart Q u)" "dtr_good V u \<Longrightarrow> dtr_flow V u [] [] (power_off_uart Q u)"
  using world_flow [OF _ pm_frame(1), of u] world_flow [OF _ pm_frame(2), of u] dtr_flow_refl [of V u]
  by (simp_all add: power_on_uart_def power_off_uart_def Let_def split: prod.split)

lemma ri_flow: "dtr_good V u \<Longrightarrow> dtr_flow V u [] [] (ri_stop Q u)"
proof -
  assume g: "dtr_good V u"
  show ?thesis
  proof (cases "v_ri_active u")
    case True
    show ?thesis unfolding ri_stop_def using True g ri_frame [of "v_world u" False]
      by (simp, intro dtr_frame0) (simp_all add: tx_same_def rx_same_def)
  qed (use g in \<open>simp add: ri_stop_def dtr_flow_refl\<close>)
qed

text \<open>The end of the current transmission.\<close>

lemma end_flow:
  assumes "dtr_good V u" and "dtr_current V u = [d]" and "o_tx V w = None" and "o_wire V w = o_wire V (v_world u) @ take n d"
    and "o_own V w = o_own V (v_world u)" and "ev = UART_TX_DONE n \<or> ev = UART_TX_ABORTED n"
  shows "dtr_flow V u [] [] (dtr_user_callback ev (tx_complete (u\<lparr>v_world := w\<rparr>)))"
proof -
  have "dtr_good V (dtr_user_callback ev (tx_complete (u\<lparr>v_world := w\<rparr>)))"
    using assms(1,5) by (simp add: dtr_good_def dtr_user_callback_def tx_complete_def)
  moreover have "tx_ends [ev] = [n]" "rx_releases [ev] = []" using assms(6) by auto
  ultimately show ?thesis using assms
    by (auto simp: dtr_flow_def dtr_good_def dtr_user_callback_def tx_complete_def dtr_current_def sent_def intro!: exI [of _ "[ev]"])
qed

lemma activate_rx_flow: "dtr_good V u \<Longrightarrow> dtr_flow V u [] [] (activate_rx u)"
proof -
  assume g: "dtr_good V u"
  then have "dtr_flow V u [] [] (dtr_user_callback UART_RX_BUF_REQUEST u)"
    by (intro dtr_flow_frame [where es = "[UART_RX_BUF_REQUEST]"]) (simp_all add: dtr_user_callback_def dtr_good_def)
  then show ?thesis using g by (simp add: activate_rx_def dtr_flow_refl)
qed

lemma activate_tx_flow:
  assumes "dtr_good V u" and "o_tx V (v_world u) = None" shows "dtr_flow V u [] [] (activate_tx Q u)"
proof (cases "v_tx_buf u")
  case (Some d)
  obtain e w where t: "d_tx (q_uart Q) d (v_world u) = (e, w)" by fastforce
  have d: "d \<noteq> []" using assms Some by (simp add: dtr_good_def)
  show ?thesis
  proof (cases "e = 0")
    case True
    let ?u = "u\<lparr>v_tx_in_progress := True, v_world := w\<rparr>"
    have w: "o_tx V w = Some d" "o_wire V w = o_wire V (v_world u)" "o_own V w = o_own V (v_world u)"
      using tx_started [of d "v_world u" w] t True d by (auto simp: rx_same_def)
    have "dtr_good V ?u" using assms(1) w Some d by (simp add: dtr_good_def)
    then have "dtr_flow V u [] [] ?u" using w Some by (auto simp: dtr_flow_def dtr_current_def)
    then show ?thesis using Some t True by (simp add: activate_tx_def)
  next
    case False
    have w: "o_tx V w = None" "o_wire V w = o_wire V (v_world u) @ take 0 d" "o_own V w = o_own V (v_world u)"
      using tx_failed [OF t False] assms(2) by (auto simp: tx_same_def rx_same_def)
    have "activate_tx Q u = dtr_user_callback (UART_TX_ABORTED 0) (tx_complete (u\<lparr>v_world := w\<rparr>))"
      using Some t False by (simp add: activate_tx_def tx_complete_def)
    then show ?thesis using end_flow [OF assms(1) _ w] Some by (simp add: dtr_current_def)
  qed
qed (use assms in \<open>simp add: activate_tx_def dtr_flow_refl\<close>)

lemma deactivate_tx_flow: "dtr_good V u \<Longrightarrow> dtr_flow V u [] [] (snd (deactivate_tx Q u))"
proof -
  assume g: "dtr_good V u"
  show ?thesis
  proof (cases "v_tx_buf u \<noteq> None \<and> \<not> v_tx_in_progress u")
    case True
    then obtain d where d: "v_tx_buf u = Some d" "o_tx V (v_world u) = None" using g by (auto simp: dtr_good_def)
    from end_flow [OF g _ d(2), of d 0 "UART_TX_ABORTED 0"] d(1) True show ?thesis
      by (simp add: deactivate_tx_def dtr_current_def)
  next
    case False
    obtain e w where t: "d_tx_abort (q_uart Q) (v_world u) = (e, w)" by fastforce
    show ?thesis using world_flow [OF g tx_abort [OF t]] t False by (auto simp: deactivate_tx_def)
  qed
qed

lemma deactivate_rx_flow: "dtr_good V u \<Longrightarrow> dtr_flow V u [] [] (snd (deactivate_rx Q u))"
proof -
  assume g: "dtr_good V u"
  obtain e w where t: "d_rx_disable (q_uart Q) (v_world u) = (e, w)" by fastforce
  show ?thesis using g t rx_disable [OF t]
    by (simp add: deactivate_rx_def) (rule dtr_frame0, simp_all add: tx_same_def rx_same_def)
qed

lemma callback_flow:
  assumes "dtr_good V u" and "event_ok (q_uart Q) V (v_world u) ev w"
  shows "dtr_flow V u [] [] (dtr_uart_callback ev (u\<lparr>v_world := w\<rparr>))"
proof -
  have cb: "v_user_callback u" using assms(1) by (simp add: dtr_good_def)
  consider (fin) n where "ev = UART_TX_DONE n \<or> ev = UART_TX_ABORTED n"
    | (rel) p where "ev = UART_RX_BUF_RELEASED (Some p)"
    | (rest) "\<forall>n. ev \<noteq> UART_TX_DONE n \<and> ev \<noteq> UART_TX_ABORTED n" "\<forall>p. ev \<noteq> UART_RX_BUF_RELEASED (Some p)" by blast
  then show ?thesis
  proof cases
    case fin
    then obtain d where d: "o_tx V (v_world u) = Some d" "o_tx V w = None" "o_wire V w = o_wire V (v_world u) @ take n d"
      "o_own V w = o_own V (v_world u)" using assms(2) by (auto simp: rx_same_def)
    have "dtr_current V u = [d]" using assms(1) d(1) by (auto simp: dtr_current_def dtr_good_def split: option.splits if_splits)
    from end_flow [OF assms(1) this d(2-4), of ev] fin show ?thesis by (auto simp: dtr_uart_callback_def)
  next
    case rel
    let ?own = "o_own V (v_world u)"
    have e: "tx_same V (v_world u) w" "p \<in> fst ` set ?own" "o_own V w = filter (\<lambda>x. fst x \<noteq> p) ?own" using assms(2) rel by auto
    have di: "distinct (map fst ?own)" using assms(1) by (simp add: dtr_good_def)
    have f: "map fst (filter (\<lambda>x. fst x \<noteq> p) ?own) = filter (\<lambda>q. q \<noteq> p) (map fst ?own)" by (simp add: filter_map o_def)
    have di': "distinct (map fst (o_own V w))" using di unfolding e(3) f by simp
    have c: "count_list (map fst ?own) q = count_list (p # map fst (o_own V w)) q" for q
      unfolding e(3) f by (rule count_take_out [OF di]) (use e(2) in auto)
    have "dtr_good V (dtr_uart_callback ev (u\<lparr>v_world := w\<rparr>))"
      using assms(1) di' e(1) by (simp add: rel dtr_uart_callback_def dtr_user_callback_def dtr_good_def tx_same_def cong: option.case_cong)
    moreover have "dtr_current V (dtr_uart_callback ev (u\<lparr>v_world := w\<rparr>)) = dtr_current V u"
      using e(1) by (simp add: rel dtr_uart_callback_def dtr_user_callback_def dtr_current_def tx_same_def cong: option.case_cong)
    ultimately show ?thesis unfolding dtr_flow_def using cb c e(1)
      by (intro conjI exI [of _ "[ev]"]) (auto simp: rel dtr_uart_callback_def dtr_user_callback_def tx_same_def)
  next
    case rest
    have n: "tx_ends [ev] = []" "rx_releases [ev] = []" using rest by (auto simp: tx_ends_def rx_releases_def split: uart_event.split option.split)
    have e: "tx_same V (v_world u) w" "map fst (o_own V w) = map fst (o_own V (v_world u))"
      using assms(2) rest by (cases "(q_uart Q, V, v_world u, ev, w)" rule: event_ok.cases, auto simp: rx_same_def)+
    show ?thesis
      by (cases "v_events (dtr_uart_callback ev (u\<lparr>v_world := w\<rparr>)) = v_events u")
        (rule dtr_frame0 dtr_flow_frame [where es = "[ev]"],
         use assms(1) e n rest cb in \<open>auto simp: dtr_uart_callback_def dtr_user_callback_def tx_same_def Let_def split: uart_event.splits if_splits\<close>)+
  qed
qed

lemma sync_take_flow: "dtr_good V u \<Longrightarrow> dtr_flow V u [] [] (dtr_sync_take Q fuel u)"
proof (induction fuel arbitrary: u)
  case 0
  then have "dtr_flow V u [] [] (u\<lparr>v_rx_disable_sync := 0\<rparr>)" "dtr_flow V u [] [] (u\<lparr>v_fault := True\<rparr>)" by (intro dtr_frame0; simp)+
  then show ?case by (simp add: dtr_sync_take.simps)
next
  case (Suc fuel)
  obtain r w where n: "d_next (q_uart Q) (v_world u) = (r, w)" by fastforce
  have z: "dtr_flow V u [] [] (u\<lparr>v_rx_disable_sync := 0\<rparr>)" using Suc.prems by (intro dtr_frame0) simp_all
  show ?case
  proof (cases r)
    case None
    then show ?thesis using z world_flow [OF Suc.prems next_none] n by (simp add: dtr_sync_take.simps)
  next
    case (Some ev)
    let ?v = "dtr_uart_callback ev (u\<lparr>v_world := w\<rparr>)"
    have f: "dtr_flow V u [] [] ?v" using callback_flow [OF Suc.prems next_event] n Some by simp
    then have "dtr_flow V u [] [] (dtr_sync_take Q fuel ?v)"
      using dtr_flow_trans [OF f Suc.IH] by (simp add: dtr_flow_def)
    then show ?thesis using z n Some by (simp add: dtr_sync_take.simps [of Q "Suc fuel"])
  qed
qed

text \<open>A chain of steps that take and give nothing.\<close>

lemma flow_then:
  assumes "dtr_flow V u [] [] u1" and "dtr_good V u1 \<Longrightarrow> dtr_flow V u1 [] [] u2" shows "dtr_flow V u [] [] u2"
  using dtr_flow_trans [OF assms(1), of "[]" "[]" u2] assms by (simp add: dtr_flow_def)

lemma activate_rx_tx: "o_tx V (v_world (activate_rx u)) = o_tx V (v_world u)"
  by (simp add: activate_rx_def dtr_user_callback_def)

lemma power_on_tx: "o_tx V (v_world (power_on_uart Q u)) = o_tx V (v_world u)"
  using pm_frame(1) [of "v_world u"] by (simp add: power_on_uart_def Let_def tx_same_def split: prod.split)

text \<open>When DTR rises, no transmission of the UART is still being aborted.\<close>

lemma work_flow:
  assumes "dtr_good V u" and "v_dtr_state u \<or> o_tx V (v_world u) = None"
  shows "dtr_flow V u [] [] (dtr_work_handler Q u)"
proof -
  define a where "a = (q_dtr_level Q (v_world u) \<and> \<not> v_pm_suspended u)"
  let ?u = "u\<lparr>v_dtr_state := a\<rparr>"
  have f0: "dtr_flow V u [] [] ?u" using assms(1) by (intro dtr_frame0) simp_all
  consider (same) "v_dtr_state u = a" | (up) "\<not> v_dtr_state u" "a" | (down) "v_dtr_state u" "\<not> a" by blast
  then show ?thesis
  proof cases
    case same
    then show ?thesis using assms(1) by (simp add: dtr_work_handler_def a_def [symmetric] dtr_flow_refl)
  next
    case up
    let ?v = "activate_rx (power_on_uart Q ?u)"
    have v: "dtr_flow V u [] [] ?v" by (rule flow_then [OF flow_then [OF f0 power_flow(1)] activate_rx_flow])
    have n: "o_tx V (v_world ?v) = None" using assms(2) up by (simp add: activate_rx_tx power_on_tx)
    have "dtr_flow V u [] [] (activate_tx Q ?v)" by (rule flow_then [OF v activate_tx_flow [OF _ n]])
    then have "dtr_flow V u [] [] (ri_stop Q (activate_tx Q ?v))" by (rule flow_then [OF _ ri_flow])
    then show ?thesis using up by (simp add: dtr_work_handler_def a_def [symmetric] Let_def)
  next
    case down
    let ?t = "snd (deactivate_tx Q ?u)"
    have t: "dtr_flow V u [] [] ?t" by (rule flow_then [OF f0 deactivate_tx_flow])
    have "dtr_flow V u [] [] (?t\<lparr>v_rx_disable_sync := 0\<rparr>)" by (rule flow_then [OF t dtr_frame0]) simp_all
    then have "dtr_flow V u [] [] (power_off_uart Q (dtr_sync_take Q (q_fuel Q) (snd (deactivate_rx Q (?t\<lparr>v_rx_disable_sync := 0\<rparr>)))))"
      by (rule flow_then [OF flow_then [OF flow_then [OF _ deactivate_rx_flow] sync_take_flow] power_flow(2)])
    then show ?thesis using down by (simp add: dtr_work_handler_def a_def [symmetric] Let_def)
  qed
qed

lemma api_tx_flow:
  assumes "dtr_good V u" and "dtr_current V u = []" and "api_tx Q d u = (r, u')"
  shows "dtr_flow V u (if r = 0 then [d] else []) [] u'"
proof -
  have c: "v_user_callback u" "v_tx_buf u = None" "o_tx V (v_world u) = None" "\<not> v_tx_in_progress u" "distinct (map fst (o_own V (v_world u)))"
    using assms(1,2) by (auto simp: dtr_good_def dtr_current_def split: option.splits)
  consider (empty) "d = []" | (now) "d \<noteq> []" "v_dtr_state u" | (later) "d \<noteq> []" "\<not> v_dtr_state u" by blast
  then show ?thesis
  proof cases
    case empty
    then have "r = 0" "u' = dtr_user_callback (UART_TX_DONE 0) u" using assms(3) by (auto simp: api_tx_def)
    then show ?thesis using c empty
      by (auto simp: dtr_flow_def dtr_good_def dtr_user_callback_def dtr_current_def sent_def intro!: exI [of _ "[UART_TX_DONE 0]"])
  next
    case now
    obtain w where t: "d_tx (q_uart Q) d (v_world u) = (r, w)" and u': "u' = u\<lparr>v_world := w\<rparr>"
      using assms(3) now c(2) by (auto simp: api_tx_def split: prod.splits)
    show ?thesis
    proof (cases "r = 0")
      case True
      then show ?thesis using tx_started [of d "v_world u" w] t now c u'
        by (auto simp: dtr_flow_def dtr_good_def dtr_current_def rx_same_def)
    next
      case False
      then show ?thesis using world_flow [OF assms(1) tx_failed [OF t False]] u' by simp
    qed
  next
    case later
    then have "r = 0" "u' = ri_start Q (u\<lparr>v_tx_buf := Some d\<rparr>)" using assms(3) c(2) by (auto simp: api_tx_def)
    then show ?thesis using c later ri_frame [of "v_world u" True]
      by (auto simp: dtr_flow_def dtr_good_def dtr_current_def ri_start_def tx_same_def rx_same_def)
  qed
qed

text \<open>A buffer that is handed back at once, and one that the UART keeps.\<close>

lemma release_flow:
  assumes "dtr_good V u" and "v_events u' = v_events u @ [UART_RX_BUF_RELEASED (Some p)]" and "v_tx_buf u' = v_tx_buf u"
    and "v_tx_in_progress u' = v_tx_in_progress u" and "v_user_callback u' = v_user_callback u"
    and "tx_same V (v_world u) (v_world u') \<and> rx_same (q_uart Q) V (v_world u) (v_world u')"
  shows "dtr_flow V u [] [p] u'"
proof -
  have "dtr_good V u'" using assms by (simp add: dtr_good_def tx_same_def rx_same_def cong: option.case_cong)
  moreover have "dtr_current V u' = dtr_current V u" using assms(3,6) by (simp add: dtr_current_def tx_same_def cong: option.case_cong)
  ultimately show ?thesis unfolding dtr_flow_def using assms(2,6)
    by (intro conjI exI [of _ "[UART_RX_BUF_RELEASED (Some p)]"]) (auto simp: tx_same_def rx_same_def)
qed

lemma given_flow:
  assumes "dtr_good V u" and "p \<notin> fst ` set (o_own V (v_world u))" and "buf_given (q_uart Q) V p n (v_world u) (v_world u')"
    and "v_tx_buf u' = v_tx_buf u" and "v_tx_in_progress u' = v_tx_in_progress u" and "v_user_callback u' = v_user_callback u"
    and "v_events u' = v_events u"
  shows "dtr_flow V u [] [p] u'"
proof -
  have w: "tx_same V (v_world u) (v_world u')" "o_own V (v_world u') = o_own V (v_world u) @ [(p, n, 0)]"
    using assms(3) by (auto simp: buf_given_def)
  have "dtr_good V u'" using assms(1,2,4-6) w by (auto simp: dtr_good_def tx_same_def split: option.split)
  moreover have "dtr_current V u' = dtr_current V u" using assms(4) w(1) by (simp add: dtr_current_def tx_same_def cong: option.case_cong)
  ultimately show ?thesis using assms(7) w by (auto simp: dtr_flow_def tx_same_def)
qed

lemma api_rx_enable_flow:
  assumes "dtr_good V u" and "p \<notin> fst ` set (o_own V (v_world u))" and "api_rx_enable Q p n u = (r, u')"
  shows "dtr_flow V u [] (if r = 0 then [p] else []) u'"
proof -
  have cb: "v_user_callback u" using assms(1) by (simp add: dtr_good_def)
  obtain e w where t: "d_rx_enable (q_uart Q) p n (v_world u) = (e, w)" by fastforce
  consider (on) "v_app_rx_enabled u" | (off) "\<not> v_app_rx_enabled u" "\<not> v_dtr_state u" | (go) "\<not> v_app_rx_enabled u" "v_dtr_state u" by blast
  then show ?thesis
  proof cases
    case on
    then show ?thesis using assms(1,3) by (auto simp: api_rx_enable_def dtr_flow_refl)
  next
    case off
    then have "r = 0" "u' = dtr_user_callback (UART_RX_BUF_RELEASED (Some p)) (u\<lparr>v_app_rx_enabled := True\<rparr>)"
      using assms(3) by (auto simp: api_rx_enable_def Let_def)
    then show ?thesis using release_flow [OF assms(1), of u' p] cb by (simp add: dtr_user_callback_def)
  next
    case go
    then have u': "r = e" "u' = u\<lparr>v_app_rx_enabled := True, v_rx_active := True, v_world := w\<rparr>"
      using assms(3) t by (auto simp: api_rx_enable_def Let_def)
    show ?thesis
    proof (cases "e = 0")
      case True
      then show ?thesis using given_flow [OF assms(1,2), of n u'] rx_enabled [of p n "v_world u" w] t u' by simp
    next
      case False
      then show ?thesis using rx_enable_failed [OF t False] u' assms(1)
        by (simp, intro dtr_frame0) (simp_all add: tx_same_def rx_same_def)
    qed
  qed
qed

lemma api_rx_buf_rsp_flow:
  assumes "dtr_good V u" and "p \<notin> fst ` set (o_own V (v_world u))" and "api_rx_buf_rsp Q p n u = (r, u')"
  shows "dtr_flow V u [] (if r = 0 \<or> v_dtr_state u \<and> v_app_rx_enabled u \<and> \<not> v_rx_active u then [p] else []) u'"
proof -
  have cb: "v_user_callback u" using assms(1) by (simp add: dtr_good_def)
  obtain e w where t: "d_rx_enable (q_uart Q) p n (v_world u) = (e, w)" by fastforce
  obtain e2 w2 where t2: "d_rx_buf_rsp (q_uart Q) p n (v_world u) = (e2, w2)" by fastforce
  consider (off) "\<not> v_dtr_state u \<or> \<not> v_app_rx_enabled u"
    | (enable) "v_dtr_state u" "v_app_rx_enabled u" "\<not> v_rx_active u" | (go) "v_dtr_state u" "v_app_rx_enabled u" "v_rx_active u" by blast
  then show ?thesis
  proof cases
    case off
    then have "r = 0" "u' = dtr_user_callback (UART_RX_BUF_RELEASED (Some p)) u" using assms(3) by (auto simp: api_rx_buf_rsp_def Let_def split: if_splits)
    then show ?thesis using release_flow [OF assms(1), of u' p] cb by (simp add: dtr_user_callback_def)
  next
    case enable
    show ?thesis
    proof (cases "e = 0")
      case True
      then have "r = 0" "u' = u\<lparr>v_rx_active := True, v_world := w\<rparr>" using assms(3) enable t by (auto simp: api_rx_buf_rsp_def Let_def)
      then show ?thesis using given_flow [OF assms(1,2), of n u'] rx_enabled [of p n "v_world u" w] t True by simp
    next
      case False
      then have "u' = dtr_user_callback (UART_RX_BUF_RELEASED (Some p)) (u\<lparr>v_rx_active := (e = - EBUSY), v_world := w\<rparr>)"
        using assms(3) enable t by (cases "e = - EBUSY") (auto simp: api_rx_buf_rsp_def Let_def dtr_user_callback_def)
      then show ?thesis using release_flow [OF assms(1), of u' p] rx_enable_failed [OF t False] cb enable by (simp add: dtr_user_callback_def)
    qed
  next
    case go
    then have u': "r = e2" "u' = u\<lparr>v_world := w2\<rparr>" using assms(3) t2 by (auto simp: api_rx_buf_rsp_def Let_def)
    show ?thesis
    proof (cases "e2 = 0")
      case True
      then show ?thesis using given_flow [OF assms(1,2), of n u'] buf_rsp [of p n "v_world u" w2] t2 u' by simp
    next
      case False
      then show ?thesis using world_flow [OF assms(1) buf_rsp_failed [OF t2 False]] u' go by simp
    qed
  qed
qed

lemma api_rx_disable_flow:
  assumes "dtr_good V u" shows "dtr_flow V u [] [] (snd (api_rx_disable Q u))"
proof -
  have "dtr_flow V u [] [] (dtr_user_callback UART_RX_DISABLED (u\<lparr>v_app_rx_enabled := False\<rparr>))"
    by (rule dtr_flow_frame [where es = "[UART_RX_DISABLED]"]) (use assms in \<open>simp_all add: dtr_user_callback_def dtr_good_def\<close>)
  then show ?thesis using assms deactivate_rx_flow [OF assms] by (simp add: api_rx_disable_def dtr_flow_refl)
qed

end

section \<open>Runs\<close>

text \<open>What happens to the driver: calls of its user, with their results, the events of the UART, changes
  of the pins, the work item and power management. The user starts a transmission when it waits for
  none and gives buffers that the UART does not hold; when DTR changes to up, or power management acts
  while it is down, an abort of the UART that was started when it fell has ended. A buffer response
  that has to enable reception and fails hands the buffer back and reports the error as well: it is a
  case of its own, \<open>DtrReturned\<close>.\<close>

datatype dtr_act = DtrTx bytes int | DtrGive nat int | DtrReturned nat int | DtrOther

definition dtr_rsp_act :: "'w dtr_uart_data \<Rightarrow> nat \<Rightarrow> int \<Rightarrow> dtr_act" where
  "dtr_rsp_act u p r = (if r \<noteq> 0 \<and> v_dtr_state u \<and> v_app_rx_enabled u \<and> \<not> v_rx_active u then DtrReturned p r else DtrGive p r)"

inductive dtr_step :: "'w dtr_env \<Rightarrow> 'w uart_obs \<Rightarrow> 'w dtr_uart_data \<Rightarrow> dtr_act \<Rightarrow> 'w dtr_uart_data \<Rightarrow> bool"
  for Q :: "'w dtr_env" and V :: "'w uart_obs" where
  tx: "dtr_current V u = [] \<Longrightarrow> api_tx Q d u = (r, u') \<Longrightarrow> dtr_step Q V u (DtrTx d r) u'"
| abort: "dtr_step Q V u DtrOther (snd (api_tx_abort Q u))"
| rx_enable: "p \<notin> fst ` set (o_own V (v_world u)) \<Longrightarrow> api_rx_enable Q p n u = (r, u') \<Longrightarrow> dtr_step Q V u (DtrGive p r) u'"
| buf_rsp: "p \<notin> fst ` set (o_own V (v_world u)) \<Longrightarrow> api_rx_buf_rsp Q p n u = (r, u') \<Longrightarrow> dtr_step Q V u (dtr_rsp_act u p r) u'"
| rx_disable: "dtr_step Q V u DtrOther (snd (api_rx_disable Q u))"
| event: "event_ok (q_uart Q) V (v_world u) ev w \<Longrightarrow> dtr_step Q V u DtrOther (dtr_uart_callback ev (u\<lparr>v_world := w\<rparr>))"
| pins: "tx_same V (v_world u) w \<Longrightarrow> rx_same (q_uart Q) V (v_world u) w \<Longrightarrow>
    dtr_step Q V u DtrOther (uart_dtr_input_gpio_callback (u\<lparr>v_world := w\<rparr>))"
| work: "v_dtr_state u \<or> o_tx V (v_world u) = None \<Longrightarrow> dtr_step Q V u DtrOther (dtr_work_handler Q (u\<lparr>v_dtr_work := False\<rparr>))"
| pm: "v_dtr_state u \<or> o_tx V (v_world u) = None \<Longrightarrow> dtr_step Q V u DtrOther (snd (dtr_uart_pm_action Q action u))"

inductive dtr_run :: "'w dtr_env \<Rightarrow> 'w uart_obs \<Rightarrow> 'w dtr_uart_data \<Rightarrow> dtr_act list \<Rightarrow> 'w dtr_uart_data \<Rightarrow> bool"
  for Q :: "'w dtr_env" and V :: "'w uart_obs" where
  stop: "dtr_run Q V u [] u"
| step: "dtr_step Q V u a u1 \<Longrightarrow> dtr_run Q V u1 as u2 \<Longrightarrow> dtr_run Q V u (a # as) u2"

definition dtr_accepted :: "dtr_act list \<Rightarrow> bytes list" where
  "dtr_accepted as = concat (map (\<lambda>a. case a of DtrTx d r \<Rightarrow> if r = 0 then [d] else [] | _ \<Rightarrow> []) as)"

definition dtr_given :: "dtr_act list \<Rightarrow> nat list" where
  "dtr_given as = concat (map (\<lambda>a. case a of DtrGive p r \<Rightarrow> if r = 0 then [p] else [] | _ \<Rightarrow> []) as)"

definition dtr_returned :: "dtr_act list \<Rightarrow> nat list" where
  "dtr_returned as = concat (map (\<lambda>a. case a of DtrReturned p r \<Rightarrow> [p] | _ \<Rightarrow> []) as)"

definition dtr_passed :: "dtr_act list \<Rightarrow> nat list" where
  "dtr_passed as = concat (map (\<lambda>a. dtr_given [a] @ dtr_returned [a]) as)"

lemma dtr_passed_count: "count_list (dtr_passed as) p = count_list (dtr_given as) p + count_list (dtr_returned as) p"
  by (induction as) (auto simp: dtr_passed_def dtr_given_def dtr_returned_def)

lemma dtr_passed_simps [simp]: "dtr_passed [DtrTx d r] = []" "dtr_passed [DtrOther] = []" "dtr_passed [DtrGive p r] = (if r = 0 then [p] else [])"
  "dtr_passed [DtrReturned p r] = [p]"
  by (simp_all add: dtr_passed_def dtr_given_def dtr_returned_def)

context dtr_stack
begin

lemma step_flow:
  assumes "dtr_step Q V u a u'" and "dtr_good V u" shows "dtr_flow V u (dtr_accepted [a]) (dtr_passed [a]) u'"
  using assms
proof cases
  case (tx d r)
  then show ?thesis using api_tx_flow [OF assms(2)] by (simp add: dtr_accepted_def)
next
  case abort
  then show ?thesis using deactivate_tx_flow [OF assms(2)] by (simp add: dtr_accepted_def api_tx_abort_def)
next
  case (rx_enable p n r)
  then show ?thesis using api_rx_enable_flow [OF assms(2)] by (simp add: dtr_accepted_def)
next
  case (buf_rsp p n r)
  have "dtr_passed [dtr_rsp_act u p r] = (if r = 0 \<or> v_dtr_state u \<and> v_app_rx_enabled u \<and> \<not> v_rx_active u then [p] else [])"
    "dtr_accepted [dtr_rsp_act u p r] = []" by (auto simp: dtr_rsp_act_def dtr_accepted_def)
  then show ?thesis using api_rx_buf_rsp_flow [OF assms(2)] buf_rsp by simp
next
  case rx_disable
  then show ?thesis using api_rx_disable_flow [OF assms(2)] by (simp add: dtr_accepted_def)
next
  case (event ev w)
  then show ?thesis using callback_flow [OF assms(2)] by (simp add: dtr_accepted_def)
next
  case (pins w)
  have "dtr_flow V u [] [] u'"
    by (rule dtr_frame0) (use pins assms(2) in \<open>simp_all add: uart_dtr_input_gpio_callback_def tx_same_def rx_same_def\<close>)
  then show ?thesis using pins by (simp add: dtr_accepted_def)
next
  case work
  let ?u = "u\<lparr>v_dtr_work := False\<rparr>"
  have f: "dtr_flow V u [] [] ?u" using assms(2) by (intro dtr_frame0) simp_all
  have "dtr_flow V u [] [] (dtr_work_handler Q ?u)" by (rule flow_then [OF f work_flow]) (use work in simp_all)
  then show ?thesis using work by (simp add: dtr_accepted_def)
next
  case (pm action)
  have f: "dtr_flow V u [] [] (u\<lparr>v_pm_suspended := b\<rparr>)" for b using assms(2) by (intro dtr_frame0) simp_all
  have "dtr_flow V u [] [] (dtr_work_handler Q (u\<lparr>v_pm_suspended := b\<rparr>))" for b
    by (rule flow_then [OF f work_flow]) (use pm in simp_all)
  then show ?thesis using pm assms(2) by (simp add: dtr_accepted_def dtr_uart_pm_action_def dtr_flow_refl split: option.split)
qed

lemma run_flow: "dtr_run Q V u as u' \<Longrightarrow> dtr_good V u \<Longrightarrow> dtr_flow V u (dtr_accepted as) (dtr_passed as) u'"
proof (induction rule: dtr_run.induct)
  case (stop u)
  then show ?case by (simp add: dtr_accepted_def dtr_passed_def dtr_flow_refl)
next
  case (step u a u1 as u2)
  have f: "dtr_flow V u (dtr_accepted [a]) (dtr_passed [a]) u1" by (rule step_flow [OF step(1,4)])
  then have "dtr_good V u1" by (simp add: dtr_flow_def)
  from dtr_flow_trans [OF f step(3) [OF this]] show ?case by (simp add: dtr_accepted_def dtr_passed_def)
qed

end

section \<open>Properties\<close>


text \<open>When the UART fails to enable reception, the driver reports the error but stays marked as
  receiving: every later attempt to enable reception is refused as busy.\<close>

lemma dtr_rx_enable_failure_sticks:
  assumes "\<not> v_app_rx_enabled u" and "v_dtr_state u" and "d_rx_enable (q_uart Q) p n (v_world u) = (e, w)" and "e \<noteq> 0"
  shows "fst (api_rx_enable Q p n u) = e \<and> fst (api_rx_enable Q q k (snd (api_rx_enable Q p n u))) = - EBUSY"
  using assms by (simp add: api_rx_enable_def Let_def)

end
