(* ===== verification/Dtr_Demo.thy ===== *)
theory Dtr_Demo
  imports Dtr_Uart Uart_Demo
begin

text \<open>
  The DTR driver on the UART of the demonstration, with DTR up: a transmission that was kept back is
  started by the work item and ends.
\<close>

definition loop_dtr :: "loop dtr_env" where
  "loop_dtr = \<lparr>q_uart = loop_drv, q_dtr_level = (\<lambda>w. True), q_ri_set = (\<lambda>l w. w), q_pm_state = (\<lambda>w. (0, PM_ACTIVE)),
     q_pm_resume = (\<lambda>w. (0, w)), q_pm_suspend = (\<lambda>w. (0, w)), q_dtr_ready = (\<lambda>w. True), q_dtr_configure = (\<lambda>w. (0, w)),
     q_ri_ready = (\<lambda>w. True), q_ri_configure = (\<lambda>w. (0, w)), q_add_callback = (\<lambda>w. (0, w)), q_interrupt = (\<lambda>w. (0, w)), q_fuel = 20\<rparr>"

lemma loop_dtr_sel [simp]: "q_uart loop_dtr = loop_drv"
  by (simp add: loop_dtr_def)

interpretation ld: dtr_stack loop_dtr loop_obs
proof -
  have "dtr_stack_axioms loop_dtr loop_obs" by unfold_locales (simp_all add: loop_dtr_def)
  then show "dtr_stack loop_dtr loop_obs" by (intro dtr_stack.intro) (simp_all add: loop.uart_driver_axioms)
qed

definition dtr0 :: "loop dtr_uart_data" where
  "dtr0 = \<lparr>v_tx_buf = None, v_tx_in_progress = False, v_app_rx_enabled = False, v_rx_active = False, v_rx_disable_sync = 0,
     v_dtr_state = False, v_dtr_work = False, v_ri_active = False, v_pm_suspended = False, v_user_callback = True, v_events = [],
     v_world = \<lparr>l_tx = None, l_wire = [], l_own = [], l_line = [], l_mem = (\<lambda>q. NUL), l_stop = False\<rparr>, v_fault = False\<rparr>"

definition dtr1 :: "loop dtr_uart_data" where
  "dtr1 = snd (api_tx loop_dtr ''AB'' dtr0)"

definition dtr2 :: "loop dtr_uart_data" where
  "dtr2 = dtr_work_handler loop_dtr (dtr1\<lparr>v_dtr_work := False\<rparr>)"

definition sent_world :: loop where
  "sent_world = \<lparr>l_tx = None, l_wire = ''AB'', l_own = [], l_line = [], l_mem = (\<lambda>q. NUL), l_stop = False\<rparr>"

definition dtr3 :: "loop dtr_uart_data" where
  "dtr3 = dtr_uart_callback (UART_TX_DONE 2) (dtr2\<lparr>v_world := sent_world\<rparr>)"

lemma dtr1_eq: "dtr1 = dtr0\<lparr>v_tx_buf := Some ''AB'', v_ri_active := True\<rparr>"
  by (simp add: dtr1_def api_tx_def dtr0_def ri_start_def loop_dtr_def)

lemma dtr2_eq: "dtr2 = dtr0\<lparr>v_tx_buf := Some ''AB'', v_tx_in_progress := True, v_dtr_state := True,
    v_world := (v_world dtr0)\<lparr>l_tx := Some ''AB''\<rparr>\<rparr>"
  by (simp add: dtr2_def dtr1_eq dtr_work_handler_def Let_def loop_dtr_def dtr0_def power_on_uart_def activate_rx_def activate_tx_def
      ri_stop_def loop_drv_def)

lemma dtr_demo_run: "dtr_run loop_dtr loop_obs dtr0 [DtrTx ''AB'' 0, DtrOther, DtrOther] dtr3"
proof -
  have "api_tx loop_dtr ''AB'' dtr0 = (0, dtr1)" by (simp add: dtr1_def api_tx_def dtr0_def)
  then have 1: "dtr_step loop_dtr loop_obs dtr0 (DtrTx ''AB'' 0) dtr1"
    by (intro dtr_step.tx) (simp_all add: dtr_current_def dtr0_def loop_obs_def)
  have 2: "dtr_step loop_dtr loop_obs dtr1 DtrOther dtr2"
    unfolding dtr2_def by (rule dtr_step.work) (simp add: dtr1_eq dtr0_def loop_obs_def)
  have 3: "dtr_step loop_dtr loop_obs dtr2 DtrOther dtr3"
    unfolding dtr3_def by (rule dtr_step.event) (simp add: dtr2_eq dtr0_def sent_world_def loop_defs rx_same_def mem_same_def)
  show ?thesis by (rule dtr_run.step [OF 1 dtr_run.step [OF 2 dtr_run.step [OF 3 dtr_run.stop]]])
qed


text \<open>A UART that cannot enable reception.\<close>

definition broken_dtr :: "loop dtr_env" where
  "broken_dtr = loop_dtr\<lparr>q_uart := loop_drv\<lparr>d_rx_enable := (\<lambda>p n w. (- EIO, w))\<rparr>\<rparr>"

end
