(* ===== verification/Sm_Util.thy ===== *)
theory Sm_Util
  imports C_Library
begin

text \<open>
  The utilities of the application (\<open>sm_util.c\<close>): AT commands that the application itself sends to the
  modem with the parsing of their answers, forwarding of an intercepted command, string and number
  helpers, and address helpers. The modem library, the sockets layer and the firmware information
  are parameters.
\<close>

section \<open>Parameters\<close>

text \<open>\<open>m_at_cmd len cmd\<close> is \<open>nrf_modem_at_cmd\<close>: the result and the content of the buffer.
  \<open>m_at_scanf n m cmd\<close> is \<open>nrf_modem_at_scanf\<close> with the format that reads two lines of at most \<open>n\<close> and
  \<open>m\<close> characters: the number of lines and the lines. \<open>m_inet_pton v6\<close> returns its result and the
  address bytes; \<open>m_inet_ntop\<close> None on an error.\<close>

record 'w util_env =
  m_at_cmd :: "nat \<Rightarrow> string \<Rightarrow> 'w \<Rightarrow> int \<times> bytes \<times> 'w"
  m_at_scanf :: "nat \<Rightarrow> nat \<Rightarrow> string \<Rightarrow> 'w \<Rightarrow> int \<times> string \<times> string \<times> 'w"
  m_inet_pton :: "bool \<Rightarrow> string \<Rightarrow> int \<times> bytes"
  m_inet_ntop :: "bool \<Rightarrow> bytes \<Rightarrow> string option"
  m_getaddrinfo :: "string \<Rightarrow> string \<Rightarrow> int \<Rightarrow> 'w \<Rightarrow> int \<times> (int \<times> bytes \<times> 16 word) \<times> 'w"
  m_errno :: "'w \<Rightarrow> int"
  m_s1_exists :: bool
  m_s0_active :: "'w \<Rightarrow> int \<times> bool"
  m_s_address :: "bool \<Rightarrow> 32 word"
  m_fw_version :: "32 word \<Rightarrow> 'w \<Rightarrow> int \<times> 32 word"

section \<open>Commands sent by the application\<close>

fun cmd_name_has_lower :: "string \<Rightarrow> bool" where
  "cmd_name_has_lower [] = False"
| "cmd_name_has_lower (c # cs) =
     (if c = CHR ''='' \<or> c = CHR ''?'' then False else if c_islower c then True else cmd_name_has_lower cs)"

text \<open>\<open>s\<close> is the text that the format and its arguments give.\<close>

definition sm_util_at_printf :: "'w util_env \<Rightarrow> string \<Rightarrow> 'w \<Rightarrow> int \<times> 'w" where
  "sm_util_at_printf E s w =
     (if 128 \<le> length s then (- E2BIG, w)
      else if cmd_name_has_lower s then (- EINVAL, w)
      else case m_at_cmd E 128 s w of (ret, buf, w) \<Rightarrow> (ret, w))"

definition sm_util_at_scanf :: "'w util_env \<Rightarrow> string \<Rightarrow> scan_dir list \<Rightarrow> 'w \<Rightarrow> (int \<times> scan_val list) \<times> 'w" where
  "sm_util_at_scanf E cmd fmt w =
     (if cmd_name_has_lower cmd then ((- EINVAL, []), w)
      else case m_at_cmd E 256 cmd w of (ret, buf, w) \<Rightarrow>
        if ret < 0 \<and> ret \<noteq> - E2BIG then ((ret, []), w)
        else
          let buf = (if ret = - E2BIG then cstr (take 255 buf) else cstr buf)
          in case c_sscanf buf fmt of (ret, vs) \<Rightarrow> ((if ret = 0 then - EBADMSG else ret, vs), w))"

text \<open>\<open>buf\<close> is the string in a buffer of \<open>len\<close> bytes.\<close>

definition terminate_at_response :: "string \<Rightarrow> nat \<Rightarrow> string \<Rightarrow> int \<Rightarrow> int \<times> string" where
  "terminate_at_response buf len termination_str success_ret =
     (let len = len - length buf
      in (if len \<le> length termination_str then - E2BIG else success_ret, buf @ take (len - 1) termination_str))"

text \<open>\<open>NRF_MODEM_AT_ERROR << 16\<close>.\<close>

abbreviation (input) AT_ERROR :: int where "AT_ERROR \<equiv> 65536"

definition sm_util_at_cmd_no_intercept :: "'w util_env \<Rightarrow> nat \<Rightarrow> string \<Rightarrow> 'w \<Rightarrow> (int \<times> string) \<times> 'w" where
  "sm_util_at_cmd_no_intercept E len at_cmd w =
     (case m_at_scanf E (len - 1) 15 at_cmd w of (line_count, buf, second_line, w) \<Rightarrow>
        if line_count < 1 then ((line_count, buf), w)
        else
          let resp_str = (if line_count = 1 then buf else second_line)
          in if resp_str = ''OK'' then
               (terminate_at_response buf len (if line_count = 1 then CRLF_STR else CRLF_STR @ ''OK'' @ CRLF_STR) 0, w)
             else
               let buf = (if line_count = 1 \<and> strstr_pos resp_str ''ERROR'' \<noteq> None then buf else [])
               in (terminate_at_response buf len (if buf \<noteq> [] then CRLF_STR else ''ERROR'' @ CRLF_STR) AT_ERROR, w))"

section \<open>Strings and numbers\<close>

fun casecmp_loop :: "string \<Rightarrow> string \<Rightarrow> bool" where
  "casecmp_loop (a # as) (b # bs) = (if c_toupper a \<noteq> c_toupper b then False else casecmp_loop as bs)"
| "casecmp_loop as bs = True"

definition sm_util_casecmp :: "string \<Rightarrow> string \<Rightarrow> bool" where
  "sm_util_casecmp str1 str2 = (if length str1 \<noteq> length str2 then False else casecmp_loop str1 str2)"

text \<open>\<open>got\<close> is what \<open>at_parser_string_get\<close> did: its result and the bytes it copied into the \<open>sz\<close>
  bytes of the value. The value is the C string there.\<close>

definition util_string_get :: "int \<times> bytes \<Rightarrow> nat \<Rightarrow> int \<times> string" where
  "util_string_get got sz =
     (case got of (ret, value) \<Rightarrow>
        if ret \<noteq> 0 then (ret, [])
        else if length value < sz then (0, cstr value)
        else (- ENOMEM, []))"

definition util_str_to_int :: "string \<Rightarrow> nat \<Rightarrow> int + int" where
  "util_str_to_int str_buf base =
     (case c_strtol str_buf base of (temp, erange, end_ptr) \<Rightarrow>
        if end_ptr = str_buf \<or> end_ptr \<noteq> [] \<or> ((temp = LONG_MAX \<or> temp = LONG_MIN) \<and> erange) then Inl (- ENODATA)
        else Inr temp)"

section \<open>Addresses\<close>

abbreviation (input) AF_INET :: int where "AF_INET \<equiv> 1"
abbreviation (input) AF_INET6 :: int where "AF_INET6 \<equiv> 2"

definition int_at :: "scan_val list \<Rightarrow> nat \<Rightarrow> int" where
  "int_at vs i = (if i < length vs then case vs ! i of VInt v \<Rightarrow> v | VStr s \<Rightarrow> 0 else 0)"

definition str_at :: "scan_val list \<Rightarrow> nat \<Rightarrow> string" where
  "str_at vs i = (if i < length vs then case vs ! i of VInt v \<Rightarrow> [] | VStr s \<Rightarrow> s else [])"

definition hex_upper :: "char \<Rightarrow> bool" where
  "hex_upper c \<longleftrightarrow> c_isdigit c \<or> (65 \<le> byte_val c \<and> byte_val c \<le> 70)"

definition hex_any :: "char \<Rightarrow> bool" where
  "hex_any c \<longleftrightarrow> hex_upper c \<or> (97 \<le> byte_val c \<and> byte_val c \<le> 102)"

definition cgpaddr_fmt :: "scan_dir list" where
  "cgpaddr_fmt = slits ''+CGPADDR:'' @ [SSpace, SDec False] @ slits [CHR '','', DQUOTE] @
     [SSet True 45 (\<lambda>c. c = CHR ''.'' \<or> c = CHR '':'' \<or> hex_upper c)] @ slits [DQUOTE, CHR '','', DQUOTE] @
     [SSet True 45 (\<lambda>c. c = CHR '':'' \<or> hex_upper c)] @ slits [DQUOTE]"

text \<open>\<open>addr4\<close> and \<open>addr6\<close>: whether the caller passed a buffer. The results are the strings in them.\<close>

definition util_get_ip_addr :: "'w util_env \<Rightarrow> int \<Rightarrow> bool \<Rightarrow> bool \<Rightarrow> 'w \<Rightarrow> (string \<times> string) \<times> 'w" where
  "util_get_ip_addr E cid addr4 addr6 w =
     (case sm_util_at_scanf E (''AT+CGPADDR='' @ show_int cid) cgpaddr_fmt w of ((ret, vs), w) \<Rightarrow>
        if ret \<le> 0 then (([], []), w)
        else
          let addr1 = str_at vs 0; addr2 = str_at vs 1;
              second = (if \<not> addr6 then [] else if 1 < ret \<and> fst (m_inet_pton E True addr2) = 1 then addr2 else [])
          in if addr4 \<and> fst (m_inet_pton E False addr1) = 1 then ((addr1, second), w)
             else if addr6 \<and> fst (m_inet_pton E True addr1) = 1 then (([], addr1), w)
             else (([], second), w))"

abbreviation (input) DNS_EAI_AGAIN :: int where "DNS_EAI_AGAIN \<equiv> - 3"
abbreviation (input) DNS_EAI_ADDRFAMILY :: int where "DNS_EAI_ADDRFAMILY \<equiv> - 9"
abbreviation (input) DNS_EAI_SYSTEM :: int where "DNS_EAI_SYSTEM \<equiv> - 11"

text \<open>\<open>sa\<close>: whether the caller passed a destination. The service buffer holds eight characters.\<close>

definition util_resolve_host ::
  "'w util_env \<Rightarrow> int \<Rightarrow> string \<Rightarrow> 16 word \<Rightarrow> int \<Rightarrow> bool \<Rightarrow> 'w \<Rightarrow> (int \<times> (int \<times> bytes \<times> 16 word) option) \<times> 'w" where
  "util_resolve_host E cid host port family sa w =
     (if \<not> sa then ((DNS_EAI_AGAIN, None), w)
      else case m_getaddrinfo E host (take 8 (show_nat (unat port) @ '':'' @ show_int cid)) family w of (err, ai, w) \<Rightarrow>
        let dest = (if err = 0 then Some ai else None);
            err = (if err = 0 \<and> fst ai \<noteq> AF_INET \<and> fst ai \<noteq> AF_INET6 then DNS_EAI_ADDRFAMILY else err)
        in ((if err = DNS_EAI_SYSTEM then m_errno E w else err, dest), w))"

definition util_get_peer_addr :: "'w util_env \<Rightarrow> int \<times> bytes \<times> 16 word \<Rightarrow> 'w \<Rightarrow> int \<times> string \<times> 16 word" where
  "util_get_peer_addr E peer w =
     (case peer of (family, addr, port) \<Rightarrow>
        case m_inet_ntop E (family \<noteq> AF_INET) addr of
          None \<Rightarrow> (- m_errno E w, [], port)
        | Some s \<Rightarrow> (0, s, port))"

section \<open>Queries about the connection\<close>

definition sm_util_pdn_id_get :: "'w util_env \<Rightarrow> nat \<Rightarrow> 'w \<Rightarrow> int \<times> 'w" where
  "sm_util_pdn_id_get E cid w =
     (case sm_util_at_scanf E (''AT%XGETPDNID='' @ show_nat cid) (slits ''%XGETPDNID:'' @ [SSpace, SDec True]) w of ((ret, vs), w) \<Rightarrow>
        if ret < 0 then (ret, w) else (int_at vs 0, w))"

definition pdn_sa_family_from_ip_string :: "'w util_env \<Rightarrow> string \<Rightarrow> int" where
  "pdn_sa_family_from_ip_string E src =
     (if fst (m_inet_pton E False src) \<noteq> 0 then AF_INET
      else if fst (m_inet_pton E True src) \<noteq> 0 then AF_INET6
      else - 1)"

record sm_pdn_dynamic_info =
  ipv4_mtu :: "32 word"
  ipv6_mtu :: "32 word"
  dns_addr4_primary :: bytes
  dns_addr4_secondary :: bytes
  dns_addr6_primary :: bytes
  dns_addr6_secondary :: bytes

definition pdn_info_zero :: sm_pdn_dynamic_info where
  "pdn_info_zero = \<lparr>ipv4_mtu = 0, ipv6_mtu = 0, dns_addr4_primary = replicate 4 NUL, dns_addr4_secondary = replicate 4 NUL,
     dns_addr6_primary = replicate 16 NUL, dns_addr6_secondary = replicate 16 NUL\<rparr>"

text \<open>The destination of \<open>inet_pton\<close> is written when it succeeds.\<close>

definition pton_into :: "'w util_env \<Rightarrow> bool \<Rightarrow> string \<Rightarrow> bytes \<Rightarrow> bytes" where
  "pton_into E v6 s old = (case m_inet_pton E v6 s of (ret, a) \<Rightarrow> if ret = 1 then a else old)"

definition pdn_dynamic_info_dns_addr_fill ::
  "'w util_env \<Rightarrow> 32 word \<Rightarrow> string \<Rightarrow> string \<Rightarrow> sm_pdn_dynamic_info \<Rightarrow> sm_pdn_dynamic_info" where
  "pdn_dynamic_info_dns_addr_fill E mtu primary secondary info =
     (let family = pdn_sa_family_from_ip_string E primary
      in if family = AF_INET then
           info\<lparr>dns_addr4_primary := pton_into E False primary (dns_addr4_primary info),
                dns_addr4_secondary := pton_into E False secondary (dns_addr4_secondary info), ipv4_mtu := mtu\<rparr>
         else if family = AF_INET6 then
           info\<lparr>dns_addr6_primary := pton_into E True primary (dns_addr6_primary info),
                dns_addr6_secondary := pton_into E True secondary (dns_addr6_secondary info), ipv6_mtu := mtu\<rparr>
         else info)"

text \<open>The two formats for an answer line of \<open>AT+CGCONTRDP\<close>; the second one skips the first line. The
  first argument is the set of characters of an address, the second its width.\<close>

definition cgcontrdp_fmt :: "(char \<Rightarrow> bool) \<Rightarrow> nat \<Rightarrow> scan_dir list" where
  "cgcontrdp_fmt A n = slits ''+CGCONTRDP:'' @ [SSpace, SDec False] @ slits [CHR '','', CHR '','', DQUOTE] @
     [SSet False 2147483647 (\<lambda>c. c \<noteq> DQUOTE)] @
     slits [DQUOTE, CHR '','', DQUOTE, DQUOTE, CHR '','', DQUOTE, DQUOTE, CHR '','', DQUOTE] @ [SSet True n A] @
     slits [DQUOTE, CHR '','', DQUOTE] @ [SSet True n A] @ slits (DQUOTE # '',,,,,'') @ [SDec True]"

definition cgcontrdp_line1 :: "scan_dir list" where
  "cgcontrdp_line1 = cgcontrdp_fmt (\<lambda>c. c_isdigit c \<or> c = CHR ''.'') 15"

definition cgcontrdp_line2 :: "scan_dir list" where
  "cgcontrdp_line2 = slits ''+'' @ [SSet False 2147483647 (\<lambda>c. c \<noteq> CHR ''+'')] @ cgcontrdp_fmt (\<lambda>c. hex_any c \<or> c = CHR '':'') 39"

definition sm_util_pdn_dynamic_info_get :: "'w util_env \<Rightarrow> nat \<Rightarrow> 'w \<Rightarrow> (int \<times> sm_pdn_dynamic_info) \<times> 'w" where
  "sm_util_pdn_dynamic_info_get E cid w =
     (let at_cmd_buf = ''AT+CGCONTRDP='' @ show_nat cid
      in case sm_util_at_scanf E at_cmd_buf cgcontrdp_line1 w of ((ret, vs), w) \<Rightarrow>
        if ret < 1 then ((ret, pdn_info_zero), w)
        else
          let info = pdn_dynamic_info_dns_addr_fill E (word_of_int (int_at vs 2)) (str_at vs 0) (str_at vs 1) pdn_info_zero
          in case sm_util_at_scanf E at_cmd_buf cgcontrdp_line2 w of ((ret, vs), w) \<Rightarrow>
            if ret < 1 then ((0, info), w)
            else ((0, pdn_dynamic_info_dns_addr_fill E (word_of_int (int_at vs 2)) (str_at vs 0) (str_at vs 1) info), w))"

definition sm_util_cfun_get :: "'w util_env \<Rightarrow> 'w \<Rightarrow> int \<times> 'w" where
  "sm_util_cfun_get E w =
     (case sm_util_at_scanf E ''AT+CFUN?'' (slits ''+CFUN:'' @ [SSpace, SDec True]) w of ((ret, vs), w) \<Rightarrow>
        if ret < 0 then (ret, w) else (int_at vs 0, w))"

definition sm_util_cfun_is_lte_enabled :: "'w util_env \<Rightarrow> 'w \<Rightarrow> bool \<times> 'w" where
  "sm_util_cfun_is_lte_enabled E w =
     (case sm_util_cfun_get E w of (cfun_mode, w) \<Rightarrow> if cfun_mode < 0 then (False, w) else (cfun_mode = 1 \<or> cfun_mode = 21, w))"

definition sm_util_cereg_get :: "'w util_env \<Rightarrow> 'w \<Rightarrow> int \<times> 'w" where
  "sm_util_cereg_get E w =
     (case sm_util_at_scanf E ''AT+CEREG?'' (slits ''+CEREG:'' @ [SSpace, SDec False] @ slits '','' @ [SDec True]) w of ((ret, vs), w) \<Rightarrow>
        if ret < 0 then (ret, w) else (int_at vs 0, w))"

definition sm_util_cereg_is_registered :: "'w util_env \<Rightarrow> 'w \<Rightarrow> bool \<times> 'w" where
  "sm_util_cereg_is_registered E w = (case sm_util_cereg_get E w of (creg_stat, w) \<Rightarrow> (creg_stat = 1 \<or> creg_stat = 5, w))"

definition sm_util_is_cid_active :: "'w util_env \<Rightarrow> nat \<Rightarrow> 'w \<Rightarrow> bool \<times> 'w" where
  "sm_util_is_cid_active E cid w =
     (case sm_util_at_scanf E (''AT+CGPADDR='' @ show_nat cid) (slits ''+CGPADDR:'' @ [SSpace, SDec True]) w of ((ret, vs), w) \<Rightarrow>
        (ret = 1 \<and> int_at vs 0 = int cid, w))"

section \<open>The boot loader's slots\<close>

definition sm_util_mcuboot_active_slot :: "'w util_env \<Rightarrow> 'w \<Rightarrow> int" where
  "sm_util_mcuboot_active_slot E w =
     (if m_s1_exists E then case m_s0_active E w of (err, s0_active) \<Rightarrow> if err \<noteq> 0 then err else if s0_active then 0 else 1
      else - ENOTSUP)"

definition sm_util_mcuboot_active_version :: "'w util_env \<Rightarrow> 'w \<Rightarrow> int \<times> 32 word option" where
  "sm_util_mcuboot_active_version E w =
     (if m_s1_exists E then
        case m_s0_active E w of (err, s0_active) \<Rightarrow>
          if err \<noteq> 0 then (err, None)
          else case m_fw_version E (m_s_address E s0_active) w of (err, version) \<Rightarrow> if err \<noteq> 0 then (err, None) else (0, Some version)
      else (- ENOTSUP, None))"

section \<open>Facts about the scanning of answers\<close>

lemma space_no_digit [simp]: "c_isspace CHR '' ''" "\<not> c_isdigit CR" "\<not> c_isdigit CHR '',''"
  by (simp_all add: c_isspace_def c_isdigit_def byte_val_def)

lemma show_int_no_space: "dropWhile c_isspace (show_int i @ r) = show_int i @ r"
proof -
  obtain s where "\<forall>c\<in>set s. c_isdigit c" "s \<noteq> []" "show_int i = (if i < 0 then CHR ''-'' # s else s)" by (rule show_int_split)
  then show ?thesis using c_sign_digits by auto
qed

text \<open>A decimal number behind a blank, and a run of characters up to the end of the run.\<close>

lemma scan_blank_dec:
  assumes "r = [] \<or> \<not> c_isdigit (hd r)"
  shows "scan_loop (SSpace # SDec st # ds) (CHR '' '' # show_int i @ r) conv vs = scan_loop ds r True (if st then vs @ [VInt (int32_clamp i)] else vs)"
  using scan_dec_show_int [OF assms, of i] by (simp add: show_int_no_space)

lemma scan_dec_next:
  assumes "r = [] \<or> \<not> c_isdigit (hd r)"
  shows "scan_loop (SDec st # ds) (show_int i @ r) conv vs = scan_loop ds r True (if st then vs @ [VInt (int32_clamp i)] else vs)"
  using scan_dec_show_int [OF assms, of i] by simp

lemma scan_set_run:
  assumes "\<forall>c\<in>set x. P c" and "x \<noteq> []" and "length x \<le> n" and "r = [] \<or> \<not> P (hd r)"
  shows "scan_loop (SSet st n P # ds) (x @ r) conv vs = scan_loop ds r True (if st then vs @ [VStr x] else vs)"
  using takeWhile_append_stop [OF assms(1,4)] assms(2,3) by (simp add: scan_set_def)

lemma at_scanf_ok:
  assumes "m_at_cmd E 256 cmd w = (0, buf, w')" and "no_nul buf" and "\<not> cmd_name_has_lower cmd"
  shows "sm_util_at_scanf E cmd fmt w =
    ((if fst (c_sscanf buf fmt) = 0 then - EBADMSG else fst (c_sscanf buf fmt), snd (c_sscanf buf fmt)), w')"
  using assms by (simp add: sm_util_at_scanf_def case_prod_unfold)

lemma upper_cmds:
  "\<not> cmd_name_has_lower ''AT+CFUN?''" "\<not> cmd_name_has_lower ''AT+CEREG?''" "\<not> cmd_name_has_lower (''AT+CGCONTRDP='' @ x)"
  by (simp_all add: c_islower_def byte_val_def)

lemma casecmp_loop_iff: "length a = length b \<Longrightarrow> casecmp_loop a b \<longleftrightarrow> map c_toupper a = map c_toupper b"
  by (induction a b rule: casecmp_loop.induct) auto

section \<open>Properties\<close>

text \<open>Parsing an integer accepts exactly the decimal text of the values of a 32-bit int, with the
  right value, and refuses every other number and every number with text behind it.\<close>

lemma util_str_to_int_exact:
  "util_str_to_int (show_int i) 10 = (if LONG_MIN \<le> i \<and> i \<le> LONG_MAX then Inr i else Inl (- ENODATA)) \<and>
   util_str_to_int (show_int i @ ''x'' @ r) 10 = Inl (- ENODATA)"
proof -
  have "\<not> base_digit 10 CHR ''x''" by (simp add: base_digit_def ctype_defs c_toupper_def)
  then have s: "c_strto 10 (show_int i) = Some (i < 0, nat \<bar>i\<bar>, [])" "c_strto 10 (show_int i @ ''x'' @ r) = Some (i < 0, nat \<bar>i\<bar>, ''x'' @ r)"
    using c_strto_show_int [of "[]" i] c_strto_show_int [of "''x'' @ r" i] by simp_all
  have "show_int i \<noteq> []" by (simp add: show_int_def)
  then show ?thesis unfolding util_str_to_int_def c_strtol_def s by (auto simp: Let_def)
qed

text \<open>C37: What the modem answers is what the application's queries return: the functional mode and the
  registration status are the numbers of the answer, whatever follows them, and LTE counts as enabled
  and the device as registered for exactly the listed values. This is for the answers that the modem
  documents: the command succeeds, its line is the first of the answer, and the numbers are not
  negative and fit the int of 32 bits that they are read into.\<close>

theorem queries_read_modem:
  assumes "m_at_cmd E 256 ''AT+CFUN?'' w = (0, ''+CFUN: '' @ show_int n @ CRLF_STR @ x, w1)" and "no_nul x" and "0 \<le> n" and "n \<le> LONG_MAX"
    and "m_at_cmd E 256 ''AT+CEREG?'' w = (0, ''+CEREG: '' @ show_int k @ '','' @ show_int s @ CRLF_STR @ y, w2)" and "no_nul y" and "0 \<le> s" and "s \<le> LONG_MAX"
  shows "sm_util_cfun_get E w = (n, w1) \<and> sm_util_cfun_is_lte_enabled E w = (n = 1 \<or> n = 21, w1) \<and>
    sm_util_cereg_get E w = (s, w2) \<and> sm_util_cereg_is_registered E w = (s = 1 \<or> s = 5, w2)"
proof -
  have nn: "no_nul (show_int i)" for i by (auto simp: no_nul_def show_int_def dest: bspec [OF show_nat_digits] simp: c_isdigit_def byte_val_def)
  have "c_sscanf (''+CFUN: '' @ show_int n @ CRLF_STR @ x) (slits ''+CFUN:'' @ [SSpace, SDec True]) = (1, [VInt n])"
    using assms(3,4) scan_lits [of "''+CFUN:''" "[SSpace, SDec True]" "CHR '' '' # show_int n @ CRLF_STR @ x" False "[]"]
      scan_blank_dec [of "CRLF_STR @ x" True "[]" n False "[]"] by (simp add: c_sscanf_def del: scan_lits)
  then have c: "sm_util_cfun_get E w = (n, w1)" using assms(1,2) at_scanf_ok [OF assms(1)] nn upper_cmds
    by (simp add: sm_util_cfun_get_def int_at_def)
  have "c_sscanf (''+CEREG: '' @ show_int k @ '','' @ show_int s @ CRLF_STR @ y) (slits ''+CEREG:'' @ [SSpace, SDec False] @ slits '','' @ [SDec True]) = (1, [VInt s])"
    using assms(7,8) scan_lits [of "''+CEREG:''" "[SSpace, SDec False] @ slits '','' @ [SDec True]" "CHR '' '' # show_int k @ '','' @ show_int s @ CRLF_STR @ y" False "[]"]
      scan_blank_dec [of "'','' @ show_int s @ CRLF_STR @ y" False "slits '','' @ [SDec True]" k False "[]"]
      scan_dec_next [of "CRLF_STR @ y" True "[]" s True "[]"] by (simp add: c_sscanf_def del: scan_lits)
  then have "sm_util_cereg_get E w = (s, w2)" using assms(5,6) at_scanf_ok [OF assms(5)] nn upper_cmds
    by (simp add: sm_util_cereg_get_def int_at_def)
  with c show ?thesis using assms(3) by (simp add: sm_util_cfun_is_lte_enabled_def sm_util_cereg_is_registered_def)
qed

text \<open>The response that is rebuilt for a forwarded command always fits its buffer; it reports
  success exactly if the modem's last line is OK and the whole text fits, and then it is the modem's
  answer; every other outcome is an error code.\<close>

lemma forwarded_response_fits:
  assumes "m_at_scanf E (len - 1) 15 cmd w = (n, l1, l2, w')" and "1 \<le> n" and "length l1 < len"
    and "sm_util_at_cmd_no_intercept E len cmd w = ((ret, out), w'')"
  shows "length out < len \<and>
    (ret = 0 \<longleftrightarrow> (if n = 1 then l1 = ''OK'' \<and> 4 < len else l2 = ''OK'' \<and> length l1 + 6 < len)) \<and>
    (ret = 0 \<longrightarrow> out = (if n = 1 then ''OK'' @ CRLF_STR else l1 @ CRLF_STR @ ''OK'' @ CRLF_STR)) \<and>
    (ret \<noteq> 0 \<longrightarrow> ret = AT_ERROR \<or> ret = - E2BIG)"
proof -
  have fit: "length (snd (terminate_at_response b len t r)) < len" if "length b < len" for b t r
    using that by (auto simp: terminate_at_response_def Let_def)
  show ?thesis
  proof (cases "(if n = 1 then l1 else l2) = ''OK''")
    case True
    then have "(ret, out) = terminate_at_response l1 len (if n = 1 then CRLF_STR else CRLF_STR @ ''OK'' @ CRLF_STR) 0"
      using assms(1,2,4) by (auto simp: sm_util_at_cmd_no_intercept_def Let_def split: if_splits)
    then show ?thesis using True assms(3) fit [of l1] by (auto simp: terminate_at_response_def Let_def split: if_splits)
  next
    case False
    define b where "b = (if n = 1 \<and> strstr_pos (if n = 1 then l1 else l2) ''ERROR'' \<noteq> None then l1 else [])"
    have "(ret, out) = terminate_at_response b len (if b \<noteq> [] then CRLF_STR else ''ERROR'' @ CRLF_STR) AT_ERROR"
      using False assms(1,2,4) by (simp add: sm_util_at_cmd_no_intercept_def Let_def b_def)
    moreover have "length b < len" using assms(3) by (simp add: b_def)
    ultimately show ?thesis using False fit [of b] by (auto simp: terminate_at_response_def Let_def split: if_splits)
  qed
qed

text \<open>For a PDN context whose only DNS address is an IPv6 address that starts with a decimal digit,
  the information that is returned as a success is empty: the first format reads the leading digits
  as an address, which is none, and the second format needs a second line.\<close>

lemma pdn_info_ipv6_only_lost:
  fixes cid :: nat and apn ds tail :: string
  defines "text \<equiv> ''+CGCONTRDP: '' @ show_nat cid @ [CHR '','', CHR '','', DQUOTE] @ apn @
    [DQUOTE, CHR '','', DQUOTE, DQUOTE, CHR '','', DQUOTE, DQUOTE, CHR '','', DQUOTE] @ ds @ CHR '':'' # tail"
  assumes "\<And>w. m_at_cmd E 256 (''AT+CGCONTRDP='' @ show_nat cid) w = (0, text, w)"
    and "apn \<noteq> []" and "DQUOTE \<notin> set apn" and "CHR ''+'' \<notin> set (apn @ tail)" and "no_nul (apn @ tail)"
    and "\<forall>c\<in>set ds. c_isdigit c" and "ds \<noteq> []" and "length ds \<le> 15" and "length text \<le> 255"
    and "\<And>v6. fst (m_inet_pton E v6 ds) = 0"
  shows "sm_util_pdn_dynamic_info_get E cid w = ((0, pdn_info_zero), w)"
proof -
  let ?dots = "\<lambda>c. c_isdigit c \<or> c = CHR ''.''" and ?big = "2147483647 :: nat"
  let ?apn2 = "[DQUOTE, CHR '','', DQUOTE, DQUOTE, CHR '','', DQUOTE, DQUOTE, CHR '','', DQUOTE]"
  have sn: "show_nat cid = show_int (int cid)" by (simp add: show_int_def)
  have dig: "c \<noteq> CHR ''+'' \<and> c \<noteq> NUL" if "c_isdigit c" for c using that by (auto simp: c_isdigit_def byte_val_def)
  have nn: "no_nul text" using assms(6,7) dig show_nat_digits [of cid] by (auto simp: text_def no_nul_def)
  have q: "\<not> c_isdigit DQUOTE" "\<not> c_isdigit CHR '':''" by (simp_all add: c_isdigit_def byte_val_def)
  have apn: "\<forall>c\<in>set apn. c \<noteq> DQUOTE" using assms(4) by auto
  have "c_sscanf text cgcontrdp_line1 = (1, [VStr ds])"
  proof -
    have "c_sscanf text cgcontrdp_line1 = scan_loop (SSet True 15 ?dots # slits [DQUOTE, CHR '','', DQUOTE] @ [SSet True 15 ?dots] @ slits (DQUOTE # '',,,,,'') @ [SDec True]) (ds @ CHR '':'' # tail) True []"
      using scan_set_run [of apn "\<lambda>c. c \<noteq> DQUOTE" ?big "?apn2 @ ds @ CHR '':'' # tail" False _ True "[]", OF apn assms(3)] assms(10)
        scan_blank_dec [of "[CHR '','', CHR '','', DQUOTE] @ apn @ ?apn2 @ ds @ CHR '':'' # tail" False _ "int cid" False "[]"]
      by (auto simp: c_sscanf_def text_def cgcontrdp_line1_def cgcontrdp_fmt_def sn simp del: scan_loop.simps(3-5))
    also have "\<dots> = (1, [VStr ds])"
      using scan_set_run [of ds ?dots 15 "CHR '':'' # tail" True _ True "[]"] assms(7-9) q by (simp del: scan_loop.simps(3-5))
    finally show ?thesis .
  qed
  moreover have "c_sscanf text cgcontrdp_line2 = (0, [])"
  proof -
    define t where "t = tl text"
    have "CHR ''+'' \<notin> set (show_nat cid)" "CHR ''+'' \<notin> set ds" using dig show_nat_digits assms(7) by blast+
    then have "CHR ''+'' \<notin> set t" using assms(5) by (simp add: t_def text_def)
    then have t: "text = CHR ''+'' # t" "\<forall>c\<in>set t. c \<noteq> CHR ''+''" "t \<noteq> []" by (auto simp: t_def text_def)
    then have "length t \<le> ?big" using assms(10) by simp
    from scan_set_run [of t "\<lambda>c. c \<noteq> CHR ''+''" ?big "[]" False "cgcontrdp_fmt (\<lambda>c. hex_any c \<or> c = CHR '':'') 39" False "[]", OF t(2,3) this]
    show ?thesis by (simp add: c_sscanf_def t(1) cgcontrdp_line2_def cgcontrdp_fmt_def del: scan_loop.simps(3-5))
  qed
  moreover have "pdn_dynamic_info_dns_addr_fill E m ds x i = i" for m x i
    using assms(11) by (simp add: pdn_dynamic_info_dns_addr_fill_def pdn_sa_family_from_ip_string_def)
  ultimately show ?thesis using at_scanf_ok [OF assms(2) nn upper_cmds(3)]
    by (simp add: sm_util_pdn_dynamic_info_get_def str_at_def Let_def)
qed

end
