(* ===== verification/Util_Demo.thy ===== *)
theory Util_Demo
  imports Sm_Util
begin

text \<open>
  A modem with fixed answers, and the theorems about the utilities on it.
\<close>

definition ipv6_answer :: string where
  "ipv6_answer = ''+CGCONTRDP: '' @ show_nat 0 @ [CHR '','', CHR '','', DQUOTE] @ ''iot'' @
    [DQUOTE, CHR '','', DQUOTE, DQUOTE, CHR '','', DQUOTE, DQUOTE, CHR '','', DQUOTE] @ ''2001'' @ CHR '':'' # '':1''"

definition fixed_modem :: "unit util_env" where
  "fixed_modem = \<lparr>m_at_cmd = (\<lambda>len cmd w.
       (0, if cmd = ''AT+CFUN?'' then ''+CFUN: '' @ show_int 1 @ CRLF_STR @ ''OK''
           else if cmd = ''AT+CEREG?'' then ''+CEREG: '' @ show_int 5 @ '','' @ show_int 2 @ CRLF_STR @ ''OK''
           else ipv6_answer, w)),
     m_at_scanf = (\<lambda>n m cmd w. (2, ''+CFUN: 1'', ''OK'', w)), m_inet_pton = (\<lambda>v6 s. (0, [])), m_inet_ntop = (\<lambda>v6 a. None),
     m_getaddrinfo = (\<lambda>h s f w. (0, (1, [], 0), w)), m_errno = (\<lambda>w. 0), m_s1_exists = False, m_s0_active = (\<lambda>w. (0, True)),
     m_s_address = (\<lambda>b. 0), m_fw_version = (\<lambda>a w. (0, 0))\<rparr>"

theorem queries_read_modem_witness:
  "sm_util_cfun_is_lte_enabled fixed_modem () = (True, ()) \<and> sm_util_cereg_is_registered fixed_modem () = (False, ())"
  using queries_read_modem [of fixed_modem "()" 1 "''OK''" "()" 5 2 "''OK''" "()"] by (simp add: fixed_modem_def)

end
