(* ===== verification/Link_State.thy ===== *)
theory Link_State
  imports At_Host_Life Sm_Util
begin

text \<open>
  The state of the modules that take pipes from the AT host and give them back: the PPP link
  (\<open>app/src/sm_ppp.c\<close>), the multiplexer (\<open>app/src/sm_cmux.c\<close>) and the trace backend on a channel of
  the multiplexer (\<open>app/src/sm_trace_backend_cmux.c\<close>). Their static variables are one record, kept in
  the world of the AT host, so that their AT commands are commands of the host; what is outside of the
  repository (sockets, the network interface, the kernel's PPP and CMUX modules) is a record of functions
  on the rest of the world. The pointer of the multiplexer to the UART pipe and its table of channel
  pipes are in the state of the host, which reads them.
\<close>

section \<open>State\<close>

datatype ppp_action = PPP_START | PPP_RESTART | PPP_STOP
datatype ppp_reason = PPP_REASON_CMD | PPP_REASON_NETWORK | PPP_REASON_ERROR | PPP_REASON_PEER_DISCONNECTED

record ppp_event =
  pe_action :: ppp_action
  pe_reason :: ppp_reason

datatype ppp_states = PPP_STATE_STOPPED | PPP_STATE_STARTING | PPP_STATE_RUNNING | PPP_STATE_STOPPING

text \<open>The addresses that the PPP interface negotiates, and the protocols of a packet.\<close>

record ppp_context =
  pc_my_address :: bytes
  pc_my_dns1 :: bytes
  pc_my_dns2 :: bytes
  pc_peer_dns1 :: bytes
  pc_peer_dns2 :: bytes

datatype eth_p = ETH_P_ALL | ETH_P_IP | ETH_P_IPV6

record link_state =
  ppp_auto_start :: bool
  ppp_detach_at_pipe :: bool
  ppp_keep_pipe_attached :: bool
  ppp_pipe :: "pipe option"
  ppp_urc_pipe :: "pipe option"
  ppp_queue :: "ppp_event list"
  ppp_peer_connected :: bool
  ppp_state :: ppp_states
  ppp_pdn_cid :: "32 word"
  ppp_event_fd :: int
  ppp_zephyr_fd :: int
  ppp_modem_fd :: int
  ppp_sll_protocol :: eth_p
  ppp_ctx :: ppp_context
  ppp_cgev_paused :: bool
  ppp_pdn_timeout :: nat
  ppp_activate_dwork :: bool
  ppp_init_failed :: bool
  cmux_at_channel :: nat
  cmux_stop_work :: bool
  trace_pipe :: "pipe option"
  trace_idle_sem :: bool

record 'v links =
  lk_st :: link_state
  lk_world :: 'v

text \<open>Operations of the network interface, and the two kinds of sockets.\<close>

datatype net_if_op = CarrierOn | CarrierOff | DormantOn | DormantOff | SetMtu nat | SetLinkAddr bytes
datatype ppp_sock = ZephyrPacketSocket | ModemRawSocket

text \<open>\<open>cfg_dns_fallback\<close> is the fallback address of the LTE link controller or of the DNS resolver,
  whichever is configured first. \<open>n_recv fd n\<close> returns the result and the bytes received. \<open>x_dlci_init i\<close>
  is the pipe of the channel, \<open>x_uart_pipe\<close> the one of the UART; \<open>x_sem_wait\<close> says whether the trace pipe gets idle
  before the timeout.\<close>

record 'v link_env =
  cfg_trace_cmux :: bool
  cfg_ppp_fallback_mtu :: nat
  cfg_dns_fallback :: "string option"
  n_util :: "'v util_env"
  n_socket :: "ppp_sock \<Rightarrow> 'v \<Rightarrow> int \<times> 'v"
  n_bind :: "int \<Rightarrow> 'v \<Rightarrow> int \<times> 'v"
  n_bind_to_pdn :: "int \<Rightarrow> int \<Rightarrow> 'v \<Rightarrow> int \<times> 'v"
  n_close :: "int \<Rightarrow> 'v \<Rightarrow> int \<times> 'v"
  n_recv :: "int \<Rightarrow> nat \<Rightarrow> 'v \<Rightarrow> (int \<times> bytes) \<times> 'v"
  n_sendto :: "int \<Rightarrow> bytes \<Rightarrow> eth_p option \<Rightarrow> 'v \<Rightarrow> int \<times> 'v"
  n_if_up :: "'v \<Rightarrow> int \<times> 'v"
  n_if_down :: "'v \<Rightarrow> int \<times> 'v"
  n_if_is_admin_up :: "'v \<Rightarrow> bool"
  n_if_set :: "net_if_op \<Rightarrow> 'v \<Rightarrow> 'v"
  n_ppp_attach :: "pipe \<Rightarrow> 'v \<Rightarrow> 'v"
  n_ppp_release :: "'v \<Rightarrow> 'v"
  n_rand32 :: "'v \<Rightarrow> 32 word \<times> 'v"
  n_eventfd :: "'v \<Rightarrow> int \<times> 'v"
  n_eventfd_write :: "int \<Rightarrow> 'v \<Rightarrow> int \<times> 'v"
  n_eventfd_read :: "int \<Rightarrow> 'v \<Rightarrow> int \<times> 'v"
  n_errno :: "'v \<Rightarrow> int"
  n_timepoint :: "nat \<Rightarrow> 'v \<Rightarrow> nat"
  n_expired :: "nat \<Rightarrow> 'v \<Rightarrow> bool"
  x_uart_pipe :: "pipe option"
  x_cmux_init :: "'v \<Rightarrow> 'v"
  x_dlci_init :: "nat \<Rightarrow> 'v \<Rightarrow> pipe \<times> 'v"
  x_cmux_attach :: "pipe \<Rightarrow> 'v \<Rightarrow> int \<times> 'v"
  x_cmux_release :: "'v \<Rightarrow> 'v"
  x_trace_processed :: "nat \<Rightarrow> 'v \<Rightarrow> 'v"
  x_sem_wait :: "'v \<Rightarrow> bool \<times> 'v"

text \<open>Access to the two parts of the world.\<close>

abbreviation lks :: "('rb, 'v links) host \<Rightarrow> link_state" where
  "lks h \<equiv> lk_st (h_world h)"

definition upd_lk :: "(link_state \<Rightarrow> link_state) \<Rightarrow> ('rb, 'v links) host \<Rightarrow> ('rb, 'v links) host" where
  "upd_lk f h = h\<lparr>h_world := (h_world h)\<lparr>lk_st := f (lks h)\<rparr>\<rparr>"

definition net_call :: "('v \<Rightarrow> 'a \<times> 'v) \<Rightarrow> ('rb, 'v links) host \<Rightarrow> 'a \<times> ('rb, 'v links) host" where
  "net_call f h =
     (case f (lk_world (h_world h)) of (r, v) \<Rightarrow> (r, h\<lparr>h_world := (h_world h)\<lparr>lk_world := v\<rparr>\<rparr>))"

definition net_do :: "('v \<Rightarrow> 'v) \<Rightarrow> ('rb, 'v links) host \<Rightarrow> ('rb, 'v links) host" where
  "net_do f h = h\<lparr>h_world := (h_world h)\<lparr>lk_world := f (lk_world (h_world h))\<rparr>\<rparr>"

text \<open>The release of a pipe from its user (\<open>modem_pipe_release\<close>).\<close>

definition pipe_release :: "pipe \<Rightarrow> ('rb, 'w) host \<Rightarrow> ('rb, 'w) host" where
  "pipe_release p h = pipe_attach p NoHandler h"

section \<open>What the operations leave unchanged\<close>

lemma upd_lk_sel [simp]:
  "lks (upd_lk f h) = f (lks h)" "lk_world (h_world (upd_lk f h)) = lk_world (h_world h)"
  "h_ctx (upd_lk f h) = h_ctx h" "h_instances (upd_lk f h) = h_instances h" "h_current (upd_lk f h) = h_current h"
  "h_pipe_cb (upd_lk f h) = h_pipe_cb h" "h_msgq (upd_lk f h) = h_msgq h" "h_works (upd_lk f h) = h_works h"
  "h_cmux_uart_pipe (upd_lk f h) = h_cmux_uart_pipe h" "h_cmux_dlcis (upd_lk f h) = h_cmux_dlcis h"
  "h_urc_channel (upd_lk f h) = h_urc_channel h" "h_fault (upd_lk f h) = h_fault h"
  "h_fwd_cgev_notifs (upd_lk f h) = h_fwd_cgev_notifs h"
  by (simp_all add: upd_lk_def)

lemma net_do_sel [simp]:
  "lks (net_do g h) = lks h" "lk_world (h_world (net_do g h)) = g (lk_world (h_world h))"
  "h_ctx (net_do g h) = h_ctx h" "h_instances (net_do g h) = h_instances h" "h_current (net_do g h) = h_current h"
  "h_pipe_cb (net_do g h) = h_pipe_cb h" "h_msgq (net_do g h) = h_msgq h" "h_works (net_do g h) = h_works h"
  "h_cmux_uart_pipe (net_do g h) = h_cmux_uart_pipe h" "h_cmux_dlcis (net_do g h) = h_cmux_dlcis h"
  "h_urc_channel (net_do g h) = h_urc_channel h" "h_fault (net_do g h) = h_fault h"
  "h_fwd_cgev_notifs (net_do g h) = h_fwd_cgev_notifs h"
  by (simp_all add: net_do_def)

lemma net_call_split: "net_call f h = (fst (f (lk_world (h_world h))), net_do (\<lambda>v. snd (f v)) h)"
  by (simp add: net_call_def net_do_def split: prod.split)

end
