(* ===== verification/Sm_Ppp.thy ===== *)
theory Sm_Ppp
  imports Link_State
begin

unbundle bit_operations_syntax

text \<open>
  The PPP link (\<open>app/src/sm_ppp.c\<close>): start and stop of the link, the queue of events that the commands,
  the notifications and the network interface leave for the PPP thread, the thread's polling of its
  sockets with the forwarding of packets, the AT commands, the interception of \<open>AT+CGEREP\<close> and \<open>AT+CFUN\<close>,
  and the life of the pipe that the link borrows from the AT host.
\<close>

abbreviation (input) PPP_QUEUE_LEN :: nat where "PPP_QUEUE_LEN \<equiv> 4"
abbreviation (input) PPP_BUF_SIZE :: nat where "PPP_BUF_SIZE \<equiv> 1500"
abbreviation (input) PDN_ACTIVATION_TIMEOUT :: nat where "PDN_ACTIVATION_TIMEOUT \<equiv> 30"
abbreviation (input) CONNECT :: string where "CONNECT \<equiv> CRLF_STR @ ''CONNECT'' @ CRLF_STR"
abbreviation (input) NO_CARRIER :: string where "NO_CARRIER \<equiv> CRLF_STR @ ''NO CARRIER'' @ CRLF_STR"
abbreviation (input) POLLIN :: "16 word" where "POLLIN \<equiv> 1"

definition show_bool :: "bool \<Rightarrow> string" where
  "show_bool b = (if b then ''1'' else ''0'')"

section \<open>Sockets and addresses\<close>

definition sm_ppp_set_auto_start :: "bool \<Rightarrow> ('rb, 'v links) host \<Rightarrow> ('rb, 'v links) host" where
  "sm_ppp_set_auto_start enable h = upd_lk (\<lambda>s. s\<lparr>ppp_auto_start := enable\<rparr>) h"

definition open_ppp_sockets :: "'v link_env \<Rightarrow> ('rb, 'v links) host \<Rightarrow> bool \<times> ('rb, 'v links) host" where
  "open_ppp_sockets N h =
     (case net_call (n_socket N ZephyrPacketSocket) h of (zfd, h) \<Rightarrow>
        let h = upd_lk (\<lambda>s. s\<lparr>ppp_zephyr_fd := zfd\<rparr>) h
        in if zfd < 0 then (False, h)
           else
     (let h = upd_lk (\<lambda>s. s\<lparr>ppp_sll_protocol := ETH_P_ALL\<rparr>) h
      in case net_call (n_bind N zfd) h of (ret, h) \<Rightarrow>
        if ret < 0 then (False, h)
        else
     (case net_call (n_socket N ModemRawSocket) h of (mfd, h) \<Rightarrow>
        let h = upd_lk (\<lambda>s. s\<lparr>ppp_modem_fd := mfd\<rparr>) h
        in if mfd < 0 then (False, h)
           else
     (case net_call (sm_util_pdn_id_get (n_util N) (unat (ppp_pdn_cid (lks h)))) h of (pdn_id, h) \<Rightarrow>
        if pdn_id < 0 then (False, h)
        else case net_call (n_bind_to_pdn N mfd pdn_id) h of (ret, h) \<Rightarrow> (ret = 0, h)))))"

definition close_ppp_sockets :: "'v link_env \<Rightarrow> ('rb, 'v links) host \<Rightarrow> ('rb, 'v links) host" where
  "close_ppp_sockets N h =
     (let h = (if ppp_zephyr_fd (lks h) < 0 then h
               else upd_lk (\<lambda>s. s\<lparr>ppp_zephyr_fd := - 1\<rparr>) (snd (net_call (n_close N (ppp_zephyr_fd (lks h))) h)))
      in if ppp_modem_fd (lks h) < 0 then h
         else upd_lk (\<lambda>s. s\<lparr>ppp_modem_fd := - 1\<rparr>) (snd (net_call (n_close N (ppp_modem_fd (lks h))) h)))"

definition upd_pc :: "(ppp_context \<Rightarrow> ppp_context) \<Rightarrow> ('rb, 'v links) host \<Rightarrow> ('rb, 'v links) host" where
  "upd_pc f h = upd_lk (\<lambda>s. s\<lparr>ppp_ctx := f (ppp_ctx s)\<rparr>) h"

definition configure_ppp_link_ip_addresses ::
  "'v link_env \<Rightarrow> ('rb, 'v links) host \<Rightarrow> bool \<times> ('rb, 'v links) host" where
  "configure_ppp_link_ip_addresses N h =
     (case net_call (util_get_ip_addr (n_util N) (sint (ppp_pdn_cid (lks h))) True True) h of ((addr4, addr6), h) \<Rightarrow>
        case m_inet_pton (n_util N) False addr4 of (ret4, a4) \<Rightarrow>
        if (if addr4 \<noteq> [] then ret4 \<noteq> 1 else addr6 = []) then (False, h)
        else
          let h = (if addr4 \<noteq> [] then upd_pc (\<lambda>c. c\<lparr>pc_my_address := a4\<rparr>) h else h)
          in if addr6 \<noteq> [] then
               (case m_inet_pton (n_util N) True addr6 of (ret6, in6) \<Rightarrow>
                  if ret6 \<noteq> 1 then (False, h)
                  else (True, net_do (n_if_set N (SetLinkAddr (drop (length in6 - 8) in6))) h))
             else
               (case net_call (n_rand32 N) h of (r, h) \<Rightarrow>
                  (True, net_do (n_if_set N (SetLinkAddr
                    [NUL, NUL, CHR 0x5E, NUL, CHR 0x53, char_of (unat r mod 256)])) h)))"

definition delegate_ppp_event ::
  "'v link_env \<Rightarrow> ppp_action \<Rightarrow> ppp_reason \<Rightarrow> ('rb, 'v links) host \<Rightarrow> ('rb, 'v links) host" where
  "delegate_ppp_event N action reason h =
     (if PPP_QUEUE_LEN \<le> length (ppp_queue (lks h)) then h
      else
        let h = upd_lk (\<lambda>s. s\<lparr>ppp_queue := ppp_queue s @ [\<lparr>pe_action = action, pe_reason = reason\<rparr>]\<rparr>) h
        in snd (net_call (n_eventfd_write N (ppp_event_fd (lks h))) h))"

definition ppp_is_running :: "('rb, 'v links) host \<Rightarrow> bool" where
  "ppp_is_running h \<longleftrightarrow> ppp_state (lks h) = PPP_STATE_RUNNING"

definition sm_ppp_is_stopped :: "('rb, 'v links) host \<Rightarrow> bool" where
  "sm_ppp_is_stopped h \<longleftrightarrow> ppp_state (lks h) = PPP_STATE_STOPPED"

definition ppp_status :: "('rb, 'v links) host \<Rightarrow> string" where
  "ppp_status h = CRLF_STR @ ''#XPPP: '' @ show_bool (\<not> sm_ppp_is_stopped h) @ '','' @
     show_bool (ppp_peer_connected (lks h)) @ '','' @ show_nat (unat (ppp_pdn_cid (lks h))) @ CRLF_STR"

definition send_status_notification ::
  "('rb, 'v links) env \<Rightarrow> ('rb, 'v links) host \<Rightarrow> ('rb, 'v links) host" where
  "send_status_notification E h =
     (if ppp_urc_pipe (lks h) = None then h else urc_send_to E (ppp_urc_pipe (lks h)) (ppp_status h) h)"

definition ppp_start_failure :: "'v link_env \<Rightarrow> ('rb, 'v links) host \<Rightarrow> ('rb, 'v links) host" where
  "ppp_start_failure N h = snd (net_call (n_if_down N) (close_ppp_sockets N h))"

definition ppp_retrieve_pdn_info :: "'v link_env \<Rightarrow> ('rb, 'v links) host \<Rightarrow> ('rb, 'v links) host" where
  "ppp_retrieve_pdn_info N h =
     (case net_call (sm_util_pdn_dynamic_info_get (n_util N) (unat (ppp_pdn_cid (lks h)))) h of ((ret, info), h) \<Rightarrow>
        let mtu = (if ret = 0 then
                     (if ipv6_mtu info \<noteq> 0 then min (unat (ipv6_mtu info)) PPP_BUF_SIZE
                      else if ipv4_mtu info \<noteq> 0 then min (unat (ipv4_mtu info)) PPP_BUF_SIZE
                      else cfg_ppp_fallback_mtu N)
                   else cfg_ppp_fallback_mtu N);
            h = (if ret = 0 then
                   (if dns_addr4_primary info \<noteq> replicate 4 NUL then
                      upd_pc (\<lambda>c. c\<lparr>pc_peer_dns1 := dns_addr4_primary info, pc_peer_dns2 := dns_addr4_secondary info,
                                    pc_my_dns1 := dns_addr4_primary info, pc_my_dns2 := dns_addr4_secondary info\<rparr>) h
                    else case cfg_dns_fallback N of
                      Some a \<Rightarrow> upd_pc (\<lambda>c. let d = pton_into (n_util N) False a (pc_peer_dns1 c)
                                            in c\<lparr>pc_peer_dns1 := d, pc_my_dns1 := d\<rparr>) h
                    | None \<Rightarrow> h)
                 else h)
        in net_do (n_if_set N (SetMtu mtu)) h)"

section \<open>Start and stop\<close>

definition set_ppp_state :: "ppp_states \<Rightarrow> ('rb, 'v links) host \<Rightarrow> ('rb, 'v links) host" where
  "set_ppp_state x h = upd_lk (\<lambda>s. s\<lparr>ppp_state := x\<rparr>) h"

definition ppp_stop ::
  "('rb, 'v links) env \<Rightarrow> 'v link_env \<Rightarrow> ppp_reason \<Rightarrow> ('rb, 'v links) host \<Rightarrow> int \<times> ('rb, 'v links) host" where
  "ppp_stop E N reason h =
     (if ppp_state (lks h) = PPP_STATE_STOPPED then (0, h)
      else
        let h = close_ppp_sockets N (set_ppp_state PPP_STATE_STOPPING h);
            restarting = (ppp_keep_pipe_attached (lks h) \<and> (reason = PPP_REASON_NETWORK \<or> reason = PPP_REASON_ERROR));
            h = (if restarting then h else upd_lk (\<lambda>s. s\<lparr>ppp_cgev_paused := True\<rparr>) h)
        in case (if n_if_is_admin_up N (lk_world (h_world h)) then net_call (n_if_down N) h else (0, h)) of (ret, h) \<Rightarrow>
          if ret \<noteq> 0 then
            (ret, delegate_ppp_event N PPP_STOP reason (net_do (n_if_set N DormantOn) h))
          else
            let h = net_do (n_ppp_release N) h;
                h = (if ppp_keep_pipe_attached (lks h) then h
                     else upd_lk (\<lambda>s. s\<lparr>ppp_pipe := None, ppp_detach_at_pipe := False\<rparr>)
                            (sm_at_host_attach E (ppp_pipe (lks h)) h));
                h = net_do (n_if_set N DormantOn) (net_do (n_if_set N CarrierOff) h);
                h = set_ppp_state PPP_STATE_STOPPED h
            in (0, send_status_notification E h))"

text \<open>\<open>modem_ppp_attach\<close>: the kernel's PPP module becomes the user of the pipe.\<close>

definition modem_ppp_attach :: "'v link_env \<Rightarrow> pipe option \<Rightarrow> ('rb, 'v links) host \<Rightarrow> ('rb, 'v links) host" where
  "modem_ppp_attach N pipe h =
     (case pipe of None \<Rightarrow> fault h | Some p \<Rightarrow> net_do (n_ppp_attach N p) (pipe_attach p PppModule h))"

definition ppp_start ::
  "('rb, 'v links) env \<Rightarrow> 'v link_env \<Rightarrow> ('rb, 'v links) host \<Rightarrow> int \<times> ('rb, 'v links) host" where
  "ppp_start E N h =
     (if ppp_state (lks h) = PPP_STATE_RUNNING then (0, send_status_notification E h)
      else
        let h = upd_lk (\<lambda>s. s\<lparr>ppp_cgev_paused := False\<rparr>) h
        in case configure_ppp_link_ip_addresses N h of (configured, h) \<Rightarrow>
          if \<not> configured then (- EADDRNOTAVAIL, h)
          else if ppp_pipe (lks h) = None then (- EINVAL, h)
          else
            let h = ppp_retrieve_pdn_info N (set_ppp_state PPP_STATE_STARTING h)
            in case net_call (n_if_up N) h of (ret, h) \<Rightarrow>
              if ret \<noteq> 0 then (ret, snd (ppp_stop E N PPP_REASON_ERROR h))
              else case open_ppp_sockets N h of (opened, h) \<Rightarrow>
                if \<not> opened then (- ENOTCONN, snd (ppp_stop E N PPP_REASON_ERROR (ppp_start_failure N h)))
                else
                  let h = send_status_notification E h;
                      h = (if ppp_detach_at_pipe (lks h)
                           then sm_at_host_release E (sm_at_host_get_ctx_from (ppp_pipe (lks h)) h) h else h);
                      h = modem_ppp_attach N (ppp_pipe (lks h)) h;
                      h = net_do (n_if_set N DormantOff) (net_do (n_if_set N CarrierOn) h)
                  in (0, set_ppp_state PPP_STATE_RUNNING h))"

section \<open>Activation of the PDP context\<close>

definition ppp_cmd_fail_return_to_at_mode ::
  "('rb, 'v links) env \<Rightarrow> ('rb, 'v links) host \<Rightarrow> ('rb, 'v links) host" where
  "ppp_cmd_fail_return_to_at_mode E h =
     (case ppp_pipe (lks h) of
        None \<Rightarrow> h
      | Some p \<Rightarrow> upd_lk (\<lambda>s. s\<lparr>ppp_pipe := None\<rparr>)
                    (sm_at_host_cmd_done_pipe E (Some p) (rsp_send_to E (Some p) NO_CARRIER h)))"

definition sm_ppp_activate_pdp_dwork_fn ::
  "('rb, 'v links) env \<Rightarrow> 'v link_env \<Rightarrow> ('rb, 'v links) host \<Rightarrow> ('rb, 'v links) host" where
  "sm_ppp_activate_pdp_dwork_fn E N h =
     (let h = upd_lk (\<lambda>s. s\<lparr>ppp_activate_dwork := False\<rparr>) h
      in case net_call (sm_util_cereg_is_registered (n_util N)) h of (registered, h) \<Rightarrow>
        if \<not> registered then
          (if n_expired N (ppp_pdn_timeout (lks h)) (lk_world (h_world h)) then ppp_cmd_fail_return_to_at_mode E h
           else upd_lk (\<lambda>s. s\<lparr>ppp_activate_dwork := True\<rparr>) h)
        else case net_call (sm_util_is_cid_active (n_util N) (unat (ppp_pdn_cid (lks h)))) h of (active, h) \<Rightarrow>
          case (if active then (0, h)
                else net_call (sm_util_at_printf (n_util N) (''AT+CGACT=1,'' @ show_nat (unat (ppp_pdn_cid (lks h))))) h) of (ret, h) \<Rightarrow>
            if ret \<noteq> 0 then ppp_cmd_fail_return_to_at_mode E h
            else
              let h = rsp_send_to E (ppp_pipe (lks h)) CONNECT h;
                  h = sm_at_host_release E (sm_at_host_get_ctx_from (ppp_pipe (lks h)) h) h;
                  h = modem_ppp_attach N (ppp_pipe (lks h)) h;
                  h = sm_ppp_set_auto_start True h
              in delegate_ppp_event N PPP_START PPP_REASON_CMD h)"

section \<open>Intercepted commands and notifications\<close>

text \<open>The format \<open>%*[^=]=%u\<close>.\<close>

definition set_cmd_fmt :: "scan_dir list" where
  "set_cmd_fmt = [SSet False 2147483647 (\<lambda>c. c \<noteq> CHR ''=''), SLit CHR ''='', SDec True]"

definition strcaseeq :: "string \<Rightarrow> string \<Rightarrow> bool" where
  "strcaseeq a b \<longleftrightarrow> map c_toupper a = map c_toupper b"

text \<open>The result, and the response stored in the buffer of \<open>len\<close> bytes; a digit written behind the
  terminator of the response is not part of it.\<close>

definition at_cgerep_callback ::
  "'v link_env \<Rightarrow> nat \<Rightarrow> string \<Rightarrow> ('rb, 'v links) host \<Rightarrow> (int \<times> string) \<times> ('rb, 'v links) host" where
  "at_cgerep_callback N len at_cmd h =
     (case c_sscanf at_cmd set_cmd_fmt of (n, vs) \<Rightarrow>
        let set_cmd = (n = 1); subscribe = (set_cmd \<and> (word_of_int (int_at vs 0) :: 32 word) \<noteq> 0);
            subscribed = (\<lambda>h. if set_cmd then h\<lparr>h_fwd_cgev_notifs := subscribe\<rparr> else h)
        in if \<not> set_cmd \<and> (strcaseeq at_cmd ''AT+CGEREP'' \<or> strcaseeq at_cmd ''AT+CGEREP='') then ((- EINVAL, []), h)
           else if \<not> set_cmd \<or> subscribe then
             (case net_call (sm_util_at_cmd_no_intercept (n_util N) len at_cmd) h of ((ret, buf), h) \<Rightarrow>
                if ret \<noteq> 0 then ((ret, buf), h)
                else
                  let buf = (if 9 < length at_cmd \<and> at_cmd ! 9 = CHR ''?'' \<and> 9 < len \<and> 9 < length buf
                             then buf[9 := (if h_fwd_cgev_notifs h then CHR ''1'' else CHR ''0'')] else buf)
                  in ((0, buf), subscribed h))
           else ((0, take (len - 1) (''OK'' @ CRLF_STR)), subscribed h))"

definition subscribe_cgev_notifications :: "'v link_env \<Rightarrow> ('rb, 'v links) host \<Rightarrow> ('rb, 'v links) host" where
  "subscribe_cgev_notifications N h = snd (net_call (sm_util_at_cmd_no_intercept (n_util N) 5 ''AT+CGEREP=1'') h)"

definition at_cfun_set_callback ::
  "'v link_env \<Rightarrow> nat \<Rightarrow> string \<Rightarrow> ('rb, 'v links) host \<Rightarrow> (int \<times> string) \<times> ('rb, 'v links) host" where
  "at_cfun_set_callback N len at_cmd h =
     (case c_sscanf at_cmd set_cmd_fmt of (n, vs) \<Rightarrow>
        let mode = (word_of_int (int_at vs 0) :: 32 word);
            h = (if n = 1 then
                   (if mode = 1 \<or> mode = 21 then subscribe_cgev_notifications N h
                    else if mode = 0 then h\<lparr>h_fwd_cgev_notifs := False\<rparr> else h)
                 else h)
        in net_call (sm_util_at_cmd_no_intercept (n_util N) len at_cmd) h)"

abbreviation (input) CGEV_PDN_ACT :: string where "CGEV_PDN_ACT \<equiv> ''+CGEV: ME PDN ACT''"

definition at_notif_on_cgev :: "'v link_env \<Rightarrow> string \<Rightarrow> ('rb, 'v links) host \<Rightarrow> ('rb, 'v links) host" where
  "at_notif_on_cgev N notify h =
     (if \<not> ppp_auto_start (lks h) then h
      else if length CGEV_PDN_ACT + 2 > length notify then h
      else case strstr_pos notify CGEV_PDN_ACT of
        None \<Rightarrow> h
      | Some k \<Rightarrow>
          (case drop (k + length CGEV_PDN_ACT) notify of
             c # str \<Rightarrow>
               (if c = CHR '' '' then
                  (if c_strto 10 str \<noteq> None \<and> ucast (ucast (c_strtoul str 10) :: 8 word) = ppp_pdn_cid (lks h)
                   then delegate_ppp_event N PPP_START PPP_REASON_NETWORK h else h)
                else h)
           | [] \<Rightarrow> h))"

datatype ppp_phase = NET_EVENT_PPP_PHASE_RUNNING | NET_EVENT_PPP_PHASE_DEAD

definition ppp_net_mgmt_event_handler ::
  "('rb, 'v links) env \<Rightarrow> 'v link_env \<Rightarrow> ppp_phase \<Rightarrow> ('rb, 'v links) host \<Rightarrow> ('rb, 'v links) host" where
  "ppp_net_mgmt_event_handler E N mgmt_event h =
     (case mgmt_event of
        NET_EVENT_PPP_PHASE_RUNNING \<Rightarrow>
          send_status_notification E (upd_lk (\<lambda>s. s\<lparr>ppp_peer_connected := True\<rparr>) h)
      | NET_EVENT_PPP_PHASE_DEAD \<Rightarrow>
          (if \<not> ppp_peer_connected (lks h) then h
           else
             let h = upd_lk (\<lambda>s. s\<lparr>ppp_peer_connected := False\<rparr>) h
             in if \<not> ppp_is_running h then h
                else delegate_ppp_event N PPP_STOP PPP_REASON_PEER_DISCONNECTED (send_status_notification E h)))"

section \<open>The PPP thread\<close>

definition ppp_work_event ::
  "('rb, 'v links) env \<Rightarrow> 'v link_env \<Rightarrow> ppp_event \<Rightarrow> ('rb, 'v links) host \<Rightarrow> ('rb, 'v links) host" where
  "ppp_work_event E N ev h =
     (case pe_action ev of
        PPP_START \<Rightarrow> snd (ppp_start E N h)
      | PPP_RESTART \<Rightarrow>
          (case ppp_stop E N (pe_reason ev) h of (err, h) \<Rightarrow> if err \<noteq> 0 then h else snd (ppp_start E N h))
      | PPP_STOP \<Rightarrow> snd (ppp_stop E N (pe_reason ev) h))"

text \<open>The queue is processed until it is empty; None when that never happens.\<close>

partial_function (option) ppp_work_fn ::
  "('rb, 'v links) env \<Rightarrow> 'v link_env \<Rightarrow> ('rb, 'v links) host \<Rightarrow> ('rb, 'v links) host option" where
  "ppp_work_fn E N h =
     (if ppp_queue (lks h) = [] then Some h
      else ppp_work_fn E N (ppp_work_event E N (hd (ppp_queue (lks h)))
             (upd_lk (\<lambda>s. s\<lparr>ppp_queue := tl (ppp_queue s)\<rparr>) h)))"

text \<open>One round of \<open>ppp_data_passing_thread\<close>: the descriptors that are polled, and what is done when
  polling fails.\<close>

definition ppp_poll_fds :: "('rb, 'v links) host \<Rightarrow> int list" where
  "ppp_poll_fds h =
     ppp_event_fd (lks h) # (if ppp_is_running h then [ppp_zephyr_fd (lks h), ppp_modem_fd (lks h)] else [])"

definition ppp_poll_failed :: "'v link_env \<Rightarrow> ('rb, 'v links) host \<Rightarrow> ('rb, 'v links) host" where
  "ppp_poll_failed N h =
     (if ppp_is_running h
      then delegate_ppp_event N PPP_RESTART PPP_REASON_ERROR (set_ppp_state PPP_STATE_STARTING h) else h)"

text \<open>A packet that arrived at one of the two sockets is passed to the other one; \<open>src\<close> and \<open>dst\<close> are
  the descriptors. Towards the interface the protocol is taken from the version of the IP header.\<close>

definition ppp_forward ::
  "'v link_env \<Rightarrow> bool \<Rightarrow> int \<Rightarrow> int \<Rightarrow> ('rb, 'v links) host \<Rightarrow> ('rb, 'v links) host" where
  "ppp_forward N from_zephyr src dst h =
     (case net_call (n_recv N src PPP_BUF_SIZE) h of ((len, data), h) \<Rightarrow>
        if len \<le> 0 then h
        else if from_zephyr then snd (net_call (n_sendto N dst data None) h)
        else
          let type = (if data = [] then 0 else byte_val (hd data) div 16)
          in if type = 6 then
               (let h = upd_lk (\<lambda>s. s\<lparr>ppp_sll_protocol := ETH_P_IPV6\<rparr>) h
                in snd (net_call (n_sendto N dst data (Some (ppp_sll_protocol (lks h)))) h))
             else if type = 4 then
               (let h = upd_lk (\<lambda>s. s\<lparr>ppp_sll_protocol := ETH_P_IP\<rparr>) h
                in snd (net_call (n_sendto N dst data (Some (ppp_sll_protocol (lks h)))) h))
             else h)"

text \<open>The events of one descriptor of the round. \<open>fds\<close> are the descriptors the round polled.\<close>

definition ppp_poll_event ::
  "('rb, 'v links) env \<Rightarrow> 'v link_env \<Rightarrow> int list \<Rightarrow> int \<Rightarrow> 16 word \<Rightarrow> ('rb, 'v links) host \<Rightarrow>
   ('rb, 'v links) host option" where
  "ppp_poll_event E N fds fd revents h =
     (if revents = 0 then Some h
      else if fd = ppp_event_fd (lks h) then
        (if revents AND POLLIN \<noteq> 0 then
           (case net_call (n_eventfd_read N fd) h of (ret, h) \<Rightarrow> if ret = 0 then ppp_work_fn E N h else Some h)
         else Some h)
      else if fd = ppp_zephyr_fd (lks h) \<or> fd = ppp_modem_fd (lks h) then
        (if revents AND POLLIN = 0 then
           Some (delegate_ppp_event N PPP_STOP PPP_REASON_NETWORK (set_ppp_state PPP_STATE_STOPPING h))
         else if length fds < 3 then Some (fault h)
         else if fd = ppp_zephyr_fd (lks h) then Some (ppp_forward N True (fds ! 1) (fds ! 2) h)
         else Some (ppp_forward N False (fds ! 2) (fds ! 1) h))
      else Some h)"

section \<open>Commands\<close>

definition handle_at_ppp ::
  "('rb, 'v links) env \<Rightarrow> 'v link_env \<Rightarrow> 'p at_parser_ops \<Rightarrow> at_parser_cmd_type \<Rightarrow> 'p \<Rightarrow> nat \<Rightarrow>
   ('rb, 'v links) host \<Rightarrow> int \<times> ('rb, 'v links) host" where
  "handle_at_ppp E N P cmd_type parser param_count h =
     (if cmd_type = CMD_TYPE_READ then (0, rsp_send E (ppp_status h) h)
      else if cmd_type \<noteq> CMD_TYPE_SET \<or> param_count < 2 \<or> param_count > 3 then (- EINVAL, h)
      else case ap_num_get_u32 P parser 1 of
        Inl ret \<Rightarrow> (ret, h)
      | Inr op \<Rightarrow>
          if 2 \<le> op then (- EINVAL, h)
          else if op = 0 \<and> param_count \<noteq> 2 then (- EINVAL, h)
          else
            let h = upd_lk (\<lambda>s. s\<lparr>ppp_urc_pipe := sm_at_host_get_current_pipe E h\<rparr>) h
            in if op = 1 then
                 (if ppp_state (lks h) \<noteq> PPP_STATE_STOPPED then (- EALREADY, h)
                  else
                    let cid = (case ap_num_get_u32 P parser 2 of Inl _ \<Rightarrow> 0 | Inr n \<Rightarrow> n);
                        h = upd_lk (\<lambda>s. s\<lparr>ppp_pdn_cid := cid\<rparr>) h;
                        start = (\<lambda>h. (- SILENT_AT_COMMAND_RET,
                                  delegate_ppp_event N PPP_START PPP_REASON_CMD (sm_ppp_set_auto_start True h)))
                    in if ppp_pipe (lks h) = None then
                         (case sm_at_host_get_current_pipe E h of
                            None \<Rightarrow> (- ENODEV, h)
                          | Some p \<Rightarrow>
                              start (upd_lk (\<lambda>s. s\<lparr>ppp_detach_at_pipe := True\<rparr>)
                                (rsp_send_ok E (upd_lk (\<lambda>s. s\<lparr>ppp_pipe := Some p\<rparr>) h))))
                       else start (rsp_send_ok E h))
               else
                 (- SILENT_AT_COMMAND_RET,
                  delegate_ppp_event N PPP_STOP PPP_REASON_CMD (sm_ppp_set_auto_start False (rsp_send_ok E h))))"

definition sm_ppp_attach :: "pipe option \<Rightarrow> ('rb, 'v links) host \<Rightarrow> ('rb, 'v links) host" where
  "sm_ppp_attach pipe h =
     upd_lk (\<lambda>s. s\<lparr>ppp_pipe := pipe, ppp_keep_pipe_attached := True\<rparr>)
       (case pipe of None \<Rightarrow> h | Some p \<Rightarrow> pipe_release p h)"

definition sm_ppp_detach :: "'v link_env \<Rightarrow> ('rb, 'v links) host \<Rightarrow> ('rb, 'v links) host" where
  "sm_ppp_detach N h =
     (let h = upd_lk (\<lambda>s. s\<lparr>ppp_pipe := None, ppp_keep_pipe_attached := False, ppp_auto_start := False\<rparr>) h
      in if \<not> sm_ppp_is_stopped h then delegate_ppp_event N PPP_STOP PPP_REASON_CMD h else h)"

definition sm_ppp_detach_after_disconnect :: "('rb, 'v links) host \<Rightarrow> ('rb, 'v links) host" where
  "sm_ppp_detach_after_disconnect h = upd_lk (\<lambda>s. s\<lparr>ppp_keep_pipe_attached := False\<rparr>) h"

text \<open>The checks of the parameters of \<open>AT+CGDATA\<close>, and the command.\<close>

definition cgdata_cid :: "'p at_parser_ops \<Rightarrow> 'p \<Rightarrow> nat \<Rightarrow> 32 word option" where
  "cgdata_cid P parser param_count =
     (if 2 \<le> param_count \<and>
         (case util_string_get (ap_string_get P parser 1 8) 8 of (ret, l2p) \<Rightarrow> ret \<noteq> 0 \<or> \<not> strcaseeq l2p ''PPP'') then None
      else if param_count = 3 then (case ap_num_get_u32 P parser 2 of Inl _ \<Rightarrow> None | Inr n \<Rightarrow> Some n)
      else Some 0)"

definition handle_at_cgdata ::
  "('rb, 'v links) env \<Rightarrow> 'v link_env \<Rightarrow> 'p at_parser_ops \<Rightarrow> at_parser_cmd_type \<Rightarrow> 'p \<Rightarrow> nat \<Rightarrow>
   ('rb, 'v links) host \<Rightarrow> int \<times> ('rb, 'v links) host" where
  "handle_at_cgdata E N P cmd_type parser param_count h =
     (if cmd_type = CMD_TYPE_TEST
      then (0, rsp_send E (CRLF_STR @ ''+CGDATA: ('' @ [DQUOTE] @ ''PPP'' @ [DQUOTE] @ '')'' @ CRLF_STR) h)
      else if cmd_type \<noteq> CMD_TYPE_SET \<or> param_count > 3 then (- EINVAL, h)
      else case cgdata_cid P parser param_count of
        None \<Rightarrow> (- EINVAL, h)
      | Some cid \<Rightarrow>
          if ppp_state (lks h) \<noteq> PPP_STATE_STOPPED then (- EALREADY, h)
          else case net_call (sm_util_cfun_is_lte_enabled (n_util N)) h of (enabled, h) \<Rightarrow>
            if \<not> enabled then (- ENOTCONN, h)
            else
              let h = (if ppp_pipe (lks h) \<noteq> None then sm_ppp_detach N h else h);
                  h = upd_lk (\<lambda>s. s\<lparr>ppp_urc_pipe := None\<rparr>) h
              in case sm_at_host_get_current_pipe E h of
                   None \<Rightarrow> (- ENODEV, h)
                 | Some p \<Rightarrow>
                     (- AT_COMMAND_CONTINUE_RET,
                      upd_lk (\<lambda>s. s\<lparr>ppp_pipe := Some p, ppp_keep_pipe_attached := False, ppp_pdn_cid := cid,
                                    ppp_pdn_timeout := n_timepoint N PDN_ACTIVATION_TIMEOUT (lk_world (h_world h)),
                                    ppp_activate_dwork := True\<rparr>) h))"

section \<open>Initialisation\<close>

text \<open>The static variables before start-up.\<close>

definition link_state_zero :: link_state where
  "link_state_zero =
     \<lparr>ppp_auto_start = False, ppp_detach_at_pipe = False, ppp_keep_pipe_attached = False, ppp_pipe = None,
      ppp_urc_pipe = None, ppp_queue = [], ppp_peer_connected = False, ppp_state = PPP_STATE_STOPPED,
      ppp_pdn_cid = 0, ppp_event_fd = - 1, ppp_zephyr_fd = - 1, ppp_modem_fd = - 1, ppp_sll_protocol = ETH_P_ALL,
      ppp_ctx = \<lparr>pc_my_address = replicate 4 NUL, pc_my_dns1 = replicate 4 NUL, pc_my_dns2 = replicate 4 NUL,
                 pc_peer_dns1 = replicate 4 NUL, pc_peer_dns2 = replicate 4 NUL\<rparr>,
      ppp_cgev_paused = True, ppp_pdn_timeout = 0, ppp_activate_dwork = False, ppp_init_failed = False,
      cmux_at_channel = 0, cmux_stop_work = False, trace_pipe = None, trace_idle_sem = False\<rparr>"

definition sm_ppp_init :: "'v link_env \<Rightarrow> ('rb, 'v links) host \<Rightarrow> int \<times> ('rb, 'v links) host" where
  "sm_ppp_init N h =
     (case net_call (n_eventfd N) (upd_lk (\<lambda>s. s\<lparr>ppp_queue := []\<rparr>) h) of (fd, h) \<Rightarrow>
        let h = upd_lk (\<lambda>s. s\<lparr>ppp_event_fd := fd\<rparr>) h
        in if fd < 0 then (- n_errno N (lk_world (h_world h)), upd_lk (\<lambda>s. s\<lparr>ppp_init_failed := True\<rparr>) h)
           else (0, h))"

end
