(* ===== verification/Sm_Cmux.thy ===== *)
theory Sm_Cmux
  imports Sm_Ppp
begin

text \<open>
  The multiplexer (\<open>app/src/sm_cmux.c\<close>), which moves the AT host from the UART pipe to a channel (DLCI) and
  back, gives other channels to PPP and to the traces, and the trace backend on a channel
  (\<open>app/src/sm_trace_backend_cmux.c\<close>).
\<close>

abbreviation (input) CMUX_PPP_CHANNEL :: nat where "CMUX_PPP_CHANNEL \<equiv> 2"
abbreviation (input) CMUX_MODEM_TRACE_CHANNEL :: nat where "CMUX_MODEM_TRACE_CHANNEL \<equiv> 3"

section \<open>The trace backend\<close>

definition trace_pipe_event_handler ::
  "pipe \<Rightarrow> modem_pipe_event \<Rightarrow> ('rb, 'v links) host \<Rightarrow> ('rb, 'v links) host" where
  "trace_pipe_event_handler p event h =
     (case event of
        MODEM_PIPE_EVENT_TRANSMIT_IDLE \<Rightarrow> upd_lk (\<lambda>s. s\<lparr>trace_idle_sem := True\<rparr>) h
      | MODEM_PIPE_EVENT_CLOSED \<Rightarrow> upd_lk (\<lambda>s. s\<lparr>trace_pipe := None\<rparr>) h
      | MODEM_PIPE_EVENT_OPENED \<Rightarrow> upd_lk (\<lambda>s. s\<lparr>trace_pipe := Some p\<rparr>) h
      | MODEM_PIPE_EVENT_RECEIVE_READY \<Rightarrow> h)"

definition trace_backend_init :: "bool \<Rightarrow> ('rb, 'v links) host \<Rightarrow> int \<times> ('rb, 'v links) host" where
  "trace_backend_init has_callback h =
     (if \<not> has_callback then (- EFAULT, h) else (0, upd_lk (\<lambda>s. s\<lparr>trace_pipe := None\<rparr>) h))"

definition sm_trace_backend_attach :: "pipe option \<Rightarrow> ('rb, 'v links) host \<Rightarrow> ('rb, 'v links) host" where
  "sm_trace_backend_attach pipe h = (case pipe of None \<Rightarrow> fault h | Some p \<Rightarrow> pipe_attach p TraceBackend h)"

definition sm_trace_backend_detach :: "('rb, 'v links) host \<Rightarrow> ('rb, 'v links) host" where
  "sm_trace_backend_detach h =
     (case trace_pipe (lks h) of None \<Rightarrow> h | Some p \<Rightarrow> upd_lk (\<lambda>s. s\<lparr>trace_pipe := None\<rparr>) (pipe_release p h))"

definition trace_backend_deinit :: "('rb, 'v links) host \<Rightarrow> int \<times> ('rb, 'v links) host" where
  "trace_backend_deinit h =
     (0, case trace_pipe (lks h) of None \<Rightarrow> h | Some p \<Rightarrow> upd_lk (\<lambda>s. s\<lparr>trace_pipe := None\<rparr>) (pipe_release p h))"

text \<open>The semaphore is taken when it is available, or given within the timeout.\<close>

definition trace_backend_write ::
  "('rb, 'v links) env \<Rightarrow> 'v link_env \<Rightarrow> bytes \<Rightarrow> ('rb, 'v links) host \<Rightarrow> int \<times> ('rb, 'v links) host" where
  "trace_backend_write E N data h =
     (case trace_pipe (lks h) of
        None \<Rightarrow> (int (length data), net_do (x_trace_processed N (length data)) h)
      | Some p \<Rightarrow>
          (if \<not> e_pipe_is_open E p (h_world h) then (int (length data), net_do (x_trace_processed N (length data)) h)
           else
             case (if trace_idle_sem (lks h) then (True, upd_lk (\<lambda>s. s\<lparr>trace_idle_sem := False\<rparr>) h)
                   else net_call (x_sem_wait N) h) of (taken, h) \<Rightarrow>
               if \<not> taken then (- EAGAIN, h)
               else case e_pipe_transmit E p data (h_world h) of (ret, w) \<Rightarrow>
                 let h = h\<lparr>h_world := w\<rparr>
                 in if ret < 0 then (ret, net_do (x_trace_processed N (length data)) h)
                    else if ret = 0 then (- EAGAIN, h)
                    else (ret, net_do (x_trace_processed N (nat ret)) h)))"

section \<open>Channels\<close>

datatype modem_cmux_event = MODEM_CMUX_EVENT_CONNECTED | MODEM_CMUX_EVENT_DISCONNECTED

definition cmux_event_handler :: "modem_cmux_event \<Rightarrow> ('rb, 'v links) host \<Rightarrow> ('rb, 'v links) host" where
  "cmux_event_handler event h =
     (case event of
        MODEM_CMUX_EVENT_CONNECTED \<Rightarrow> h
      | MODEM_CMUX_EVENT_DISCONNECTED \<Rightarrow> upd_lk (\<lambda>s. s\<lparr>cmux_stop_work := True\<rparr>) h)"

definition init_dlci ::
  "('rb, 'v links) env \<Rightarrow> 'v link_env \<Rightarrow> nat \<Rightarrow> ('rb, 'v links) host \<Rightarrow> ('rb, 'v links) host" where
  "init_dlci E N dlci_idx h =
     (case net_call (x_dlci_init N dlci_idx) h of (p, h) \<Rightarrow>
        sm_at_host_attach E (Some p) (h\<lparr>h_cmux_dlcis := (h_cmux_dlcis h)[dlci_idx := Some p]\<rparr>))"

definition sm_cmux_init ::
  "('rb, 'v links) env \<Rightarrow> 'v link_env \<Rightarrow> ('rb, 'v links) host \<Rightarrow> int \<times> ('rb, 'v links) host" where
  "sm_cmux_init E N h =
     (let h = net_do (x_cmux_init N) h;
          h = fold (init_dlci E N) [0..<length (h_cmux_dlcis h)] h
      in (0, upd_lk (\<lambda>s. s\<lparr>cmux_stop_work := False, cmux_at_channel := 0\<rparr>) h))"

text \<open>\<open>modem_cmux_release\<close> and \<open>modem_cmux_attach\<close>: the module is the user of the UART pipe while attached.\<close>

definition modem_cmux_release :: "'v link_env \<Rightarrow> ('rb, 'v links) host \<Rightarrow> ('rb, 'v links) host" where
  "modem_cmux_release N h =
     net_do (x_cmux_release N)
       (case h_cmux_uart_pipe h of
          Some p \<Rightarrow> if h_pipe_cb h p = CmuxModule then pipe_release p h else h
        | None \<Rightarrow> h)"

definition modem_cmux_attach ::
  "'v link_env \<Rightarrow> pipe \<Rightarrow> ('rb, 'v links) host \<Rightarrow> int \<times> ('rb, 'v links) host" where
  "modem_cmux_attach N p h =
     (case net_call (x_cmux_attach N p) h of (ret, h) \<Rightarrow> (ret, if ret = 0 then pipe_attach p CmuxModule h else h))"

definition stop_work_fn ::
  "('rb, 'v links) env \<Rightarrow> 'v link_env \<Rightarrow> ('rb, 'v links) host \<Rightarrow> ('rb, 'v links) host" where
  "stop_work_fn E N h =
     (let h = upd_lk (\<lambda>s. s\<lparr>cmux_stop_work := False\<rparr>) h
      in if \<not> sm_cmux_is_started h then h
         else
           let h = (if cfg_ppp E then sm_ppp_detach N h else h);
               h = (if cfg_trace_cmux N then sm_trace_backend_detach h else h);
               h = upd_lk (\<lambda>s. s\<lparr>cmux_at_channel := 0\<rparr>) (modem_cmux_release N h);
               p = h_cmux_uart_pipe h;
               h = h\<lparr>h_cmux_uart_pipe := None\<rparr>;
               h = snd (sm_at_host_set_pipe E (sm_at_host_get_urc_ctx E h) p h)
           in fold (init_dlci E N) [0..<length (h_cmux_dlcis h)] h)"

text \<open>The pipe in the table, and the index of the other of the first two channels.\<close>

definition dlci_pipe :: "nat \<Rightarrow> ('rb, 'w) host \<Rightarrow> pipe option" where
  "dlci_pipe i h = (if i < length (h_cmux_dlcis h) then h_cmux_dlcis h ! i else None)"

definition other_channel :: "nat \<Rightarrow> nat" where
  "other_channel i = (if i = 0 then 1 else 0)"

definition assign_default_channels ::
  "('rb, 'v links) env \<Rightarrow> 'v link_env \<Rightarrow> ('rb, 'v links) host \<Rightarrow> ('rb, 'v links) host" where
  "assign_default_channels E N h =
     (let h = (if cfg_ppp E then
                 (let p = (if cmux_at_channel (lks h) = 0 then sm_cmux_get_dlci CMUX_PPP_CHANNEL h
                           else dlci_pipe (other_channel (cmux_at_channel (lks h))) h)
                  in sm_ppp_attach p (sm_at_host_release E (sm_at_host_get_ctx_from p h) h))
               else h)
      in if cfg_trace_cmux N then
           (let p = sm_cmux_get_dlci CMUX_MODEM_TRACE_CHANNEL h
            in sm_trace_backend_attach p (sm_at_host_release E (sm_at_host_get_ctx_from p h) h))
         else h)"

definition do_at_and_ppp_channel_switch ::
  "('rb, 'v links) env \<Rightarrow> nat \<Rightarrow> ('rb, 'v links) host \<Rightarrow> int \<times> ('rb, 'v links) host" where
  "do_at_and_ppp_channel_switch E new_at_channel h =
     (let h = rsp_send_ok E h;
          ctx = sm_at_host_get_current E h;
          h = upd_lk (\<lambda>s. s\<lparr>cmux_at_channel := new_at_channel\<rparr>) h
      in case sm_at_host_set_pipe E ctx (dlci_pipe new_at_channel h) h of (ret, h) \<Rightarrow>
        if ret \<noteq> 0 then (ret, h)
        else
          (- SILENT_AT_COMMAND_RET,
           if cfg_ppp E then
             (let p = dlci_pipe (other_channel new_at_channel) h
              in sm_ppp_detach_after_disconnect
                   (sm_ppp_attach p (sm_at_host_release E (sm_at_host_get_ctx_from p h) h)))
           else h))"

definition cmux_start ::
  "('rb, 'v links) env \<Rightarrow> 'v link_env \<Rightarrow> ('rb, 'v links) host \<Rightarrow> int \<times> ('rb, 'v links) host" where
  "cmux_start E N h =
     (case h_cmux_uart_pipe h of
        Some p \<Rightarrow> (case e_pipe_open E p (h_world h) of (ret, w) \<Rightarrow> (ret, h\<lparr>h_world := w\<rparr>))
      | None \<Rightarrow>
          (case x_uart_pipe N of
             None \<Rightarrow> (- ENODEV, h)
           | Some p \<Rightarrow>
               (let h = h\<lparr>h_cmux_uart_pipe := Some p\<rparr>
                in case sm_at_host_set_pipe E (sm_at_host_get_current E h) (dlci_pipe (cmux_at_channel (lks h)) h) h of (ret, h) \<Rightarrow>
                  if ret \<noteq> 0 then (ret, h) else modem_cmux_attach N p h)))"

section \<open>Commands\<close>

definition cmux_start_cmd ::
  "('rb, 'v links) env \<Rightarrow> 'v link_env \<Rightarrow> ('rb, 'v links) host \<Rightarrow> int \<times> ('rb, 'v links) host" where
  "cmux_start_cmd E N h =
     (case cmux_start E N (rsp_send_ok E h) of (ret, h) \<Rightarrow> (if ret \<noteq> 0 then ret else - SILENT_AT_COMMAND_RET, h))"

definition handle_at_xcmux ::
  "('rb, 'v links) env \<Rightarrow> 'v link_env \<Rightarrow> 'p at_parser_ops \<Rightarrow> at_parser_cmd_type \<Rightarrow> 'p \<Rightarrow> nat \<Rightarrow>
   ('rb, 'v links) host \<Rightarrow> int \<times> ('rb, 'v links) host" where
  "handle_at_xcmux E N P cmd_type parser param_count h =
     (if cmd_type = CMD_TYPE_READ then
        (0, rsp_send E (CRLF_STR @ ''#XCMUX: '' @ show_nat (cmux_at_channel (lks h) + 1) @ '','' @
               show_nat (cfg_cmux_channel_count E) @ CRLF_STR) h)
      else if cmd_type \<noteq> CMD_TYPE_SET \<or> param_count > 2 then (- EINVAL, h)
      else if param_count = 1 \<and> sm_cmux_is_started h then (- EALREADY, h)
      else if param_count = 2 then
        (case ap_num_get_u32 P parser 1 of
           Inl ret \<Rightarrow> (- EINVAL, h)
         | Inr at_dlci \<Rightarrow>
             if at_dlci \<noteq> 1 \<and> (\<not> cfg_ppp E \<or> at_dlci \<noteq> 2) then (- EINVAL, h)
             else
               let at_channel = unat at_dlci - 1
               in if cfg_ppp E \<and> ppp_is_running h \<and> at_channel \<noteq> cmux_at_channel (lks h) then (- ENOTSUP, h)
                  else if sm_cmux_is_started h then do_at_and_ppp_channel_switch E at_channel h
                  else cmux_start_cmd E N
                         (assign_default_channels E N (upd_lk (\<lambda>s. s\<lparr>cmux_at_channel := at_channel\<rparr>) h)))
      else cmux_start_cmd E N (assign_default_channels E N h))"

definition handle_at_xcmuxcld ::
  "('rb, 'v links) env \<Rightarrow> at_parser_cmd_type \<Rightarrow> nat \<Rightarrow> ('rb, 'v links) host \<Rightarrow> int \<times> ('rb, 'v links) host" where
  "handle_at_xcmuxcld E cmd_type param_count h =
     (if cmd_type \<noteq> CMD_TYPE_SET \<or> param_count \<noteq> 1 then (- EINVAL, h)
      else if \<not> sm_cmux_is_started h then (- EALREADY, h)
      else (- SILENT_AT_COMMAND_RET, upd_lk (\<lambda>s. s\<lparr>cmux_stop_work := True\<rparr>) (rsp_send_ok E h)))"

definition handle_at_cmux ::
  "('rb, 'v links) env \<Rightarrow> 'v link_env \<Rightarrow> 'p at_parser_ops \<Rightarrow> at_parser_cmd_type \<Rightarrow> 'p \<Rightarrow> nat \<Rightarrow>
   ('rb, 'v links) host \<Rightarrow> int \<times> ('rb, 'v links) host" where
  "handle_at_cmux E N P cmd_type parser param_count h =
     (case cmd_type of
        CMD_TYPE_TEST \<Rightarrow> (0, rsp_send E (CRLF_STR @ ''+CMUX: (0),(0)'' @ CRLF_STR) h)
      | CMD_TYPE_READ \<Rightarrow> (0, rsp_send E (CRLF_STR @ ''+CMUX: 0,0'' @ CRLF_STR) h)
      | CMD_TYPE_SET \<Rightarrow>
          (if param_count < 2 \<or> param_count > 3 then (- EINVAL, h)
           else if ap_num_get_u32 P parser 1 \<noteq> Inr 0 then (- EINVAL, h)
           else if param_count = 3 \<and> ap_num_get_u32 P parser 2 \<noteq> Inr 0 then (- EINVAL, h)
           else if sm_cmux_is_started h then (- EALREADY, h)
           else cmux_start_cmd E N h)
      | CMD_TYPE_UNKNOWN \<Rightarrow> (- EINVAL, h))"

definition handle_at_xcmuxtrace ::
  "('rb, 'v links) env \<Rightarrow> 'p at_parser_ops \<Rightarrow> at_parser_cmd_type \<Rightarrow> 'p \<Rightarrow> nat \<Rightarrow>
   ('rb, 'v links) host \<Rightarrow> int \<times> ('rb, 'v links) host" where
  "handle_at_xcmuxtrace E P cmd_type parser param_count h =
     (if cmd_type = CMD_TYPE_TEST then
        (0, rsp_send E (CRLF_STR @ ''#XCMUXTRACE: (1 ... '' @ show_nat (cfg_cmux_channel_count E) @ '')'' @ CRLF_STR) h)
      else if cmd_type \<noteq> CMD_TYPE_SET \<or> param_count > 2 then (- EINVAL, h)
      else
        case (if param_count = 2 then
                (case ap_num_get_s32 P parser 1 of
                   Inl _ \<Rightarrow> Inl (- EINVAL)
                 | Inr ch \<Rightarrow>
                     if sint ch < 2 \<or> int (cfg_cmux_channel_count E) \<le> sint ch then Inl (- EINVAL)
                     else Inr (sm_cmux_get_dlci (unat ch mod 256) h))
              else Inr (sm_at_host_get_current_pipe E h)) of
          Inl err \<Rightarrow> (err, h)
        | Inr None \<Rightarrow> (- ENODEV, h)
        | Inr (Some p) \<Rightarrow>
            (let h = sm_trace_backend_detach (rsp_send_ok E h);
                 h = sm_at_host_release E (sm_at_host_get_ctx_from (Some p) h) h
             in (- SILENT_AT_COMMAND_RET, sm_trace_backend_attach (Some p) h)))"

end
