(* ===== verification/Ppp_Link.thy ===== *)
theory Ppp_Link
  imports Sm_Cmux
begin

text \<open>
  Properties of the PPP link and of the multiplexer: the states of the link match its sockets in every
  interleaving of commands, notifications, work items and rounds of the PPP thread, the thread empties
  its queue when the interface can be brought down, and what becomes of the pipes that are taken from
  the AT host.
\<close>

section \<open>What the operations change\<close>

lemma close_ppp_sockets_lks [simp]:
  "lks (close_ppp_sockets N h) =
     (lks h)\<lparr>ppp_zephyr_fd := min (ppp_zephyr_fd (lks h)) (- 1), ppp_modem_fd := min (ppp_modem_fd (lks h)) (- 1)\<rparr>"
  by (simp add: close_ppp_sockets_def Let_def net_call_split min_def)

lemma closed_fd [simp]: "min x (- 1) < (0::int)"
  by (simp add: min_def)

lemma delegate_lks:
  "lks (delegate_ppp_event N a r h) =
     (if 4 \<le> length (ppp_queue (lks h)) then lks h
      else (lks h)\<lparr>ppp_queue := ppp_queue (lks h) @ [\<lparr>pe_action = a, pe_reason = r\<rparr>]\<rparr>)"
  by (simp add: delegate_ppp_event_def Let_def net_call_split)

lemma set_ppp_state_lks [simp]: "lks (set_ppp_state x h) = (lks h)\<lparr>ppp_state := x\<rparr>"
  by (simp add: set_ppp_state_def)

lemma configure_lks:
  "lks (snd (configure_ppp_link_ip_addresses N h)) =
     (lks h)\<lparr>ppp_ctx := ppp_ctx (lks (snd (configure_ppp_link_ip_addresses N h)))\<rparr>"
  by (simp add: configure_ppp_link_ip_addresses_def net_call_split upd_pc_def Let_def case_prod_unfold)

lemma retrieve_lks:
  "lks (ppp_retrieve_pdn_info N h) = (lks h)\<lparr>ppp_ctx := ppp_ctx (lks (ppp_retrieve_pdn_info N h))\<rparr>"
  by (simp add: ppp_retrieve_pdn_info_def net_call_split upd_pc_def Let_def case_prod_unfold split: option.split)

text \<open>Opening the sockets touches the two descriptors and the protocol only, and gives two descriptors when
  it succeeds.\<close>

lemma open_ppp_sockets_lks:
  defines "s \<equiv> \<lambda>N h. lks (snd (open_ppp_sockets N h))"
  shows "s N h = (lks h)\<lparr>ppp_zephyr_fd := ppp_zephyr_fd (s N h), ppp_modem_fd := ppp_modem_fd (s N h),
      ppp_sll_protocol := ppp_sll_protocol (s N h)\<rparr>"
    and "fst (open_ppp_sockets N h) \<Longrightarrow> 0 \<le> ppp_zephyr_fd (s N h) \<and> 0 \<le> ppp_modem_fd (s N h)"
  unfolding s_def by (simp_all add: open_ppp_sockets_def net_call_split Let_def split: if_split_asm)


text \<open>The stages of a start: the addresses are set, the interface is up, the sockets are open.\<close>

definition start_addr :: "'v link_env \<Rightarrow> ('rb, 'v links) host \<Rightarrow> ('rb, 'v links) host" where
  "start_addr N h = snd (configure_ppp_link_ip_addresses N (upd_lk (\<lambda>s. s\<lparr>ppp_cgev_paused := False\<rparr>) h))"

definition start_if :: "'v link_env \<Rightarrow> ('rb, 'v links) host \<Rightarrow> ('rb, 'v links) host" where
  "start_if N h = snd (net_call (n_if_up N) (ppp_retrieve_pdn_info N (set_ppp_state PPP_STATE_STARTING (start_addr N h))))"

definition start_sock :: "'v link_env \<Rightarrow> ('rb, 'v links) host \<Rightarrow> ('rb, 'v links) host" where
  "start_sock N h = snd (open_ppp_sockets N (start_if N h))"

definition start_up :: "('rb, 'v links) env \<Rightarrow> 'v link_env \<Rightarrow> ('rb, 'v links) host \<Rightarrow> ('rb, 'v links) host" where
  "start_up E N h =
     (let h = send_status_notification E (start_sock N h);
          h = (if ppp_detach_at_pipe (lks h)
               then sm_at_host_release E (sm_at_host_get_ctx_from (ppp_pipe (lks h)) h) h else h);
          h = modem_ppp_attach N (ppp_pipe (lks h)) h
      in set_ppp_state PPP_STATE_RUNNING (net_do (n_if_set N DormantOff) (net_do (n_if_set N CarrierOn) h)))"

lemma start_addr_lks: obtains c where "lks (start_addr N h) = (lks h)\<lparr>ppp_cgev_paused := False, ppp_ctx := c\<rparr>"
proof -
  have "\<exists>c. lks (start_addr N h) = (lks (upd_lk (\<lambda>s. s\<lparr>ppp_cgev_paused := False\<rparr>) h))\<lparr>ppp_ctx := c\<rparr>"
    unfolding start_addr_def by (rule exI, rule configure_lks)
  then show thesis using that by auto
qed

lemma start_if_lks:
  obtains c where "lks (start_if N h) = (lks h)\<lparr>ppp_cgev_paused := False, ppp_state := PPP_STATE_STARTING, ppp_ctx := c\<rparr>"
proof -
  obtain c where c: "lks (start_addr N h) = (lks h)\<lparr>ppp_cgev_paused := False, ppp_ctx := c\<rparr>" by (rule start_addr_lks)
  have "\<exists>c. lks (ppp_retrieve_pdn_info N (set_ppp_state PPP_STATE_STARTING (start_addr N h))) =
      (lks (set_ppp_state PPP_STATE_STARTING (start_addr N h)))\<lparr>ppp_ctx := c\<rparr>"
    by (rule exI, rule retrieve_lks)
  then show thesis using that by (auto simp: start_if_def net_call_split c)
qed

lemma start_sock_lks:
  obtains z m pr where "lks (start_sock N h) = (lks (start_if N h))\<lparr>ppp_zephyr_fd := z, ppp_modem_fd := m, ppp_sll_protocol := pr\<rparr>"
    and "fst (open_ppp_sockets N (start_if N h)) \<longrightarrow> 0 \<le> z \<and> 0 \<le> m"
  using open_ppp_sockets_lks [of N "start_if N h"] that unfolding start_sock_def by blast

section \<open>States and sockets\<close>

text \<open>A stopped link has no sockets, a running one has both and listens to notifications; the event queue
  is bounded.\<close>

definition ppp_inv :: "link_state \<Rightarrow> bool" where
  "ppp_inv s \<longleftrightarrow>
     (ppp_state s = PPP_STATE_STOPPED \<longrightarrow> ppp_zephyr_fd s < 0 \<and> ppp_modem_fd s < 0) \<and>
     (ppp_state s = PPP_STATE_RUNNING \<longrightarrow> 0 \<le> ppp_zephyr_fd s \<and> 0 \<le> ppp_modem_fd s \<and> \<not> ppp_cgev_paused s) \<and>
     length (ppp_queue s) \<le> PPP_QUEUE_LEN"

lemma ppp_inv_upd [simp]:
  "ppp_inv (s\<lparr>ppp_auto_start := b\<rparr>) = ppp_inv s" "ppp_inv (s\<lparr>ppp_detach_at_pipe := b\<rparr>) = ppp_inv s"
  "ppp_inv (s\<lparr>ppp_keep_pipe_attached := b\<rparr>) = ppp_inv s" "ppp_inv (s\<lparr>ppp_pipe := q\<rparr>) = ppp_inv s"
  "ppp_inv (s\<lparr>ppp_urc_pipe := q\<rparr>) = ppp_inv s" "ppp_inv (s\<lparr>ppp_peer_connected := b\<rparr>) = ppp_inv s"
  "ppp_inv (s\<lparr>ppp_pdn_cid := n\<rparr>) = ppp_inv s" "ppp_inv (s\<lparr>ppp_sll_protocol := pr\<rparr>) = ppp_inv s"
  "ppp_inv (s\<lparr>ppp_ctx := c\<rparr>) = ppp_inv s" "ppp_inv (s\<lparr>ppp_pdn_timeout := t\<rparr>) = ppp_inv s"
  "ppp_inv (s\<lparr>ppp_activate_dwork := b\<rparr>) = ppp_inv s" "ppp_inv (s\<lparr>cmux_at_channel := i\<rparr>) = ppp_inv s"
  "ppp_inv (s\<lparr>cmux_stop_work := b\<rparr>) = ppp_inv s" "ppp_inv (s\<lparr>trace_pipe := q\<rparr>) = ppp_inv s"
  "ppp_inv (s\<lparr>trace_idle_sem := b\<rparr>) = ppp_inv s"
  by (simp_all add: ppp_inv_def)

lemma ppp_inv_resume [simp]: "ppp_inv s \<Longrightarrow> ppp_inv (s\<lparr>ppp_cgev_paused := False\<rparr>)"
  by (simp add: ppp_inv_def)

lemma ppp_inv_tl [simp]: "ppp_inv s \<Longrightarrow> ppp_inv (s\<lparr>ppp_queue := tl (ppp_queue s)\<rparr>)"
  by (auto simp: ppp_inv_def)

lemma ppp_inv_leave [simp]:
  "ppp_inv s \<Longrightarrow> ppp_inv (s\<lparr>ppp_state := PPP_STATE_STARTING\<rparr>)" "ppp_inv s \<Longrightarrow> ppp_inv (s\<lparr>ppp_state := PPP_STATE_STOPPING\<rparr>)"
  by (simp_all add: ppp_inv_def)

lemma delegate_inv [simp]: "ppp_inv (lks h) \<Longrightarrow> ppp_inv (lks (delegate_ppp_event N a r h))"
  by (simp add: ppp_inv_def delegate_lks)

text \<open>A request to stop that waits in the queue.\<close>

definition stop_pending :: "('rb, 'v links) host \<Rightarrow> bool" where
  "stop_pending h \<longleftrightarrow> ppp_state (lks h) \<noteq> PPP_STATE_STOPPED \<and> length (ppp_queue (lks h)) \<le> PPP_QUEUE_LEN \<and>
     PPP_STOP \<in> pe_action ` set (ppp_queue (lks h))"

lemma stop_pending_queue: "stop_pending h \<Longrightarrow> ppp_queue (lks h) \<noteq> []"
  by (auto simp: stop_pending_def)

text \<open>What the link relies on: the AT host's pipes, heap and work queue know nothing of the link's state.\<close>

locale link_host = world_kept E lk_st
  for E :: "('rb, 'v links) env" +
  fixes N :: "'v link_env"
  assumes free_lks: "lk_st (e_free_ctx E i w) = lk_st w"
    and open_lks: "e_pipe_open E p w = (r, w') \<Longrightarrow> lk_st w' = lk_st w"
begin

lemma status_lks [simp]: "lks (send_status_notification E h) = lks h"
  by (simp add: send_status_notification_def)

lemma fault_lks [simp]: "lks (fault h) = lks h"
  by simp

lemma modem_ppp_attach_lks [simp]: "lks (modem_ppp_attach N p h) = lks h"
  by (simp add: modem_ppp_attach_def split: option.split)

text \<open>Stopping closes the sockets; it either completes, or leaves a request to try again.\<close>

lemma ppp_stop_done:
  assumes "ppp_state (lks h) \<noteq> PPP_STATE_STOPPED" and "fst (ppp_stop E N reason h) = 0"
  defines "s \<equiv> lks (snd (ppp_stop E N reason h))"
  shows "ppp_state s = PPP_STATE_STOPPED" and "ppp_zephyr_fd s < 0" and "ppp_modem_fd s < 0"
    and "ppp_queue s = ppp_queue (lks h)" and "ppp_keep_pipe_attached s = ppp_keep_pipe_attached (lks h)"
    and "ppp_auto_start s = ppp_auto_start (lks h)"
    and "ppp_pipe s = (if ppp_keep_pipe_attached (lks h) then ppp_pipe (lks h) else None)"
    and "ppp_urc_pipe s = ppp_urc_pipe (lks h)"
  using assms(1,2) unfolding s_def by (simp_all add: ppp_stop_def net_call_split Let_def split: if_split_asm)

lemma ppp_stop_retry:
  assumes "fst (ppp_stop E N reason h) \<noteq> 0"
  defines "s \<equiv> lks (snd (ppp_stop E N reason h))"
  shows "ppp_state (lks h) \<noteq> PPP_STATE_STOPPED" and "ppp_state s = PPP_STATE_STOPPING"
    and "ppp_zephyr_fd s < 0" and "ppp_modem_fd s < 0"
    and "ppp_queue s = take 4 (ppp_queue (lks h)) @ (if length (ppp_queue (lks h)) < 4 then [\<lparr>pe_action = PPP_STOP, pe_reason = reason\<rparr>] else drop 4 (ppp_queue (lks h)))"
    and "ppp_pipe s = ppp_pipe (lks h)" and "ppp_keep_pipe_attached s = ppp_keep_pipe_attached (lks h)"
  using assms(1) unfolding s_def
  by (simp_all add: ppp_stop_def net_call_split Let_def delegate_lks split: if_split_asm)

lemma ppp_stop_stopped:
  "ppp_state (lks h) = PPP_STATE_STOPPED \<Longrightarrow> ppp_stop E N reason h = (0, h)"
  by (simp add: ppp_stop_def)

text \<open>Starting returns early, or brings the link up, or undoes what it did by stopping.\<close>

lemma ppp_start_shape:
  assumes "ppp_state (lks h) \<noteq> PPP_STATE_RUNNING"
  obtains (early) "fst (ppp_start E N h) \<noteq> 0" and "snd (ppp_start E N h) = start_addr N h"
  | (no_if) "fst (ppp_start E N h) \<noteq> 0" and "snd (ppp_start E N h) = snd (ppp_stop E N PPP_REASON_ERROR (start_if N h))"
  | (no_sock) "fst (ppp_start E N h) \<noteq> 0"
      and "snd (ppp_start E N h) = snd (ppp_stop E N PPP_REASON_ERROR (ppp_start_failure N (start_sock N h)))"
  | (up) "fst (ppp_start E N h) = 0" and "fst (open_ppp_sockets N (start_if N h))" and "snd (ppp_start E N h) = start_up E N h"
proof -
  let ?conf = "fst (configure_ppp_link_ip_addresses N (upd_lk (\<lambda>s. s\<lparr>ppp_cgev_paused := False\<rparr>) h))"
  let ?pipe = "ppp_pipe (lks (start_addr N h))"
  let ?up = "fst (net_call (n_if_up N) (ppp_retrieve_pdn_info N (set_ppp_state PPP_STATE_STARTING (start_addr N h))))"
  consider "\<not> ?conf \<or> ?pipe = None" | "?conf" "?pipe \<noteq> None" "?up \<noteq> 0"
    | "?conf" "?pipe \<noteq> None" "?up = 0" "\<not> fst (open_ppp_sockets N (start_if N h))"
    | "?conf" "?pipe \<noteq> None" "?up = 0" "fst (open_ppp_sockets N (start_if N h))" by blast
  then show thesis
  proof cases
    case 1
    then show thesis using assms by (intro early) (auto simp: ppp_start_def start_addr_def Let_def case_prod_unfold)
  next
    case 2
    then show thesis using assms
      by (intro no_if) (simp_all add: ppp_start_def start_addr_def start_if_def Let_def case_prod_unfold del: not_None_eq)
  next
    case 3
    then show thesis using assms
      by (intro no_sock) (simp_all add: ppp_start_def start_addr_def start_if_def start_sock_def Let_def case_prod_unfold del: not_None_eq)
  next
    case 4
    then show thesis using assms
      by (intro up) (simp_all add: ppp_start_def start_addr_def start_if_def start_sock_def start_up_def Let_def case_prod_unfold
          del: not_None_eq)
  qed
qed

lemma start_up_lks: "lks (start_up E N h) = (lks (start_sock N h))\<lparr>ppp_state := PPP_STATE_RUNNING\<rparr>"
  by (simp add: start_up_def Let_def)

lemma ppp_start_cases:
  assumes "ppp_state (lks h) \<noteq> PPP_STATE_RUNNING"
  obtains (early) c where "fst (ppp_start E N h) \<noteq> 0"
      and "lks (snd (ppp_start E N h)) = (lks h)\<lparr>ppp_cgev_paused := False, ppp_ctx := c\<rparr>"
  | (up) z m pr c where "fst (ppp_start E N h) = 0" and "0 \<le> z" and "0 \<le> m"
      and "lks (snd (ppp_start E N h)) = (lks h)\<lparr>ppp_cgev_paused := False, ppp_ctx := c, ppp_zephyr_fd := z,
        ppp_modem_fd := m, ppp_sll_protocol := pr, ppp_state := PPP_STATE_RUNNING\<rparr>"
  | (undone) g where "fst (ppp_start E N h) \<noteq> 0" and "snd (ppp_start E N h) = snd (ppp_stop E N PPP_REASON_ERROR g)"
      and "ppp_state (lks g) = PPP_STATE_STARTING" and "ppp_queue (lks g) = ppp_queue (lks h)"
      and "ppp_pipe (lks g) = ppp_pipe (lks h)" and "ppp_keep_pipe_attached (lks g) = ppp_keep_pipe_attached (lks h)"
proof -
  obtain c where s1: "lks (start_addr N h) = (lks h)\<lparr>ppp_cgev_paused := False, ppp_ctx := c\<rparr>" by (rule start_addr_lks)
  obtain c' where s3: "lks (start_if N h) = (lks h)\<lparr>ppp_cgev_paused := False, ppp_state := PPP_STATE_STARTING, ppp_ctx := c'\<rparr>"
    by (rule start_if_lks)
  obtain z m pr where s4: "lks (start_sock N h) = (lks (start_if N h))\<lparr>ppp_zephyr_fd := z, ppp_modem_fd := m, ppp_sll_protocol := pr\<rparr>"
    and opened: "fst (open_ppp_sockets N (start_if N h)) \<longrightarrow> 0 \<le> z \<and> 0 \<le> m" by (rule start_sock_lks [of N h])
  from assms show thesis
  proof (cases rule: ppp_start_shape)
    case early
    show thesis by (rule that(1) [OF early(1)]) (simp add: early(2) s1)
  next
    case no_if
    show thesis by (rule that(3) [OF no_if]) (simp_all add: s3)
  next
    case no_sock
    have "lks (ppp_start_failure N (start_sock N h)) = lks (close_ppp_sockets N (start_sock N h))"
      by (simp add: ppp_start_failure_def net_call_split)
    then show thesis by (intro that(3) [OF no_sock]) (simp_all add: s3 s4)
  next
    case up
    have "lks (snd (ppp_start E N h)) = (lks h)\<lparr>ppp_cgev_paused := False, ppp_ctx := c', ppp_zephyr_fd := z,
        ppp_modem_fd := m, ppp_sll_protocol := pr, ppp_state := PPP_STATE_RUNNING\<rparr>"
      by (simp add: up(3) start_up_lks s3 s4)
    with up(1,2) opened show thesis by (intro that(2) [of z m]) simp_all
  qed
qed

lemma ppp_start_ok:
  assumes "ppp_state (lks h) \<noteq> PPP_STATE_RUNNING" and "fst (ppp_start E N h) = 0"
  shows "ppp_state (lks (snd (ppp_start E N h))) = PPP_STATE_RUNNING"
    and "ppp_queue (lks (snd (ppp_start E N h))) = ppp_queue (lks h)"
  using assms(2) by (cases rule: ppp_start_cases [OF assms(1)]; simp)+

lemma ppp_stop_inv: "ppp_inv (lks h) \<Longrightarrow> ppp_inv (lks (snd (ppp_stop E N reason h)))"
  using ppp_stop_done [of h reason] ppp_stop_retry [of reason h] ppp_stop_stopped [of h reason]
  by (cases "fst (ppp_stop E N reason h) = 0"; cases "ppp_state (lks h) = PPP_STATE_STOPPED")
    (simp_all add: ppp_inv_def split: if_splits)

lemma ppp_start_inv:
  assumes "ppp_inv (lks h)"
  shows "ppp_inv (lks (snd (ppp_start E N h)))"
proof (cases "ppp_state (lks h) = PPP_STATE_RUNNING")
  case True
  then show ?thesis using assms by (simp add: ppp_start_def)
next
  case False
  then show ?thesis
  proof (cases rule: ppp_start_cases)
    case (early c)
    then show ?thesis using assms by simp
  next
    case (up z m c pr)
    then show ?thesis using assms by (simp add: ppp_inv_def)
  next
    case (undone g)
    then have "ppp_inv (lks (snd (ppp_stop E N PPP_REASON_ERROR g)))"
      using assms by (intro ppp_stop_inv) (simp add: ppp_inv_def)
    then show ?thesis by (simp only: undone(2))
  qed
qed

lemma ppp_work_event_inv: "ppp_inv (lks h) \<Longrightarrow> ppp_inv (lks (ppp_work_event E N ev h))"
  using ppp_start_inv [of h] ppp_stop_inv [of h "pe_reason ev"] ppp_start_inv [of "snd (ppp_stop E N (pe_reason ev) h)"]
  by (auto simp: ppp_work_event_def case_prod_unfold split: ppp_action.split)

lemma ppp_work_fn_inv:
  assumes "ppp_work_fn E N h = Some h'" and "ppp_inv (lks h)"
  shows "ppp_inv (lks h')"
proof -
  have "E = E \<longrightarrow> N = N \<longrightarrow> ppp_inv (lks h) \<longrightarrow> ppp_inv (lks h')"
    using ppp_work_event_inv
    by (intro ppp_work_fn.raw_induct [OF _ assms(1), of "\<lambda>E' N' g r. E' = E \<longrightarrow> N' = N \<longrightarrow> ppp_inv (lks g) \<longrightarrow> ppp_inv (lks r)"])
      (auto split: if_splits)
  then show ?thesis using assms(2) by simp
qed

lemma poll_event_inv:
  assumes "ppp_poll_event E N fds fd revents h = Some h'" and "ppp_inv (lks h)"
  shows "ppp_inv (lks h')"
  using assms ppp_work_fn_inv
  by (auto simp: ppp_poll_event_def net_call_split ppp_forward_def Let_def case_prod_unfold split: if_splits)

lemma set_pipe_lks [simp]: "lks (snd (sm_at_host_set_pipe E ctx p h)) = lks h"
  by (simp add: sm_at_host_set_pipe_def sm_at_host_destroy_def set_c_pipe_def free_lks Let_def split: option.split)

lemma set_pipe_lksD: "sm_at_host_set_pipe E ctx p h = (r, h') \<Longrightarrow> lks h' = lks h"
  using set_pipe_lks [of ctx p h] by simp

lemma cmds_inv:
  assumes "ppp_inv (lks h)"
  shows "ppp_inv (lks (snd (handle_at_ppp E N P ty pa n h)))" and "ppp_inv (lks (snd (handle_at_cgdata E N P ty pa n h)))"
  using assms
  by (simp_all add: handle_at_ppp_def handle_at_cgdata_def sm_ppp_set_auto_start_def sm_ppp_detach_def net_call_split Let_def
      split: sum.split option.split)

lemma detach_attach_inv [simp]:
  "ppp_inv (lks h) \<Longrightarrow> ppp_inv (lks (sm_ppp_detach N h))" "ppp_inv (lks h) \<Longrightarrow> ppp_inv (lks (sm_ppp_attach p h))"
  by (simp_all add: sm_ppp_detach_def sm_ppp_attach_def pipe_release_def Let_def split: option.split)

lemma trace_inv [simp]:
  "ppp_inv (lks h) \<Longrightarrow> ppp_inv (lks (sm_trace_backend_detach h))" "lks (sm_trace_backend_attach p h) = lks h"
  by (simp_all add: sm_trace_backend_detach_def sm_trace_backend_attach_def pipe_release_def split: option.split)

lemma init_dlci_lks [simp]: "lks (init_dlci E N i h) = lks h"
  by (simp add: init_dlci_def net_call_split)

lemma init_dlcis_lks [simp]: "lks (fold (init_dlci E N) is h) = lks h"
  by (induction "is" arbitrary: h) simp_all

lemma cmux_release_lks [simp]: "lks (modem_cmux_release N h) = lks h"
  by (simp add: modem_cmux_release_def pipe_release_def split: option.split)

lemma cmux_start_lks [simp]: "lks (snd (cmux_start E N h)) = lks h"
  by (auto simp: cmux_start_def modem_cmux_attach_def net_call_split Let_def split: option.splits prod.splits
      dest: set_pipe_lksD open_lks)

lemma cmux_start_cmd_inv: "ppp_inv (lks h) \<Longrightarrow> ppp_inv (lks (snd (cmux_start_cmd E N h)))"
  by (simp add: cmux_start_cmd_def case_prod_unfold)

lemma assign_inv: "ppp_inv (lks h) \<Longrightarrow> ppp_inv (lks (assign_default_channels E N h))"
  by (simp add: assign_default_channels_def Let_def)

lemma switch_inv: "ppp_inv (lks h) \<Longrightarrow> ppp_inv (lks (snd (do_at_and_ppp_channel_switch E i h)))"
  by (simp add: do_at_and_ppp_channel_switch_def sm_ppp_detach_after_disconnect_def Let_def case_prod_unfold)

lemma cmux_cmds_inv:
  assumes "ppp_inv (lks h)"
  shows "ppp_inv (lks (snd (handle_at_xcmux E N P ty pa n h)))" and "ppp_inv (lks (snd (handle_at_xcmuxcld E ty n h)))"
    and "ppp_inv (lks (snd (handle_at_cmux E N P ty pa n h)))" and "ppp_inv (lks (snd (handle_at_xcmuxtrace E P ty pa n h)))"
  using assms cmux_start_cmd_inv assign_inv switch_inv
  by (simp_all add: handle_at_xcmux_def handle_at_xcmuxcld_def handle_at_cmux_def handle_at_xcmuxtrace_def Let_def
      split: sum.split option.split at_parser_cmd_type.split)

lemma works_inv:
  assumes "ppp_inv (lks h)"
  shows "ppp_inv (lks (stop_work_fn E N h))" and "ppp_inv (lks (sm_ppp_activate_pdp_dwork_fn E N h))"
    and "ppp_inv (lks (at_notif_on_cgev N s h))" and "ppp_inv (lks (ppp_net_mgmt_event_handler E N ph h))"
    and "ppp_inv (lks (cmux_event_handler ev h))" and "ppp_inv (lks (ppp_poll_failed N h))"
    and "ppp_inv (lks (snd (at_cgerep_callback N len s h)))" and "ppp_inv (lks (snd (at_cfun_set_callback N len s h)))"
    and "ppp_inv (lks (trace_pipe_event_handler p pev h))"
  using assms
  by (simp_all add: stop_work_fn_def sm_ppp_activate_pdp_dwork_fn_def ppp_cmd_fail_return_to_at_mode_def
      sm_ppp_set_auto_start_def at_notif_on_cgev_def ppp_net_mgmt_event_handler_def cmux_event_handler_def ppp_poll_failed_def
      at_cgerep_callback_def at_cfun_set_callback_def subscribe_cgev_notifications_def trace_pipe_event_handler_def
      net_call_split Let_def case_prod_unfold
      split: option.split list.split ppp_phase.split modem_cmux_event.split modem_pipe_event.split)

text \<open>When the interface can be brought down, stopping completes at once and nothing is queued again.\<close>

lemma stop_completes:
  assumes "\<And>v. fst (n_if_down N v) = 0"
  shows "fst (ppp_stop E N reason h) = 0"
  using assms by (simp add: ppp_stop_def net_call_split Let_def)

lemma work_event_completes:
  assumes "\<And>v. fst (n_if_down N v) = 0"
  shows "ppp_queue (lks (ppp_work_event E N ev h)) = ppp_queue (lks h)"
    and "pe_action ev = PPP_STOP \<Longrightarrow> ppp_state (lks (ppp_work_event E N ev h)) = PPP_STATE_STOPPED"
proof -
  note done0 = stop_completes [OF assms]
  have stop: "ppp_queue (lks (snd (ppp_stop E N r g))) = ppp_queue (lks g)"
    "ppp_state (lks (snd (ppp_stop E N r g))) = PPP_STATE_STOPPED" for r g
    using ppp_stop_done [OF _ done0] ppp_stop_stopped [of g r] by (cases "ppp_state (lks g) = PPP_STATE_STOPPED", simp_all)+
  have start: "ppp_queue (lks (snd (ppp_start E N g))) = ppp_queue (lks g)" for g
  proof (cases "ppp_state (lks g) = PPP_STATE_RUNNING")
    case False
    then show ?thesis by (cases rule: ppp_start_cases) (simp_all add: stop)
  qed (simp add: ppp_start_def)
  show "ppp_queue (lks (ppp_work_event E N ev h)) = ppp_queue (lks h)"
    by (simp add: ppp_work_event_def case_prod_unfold stop start split: ppp_action.split)
  show "pe_action ev = PPP_STOP \<Longrightarrow> ppp_state (lks (ppp_work_event E N ev h)) = PPP_STATE_STOPPED"
    by (simp add: ppp_work_event_def stop)
qed

lemma work_fn_drains:
  assumes "\<And>v. fst (n_if_down N v) = 0"
  shows "\<exists>h'. ppp_work_fn E N h = Some h' \<and> ppp_queue (lks h') = [] \<and> (ppp_queue (lks h) = [] \<longrightarrow> h' = h) \<and>
    (ppp_queue (lks h) \<noteq> [] \<and> pe_action (last (ppp_queue (lks h))) = PPP_STOP \<longrightarrow> ppp_state (lks h') = PPP_STATE_STOPPED)"
proof (induction "ppp_queue (lks h)" arbitrary: h)
  case Nil
  then show ?case by (subst ppp_work_fn.simps) simp
next
  case (Cons ev q)
  let ?g = "ppp_work_event E N ev (upd_lk (\<lambda>s. s\<lparr>ppp_queue := q\<rparr>) h)"
  have q: "ppp_queue (lks ?g) = q" by (simp add: work_event_completes [OF assms])
  obtain h' where h': "ppp_work_fn E N ?g = Some h'" "ppp_queue (lks h') = []" "q = [] \<longrightarrow> h' = ?g"
    "q \<noteq> [] \<and> pe_action (last q) = PPP_STOP \<longrightarrow> ppp_state (lks h') = PPP_STATE_STOPPED"
    using Cons.hyps(1) [OF q [symmetric]] by (auto simp: q)
  have "upd_lk (\<lambda>s. s\<lparr>ppp_queue := tl (ppp_queue s)\<rparr>) h = upd_lk (\<lambda>s. s\<lparr>ppp_queue := q\<rparr>) h"
    by (simp add: upd_lk_def Cons.hyps(2) [symmetric])
  then have "ppp_work_fn E N h = ppp_work_fn E N ?g"
    by (subst ppp_work_fn.simps) (simp add: Cons.hyps(2) [symmetric])
  moreover have "pe_action ev = PPP_STOP \<Longrightarrow> q = [] \<Longrightarrow> ppp_state (lks h') = PPP_STATE_STOPPED"
    using h'(3) work_event_completes(2) [OF assms, of ev] by simp
  ultimately show ?case using h' by (auto simp: Cons.hyps(2) [symmetric])
qed

text \<open>When it cannot, each attempt to stop puts the request back into the queue that is being emptied.\<close>

lemma stop_requeues:
  assumes "\<And>v. fst (n_if_down N v) \<noteq> 0" "\<And>v. n_if_is_admin_up N v"
    and "ppp_state (lks h) \<noteq> PPP_STATE_STOPPED" "length (ppp_queue (lks h)) < PPP_QUEUE_LEN"
  shows "fst (ppp_stop E N r h) \<noteq> 0" "stop_pending (snd (ppp_stop E N r h))"
proof -
  show "fst (ppp_stop E N r h) \<noteq> 0" using assms by (simp add: ppp_stop_def net_call_split Let_def)
  from ppp_stop_retry [OF this] assms(4) show "stop_pending (snd (ppp_stop E N r h))" by (simp add: stop_pending_def)
qed

lemma work_event_requeues:
  assumes "\<And>v. fst (n_if_down N v) \<noteq> 0" "\<And>v. n_if_is_admin_up N v"
    and "stop_pending h"
  shows "stop_pending (ppp_work_event E N (hd (ppp_queue (lks h))) (upd_lk (\<lambda>s. s\<lparr>ppp_queue := tl (ppp_queue s)\<rparr>) h))"
    (is "stop_pending (ppp_work_event E N ?ev ?g)")
proof -
  have g: "ppp_state (lks ?g) \<noteq> PPP_STATE_STOPPED" "length (ppp_queue (lks ?g)) < PPP_QUEUE_LEN" "ppp_queue (lks h) \<noteq> []"
    using assms(3) stop_pending_queue [OF assms(3)] by (cases "ppp_queue (lks h)", simp_all add: stop_pending_def)+
  note stop = stop_requeues [OF assms(1,2) g(1,2)]
  show ?thesis
  proof (cases "pe_action ?ev")
    case PPP_START
    then have tl: "PPP_STOP \<in> pe_action ` set (ppp_queue (lks ?g))"
      using assms(3) g(3) by (auto simp: stop_pending_def neq_Nil_conv)
    have "stop_pending (snd (ppp_start E N ?g))"
    proof (cases "ppp_state (lks ?g) = PPP_STATE_RUNNING")
      case True
      then show ?thesis using g(2) tl by (simp add: ppp_start_def stop_pending_def)
    next
      case False
      then show ?thesis
      proof (cases rule: ppp_start_cases)
        case (undone x)
        then show ?thesis using stop_requeues(2) [OF assms(1,2), of x] g(2) by simp
      qed (use g tl in \<open>auto simp: stop_pending_def\<close>)
    qed
    then show ?thesis using PPP_START by (simp add: ppp_work_event_def)
  qed (use stop in \<open>simp_all add: ppp_work_event_def case_prod_unfold\<close>)
qed

lemma work_fn_spins:
  assumes "\<And>v. fst (n_if_down N v) \<noteq> 0" "\<And>v. n_if_is_admin_up N v" and "stop_pending h"
  shows "ppp_work_fn E N h = None"
proof (rule ccontr)
  assume "ppp_work_fn E N h \<noteq> None"
  then obtain r where r: "ppp_work_fn E N h = Some r" by blast
  have "E = E \<longrightarrow> N = N \<longrightarrow> \<not> stop_pending h"
    using work_event_requeues [OF assms(1,2)] stop_pending_queue
    by (intro ppp_work_fn.raw_induct [OF _ r, of "\<lambda>E' N' g r. E' = E \<longrightarrow> N' = N \<longrightarrow> \<not> stop_pending g"])
      (simp split: if_splits, blast+)
  then show False using assms(3) by simp
qed

end

end
