(* ===== verification/Link_Net.thy ===== *)
theory Link_Net
  imports Ppp_Link
begin

text \<open>
  Observations of the world outside: the sockets that are open, and the signal of the event descriptor that
  wakes the PPP thread. An interface says which calls leave an observation alone; the accounting of sockets
  and the signalling of events are proved over it.
\<close>

section \<open>Calls that leave an observation alone\<close>

text \<open>All calls but the ones that open and close descriptors or use the event descriptor.\<close>

locale net_quiet =
  fixes N :: "'v link_env" and obs :: "'v \<Rightarrow> 'a"
  assumes quiet:
    "obs (snd (n_bind N fd v)) = obs v" "obs (snd (n_bind_to_pdn N fd pdn v)) = obs v"
    "obs (snd (n_recv N fd n v)) = obs v" "obs (snd (n_sendto N fd d pr v)) = obs v"
    "obs (snd (n_if_up N v)) = obs v" "obs (snd (n_if_down N v)) = obs v" "obs (n_if_set N op v) = obs v"
    "obs (n_ppp_attach N p v) = obs v" "obs (n_ppp_release N v) = obs v" "obs (snd (n_rand32 N v)) = obs v"
    "obs (x_cmux_init N v) = obs v" "obs (snd (x_dlci_init N i v)) = obs v" "obs (snd (x_cmux_attach N p v)) = obs v"
    "obs (x_cmux_release N v) = obs v" "obs (x_trace_processed N n v) = obs v" "obs (snd (x_sem_wait N v)) = obs v"
    and quiet_at_cmd: "obs (snd (snd (m_at_cmd (n_util N) n s v))) = obs v"
    and quiet_at_scanf: "obs (snd (snd (snd (m_at_scanf (n_util N) n m s v)))) = obs v"
begin

declare quiet [simp] quiet_at_cmd [simp] quiet_at_scanf [simp]

lemma at_scanf_obs [simp]: "obs (snd (sm_util_at_scanf (n_util N) cmd fmt v)) = obs v"
  by (simp add: sm_util_at_scanf_def Let_def case_prod_unfold)

lemma util_obs [simp]:
  "obs (snd (util_get_ip_addr (n_util N) cid b c v)) = obs v" "obs (snd (sm_util_pdn_id_get (n_util N) k v)) = obs v"
  "obs (snd (sm_util_pdn_dynamic_info_get (n_util N) k v)) = obs v"
  "obs (snd (sm_util_cereg_is_registered (n_util N) v)) = obs v" "obs (snd (sm_util_is_cid_active (n_util N) k v)) = obs v"
  "obs (snd (sm_util_at_printf (n_util N) s v)) = obs v" "obs (snd (sm_util_cfun_is_lte_enabled (n_util N) v)) = obs v"
  "obs (snd (sm_util_at_cmd_no_intercept (n_util N) n s v)) = obs v"
  by (simp_all add: util_get_ip_addr_def sm_util_pdn_id_get_def sm_util_pdn_dynamic_info_get_def sm_util_cereg_is_registered_def
      sm_util_cereg_get_def sm_util_is_cid_active_def sm_util_at_printf_def sm_util_cfun_is_lte_enabled_def sm_util_cfun_get_def
      sm_util_at_cmd_no_intercept_def Let_def case_prod_unfold)

end

text \<open>The host's own calls leave it alone as well.\<close>

locale link_obs = net_quiet N obs + host: world_kept E "\<lambda>w. obs (lk_world w)"
  for E :: "('rb, 'v links) env" and N :: "'v link_env" and obs :: "'v \<Rightarrow> 'a" +
  assumes free_obs: "obs (lk_world (e_free_ctx E i w)) = obs (lk_world w)"
    and open_obs: "e_pipe_open E p w = (r, w') \<Longrightarrow> obs (lk_world w') = obs (lk_world w)"
begin

abbreviation ob :: "('rb, 'v links) host \<Rightarrow> 'a" where "ob h \<equiv> obs (lk_world (h_world h))"

lemma link_calls_obs [simp]:
  "ob (send_status_notification E h) = ob h" "ob (modem_ppp_attach N q h) = ob h"
  "ob (snd (configure_ppp_link_ip_addresses N h)) = ob h" "ob (ppp_retrieve_pdn_info N h) = ob h"
  "ob (set_ppp_state st h) = ob h"
  by (simp_all add: send_status_notification_def modem_ppp_attach_def configure_ppp_link_ip_addresses_def
      ppp_retrieve_pdn_info_def set_ppp_state_def upd_pc_def net_call_split Let_def case_prod_unfold split: option.split)

end

section \<open>Sockets\<close>

definition held :: "link_state \<Rightarrow> int set" where
  "held s = {fd. 0 \<le> fd \<and> (fd = ppp_zephyr_fd s \<or> fd = ppp_modem_fd s)}"

lemma held_none: "ppp_zephyr_fd s < 0 \<Longrightarrow> ppp_modem_fd s < 0 \<Longrightarrow> held s = {}"
  by (auto simp: held_def)

text \<open>A new descriptor is one that was not open; closing forgets it.\<close>

locale link_sockets = link_host E N + link_obs E N open_fds
  for E :: "('rb, 'v links) env" and N :: "'v link_env" and open_fds :: "'v \<Rightarrow> int set" +
  assumes socket_new: "0 \<le> fst (n_socket N k v) \<Longrightarrow>
      fst (n_socket N k v) \<notin> open_fds v \<and> open_fds (snd (n_socket N k v)) = insert (fst (n_socket N k v)) (open_fds v)"
    and socket_failed: "fst (n_socket N k v) < 0 \<Longrightarrow> open_fds (snd (n_socket N k v)) = open_fds v"
    and closed: "open_fds (snd (n_close N fd v)) = open_fds v - {fd}"
    and written: "open_fds (snd (n_eventfd_write N fd v)) = open_fds v"
begin

lemma delegate_ob [simp]: "ob (delegate_ppp_event N a r h) = ob h"
  by (simp add: delegate_ppp_event_def Let_def net_call_split written)

lemma close_ob: "ob (close_ppp_sockets N h) = ob h - held (lks h)"
  by (auto simp: close_ppp_sockets_def Let_def net_call_split closed held_def)

lemma open_ob:
  assumes fds: "ppp_modem_fd (lks h) < 0 \<or> fst (open_ppp_sockets N h)"
  defines "h' \<equiv> snd (open_ppp_sockets N h)"
  shows "ob h' = ob h \<union> held (lks h')" and "ob h \<inter> held (lks h') = {}"
proof -
  obtain z v1 where z: "n_socket N ZephyrPacketSocket (lk_world (h_world h)) = (z, v1)" by fastforce
  obtain b v2 where b: "n_bind N z v1 = (b, v2)" by fastforce
  obtain m v3 where m: "n_socket N ModemRawSocket v2 = (m, v3)" by fastforce
  have z_new: "z \<notin> ob h \<and> open_fds v1 = insert z (ob h)" if "0 \<le> z"
    using socket_new [of ZephyrPacketSocket "lk_world (h_world h)"] that by (simp add: z)
  have v2: "open_fds v2 = open_fds v1" using quiet(1) [of z v1] by (simp add: b)
  have m_new: "m \<notin> open_fds v2 \<and> open_fds v3 = insert m (open_fds v2)" if "0 \<le> m"
    using socket_new [of ModemRawSocket v2] that by (simp add: m)
  have m_failed: "open_fds v3 = open_fds v2" if "m < 0"
    using socket_failed [of ModemRawSocket v2] that by (simp add: m)
  consider "z < 0" | "0 \<le> z" "b < 0" | "0 \<le> z" "0 \<le> b" "m < 0" | "0 \<le> z" "0 \<le> b" "0 \<le> m" by linarith
  then have "ob h' = ob h \<union> held (lks h') \<and> ob h \<inter> held (lks h') = {}"
  proof cases
    case 1
    then have "lks h' = (lks h)\<lparr>ppp_zephyr_fd := z\<rparr>" "lk_world (h_world h') = v1" "\<not> fst (open_ppp_sockets N h)"
      by (simp_all add: h'_def open_ppp_sockets_def net_call_split Let_def z)
    then show ?thesis using 1 fds socket_failed [of ZephyrPacketSocket "lk_world (h_world h)"] by (simp add: z held_none)
  next
    case 2
    then have "ppp_zephyr_fd (lks h') = z" "ppp_modem_fd (lks h') = ppp_modem_fd (lks h)" "lk_world (h_world h') = v2"
      "\<not> fst (open_ppp_sockets N h)"
      by (simp_all add: h'_def open_ppp_sockets_def net_call_split Let_def z b)
    moreover from this have "held (lks h') = {z}" using 2 fds by (auto simp: held_def)
    ultimately show ?thesis using z_new [OF 2(1)] v2 by simp
  next
    case 3
    then have "ppp_zephyr_fd (lks h') = z" "ppp_modem_fd (lks h') = m" "lk_world (h_world h') = v3"
      by (simp_all add: h'_def open_ppp_sockets_def net_call_split Let_def z b m)
    moreover from this have "held (lks h') = {z}" using 3 by (auto simp: held_def)
    ultimately show ?thesis using z_new [OF 3(1)] v2 m_failed [OF 3(3)] by simp
  next
    case 4
    then have "ppp_zephyr_fd (lks h') = z" "ppp_modem_fd (lks h') = m" "ob h' = open_fds v3"
      by (simp_all add: h'_def open_ppp_sockets_def net_call_split Let_def z b m)
    moreover from this have "held (lks h') = {z, m}" using 4 by (auto simp: held_def)
    ultimately show ?thesis using z_new [OF 4(1)] v2 m_new [OF 4(3)] by auto
  qed
  then show "ob h' = ob h \<union> held (lks h')" and "ob h \<inter> held (lks h') = {}" by simp_all
qed

lemma stop_ob: "ppp_state (lks h) \<noteq> PPP_STATE_STOPPED \<Longrightarrow> ob (snd (ppp_stop E N r h)) = ob h - held (lks h)"
  by (simp add: ppp_stop_def net_call_split Let_def close_ob held_def)

lemma stopped_held: "ppp_state (lks h) \<noteq> PPP_STATE_STOPPED \<Longrightarrow> held (lks (snd (ppp_stop E N r h))) = {}"
  using ppp_stop_done(2,3) [of h r] ppp_stop_retry(3,4) [of r h] by (cases "fst (ppp_stop E N r h) = 0") (simp_all add: held_none)

text \<open>A start adds exactly the sockets that the link then holds, when it held none or succeeds.\<close>

lemma start_stages_ob: "ob (start_addr N h) = ob h" "ob (start_if N h) = ob h"
  by (simp_all add: start_if_def start_addr_def net_call_split)

lemma start_ob:
  assumes "ppp_state (lks h) \<noteq> PPP_STATE_RUNNING"
    and fds: "ppp_zephyr_fd (lks h) < 0 \<and> ppp_modem_fd (lks h) < 0 \<or> fst (ppp_start E N h) = 0"
  defines "h' \<equiv> snd (ppp_start E N h)"
  shows "ob h' = ob h \<union> held (lks h') \<and> ob h \<inter> held (lks h') = {}"
proof -
  obtain c where s1: "lks (start_addr N h) = (lks h)\<lparr>ppp_cgev_paused := False, ppp_ctx := c\<rparr>" by (rule start_addr_lks)
  obtain c' where s3: "lks (start_if N h) = (lks h)\<lparr>ppp_cgev_paused := False, ppp_state := PPP_STATE_STARTING, ppp_ctx := c'\<rparr>"
    by (rule start_if_lks)
  obtain z m pr where s4: "lks (start_sock N h) = (lks (start_if N h))\<lparr>ppp_zephyr_fd := z, ppp_modem_fd := m, ppp_sll_protocol := pr\<rparr>"
    by (rule start_sock_lks)
  from assms(1) show ?thesis
  proof (cases rule: ppp_start_shape)
    case early
    then show ?thesis using fds s1 by (simp add: h'_def start_stages_ob held_none)
  next
    case no_if
    then show ?thesis using fds s3 stop_ob [of "start_if N h" PPP_REASON_ERROR] stopped_held [of "start_if N h" PPP_REASON_ERROR]
      by (simp add: h'_def start_stages_ob held_none)
  next
    case no_sock
    let ?g = "ppp_start_failure N (start_sock N h)"
    have g: "ob ?g = ob (start_sock N h) - held (lks (start_sock N h))" "lks ?g = lks (close_ppp_sockets N (start_sock N h))"
      by (simp_all add: ppp_start_failure_def net_call_split close_ob)
    moreover have "held (lks ?g) = {}" "ppp_state (lks ?g) = PPP_STATE_STARTING" using s3 s4 by (simp_all add: g held_none)
    moreover have "ob (start_sock N h) = ob h \<union> held (lks (start_sock N h))" "ob h \<inter> held (lks (start_sock N h)) = {}"
      using open_ob [of "start_if N h"] fds s3 no_sock(1) by (auto simp: start_stages_ob start_sock_def)
    ultimately show ?thesis
      using stop_ob [of ?g PPP_REASON_ERROR] stopped_held [of ?g PPP_REASON_ERROR] no_sock(2) by (auto simp: h'_def)
  next
    case up
    then have "lks h' = (lks (start_sock N h))\<lparr>ppp_state := PPP_STATE_RUNNING\<rparr>" "ob h' = ob (start_sock N h)"
      by (simp_all add: h'_def start_up_lks) (simp add: start_up_def Let_def)
    moreover have "held (s\<lparr>ppp_state := PPP_STATE_RUNNING\<rparr>) = held s" for s by (simp add: held_def)
    ultimately show ?thesis using open_ob [of "start_if N h"] up(2) by (simp add: start_stages_ob start_sock_def)
  qed
qed

text \<open>Start and stop together leave exactly the descriptors that were open before.\<close>

lemma start_stop_balanced:
  assumes "ppp_state (lks h) = PPP_STATE_STOPPED" and "ppp_inv (lks h)"
  shows "ob (snd (ppp_stop E N r (snd (ppp_start E N h)))) = ob h"
proof -
  let ?h1 = "snd (ppp_start E N h)"
  have o1: "ob ?h1 = ob h \<union> held (lks ?h1)" "ob h \<inter> held (lks ?h1) = {}"
    using start_ob [of h] assms by (auto simp: ppp_inv_def)
  show ?thesis
  proof (cases "ppp_state (lks ?h1) = PPP_STATE_STOPPED")
    case True
    then have "held (lks ?h1) = {}" using ppp_start_inv [OF assms(2)] by (simp add: ppp_inv_def held_none)
    then show ?thesis using o1 True by (simp add: ppp_stop_stopped)
  next
    case False
    then show ?thesis using o1 stop_ob [OF False, of r] by auto
  qed
qed

end

end
