(* ===== verification/Link_Run.thy ===== *)
theory Link_Run
  imports Link_Net
begin

text \<open>
  The link modules as a machine: every command, notification, work item and event of a round of the PPP
  thread is one step, and the AT host runs in between. The properties of the PPP link and of the
  multiplexer over its runs.
\<close>

section \<open>Steps\<close>

datatype 'p link_event =
    CmdPpp at_parser_cmd_type 'p nat | CmdCgdata at_parser_cmd_type 'p nat | CmdXcmux at_parser_cmd_type 'p nat
  | CmdXcmuxcld at_parser_cmd_type nat | CmdCmux at_parser_cmd_type 'p nat | CmdXcmuxtrace at_parser_cmd_type 'p nat
  | Cgerep nat string | CfunSet nat string | Cgev string | Phase ppp_phase | ActivatePdp
  | CmuxEvent modem_cmux_event | CmuxStop | TraceEvent pipe modem_pipe_event | PollFailed | PollEvent "int list" int "16 word"
  | HostRuns | HostResponds string | HostNotifies string

inductive link_step ::
  "('rb, 'v links) env \<Rightarrow> 'v link_env \<Rightarrow> 'p at_parser_ops \<Rightarrow> ('rb, 'v links) host \<Rightarrow> 'p link_event \<Rightarrow>
   ('rb, 'v links) host \<Rightarrow> bool"
  for E :: "('rb, 'v links) env" and N :: "'v link_env" and P :: "'p at_parser_ops" where
  ppp: "link_step E N P h (CmdPpp ty pa n) (snd (handle_at_ppp E N P ty pa n h))"
| cgdata: "link_step E N P h (CmdCgdata ty pa n) (snd (handle_at_cgdata E N P ty pa n h))"
| xcmux: "link_step E N P h (CmdXcmux ty pa n) (snd (handle_at_xcmux E N P ty pa n h))"
| xcmuxcld: "link_step E N P h (CmdXcmuxcld ty n) (snd (handle_at_xcmuxcld E ty n h))"
| cmux: "link_step E N P h (CmdCmux ty pa n) (snd (handle_at_cmux E N P ty pa n h))"
| xcmuxtrace: "link_step E N P h (CmdXcmuxtrace ty pa n) (snd (handle_at_xcmuxtrace E P ty pa n h))"
| cgerep: "link_step E N P h (Cgerep len s) (snd (at_cgerep_callback N len s h))"
| cfun: "link_step E N P h (CfunSet len s) (snd (at_cfun_set_callback N len s h))"
| cgev: "\<not> ppp_cgev_paused (lks h) \<Longrightarrow> link_step E N P h (Cgev s) (at_notif_on_cgev N s h)"
| phase: "link_step E N P h (Phase ph) (ppp_net_mgmt_event_handler E N ph h)"
| activate: "ppp_activate_dwork (lks h) \<Longrightarrow> link_step E N P h ActivatePdp (sm_ppp_activate_pdp_dwork_fn E N h)"
| cmux_event: "link_step E N P h (CmuxEvent ev) (cmux_event_handler ev h)"
| cmux_stop: "cmux_stop_work (lks h) \<Longrightarrow> link_step E N P h CmuxStop (stop_work_fn E N h)"
| trace_event: "h_pipe_cb h p = TraceBackend \<Longrightarrow> link_step E N P h (TraceEvent p pev) (trace_pipe_event_handler p pev h)"
| poll_failed: "link_step E N P h PollFailed (ppp_poll_failed N h)"
| poll_event: "ppp_poll_event E N fds fd revents h = Some h' \<Longrightarrow> link_step E N P h (PollEvent fds fd revents) h'"
| host_runs: "h_world h' = h_world h \<Longrightarrow> link_step E N P h HostRuns h'"
| host_responds: "link_step E N P h (HostResponds s) (rsp_send E s h)"
| host_notifies: "link_step E N P h (HostNotifies s) (urc_send E s h)"

inductive link_run ::
  "('rb, 'v links) env \<Rightarrow> 'v link_env \<Rightarrow> 'p at_parser_ops \<Rightarrow> ('rb, 'v links) host \<Rightarrow> 'p link_event list \<Rightarrow>
   ('rb, 'v links) host \<Rightarrow> bool"
  for E :: "('rb, 'v links) env" and N :: "'v link_env" and P :: "'p at_parser_ops" where
  none: "link_run E N P h [] h"
| more: "link_step E N P h e h' \<Longrightarrow> link_run E N P h' es h'' \<Longrightarrow> link_run E N P h (e # es) h''"

inductive_cases link_stepE: "link_step E N P h e h'"

context link_host
begin

lemma step_inv: "link_step E N P h e h' \<Longrightarrow> ppp_inv (lks h) \<Longrightarrow> ppp_inv (lks h')"
  by (erule link_stepE) (simp_all add: cmds_inv cmux_cmds_inv works_inv poll_event_inv)

lemma run_inv: "link_run E N P h es h' \<Longrightarrow> ppp_inv (lks h) \<Longrightarrow> ppp_inv (lks h')"
  by (induction rule: link_run.induct) (simp_all add: step_inv)

end

section \<open>The signal of the event descriptor\<close>

text \<open>The queue has its signal: the thread is woken as long as events wait.\<close>

definition sig_inv :: "('v \<Rightarrow> bool) \<Rightarrow> ('rb, 'v links) host \<Rightarrow> bool" where
  "sig_inv sig h \<longleftrightarrow> (ppp_queue (lks h) \<noteq> [] \<longrightarrow> sig (lk_world (h_world h)))"

locale link_events = link_host E N + link_obs E N signalled
  for E :: "('rb, 'v links) env" and N :: "'v link_env" and signalled :: "'v \<Rightarrow> bool" +
  assumes write_signals: "signalled (snd (n_eventfd_write N fd v))"
    and read_failed: "fst (n_eventfd_read N fd v) \<noteq> 0 \<Longrightarrow> signalled (snd (n_eventfd_read N fd v)) = signalled v"
begin

lemma delegate_sig [simp]: "sig_inv signalled h \<Longrightarrow> sig_inv signalled (delegate_ppp_event N a r h)"
  by (simp add: sig_inv_def delegate_ppp_event_def Let_def net_call_split write_signals)

end

lemma work_fn_empties:
  assumes "ppp_work_fn E N h = Some h'"
  shows "ppp_queue (lks h') = []"
  by (rule ppp_work_fn.raw_induct [OF _ assms, of "\<lambda>E' N' g r. ppp_queue (lks r) = []"]) (simp split: if_splits)

context link_events
begin

lemma sig_upd [simp]: "ppp_queue (f (lks h)) = ppp_queue (lks h) \<Longrightarrow> sig_inv signalled (upd_lk f h) = sig_inv signalled h"
  by (simp add: sig_inv_def)

lemma sig_calls [simp]:
  "sig_inv signalled (rsp_send E s h) = sig_inv signalled h" "sig_inv signalled (rsp_send_ok E h) = sig_inv signalled h"
  "sig_inv signalled (urc_send E s h) = sig_inv signalled h"
  "sig_inv signalled (rsp_send_to E p s h) = sig_inv signalled h" "sig_inv signalled (send_status_notification E h) = sig_inv signalled h"
  "sig_inv signalled (sm_at_host_cmd_done_pipe E p h) = sig_inv signalled h"
  "sig_inv signalled (sm_at_host_release E ctx h) = sig_inv signalled h" "sig_inv signalled (sm_at_host_attach E p h) = sig_inv signalled h"
  "sig_inv signalled (modem_ppp_attach N p h) = sig_inv signalled h" "sig_inv signalled (set_ppp_state st h) = sig_inv signalled h"
  "sig_inv signalled (fault h) = sig_inv signalled h" "sig_inv signalled (pipe_attach q cb h) = sig_inv signalled h"
  "sig_inv signalled (h\<lparr>h_fwd_cgev_notifs := b\<rparr>) = sig_inv signalled h"
  "sig_inv signalled (h\<lparr>h_cmux_uart_pipe := up\<rparr>) = sig_inv signalled h" "sig_inv signalled (h\<lparr>h_cmux_dlcis := ds\<rparr>) = sig_inv signalled h"
  by (simp_all add: sig_inv_def)

lemma sig_net [simp]: "(\<And>v. signalled (f v) = signalled v) \<Longrightarrow> sig_inv signalled (net_do f h) = sig_inv signalled h"
  by (simp add: sig_inv_def)

lemma set_pipe_sig [simp]: "sig_inv signalled (snd (sm_at_host_set_pipe E ctx p h)) = sig_inv signalled h"
proof -
  have "ob (snd (sm_at_host_set_pipe E ctx p h)) = ob h"
    by (simp add: sm_at_host_set_pipe_def sm_at_host_destroy_def set_c_pipe_def free_obs Let_def split: option.split)
  then show ?thesis by (simp add: sig_inv_def)
qed

lemma link_sig [simp]:
  assumes "sig_inv signalled h"
  shows "sig_inv signalled (sm_ppp_detach N h)" "sig_inv signalled (sm_ppp_attach p h)" "sig_inv signalled (sm_ppp_set_auto_start b h)"
    "sig_inv signalled (sm_trace_backend_detach h)" "sig_inv signalled (sm_trace_backend_attach p h)"
    "sig_inv signalled (modem_cmux_release N h)" "sig_inv signalled (init_dlci E N i h)"
    "sig_inv signalled (subscribe_cgev_notifications N h)" "sig_inv signalled (ppp_cmd_fail_return_to_at_mode E h)"
    "sig_inv signalled (assign_default_channels E N h)"
  using assms
  by (simp_all add: sm_ppp_detach_def sm_ppp_attach_def sm_ppp_set_auto_start_def sm_trace_backend_detach_def sm_trace_backend_attach_def
      modem_cmux_release_def init_dlci_def subscribe_cgev_notifications_def ppp_cmd_fail_return_to_at_mode_def pipe_release_def
      assign_default_channels_def net_call_split Let_def split: option.split)

lemma init_dlcis_sig [simp]: "sig_inv signalled h \<Longrightarrow> sig_inv signalled (fold (init_dlci E N) is h)"
  by (induction "is" arbitrary: h) simp_all

lemma cmux_start_sig: "sig_inv signalled h \<Longrightarrow> sig_inv signalled (snd (cmux_start_cmd E N h))"
proof -
  have opened: "sig_inv signalled (g\<lparr>h_world := snd (e_pipe_open E p (h_world g))\<rparr>)" if "sig_inv signalled g" for p g
    using that open_lks [OF prod.collapse [symmetric]] open_obs [OF prod.collapse [symmetric]] by (simp add: sig_inv_def)
  show "sig_inv signalled h \<Longrightarrow> sig_inv signalled (snd (cmux_start_cmd E N h))"
    by (simp add: cmux_start_cmd_def cmux_start_def modem_cmux_attach_def net_call_split case_prod_unfold Let_def opened split: option.split)
qed

lemma cmds_sig:
  assumes "sig_inv signalled h"
  shows "sig_inv signalled (snd (handle_at_ppp E N P ty pa n h))" "sig_inv signalled (snd (handle_at_cgdata E N P ty pa n h))"
    "sig_inv signalled (snd (handle_at_xcmuxcld E ty n h))" "sig_inv signalled (snd (handle_at_xcmuxtrace E P ty pa n h))"
    "sig_inv signalled (snd (handle_at_cmux E N P ty pa n h))"
  using assms
  by (simp_all add: handle_at_ppp_def handle_at_cgdata_def handle_at_xcmuxcld_def handle_at_xcmuxtrace_def handle_at_cmux_def cmux_start_sig
      net_call_split Let_def split: sum.split option.split at_parser_cmd_type.split)

lemma xcmux_sig: "sig_inv signalled h \<Longrightarrow> sig_inv signalled (snd (handle_at_xcmux E N P ty pa n h))"
  by (simp add: handle_at_xcmux_def do_at_and_ppp_channel_switch_def sm_ppp_detach_after_disconnect_def cmux_start_sig Let_def
      case_prod_unfold split: sum.split)

lemma works_sig:
  assumes "sig_inv signalled h"
  shows "sig_inv signalled (stop_work_fn E N h)" "sig_inv signalled (sm_ppp_activate_pdp_dwork_fn E N h)"
    "sig_inv signalled (at_notif_on_cgev N s h)" "sig_inv signalled (ppp_net_mgmt_event_handler E N ph h)"
    "sig_inv signalled (cmux_event_handler ev h)" "sig_inv signalled (ppp_poll_failed N h)"
    "sig_inv signalled (snd (at_cgerep_callback N len s h))" "sig_inv signalled (snd (at_cfun_set_callback N len s h))"
    "sig_inv signalled (trace_pipe_event_handler p pev h)"
  using assms
  by (simp_all add: stop_work_fn_def sm_ppp_activate_pdp_dwork_fn_def at_notif_on_cgev_def ppp_net_mgmt_event_handler_def
      cmux_event_handler_def ppp_poll_failed_def at_cgerep_callback_def at_cfun_set_callback_def trace_pipe_event_handler_def
      net_call_split Let_def case_prod_unfold
      split: option.split list.split ppp_phase.split modem_cmux_event.split modem_pipe_event.split)

lemma work_fn_sig: "ppp_work_fn E N g = Some h' \<Longrightarrow> sig_inv signalled h'"
  by (simp add: sig_inv_def work_fn_empties [of E N g])

lemma poll_event_sig:
  assumes "ppp_poll_event E N fds fd revents h = Some h'" and "sig_inv signalled h"
  shows "sig_inv signalled h'"
proof -
  have forward: "sig_inv signalled (ppp_forward N b x y h)" for b x y
    using assms(2) by (simp add: ppp_forward_def net_call_split Let_def case_prod_unfold)
  have failed: "sig_inv signalled (net_do (\<lambda>v. snd (n_eventfd_read N fd v)) h)" if "fst (n_eventfd_read N fd (lk_world (h_world h))) \<noteq> 0"
    using assms(2) read_failed [OF that] by (simp add: sig_inv_def)
  show ?thesis
    using assms forward failed by (auto simp: ppp_poll_event_def net_call_split dest: work_fn_sig split: if_splits)
qed

lemma step_sig: "link_step E N P h e h' \<Longrightarrow> sig_inv signalled h \<Longrightarrow> sig_inv signalled h'"
  by (erule link_stepE) (simp_all add: cmds_sig xcmux_sig works_sig poll_event_sig, simp add: sig_inv_def)

lemma run_sig: "link_run E N P h es h' \<Longrightarrow> sig_inv signalled h \<Longrightarrow> sig_inv signalled h'"
  by (induction rule: link_run.induct) (simp_all add: step_sig)

end

section \<open>Returning to the UART\<close>

lemma send_msg_links [simp]:
  "h_pipe_cb (send_msg E m h) = h_pipe_cb h" "h_cmux_dlcis (send_msg E m h) = h_cmux_dlcis h"
  "h_cmux_uart_pipe (send_msg E m h) = h_cmux_uart_pipe h" "h_instances (send_msg E m h) = h_instances h"
  "m_ctx m = None \<Longrightarrow> h_ctx (send_msg E m h) = h_ctx h"
  by (simp_all add: send_msg_def work_submit_def check_idle_timer_def Let_def split: prod.split option.split)

lemma host_attach_frame [simp]:
  "h_pipe_cb (sm_at_host_attach E (Some d) h) = (h_pipe_cb h)(d := NullPipeHandler)"
  "h_cmux_dlcis (sm_at_host_attach E (Some d) h) = h_cmux_dlcis h"
  "h_cmux_uart_pipe (sm_at_host_attach E (Some d) h) = h_cmux_uart_pipe h"
  "h_instances (sm_at_host_attach E (Some d) h) = h_instances h" "h_ctx (sm_at_host_attach E (Some d) h) = h_ctx h"
  by (simp_all add: sm_at_host_attach_def sm_at_pipe_opened_def Let_def)

lemma init_dlci_frame:
  fixes E N i h
  defines "d \<equiv> fst (x_dlci_init N i (lk_world (h_world h)))"
  shows "h_pipe_cb (init_dlci E N i h) = (h_pipe_cb h)(d := NullPipeHandler)"
    "h_cmux_dlcis (init_dlci E N i h) = (h_cmux_dlcis h)[i := Some d]"
    "h_cmux_uart_pipe (init_dlci E N i h) = h_cmux_uart_pipe h" "h_ctx (init_dlci E N i h) = h_ctx h"
    "h_instances (init_dlci E N i h) = h_instances h"
  by (simp_all add: init_dlci_def net_call_split d_def)

text \<open>The channels after the table has been filled: each has a pipe, which waits to be opened.\<close>

lemma init_dlcis_frame:
  fixes E N h
  assumes "\<And>i v. fst (x_dlci_init N i v) \<noteq> p"
  defines "h' \<equiv> \<lambda>n. fold (init_dlci E N) [0..<n] h"
  shows "h_pipe_cb (h' n) p = h_pipe_cb h p \<and> h_ctx (h' n) = h_ctx h \<and> h_cmux_uart_pipe (h' n) = h_cmux_uart_pipe h \<and>
    length (h_cmux_dlcis (h' n)) = length (h_cmux_dlcis h) \<and>
    (n \<le> length (h_cmux_dlcis h) \<longrightarrow> (\<forall>k<n. \<exists>d. h_cmux_dlcis (h' n) ! k = Some d \<and> h_pipe_cb (h' n) d = NullPipeHandler))"
proof (induction n)
  case (Suc n)
  have h': "h' (Suc n) = init_dlci E N n (h' n)" by (simp add: h'_def)
  have "\<exists>d. h_cmux_dlcis (h' (Suc n)) ! k = Some d \<and> h_pipe_cb (h' (Suc n)) d = NullPipeHandler"
    if "k < Suc n" "Suc n \<le> length (h_cmux_dlcis h)" for k
  proof (cases "k = n")
    case False
    with that have "k < n" "n \<le> length (h_cmux_dlcis h)" by simp_all
    with Suc.IH obtain d where "h_cmux_dlcis (h' n) ! k = Some d" "h_pipe_cb (h' n) d = NullPipeHandler" by blast
    with False show ?thesis by (simp add: h' init_dlci_frame)
  qed (use that Suc.IH in \<open>simp add: h' init_dlci_frame\<close>)
  then show ?case using Suc.IH assms(1) [symmetric] by (simp add: h' init_dlci_frame)
qed (simp add: h'_def)

text \<open>The first instance gets the pipe it is given.\<close>

lemma set_pipe_first:
  fixes E p
  assumes "h_instances h = i # is"
  defines "h' \<equiv> snd (sm_at_host_set_pipe E (Some i) (Some p) h)"
  shows "c_pipe (h_ctx h' i) = Some p" "h_pipe_cb h' p = AtPipeHandler (Some i)" "h_instances h' = h_instances h"
    "h_cmux_uart_pipe h' = h_cmux_uart_pipe h" "h_cmux_dlcis h' = h_cmux_dlcis h"
proof -
  let ?h1 = "set_c_pipe i (Some p) h"
  let ?h2 = "case c_pipe (h_ctx h i) of Some q \<Rightarrow> pipe_attach q NullPipeHandler ?h1 | None \<Rightarrow> ?h1"
  have "sm_at_host_get_ctx_from (Some p) ?h2 = Some i"
    using assms(1) by (simp add: sm_at_host_get_ctx_from_def set_c_pipe_def split: option.split)
  then have "h' = pipe_attach p (AtPipeHandler (Some i)) ?h2"
    using assms(1) by (simp add: h'_def sm_at_host_set_pipe_def sm_at_ctx_check_def Let_def)
  then show "c_pipe (h_ctx h' i) = Some p" "h_pipe_cb h' p = AtPipeHandler (Some i)" "h_instances h' = h_instances h"
    "h_cmux_uart_pipe h' = h_cmux_uart_pipe h" "h_cmux_dlcis h' = h_cmux_dlcis h"
    by (simp_all add: set_c_pipe_def split: option.split)
qed

lemma detach_frame [simp]:
  "h_instances (sm_ppp_detach N h) = h_instances h" "h_cmux_uart_pipe (sm_ppp_detach N h) = h_cmux_uart_pipe h"
  "h_instances (sm_trace_backend_detach h) = h_instances h" "h_cmux_uart_pipe (sm_trace_backend_detach h) = h_cmux_uart_pipe h"
  "h_instances (modem_cmux_release N h) = h_instances h" "h_cmux_uart_pipe (modem_cmux_release N h) = h_cmux_uart_pipe h"
  "h_cmux_dlcis (sm_ppp_detach N h) = h_cmux_dlcis h" "h_cmux_dlcis (sm_trace_backend_detach h) = h_cmux_dlcis h"
  "h_cmux_dlcis (modem_cmux_release N h) = h_cmux_dlcis h"
  by (simp_all add: sm_ppp_detach_def delegate_ppp_event_def net_call_split sm_trace_backend_detach_def pipe_release_def
      modem_cmux_release_def Let_def split: option.split)

context link_host
begin

lemma stop_work_lks:
  assumes "sm_cmux_is_started h" and "cfg_ppp E"
  defines "s \<equiv> lks (stop_work_fn E N h)"
  shows "ppp_pipe s = None" "cmux_at_channel s = 0" "ppp_activate_dwork s = ppp_activate_dwork (lks h)"
    "ppp_pdn_cid s = ppp_pdn_cid (lks h)" "\<not> ppp_auto_start s" "\<not> cmux_stop_work s"
  using assms(1,2) unfolding s_def
  by (simp_all add: stop_work_fn_def sm_ppp_detach_def sm_trace_backend_detach_def delegate_lks pipe_release_def sm_cmux_is_started_def
      Let_def del: not_None_eq split: option.split)

end

section \<open>A start that overtakes a stop\<close>

lemma work_fn_step:
  "ppp_queue (lks h) = ev # q \<Longrightarrow>
   ppp_work_fn E N h = ppp_work_fn E N (ppp_work_event E N ev (upd_lk (\<lambda>s. s\<lparr>ppp_queue := tl (ppp_queue s)\<rparr>) h))"
  by (subst ppp_work_fn.simps) simp

lemma work_fn_done: "ppp_queue (lks h) = [] \<Longrightarrow> ppp_work_fn E N h = Some h"
  by (subst ppp_work_fn.simps) simp

lemma held_queue [simp]: "held (s\<lparr>ppp_queue := q\<rparr>) = held s" "held (s\<lparr>ppp_state := x\<rparr>) = held s"
  by (simp_all add: held_def)

context link_sockets
begin

lemma restart_leaks:
  assumes "\<And>v. fst (n_if_down N v) = 0" and "ppp_state (lks h) = PPP_STATE_RUNNING"
    and "ppp_queue (lks h) = [\<lparr>pe_action = PPP_START, pe_reason = PPP_REASON_NETWORK\<rparr>]"
    and h1: "h1 = delegate_ppp_event N PPP_STOP PPP_REASON_NETWORK (set_ppp_state PPP_STATE_STOPPING h)"
    and "held (lks h) \<subseteq> ob h"
    and started: "fst (ppp_start E N (upd_lk (\<lambda>s. s\<lparr>ppp_queue := tl (ppp_queue s)\<rparr>) h1)) = 0"
  shows "\<exists>h2. ppp_work_fn E N h1 = Some h2 \<and> ppp_state (lks h2) = PPP_STATE_STOPPED \<and> held (lks h2) = {} \<and> held (lks h) \<subseteq> ob h2"
proof -
  let ?pop = "upd_lk (\<lambda>s. s\<lparr>ppp_queue := tl (ppp_queue s)\<rparr>)"
  let ?g = "?pop h1" and ?hs = "snd (ppp_start E N (?pop h1))"
  let ?h2 = "snd (ppp_stop E N PPP_REASON_NETWORK (?pop ?hs))"
  have g: "ppp_state (lks ?g) = PPP_STATE_STOPPING" "ppp_queue (lks ?g) = [\<lparr>pe_action = PPP_STOP, pe_reason = PPP_REASON_NETWORK\<rparr>]"
    "ob ?g = ob h" using assms(3) by (simp_all add: h1 delegate_lks)
  have o: "ob ?hs = ob h \<union> held (lks ?hs)" "ob h \<inter> held (lks ?hs) = {}" using start_ob [of ?g] started g by auto
  have hs: "ppp_state (lks ?hs) = PPP_STATE_RUNNING" "ppp_queue (lks ?hs) = ppp_queue (lks ?g)"
    using ppp_start_ok [OF _ started] g(1) by simp_all
  note stop = stop_completes [OF assms(1)]
  have h2: "ppp_state (lks ?h2) = PPP_STATE_STOPPED" "ppp_queue (lks ?h2) = []" "held (lks ?h2) = {}" "ob ?h2 = ob h"
    using ppp_stop_done [of "?pop ?hs" PPP_REASON_NETWORK] stop stopped_held [of "?pop ?hs" PPP_REASON_NETWORK]
      stop_ob [of "?pop ?hs" PPP_REASON_NETWORK] hs g(2) o by auto
  have "ppp_work_fn E N h1 = ppp_work_fn E N ?hs"
    using work_fn_step [of h1 "\<lparr>pe_action = PPP_START, pe_reason = PPP_REASON_NETWORK\<rparr>"] assms(3)
    by (simp add: h1 delegate_lks ppp_work_event_def)
  also have "\<dots> = ppp_work_fn E N ?h2"
    using work_fn_step [of ?hs "\<lparr>pe_action = PPP_STOP, pe_reason = PPP_REASON_NETWORK\<rparr>"] hs g(2) by (simp add: ppp_work_event_def)
  finally show ?thesis using work_fn_done [of ?h2] h2 assms(5) by auto
qed

end

section \<open>Properties\<close>

text \<open>C17: In every state that the link modules reach after initialisation, in any interleaving of commands,
  notifications, work items, polling rounds and output of the AT host: a stopped link holds no socket, a
  running link holds both of its sockets and listens to the notifications of the network, and the event
  queue has at most four entries.\<close>

theorem ppp_states_match_sockets:
  assumes "link_host E" and "lks h0 = link_state_zero" and "sm_ppp_init N h0 = (0, h)" and "link_run E N P h es h'"
  shows "(ppp_state (lks h') = PPP_STATE_STOPPED \<longrightarrow> ppp_zephyr_fd (lks h') < 0 \<and> ppp_modem_fd (lks h') < 0) \<and>
    (ppp_state (lks h') = PPP_STATE_RUNNING \<longrightarrow>
       0 \<le> ppp_zephyr_fd (lks h') \<and> 0 \<le> ppp_modem_fd (lks h') \<and> \<not> ppp_cgev_paused (lks h')) \<and>
    length (ppp_queue (lks h')) \<le> PPP_QUEUE_LEN"
proof -
  have "ppp_inv (lks h)"
    using assms(2,3) by (auto simp: sm_ppp_init_def net_call_split Let_def ppp_inv_def link_state_zero_def split: if_splits)
  then show ?thesis using link_host.run_inv [OF assms(1,4)] by (simp add: ppp_inv_def)
qed

text \<open>C18: No event is left in the queue unnoticed: whenever an event waits for the PPP thread, its event
  descriptor is signalled, so that the thread's next poll returns.\<close>

theorem ppp_events_signalled:
  assumes "link_events E N sig" and "lks h0 = link_state_zero" and "sm_ppp_init N h0 = (0, h)" and "link_run E N P h es h'"
    and "ppp_queue (lks h') \<noteq> []"
  shows "sig (lk_world (h_world h'))"
proof -
  have "sig_inv sig h"
    using assms(2,3) by (auto simp: sm_ppp_init_def net_call_split Let_def sig_inv_def link_state_zero_def split: if_splits)
  then show ?thesis using link_events.run_sig [OF assms(1,4)] assms(5) by (simp add: sig_inv_def)
qed

text \<open>C20: When the network interface can be brought down, processing the event queue terminates with an empty
  queue, and the link is stopped when the last event asked for that.\<close>

theorem ppp_work_fn_drains:
  assumes "link_host E" and "\<And>v. fst (n_if_down N v) = 0"
  shows "\<exists>h'. ppp_work_fn E N h = Some h' \<and> ppp_queue (lks h') = [] \<and>
    (ppp_queue (lks h) \<noteq> [] \<and> pe_action (last (ppp_queue (lks h))) = PPP_STOP \<longrightarrow> ppp_state (lks h') = PPP_STATE_STOPPED)"
  using link_host.work_fn_drains [OF assms] by blast

text \<open>When bringing the interface down keeps failing, stopping the link never returns: the retry that is
  meant for later goes into the queue that is being emptied, so the PPP thread spins.\<close>

lemma ppp_stop_retry_spins:
  assumes "link_host E" and "\<And>v. fst (n_if_down N v) \<noteq> 0" and "\<And>v. n_if_is_admin_up N v"
    and "ppp_state (lks h) \<noteq> PPP_STATE_STOPPED" and "ppp_queue (lks h) = [\<lparr>pe_action = PPP_STOP, pe_reason = r\<rparr>]"
  shows "ppp_work_fn E N h = None"
  using link_host.work_fn_spins [OF assms(1-3), of h] assms(4,5) by (simp add: stop_pending_def)


text \<open>A start that is processed between the thread's notice that the connection went down and the stop it
  queues overwrites the descriptors of the old sockets: they stay open when the link has been stopped.\<close>

lemma ppp_restart_leaks_sockets:
  assumes "link_sockets E N open_fds" and "\<And>v. fst (n_if_down N v) = 0"
    and "ppp_state (lks h) = PPP_STATE_RUNNING" and "ppp_queue (lks h) = [\<lparr>pe_action = PPP_START, pe_reason = PPP_REASON_NETWORK\<rparr>]"
    and "fd = ppp_modem_fd (lks h)" and "fd \<noteq> ppp_event_fd (lks h)" and "held (lks h) \<subseteq> open_fds (lk_world (h_world h))"
    and "ppp_poll_event E N fds fd 8 h = Some h1"
    and "fst (ppp_start E N (upd_lk (\<lambda>s. s\<lparr>ppp_queue := tl (ppp_queue s)\<rparr>) h1)) = 0"
  shows "\<exists>h2. ppp_work_fn E N h1 = Some h2 \<and> ppp_state (lks h2) = PPP_STATE_STOPPED \<and> held (lks h2) = {} \<and>
    held (lks h) \<subseteq> open_fds (lk_world (h_world h2))"
  using link_sockets.restart_leaks [OF assms(1-4) _ assms(7,9)] assms(3,5,6,8) by (simp add: ppp_poll_event_def split: if_splits)

text \<open>C29: Leaving the multiplexer gives the UART back to the first context of the AT host, whatever the modules
  were doing: its pipe is the UART pipe and it gets the events of that pipe, PPP has no pipe and does not
  start by itself, and every channel is back in its initial state, waiting to be opened.\<close>

theorem cmux_stop_restores_uart:
  assumes "link_host E" and "cfg_ppp E" and "h_cmux_uart_pipe h = Some p" and "h_instances h = i # is"
    and "\<And>k v. fst (x_dlci_init N k v) \<noteq> p"
  defines "h' \<equiv> stop_work_fn E N h"
  shows "\<not> sm_cmux_is_started h' \<and> c_pipe (h_ctx h' i) = Some p \<and> h_pipe_cb h' p = AtPipeHandler (Some i) \<and>
    ppp_pipe (lks h') = None \<and> \<not> ppp_auto_start (lks h') \<and> cmux_at_channel (lks h') = 0 \<and>
    (\<forall>k<length (h_cmux_dlcis h). \<exists>d. h_cmux_dlcis h' ! k = Some d \<and> h_pipe_cb h' d = NullPipeHandler)"
proof -
  have started: "sm_cmux_is_started h" using assms(3) by (simp add: sm_cmux_is_started_def)
  let ?h1 = "sm_ppp_detach N (upd_lk (\<lambda>s. s\<lparr>cmux_stop_work := False\<rparr>) h)"
  let ?h2 = "if cfg_trace_cmux N then sm_trace_backend_detach ?h1 else ?h1"
  let ?h3 = "(upd_lk (\<lambda>s. s\<lparr>cmux_at_channel := 0\<rparr>) (modem_cmux_release N ?h2))\<lparr>h_cmux_uart_pipe := None\<rparr>"
  let ?h4 = "snd (sm_at_host_set_pipe E (Some i) (Some p) ?h3)"
  have h3: "h_instances ?h3 = i # is" "h_cmux_uart_pipe ?h3 = None" "h_cmux_dlcis ?h3 = h_cmux_dlcis h"
    using assms(4) by simp_all
  have "sm_at_host_get_urc_ctx E ?h3 = Some i"
    using h3(1,2) by (simp add: sm_at_host_get_urc_ctx_def sm_cmux_is_started_def first_instance_def)
  then have "h' = fold (init_dlci E N) [0..<length (h_cmux_dlcis ?h4)] ?h4"
    using started assms(2,3) by (simp add: h'_def stop_work_fn_def sm_cmux_is_started_def Let_def)
  then show ?thesis
    using init_dlcis_frame [OF assms(5), of E "length (h_cmux_dlcis ?h4)" ?h4] set_pipe_first [OF h3(1), of E p] h3
      link_host.stop_work_lks [OF assms(1) started assms(2), of N]
    by (simp add: h'_def sm_cmux_is_started_def)
qed

text \<open>C38: Leaving the multiplexer while a data call waits for the network (\<open>AT+CGDATA\<close>) does not cancel the
  waiting work item: it has lost its pipe, and when the network is there it hands a null pointer to the
  PPP module.\<close>

theorem activation_outlives_pipe:
  assumes "link_host E" and "cfg_ppp E" and "sm_cmux_is_started h" and "ppp_activate_dwork (lks h)"
    and "\<And>v. fst (sm_util_cereg_is_registered (n_util N) v)"
    and "\<And>v. fst (sm_util_is_cid_active (n_util N) (unat (ppp_pdn_cid (lks h))) v)"
  defines "h' \<equiv> stop_work_fn E N h"
  shows "ppp_activate_dwork (lks h') \<and> h_fault (sm_ppp_activate_pdp_dwork_fn E N h')"
proof -
  note s = link_host.stop_work_lks [OF assms(1,3,2), of N, folded h'_def]
  have ctx: "\<not> sm_at_ctx_check (sm_at_host_get_ctx_from None g) g" for g :: "('a, 'b links) host"
    by (simp add: sm_at_host_get_ctx_from_def sm_at_ctx_check_def)
  have faulted: "h_fault (delegate_ppp_event N a r (sm_ppp_set_auto_start b (fault g)))" for a r b and g :: "('a, 'b links) host"
    by (simp add: delegate_ppp_event_def sm_ppp_set_auto_start_def net_call_split Let_def)
  show ?thesis
    using assms(4-6) s
    by (simp add: sm_ppp_activate_pdp_dwork_fn_def net_call_split case_prod_unfold Let_def rsp_send_to_def ctx
        sm_at_host_release_def modem_ppp_attach_def faulted)
qed

text \<open>A data call whose PDP context has no address when the link is started keeps the pipe it was given:
  the link stays stopped, PPP remains the user of the pipe, and no later request to stop gives it back to
  the AT host.\<close>

lemma failed_call_keeps_pipe:
  assumes "link_host E" and "ppp_state (lks h) = PPP_STATE_STOPPED" and "ppp_pipe (lks h) = Some p" and "h_pipe_cb h p = PppModule"
    and "ppp_queue (lks h) = [\<lparr>pe_action = PPP_START, pe_reason = PPP_REASON_CMD\<rparr>]"
    and "fst (util_get_ip_addr (n_util N) (sint (ppp_pdn_cid (lks h))) True True (lk_world (h_world h))) = ([], [])"
  shows "\<exists>h'. ppp_work_fn E N h = Some h' \<and> ppp_state (lks h') = PPP_STATE_STOPPED \<and> ppp_pipe (lks h') = Some p \<and>
    h_pipe_cb h' p = PppModule \<and> ppp_stop E N r h' = (0, h')"
proof -
  let ?g = "upd_lk (\<lambda>s. s\<lparr>ppp_cgev_paused := False\<rparr>) (upd_lk (\<lambda>s. s\<lparr>ppp_queue := tl (ppp_queue s)\<rparr>) h)"
  let ?h' = "snd (configure_ppp_link_ip_addresses N ?g)"
  have conf: "\<not> fst (configure_ppp_link_ip_addresses N ?g)" "lks ?h' = lks ?g" "h_pipe_cb ?h' = h_pipe_cb h"
    using assms(6) by (simp_all add: configure_ppp_link_ip_addresses_def net_call_split case_prod_unfold)
  have "ppp_work_fn E N h = ppp_work_fn E N ?h'"
    using work_fn_step [OF assms(5), of E N] assms(2) conf(1)
    by (simp add: ppp_work_event_def ppp_start_def Let_def case_prod_unfold)
  then show ?thesis
    using work_fn_done [of ?h' E N] conf assms(2-5) by (simp add: ppp_stop_def)
qed

text \<open>A data call on one channel forgets the channel that was reserved for PPP: nobody handles its events
  any more.\<close>

lemma cgdata_orphans_channel:
  fixes E
  assumes "cgdata_cid P parser n = Some cid" and "n \<le> 3" and "ppp_state (lks h) = PPP_STATE_STOPPED"
    and "fst (sm_util_cfun_is_lte_enabled (n_util N) (lk_world (h_world h)))"
    and "ppp_pipe (lks h) = Some q" and "h_pipe_cb h q = NoHandler" and "h_current h = Some i"
    and "sm_at_ctx_check (Some i) h" and "c_pipe (h_ctx h i) = Some p" and "p \<noteq> q"
  defines "r \<equiv> handle_at_cgdata E N P CMD_TYPE_SET parser n h"
  shows "fst r = - AT_COMMAND_CONTINUE_RET" and "ppp_pipe (lks (snd r)) = Some p" and "pipe_event E q ev (snd r) = snd r"
proof -
  let ?h1 = "net_do (\<lambda>v. snd (sm_util_cfun_is_lte_enabled (n_util N) v)) h"
  let ?h2 = "upd_lk (\<lambda>s. s\<lparr>ppp_urc_pipe := None\<rparr>) (sm_ppp_detach N ?h1)"
  have det: "sm_ppp_detach N ?h1 = upd_lk (\<lambda>s. s\<lparr>ppp_pipe := None, ppp_keep_pipe_attached := False, ppp_auto_start := False\<rparr>) ?h1"
    using assms(3) by (simp add: sm_ppp_detach_def sm_ppp_is_stopped_def)
  have "sm_at_host_get_current_pipe E ?h2 = Some p"
    using assms(7-9)
    by (simp add: sm_at_host_get_current_pipe_def sm_at_host_get_current_def sm_at_host_get_pipe_def sm_at_ctx_check_def det)
  then have r: "fst r = - AT_COMMAND_CONTINUE_RET \<and> ppp_pipe (lks (snd r)) = Some p \<and> h_pipe_cb (snd r) = h_pipe_cb h"
    using assms(1-5) by (simp add: r_def handle_at_cgdata_def net_call_split det)
  then show "fst r = - AT_COMMAND_CONTINUE_RET" "ppp_pipe (lks (snd r)) = Some p" by simp_all
  show "pipe_event E q ev (snd r) = snd r" using r assms(6) by (simp add: pipe_event_def)
qed

text \<open>A failure to start the multiplexer is not undone: the retry is refused.\<close>

lemma cmux_start_failure_sticks:
  assumes "h_cmux_uart_pipe h = None" and "x_uart_pipe N = Some p" and "fst (cmux_start E N h) \<noteq> 0"
  shows "sm_cmux_is_started (snd (cmux_start E N h))"
    and "handle_at_xcmux E N P CMD_TYPE_SET parser 1 (snd (cmux_start E N h)) = (- EALREADY, snd (cmux_start E N h))"
proof -
  have "h_cmux_uart_pipe (snd (sm_at_host_set_pipe E ctx d g)) = h_cmux_uart_pipe g" for ctx d g
    by (simp add: sm_at_host_set_pipe_def sm_at_host_destroy_def set_c_pipe_def Let_def split: option.split)
  then show started: "sm_cmux_is_started (snd (cmux_start E N h))"
    using assms by (simp add: cmux_start_def sm_cmux_is_started_def modem_cmux_attach_def net_call_split Let_def case_prod_unfold)
  then show "handle_at_xcmux E N P CMD_TYPE_SET parser 1 (snd (cmux_start E N h)) = (- EALREADY, snd (cmux_start E N h))"
    by (simp add: handle_at_xcmux_def)
qed

end
