(* ===== verification/Link_Demo.thy ===== *)
theory Link_Demo
  imports Link_Run Host_Demo
begin

text \<open>
  A concrete world for the link modules: a table of open descriptors, the signal of the event descriptor,
  a network interface that comes up and goes down, and a modem that is registered and has an address.
  The interfaces of the link hold for it, and the properties are applied to states in it.
\<close>

record net_demo =
  nd_open :: "int list"
  nd_signal :: bool

definition new_fd :: "net_demo \<Rightarrow> int" where
  "new_fd v = 1 + foldr max (nd_open v) 0"

lemma new_fd: "0 \<le> new_fd v" "new_fd v \<notin> set (nd_open v)" "\<not> new_fd v < 0"
proof -
  have "x \<in> set xs \<Longrightarrow> x \<le> foldr max xs 0" and "0 \<le> foldr max xs 0" for x and xs :: "int list"
    by (induction xs) auto
  then show "0 \<le> new_fd v" "new_fd v \<notin> set (nd_open v)" "\<not> new_fd v < 0"
    by (fastforce simp: new_fd_def, fastforce simp: new_fd_def, simp add: new_fd_def add_nonneg_nonneg not_less)
qed

definition demo_answer :: "string \<Rightarrow> string" where
  "demo_answer cmd =
     (if cmd = ''AT+CEREG?'' then ''+CEREG: 5,1''
      else if prefix ''AT+CGPADDR='' cmd then ''+CGPADDR: 0,'' @ [DQUOTE] @ ''10.0.0.1'' @ [DQUOTE]
      else if prefix ''AT%XGETPDNID='' cmd then ''%XGETPDNID: 0''
      else ''ERROR'')"

definition demo_util :: "net_demo util_env" where
  "demo_util = \<lparr>m_at_cmd = (\<lambda>n s v. (0, demo_answer s, v)), m_at_scanf = (\<lambda>n m s v. (1, ''OK'', [], v)),
     m_inet_pton = (\<lambda>v6 s. if v6 then (0, []) else (1, [CHR 0x0A, NUL, NUL, CHR 0x01])), m_inet_ntop = (\<lambda>v6 a. None),
     m_getaddrinfo = (\<lambda>a b c v. (- 2, (0, [], 0), v)), m_errno = (\<lambda>v. 0), m_s1_exists = False, m_s0_active = (\<lambda>v. (0, True)),
     m_s_address = (\<lambda>b. 0), m_fw_version = (\<lambda>a v. (0, 0))\<rparr>"

text \<open>\<open>down\<close> is the result of bringing the interface down.\<close>

definition demo_net :: "int \<Rightarrow> net_demo link_env" where
  "demo_net down = \<lparr>cfg_trace_cmux = False, cfg_ppp_fallback_mtu = 1280, cfg_dns_fallback = None, n_util = demo_util,
     n_socket = (\<lambda>k v. (new_fd v, v\<lparr>nd_open := new_fd v # nd_open v\<rparr>)), n_bind = (\<lambda>fd v. (0, v)), n_bind_to_pdn = (\<lambda>fd pdn v. (0, v)),
     n_close = (\<lambda>fd v. (0, v\<lparr>nd_open := removeAll fd (nd_open v)\<rparr>)), n_recv = (\<lambda>fd n v. ((- 1, []), v)),
     n_sendto = (\<lambda>fd d pr v. (int (length d), v)), n_if_up = (\<lambda>v. (0, v)), n_if_down = (\<lambda>v. (down, v)),
     n_if_is_admin_up = (\<lambda>v. True), n_if_set = (\<lambda>op v. v), n_ppp_attach = (\<lambda>p v. v), n_ppp_release = (\<lambda>v. v),
     n_rand32 = (\<lambda>v. (7, v)), n_eventfd = (\<lambda>v. (9, v)), n_eventfd_write = (\<lambda>fd v. (0, v\<lparr>nd_signal := True\<rparr>)),
     n_eventfd_read = (\<lambda>fd v. if nd_signal v then (0, v\<lparr>nd_signal := False\<rparr>) else (- 1, v)), n_errno = (\<lambda>v. 0),
     n_timepoint = (\<lambda>s v. s), n_expired = (\<lambda>t v. False), x_uart_pipe = Some (Pipe 1), x_cmux_init = (\<lambda>v. v),
     x_dlci_init = (\<lambda>i v. (Pipe (10 + i), v)), x_cmux_attach = (\<lambda>p v. (0, v)), x_cmux_release = (\<lambda>v. v),
     x_trace_processed = (\<lambda>n v. v), x_sem_wait = (\<lambda>v. (True, v))\<rparr>"

definition link_env0 :: "(ring, net_demo links) env" where
  "link_env0 = \<lparr>cfg_termination = CR_TERMINATION, cfg_datamode_terminator = ''+++'',
     cfg_datamode_buf_size = 4, cfg_at_buf_size = 64, cfg_at_echo_max_len = 64, cfg_urc_delay_ms = 50,
     cfg_uart_rx_buf_size = 256, cfg_cmux = True, cfg_ppp = True, cfg_cmux_channel_count = 2,
     e_rb = ring_ops, e_malloc = (\<lambda>n w. (True, w)), e_malloc_ctx = (\<lambda>w. (None, w)), e_free_ctx = (\<lambda>i w. w),
     e_in_isr = (\<lambda>w. False), e_work_submit = (\<lambda>w. (1, w)), e_work_pending = (\<lambda>wk w. False),
     e_pipe_transmit = (\<lambda>p d w. (int (length d), w)), e_pipe_receive = (\<lambda>p w. ((0, NUL), w)),
     e_pipe_is_open = (\<lambda>p w. False), e_pipe_open = (\<lambda>p w. (0, w)), e_pipe_close = (\<lambda>p w. (0, w)),
     e_event_post = (\<lambda>i ev w. w), e_event_wait_idle = (\<lambda>i w. (True, w)),
     e_pm_suspend = (\<lambda>w. (0, w)), e_pm_resume = (\<lambda>w. (0, w)), e_fuel = 100,
     e_datamode_handler = (\<lambda>cb op d fl h. (0, h)), e_at_cmd = (\<lambda>n s h. ((0, ''OK'' @ CRLF_STR @ [NUL]), h)),
     e_xdfu = (\<lambda>x s h. (0, h)), e_final_reset = (\<lambda>h. h), e_run_work = (\<lambda>wk h. h)\<rparr>"

interpretation demo_lks: link_host link_env0 "demo_net d" for d
  by unfold_locales (auto simp: link_env0_def)

interpretation demo_sockets: link_sockets link_env0 "demo_net d" "\<lambda>v. set (nd_open v)" for d
  by unfold_locales (auto simp: link_env0_def demo_net_def demo_util_def new_fd)

interpretation demo_events: link_events link_env0 "demo_net d" nd_signal for d
  by unfold_locales (auto simp: link_env0_def demo_net_def demo_util_def split: if_splits)

section \<open>States\<close>

definition demo_links :: "(link_state \<Rightarrow> link_state) \<Rightarrow> (ring, net_demo links) host" where
  "demo_links f = \<lparr>h_ctx = (\<lambda>i. demo_ctx), h_instances = [0], h_current = Some 0, h_urc_buf = ring_init 8,
     h_urc_channel = 0, h_msgq = [], h_works = [], h_pipe_cb = (\<lambda>p. PppModule),
     h_cmux_uart_pipe = Some (Pipe 1), h_cmux_dlcis = [None, None], h_uart_baudrate = 115200, h_fwd_cgev_notifs = False,
     h_bootloader_mode = False, h_socks = [], h_udp_url = [], h_udp_port = 0, h_world = \<lparr>lk_st = f link_state_zero, lk_world = \<lparr>nd_open = [9, 2, 1], nd_signal = False\<rparr>\<rparr>,
     h_fault = False\<rparr>"

definition demo_parser :: "unit at_parser_ops" where
  "demo_parser = \<lparr>ap_init = (\<lambda>s. Inr ()), ap_cmd_count_get = (\<lambda>p. Inr 2), ap_cmd_type_get = (\<lambda>p. Inr CMD_TYPE_SET),
     ap_num_get_u16 = (\<lambda>p i. Inr 0), ap_num_get_u32 = (\<lambda>p i. Inr 0), ap_num_get_s32 = (\<lambda>p i. Inr 0), ap_string_get = (\<lambda>p i n. (0, ''PPP'')), ap_string_ptr_get = (\<lambda>p i. Inr ''PPP''),
     ap_custom_respond = (\<lambda>n s. 0), ap_err_type = (\<lambda>e. NRF_MODEM_AT_ERROR), ap_err = (\<lambda>e. 0)\<rparr>"

lemma demo_lks_sel [simp]:
  "lks (demo_links f) = f link_state_zero" "lk_world (h_world (demo_links f)) = \<lparr>nd_open = [9, 2, 1], nd_signal = False\<rparr>"
  "h_cmux_uart_pipe (demo_links f) = Some (Pipe 1)" "h_instances (demo_links f) = [0]" "h_cmux_dlcis (demo_links f) = [None, None]"
  by (simp_all add: demo_links_def)

lemma demo_net_sel [simp]:
  "fst (n_if_down (demo_net d) v) = d" "n_if_is_admin_up (demo_net d) v" "fst (x_dlci_init (demo_net d) i v) = Pipe (10 + i)"
  "n_util (demo_net d) = demo_util" "cfg_ppp link_env0"
  by (simp_all add: demo_net_def link_env0_def)

section \<open>The properties at work\<close>

abbreviation "demo_init \<equiv> snd (sm_ppp_init (demo_net 0) (demo_links id))"

lemma demo_init: "sm_ppp_init (demo_net 0) (demo_links id) = (0, demo_init)"
  by (simp add: sm_ppp_init_def net_call_split Let_def) (simp add: demo_net_def)

text \<open>A run: the user asks to stop, and the peer connects.\<close>

lemma demo_run:
  "link_run link_env0 (demo_net 0) demo_parser demo_init [CmdPpp CMD_TYPE_SET () 2, Phase NET_EVENT_PPP_PHASE_RUNNING]
     (ppp_net_mgmt_event_handler link_env0 (demo_net 0) NET_EVENT_PPP_PHASE_RUNNING
        (snd (handle_at_ppp link_env0 (demo_net 0) demo_parser CMD_TYPE_SET () 2 demo_init)))"
  by (rule link_run.more [OF link_step.ppp link_run.more [OF link_step.phase link_run.none]])

theorem ppp_states_match_sockets_witness:
  "length (ppp_queue (lks (ppp_net_mgmt_event_handler link_env0 (demo_net 0) NET_EVENT_PPP_PHASE_RUNNING
     (snd (handle_at_ppp link_env0 (demo_net 0) demo_parser CMD_TYPE_SET () 2 demo_init))))) \<le> 4"
  using ppp_states_match_sockets [OF demo_lks.link_host_axioms _ demo_init demo_run] by simp

lemma demo_run_queue:
  "ppp_queue (lks (ppp_net_mgmt_event_handler link_env0 (demo_net 0) NET_EVENT_PPP_PHASE_RUNNING
     (snd (handle_at_ppp link_env0 (demo_net 0) demo_parser CMD_TYPE_SET () 2 demo_init)))) \<noteq> []"
  by (auto simp: ppp_net_mgmt_event_handler_def handle_at_ppp_def demo_parser_def sm_ppp_set_auto_start_def delegate_lks Let_def)

theorem ppp_events_signalled_witness:
  "nd_signal (lk_world (h_world (ppp_net_mgmt_event_handler link_env0 (demo_net 0) NET_EVENT_PPP_PHASE_RUNNING
     (snd (handle_at_ppp link_env0 (demo_net 0) demo_parser CMD_TYPE_SET () 2 demo_init)))))"
  using ppp_events_signalled [OF demo_events.link_events_axioms _ demo_init demo_run demo_run_queue] by simp

definition stop_state :: "link_state \<Rightarrow> link_state" where
  "stop_state s = s\<lparr>ppp_state := PPP_STATE_RUNNING, ppp_queue := [\<lparr>pe_action = PPP_STOP, pe_reason = PPP_REASON_CMD\<rparr>],
     ppp_zephyr_fd := 1, ppp_modem_fd := 2\<rparr>"

theorem ppp_work_fn_drains_witness:
  "\<exists>h'. ppp_work_fn link_env0 (demo_net 0) (demo_links stop_state) = Some h' \<and> ppp_state (lks h') = PPP_STATE_STOPPED"
  using ppp_work_fn_drains [OF demo_lks.link_host_axioms, of "demo_net 0" "demo_links stop_state"] by (auto simp: stop_state_def)


theorem cmux_stop_restores_uart_witness:
  "h_pipe_cb (stop_work_fn link_env0 (demo_net 0) (demo_links id)) (Pipe 1) = AtPipeHandler (Some 0)"
  using cmux_stop_restores_uart [OF demo_lks.link_host_axioms, of "demo_links id" "Pipe 1" 0 "[]" "demo_net 0"] by simp

section \<open>The answers of the modem\<close>

lemma demo_scans:
  "c_sscanf ''+CEREG: 5,1'' (slits ''+CEREG:'' @ [SSpace, SDec False] @ slits '','' @ [SDec True]) = (1, [VInt 1])"
  "c_sscanf (''+CGPADDR: 0,'' @ [DQUOTE] @ ''10.0.0.1'' @ [DQUOTE]) (slits ''+CGPADDR:'' @ [SSpace, SDec True]) = (1, [VInt 0])"
  "c_sscanf (''+CGPADDR: 0,'' @ [DQUOTE] @ ''10.0.0.1'' @ [DQUOTE]) cgpaddr_fmt = (1, [VStr ''10.0.0.1''])"
  "c_sscanf ''%XGETPDNID: 0'' (slits ''%XGETPDNID:'' @ [SSpace, SDec True]) = (1, [VInt 0])"
  by code_simp+

lemma demo_at_cmd: "m_at_cmd demo_util n s v = (0, demo_answer s, v)"
  by (simp add: demo_util_def)

lemma demo_answers:
  "fst (sm_util_cereg_is_registered demo_util v)" "fst (sm_util_is_cid_active demo_util 0 v)"
  "util_get_ip_addr demo_util 0 True True v = ((''10.0.0.1'', []), v)" "sm_util_pdn_id_get demo_util 0 v = (0, v)"
proof -
  have names: "\<not> cmd_name_has_lower ''AT+CEREG?''" "\<not> cmd_name_has_lower (''AT+CGPADDR='' @ x)" "\<not> cmd_name_has_lower (''AT%XGETPDNID='' @ x)" for x
    by (simp_all add: c_islower_def byte_val_def)
  note scan = at_scanf_ok [OF demo_at_cmd]
  show "fst (sm_util_cereg_is_registered demo_util v)"
    using scan [of "''AT+CEREG?''"] demo_scans(1) names(1)
    by (simp add: sm_util_cereg_is_registered_def sm_util_cereg_get_def demo_answer_def int_at_def)
  show "fst (sm_util_is_cid_active demo_util 0 v)"
    using scan [of "''AT+CGPADDR='' @ show_nat 0"] demo_scans(2) names(2)
    by (simp add: sm_util_is_cid_active_def demo_answer_def int_at_def)
  show "util_get_ip_addr demo_util 0 True True v = ((''10.0.0.1'', []), v)"
    using scan [of "''AT+CGPADDR='' @ show_int 0"] demo_scans(3) names(2)
    by (simp add: util_get_ip_addr_def demo_answer_def str_at_def) (simp add: demo_util_def)
  show "sm_util_pdn_id_get demo_util 0 v = (0, v)"
    using scan [of "''AT%XGETPDNID='' @ show_nat 0"] demo_scans(4) names(3)
    by (simp add: sm_util_pdn_id_get_def demo_answer_def int_at_def)
qed

theorem activation_outlives_pipe_witness:
  "h_fault (sm_ppp_activate_pdp_dwork_fn link_env0 (demo_net 0)
     (stop_work_fn link_env0 (demo_net 0) (demo_links (\<lambda>s. s\<lparr>ppp_activate_dwork := True\<rparr>))))"
  using activation_outlives_pipe [OF demo_lks.link_host_axioms, of "demo_links (\<lambda>s. s\<lparr>ppp_activate_dwork := True\<rparr>)" "demo_net 0"]
  by (simp add: demo_answers sm_cmux_is_started_def link_state_zero_def)

text \<open>A modem that answers no query.\<close>

definition deaf_net :: "net_demo link_env" where
  "deaf_net = (demo_net 0)\<lparr>n_util := demo_util\<lparr>m_at_cmd := (\<lambda>n s v. (- 5, [], v))\<rparr>\<rparr>"

definition call_state :: "link_state \<Rightarrow> link_state" where
  "call_state s = s\<lparr>ppp_pipe := Some (Pipe 1), ppp_queue := [\<lparr>pe_action = PPP_START, pe_reason = PPP_REASON_CMD\<rparr>]\<rparr>"

definition race_state :: "link_state \<Rightarrow> link_state" where
  "race_state s = s\<lparr>ppp_state := PPP_STATE_RUNNING, ppp_pipe := Some (Pipe 11), ppp_event_fd := 9, ppp_zephyr_fd := 1, ppp_modem_fd := 2,
     ppp_queue := [\<lparr>pe_action = PPP_START, pe_reason = PPP_REASON_NETWORK\<rparr>]\<rparr>"

lemma demo_start_succeeds:
  assumes "ppp_state (lks g) \<noteq> PPP_STATE_RUNNING" and "ppp_pipe (lks g) \<noteq> None" and "ppp_pdn_cid (lks g) = 0"
  shows "fst (ppp_start link_env0 (demo_net 0) g) = 0"
proof -
  obtain c where s1: "lks (start_addr (demo_net 0) g) = (lks g)\<lparr>ppp_cgev_paused := False, ppp_ctx := c\<rparr>" by (rule start_addr_lks)
  obtain c' where s3: "lks (start_if (demo_net 0) g) = (lks g)\<lparr>ppp_cgev_paused := False, ppp_state := PPP_STATE_STARTING, ppp_ctx := c'\<rparr>"
    by (rule start_if_lks)
  have conf: "fst (configure_ppp_link_ip_addresses (demo_net 0) (upd_lk (\<lambda>s. s\<lparr>ppp_cgev_paused := False\<rparr>) g))"
    using assms(3) by (simp add: configure_ppp_link_ip_addresses_def net_call_split demo_answers) (simp add: demo_util_def net_call_split Let_def)
  have up: "fst (net_call (n_if_up (demo_net 0)) x) = 0" for x by (simp add: net_call_split demo_net_def)
  have opened: "fst (open_ppp_sockets (demo_net 0) x)" if "ppp_pdn_cid (lks x) = 0" for x
    using that by (simp add: open_ppp_sockets_def net_call_split Let_def demo_answers) (simp add: demo_net_def new_fd)
  show ?thesis
    using assms(1,2) conf up opened [of "start_if (demo_net 0) g"] s1 s3 assms(3)
    by (simp add: ppp_start_def start_addr_def start_if_def Let_def case_prod_unfold del: not_None_eq)
qed

end
