(* ===== verification/Sock_State.thy ===== *)
theory Sock_State
  imports At_Host_Life Sm_Util
begin

unbundle bit_operations_syntax

text \<open>
  The table of sockets of the application (\<open>app/src/sm_at_socket.c\<close>): lookups, the registration of poll
  and send callbacks with the modem library, opening and closing. The table is in the state of the AT
  host, so that the socket commands, the data mode handler and the work items of this module run on
  that state; the calls of the sockets layer, and the HTTP client that is told of events and of closed
  sockets, are a record of functions.
  A socket is its index in the table. Functions that are only called with a socket take the index; the
  check for \<open>NULL\<close> that some of them start with is then never taken.
\<close>

section \<open>Constants and parameters\<close>

abbreviation (input) SM_MAX_SOCKET_COUNT :: nat where "SM_MAX_SOCKET_COUNT \<equiv> 8"
abbreviation (input) SM_MAX_MESSAGE_SIZE :: nat where "SM_MAX_MESSAGE_SIZE \<equiv> 2048"
abbreviation (input) SM_MAX_URL :: nat where "SM_MAX_URL \<equiv> 128"
abbreviation (input) BIN_DATA_SIZE :: nat where "BIN_DATA_SIZE \<equiv> 1400"
abbreviation (input) INVALID_SOCKET :: int where "INVALID_SOCKET \<equiv> - 1"
abbreviation (input) SEC_TAG_TLS_INVALID :: int where "SEC_TAG_TLS_INVALID \<equiv> - 1"
abbreviation (input) SOCKET_SEND_TMO_SEC :: int where "SOCKET_SEND_TMO_SEC \<equiv> 30"

text \<open>Address families, socket types, protocols and poll events, with the values of the network stack.\<close>

abbreviation (input) AF_UNSPEC :: int where "AF_UNSPEC \<equiv> 0"
abbreviation (input) AF_PACKET :: int where "AF_PACKET \<equiv> 3"
abbreviation (input) SOCK_STREAM :: int where "SOCK_STREAM \<equiv> 1"
abbreviation (input) SOCK_DGRAM :: int where "SOCK_DGRAM \<equiv> 2"
abbreviation (input) SOCK_RAW :: int where "SOCK_RAW \<equiv> 3"
abbreviation (input) IPPROTO_IP :: int where "IPPROTO_IP \<equiv> 0"
abbreviation (input) IPPROTO_TCP :: int where "IPPROTO_TCP \<equiv> 6"
abbreviation (input) IPPROTO_UDP :: int where "IPPROTO_UDP \<equiv> 17"
abbreviation (input) IPPROTO_RAW :: int where "IPPROTO_RAW \<equiv> 255"
abbreviation (input) IPPROTO_TLS_1_2 :: int where "IPPROTO_TLS_1_2 \<equiv> 258"
abbreviation (input) IPPROTO_DTLS_1_2 :: int where "IPPROTO_DTLS_1_2 \<equiv> 273"
abbreviation (input) ZSOCK_POLLIN :: "8 word" where "ZSOCK_POLLIN \<equiv> 1"
abbreviation (input) ZSOCK_POLLOUT :: "8 word" where "ZSOCK_POLLOUT \<equiv> 4"
abbreviation (input) ZSOCK_POLLERR :: "8 word" where "ZSOCK_POLLERR \<equiv> 8"
abbreviation (input) ZSOCK_POLLHUP :: "8 word" where "ZSOCK_POLLHUP \<equiv> 16"
abbreviation (input) ZSOCK_POLLNVAL :: "8 word" where "ZSOCK_POLLNVAL \<equiv> 32"
abbreviation (input) POLL_ALL :: "8 word" where
  "POLL_ALL \<equiv> ZSOCK_POLLIN OR ZSOCK_POLLOUT OR ZSOCK_POLLERR OR ZSOCK_POLLHUP OR ZSOCK_POLLNVAL"

text \<open>Roles, modes, flags and results of the commands.\<close>

abbreviation (input) AT_SOCKET_ROLE_CLIENT :: "16 word" where "AT_SOCKET_ROLE_CLIENT \<equiv> 0"
abbreviation (input) AT_SOCKET_MODE_UNFORMATTED :: nat where "AT_SOCKET_MODE_UNFORMATTED \<equiv> 0"
abbreviation (input) AT_SOCKET_MODE_HEX :: nat where "AT_SOCKET_MODE_HEX \<equiv> 1"
abbreviation (input) AT_SOCKET_MODE_DATA :: nat where "AT_SOCKET_MODE_DATA \<equiv> 2"
abbreviation (input) SM_ADR_AT_MODE :: "8 word" where "SM_ADR_AT_MODE \<equiv> 1"
abbreviation (input) SM_ADR_DATA_MODE :: "8 word" where "SM_ADR_DATA_MODE \<equiv> 2"
abbreviation (input) SM_MSG_SEND_ACK :: "32 word" where "SM_MSG_SEND_ACK \<equiv> 0x2000"

datatype so_level = SOL_SOCKET | SOL_TLS | IPPROTO_ALL_LEVEL | IPPROTO_IP_LEVEL | IPPROTO_IPV6_LEVEL | IPPROTO_TCP_LEVEL
datatype so_option = SO_REUSEADDR | SO_RCVTIMEO | SO_SNDTIMEO | SO_SILENCE_ALL | SO_IP_ECHO_REPLY | SO_IPV6_ECHO_REPLY
  | SO_KEEPOPEN | SO_IPV6_DELAYED_ADDR_REFRESH | SO_BINDTOPDN | SO_RAI | SO_TCP_SRV_SESSTIMEO | SO_POLLCB | SO_SENDCB
  | TLS_SEC_TAG_LIST | TLS_HOSTNAME | TLS_CIPHERSUITE_USED | TLS_PEER_VERIFY | TLS_SESSION_CACHE | TLS_SESSION_CACHE_PURGE
  | TLS_DTLS_CID | TLS_DTLS_CID_STATUS | TLS_DTLS_HANDSHAKE_TIMEO | TLS_DTLS_CONN_SAVE | TLS_DTLS_CONN_LOAD | TLS_DTLS_FRAG_EXT

text \<open>The value of an option: nothing, a number, seconds, seconds and microseconds, bytes, or the registration of a callback (for
  poll events with the events).\<close>

datatype so_value = VNone | VNum int | VTime int | VTimeval int int | VBytes bytes | VPollCb "8 word" | VSendCb

text \<open>An address is its family, its bytes and its port. \<open>s_getsockopt\<close> returns the result, a number
  (seconds for a timeout) and a string; \<open>s_recv fd n flags\<close> the result and the bytes; \<open>s_getaddrinfo host
  family\<close> the result and the list of addresses. \<open>s_bin2hex d n\<close> and \<open>s_hex2bin d n\<close> convert into a buffer of
  \<open>n\<close> bytes and return what they wrote, nothing on an error.\<close>

type_synonym sock_addr = "int \<times> bytes \<times> 16 word"

record ('rb, 'w) sock_env =
  cfg_httpc :: bool
  s_util :: "'w util_env"
  s_socket :: "int \<Rightarrow> int \<Rightarrow> int \<Rightarrow> 'w \<Rightarrow> int \<times> 'w"
  s_close :: "int \<Rightarrow> 'w \<Rightarrow> int \<times> 'w"
  s_setsockopt :: "int \<Rightarrow> so_level \<Rightarrow> so_option \<Rightarrow> so_value \<Rightarrow> 'w \<Rightarrow> int \<times> 'w"
  s_getsockopt :: "int \<Rightarrow> so_level \<Rightarrow> so_option \<Rightarrow> 'w \<Rightarrow> (int \<times> int \<times> string) \<times> 'w"
  s_bind :: "int \<Rightarrow> sock_addr \<Rightarrow> 'w \<Rightarrow> int \<times> 'w"
  s_connect :: "int \<Rightarrow> sock_addr \<Rightarrow> 'w \<Rightarrow> int \<times> 'w"
  s_send :: "int \<Rightarrow> bytes \<Rightarrow> 32 word \<Rightarrow> 'w \<Rightarrow> int \<times> 'w"
  s_sendto :: "int \<Rightarrow> bytes \<Rightarrow> 32 word \<Rightarrow> sock_addr \<Rightarrow> 'w \<Rightarrow> int \<times> 'w"
  s_recv :: "int \<Rightarrow> nat \<Rightarrow> 32 word \<Rightarrow> 'w \<Rightarrow> (int \<times> bytes) \<times> 'w"
  s_recvfrom :: "int \<Rightarrow> nat \<Rightarrow> 32 word \<Rightarrow> 'w \<Rightarrow> (int \<times> bytes \<times> sock_addr) \<times> 'w"
  s_set_nonblock :: "int \<Rightarrow> 'w \<Rightarrow> int \<times> 'w"
  s_listen :: "int \<Rightarrow> nat \<Rightarrow> 'w \<Rightarrow> int \<times> 'w"
  s_accept :: "int \<Rightarrow> 'w \<Rightarrow> (int \<times> sock_addr) \<times> 'w"
  s_getaddrinfo :: "string \<Rightarrow> int option \<Rightarrow> 'w \<Rightarrow> (int \<times> (int \<times> bytes) list) \<times> 'w"
  s_gai_strerror :: "int \<Rightarrow> string"
  s_msg_dontwait :: "32 word"
  s_peer_verify_required :: int
  s_bin2hex :: "bytes \<Rightarrow> nat \<Rightarrow> bytes"
  s_hex2bin :: "bytes \<Rightarrow> nat \<Rightarrow> bytes"
  s_httpc_poll_event :: "int \<Rightarrow> 8 word \<Rightarrow> ('rb, 'w) host \<Rightarrow> bool \<times> ('rb, 'w) host"
  s_httpc_socket_closed :: "int \<Rightarrow> ('rb, 'w) host \<Rightarrow> ('rb, 'w) host"

section \<open>Access to the state\<close>

abbreviation sock :: "nat \<Rightarrow> ('rb, 'w) host \<Rightarrow> sm_socket" where
  "sock k h \<equiv> h_socks h ! k"

definition upd_sock :: "nat \<Rightarrow> (sm_socket \<Rightarrow> sm_socket) \<Rightarrow> ('rb, 'w) host \<Rightarrow> ('rb, 'w) host" where
  "upd_sock k f h = h\<lparr>h_socks := (h_socks h)[k := f (sock k h)]\<rparr>"

definition upd_poll :: "(sm_async_poll \<Rightarrow> sm_async_poll) \<Rightarrow> sm_socket \<Rightarrow> sm_socket" where
  "upd_poll f s = s\<lparr>sk_async_poll := f (sk_async_poll s)\<rparr>"

definition upd_poll_ctx :: "(async_poll_ctx \<Rightarrow> async_poll_ctx) \<Rightarrow> 'rb sm_at_host_ctx \<Rightarrow> 'rb sm_at_host_ctx" where
  "upd_poll_ctx f c = c\<lparr>c_poll_ctx := f (c_poll_ctx c)\<rparr>"

definition wcall :: "('w \<Rightarrow> 'a \<times> 'w) \<Rightarrow> ('rb, 'w) host \<Rightarrow> 'a \<times> ('rb, 'w) host" where
  "wcall f h = (case f (h_world h) of (r, w) \<Rightarrow> (r, h\<lparr>h_world := w\<rparr>))"

definition sock_errno :: "('rb, 'w) sock_env \<Rightarrow> ('rb, 'w) host \<Rightarrow> int" where
  "sock_errno S h = m_errno (s_util S) (h_world h)"

definition set_sock_pipe :: "pipe option \<Rightarrow> sm_socket \<Rightarrow> sm_socket" where
  "set_sock_pipe p s = s\<lparr>sk_pipe := p\<rparr>"

section \<open>The table\<close>

definition zero_poll :: sm_async_poll where
  "zero_poll = \<lparr>po_events = 0, po_revents = 0, po_delayed_revents = 0, po_xapoll_events = 0, po_xapoll_events_requested = 0,
     po_adr_flags = 0, po_disable = False, po_adr_hex = False\<rparr>"

definition zero_ntf :: sm_send_ntf where
  "zero_ntf = \<lparr>nt_ready = False, nt_status = 0, nt_bytes_sent = 0\<rparr>"

definition init_sock :: "pipe option \<Rightarrow> sm_socket" where
  "init_sock p = \<lparr>sk_type = 0, sk_role = AT_SOCKET_ROLE_CLIENT, sk_sec_tag = SEC_TAG_TLS_INVALID, sk_family = AF_UNSPEC,
     sk_fd = INVALID_SOCKET, sk_cid = 0, sk_local_port = 0, sk_send_flags = 0, sk_send_cb_set = False, sk_connected = False,
     sk_listen = False, sk_async_poll = zero_poll, sk_send_ntf = zero_ntf, sk_pipe = p\<rparr>"

definition init_socket :: "('rb, 'w) env \<Rightarrow> nat \<Rightarrow> ('rb, 'w) host \<Rightarrow> ('rb, 'w) host" where
  "init_socket E k h = upd_sock k (\<lambda>s. init_sock (sm_at_host_get_current_pipe E h)) h"

definition find_socket :: "int \<Rightarrow> ('rb, 'w) host \<Rightarrow> nat option" where
  "find_socket fd h = find (\<lambda>k. sk_fd (sock k h) = fd) [0..<SM_MAX_SOCKET_COUNT]"

definition find_avail_socket :: "('rb, 'w) host \<Rightarrow> nat option" where
  "find_avail_socket h = find (\<lambda>k. sk_fd (sock k h) = INVALID_SOCKET) [0..<SM_MAX_SOCKET_COUNT]"

definition poll_ctx_from_sock :: "nat \<Rightarrow> ('rb, 'w) host \<Rightarrow> ctx_id option" where
  "poll_ctx_from_sock k h = sm_at_host_get_async_poll_ctx (sk_pipe (sock k h)) h"

definition bind_to_pdn :: "('rb, 'w) sock_env \<Rightarrow> nat \<Rightarrow> ('rb, 'w) host \<Rightarrow> int \<times> ('rb, 'w) host" where
  "bind_to_pdn S k h =
     (if 0 < sk_cid (sock k h) then
        (case wcall (sm_util_pdn_id_get (s_util S) (unat (sk_cid (sock k h)))) h of (pdn_id, h) \<Rightarrow>
           if pdn_id < 0 then (pdn_id, h)
           else case wcall (s_setsockopt S (sk_fd (sock k h)) SOL_SOCKET SO_BINDTOPDN (VNum pdn_id)) h of (ret, h) \<Rightarrow>
             (if ret < 0 then - sock_errno S h else ret, h))
      else (0, h))"

section \<open>Poll callback\<close>

definition poll_cb :: "('rb, 'w) env \<Rightarrow> int \<Rightarrow> 32 word \<Rightarrow> ('rb, 'w) host \<Rightarrow> ('rb, 'w) host" where
  "poll_cb E fd revents h =
     (case find_socket fd h of
        None \<Rightarrow> h
      | Some k \<Rightarrow>
          (case poll_ctx_from_sock k h of
             None \<Rightarrow> h
           | Some i \<Rightarrow>
               snd (work_submit E (PollWork i)
                 (upd_sock k (upd_poll (\<lambda>p. p\<lparr>po_revents := po_revents p OR revents\<rparr>)) h))))"

definition set_so_poll_cb ::
  "('rb, 'w) sock_env \<Rightarrow> nat \<Rightarrow> 8 word \<Rightarrow> ('rb, 'w) host \<Rightarrow> int \<times> ('rb, 'w) host" where
  "set_so_poll_cb S k events h =
     (case wcall (s_setsockopt S (sk_fd (sock k h)) SOL_SOCKET SO_POLLCB (VPollCb events)) h of (err, h) \<Rightarrow>
        (if err < 0 then - sock_errno S h else 0, h))"

definition update_poll_events ::
  "('rb, 'w) env \<Rightarrow> ('rb, 'w) sock_env \<Rightarrow> nat \<Rightarrow> 8 word \<Rightarrow> bool \<Rightarrow> ('rb, 'w) host \<Rightarrow> int \<times> ('rb, 'w) host" where
  "update_poll_events E S k events update_xapoll h =
     (if po_disable (sk_async_poll (sock k h)) then (0, h)
      else
        let h = (if update_xapoll
                 then upd_sock k (upd_poll (\<lambda>p. p\<lparr>po_xapoll_events :=
                        po_xapoll_events p OR (po_xapoll_events_requested p AND events)\<rparr>)) h
                 else h);
            h = (if poll_ctx_from_sock k h = None
                 then upd_sock k (set_sock_pipe (sm_at_host_get_current_pipe E h)) h else h);
            h = upd_sock k (upd_poll (\<lambda>p. p\<lparr>po_events := po_events p OR events\<rparr>)) h
        in set_so_poll_cb S k (po_events (sk_async_poll (sock k h))) h)"

section \<open>Send callback\<close>

definition send_cb :: "('rb, 'w) env \<Rightarrow> int \<Rightarrow> int \<Rightarrow> int \<Rightarrow> ('rb, 'w) host \<Rightarrow> ('rb, 'w) host" where
  "send_cb E fd status bytes_sent h =
     (case find_socket fd h of
        None \<Rightarrow> h
      | Some k \<Rightarrow>
          (if nt_ready (sk_send_ntf (sock k h)) then h
           else
             let h = upd_sock k (\<lambda>s. s\<lparr>sk_send_ntf := \<lparr>nt_ready = True, nt_status = status, nt_bytes_sent = bytes_sent\<rparr>\<rparr>) h
             in sm_at_host_queue_idle_work E (sk_pipe (sock k h)) send_cb_work h))"

definition send_cb_sock ::
  "('rb, 'w) env \<Rightarrow> ('rb, 'w) sock_env \<Rightarrow> nat \<Rightarrow> ('rb, 'w) host \<Rightarrow> ('rb, 'w) host" where
  "send_cb_sock E S k h =
     (if sk_fd (sock k h) = INVALID_SOCKET \<or> \<not> nt_ready (sk_send_ntf (sock k h)) then h
      else
        let status = (if nt_status (sk_send_ntf (sock k h)) \<noteq> 0 then - 1 else 0);
            bytes_sent = nt_bytes_sent (sk_send_ntf (sock k h));
            h = upd_sock k (\<lambda>s. s\<lparr>sk_send_ntf := (sk_send_ntf s)\<lparr>nt_ready := False\<rparr>\<rparr>) h;
            h = urc_send_to E (sk_pipe (sock k h)) (CRLF_STR @ ''#XSENDNTF: '' @ show_int (sk_fd (sock k h)) @ '','' @
                  show_int status @ '','' @ show_int bytes_sent @ CRLF_STR) h
        in snd (update_poll_events E S k ZSOCK_POLLOUT True h))"

definition send_cb_fn :: "('rb, 'w) env \<Rightarrow> ('rb, 'w) sock_env \<Rightarrow> ('rb, 'w) host \<Rightarrow> ('rb, 'w) host" where
  "send_cb_fn E S h = fold (send_cb_sock E S) [0..<SM_MAX_SOCKET_COUNT] h"

definition set_so_send_cb :: "('rb, 'w) sock_env \<Rightarrow> nat \<Rightarrow> ('rb, 'w) host \<Rightarrow> int \<times> ('rb, 'w) host" where
  "set_so_send_cb S k h =
     (if sk_send_cb_set (sock k h) then (0, h)
      else case wcall (s_setsockopt S (sk_fd (sock k h)) SOL_SOCKET SO_SENDCB VSendCb) h of (err, h) \<Rightarrow>
        if err < 0 then (- sock_errno S h, h) else (0, upd_sock k (\<lambda>s. s\<lparr>sk_send_cb_set := True\<rparr>) h))"

definition clear_so_send_cb :: "('rb, 'w) sock_env \<Rightarrow> nat \<Rightarrow> ('rb, 'w) host \<Rightarrow> int \<times> ('rb, 'w) host" where
  "clear_so_send_cb S k h =
     (if \<not> sk_send_cb_set (sock k h) then (0, h)
      else case wcall (s_setsockopt S (sk_fd (sock k h)) SOL_SOCKET SO_SENDCB VNone) h of (err, h) \<Rightarrow>
        (if err < 0 then - sock_errno S h else err, upd_sock k (\<lambda>s. s\<lparr>sk_send_cb_set := False\<rparr>) h))"

section \<open>Opening and closing\<close>

text \<open>The error path of the two functions that open a socket, and their common end: the response, and
  the settings of the context for poll events and automatic reception.\<close>

definition open_error ::
  "('rb, 'w) sock_env \<Rightarrow> nat \<Rightarrow> int \<Rightarrow> ('rb, 'w) host \<Rightarrow> int \<times> ('rb, 'w) host" where
  "open_error S k ret h =
     (case wcall (s_close S (sk_fd (sock k h))) h of (_, h) \<Rightarrow> (ret, upd_sock k (\<lambda>s. s\<lparr>sk_fd := INVALID_SOCKET\<rparr>) h))"

definition adopt_poll_ctx ::
  "('rb, 'w) env \<Rightarrow> ('rb, 'w) sock_env \<Rightarrow> ctx_id \<Rightarrow> nat \<Rightarrow> ('rb, 'w) host \<Rightarrow> ('rb, 'w) host" where
  "adopt_poll_ctx E S i k h =
     (let c = c_poll_ctx (h_ctx h i);
          h = upd_sock k (upd_poll (\<lambda>p. p\<lparr>po_adr_flags := apc_adr_flags c, po_adr_hex := apc_adr_hex c,
                po_xapoll_events_requested := apc_xapoll_events_requested c\<rparr>)) h
      in snd (update_poll_events E S k POLL_ALL True h))"

definition socket_opened ::
  "('rb, 'w) env \<Rightarrow> ('rb, 'w) sock_env \<Rightarrow> nat \<Rightarrow> string \<Rightarrow> int \<Rightarrow> ('rb, 'w) host \<Rightarrow> int \<times> ('rb, 'w) host" where
  "socket_opened E S k name proto h =
     (let h = rsp_send E (CRLF_STR @ name @ show_int (sk_fd (sock k h)) @ '','' @ show_int (sk_type (sock k h)) @ '','' @
                show_int proto @ CRLF_STR) h
      in case poll_ctx_from_sock k h of None \<Rightarrow> (- EINVAL, h) | Some i \<Rightarrow> (0, adopt_poll_ctx E S i k h))"

text \<open>The protocol that is passed to the sockets layer and the one of the response.\<close>

definition socket_protos :: "int \<Rightarrow> (int \<times> int) option" where
  "socket_protos type =
     (if type = SOCK_STREAM then Some (IPPROTO_TCP, IPPROTO_TCP)
      else if type = SOCK_DGRAM then Some (IPPROTO_UDP, IPPROTO_UDP)
      else if type = SOCK_RAW then Some (IPPROTO_RAW, IPPROTO_IP)
      else None)"

definition do_socket_open ::
  "('rb, 'w) env \<Rightarrow> ('rb, 'w) sock_env \<Rightarrow> nat \<Rightarrow> ('rb, 'w) host \<Rightarrow> int \<times> ('rb, 'w) host" where
  "do_socket_open E S k h =
     (let family = sk_family (sock k h); type = sk_type (sock k h)
      in if family \<noteq> AF_INET \<and> family \<noteq> AF_INET6 \<and> family \<noteq> AF_PACKET then (- ENOTSUP, h)
         else if (type = SOCK_RAW \<or> family = AF_PACKET) \<and> (type \<noteq> SOCK_RAW \<or> family \<noteq> AF_PACKET) then (- EINVAL, h)
         else case socket_protos type of
           None \<Rightarrow> (- ENOTSUP, h)
         | Some (protocol, proto) \<Rightarrow>
             (case wcall (s_socket S family type protocol) h of (ret, h) \<Rightarrow>
                if ret < 0 then (- sock_errno S h, h)
                else
                  let h = upd_sock k (\<lambda>s. s\<lparr>sk_fd := ret\<rparr>) h
                  in case wcall (s_setsockopt S ret SOL_SOCKET SO_SNDTIMEO (VTime SOCKET_SEND_TMO_SEC)) h of (ret, h) \<Rightarrow>
                    if ret \<noteq> 0 then open_error S k (- sock_errno S h) h
                    else case bind_to_pdn S k h of (ret, h) \<Rightarrow>
                      if ret \<noteq> 0 then open_error S k ret h
                      else socket_opened E S k ''#XSOCKET: '' proto h))"

definition do_secure_socket_open ::
  "('rb, 'w) env \<Rightarrow> ('rb, 'w) sock_env \<Rightarrow> nat \<Rightarrow> int \<Rightarrow> ('rb, 'w) host \<Rightarrow> int \<times> ('rb, 'w) host" where
  "do_secure_socket_open E S k peer_verify h =
     (let family = sk_family (sock k h); type = sk_type (sock k h);
          proto = (if type = SOCK_STREAM then IPPROTO_TLS_1_2 else IPPROTO_DTLS_1_2)
      in if family \<noteq> AF_INET \<and> family \<noteq> AF_INET6 then (- ENOTSUP, h)
         else if type \<noteq> SOCK_STREAM \<and> type \<noteq> SOCK_DGRAM then (- ENOTSUP, h)
         else case wcall (s_socket S family type proto) h of (ret, h) \<Rightarrow>
           if ret < 0 then (- sock_errno S h, h)
           else
             let fd = ret; h = upd_sock k (\<lambda>s. s\<lparr>sk_fd := fd\<rparr>) h
             in case wcall (s_setsockopt S fd SOL_SOCKET SO_SNDTIMEO (VTime SOCKET_SEND_TMO_SEC)) h of (ret, h) \<Rightarrow>
               if ret \<noteq> 0 then open_error S k (- sock_errno S h) h
               else case bind_to_pdn S k h of (ret, h) \<Rightarrow>
                 if ret \<noteq> 0 then open_error S k ret h
                 else case wcall (s_setsockopt S fd SOL_TLS TLS_SEC_TAG_LIST (VNum (sk_sec_tag (sock k h)))) h of (ret, h) \<Rightarrow>
                   if ret \<noteq> 0 then open_error S k (- sock_errno S h) h
                   else case wcall (s_setsockopt S fd SOL_TLS TLS_PEER_VERIFY (VNum peer_verify)) h of (ret, h) \<Rightarrow>
                     if ret \<noteq> 0 then open_error S k (- sock_errno S h) h
                     else socket_opened E S k ''#XSSOCKET: '' proto h)"

definition do_socket_close ::
  "('rb, 'w) env \<Rightarrow> ('rb, 'w) sock_env \<Rightarrow> nat \<Rightarrow> ('rb, 'w) host \<Rightarrow> int \<times> ('rb, 'w) host" where
  "do_socket_close E S k h =
     (if sk_fd (sock k h) = INVALID_SOCKET then (0, h)
      else case wcall (s_close S (sk_fd (sock k h))) h of (ret, h) \<Rightarrow>
        let ret = (if ret \<noteq> 0 then - sock_errno S h else ret);
            h = rsp_send E (CRLF_STR @ ''#XCLOSE: '' @ show_int (sk_fd (sock k h)) @ '','' @ show_int ret @ CRLF_STR) h;
            h = (if cfg_httpc S then s_httpc_socket_closed S (sk_fd (sock k h)) h else h)
        in (ret, init_socket E k h))"

definition sm_at_socket_init :: "('rb, 'w) env \<Rightarrow> ('rb, 'w) host \<Rightarrow> int \<times> ('rb, 'w) host" where
  "sm_at_socket_init E h = (0, fold (init_socket E) [0..<SM_MAX_SOCKET_COUNT] h)"

end
