(* ===== verification/Sock_Io.thy ===== *)
theory Sock_Io
  imports Sock_State
begin

unbundle bit_operations_syntax

text \<open>
  What the socket commands do with a socket (\<open>app/src/sm_at_socket.c\<close>): options, local addresses,
  connecting, sending and receiving, the handler of data mode, the processing of poll events with
  automatic reception, listening and accepting.
\<close>

section \<open>Socket options\<close>

definition at_sockopts :: "(nat \<times> so_level \<times> so_option) list" where
  "at_sockopts =
     [(2, SOL_SOCKET, SO_REUSEADDR), (20, SOL_SOCKET, SO_RCVTIMEO), (21, SOL_SOCKET, SO_SNDTIMEO),
      (30, IPPROTO_ALL_LEVEL, SO_SILENCE_ALL), (31, IPPROTO_IP_LEVEL, SO_IP_ECHO_REPLY), (32, IPPROTO_IPV6_LEVEL, SO_IPV6_ECHO_REPLY),
      (34, SOL_SOCKET, SO_KEEPOPEN), (62, IPPROTO_IPV6_LEVEL, SO_IPV6_DELAYED_ADDR_REFRESH), (40, SOL_SOCKET, SO_BINDTOPDN),
      (61, SOL_SOCKET, SO_RAI), (55, IPPROTO_TCP_LEVEL, SO_TCP_SRV_SESSTIMEO)]"

definition at_sockopt_to_sockopt :: "nat \<Rightarrow> int + so_level \<times> so_option" where
  "at_sockopt_to_sockopt at_option =
     (case map_of at_sockopts at_option of Some lo \<Rightarrow> Inr lo | None \<Rightarrow> Inl (- ENOTSUP))"

definition sockopt_is_timeout :: "so_level \<Rightarrow> so_option \<Rightarrow> bool" where
  "sockopt_is_timeout level option \<longleftrightarrow> level = SOL_SOCKET \<and> (option = SO_RCVTIMEO \<or> option = SO_SNDTIMEO)"

definition sockopt_set ::
  "('rb, 'w) sock_env \<Rightarrow> nat \<Rightarrow> nat \<Rightarrow> int \<Rightarrow> ('rb, 'w) host \<Rightarrow> int \<times> ('rb, 'w) host" where
  "sockopt_set S k at_option at_value h =
     (case at_sockopt_to_sockopt at_option of
        Inl ret \<Rightarrow> (ret, h)
      | Inr (level, option) \<Rightarrow>
          wcall (s_setsockopt S (sk_fd (sock k h)) level option
            (if sockopt_is_timeout level option then VTime at_value else VNum at_value)) h)"

definition sockopt_get ::
  "('rb, 'w) env \<Rightarrow> ('rb, 'w) sock_env \<Rightarrow> nat \<Rightarrow> nat \<Rightarrow> ('rb, 'w) host \<Rightarrow> int \<times> ('rb, 'w) host" where
  "sockopt_get E S k at_option h =
     (case at_sockopt_to_sockopt at_option of
        Inl ret \<Rightarrow> (ret, h)
      | Inr (level, option) \<Rightarrow>
          (case wcall (s_getsockopt S (sk_fd (sock k h)) level option) h of ((ret, value, _), h) \<Rightarrow>
             (ret, if ret = 0 then rsp_send E (CRLF_STR @ ''#XSOCKETOPT: '' @ show_int (sk_fd (sock k h)) @ '','' @
                      show_int value @ CRLF_STR) h
                   else h)))"

definition at_sec_sockopts :: "(nat \<times> so_option) list" where
  "at_sec_sockopts =
     [(2, TLS_HOSTNAME), (4, TLS_CIPHERSUITE_USED), (5, TLS_PEER_VERIFY), (12, TLS_SESSION_CACHE), (13, TLS_SESSION_CACHE_PURGE),
      (14, TLS_DTLS_CID), (15, TLS_DTLS_CID_STATUS), (18, TLS_DTLS_HANDSHAKE_TIMEO), (19, TLS_DTLS_CONN_SAVE),
      (20, TLS_DTLS_CONN_LOAD), (22, TLS_DTLS_FRAG_EXT)]"

definition at_sec_sockopt_to_sockopt :: "nat \<Rightarrow> int + so_option" where
  "at_sec_sockopt_to_sockopt at_option =
     (case map_of at_sec_sockopts at_option of Some opt \<Rightarrow> Inr opt | None \<Rightarrow> Inl (- ENOTSUP))"

text \<open>The value of a secure option is a number or a string, given as the memory of its bytes. What lies
  behind a number is indeterminate and modelled as a zero byte.\<close>

definition int_bytes :: "int \<Rightarrow> bytes" where
  "int_bytes v = map (\<lambda>i. char_of (nat (v div 2 ^ (8 * i) mod 256))) [0..<4]"

datatype sec_value = SecInt int | SecStr string

definition sec_value_bytes :: "sec_value \<Rightarrow> bytes" where
  "sec_value_bytes v = (case v of SecInt n \<Rightarrow> int_bytes n | SecStr s \<Rightarrow> s)"

definition sec_value_arg :: "sec_value \<Rightarrow> so_value" where
  "sec_value_arg v = (case v of SecInt n \<Rightarrow> VNum n | SecStr s \<Rightarrow> VBytes s)"

definition sec_sockopt_set ::
  "('rb, 'w) sock_env \<Rightarrow> nat \<Rightarrow> nat \<Rightarrow> sec_value \<Rightarrow> ('rb, 'w) host \<Rightarrow> int \<times> ('rb, 'w) host" where
  "sec_sockopt_set S k at_option value h =
     (case at_sec_sockopt_to_sockopt at_option of
        Inl ret \<Rightarrow> (ret, h)
      | Inr option \<Rightarrow>
          (if option = TLS_HOSTNAME then
             wcall (s_setsockopt S (sk_fd (sock k h)) SOL_TLS option
               (if sm_util_casecmp (cstr (sec_value_bytes value)) ''NULL'' then VNone else VBytes (sec_value_bytes value))) h
           else if length (sec_value_bytes value) \<noteq> 4 then (- EINVAL, h)
           else wcall (s_setsockopt S (sk_fd (sock k h)) SOL_TLS option (sec_value_arg value)) h))"

fun show_hex :: "nat \<Rightarrow> string" where
  "show_hex n =
     (let digit = (\<lambda>d. char_of (if d < 10 then 48 + d else 87 + d))
      in if n < 16 then [digit n] else show_hex (n div 16) @ [digit (n mod 16)])"

declare show_hex.simps [simp del]

definition sec_sockopt_get ::
  "('rb, 'w) env \<Rightarrow> ('rb, 'w) sock_env \<Rightarrow> nat \<Rightarrow> nat \<Rightarrow> ('rb, 'w) host \<Rightarrow> int \<times> ('rb, 'w) host" where
  "sec_sockopt_get E S k at_option h =
     (case at_sec_sockopt_to_sockopt at_option of
        Inl ret \<Rightarrow> (ret, h)
      | Inr option \<Rightarrow>
          (case wcall (s_getsockopt S (sk_fd (sock k h)) SOL_TLS option) h of ((ret, value, str), h) \<Rightarrow>
             (ret, if ret = 0 then rsp_send E (CRLF_STR @ ''#XSSOCKETOPT: '' @ show_int (sk_fd (sock k h)) @ '','' @
                      (if option = TLS_CIPHERSUITE_USED then ''0x'' @ show_hex (nat (value mod 2 ^ 32))
                       else if option = TLS_HOSTNAME then str
                       else show_int value) @ CRLF_STR) h
                   else h)))"

section \<open>Local address and connection\<close>

definition bind_to_local_addr ::
  "('rb, 'w) sock_env \<Rightarrow> nat \<Rightarrow> 16 word \<Rightarrow> ('rb, 'w) host \<Rightarrow> int \<times> ('rb, 'w) host" where
  "bind_to_local_addr S k port h =
     (let family = sk_family (sock k h); v6 = (family = AF_INET6)
      in if family \<noteq> AF_INET \<and> family \<noteq> AF_INET6 then (- EINVAL, h)
         else case wcall (util_get_ip_addr (s_util S) (uint (sk_cid (sock k h))) (\<not> v6) v6) h of (addrs, h) \<Rightarrow>
           let addr = (if v6 then snd addrs else fst addrs)
           in if addr = [] then (- ENETDOWN, h)
              else case m_inet_pton (s_util S) v6 addr of (ok, bytes) \<Rightarrow>
                if ok \<noteq> 1 then (- EINVAL, h)
                else case wcall (s_bind S (sk_fd (sock k h)) (family, bytes, port)) h of (ret, h) \<Rightarrow>
                  if ret \<noteq> 0 then (- sock_errno S h, h)
                  else (0, upd_sock k (\<lambda>s. s\<lparr>sk_local_port := port\<rparr>) h))"

text \<open>The address the name resolves to; \<open>util_resolve_host\<close> fills it in when it succeeds.\<close>

definition resolve ::
  "('rb, 'w) sock_env \<Rightarrow> nat \<Rightarrow> string \<Rightarrow> 16 word \<Rightarrow> ('rb, 'w) host \<Rightarrow> (int \<times> sock_addr) \<times> ('rb, 'w) host" where
  "resolve S k url port h =
     (case wcall (util_resolve_host (s_util S) (uint (sk_cid (sock k h))) url port (sk_family (sock k h)) True) h of
        ((ret, dest), h) \<Rightarrow> ((ret, case dest of Some sa \<Rightarrow> sa | None \<Rightarrow> (AF_UNSPEC, [], 0)), h))"

definition do_connect ::
  "('rb, 'w) env \<Rightarrow> ('rb, 'w) sock_env \<Rightarrow> nat \<Rightarrow> string \<Rightarrow> 16 word \<Rightarrow> ('rb, 'w) host \<Rightarrow> int \<times> ('rb, 'w) host" where
  "do_connect E S k url port h =
     (case resolve S k url port h of ((ret, sa), h) \<Rightarrow>
        if ret \<noteq> 0 then (- EAGAIN, h)
        else case wcall (s_connect S (sk_fd (sock k h)) sa) h of (ret, h) \<Rightarrow>
          if ret \<noteq> 0 then (- sock_errno S h, h)
          else
            let h = upd_sock k (\<lambda>s. s\<lparr>sk_connected := True\<rparr>) h
            in (ret, rsp_send E (CRLF_STR @ ''#XCONNECT: '' @ show_int (sk_fd (sock k h)) @ '',1'' @ CRLF_STR) h))"

section \<open>Sending\<close>

text \<open>The loop of \<open>do_send\<close> on the rest of the data. A call that sends nothing without an error would
  repeat it forever; with one byte per round at least, the length of the data is enough fuel.\<close>

fun send_loop ::
  "('rb, 'w) sock_env \<Rightarrow> int \<Rightarrow> 32 word \<Rightarrow> nat \<Rightarrow> int \<Rightarrow> nat \<Rightarrow> bytes \<Rightarrow> ('rb, 'w) host \<Rightarrow> (int \<times> nat) \<times> ('rb, 'w) host" where
  "send_loop S fd flags fuel ret sent [] h = ((ret, sent), h)"
| "send_loop S fd flags 0 ret sent (b # bs) h = ((ret, sent), fault h)"
| "send_loop S fd flags (Suc fuel) ret sent (b # bs) h =
     (case wcall (s_send S fd (b # bs) flags) h of (ret, h) \<Rightarrow>
        if ret < 0 then ((- sock_errno S h, sent), h)
        else send_loop S fd flags fuel ret (sent + nat ret) (drop (nat ret) (b # bs)) h)"

text \<open>The send callback is registered or removed before any data is sent.\<close>

definition prepare_send_cb ::
  "('rb, 'w) sock_env \<Rightarrow> nat \<Rightarrow> bool \<Rightarrow> ('rb, 'w) host \<Rightarrow> int \<times> ('rb, 'w) host" where
  "prepare_send_cb S k send_ntf h = (if send_ntf then set_so_send_cb S k h else clear_so_send_cb S k h)"

definition send_rsp :: "string \<Rightarrow> int \<Rightarrow> bool \<Rightarrow> nat \<Rightarrow> string" where
  "send_rsp name fd send_ntf sent =
     CRLF_STR @ name @ show_int fd @ '','' @ (if send_ntf then ''1'' else ''0'') @ '','' @ show_nat sent @ CRLF_STR"

definition do_send ::
  "('rb, 'w) env \<Rightarrow> ('rb, 'w) sock_env \<Rightarrow> nat \<Rightarrow> bytes \<Rightarrow> 32 word \<Rightarrow> ('rb, 'w) host \<Rightarrow> int \<times> ('rb, 'w) host" where
  "do_send E S k data flags h =
     (let send_ntf = (flags AND SM_MSG_SEND_ACK \<noteq> 0);
          flags = (if send_ntf then flags AND NOT SM_MSG_SEND_ACK else flags)
      in case prepare_send_cb S k send_ntf h of (ret, h) \<Rightarrow>
        if ret < 0 then (ret, h)
        else case send_loop S (sk_fd (sock k h)) flags (length data) ret 0 data h of ((ret, sent), h) \<Rightarrow>
          let h = (if \<not> in_datamode_ctx (sm_at_host_get_current E h) h
                   then rsp_send E (send_rsp ''#XSEND: '' (sk_fd (sock k h)) send_ntf sent) h else h);
              h = (if \<not> send_ntf then snd (update_poll_events E S k ZSOCK_POLLOUT True h) else h)
          in (if 0 < sent then int sent else ret, h))"

text \<open>The loop of \<open>do_sendto\<close> always sends once; a datagram is not continued.\<close>

fun sendto_loop ::
  "('rb, 'w) sock_env \<Rightarrow> int \<Rightarrow> 32 word \<Rightarrow> sock_addr \<Rightarrow> bool \<Rightarrow> nat \<Rightarrow> nat \<Rightarrow> bytes \<Rightarrow> ('rb, 'w) host \<Rightarrow>
   (int \<times> nat) \<times> ('rb, 'w) host" where
  "sendto_loop S fd flags sa dgram 0 sent data h = ((0, sent), fault h)"
| "sendto_loop S fd flags sa dgram (Suc fuel) sent data h =
     (case wcall (s_sendto S fd data flags sa) h of (ret, h) \<Rightarrow>
        if ret \<le> 0 then ((- sock_errno S h, sent), h)
        else
          let sent = sent + nat ret; data = drop (nat ret) data
          in if \<not> dgram \<and> data \<noteq> [] then sendto_loop S fd flags sa dgram fuel sent data h else ((ret, sent), h))"

definition do_sendto ::
  "('rb, 'w) env \<Rightarrow> ('rb, 'w) sock_env \<Rightarrow> nat \<Rightarrow> string \<Rightarrow> 16 word \<Rightarrow> bytes \<Rightarrow> 32 word \<Rightarrow> ('rb, 'w) host \<Rightarrow>
   int \<times> ('rb, 'w) host" where
  "do_sendto E S k url port data flags h =
     (let send_ntf = (flags AND SM_MSG_SEND_ACK \<noteq> 0)
      in case resolve S k url port h of ((ret, sa), h) \<Rightarrow>
        if ret \<noteq> 0 then (- EAGAIN, h)
        else
          let flags = (if send_ntf then flags AND NOT SM_MSG_SEND_ACK else flags)
          in case prepare_send_cb S k send_ntf h of (ret, h) \<Rightarrow>
            if ret < 0 then (ret, h)
            else
              let dgram = (sk_type (sock k h) = SOCK_DGRAM)
              in case sendto_loop S (sk_fd (sock k h)) flags sa dgram (length data + 1) 0 data h of ((ret, sent), h) \<Rightarrow>
                let partial = (0 \<le> ret \<and> dgram \<and> sent \<noteq> length data);
                    ret = (if partial then - EAGAIN else ret);
                    sent = (if partial then 0 else sent);
                    h = (if \<not> in_datamode_pipe (sk_pipe (sock k h)) h
                         then rsp_send E (send_rsp ''#XSENDTO: '' (sk_fd (sock k h)) send_ntf sent) h else h);
                    h = (if \<not> send_ntf then snd (update_poll_events E S k ZSOCK_POLLOUT True h) else h)
                in (if 0 < sent then int sent else ret, h))"

section \<open>Receiving\<close>

text \<open>The hexadecimal output, in pieces that fit a buffer of 257 bytes.\<close>

fun data_send_hex_loop ::
  "('rb, 'w) env \<Rightarrow> ('rb, 'w) sock_env \<Rightarrow> nat \<Rightarrow> nat \<Rightarrow> nat \<Rightarrow> bytes \<Rightarrow> ('rb, 'w) host \<Rightarrow> int \<times> ('rb, 'w) host" where
  "data_send_hex_loop E S k fuel data_len [] h = (0, h)"
| "data_send_hex_loop E S k 0 data_len (b # bs) h = (0, fault h)"
| "data_send_hex_loop E S k (Suc fuel) data_len (b # bs) h =
     (let hex = s_bin2hex S (take data_len (b # bs)) 257
      in if hex = [] then (- EINVAL, h)
         else
           let h = data_send E (sk_pipe (sock k h)) hex h; rest = drop (length hex div 2) (b # bs)
           in data_send_hex_loop E S k fuel (min data_len (length rest)) rest h)"

definition data_send_hex ::
  "('rb, 'w) env \<Rightarrow> ('rb, 'w) sock_env \<Rightarrow> nat \<Rightarrow> bytes \<Rightarrow> ('rb, 'w) host \<Rightarrow> int \<times> ('rb, 'w) host" where
  "data_send_hex E S k buf h = data_send_hex_loop E S k (length buf) (min (length buf) 128) buf h"

text \<open>The common end of reception: the header in AT command mode and the data, under the lock of the
  context.\<close>

definition recv_deliver ::
  "('rb, 'w) env \<Rightarrow> ('rb, 'w) sock_env \<Rightarrow> nat \<Rightarrow> nat \<Rightarrow> string \<Rightarrow> bytes \<Rightarrow> ('rb, 'w) host \<Rightarrow> int \<times> ('rb, 'w) host" where
  "recv_deliver E S k mode header data h =
     (let pipe = sk_pipe (sock k h);
          h = sm_at_host_lock_pipe E pipe h;
          h = (if \<not> in_datamode_pipe pipe h then rsp_send_to E pipe header h else h)
      in case (if mode = AT_SOCKET_MODE_HEX then data_send_hex E S k data h else (0, data_send E pipe data h)) of (ret, h) \<Rightarrow>
        let h = sm_at_host_cmd_done_pipe E pipe h
        in if ret \<noteq> 0 then (ret, h) else (0, snd (update_poll_events E S k ZSOCK_POLLIN True h)))"

definition do_recv ::
  "('rb, 'w) env \<Rightarrow> ('rb, 'w) sock_env \<Rightarrow> nat \<Rightarrow> int \<Rightarrow> 32 word \<Rightarrow> nat \<Rightarrow> nat \<Rightarrow> ('rb, 'w) host \<Rightarrow> int \<times> ('rb, 'w) host" where
  "do_recv E S k timeout flags mode data_len h =
     (let fd = sk_fd (sock k h)
      in case wcall (s_setsockopt S fd SOL_SOCKET SO_RCVTIMEO (VTime timeout)) h of (ret, h) \<Rightarrow>
        if ret \<noteq> 0 then (- sock_errno S h, h)
        else case wcall (s_recv S fd data_len flags) h of ((ret, data), h) \<Rightarrow>
          if ret < 0 then (- sock_errno S h, h)
          else if ret = 0 then (0, h)
          else recv_deliver E S k mode
                 (CRLF_STR @ ''#XRECV: '' @ show_int fd @ '','' @ show_nat mode @ '','' @ show_int ret @ CRLF_STR)
                 (take (nat ret) data) h)"

definition do_recvfrom ::
  "('rb, 'w) env \<Rightarrow> ('rb, 'w) sock_env \<Rightarrow> nat \<Rightarrow> int \<Rightarrow> 32 word \<Rightarrow> nat \<Rightarrow> nat \<Rightarrow> ('rb, 'w) host \<Rightarrow> int \<times> ('rb, 'w) host" where
  "do_recvfrom E S k timeout flags mode data_len h =
     (let fd = sk_fd (sock k h)
      in case wcall (s_setsockopt S fd SOL_SOCKET SO_RCVTIMEO (VTime timeout)) h of (ret, h) \<Rightarrow>
        if ret \<noteq> 0 then (- sock_errno S h, h)
        else case wcall (s_recvfrom S fd data_len flags) h of ((ret, data, remote), h) \<Rightarrow>
          if ret < 0 then (- sock_errno S h, h)
          else if ret = 0 then (0, h)
          else case util_get_peer_addr (s_util S) remote (h_world h) of (_, peer_addr, peer_port) \<Rightarrow>
            recv_deliver E S k mode
              (CRLF_STR @ ''#XRECVFROM: '' @ show_int fd @ '','' @ show_nat mode @ '','' @ show_int ret @ '','' @
               [DQUOTE] @ peer_addr @ [DQUOTE] @ '','' @ show_nat (unat peer_port) @ CRLF_STR)
              (take (nat ret) data) h)"

section \<open>Data mode\<close>

definition socket_datamode_callback ::
  "('rb, 'w) env \<Rightarrow> ('rb, 'w) sock_env \<Rightarrow> sm_datamode_operation \<Rightarrow> bytes \<Rightarrow> 8 word \<Rightarrow> ('rb, 'w) host \<Rightarrow> int \<times> ('rb, 'w) host" where
  "socket_datamode_callback E S op data flags h =
     (let poll_ctx = sm_at_host_get_async_poll_ctx (sm_at_host_get_current_pipe E h) h
      in case op of
           DATAMODE_SEND \<Rightarrow>
             (case poll_ctx of
                None \<Rightarrow> (0, fault h)
              | Some i \<Rightarrow>
                  (case apc_datamode_sock (c_poll_ctx (h_ctx h i)) of
                     None \<Rightarrow> (0, fault h)
                   | Some k \<Rightarrow>
                       (if sk_type (sock k h) = SOCK_DGRAM \<and> flags AND SM_DATAMODE_FLAGS_MORE_DATA \<noteq> 0
                        then (- EOVERFLOW, exit_datamode_handler E (sm_at_host_get_current E h) (- EOVERFLOW) h)
                        else if h_udp_url h \<noteq> []
                        then do_sendto E S k (h_udp_url h) (h_udp_port h) data (sk_send_flags (sock k h)) h
                        else do_send E S k data (sk_send_flags (sock k h)) h)))
         | DATAMODE_EXIT \<Rightarrow>
             (let h = h\<lparr>h_udp_url := []\<rparr>;
                  h = (if flags AND SM_DATAMODE_FLAGS_EXIT_HANDLER \<noteq> 0 then rsp_send E (cfg_datamode_terminator E) h else h)
              in (0, case poll_ctx of
                       None \<Rightarrow> fault h
                     | Some i \<Rightarrow> upd_ctx i (upd_poll_ctx (\<lambda>c. c\<lparr>apc_datamode_sock := None\<rparr>)) h)))"

section \<open>Poll events\<close>

definition auto_reception ::
  "('rb, 'w) env \<Rightarrow> ('rb, 'w) sock_env \<Rightarrow> nat \<Rightarrow> ('rb, 'w) host \<Rightarrow> ('rb, 'w) host" where
  "auto_reception E S k h =
     (if sk_listen (sock k h) then h
      else
        let h = sm_at_host_lock_pipe E (sk_pipe (sock k h)) h;
            mode = (if po_adr_hex (sk_async_poll (sock k h)) then AT_SOCKET_MODE_HEX else AT_SOCKET_MODE_UNFORMATTED)
        in case (if sk_connected (sock k h) \<or> sk_type (sock k h) = SOCK_RAW
                 then do_recv E S k 0 (s_msg_dontwait S) mode SM_MAX_MESSAGE_SIZE h
                 else do_recvfrom E S k 0 (s_msg_dontwait S) mode SM_MAX_MESSAGE_SIZE h) of (err, h) \<Rightarrow>
          if err \<noteq> 0 then sm_at_host_cmd_done_pipe E (sk_pipe (sock k h)) h
          else
            let h = (if \<not> in_datamode_pipe (sk_pipe (sock k h)) h then rsp_send_to E (sk_pipe (sock k h)) CRLF_STR h else h)
            in sm_at_host_cmd_done_pipe E (sk_pipe (sock k h)) h)"

text \<open>The part of a round that sends the notification: the events that are left to process and the
  state.\<close>

definition poll_work_xapoll ::
  "('rb, 'w) env \<Rightarrow> ('rb, 'w) sock_env \<Rightarrow> pipe \<Rightarrow> nat \<Rightarrow> 8 word \<Rightarrow> ('rb, 'w) host \<Rightarrow> 8 word \<times> ('rb, 'w) host" where
  "poll_work_xapoll E S pipe k revents h =
     (let xapoll_events = revents AND po_xapoll_events (sk_async_poll (sock k h));
          h = upd_sock k (upd_poll (\<lambda>p. p\<lparr>po_xapoll_events := po_xapoll_events p AND NOT xapoll_events\<rparr>)) h;
          (http_needs_rearm, h) =
            (if xapoll_events \<noteq> 0 then
               (let h = urc_send_to E (Some pipe) (CRLF_STR @ ''#XAPOLL: '' @ show_int (sk_fd (sock k h)) @ '','' @
                          show_nat (unat xapoll_events) @ CRLF_STR) h
                in if cfg_httpc S then s_httpc_poll_event S (sk_fd (sock k h)) xapoll_events h else (False, h))
             else (False, h))
      in if http_needs_rearm \<and> revents AND ZSOCK_POLLIN \<noteq> 0
         then (revents AND NOT ZSOCK_POLLIN,
               upd_sock k (upd_poll (\<lambda>p. p\<lparr>po_xapoll_events := po_xapoll_events p OR ZSOCK_POLLIN,
                 po_events := po_events p OR ZSOCK_POLLIN\<rparr>)) h)
         else (revents, h))"

text \<open>The rest of a round: the events of the socket are processed and those that remain are registered
  again.\<close>

definition poll_work_events ::
  "('rb, 'w) env \<Rightarrow> ('rb, 'w) sock_env \<Rightarrow> pipe \<Rightarrow> bool \<Rightarrow> bool \<Rightarrow> nat \<Rightarrow> 8 word \<Rightarrow> ('rb, 'w) host \<Rightarrow> ('rb, 'w) host" where
  "poll_work_events E S pipe at_and_idle data_mode k revents h =
     (let (revents, h) = (if \<not> data_mode then poll_work_xapoll E S pipe k revents h else (revents, h));
          h = (if revents AND ZSOCK_POLLOUT \<noteq> 0
               then upd_sock k (upd_poll (\<lambda>p. p\<lparr>po_events := po_events p AND NOT ZSOCK_POLLOUT\<rparr>)) h else h);
          h = (if revents AND (ZSOCK_POLLERR OR ZSOCK_POLLNVAL OR ZSOCK_POLLHUP) \<noteq> 0
               then upd_sock k (upd_poll (\<lambda>p. p\<lparr>po_disable := True\<rparr>)) h else h);
          h = (if revents AND ZSOCK_POLLIN \<noteq> 0 then
                 (let h = upd_sock k (upd_poll (\<lambda>p. p\<lparr>po_events := po_events p AND NOT ZSOCK_POLLIN\<rparr>)) h;
                      adr_flags = po_adr_flags (sk_async_poll (sock k h))
                  in if at_and_idle \<and> adr_flags AND SM_ADR_AT_MODE \<noteq> 0 \<or> data_mode \<and> adr_flags AND SM_ADR_DATA_MODE \<noteq> 0
                     then auto_reception E S k h else h)
               else h);
          h = snd (update_poll_events E S k 0 False h)
      in if data_mode then
           (let err = (if revents AND ZSOCK_POLLERR \<noteq> 0 then - EIO
                       else if revents AND ZSOCK_POLLNVAL \<noteq> 0 then - ENETDOWN
                       else if revents AND ZSOCK_POLLHUP \<noteq> 0 then - ECONNRESET
                       else 0)
            in if err \<noteq> 0 then exit_datamode_handler E (sm_at_host_get_ctx_from (Some pipe) h) err h else h)
         else h)"

definition poll_work_sock ::
  "('rb, 'w) env \<Rightarrow> ('rb, 'w) sock_env \<Rightarrow> ctx_id \<Rightarrow> pipe \<Rightarrow> bool \<Rightarrow> bool \<Rightarrow> nat \<Rightarrow> ('rb, 'w) host \<Rightarrow> ('rb, 'w) host" where
  "poll_work_sock E S i pipe at_and_idle data_mode k h =
     (if sk_fd (sock k h) = INVALID_SOCKET \<or> sk_pipe (sock k h) \<noteq> Some pipe then h
      else
        let revents = ucast (po_revents (sk_async_poll (sock k h)));
            h = upd_sock k (upd_poll (\<lambda>p. p\<lparr>po_revents := 0\<rparr>)) h;
            h = (if \<not> at_and_idle
                 then sm_at_host_queue_idle_work E (Some pipe) (idle_poll_work i)
                        (upd_sock k (upd_poll (\<lambda>p. p\<lparr>po_delayed_revents := po_delayed_revents p OR revents\<rparr>)) h)
                 else h);
            datamode_sock = (apc_datamode_sock (c_poll_ctx (h_ctx h i)) = Some k)
        in if \<not> at_and_idle \<and> \<not> data_mode then h
           else if data_mode \<and> \<not> datamode_sock then h
           else if at_and_idle \<and> po_delayed_revents (sk_async_poll (sock k h)) \<noteq> 0 then
             (let h = upd_sock k (upd_poll (\<lambda>p. p\<lparr>po_disable := False\<rparr>)) h;
                  h = snd (update_poll_events E S k (po_delayed_revents (sk_async_poll (sock k h)) OR revents) True h)
              in upd_sock k (upd_poll (\<lambda>p. p\<lparr>po_delayed_revents := 0\<rparr>)) h)
           else if \<not> (at_and_idle \<or> data_mode \<and> datamode_sock) then fault h
           else poll_work_events E S pipe at_and_idle data_mode k revents h)"

definition sm_at_socket_poll_work_handler ::
  "('rb, 'w) env \<Rightarrow> ('rb, 'w) sock_env \<Rightarrow> ctx_id \<Rightarrow> ('rb, 'w) host \<Rightarrow> ('rb, 'w) host" where
  "sm_at_socket_poll_work_handler E S i h =
     (case sm_at_host_get_pipe_from_poll_ctx (Some i) h of
        None \<Rightarrow> h
      | Some pipe \<Rightarrow>
          (let at_and_idle = is_idle_pipe (Some pipe) h; data_mode = in_datamode_pipe (Some pipe) h
           in fold (poll_work_sock E S i pipe at_and_idle data_mode) [0..<SM_MAX_SOCKET_COUNT] h))"

definition sm_at_socket_poll_idle_handler ::
  "('rb, 'w) env \<Rightarrow> ('rb, 'w) sock_env \<Rightarrow> ctx_id \<Rightarrow> ('rb, 'w) host \<Rightarrow> ('rb, 'w) host" where
  "sm_at_socket_poll_idle_handler E S i h =
     (let pipe = sm_at_host_get_current_pipe E h
      in if \<not> is_idle_pipe pipe h then sm_at_host_queue_idle_work E pipe (idle_poll_work i) h
         else sm_at_socket_poll_work_handler E S i h)"

section \<open>Listening and accepting\<close>

definition do_listen ::
  "('rb, 'w) sock_env \<Rightarrow> nat \<Rightarrow> ('rb, 'w) host \<Rightarrow> int \<times> ('rb, 'w) host" where
  "do_listen S k h =
     (if sk_type (sock k h) \<noteq> SOCK_STREAM \<or> sk_local_port (sock k h) = 0 \<or> sk_sec_tag (sock k h) \<noteq> SEC_TAG_TLS_INVALID
      then (- EOPNOTSUPP, h)
      else case wcall (s_set_nonblock S (sk_fd (sock k h))) h of (ret, h) \<Rightarrow>
        if ret \<noteq> 0 then (- sock_errno S h, h)
        else case wcall (s_listen S (sk_fd (sock k h)) 2) h of (ret, h) \<Rightarrow>
          if ret \<noteq> 0 then (- sock_errno S h, h)
          else (0, upd_sock k (\<lambda>s. s\<lparr>sk_listen := True\<rparr>) h))"

definition do_accept ::
  "('rb, 'w) env \<Rightarrow> ('rb, 'w) sock_env \<Rightarrow> nat \<Rightarrow> ('rb, 'w) host \<Rightarrow> int \<times> ('rb, 'w) host" where
  "do_accept E S k h =
     (let poll_ctx = poll_ctx_from_sock k h
      in if sk_type (sock k h) \<noteq> SOCK_STREAM \<or> \<not> sk_listen (sock k h) then (- EOPNOTSUPP, h)
         else case wcall (s_accept S (sk_fd (sock k h))) h of ((ret, remote), h) \<Rightarrow>
           if ret < 0 then (- sock_errno S h, h)
           else case find_avail_socket h of
             None \<Rightarrow> (- EINVAL, snd (wcall (s_close S ret) h))
           | Some n \<Rightarrow>
               (let h = init_socket E n h;
                    h = upd_sock n (\<lambda>s. s\<lparr>sk_fd := ret, sk_family := fst remote, sk_type := SOCK_STREAM,
                          sk_role := AT_SOCKET_ROLE_CLIENT, sk_cid := sk_cid (sock k h), sk_connected := True\<rparr>) h;
                    (_, peer_addr, peer_port) = util_get_peer_addr (s_util S) remote (h_world h);
                    h = rsp_send E (CRLF_STR @ ''#XACCEPT: '' @ show_int (sk_fd (sock n h)) @ '','' @
                          show_nat (unat (sk_cid (sock n h))) @ '','' @ [DQUOTE] @ peer_addr @ [DQUOTE] @ '','' @
                          show_nat (unat peer_port) @ CRLF_STR) h
                in case poll_ctx of
                     None \<Rightarrow> (0, fault h)
                   | Some i \<Rightarrow> (0, snd (update_poll_events E S k ZSOCK_POLLIN True (adopt_poll_ctx E S i n h)))))"

end
