(* ===== verification/Sock_Cmd.thy ===== *)
theory Sock_Cmd
  imports Sock_Io
begin

unbundle bit_operations_syntax

text \<open>
  The AT commands of the sockets module (\<open>app/src/sm_at_socket.c\<close>). Each handler gets the type of the
  command, the parser and the number of parameters, and runs on the state of the host.
\<close>

section \<open>Parameters\<close>

text \<open>A parameter that cannot be read ends the command with the error of the parser, an unknown handle
  with \<open>-EINVAL\<close>.\<close>

definition param :: "int + 'a \<Rightarrow> ('a \<Rightarrow> 's \<Rightarrow> int \<times> 's) \<Rightarrow> 's \<Rightarrow> int \<times> 's" where
  "param r f h = (case r of Inl err \<Rightarrow> (err, h) | Inr v \<Rightarrow> f v h)"

definition num_int :: "'p at_parser_ops \<Rightarrow> 'p \<Rightarrow> nat \<Rightarrow> int + int" where
  "num_int P parser i = map_sum id sint (ap_num_get_s32 P parser i)"

definition str_param :: "'p at_parser_ops \<Rightarrow> 'p \<Rightarrow> nat \<Rightarrow> nat \<Rightarrow> int + string" where
  "str_param P parser i sz =
     (case util_string_get (ap_string_get P parser i sz) sz of (err, s) \<Rightarrow> if err \<noteq> 0 then Inl err else Inr s)"

definition with_socket ::
  "int \<Rightarrow> (nat \<Rightarrow> ('rb, 'w) host \<Rightarrow> int \<times> ('rb, 'w) host) \<Rightarrow> ('rb, 'w) host \<Rightarrow> int \<times> ('rb, 'w) host" where
  "with_socket fd f h = (case find_socket fd h of None \<Rightarrow> (- EINVAL, h) | Some k \<Rightarrow> f k h)"

text \<open>A loop over the table that sends one line for each socket that satisfies a condition.\<close>

definition rsp_each ::
  "('rb, 'w) env \<Rightarrow> (sm_socket \<Rightarrow> bool) \<Rightarrow> (sm_socket \<Rightarrow> string) \<Rightarrow> ('rb, 'w) host \<Rightarrow> ('rb, 'w) host" where
  "rsp_each E want line h =
     fold (\<lambda>k h. if sk_fd (sock k h) \<noteq> INVALID_SOCKET \<and> want (sock k h) then rsp_send E (CRLF_STR @ line (sock k h) @ CRLF_STR) h else h)
       [0..<SM_MAX_SOCKET_COUNT] h"

definition commas :: "string list \<Rightarrow> string" where
  "commas ss = concat (map (\<lambda>s. CHR '','' # s) ss)"

section \<open>Opening and closing\<close>

text \<open>The parameters that both commands write into the new entry, and the optional context.\<close>

definition open_params ::
  "'p at_parser_ops \<Rightarrow> 'p \<Rightarrow> nat \<Rightarrow> (('rb, 'w) host \<Rightarrow> int \<times> ('rb, 'w) host) \<Rightarrow> ('rb, 'w) host \<Rightarrow> int \<times> ('rb, 'w) host" where
  "open_params P parser k f =
     param (num_int P parser 1) (\<lambda>v h. let h = upd_sock k (\<lambda>s. s\<lparr>sk_family := v\<rparr>) h in
     param (num_int P parser 2) (\<lambda>v h. let h = upd_sock k (\<lambda>s. s\<lparr>sk_type := v\<rparr>) h in
     param (ap_num_get_u16 P parser 3) (\<lambda>v h. f (upd_sock k (\<lambda>s. s\<lparr>sk_role := v\<rparr>) h)) h) h)"

definition cid_param ::
  "'p at_parser_ops \<Rightarrow> 'p \<Rightarrow> nat \<Rightarrow> nat \<Rightarrow> nat \<Rightarrow> (('rb, 'w) host \<Rightarrow> int \<times> ('rb, 'w) host) \<Rightarrow> ('rb, 'w) host \<Rightarrow> int \<times> ('rb, 'w) host" where
  "cid_param P parser param_count i k f h =
     (if i < param_count then
        param (ap_num_get_u16 P parser i)
          (\<lambda>v h. let h = upd_sock k (\<lambda>s. s\<lparr>sk_cid := v\<rparr>) h in if 10 < v then (- EINVAL, h) else f h) h
      else f h)"

text \<open>The entry is reset before the parameters are read and after any error.\<close>

definition open_command ::
  "('rb, 'w) env \<Rightarrow> (nat \<Rightarrow> ('rb, 'w) host \<Rightarrow> int \<times> ('rb, 'w) host) \<Rightarrow> ('rb, 'w) host \<Rightarrow> int \<times> ('rb, 'w) host" where
  "open_command E f h =
     (case find_avail_socket h of
        None \<Rightarrow> (- EINVAL, h)
      | Some k \<Rightarrow> (case f k (init_socket E k h) of (err, h) \<Rightarrow> (err, if err \<noteq> 0 then init_socket E k h else h)))"

definition handle_at_socket ::
  "('rb, 'w) env \<Rightarrow> ('rb, 'w) sock_env \<Rightarrow> 'p at_parser_ops \<Rightarrow> at_parser_cmd_type \<Rightarrow> 'p \<Rightarrow> nat \<Rightarrow>
   ('rb, 'w) host \<Rightarrow> int \<times> ('rb, 'w) host" where
  "handle_at_socket E S P cmd_type parser param_count h =
     (case cmd_type of
        CMD_TYPE_SET \<Rightarrow>
          open_command E (\<lambda>k. open_params P parser k (cid_param P parser param_count 4 k (do_socket_open E S k))) h
      | CMD_TYPE_READ \<Rightarrow>
          (0, rsp_each E (\<lambda>s. sk_sec_tag s = SEC_TAG_TLS_INVALID)
                (\<lambda>s. ''#XSOCKET: '' @ show_int (sk_fd s) @ commas [show_int (sk_family s), show_nat (unat (sk_role s)),
                   show_int (sk_type s), show_nat (unat (sk_cid s))]) h)
      | CMD_TYPE_TEST \<Rightarrow>
          (0, rsp_send E (CRLF_STR @ ''#XSOCKET: <handle>,(1,2,3),(1,2,3),(0,1),<cid>'' @ CRLF_STR) h)
      | CMD_TYPE_UNKNOWN \<Rightarrow> (- EINVAL, h))"

definition handle_at_secure_socket ::
  "('rb, 'w) env \<Rightarrow> ('rb, 'w) sock_env \<Rightarrow> 'p at_parser_ops \<Rightarrow> at_parser_cmd_type \<Rightarrow> 'p \<Rightarrow> nat \<Rightarrow>
   ('rb, 'w) host \<Rightarrow> int \<times> ('rb, 'w) host" where
  "handle_at_secure_socket E S P cmd_type parser param_count h =
     (case cmd_type of
        CMD_TYPE_SET \<Rightarrow>
          open_command E (\<lambda>k. open_params P parser k (\<lambda>h.
            param (num_int P parser 4) (\<lambda>v h.
              let h = upd_sock k (\<lambda>s. s\<lparr>sk_sec_tag := v\<rparr>) h;
                  opn = (\<lambda>peer_verify. cid_param P parser param_count 6 k (do_secure_socket_open E S k peer_verify))
              in if 5 < param_count then param (ap_num_get_u16 P parser 5) (\<lambda>v. opn (uint v)) h
                 else opn (s_peer_verify_required S) h)
            (upd_sock k (\<lambda>s. s\<lparr>sk_sec_tag := SEC_TAG_TLS_INVALID\<rparr>) h))) h
      | CMD_TYPE_READ \<Rightarrow>
          (0, rsp_each E (\<lambda>s. sk_sec_tag s \<noteq> SEC_TAG_TLS_INVALID)
                (\<lambda>s. ''#XSSOCKET: '' @ show_int (sk_fd s) @ commas [show_int (sk_family s), show_nat (unat (sk_role s)),
                   show_int (sk_type s), show_int (sk_sec_tag s), show_nat (unat (sk_cid s))]) h)
      | CMD_TYPE_TEST \<Rightarrow>
          (0, rsp_send E (CRLF_STR @ ''#XSSOCKET: <handle>,(1,2),(1,2),(0,1),<sec_tag>,<peer_verify>,<cid>'' @ CRLF_STR) h)
      | CMD_TYPE_UNKNOWN \<Rightarrow> (- EINVAL, h))"

definition close_step ::
  "('rb, 'w) env \<Rightarrow> ('rb, 'w) sock_env \<Rightarrow> nat \<Rightarrow> int \<times> ('rb, 'w) host \<Rightarrow> int \<times> ('rb, 'w) host" where
  "close_step E S k eh =
     (case eh of (err, h) \<Rightarrow>
        if sk_fd (sock k h) \<noteq> INVALID_SOCKET
        then (case do_socket_close E S k h of (ret, h) \<Rightarrow> (if ret < 0 then ret else err, h)) else (err, h))"

definition handle_at_close ::
  "('rb, 'w) env \<Rightarrow> ('rb, 'w) sock_env \<Rightarrow> 'p at_parser_ops \<Rightarrow> at_parser_cmd_type \<Rightarrow> 'p \<Rightarrow> nat \<Rightarrow>
   ('rb, 'w) host \<Rightarrow> int \<times> ('rb, 'w) host" where
  "handle_at_close E S P cmd_type parser param_count h =
     (if cmd_type \<noteq> CMD_TYPE_SET then (- EINVAL, h)
      else if 1 < param_count then
        param (num_int P parser 1) (\<lambda>fd. with_socket fd (do_socket_close E S)) h
      else fold (close_step E S) [0..<SM_MAX_SOCKET_COUNT] (0, h))"

section \<open>Options\<close>

definition handle_at_socketopt ::
  "('rb, 'w) env \<Rightarrow> ('rb, 'w) sock_env \<Rightarrow> 'p at_parser_ops \<Rightarrow> at_parser_cmd_type \<Rightarrow> 'p \<Rightarrow> nat \<Rightarrow>
   ('rb, 'w) host \<Rightarrow> int \<times> ('rb, 'w) host" where
  "handle_at_socketopt E S P cmd_type parser param_count h =
     (case cmd_type of
        CMD_TYPE_SET \<Rightarrow>
          param (num_int P parser 1) (\<lambda>fd. with_socket fd (\<lambda>k.
          param (ap_num_get_u16 P parser 2) (\<lambda>op. param (ap_num_get_u16 P parser 3) (\<lambda>name.
            if op = 1 then
              (if 4 < param_count then param (num_int P parser 4) (sockopt_set S k (unat name))
               else sockopt_set S k (unat name) 0)
            else if op = 0 then sockopt_get E S k (unat name)
            else (\<lambda>h. (- EINVAL, h)))))) h
      | CMD_TYPE_TEST \<Rightarrow> (0, rsp_send E (CRLF_STR @ ''#XSOCKETOPT: <handle>,(0,1),<name>,<value>'' @ CRLF_STR) h)
      | CMD_TYPE_READ \<Rightarrow> (- EINVAL, h)
      | CMD_TYPE_UNKNOWN \<Rightarrow> (- EINVAL, h))"

definition handle_at_secure_socketopt ::
  "('rb, 'w) env \<Rightarrow> ('rb, 'w) sock_env \<Rightarrow> 'p at_parser_ops \<Rightarrow> at_parser_cmd_type \<Rightarrow> 'p \<Rightarrow>
   ('rb, 'w) host \<Rightarrow> int \<times> ('rb, 'w) host" where
  "handle_at_secure_socketopt E S P cmd_type parser h =
     (case cmd_type of
        CMD_TYPE_SET \<Rightarrow>
          param (num_int P parser 1) (\<lambda>fd. with_socket fd (\<lambda>k h.
            if sk_sec_tag (sock k h) = SEC_TAG_TLS_INVALID then (0, h)
            else
              param (ap_num_get_u16 P parser 2) (\<lambda>op. param (ap_num_get_u16 P parser 3) (\<lambda>name.
                if op = 1 then
                  (case num_int P parser 4 of
                     Inr v \<Rightarrow> sec_sockopt_set S k (unat name) (SecInt v)
                   | Inl err \<Rightarrow>
                       (if err = - EOPNOTSUPP
                        then param (str_param P parser 4 SM_MAX_URL) (\<lambda>s. sec_sockopt_set S k (unat name) (SecStr s))
                        else (\<lambda>h. (- EINVAL, h))))
                else if op = 0 then sec_sockopt_get E S k (unat name)
                else (\<lambda>h. (- EINVAL, h)))) h)) h
      | CMD_TYPE_TEST \<Rightarrow> (0, rsp_send E (CRLF_STR @ ''#XSSOCKETOPT: <handle>,(0,1),<name>,<value>'' @ CRLF_STR) h)
      | CMD_TYPE_READ \<Rightarrow> (- EINVAL, h)
      | CMD_TYPE_UNKNOWN \<Rightarrow> (- EINVAL, h))"

section \<open>Binding and connecting\<close>

text \<open>\<open>AT#XBIND\<close> and \<open>AT#XCONNECT\<close>; the handler of the latter moves the socket to the pipe of the
  command.\<close>

definition handle_at_bind ::
  "('rb, 'w) sock_env \<Rightarrow> 'p at_parser_ops \<Rightarrow> at_parser_cmd_type \<Rightarrow> 'p \<Rightarrow> ('rb, 'w) host \<Rightarrow> int \<times> ('rb, 'w) host" where
  "handle_at_bind S P cmd_type parser h =
     (if cmd_type \<noteq> CMD_TYPE_SET then (- EINVAL, h)
      else
        param (num_int P parser 1) (\<lambda>fd. with_socket fd (\<lambda>k.
        param (ap_num_get_u16 P parser 2) (bind_to_local_addr S k))) h)"

definition claim_socket :: "('rb, 'w) env \<Rightarrow> nat \<Rightarrow> ('rb, 'w) host \<Rightarrow> ('rb, 'w) host" where
  "claim_socket E k h = upd_sock k (set_sock_pipe (sm_at_host_get_current_pipe E h)) h"

definition handle_at_connect ::
  "('rb, 'w) env \<Rightarrow> ('rb, 'w) sock_env \<Rightarrow> 'p at_parser_ops \<Rightarrow> at_parser_cmd_type \<Rightarrow> 'p \<Rightarrow>
   ('rb, 'w) host \<Rightarrow> int \<times> ('rb, 'w) host" where
  "handle_at_connect E S P cmd_type parser h =
     (if cmd_type \<noteq> CMD_TYPE_SET then (- EINVAL, h)
      else
        param (num_int P parser 1) (\<lambda>fd. with_socket fd (\<lambda>k.
        param (str_param P parser 2 SM_MAX_URL) (\<lambda>url. param (ap_num_get_u16 P parser 3) (\<lambda>port h.
          do_connect E S k url port (claim_socket E k h))))) h)"

section \<open>Sending and receiving\<close>

text \<open>The data of a send command, converted from hexadecimal if asked for.\<close>

definition send_data_param ::
  "('rb, 'w) sock_env \<Rightarrow> 'p at_parser_ops \<Rightarrow> 'p \<Rightarrow> nat \<Rightarrow> nat \<Rightarrow> nat \<Rightarrow> int + bytes" where
  "send_data_param S P parser param_count i mode =
     (if \<not> i < param_count then Inl (- EINVAL)
      else case ap_string_ptr_get P parser i of
        Inl err \<Rightarrow> Inl err
      | Inr str \<Rightarrow>
          (if mode = AT_SOCKET_MODE_HEX then
             (let bin = s_hex2bin S str BIN_DATA_SIZE in if bin = [] then Inl (- EINVAL) else Inr bin)
           else Inr str))"

text \<open>What the command returns for the result of sending \<open>size\<close> bytes.\<close>

definition send_result :: "int \<Rightarrow> nat \<Rightarrow> int" where
  "send_result err len = (if err = int len then 0 else if err < 0 then err else - EAGAIN)"

text \<open>The number of the handler in the table of data mode handlers, and entering data mode with an
  optional length. The length is converted to the unsigned type of the parameter.\<close>

abbreviation (input) SOCKET_HANDLER :: nat where "SOCKET_HANDLER \<equiv> 1"

definition enter_socket_datamode ::
  "('rb, 'w) env \<Rightarrow> ('rb, 'w) sock_env \<Rightarrow> 'p at_parser_ops \<Rightarrow> 'p \<Rightarrow> nat \<Rightarrow> nat \<Rightarrow> nat \<Rightarrow> ('rb, 'w) host \<Rightarrow>
   int \<times> ('rb, 'w) host" where
  "enter_socket_datamode E S P parser param_count i k h =
     param (if i < param_count then num_int P parser i else Inr 0) (\<lambda>data_len h.
       case sm_at_host_get_async_poll_ctx (sk_pipe (sock k h)) h of
         None \<Rightarrow> (0, fault h)
       | Some c \<Rightarrow>
           (let h = upd_ctx c (upd_poll_ctx (\<lambda>p. p\<lparr>apc_datamode_sock := Some k\<rparr>)) h
            in case enter_datamode E (Some SOCKET_HANDLER) (nat (data_len mod 2 ^ 32)) h of (err, h) \<Rightarrow>
              (err, if err = 0 \<and> po_adr_flags (sk_async_poll (sock k h)) AND SM_ADR_DATA_MODE \<noteq> 0
                    then snd (update_poll_events E S k ZSOCK_POLLIN False h) else h))) h"

definition handle_at_send ::
  "('rb, 'w) env \<Rightarrow> ('rb, 'w) sock_env \<Rightarrow> 'p at_parser_ops \<Rightarrow> at_parser_cmd_type \<Rightarrow> 'p \<Rightarrow> nat \<Rightarrow>
   ('rb, 'w) host \<Rightarrow> int \<times> ('rb, 'w) host" where
  "handle_at_send E S P cmd_type parser param_count h =
     (if cmd_type \<noteq> CMD_TYPE_SET then (- EINVAL, h)
      else
        param (num_int P parser 1) (\<lambda>fd. with_socket fd (\<lambda>k.
        param (ap_num_get_u16 P parser 2) (\<lambda>mode. param (ap_num_get_s32 P parser 3) (\<lambda>flags h.
          let h = claim_socket E k (upd_sock k (\<lambda>s. s\<lparr>sk_send_flags := flags\<rparr>) h); mode = unat mode
          in if mode = AT_SOCKET_MODE_UNFORMATTED \<or> mode = AT_SOCKET_MODE_HEX then
               param (send_data_param S P parser param_count 4 mode) (\<lambda>data h.
                 case do_send E S k data (sk_send_flags (sock k h)) h of (err, h) \<Rightarrow> (send_result err (length data), h)) h
             else if mode = AT_SOCKET_MODE_DATA then enter_socket_datamode E S P parser param_count 4 k h
             else (- EINVAL, h))))) h)"

definition recv_command ::
  "('rb, 'w) env \<Rightarrow> 'p at_parser_ops \<Rightarrow> at_parser_cmd_type \<Rightarrow> 'p \<Rightarrow> nat \<Rightarrow>
   (nat \<Rightarrow> int \<Rightarrow> 32 word \<Rightarrow> nat \<Rightarrow> nat \<Rightarrow> ('rb, 'w) host \<Rightarrow> int \<times> ('rb, 'w) host) \<Rightarrow>
   ('rb, 'w) host \<Rightarrow> int \<times> ('rb, 'w) host" where
  "recv_command E P cmd_type parser param_count recv h =
     (if cmd_type \<noteq> CMD_TYPE_SET then (- EINVAL, h)
      else
        param (num_int P parser 1) (\<lambda>fd. with_socket fd (\<lambda>k.
        param (ap_num_get_u16 P parser 2) (\<lambda>mode h.
          if unat mode \<noteq> AT_SOCKET_MODE_UNFORMATTED \<and> unat mode \<noteq> AT_SOCKET_MODE_HEX then (- EINVAL, h)
          else
            param (ap_num_get_s32 P parser 3) (\<lambda>flags. param (num_int P parser 4) (\<lambda>timeout.
            param (if 5 < param_count then ap_num_get_s32 P parser 5 else Inr (of_nat SM_MAX_MESSAGE_SIZE)) (\<lambda>data_len h.
              if of_nat SM_MAX_MESSAGE_SIZE < data_len then (- ENOBUFS, h)
              else recv k timeout flags (unat mode) (unat data_len) (claim_socket E k h)))) h))) h)"

definition handle_at_recv ::
  "('rb, 'w) env \<Rightarrow> ('rb, 'w) sock_env \<Rightarrow> 'p at_parser_ops \<Rightarrow> at_parser_cmd_type \<Rightarrow> 'p \<Rightarrow> nat \<Rightarrow>
   ('rb, 'w) host \<Rightarrow> int \<times> ('rb, 'w) host" where
  "handle_at_recv E S P cmd_type parser param_count h = recv_command E P cmd_type parser param_count (do_recv E S) h"

definition handle_at_sendto ::
  "('rb, 'w) env \<Rightarrow> ('rb, 'w) sock_env \<Rightarrow> 'p at_parser_ops \<Rightarrow> at_parser_cmd_type \<Rightarrow> 'p \<Rightarrow> nat \<Rightarrow>
   ('rb, 'w) host \<Rightarrow> int \<times> ('rb, 'w) host" where
  "handle_at_sendto E S P cmd_type parser param_count h =
     (if cmd_type \<noteq> CMD_TYPE_SET then (- EINVAL, h)
      else
        param (num_int P parser 1) (\<lambda>fd. with_socket fd (\<lambda>k.
        param (ap_num_get_u16 P parser 2) (\<lambda>mode. param (ap_num_get_s32 P parser 3) (\<lambda>flags h.
          let h = upd_sock k (\<lambda>s. s\<lparr>sk_send_flags := flags\<rparr>) h; mode = unat mode
          in param (str_param P parser 4 SM_MAX_URL) (\<lambda>url h. let h = h\<lparr>h_udp_url := url\<rparr> in
             param (ap_num_get_u16 P parser 5) (\<lambda>port h.
               let h = claim_socket E k (h\<lparr>h_udp_port := port\<rparr>)
               in if mode = AT_SOCKET_MODE_UNFORMATTED \<or> mode = AT_SOCKET_MODE_HEX then
                    param (send_data_param S P parser param_count 6 mode) (\<lambda>data h.
                      case do_sendto E S k (h_udp_url h) (h_udp_port h) data (sk_send_flags (sock k h)) h of (err, h) \<Rightarrow>
                        (send_result err (length data), h\<lparr>h_udp_url := []\<rparr>)) h
                  else if mode = AT_SOCKET_MODE_DATA then enter_socket_datamode E S P parser param_count 6 k h
                  else (- EINVAL, h)) h) h)))) h)"

definition handle_at_recvfrom ::
  "('rb, 'w) env \<Rightarrow> ('rb, 'w) sock_env \<Rightarrow> 'p at_parser_ops \<Rightarrow> at_parser_cmd_type \<Rightarrow> 'p \<Rightarrow> nat \<Rightarrow>
   ('rb, 'w) host \<Rightarrow> int \<times> ('rb, 'w) host" where
  "handle_at_recvfrom E S P cmd_type parser param_count h =
     recv_command E P cmd_type parser param_count (do_recvfrom E S) h"

section \<open>Server sockets\<close>

definition handle_at_listen ::
  "('rb, 'w) env \<Rightarrow> ('rb, 'w) sock_env \<Rightarrow> 'p at_parser_ops \<Rightarrow> at_parser_cmd_type \<Rightarrow> 'p \<Rightarrow>
   ('rb, 'w) host \<Rightarrow> int \<times> ('rb, 'w) host" where
  "handle_at_listen E S P cmd_type parser h =
     (case cmd_type of
        CMD_TYPE_SET \<Rightarrow> param (num_int P parser 1) (\<lambda>fd. with_socket fd (do_listen S)) h
      | CMD_TYPE_READ \<Rightarrow>
          (0, rsp_each E sk_listen (\<lambda>s. ''#XLISTEN: '' @ show_int (sk_fd s) @
                commas [show_nat (unat (sk_cid s)), show_nat (unat (sk_local_port s))]) h)
      | CMD_TYPE_TEST \<Rightarrow> (0, rsp_send E (CRLF_STR @ ''#XLISTEN: <handle>'' @ CRLF_STR) h)
      | CMD_TYPE_UNKNOWN \<Rightarrow> (- EINVAL, h))"

definition handle_at_accept ::
  "('rb, 'w) env \<Rightarrow> ('rb, 'w) sock_env \<Rightarrow> 'p at_parser_ops \<Rightarrow> at_parser_cmd_type \<Rightarrow> 'p \<Rightarrow>
   ('rb, 'w) host \<Rightarrow> int \<times> ('rb, 'w) host" where
  "handle_at_accept E S P cmd_type parser h =
     (case cmd_type of
        CMD_TYPE_SET \<Rightarrow> param (num_int P parser 1) (\<lambda>fd. with_socket fd (do_accept E S)) h
      | CMD_TYPE_TEST \<Rightarrow> (0, rsp_send E (CRLF_STR @ ''#XACCEPT: <handle>'' @ CRLF_STR) h)
      | CMD_TYPE_READ \<Rightarrow> (- EINVAL, h)
      | CMD_TYPE_UNKNOWN \<Rightarrow> (- EINVAL, h))"

section \<open>Name lookup\<close>

text \<open>The text of the response is built in a buffer of 256 bytes. A name that cannot be printed leaves
  the previous one in the buffer, which is indeterminate at first and modelled as empty.\<close>

fun addrinfo_text :: "'w util_env \<Rightarrow> string \<Rightarrow> (int \<times> bytes) list \<Rightarrow> string" where
  "addrinfo_text U hostname [] = []"
| "addrinfo_text U hostname ((family, addr) # res) =
     (if family = AF_INET \<or> family = AF_INET6 then
        (let hostname = (case m_inet_ntop U (family = AF_INET6) addr of Some s \<Rightarrow> s | None \<Rightarrow> hostname)
         in hostname @ (if res \<noteq> [] then '' '' else []) @ addrinfo_text U hostname res)
      else addrinfo_text U hostname res)"

definition handle_at_getaddrinfo ::
  "('rb, 'w) env \<Rightarrow> ('rb, 'w) sock_env \<Rightarrow> 'p at_parser_ops \<Rightarrow> at_parser_cmd_type \<Rightarrow> 'p \<Rightarrow> nat \<Rightarrow>
   ('rb, 'w) host \<Rightarrow> int \<times> ('rb, 'w) host" where
  "handle_at_getaddrinfo E S P cmd_type parser param_count h =
     (if cmd_type \<noteq> CMD_TYPE_SET then (- EINVAL, h)
      else
        param (str_param P parser 1 SM_MAX_URL) (\<lambda>host. param
          (if param_count = 3
           then (case num_int P parser 2 of
                   Inl err \<Rightarrow> Inl err
                 | Inr family \<Rightarrow> if family < 0 \<or> AF_INET6 < family then Inl (- EINVAL) else Inr (Some family))
           else if param_count = 2 then Inr None else Inl (- EINVAL))
          (\<lambda>hints h.
            case wcall (s_getaddrinfo S host hints) h of ((err, result), h) \<Rightarrow>
              if err \<noteq> 0 then
                (err, rsp_send E (CRLF_STR @ ''#XGETADDRINFO: '' @ [DQUOTE] @ s_gai_strerror S err @ [DQUOTE] @ CRLF_STR) h)
              else if result = [] then
                (- ENOENT, rsp_send E (CRLF_STR @ ''#XGETADDRINFO: '' @ [DQUOTE] @ ''not found'' @ [DQUOTE] @ CRLF_STR) h)
              else
                let rsp_buf = CRLF_STR @ ''#XGETADDRINFO: '' @ [DQUOTE] @ addrinfo_text (s_util S) [] result @ [DQUOTE] @ CRLF_STR
                in if 256 \<le> length rsp_buf then (0, fault h) else (0, rsp_send E rsp_buf h))) h)"

section \<open>Poll notifications and automatic reception\<close>

definition on_pipe :: "pipe option \<Rightarrow> sm_socket \<Rightarrow> bool" where
  "on_pipe p s \<longleftrightarrow> sk_fd s \<noteq> INVALID_SOCKET \<and> sk_pipe s = p"

definition xapoll_stop :: "('rb, 'w) env \<Rightarrow> nat option \<Rightarrow> ('rb, 'w) host \<Rightarrow> ('rb, 'w) host" where
  "xapoll_stop E sock' h =
     (case sock' of
        Some k \<Rightarrow> upd_sock k (upd_poll (\<lambda>p. p\<lparr>po_xapoll_events_requested := 0\<rparr>)) h
      | None \<Rightarrow>
          (let pipe = sm_at_host_get_current_pipe E h
           in case sm_at_host_get_async_poll_ctx pipe h of
                None \<Rightarrow> fault h
              | Some i \<Rightarrow>
                  fold (\<lambda>k h. if on_pipe pipe (sock k h)
                              then upd_sock k (upd_poll (\<lambda>p. p\<lparr>po_xapoll_events_requested := 0\<rparr>)) h else h)
                    [0..<SM_MAX_SOCKET_COUNT]
                    (upd_ctx i (upd_poll_ctx (\<lambda>c. c\<lparr>apc_xapoll_events_requested := 0\<rparr>)) h)))"

definition xapoll_read_response :: "('rb, 'w) env \<Rightarrow> ('rb, 'w) host \<Rightarrow> ('rb, 'w) host" where
  "xapoll_read_response E h =
     (let pipe = sm_at_host_get_current_pipe E h
      in rsp_each E (\<lambda>s. po_xapoll_events_requested (sk_async_poll s) \<noteq> 0 \<and> sk_pipe s = pipe)
           (\<lambda>s. ''#XAPOLL: '' @ show_int (sk_fd s) @ commas [show_nat (unat (po_xapoll_events_requested (sk_async_poll s) AND
              NOT (ZSOCK_POLLERR OR ZSOCK_POLLHUP OR ZSOCK_POLLNVAL)))]) h)"

text \<open>A loop over the table that updates the sockets of the context and stops at the first error.\<close>

fun update_each ::
  "('rb, 'w) env \<Rightarrow> ('rb, 'w) sock_env \<Rightarrow> pipe option \<Rightarrow> (sm_async_poll \<Rightarrow> sm_async_poll) \<Rightarrow> 8 word \<Rightarrow> bool \<Rightarrow>
   nat list \<Rightarrow> ('rb, 'w) host \<Rightarrow> int \<times> ('rb, 'w) host" where
  "update_each E S pipe f events update_xapoll [] h = (0, h)"
| "update_each E S pipe f events update_xapoll (k # ks) h =
     (if on_pipe pipe (sock k h) then
        (case update_poll_events E S k events update_xapoll (upd_sock k (upd_poll f) h) of (ret, h) \<Rightarrow>
           if ret \<noteq> 0 then (ret, h) else update_each E S pipe f events update_xapoll ks h)
      else update_each E S pipe f events update_xapoll ks h)"

definition set_xapoll_events ::
  "('rb, 'w) env \<Rightarrow> ('rb, 'w) sock_env \<Rightarrow> nat option \<Rightarrow> 8 word \<Rightarrow> ('rb, 'w) host \<Rightarrow> int \<times> ('rb, 'w) host" where
  "set_xapoll_events E S sock' events h =
     (let pipe = sm_at_host_get_current_pipe E h; request = (\<lambda>p. p\<lparr>po_xapoll_events_requested := events\<rparr>)
      in case sock' of
           Some k \<Rightarrow> update_poll_events E S k events True (upd_sock k (\<lambda>s. upd_poll request (set_sock_pipe pipe s)) h)
         | None \<Rightarrow>
             (case sm_at_host_get_async_poll_ctx pipe h of
                None \<Rightarrow> (0, fault h)
              | Some i \<Rightarrow>
                  update_each E S pipe request events True [0..<SM_MAX_SOCKET_COUNT]
                    (upd_ctx i (upd_poll_ctx (\<lambda>c. c\<lparr>apc_xapoll_events_requested := events\<rparr>)) h)))"

text \<open>The optional handle at the start of the two commands below: absent or -1 means all sockets.\<close>

definition opt_socket ::
  "'p at_parser_ops \<Rightarrow> 'p \<Rightarrow> (nat option \<Rightarrow> ('rb, 'w) host \<Rightarrow> int \<times> ('rb, 'w) host) \<Rightarrow> ('rb, 'w) host \<Rightarrow> int \<times> ('rb, 'w) host" where
  "opt_socket P parser f h =
     (case num_int P parser 1 of
        Inl err \<Rightarrow> if err \<noteq> - ENODATA then (err, h) else f None h
      | Inr fd \<Rightarrow> if fd = - 1 then f None h else with_socket fd (\<lambda>k. f (Some k)) h)"

definition handle_at_xapoll ::
  "('rb, 'w) env \<Rightarrow> ('rb, 'w) sock_env \<Rightarrow> 'p at_parser_ops \<Rightarrow> at_parser_cmd_type \<Rightarrow> 'p \<Rightarrow>
   ('rb, 'w) host \<Rightarrow> int \<times> ('rb, 'w) host" where
  "handle_at_xapoll E S P cmd_type parser h =
     (case cmd_type of
        CMD_TYPE_SET \<Rightarrow>
          opt_socket P parser (\<lambda>sock' h.
            case num_int P parser 2 of
              Inl _ \<Rightarrow> (- EINVAL, h)
            | Inr op \<Rightarrow>
                (if op \<noteq> 0 \<and> op \<noteq> 1 then (- EINVAL, h)
                 else if op = 0 then (0, xapoll_stop E sock' h)
                 else
                   param (ap_num_get_u16 P parser 3) (\<lambda>events h.
                     if events AND NOT 5 \<noteq> 0 then (- EINVAL, h)
                     else set_xapoll_events E S sock' (ucast events OR ZSOCK_POLLERR OR ZSOCK_POLLHUP OR ZSOCK_POLLNVAL) h) h)) h
      | CMD_TYPE_READ \<Rightarrow> (0, xapoll_read_response E h)
      | CMD_TYPE_TEST \<Rightarrow> (0, rsp_send E (CRLF_STR @ ''#XAPOLL: <handle>,(0,1),(0,1,4,5)'' @ CRLF_STR) h)
      | CMD_TYPE_UNKNOWN \<Rightarrow> (- EINVAL, h))"

text \<open>The flags and the format of automatic reception; hexadecimal output is not possible in data mode.\<close>

definition recvcfg_params :: "'p at_parser_ops \<Rightarrow> 'p \<Rightarrow> nat \<Rightarrow> (16 word \<times> bool) option" where
  "recvcfg_params P parser param_count =
     (case ap_num_get_u16 P parser 2 of
        Inl _ \<Rightarrow> None
      | Inr flags \<Rightarrow>
          (if flags AND NOT 3 \<noteq> 0 then None
           else case (if 3 < param_count then ap_num_get_u16 P parser 3 else Inr 0) of
             Inl _ \<Rightarrow> None
           | Inr hex_mode \<Rightarrow>
               (if hex_mode \<noteq> 0 \<and> hex_mode \<noteq> 1 then None
                else if flags AND 2 \<noteq> 0 \<and> hex_mode \<noteq> 0 then None
                else Some (flags, hex_mode \<noteq> 0))))"

definition handle_at_recvcfg ::
  "('rb, 'w) env \<Rightarrow> ('rb, 'w) sock_env \<Rightarrow> 'p at_parser_ops \<Rightarrow> at_parser_cmd_type \<Rightarrow> 'p \<Rightarrow> nat \<Rightarrow>
   ('rb, 'w) host \<Rightarrow> int \<times> ('rb, 'w) host" where
  "handle_at_recvcfg E S P cmd_type parser param_count h =
     (let pipe = sm_at_host_get_current_pipe E h
      in case cmd_type of
           CMD_TYPE_SET \<Rightarrow>
             opt_socket P parser (\<lambda>sock' h.
               case recvcfg_params P parser param_count of
                 None \<Rightarrow> (- EINVAL, h)
               | Some (flags, hex) \<Rightarrow>
                   (let set = (\<lambda>p. p\<lparr>po_adr_flags := ucast flags, po_adr_hex := hex\<rparr>)
                    in case sock' of
                         Some k \<Rightarrow>
                           update_poll_events E S k ZSOCK_POLLIN False (upd_sock k (\<lambda>s. upd_poll set (set_sock_pipe pipe s)) h)
                       | None \<Rightarrow>
                           (case sm_at_host_get_async_poll_ctx pipe h of
                              None \<Rightarrow> (0, fault h)
                            | Some i \<Rightarrow>
                                update_each E S pipe set ZSOCK_POLLIN False [0..<SM_MAX_SOCKET_COUNT]
                                  (upd_ctx i (upd_poll_ctx (\<lambda>c. c\<lparr>apc_adr_flags := ucast flags, apc_adr_hex := hex\<rparr>)) h)))) h
         | CMD_TYPE_READ \<Rightarrow>
             (0, rsp_each E (\<lambda>s. sk_pipe s = pipe \<and> po_adr_flags (sk_async_poll s) \<noteq> 0)
                   (\<lambda>s. ''#XRECVCFG: '' @ show_int (sk_fd s) @ commas [show_nat (unat (po_adr_flags (sk_async_poll s))),
                      if po_adr_hex (sk_async_poll s) then ''1'' else ''0'']) h)
         | CMD_TYPE_TEST \<Rightarrow> (0, rsp_send E (CRLF_STR @ ''#XRECVCFG: <handle>,(0,1,2,3),(0,1)'' @ CRLF_STR) h)
         | CMD_TYPE_UNKNOWN \<Rightarrow> (- EINVAL, h))"

end
