(* ===== verification/Sock_Table.thy ===== *)
theory Sock_Table
  imports Sock_Cmd
begin

unbundle bit_operations_syntax

text \<open>
  The invariant of the socket table: the descriptors of the entries in use are open and distinct, and
  the settings of entries and contexts are in their ranges. Every command, callback and work item of the
  sockets module keeps it, given what the sockets layer promises about descriptors.
\<close>

section \<open>The invariant\<close>

text \<open>The flags of automatic reception, and an entry.\<close>

definition adr_ok :: "8 word \<Rightarrow> bool \<Rightarrow> bool" where
  "adr_ok flags hex \<longleftrightarrow> flags AND NOT 3 = 0 \<and> \<not> (flags AND SM_ADR_DATA_MODE \<noteq> 0 \<and> hex)"

definition sock_ok :: "int set \<Rightarrow> sm_socket \<Rightarrow> bool" where
  "sock_ok fds s \<longleftrightarrow> sk_cid s \<le> 10 \<and> adr_ok (po_adr_flags (sk_async_poll s)) (po_adr_hex (sk_async_poll s)) \<and>
     (sk_fd s \<noteq> INVALID_SOCKET \<longrightarrow> 0 \<le> sk_fd s \<and> sk_fd s \<in> fds)"

definition ctx_ok :: "async_poll_ctx \<Rightarrow> bool" where
  "ctx_ok c \<longleftrightarrow> adr_ok (apc_adr_flags c) (apc_adr_hex c) \<and>
     (\<forall>k. apc_datamode_sock c = Some k \<longrightarrow> k < SM_MAX_SOCKET_COUNT)"

text \<open>The invariant for the entries that are not in a set \<open>K\<close>.\<close>

definition sock_inv_but :: "('w \<Rightarrow> int set) \<Rightarrow> nat set \<Rightarrow> ('rb, 'w) host \<Rightarrow> bool" where
  "sock_inv_but op K h \<longleftrightarrow>
     length (h_socks h) = SM_MAX_SOCKET_COUNT \<and>
     (\<forall>k < SM_MAX_SOCKET_COUNT. k \<notin> K \<longrightarrow> sock_ok (op (h_world h)) (sock k h)) \<and>
     (\<forall>j < SM_MAX_SOCKET_COUNT. \<forall>k < SM_MAX_SOCKET_COUNT. j \<notin> K \<longrightarrow> k \<notin> K \<longrightarrow> j \<noteq> k \<longrightarrow>
        sk_fd (sock j h) \<noteq> INVALID_SOCKET \<longrightarrow> sk_fd (sock j h) \<noteq> sk_fd (sock k h)) \<and>
     (\<forall>i. ctx_ok (c_poll_ctx (h_ctx h i)))"

abbreviation sock_inv :: "('w \<Rightarrow> int set) \<Rightarrow> ('rb, 'w) host \<Rightarrow> bool" where
  "sock_inv op \<equiv> sock_inv_but op {}"

section \<open>Access lemmas\<close>

lemma upd_sock_sel [simp]:
  "length (h_socks (upd_sock k f h)) = length (h_socks h)" "h_ctx (upd_sock k f h) = h_ctx h"
  "h_world (upd_sock k f h) = h_world h" "h_instances (upd_sock k f h) = h_instances h"
  "h_current (upd_sock k f h) = h_current h" "h_fault (upd_sock k f h) = h_fault h"
  "h_works (upd_sock k f h) = h_works h" "h_msgq (upd_sock k f h) = h_msgq h"
  "h_udp_url (upd_sock k f h) = h_udp_url h" "h_udp_port (upd_sock k f h) = h_udp_port h"
  "h_cmux_uart_pipe (upd_sock k f h) = h_cmux_uart_pipe h" "h_cmux_dlcis (upd_sock k f h) = h_cmux_dlcis h"
  "h_urc_channel (upd_sock k f h) = h_urc_channel h"
  by (simp_all add: upd_sock_def)

lemma sock_upd_same [simp]: "k < length (h_socks h) \<Longrightarrow> sock k (upd_sock k f h) = f (sock k h)"
  by (simp add: upd_sock_def)

lemma sock_upd_other [simp]: "j \<noteq> k \<Longrightarrow> sock j (upd_sock k f h) = sock j h"
  by (simp add: upd_sock_def)

lemma sock_upd: "k < length (h_socks h) \<Longrightarrow> sock j (upd_sock k f h) = (if j = k then f (sock k h) else sock j h)"
  by simp

lemma upd_poll_sel [simp]:
  "sk_fd (upd_poll f s) = sk_fd s" "sk_cid (upd_poll f s) = sk_cid s" "sk_pipe (upd_poll f s) = sk_pipe s"
  "sk_type (upd_poll f s) = sk_type s" "sk_listen (upd_poll f s) = sk_listen s" "sk_send_flags (upd_poll f s) = sk_send_flags s"
  "sk_async_poll (upd_poll f s) = f (sk_async_poll s)" "sk_send_cb_set (upd_poll f s) = sk_send_cb_set s"
  by (simp_all add: upd_poll_def)

lemma set_sock_pipe_sel [simp]:
  "sk_fd (set_sock_pipe p s) = sk_fd s" "sk_cid (set_sock_pipe p s) = sk_cid s" "sk_pipe (set_sock_pipe p s) = p"
  "sk_async_poll (set_sock_pipe p s) = sk_async_poll s" "sk_type (set_sock_pipe p s) = sk_type s"
  by (simp_all add: set_sock_pipe_def)

lemma upd_poll_ctx_sel [simp]:
  "c_poll_ctx (upd_poll_ctx f c) = f (c_poll_ctx c)" "c_pipe (upd_poll_ctx f c) = c_pipe c"
  by (simp_all add: upd_poll_ctx_def)

lemma init_sock_sel [simp]: "sk_fd (init_sock p) = INVALID_SOCKET" "sk_cid (init_sock p) = 0" "sk_async_poll (init_sock p) = zero_poll"
  by (simp_all add: init_sock_def)

lemma lookup_cong:
  assumes "h_instances h' = h_instances h" "\<And>i. c_pipe (h_ctx h' i) = c_pipe (h_ctx h i)"
  shows "sm_at_host_get_ctx_from p h' = sm_at_host_get_ctx_from p h"
    "sm_at_host_get_async_poll_ctx p h' = sm_at_host_get_async_poll_ctx p h"
proof -
  show l: "sm_at_host_get_ctx_from p h' = sm_at_host_get_ctx_from p h"
    by (simp add: sm_at_host_get_ctx_from_def assms split: option.split)
  show "sm_at_host_get_async_poll_ctx p h' = sm_at_host_get_async_poll_ctx p h"
    by (simp add: sm_at_host_get_async_poll_ctx_def l sm_at_ctx_check_def assms(1) Let_def split: option.split)
qed

lemma wcall_split: "wcall f h = (fst (f (h_world h)), h\<lparr>h_world := snd (f (h_world h))\<rparr>)"
  by (simp add: wcall_def split: prod.split)

lemma find_socket_Some: "find_socket fd h = Some k \<Longrightarrow> k < SM_MAX_SOCKET_COUNT \<and> sk_fd (sock k h) = fd"
  by (auto simp: find_socket_def find_Some_iff)

lemma find_socket_None: "find_socket fd h = None \<Longrightarrow> k < SM_MAX_SOCKET_COUNT \<Longrightarrow> sk_fd (sock k h) \<noteq> fd"
  by (auto simp: find_socket_def find_None_iff)

lemma find_avail_Some: "find_avail_socket h = Some k \<Longrightarrow> k < SM_MAX_SOCKET_COUNT \<and> sk_fd (sock k h) = INVALID_SOCKET"
  by (auto simp: find_avail_socket_def find_Some_iff)

lemma find_avail_None: "find_avail_socket h = None \<Longrightarrow> k < SM_MAX_SOCKET_COUNT \<Longrightarrow> sk_fd (sock k h) \<noteq> INVALID_SOCKET"
  by (auto simp: find_avail_socket_def find_None_iff)

section \<open>Steps that keep the invariant\<close>

lemma sock_inv_cong:
  assumes "h_socks h' = h_socks h" "\<And>i. c_poll_ctx (h_ctx h' i) = c_poll_ctx (h_ctx h i)" "op (h_world h') = op (h_world h)"
  shows "sock_inv_but op K h' = sock_inv_but op K h"
  by (simp add: sock_inv_but_def assms)

lemma sock_inv_length [simp]: "sock_inv_but op K h \<Longrightarrow> length (h_socks h) = SM_MAX_SOCKET_COUNT"
  by (simp add: sock_inv_but_def)

lemma sock_inv_out:
  assumes "sock_inv_but op K h" "out_frame h h'" "op (h_world h') = op (h_world h)"
  shows "sock_inv_but op K h'"
  using assms(1) out_frameD(10,12) [OF assms(2)] ctx_frameD(19) assms(3)
  by (subst sock_inv_cong [where h = h]) auto

lemma sock_inv_mono: "sock_inv_but op K h \<Longrightarrow> K \<subseteq> K' \<Longrightarrow> sock_inv_but op K' h"
  unfolding sock_inv_but_def by blast

text \<open>An update of an entry that keeps its descriptor and the settings in their ranges.\<close>

definition keeps_entry :: "(sm_socket \<Rightarrow> sm_socket) \<Rightarrow> bool" where
  "keeps_entry f \<longleftrightarrow> (\<forall>s fds. sk_fd (f s) = sk_fd s \<and> (sock_ok fds s \<longrightarrow> sock_ok fds (f s)))"

lemma upd_sock_beyond [simp]: "\<not> k < length (h_socks h) \<Longrightarrow> upd_sock k f h = h"
  by (simp add: upd_sock_def list_update_beyond)

lemma sock_inv_upd:
  assumes "sock_inv_but op K h" and "keeps_entry f"
  shows "sock_inv_but op K (upd_sock k f h)"
proof (cases "k < length (h_socks h)")
  case True
  have f: "sk_fd (f s) = sk_fd s" "sock_ok fds s \<Longrightarrow> sock_ok fds (f s)" for s fds
    using assms(2) by (simp_all add: keeps_entry_def)
  have "sk_fd (sock j (upd_sock k f h)) = sk_fd (sock j h)" for j using True by (simp add: sock_upd f(1))
  moreover have "sock_ok fds (sock j h) \<Longrightarrow> sock_ok fds (sock j (upd_sock k f h))" for fds j
    using True f(2) by (auto simp: sock_upd)
  ultimately show ?thesis using assms(1) by (simp add: sock_inv_but_def)
qed (use assms in simp)

lemma sock_inv_upd_but:
  assumes "sock_inv_but op K h" and "k \<in> K"
  shows "sock_inv_but op K (upd_sock k f h)"
proof -
  have "sock j (upd_sock k f h) = sock j h" if "j \<notin> K" for j using assms(2) that by (metis sock_upd_other)
  then show ?thesis using assms(1) by (simp add: sock_inv_but_def)
qed

text \<open>An entry joins the others: free, or with a descriptor that no other entry has.\<close>

lemma sock_inv_close:
  assumes "sock_inv_but op {k} h" "sock_ok (op (h_world h)) (sock k h)"
    "\<And>j. j < SM_MAX_SOCKET_COUNT \<Longrightarrow> j \<noteq> k \<Longrightarrow> sk_fd (sock k h) \<noteq> INVALID_SOCKET \<Longrightarrow> sk_fd (sock j h) \<noteq> sk_fd (sock k h)"
  shows "sock_inv op h"
proof -
  have others: "sk_fd (sock j h) \<noteq> sk_fd (sock i h)"
    if "j < SM_MAX_SOCKET_COUNT" "i < SM_MAX_SOCKET_COUNT" "j \<noteq> i" "sk_fd (sock j h) \<noteq> INVALID_SOCKET" "j \<noteq> k" "i \<noteq> k" for i j
    using assms(1) that by (simp add: sock_inv_but_def)
  have "sk_fd (sock j h) \<noteq> sk_fd (sock i h)"
    if *: "j < SM_MAX_SOCKET_COUNT" "i < SM_MAX_SOCKET_COUNT" "j \<noteq> i" "sk_fd (sock j h) \<noteq> INVALID_SOCKET" for i j
  proof (cases "j = k \<or> i = k")
    case True
    then show ?thesis using assms(3) [of j] assms(3) [of i] * by (metis (no_types))
  next
    case False
    then show ?thesis using others * by blast
  qed
  moreover have "sock_ok (op (h_world h)) (sock j h)" if "j < SM_MAX_SOCKET_COUNT" for j
    using assms(1,2) that by (cases "j = k") (simp_all add: sock_inv_but_def)
  ultimately show ?thesis using assms(1) by (simp add: sock_inv_but_def)
qed

lemma sock_ok_free: "sk_fd s = INVALID_SOCKET \<Longrightarrow> sock_ok fds s \<longleftrightarrow> sk_cid s \<le> 10 \<and> adr_ok (po_adr_flags (sk_async_poll s)) (po_adr_hex (sk_async_poll s))"
  by (simp add: sock_ok_def)

lemma adr_ok_zero [simp]: "adr_ok 0 hex"
  by (simp add: adr_ok_def)

lemma sock_ok_init [simp]: "sock_ok fds (init_sock p)"
  by (simp add: sock_ok_def zero_poll_def)

lemma init_socket_inv: "sock_inv_but op {k} h \<Longrightarrow> k < SM_MAX_SOCKET_COUNT \<Longrightarrow> sock_inv op (init_socket E k h)"
  unfolding init_socket_def by (rule sock_inv_close [of _ k]) (simp_all add: sock_inv_upd_but)

lemma init_socket_inv' [simp]: "sock_inv op h \<Longrightarrow> k < SM_MAX_SOCKET_COUNT \<Longrightarrow> sock_inv op (init_socket E k h)"
  by (rule init_socket_inv [OF sock_inv_mono]) auto

lemma sock_inv_world:
  "op w = op (h_world h) \<Longrightarrow> sock_inv_but op K (h\<lparr>h_world := w\<rparr>) = sock_inv_but op K h"
  by (rule sock_inv_cong) simp_all

lemma sock_inv_ctx [simp]:
  "(\<And>c. c_poll_ctx (f c) = c_poll_ctx c) \<Longrightarrow> sock_inv_but op K (upd_ctx i f h) = sock_inv_but op K h"
  by (rule sock_inv_cong) (simp_all add: upd_ctx_def)

lemma sock_inv_poll_ctx:
  "sock_inv_but op K h \<Longrightarrow> (\<And>c. ctx_ok c \<Longrightarrow> ctx_ok (f c)) \<Longrightarrow> sock_inv_but op K (upd_ctx i (upd_poll_ctx f) h)"
  by (auto simp: sock_inv_but_def upd_ctx_def)

lemma sock_inv_fault [simp]: "sock_inv_but op K (fault h) = sock_inv_but op K h"
  by (rule sock_inv_cong) simp_all

lemma sock_inv_udp [simp]:
  "sock_inv_but op K (h\<lparr>h_udp_url := u\<rparr>) = sock_inv_but op K h" "sock_inv_but op K (h\<lparr>h_udp_port := pt\<rparr>) = sock_inv_but op K h"
  by (rule sock_inv_cong; simp)+

lemma keeps_entry_simps [simp]:
  "keeps_entry (set_sock_pipe p)"
  "(\<And>q. po_adr_flags (f q) = po_adr_flags q \<and> po_adr_hex (f q) = po_adr_hex q) \<Longrightarrow> keeps_entry (upd_poll f)"
  "keeps_entry (\<lambda>s. s\<lparr>sk_send_ntf := g s\<rparr>)" "keeps_entry (\<lambda>s. s\<lparr>sk_send_cb_set := b\<rparr>)"
  "keeps_entry (\<lambda>s. s\<lparr>sk_local_port := pt\<rparr>)" "keeps_entry (\<lambda>s. s\<lparr>sk_connected := b\<rparr>)" "keeps_entry (\<lambda>s. s\<lparr>sk_listen := b\<rparr>)"
  "keeps_entry (\<lambda>s. s\<lparr>sk_send_flags := fl\<rparr>)" "keeps_entry (\<lambda>s. s\<lparr>sk_family := v\<rparr>)" "keeps_entry (\<lambda>s. s\<lparr>sk_type := v\<rparr>)"
  "keeps_entry (\<lambda>s. s\<lparr>sk_role := r\<rparr>)" "keeps_entry (\<lambda>s. s\<lparr>sk_sec_tag := v\<rparr>)"
  by (simp_all add: keeps_entry_def sock_ok_def set_sock_pipe_def upd_poll_def)

lemma keeps_entry_adr: "adr_ok fl hx \<Longrightarrow> keeps_entry (upd_poll (\<lambda>p. p\<lparr>po_adr_flags := fl, po_adr_hex := hx\<rparr>))"
  by (simp add: keeps_entry_def sock_ok_def)

lemma keeps_entry_comp: "keeps_entry f \<Longrightarrow> keeps_entry g \<Longrightarrow> keeps_entry (\<lambda>s. f (g s))"
  by (simp add: keeps_entry_def)

section \<open>What the sockets layer promises\<close>

text \<open>A new descriptor is not negative and was not open before; closing one leaves the others alone;
  nothing else opens or closes descriptors. The HTTP client uses sockets through this module only: it
  keeps the invariant, also while one entry is being closed, and a closed socket changes no descriptor of
  the table.\<close>

locale sock_net =
  fixes S :: "('rb, 'w) sock_env" and opened :: "'w \<Rightarrow> int set"
  assumes socket_new: "s_socket S fam ty pr w = (fd, w') \<Longrightarrow> 0 \<le> fd \<Longrightarrow> fd \<notin> opened w \<and> opened w' = insert fd (opened w)"
    and socket_err: "s_socket S fam ty pr w = (fd, w') \<Longrightarrow> fd < 0 \<Longrightarrow> opened w' = opened w"
    and accept_new: "s_accept S lfd w = ((fd, sa), w') \<Longrightarrow> 0 \<le> fd \<Longrightarrow> fd \<notin> opened w \<and> opened w' = insert fd (opened w)"
    and accept_err: "s_accept S lfd w = ((fd, sa), w') \<Longrightarrow> fd < 0 \<Longrightarrow> opened w' = opened w"
    and close_others: "s_close S fd w = (r, w') \<Longrightarrow> opened w - {fd} \<subseteq> opened w' \<and> opened w' \<subseteq> opened w"
    and close_done: "s_close S fd w = (0, w') \<Longrightarrow> fd \<notin> opened w'"
    and net_kept: "opened (snd (s_setsockopt S fd l opt v w)) = opened w" "opened (snd (s_getsockopt S fd l opt w)) = opened w"
      "opened (snd (s_bind S fd a w)) = opened w" "opened (snd (s_connect S fd a w)) = opened w"
      "opened (snd (s_send S fd d fl w)) = opened w" "opened (snd (s_sendto S fd d fl a w)) = opened w"
      "opened (snd (s_recv S fd n fl w)) = opened w" "opened (snd (s_recvfrom S fd n fl w)) = opened w"
      "opened (snd (s_set_nonblock S fd w)) = opened w" "opened (snd (s_listen S fd n w)) = opened w"
      "opened (snd (s_getaddrinfo S s hints w)) = opened w"
    and at_cmd_kept: "m_at_cmd (s_util S) len s w = (r, b, w') \<Longrightarrow> opened w' = opened w"
    and resolve_kept: "m_getaddrinfo (s_util S) s s' f w = (r, ai, w') \<Longrightarrow> opened w' = opened w"
    and httpc_event: "sock_inv opened h \<Longrightarrow> sock_inv opened (snd (s_httpc_poll_event S fd ev h))"
    and httpc_closed: "length (h_socks (s_httpc_socket_closed S fd h)) = length (h_socks h)"
      "sk_fd (sock k (s_httpc_socket_closed S fd h)) = sk_fd (sock k h)"
      "opened (h_world (s_httpc_socket_closed S fd h)) = opened (h_world h)"
    and httpc_closed_inv [simp]: "sock_inv_but opened K h \<Longrightarrow> sock_inv_but opened K (s_httpc_socket_closed S fd h)"
begin

lemma scanf_kept: "opened (snd (sm_util_at_scanf (s_util S) cmd fmt w)) = opened w"
  by (auto simp: sm_util_at_scanf_def Let_def at_cmd_kept split: prod.split)

lemma pdn_id_kept [simp]: "opened (snd (sm_util_pdn_id_get (s_util S) cid w)) = opened w"
  using scanf_kept unfolding sm_util_pdn_id_get_def by (auto split: prod.split) (metis snd_conv)+

lemma ip_addr_kept [simp]: "opened (snd (util_get_ip_addr (s_util S) cid a4 a6 w)) = opened w"
  using scanf_kept unfolding util_get_ip_addr_def Let_def by (auto split: prod.split) (metis snd_conv)+

lemma resolve_host_kept [simp]: "opened (snd (util_resolve_host (s_util S) cid s port fam sa w)) = opened w"
  by (auto simp: util_resolve_host_def Let_def resolve_kept split: prod.split)

lemmas call_kept = net_kept pdn_id_kept ip_addr_kept resolve_host_kept

lemma wcall_inv:
  "(\<And>w. opened (snd (f w)) = opened w) \<Longrightarrow> sock_inv_but opened K (snd (wcall f h)) = sock_inv_but opened K h"
  by (simp add: wcall_split sock_inv_world)

end

end
