(* ===== verification/Sock_Inv.thy ===== *)
theory Sock_Inv
  imports Sock_Table
begin

unbundle bit_operations_syntax

text \<open>
  Every operation of the sockets module keeps the invariant of the socket table, on a host whose other
  callbacks keep it.
\<close>

lemma sock_inv_out_eq:
  assumes "out_frame h h'" "op (h_world h') = op (h_world h)"
  shows "sock_inv_but op K h' = sock_inv_but op K h"
  using out_frameD(10,12) [OF assms(1)] ctx_frameD(19) assms(2) by (intro sock_inv_cong) auto

text \<open>The invariant of the table as an invariant of the machine of the host: what the environment does by
  itself neither opens nor closes descriptors, and its callbacks keep the invariant.\<close>

lemma sock_inv_sel:
  "h_socks h' = h_socks h \<Longrightarrow> h_ctx h' = h_ctx h \<Longrightarrow> op (h_world h') = op (h_world h) \<Longrightarrow> sock_inv_but op K h' = sock_inv_but op K h"
  by (rule sock_inv_cong) simp_all

lemma sock_inv_new_ctx: "sock_inv_but op K h \<Longrightarrow> sock_inv_but op K (upd_ctx i (\<lambda>c. new_ctx (c_data_rb c) p) h)"
  by (auto simp: sock_inv_but_def upd_ctx_def new_ctx_def ctx_ok_def)

lemma sock_machine:
  assumes "world_kept E op" and post: "\<And>i ev w. op (e_event_post E i ev w) = op w"
    and recv: "\<And>p w. op (snd (e_pipe_receive E p w)) = op w" and mal: "\<And>w. op (snd (e_malloc_ctx E w)) = op w"
    and free: "\<And>i w. op (e_free_ctx E i w) = op w"
    and cbs: "\<And>cb o' d fl h. sock_inv op h \<Longrightarrow> sock_inv op (snd (e_datamode_handler E cb o' d fl h))"
      "\<And>n s h. sock_inv op h \<Longrightarrow> sock_inv op (snd (e_at_cmd E n s h))" "\<And>x s h. sock_inv op h \<Longrightarrow> sock_inv op (snd (e_xdfu E x s h))"
      "\<And>h. sock_inv op h \<Longrightarrow> sock_inv op (e_final_reset E h)" "\<And>wk h. sock_inv op h \<Longrightarrow> sock_inv op (e_run_work E wk h)"
  shows "host_machine E op (sock_inv op)"
proof -
  have w: "sock_inv op (h\<lparr>h_world := w\<rparr>)" if "sock_inv op h" "op w = op (h_world h)" for h w
    using that by (simp add: sock_inv_world)
  have malloc: "op w = op w0" if "e_malloc E n w0 = (b, w)" for n w0 b w
    using world_kept.malloc_obs [OF assms(1)] that by blast
  have ini: "sock_inv op (snd (sm_at_host_ctx_init E i p h))" if "sock_inv op h" for h p i
    using that by (auto simp: sm_at_host_ctx_init_def w malloc sock_inv_new_ctx split: prod.split bool.split)
  have create: "sock_inv op (snd (sm_at_host_create_new E p h))" if "sock_inv op h" for p h
  proof -
    obtain oi w1 where m: "e_malloc_ctx E (h_world h) = (oi, w1)" by fastforce
    then have inv: "sock_inv op (h\<lparr>h_world := w1\<rparr>)" using w [OF that] mal [of "h_world h"] by simp
    show ?thesis
    proof (cases oi)
      case (Some i)
      obtain err h1 where c: "sm_at_host_ctx_init E i (Some p) (h\<lparr>h_world := w1\<rparr>) = (err, h1)" by fastforce
      then have h1: "sock_inv op h1" using ini [OF inv, of i "Some p"] by simp
      then have "sock_inv op (h1\<lparr>h_world := e_free_ctx E i (h_world h1)\<rparr>)" by (rule w) (rule free)
      moreover have "sock_inv op (pipe_attach p cb (h1\<lparr>h_instances := is\<rparr>))" for cb "is"
        using h1 by (subst sock_inv_sel [where h = h1]) (simp_all add: pipe_attach_def)
      ultimately show ?thesis using m Some c by (simp add: sm_at_host_create_new_def)
    qed (use m inv in \<open>simp add: sm_at_host_create_new_def\<close>)
  qed
  have destroy: "sock_inv op (snd (sm_at_host_destroy E ctx h))" if "sock_inv op h" for ctx h
  proof -
    have "sock_inv op (upd_ctx i f h) \<Longrightarrow> sock_inv op ((upd_ctx i f h)\<lparr>h_works := wk, h_instances := is, h_world := e_free_ctx E i (h_world h)\<rparr>)"
      for i f wk "is" by (subst sock_inv_sel [where h = "upd_ctx i f h"]) (simp_all add: free)
    then show ?thesis using that by (auto simp: sm_at_host_destroy_def set_c_pipe_def Let_def split: option.split)
  qed
  show ?thesis
  proof (intro host_machine.intro host_machine_axioms.intro assms(1))
    show "sock_inv op h \<Longrightarrow> sock_inv op (h\<lparr>h_current := ctx\<rparr>)" "sock_inv op h \<Longrightarrow> sock_inv op (h\<lparr>h_pipe_cb := cbs\<rparr>)" for h ctx cbs
      by (subst sock_inv_sel [where h = h]; simp)+
    show "e_pipe_receive E p w = (r, w') \<Longrightarrow> op w' = op w" for p w r w' using recv [of p w] by simp
    show "sock_inv op h \<Longrightarrow> (\<And>c. c_poll_ctx (f c) = c_poll_ctx c) \<Longrightarrow> sock_inv op (upd_ctx i f h)" for h f i by simp
  qed (fact create destroy post cbs | erule (2) sock_inv_out)+
qed

locale sock_host = host_machine E opened "sock_inv opened" + sock_net S opened
  for E :: "('rb, 'w) env" and S :: "('rb, 'w) sock_env" and opened :: "'w \<Rightarrow> int set"
begin

section \<open>Calls of the host\<close>

lemma host_out [simp]:
  "sock_inv_but opened K (rsp_send E t h) = sock_inv_but opened K h"
  "sock_inv_but opened K (rsp_send_to E p t h) = sock_inv_but opened K h"
  "sock_inv_but opened K (urc_send_to E p t h) = sock_inv_but opened K h"
  "sock_inv_but opened K (snd (sm_at_send_internal E ctx d urc h)) = sock_inv_but opened K h"
  "sock_inv_but opened K (flush_pipe_urcs E i h) = sock_inv_but opened K h"
  "sock_inv_but opened K (check_idle_timer E ctx r h) = sock_inv_but opened K h"
  "sock_inv_but opened K (snd (work_submit E wk h)) = sock_inv_but opened K h"
  "sock_inv_but opened K (sm_at_host_event_notify E ctx ev h) = sock_inv_but opened K h"
  by (rule sock_inv_out_eq; simp add: frame)+

lemma host_calls_inv [simp]:
  "sock_inv_but opened K (data_send E p d h) = sock_inv_but opened K h"
  "sock_inv_but opened K (sm_at_host_lock_pipe E p h) = sock_inv_but opened K h"
  "sock_inv_but opened K (sm_at_host_cmd_done_pipe E p h) = sock_inv_but opened K h"
  "sock_inv_but opened K (sm_at_host_queue_idle_work E p wk h) = sock_inv_but opened K h"
  by (simp_all add: data_send_def sm_at_host_lock_pipe_def sm_at_host_lock_ctx_def sm_at_host_cmd_done_pipe_def
      sm_at_host_cmd_done_def sm_at_host_queue_idle_work_def Let_def split: option.split)

section \<open>Registration of callbacks\<close>

lemma poll_cb_inv [simp]: "sock_inv_but opened K h \<Longrightarrow> sock_inv_but opened K (poll_cb E fd ev h)"
  by (auto simp: poll_cb_def sock_inv_upd split: option.split)

lemma set_so_poll_cb_inv [simp]: "sock_inv_but opened K (snd (set_so_poll_cb S k ev h)) = sock_inv_but opened K h"
  by (simp add: set_so_poll_cb_def wcall_split sock_inv_world call_kept)

lemma update_poll_events_inv [simp]:
  "sock_inv_but opened K h \<Longrightarrow> sock_inv_but opened K (snd (update_poll_events E S k ev x h))"
  by (simp add: update_poll_events_def Let_def sock_inv_upd)

lemma send_cb_inv [simp]: "sock_inv_but opened K h \<Longrightarrow> sock_inv_but opened K (send_cb E fd st n h)"
  by (auto simp: send_cb_def Let_def sock_inv_upd split: option.split)

lemma send_cb_sock_inv [simp]: "sock_inv_but opened K h \<Longrightarrow> sock_inv_but opened K (send_cb_sock E S k h)"
  by (simp add: send_cb_sock_def Let_def sock_inv_upd)

lemma send_cb_fn_inv [simp]: "sock_inv_but opened K h \<Longrightarrow> sock_inv_but opened K (send_cb_fn E S h)"
proof -
  have "sock_inv_but opened K h \<Longrightarrow> sock_inv_but opened K (fold (send_cb_sock E S) ks h)" for ks
    by (induction ks arbitrary: h) simp_all
  then show "sock_inv_but opened K h \<Longrightarrow> sock_inv_but opened K (send_cb_fn E S h)" by (simp add: send_cb_fn_def)
qed

lemma prepare_send_cb_inv [simp]: "sock_inv_but opened K h \<Longrightarrow> sock_inv_but opened K (snd (prepare_send_cb S k b h))"
  by (simp add: prepare_send_cb_def set_so_send_cb_def clear_so_send_cb_def wcall_split sock_inv_world call_kept sock_inv_upd)

section \<open>Opening and closing\<close>

lemma bind_to_pdn_inv [simp]: "sock_inv_but opened K (snd (bind_to_pdn S k h)) = sock_inv_but opened K h"
  by (simp add: bind_to_pdn_def wcall_split sock_inv_world call_kept)

text \<open>A call that closes a descriptor no other entry has.\<close>

lemma close_inv:
  assumes "sock_inv_but opened K h" "\<And>j. j < SM_MAX_SOCKET_COUNT \<Longrightarrow> j \<notin> K \<Longrightarrow> sk_fd (sock j h) = INVALID_SOCKET \<or> sk_fd (sock j h) \<noteq> fd"
  shows "sock_inv_but opened K (snd (wcall (s_close S fd) h))"
proof -
  let ?w = "snd (s_close S fd (h_world h))"
  have "opened (h_world h) - {fd} \<subseteq> opened ?w" using close_others [of fd "h_world h"] by (metis prod.collapse)
  then have "sock_ok (opened ?w) (sock j h)" if "j < SM_MAX_SOCKET_COUNT" "j \<notin> K" for j
    using assms that by (auto simp: sock_inv_but_def sock_ok_def)
  then show ?thesis using assms(1) by (simp add: wcall_split sock_inv_but_def)
qed

lemma sock_inv_distinct:
  "sock_inv_but opened K h \<Longrightarrow> j < SM_MAX_SOCKET_COUNT \<Longrightarrow> k < SM_MAX_SOCKET_COUNT \<Longrightarrow> j \<notin> K \<Longrightarrow> k \<notin> K \<Longrightarrow> j \<noteq> k \<Longrightarrow>
   sk_fd (sock j h) = INVALID_SOCKET \<or> sk_fd (sock j h) \<noteq> sk_fd (sock k h)"
  by (auto simp: sock_inv_but_def)

lemma open_error_inv:
  assumes "sock_inv opened h" "k < SM_MAX_SOCKET_COUNT"
  shows "sock_inv opened (snd (open_error S k ret h))"
proof -
  let ?h = "snd (wcall (s_close S (sk_fd (sock k h))) h)"
  have "sock_inv_but opened {k} ?h"
    by (rule close_inv [OF sock_inv_mono [OF assms(1)]]) (use sock_inv_distinct [OF assms(1)] assms(2) in auto)
  then have but: "sock_inv_but opened {k} (upd_sock k (\<lambda>s. s\<lparr>sk_fd := INVALID_SOCKET\<rparr>) ?h)" by (simp add: sock_inv_upd_but)
  have "sock_ok (opened (h_world h)) (sock k h)" "length (h_socks h) = SM_MAX_SOCKET_COUNT" using assms by (simp_all add: sock_inv_but_def)
  then have "sock_inv opened (upd_sock k (\<lambda>s. s\<lparr>sk_fd := INVALID_SOCKET\<rparr>) ?h)"
    using assms(2) by (intro sock_inv_close [OF but]) (simp_all add: wcall_split sock_ok_def)
  then show ?thesis by (simp add: open_error_def case_prod_unfold)
qed

lemma adopt_poll_ctx_inv [simp]: "sock_inv_but opened K h \<Longrightarrow> sock_inv_but opened K (adopt_poll_ctx E S i k h)"
proof -
  assume inv: "sock_inv_but opened K h"
  then have "ctx_ok (c_poll_ctx (h_ctx h i))" by (simp add: sock_inv_but_def)
  then have "keeps_entry (upd_poll (\<lambda>p. p\<lparr>po_adr_flags := apc_adr_flags (c_poll_ctx (h_ctx h i)),
      po_adr_hex := apc_adr_hex (c_poll_ctx (h_ctx h i)),
      po_xapoll_events_requested := apc_xapoll_events_requested (c_poll_ctx (h_ctx h i))\<rparr>))"
    by (simp add: keeps_entry_def sock_ok_def ctx_ok_def)
  then show ?thesis using inv by (simp add: adopt_poll_ctx_def Let_def sock_inv_upd)
qed

lemma socket_opened_inv [simp]: "sock_inv_but opened K h \<Longrightarrow> sock_inv_but opened K (snd (socket_opened E S k name proto h))"
  by (simp add: socket_opened_def Let_def split: option.split)

text \<open>The new descriptor goes into a free entry.\<close>

lemma sock_inv_more:
  assumes "sock_inv_but opened K h" "opened (h_world h) \<subseteq> opened w"
  shows "sock_inv_but opened K (h\<lparr>h_world := w\<rparr>)"
proof -
  have "sock_ok (opened w) s" if "sock_ok (opened (h_world h)) s" for s using that assms(2) by (auto simp: sock_ok_def)
  then show ?thesis using assms(1) by (simp add: sock_inv_but_def)
qed

lemma fresh_inv:
  assumes "sock_inv opened h" "k < SM_MAX_SOCKET_COUNT" "0 \<le> fd" "fd \<notin> opened (h_world h)" "opened w = insert fd (opened (h_world h))"
    and "\<And>s. sk_fd (f s) = fd" "sk_cid (f (sock k h)) \<le> 10"
      "adr_ok (po_adr_flags (sk_async_poll (f (sock k h)))) (po_adr_hex (sk_async_poll (f (sock k h))))"
  shows "sock_inv opened (upd_sock k f (h\<lparr>h_world := w\<rparr>))"
proof (rule sock_inv_close [of _ k])
  have ok: "sock_ok (opened (h_world h)) (sock j h)" if "j < SM_MAX_SOCKET_COUNT" for j
    using assms(1) that by (simp add: sock_inv_but_def)
  have len: "length (h_socks h) = SM_MAX_SOCKET_COUNT" using assms(1) by simp
  have "sock_inv opened (h\<lparr>h_world := w\<rparr>)" by (rule sock_inv_more) (use assms in auto)
  then show "sock_inv_but opened {k} (upd_sock k f (h\<lparr>h_world := w\<rparr>))"
    by (rule sock_inv_upd_but [OF sock_inv_mono]) simp_all
  show "sock_ok (opened (h_world (upd_sock k f (h\<lparr>h_world := w\<rparr>)))) (sock k (upd_sock k f (h\<lparr>h_world := w\<rparr>)))"
    using ok [OF assms(2)] assms(2,3,5,6,7,8) len by (simp add: sock_ok_def)
  show "sk_fd (sock j (upd_sock k f (h\<lparr>h_world := w\<rparr>))) \<noteq> sk_fd (sock k (upd_sock k f (h\<lparr>h_world := w\<rparr>)))"
    if "j < SM_MAX_SOCKET_COUNT" "j \<noteq> k" for j
  proof -
    have "sk_fd (sock j h) \<noteq> fd"
    proof
      assume "sk_fd (sock j h) = fd"
      with ok [OF that(1)] assms(3,4) show False by (simp add: sock_ok_def)
    qed
    then show ?thesis using that(2) assms(2) len by (simp add: assms(6))
  qed
qed

lemma socket_inv:
  assumes "sock_inv opened h" "k < SM_MAX_SOCKET_COUNT" "sk_fd (sock k h) = INVALID_SOCKET"
    and "wcall (s_socket S fam ty pr) h = (fd, h1)"
  shows "fd < 0 \<Longrightarrow> sock_inv opened h1" and "0 \<le> fd \<Longrightarrow> sock_inv opened (upd_sock k (\<lambda>s. s\<lparr>sk_fd := fd\<rparr>) h1)"
proof -
  obtain w where w: "s_socket S fam ty pr (h_world h) = (fd, w)" "h1 = h\<lparr>h_world := w\<rparr>" using assms(4) by (simp add: wcall_split)
      (metis prod.collapse)
  show "fd < 0 \<Longrightarrow> sock_inv opened h1" using assms(1) socket_err [OF w(1)] by (simp add: w(2) sock_inv_world)
  assume "0 \<le> fd"
  then show "sock_inv opened (upd_sock k (\<lambda>s. s\<lparr>sk_fd := fd\<rparr>) h1)"
    unfolding w(2) using socket_new [OF w(1)] assms(1-3) by (intro fresh_inv) (auto simp: sock_inv_but_def sock_ok_def)
qed

lemma open_with:
  assumes "sock_inv opened h" "k < SM_MAX_SOCKET_COUNT" "sk_fd (sock k h) = INVALID_SOCKET"
    and "\<And>fd h1. sock_inv opened h1 \<Longrightarrow> sock_inv opened (snd (g fd h1))"
  shows "sock_inv opened (snd (case wcall (s_socket S fam ty pr) h of (ret, h) \<Rightarrow>
    if ret < 0 then (- sock_errno S h, h) else g ret (upd_sock k (\<lambda>s. s\<lparr>sk_fd := ret\<rparr>) h)))"
  using socket_inv [OF assms(1-3)] assms(4) by (auto split: prod.split)

lemma do_socket_open_inv:
  assumes "sock_inv opened h" "k < SM_MAX_SOCKET_COUNT" "sk_fd (sock k h) = INVALID_SOCKET"
  shows "sock_inv opened (snd (do_socket_open E S k h))"
proof -
  have "sock_inv opened (snd (case wcall (s_setsockopt S fd SOL_SOCKET SO_SNDTIMEO (VTime SOCKET_SEND_TMO_SEC)) h1 of (ret, h) \<Rightarrow>
      if ret \<noteq> 0 then open_error S k (- sock_errno S h) h
      else case bind_to_pdn S k h of (ret, h) \<Rightarrow>
        if ret \<noteq> 0 then open_error S k ret h else socket_opened E S k nm proto h))"
    if "sock_inv opened h1" for fd h1 nm proto
    using that assms(2) by (simp add: case_prod_unfold open_error_inv wcall_inv call_kept)
  then show ?thesis using assms unfolding do_socket_open_def Let_def
    by (auto intro!: open_with split: option.split)
qed

lemma do_secure_socket_open_inv:
  assumes "sock_inv opened h" "k < SM_MAX_SOCKET_COUNT" "sk_fd (sock k h) = INVALID_SOCKET"
  shows "sock_inv opened (snd (do_secure_socket_open E S k pv h))"
proof -
  have "sock_inv opened (snd (case wcall (s_setsockopt S fd SOL_SOCKET SO_SNDTIMEO (VTime SOCKET_SEND_TMO_SEC)) h1 of (ret, h) \<Rightarrow>
      if ret \<noteq> 0 then open_error S k (- sock_errno S h) h
      else case bind_to_pdn S k h of (ret, h) \<Rightarrow>
        if ret \<noteq> 0 then open_error S k ret h
        else case wcall (s_setsockopt S fd SOL_TLS TLS_SEC_TAG_LIST (VNum (sk_sec_tag (sock k h)))) h of (ret, h) \<Rightarrow>
          if ret \<noteq> 0 then open_error S k (- sock_errno S h) h
          else case wcall (s_setsockopt S fd SOL_TLS TLS_PEER_VERIFY (VNum pv)) h of (ret, h) \<Rightarrow>
            if ret \<noteq> 0 then open_error S k (- sock_errno S h) h else socket_opened E S k nm proto h))"
    if "sock_inv opened h1" for fd h1 nm proto
    using that assms(2) by (simp add: case_prod_unfold open_error_inv wcall_inv call_kept)
  then show ?thesis using assms unfolding do_secure_socket_open_def Let_def
    by (auto intro!: open_with)
qed

lemma do_socket_close_inv [simp]:
  assumes "sock_inv opened h" "k < SM_MAX_SOCKET_COUNT"
  shows "sock_inv opened (snd (do_socket_close E S k h))"
proof -
  have "sock_inv_but opened {k} (snd (wcall (s_close S (sk_fd (sock k h))) h))"
    by (rule close_inv [OF sock_inv_mono [OF assms(1)]]) (use sock_inv_distinct [OF assms(1)] assms(2) in auto)
  then show ?thesis using assms by (auto simp: do_socket_close_def Let_def case_prod_unfold init_socket_inv)
qed

section \<open>Input and output\<close>

lemma sockopt_inv [simp]:
  "sock_inv_but opened K (snd (sockopt_set S k opt v h)) = sock_inv_but opened K h"
  "sock_inv_but opened K (snd (sockopt_get E S k opt h)) = sock_inv_but opened K h"
  "sock_inv_but opened K (snd (sec_sockopt_set S k opt sv h)) = sock_inv_but opened K h"
  "sock_inv_but opened K (snd (sec_sockopt_get E S k opt h)) = sock_inv_but opened K h"
  by (simp_all add: sockopt_set_def sockopt_get_def sec_sockopt_set_def sec_sockopt_get_def wcall_inv call_kept case_prod_unfold
      split: sum.split)

lemma bind_to_local_addr_inv [simp]:
  "sock_inv_but opened K h \<Longrightarrow> sock_inv_but opened K (snd (bind_to_local_addr S k port h))"
  by (simp add: bind_to_local_addr_def Let_def case_prod_unfold wcall_inv call_kept sock_inv_upd)

lemma resolve_inv [simp]: "sock_inv_but opened K (snd (resolve S k url port h)) = sock_inv_but opened K h"
  by (simp add: resolve_def case_prod_unfold wcall_inv call_kept)

lemma do_connect_inv [simp]: "sock_inv_but opened K h \<Longrightarrow> sock_inv_but opened K (snd (do_connect E S k url port h))"
  by (simp add: do_connect_def Let_def case_prod_unfold wcall_inv call_kept sock_inv_upd)

lemma send_loop_inv [simp]: "sock_inv_but opened K (snd (send_loop S fd fl fuel ret sent d h)) = sock_inv_but opened K h"
proof (induction fuel arbitrary: ret sent d h)
  case 0
  then show ?case by (cases d) simp_all
next
  case (Suc fuel)
  then show ?case by (cases d) (simp_all add: case_prod_unfold wcall_inv call_kept)
qed

lemma do_send_inv [simp]: "sock_inv_but opened K h \<Longrightarrow> sock_inv_but opened K (snd (do_send E S k d fl h))"
  by (simp add: do_send_def Let_def case_prod_unfold)

lemma sendto_loop_inv [simp]: "sock_inv_but opened K (snd (sendto_loop S fd fl sa dg fuel sent d h)) = sock_inv_but opened K h"
  by (cases dg; induction fuel arbitrary: sent d h) (simp_all add: Let_def case_prod_unfold wcall_inv call_kept)

lemma do_sendto_inv [simp]: "sock_inv_but opened K h \<Longrightarrow> sock_inv_but opened K (snd (do_sendto E S k url port d fl h))"
  by (simp add: do_sendto_def Let_def case_prod_unfold del: sendto_loop.simps)

lemma data_send_hex_inv [simp]: "sock_inv_but opened K (snd (data_send_hex E S k d h)) = sock_inv_but opened K h"
proof -
  have "sock_inv_but opened K (snd (data_send_hex_loop E S k fuel n d h)) = sock_inv_but opened K h" for fuel n
  proof (induction fuel arbitrary: n d h)
    case 0
    then show ?case by (cases d) simp_all
  next
    case (Suc fuel)
    then show ?case by (cases d) (simp_all add: Let_def)
  qed
  then show ?thesis by (simp add: data_send_hex_def)
qed

lemma recv_deliver_inv [simp]: "sock_inv_but opened K h \<Longrightarrow> sock_inv_but opened K (snd (recv_deliver E S k m hdr d h))"
  by (simp add: recv_deliver_def Let_def case_prod_unfold)

lemma do_recv_inv [simp]: "sock_inv_but opened K h \<Longrightarrow> sock_inv_but opened K (snd (do_recv E S k tmo fl m n h))"
  by (simp add: do_recv_def Let_def case_prod_unfold wcall_inv call_kept)

lemma do_recvfrom_inv [simp]: "sock_inv_but opened K h \<Longrightarrow> sock_inv_but opened K (snd (do_recvfrom E S k tmo fl m n h))"
  by (simp add: do_recvfrom_def Let_def case_prod_unfold wcall_inv call_kept)

lemma ctx_ok_no_sock: "ctx_ok c \<Longrightarrow> ctx_ok (c\<lparr>apc_datamode_sock := None\<rparr>)"
  by (simp add: ctx_ok_def)

lemma socket_datamode_callback_inv [simp]:
  "sock_inv opened h \<Longrightarrow> sock_inv opened (snd (socket_datamode_callback E S op d fl h))"
  by (auto simp: socket_datamode_callback_def Let_def sock_inv_poll_ctx ctx_ok_no_sock split: sm_datamode_operation.split option.split)

section \<open>Poll events\<close>

lemma auto_reception_inv [simp]: "sock_inv_but opened K h \<Longrightarrow> sock_inv_but opened K (auto_reception E S k h)"
  by (simp add: auto_reception_def Let_def case_prod_unfold)

lemma poll_work_xapoll_inv [simp]: "sock_inv opened h \<Longrightarrow> sock_inv opened (snd (poll_work_xapoll E S p k ev h))"
  by (simp add: poll_work_xapoll_def Let_def case_prod_unfold sock_inv_upd httpc_event)

lemma poll_work_events_inv [simp]: "sock_inv opened h \<Longrightarrow> sock_inv opened (poll_work_events E S p ai dm k ev h)"
  by (simp add: poll_work_events_def Let_def case_prod_unfold sock_inv_upd)

lemma poll_work_sock_inv [simp]: "sock_inv opened h \<Longrightarrow> sock_inv opened (poll_work_sock E S i p ai dm k h)"
  by (simp add: poll_work_sock_def Let_def sock_inv_upd)

lemma poll_work_handler_inv [simp]: "sock_inv opened h \<Longrightarrow> sock_inv opened (sm_at_socket_poll_work_handler E S i h)"
proof -
  have "sock_inv opened h \<Longrightarrow> sock_inv opened (fold (poll_work_sock E S i p ai dm) ks h)" for p ai dm ks h
    by (induction ks arbitrary: h) simp_all
  then show "sock_inv opened h \<Longrightarrow> sock_inv opened (sm_at_socket_poll_work_handler E S i h)"
    by (simp add: sm_at_socket_poll_work_handler_def Let_def split: option.split)
qed

lemma poll_idle_handler_inv [simp]: "sock_inv opened h \<Longrightarrow> sock_inv opened (sm_at_socket_poll_idle_handler E S i h)"
  by (simp add: sm_at_socket_poll_idle_handler_def Let_def)

section \<open>Server sockets\<close>

lemma do_listen_inv [simp]: "sock_inv_but opened K h \<Longrightarrow> sock_inv_but opened K (snd (do_listen S k h))"
  by (simp add: do_listen_def case_prod_unfold wcall_inv call_kept sock_inv_upd)

lemma upd_sock_twice: "n < length (h_socks h) \<Longrightarrow> upd_sock n f (upd_sock n g h) = upd_sock n (\<lambda>s. f (g s)) h"
  by (simp add: upd_sock_def)

lemma do_accept_inv [simp]:
  assumes inv: "sock_inv opened h" and k: "k < SM_MAX_SOCKET_COUNT"
  shows "sock_inv opened (snd (do_accept E S k h))"
proof -
  obtain fd sa w where acc: "s_accept S (sk_fd (sock k h)) (h_world h) = ((fd, sa), w)" by (metis prod.collapse)
  show ?thesis
  proof (cases "fd < 0")
    case True
    then show ?thesis using inv accept_err [OF acc] acc by (simp add: do_accept_def wcall_split sock_inv_world)
  next
    case False
    then have new: "fd \<notin> opened (h_world h)" "opened w = insert fd (opened (h_world h))" using accept_new [OF acc] by auto
    let ?h = "h\<lparr>h_world := w\<rparr>"
    have inv1: "sock_inv opened ?h" by (rule sock_inv_more [OF inv]) (use new in auto)
    have ok: "sock_ok (opened (h_world h)) (sock j h)" if "j < SM_MAX_SOCKET_COUNT" for j using inv that by (simp add: sock_inv_but_def)
    show ?thesis
    proof (cases "find_avail_socket ?h")
      case None
      have "sock_inv opened (snd (wcall (s_close S fd) ?h))"
        by (rule close_inv [OF inv1]) (use ok new False in \<open>auto simp: sock_ok_def\<close>)
      then show ?thesis using inv acc False None by (simp add: do_accept_def Let_def wcall_split)
    next
      case (Some n)
      have n: "n < SM_MAX_SOCKET_COUNT" using find_avail_Some [OF Some] by simp
      let ?i = "init_socket E n ?h"
      let ?f = "\<lambda>s. s\<lparr>sk_fd := fd, sk_family := fst sa, sk_type := SOCK_STREAM, sk_role := AT_SOCKET_ROLE_CLIENT,
          sk_cid := sk_cid (sock k ?i), sk_connected := True\<rparr>"
      have "sk_cid (sock k ?i) \<le> 10" using init_socket_inv' [OF inv1 n, of E] k by (simp add: sock_inv_but_def sock_ok_def)
      then have "sock_inv opened (upd_sock n ?f ?i)"
        unfolding init_socket_def using inv n new False inv1
        by (subst upd_sock_twice) (simp, rule fresh_inv, auto simp: zero_poll_def)
      then show ?thesis using inv acc False Some by (simp add: do_accept_def Let_def wcall_split case_prod_unfold split: option.split)
    qed
  qed
qed

end

end
