(* ===== verification/Sock_Run.thy ===== *)
theory Sock_Run
  imports Sock_Inv
begin

unbundle bit_operations_syntax

text \<open>
  The sockets module as part of the AT host: its commands, its data mode handler and its work items take
  the place of the host's parameters, its callbacks are events of their own, and the invariant of the
  socket table holds over every run of the whole.
\<close>

section \<open>The commands keep the invariant\<close>

datatype sock_cmd = XSOCKET | XSSOCKET | XCLOSE | XSOCKETOPT | XSSOCKETOPT | XBIND | XCONNECT | XSEND | XRECV | XSENDTO
  | XRECVFROM | XLISTEN | XACCEPT | XGETADDRINFO | XAPOLL | XRECVCFG

definition sock_command ::
  "('rb, 'w) env \<Rightarrow> ('rb, 'w) sock_env \<Rightarrow> 'p at_parser_ops \<Rightarrow> sock_cmd \<Rightarrow> at_parser_cmd_type \<Rightarrow> 'p \<Rightarrow> nat \<Rightarrow>
   ('rb, 'w) host \<Rightarrow> int \<times> ('rb, 'w) host" where
  "sock_command E S P c cmd_type parser param_count =
     (case c of
        XSOCKET \<Rightarrow> handle_at_socket E S P cmd_type parser param_count
      | XSSOCKET \<Rightarrow> handle_at_secure_socket E S P cmd_type parser param_count
      | XCLOSE \<Rightarrow> handle_at_close E S P cmd_type parser param_count
      | XSOCKETOPT \<Rightarrow> handle_at_socketopt E S P cmd_type parser param_count
      | XSSOCKETOPT \<Rightarrow> handle_at_secure_socketopt E S P cmd_type parser
      | XBIND \<Rightarrow> handle_at_bind S P cmd_type parser
      | XCONNECT \<Rightarrow> handle_at_connect E S P cmd_type parser
      | XSEND \<Rightarrow> handle_at_send E S P cmd_type parser param_count
      | XRECV \<Rightarrow> handle_at_recv E S P cmd_type parser param_count
      | XSENDTO \<Rightarrow> handle_at_sendto E S P cmd_type parser param_count
      | XRECVFROM \<Rightarrow> handle_at_recvfrom E S P cmd_type parser param_count
      | XLISTEN \<Rightarrow> handle_at_listen E S P cmd_type parser
      | XACCEPT \<Rightarrow> handle_at_accept E S P cmd_type parser
      | XGETADDRINFO \<Rightarrow> handle_at_getaddrinfo E S P cmd_type parser param_count
      | XAPOLL \<Rightarrow> handle_at_xapoll E S P cmd_type parser
      | XRECVCFG \<Rightarrow> handle_at_recvcfg E S P cmd_type parser param_count)"

lemma param_cases: "(\<And>v. r = Inr v \<Longrightarrow> Q (snd (f v h))) \<Longrightarrow> Q h \<Longrightarrow> Q (snd (param r f h))"
  by (simp add: param_def split: sum.split)

lemma with_socket_cases: "(\<And>k. find_socket fd h = Some k \<Longrightarrow> Q (snd (f k h))) \<Longrightarrow> Q h \<Longrightarrow> Q (snd (with_socket fd f h))"
  by (simp add: with_socket_def split: option.split)

lemma opt_socket_cases:
  "Q h \<Longrightarrow> Q (snd (f None h)) \<Longrightarrow> (\<And>k. k < SM_MAX_SOCKET_COUNT \<Longrightarrow> Q (snd (f (Some k) h))) \<Longrightarrow> Q (snd (opt_socket P parser f h))"
  using find_socket_Some unfolding opt_socket_def with_socket_def by (auto split: sum.split option.split)

lemma ctx_ok_upd:
  "ctx_ok c \<Longrightarrow> ctx_ok (c\<lparr>apc_xapoll_events_requested := ev\<rparr>)"
  "ctx_ok c \<Longrightarrow> k < SM_MAX_SOCKET_COUNT \<Longrightarrow> ctx_ok (c\<lparr>apc_datamode_sock := Some k\<rparr>)"
  "ctx_ok c \<Longrightarrow> adr_ok fl hx \<Longrightarrow> ctx_ok (c\<lparr>apc_adr_flags := fl, apc_adr_hex := hx\<rparr>)"
  by (simp_all add: ctx_ok_def)

lemma recvcfg_params_ok: "recvcfg_params P parser n = Some (flags, hex) \<Longrightarrow> adr_ok (ucast flags) hex"
proof -
  assume "recvcfg_params P parser n = Some (flags, hex)"
  then have "flags AND NOT 3 = 0" "\<not> (flags AND 2 \<noteq> 0 \<and> hex)"
    by (auto simp: recvcfg_params_def split: sum.splits if_splits)
  moreover have "ucast (flags AND NOT 3) = (ucast flags AND NOT 3 :: 8 word)" "ucast (flags AND 2) = (ucast flags AND 2 :: 8 word)"
    by (simp_all add: bit_eq_iff bit_simps)
  ultimately show ?thesis by (metis adr_ok_def unsigned_0)
qed

text \<open>A new entry: the command fills in a free entry, and resets it when it fails.\<close>

definition free_entry :: "('w \<Rightarrow> int set) \<Rightarrow> nat \<Rightarrow> ('rb, 'w) host \<Rightarrow> bool" where
  "free_entry op k h \<longleftrightarrow> sock_inv op h \<and> sk_fd (sock k h) = INVALID_SOCKET"

definition opens :: "('w \<Rightarrow> int set) \<Rightarrow> nat \<Rightarrow> (('rb, 'w) host \<Rightarrow> int \<times> ('rb, 'w) host) \<Rightarrow> bool" where
  "opens op k f \<longleftrightarrow>
     (\<forall>h. free_entry op k h \<longrightarrow> sock_inv_but op {k} (snd (f h)) \<and> (fst (f h) = 0 \<longrightarrow> sock_inv op (snd (f h))))"

context sock_host
begin

lemma param_inv [intro!]:
  "(\<And>v. sock_inv opened (snd (f v h))) \<Longrightarrow> sock_inv opened h \<Longrightarrow> sock_inv opened (snd (param r f h))"
  by (rule param_cases)

lemma with_socket_inv [intro!]:
  "(\<And>k. k < SM_MAX_SOCKET_COUNT \<Longrightarrow> sock_inv opened (snd (f k h))) \<Longrightarrow> sock_inv opened h \<Longrightarrow>
   sock_inv opened (snd (with_socket fd f h))"
  by (rule with_socket_cases) (use find_socket_Some in blast)+

lemma rsp_each_inv [simp]: "sock_inv_but opened K (rsp_each E want line h) = sock_inv_but opened K h"
proof -
  have "sock_inv_but opened K (fold (\<lambda>k h. if Q k h then rsp_send E (t k h) h else h) ks h) = sock_inv_but opened K h" for Q t ks
    by (induction ks arbitrary: h) simp_all
  then show ?thesis by (simp add: rsp_each_def)
qed

lemma open_command_inv:
  assumes "sock_inv opened h" "\<And>k. k < SM_MAX_SOCKET_COUNT \<Longrightarrow> opens opened k (f k)"
  shows "sock_inv opened (snd (open_command E f h))"
proof (cases "find_avail_socket h")
  case (Some k)
  then have k: "k < SM_MAX_SOCKET_COUNT" by (simp add: find_avail_Some)
  have "free_entry opened k (init_socket E k h)" using assms(1) k by (simp add: free_entry_def) (simp add: init_socket_def)
  then show ?thesis using assms(2) [OF k] k Some by (simp add: open_command_def opens_def case_prod_unfold init_socket_inv)
qed (simp add: open_command_def assms)

lemma free_entry_upd: "free_entry opened k h \<Longrightarrow> keeps_entry f \<Longrightarrow> free_entry opened k (upd_sock k f h)"
  by (cases "k < length (h_socks h)") (simp_all add: free_entry_def sock_inv_upd, simp add: keeps_entry_def)

lemma opens_param: "(\<And>v. opens opened k (f v)) \<Longrightarrow> opens opened k (param r f)"
  using sock_inv_mono [of opened "{}" _ "{k}"] by (auto simp: opens_def param_def free_entry_def split: sum.split)

lemma opens_upd: "opens opened k f \<Longrightarrow> keeps_entry g \<Longrightarrow> opens opened k (\<lambda>h. f (upd_sock k g h))"
  by (simp add: opens_def free_entry_upd)

lemma opensI: "(\<And>h. free_entry opened k h \<Longrightarrow> sock_inv opened (snd (f h))) \<Longrightarrow> opens opened k f"
  using sock_inv_mono [of opened "{}" _ "{k}"] by (auto simp: opens_def)

lemma free_entry_cid:
  assumes "free_entry opened k h" "v \<le> 10" "k < SM_MAX_SOCKET_COUNT"
  shows "free_entry opened k (upd_sock k (\<lambda>s. s\<lparr>sk_cid := v\<rparr>) h)"
  unfolding free_entry_def
proof
  have "sock_inv_but opened {k} (upd_sock k (\<lambda>s. s\<lparr>sk_cid := v\<rparr>) h)"
    using assms(1) sock_inv_mono [of opened "{}" h "{k}"] by (simp add: free_entry_def sock_inv_upd_but)
  then show "sock_inv opened (upd_sock k (\<lambda>s. s\<lparr>sk_cid := v\<rparr>) h)"
    by (rule sock_inv_close) (use assms in \<open>auto simp: free_entry_def sock_inv_but_def sock_ok_def\<close>)
  show "sk_fd (sock k (upd_sock k (\<lambda>s. s\<lparr>sk_cid := v\<rparr>) h)) = INVALID_SOCKET"
    using assms sock_inv_length [of opened "{}" h] by (simp add: free_entry_def)
qed

lemma opens_cid:
  assumes "opens opened k f" "k < SM_MAX_SOCKET_COUNT"
  shows "opens opened k (cid_param P parser n i k f)"
proof -
  have but: "free_entry opened k h \<Longrightarrow> sock_inv_but opened {k} h" for h using sock_inv_mono [of opened "{}" h "{k}"] by (simp add: free_entry_def)
  moreover have "free_entry opened k h \<Longrightarrow> sock_inv opened h" for h by (simp add: free_entry_def)
  moreover have "sock_inv_but opened {k} (snd (f (upd_sock k (\<lambda>s. s\<lparr>sk_cid := v\<rparr>) h)))"
      "fst (f (upd_sock k (\<lambda>s. s\<lparr>sk_cid := v\<rparr>) h)) = 0 \<Longrightarrow> sock_inv opened (snd (f (upd_sock k (\<lambda>s. s\<lparr>sk_cid := v\<rparr>) h)))"
    if "free_entry opened k h" "v \<le> 10" for v h
    using assms(1) free_entry_cid [OF that assms(2)] by (simp_all add: opens_def)
  ultimately show ?thesis using assms(1)
    by (auto simp: opens_def cid_param_def param_def Let_def sock_inv_upd_but not_less split: sum.split)
qed

lemma opens_params: "opens opened k f \<Longrightarrow> opens opened k (open_params P parser k f)"
  unfolding open_params_def Let_def by (intro opens_param opens_upd) simp_all

lemma handle_at_socket_inv [simp]: "sock_inv opened h \<Longrightarrow> sock_inv opened (snd (handle_at_socket E S P ct p n h))"
proof -
  have "opens opened k (open_params P p k (cid_param P p n 4 k (do_socket_open E S k)))" if "k < SM_MAX_SOCKET_COUNT" for k
    using that by (intro opens_params opens_cid opensI do_socket_open_inv) (simp_all add: free_entry_def)
  then show "sock_inv opened h \<Longrightarrow> sock_inv opened (snd (handle_at_socket E S P ct p n h))"
    by (simp add: handle_at_socket_def open_command_inv split: at_parser_cmd_type.split)
qed

lemma handle_at_secure_socket_inv [simp]: "sock_inv opened h \<Longrightarrow> sock_inv opened (snd (handle_at_secure_socket E S P ct p n h))"
proof -
  have "opens opened k (cid_param P p n 6 k (do_secure_socket_open E S k pv))" if "k < SM_MAX_SOCKET_COUNT" for k pv
    using that by (intro opens_cid opensI do_secure_socket_open_inv) (simp_all add: free_entry_def)
  then have "opens opened k (\<lambda>h. if 5 < n then param (ap_num_get_u16 P p 5) (\<lambda>v. cid_param P p n 6 k (do_secure_socket_open E S k (uint v)))
       (upd_sock k (\<lambda>s. s\<lparr>sk_sec_tag := v\<rparr>) h)
     else cid_param P p n 6 k (do_secure_socket_open E S k (s_peer_verify_required S)) (upd_sock k (\<lambda>s. s\<lparr>sk_sec_tag := v\<rparr>) h))"
    if "k < SM_MAX_SOCKET_COUNT" for k v
    using that by (cases "5 < n") (auto intro!: opens_upd opens_param)
  then show "sock_inv opened h \<Longrightarrow> sock_inv opened (snd (handle_at_secure_socket E S P ct p n h))"
    by (simp add: handle_at_secure_socket_def Let_def open_command_inv opens_params opens_upd opens_param
        split: at_parser_cmd_type.split)
qed

lemma close_all_inv:
  "sock_inv opened h \<Longrightarrow> set ks \<subseteq> {..<SM_MAX_SOCKET_COUNT} \<Longrightarrow> sock_inv opened (snd (fold (close_step E S) ks (err, h)))"
proof (induction ks arbitrary: err h)
  case (Cons k ks)
  obtain err' h' where s: "close_step E S k (err, h) = (err', h')" by fastforce
  have "sock_inv opened (snd (close_step E S k (err, h)))"
    using Cons.prems by (simp add: close_step_def case_prod_unfold)
  then show ?case using Cons.IH [of h' err'] Cons.prems s by simp
qed simp

lemma handle_at_close_inv [simp]: "sock_inv opened h \<Longrightarrow> sock_inv opened (snd (handle_at_close E S P ct p n h))"
  by (auto simp: handle_at_close_def intro!: close_all_inv)

lemma handle_at_opt_inv [simp]:
  "sock_inv opened h \<Longrightarrow> sock_inv opened (snd (handle_at_socketopt E S P ct p n h))"
  "sock_inv opened h \<Longrightarrow> sock_inv opened (snd (handle_at_secure_socketopt E S P ct p h))"
  by (auto simp: handle_at_socketopt_def handle_at_secure_socketopt_def split: at_parser_cmd_type.split sum.split)

lemma claim_socket_inv [simp]: "sock_inv_but opened K h \<Longrightarrow> sock_inv_but opened K (claim_socket E k h)"
  by (simp add: claim_socket_def sock_inv_upd)

lemma handle_at_bind_inv [simp]: "sock_inv opened h \<Longrightarrow> sock_inv opened (snd (handle_at_bind S P ct p h))"
  by (auto simp: handle_at_bind_def)

lemma handle_at_connect_inv [simp]: "sock_inv opened h \<Longrightarrow> sock_inv opened (snd (handle_at_connect E S P ct p h))"
  by (auto simp: handle_at_connect_def)

lemma enter_socket_datamode_inv [simp]:
  "sock_inv opened h \<Longrightarrow> k < SM_MAX_SOCKET_COUNT \<Longrightarrow> sock_inv opened (snd (enter_socket_datamode E S P p n i k h))"
  unfolding enter_socket_datamode_def
  by (rule param_cases) (auto simp: Let_def case_prod_unfold sock_inv_poll_ctx ctx_ok_upd split: option.split)

lemma handle_at_send_inv [simp]: "sock_inv opened h \<Longrightarrow> sock_inv opened (snd (handle_at_send E S P ct p n h))"
  by (auto simp: handle_at_send_def Let_def case_prod_unfold sock_inv_upd)

lemma handle_at_sendto_inv [simp]: "sock_inv opened h \<Longrightarrow> sock_inv opened (snd (handle_at_sendto E S P ct p n h))"
  by (auto simp: handle_at_sendto_def Let_def case_prod_unfold sock_inv_upd)

lemma recv_command_inv:
  "sock_inv opened h \<Longrightarrow> (\<And>k t fl m n h. sock_inv opened h \<Longrightarrow> sock_inv opened (snd (rc k t fl m n h))) \<Longrightarrow>
   sock_inv opened (snd (recv_command E P ct p n rc h))"
  by (auto simp: recv_command_def)

lemma handle_at_recv_inv [simp]:
  "sock_inv opened h \<Longrightarrow> sock_inv opened (snd (handle_at_recv E S P ct p n h))"
  "sock_inv opened h \<Longrightarrow> sock_inv opened (snd (handle_at_recvfrom E S P ct p n h))"
  by (simp_all add: handle_at_recv_def handle_at_recvfrom_def recv_command_inv)

lemma handle_at_server_inv [simp]:
  "sock_inv opened h \<Longrightarrow> sock_inv opened (snd (handle_at_listen E S P ct p h))"
  "sock_inv opened h \<Longrightarrow> sock_inv opened (snd (handle_at_accept E S P ct p h))"
  by (auto simp: handle_at_listen_def handle_at_accept_def split: at_parser_cmd_type.split)

lemma handle_at_getaddrinfo_inv [simp]: "sock_inv opened h \<Longrightarrow> sock_inv opened (snd (handle_at_getaddrinfo E S P ct p n h))"
  by (auto simp: handle_at_getaddrinfo_def Let_def case_prod_unfold wcall_inv call_kept)

lemma xapoll_stop_inv [simp]: "sock_inv opened h \<Longrightarrow> sock_inv opened (xapoll_stop E sk h)"
proof -
  have "sock_inv opened h \<Longrightarrow> sock_inv opened (fold (\<lambda>k h. if Q k h
      then upd_sock k (upd_poll (\<lambda>p. p\<lparr>po_xapoll_events_requested := 0\<rparr>)) h else h) ks h)" for Q ks and h :: "('rb, 'w) host"
    by (induction ks arbitrary: h) (simp_all add: sock_inv_upd)
  then show "sock_inv opened h \<Longrightarrow> sock_inv opened (xapoll_stop E sk h)"
    by (auto simp: xapoll_stop_def Let_def sock_inv_upd sock_inv_poll_ctx ctx_ok_upd split: option.split)
qed

lemma update_each_inv: "sock_inv opened h \<Longrightarrow> keeps_entry (upd_poll f) \<Longrightarrow> sock_inv opened (snd (update_each E S p f ev x ks h))"
  by (induction ks arbitrary: h) (simp_all add: case_prod_unfold sock_inv_upd)

lemma set_xapoll_events_inv [simp]: "sock_inv opened h \<Longrightarrow> sock_inv opened (snd (set_xapoll_events E S sk ev h))"
  by (auto simp: set_xapoll_events_def Let_def sock_inv_upd sock_inv_poll_ctx ctx_ok_upd update_each_inv keeps_entry_comp
      split: option.split)

lemma handle_at_xapoll_inv [simp]: "sock_inv opened h \<Longrightarrow> sock_inv opened (snd (handle_at_xapoll E S P ct p h))"
  unfolding handle_at_xapoll_def
  by (auto simp: xapoll_read_response_def Let_def split: at_parser_cmd_type.split sum.split intro!: opt_socket_cases [where Q = "sock_inv opened"])

lemma handle_at_recvcfg_inv [simp]: "sock_inv opened h \<Longrightarrow> sock_inv opened (snd (handle_at_recvcfg E S P ct p n h))"
  unfolding handle_at_recvcfg_def Let_def
  by (auto simp: sock_inv_upd sock_inv_poll_ctx ctx_ok_upd update_each_inv keeps_entry_comp keeps_entry_adr recvcfg_params_ok
      split: at_parser_cmd_type.split option.split prod.split intro!: opt_socket_cases [where Q = "sock_inv opened"])

lemma sock_command_inv [simp]: "sock_inv opened h \<Longrightarrow> sock_inv opened (snd (sock_command E S P c ct p n h))"
  by (cases c) (simp_all add: sock_command_def)

end

section \<open>The module as a part of the host\<close>

text \<open>The handler of data mode. The code that leaves data mode calls the handler again, with the other
  operation, which does not leave data mode: two levels are all calls there are.\<close>

definition sock_handler :: "('rb, 'w) sock_env \<Rightarrow> ('rb, 'w) env \<Rightarrow> ('rb, 'w) env" where
  "sock_handler S E = E\<lparr>e_datamode_handler := (\<lambda>cb op d fl.
     if cb = SOCKET_HANDLER then socket_datamode_callback E S op d fl else e_datamode_handler E cb op d fl)\<rparr>"

definition sock_work :: "('rb, 'w) sock_env \<Rightarrow> ('rb, 'w) env \<Rightarrow> nat \<Rightarrow> ('rb, 'w) host \<Rightarrow> ('rb, 'w) host" where
  "sock_work S E wk =
     (if wk = send_cb_work then send_cb_fn E S
      else if wk mod 3 = 1 then sm_at_socket_poll_work_handler E S (wk div 3)
      else if wk mod 3 = 2 then sm_at_socket_poll_idle_handler E S (wk div 3)
      else e_run_work E wk)"

text \<open>\<open>F\<close> is the filter of the modem library: the command of this module a command line is for, if any.\<close>

definition sock_at_cmd ::
  "('rb, 'w) sock_env \<Rightarrow> 'p at_parser_ops \<Rightarrow> (string \<Rightarrow> sock_cmd option) \<Rightarrow> ('rb, 'w) env \<Rightarrow> nat \<Rightarrow> string \<Rightarrow>
   ('rb, 'w) host \<Rightarrow> (int \<times> bytes) \<times> ('rb, 'w) host" where
  "sock_at_cmd S P F E len at_cmd h =
     (case F at_cmd of
        None \<Rightarrow> e_at_cmd E len at_cmd h
      | Some c \<Rightarrow>
          (case sm_at_cb_wrapper P len at_cmd (sock_command E S P c) h of
             ((err, rsp), h) \<Rightarrow> ((err, case rsp of None \<Rightarrow> [] | Some text \<Rightarrow> text @ [NUL]), h)))"

definition with_sockets ::
  "('rb, 'w) sock_env \<Rightarrow> 'p at_parser_ops \<Rightarrow> (string \<Rightarrow> sock_cmd option) \<Rightarrow> ('rb, 'w) env \<Rightarrow> ('rb, 'w) env" where
  "with_sockets S P F B =
     (let E = sock_handler S (sock_handler S B) in E\<lparr>e_at_cmd := sock_at_cmd S P F E, e_run_work := sock_work S E\<rparr>)"

datatype sock_event = HostEvent host_event | PollCallback int "32 word" | SendCallback int int int

fun sock_step :: "('rb, 'w) env \<Rightarrow> ('rb, 'w) host \<Rightarrow> sock_event \<Rightarrow> ('rb, 'w) host" where
  "sock_step E h (HostEvent ev) = host_step E h ev"
| "sock_step E h (PollCallback fd revents) = poll_cb E fd revents h"
| "sock_step E h (SendCallback fd status bytes_sent) = send_cb E fd status bytes_sent h"

lemma replace_same: "E\<lparr>e_datamode_handler := f\<rparr> = E\<lparr>e_datamode_handler := f, e_at_cmd := e_at_cmd E, e_run_work := e_run_work E\<rparr>"
  by simp

lemma sock_handler_host: "sock_host E S op \<Longrightarrow> sock_host (sock_handler S E) S op"
proof -
  assume a: "sock_host E S op"
  then have m: "host_machine E op (sock_inv op)" and n: "sock_net S op" by (simp_all add: sock_host_def)
  have "host_machine (sock_handler S E) op (sock_inv op)"
    unfolding sock_handler_def
    by (subst replace_same, rule host_machine.replace_callbacks [OF m])
      (simp_all add: sock_host.socket_datamode_callback_inv [OF a] host_machine.handler_I [OF m] host_machine.at_cmd_I [OF m]
        host_machine.work_I [OF m])
  then show ?thesis using n by (simp add: sock_host_def)
qed

context sock_host
begin

lemma sock_work_inv: "sock_inv opened h \<Longrightarrow> sock_inv opened (sock_work S E wk h)"
  by (simp add: sock_work_def work_I)

lemma wrapper_inv: "(\<And>ct p n h. sock_inv opened h \<Longrightarrow> sock_inv opened (snd (cb ct p n h))) \<Longrightarrow> sock_inv opened h \<Longrightarrow>
    sock_inv opened (snd (sm_at_cb_wrapper P len s cb h))"
  by (auto simp: sm_at_cb_wrapper_def Let_def case_prod_unfold split: sum.split)

lemma sock_at_cmd_inv: "sock_inv opened h \<Longrightarrow> sock_inv opened (snd (sock_at_cmd S P F E len s h))"
  using wrapper_inv [of "sock_command E S P c" h P len s for c]
  by (auto simp: sock_at_cmd_def case_prod_unfold at_cmd_I split: option.split)

end

lemma with_sockets_host: "sock_host B S op \<Longrightarrow> sock_host (with_sockets S P F B) S op"
proof -
  assume "sock_host B S op"
  then have a: "sock_host (sock_handler S (sock_handler S B)) S op" by (intro sock_handler_host)
  let ?E = "sock_handler S (sock_handler S B)"
  have m: "host_machine ?E op (sock_inv op)" and n: "sock_net S op" using a by (simp_all add: sock_host_def)
  have "host_machine (?E\<lparr>e_datamode_handler := e_datamode_handler ?E, e_at_cmd := sock_at_cmd S P F ?E, e_run_work := sock_work S ?E\<rparr>)
      op (sock_inv op)"
    by (rule host_machine.replace_callbacks [OF m])
      (simp_all add: host_machine.handler_I [OF m] sock_host.sock_at_cmd_inv [OF a] sock_host.sock_work_inv [OF a])
  then show ?thesis using n by (simp add: sock_host_def with_sockets_def Let_def)
qed

sublocale sock_host \<subseteq> sock_events: invariant_machine "sock_step E" "sock_inv opened"
proof
  show "sock_inv opened h \<Longrightarrow> sock_inv opened (sock_step E h ev)" for h ev
    by (cases ev) (simp_all add: host_step_I)
qed

context sock_host
begin

lemmas sock_run = sock_events.run_inv

end

end
