(* ===== verification/Http_State.thy ===== *)
theory Http_State
  imports Sock_Run
begin

unbundle bit_operations_syntax

text \<open>
  The requests of the HTTP client (\<open>app/src/sm_at_httpc.c\<close>): the table of requests, the lookup, the
  allocation and the release of a request, the URL, the text of the request and its size, and the
  notifications about a request.
  The static variables of the module are kept in the world of the host. A pointer to a request is its
  index in the table; a freed request is an entry that is empty, so that functions are called with the
  index of a request that is in use.
\<close>

section \<open>Data\<close>

abbreviation (input) HTTP_RECV_BUF_SIZE :: nat where "HTTP_RECV_BUF_SIZE \<equiv> 2049"
abbreviation (input) HTTP_URL_MAX_LEN :: nat where "HTTP_URL_MAX_LEN \<equiv> 512"
abbreviation (input) HTTP_HOST_MAX_LEN :: nat where "HTTP_HOST_MAX_LEN \<equiv> 256"
abbreviation (input) HTTP_PATH_MAX_LEN :: nat where "HTTP_PATH_MAX_LEN \<equiv> 256"
abbreviation (input) HTTP_EXTRA_HEADERS_SIZE :: nat where "HTTP_EXTRA_HEADERS_SIZE \<equiv> 512"
abbreviation (input) HTTP_MAX_REQUESTS :: nat where "HTTP_MAX_REQUESTS \<equiv> 8"

definition HTTP_VERSION_LINE :: string where "HTTP_VERSION_LINE = '' HTTP/1.1'' @ CRLF_STR"
definition HTTP_HDR_USER_AGENT :: string where "HTTP_HDR_USER_AGENT = ''User-Agent: nRF91-Serial-Modem'' @ CRLF_STR"
definition HTTP_HDR_ACCEPT :: string where "HTTP_HDR_ACCEPT = ''Accept: */*'' @ CRLF_STR"

datatype sm_http_method = HTTP_GET | HTTP_POST | HTTP_PUT | HTTP_DELETE | HTTP_HEAD

datatype http_req_state = HTTP_STATE_IDLE | HTTP_STATE_SENDING_REQUEST | HTTP_STATE_SENDING_BODY
  | HTTP_STATE_RECEIVING_HEADERS | HTTP_STATE_RECEIVING_BODY

text \<open>\<open>rq_recv_buf\<close> is the contents of the receive buffer, \<open>recv_buf_len\<close> bytes; \<open>rq_send_rest\<close> are the
  \<open>send_remaining\<close> bytes at \<open>send_ptr\<close>; \<open>rq_send_buf\<close> says whether the buffer of the headers is allocated.\<close>

record http_request =
  rq_fd :: int
  rq_state :: http_req_state
  rq_method :: sm_http_method
  rq_hostname :: "string option"
  rq_path :: "string option"
  rq_port :: "16 word"
  rq_request_body_len :: int
  rq_extra_headers :: "string option"
  rq_recv_buf :: bytes
  rq_send_rest :: bytes
  rq_send_buf :: bool
  rq_status_code :: int
  rq_content_length :: int
  rq_total_received :: int
  rq_headers_complete :: bool
  rq_need_rearm_pollin :: bool
  rq_timeout_timestamp :: int
  rq_pipe :: "pipe option"
  rq_manual_mode :: bool
  rq_hex_rx :: bool
  rq_bytes_sent :: int
  rq_connection_close :: bool

definition http_method_str :: "sm_http_method \<Rightarrow> string" where
  "http_method_str m =
     (case m of HTTP_GET \<Rightarrow> ''GET'' | HTTP_POST \<Rightarrow> ''POST'' | HTTP_PUT \<Rightarrow> ''PUT'' | HTTP_DELETE \<Rightarrow> ''DELETE'' | HTTP_HEAD \<Rightarrow> ''HEAD'')"

record http_vars =
  hs_requests :: "http_request option list"
  hs_datamode_req :: "nat option"
  hs_timeout_armed :: bool

record 'w http_world =
  ht_st :: http_vars
  ht_world :: 'w

text \<open>What is not part of the module: the configured timeout, the uptime, the size of the structure and
  the URL parser, which returns offset and length of the parts it found.\<close>

record url_fields =
  uf_schema :: "(nat \<times> nat) option"
  uf_host :: "(nat \<times> nat) option"
  uf_path :: "(nat \<times> nat) option"
  uf_query :: "(nat \<times> nat) option"
  uf_port :: "16 word option"

record 'w http_env =
  hc_response_timeout_ms :: int
  hc_uptime :: "'w \<Rightarrow> int"
  hc_sizeof_request :: nat
  hc_parse_url :: "bytes \<Rightarrow> url_fields option"

abbreviation http :: "('rb, 'w http_world) host \<Rightarrow> http_vars" where
  "http h \<equiv> ht_st (h_world h)"

abbreviation slot :: "nat \<Rightarrow> ('rb, 'w http_world) host \<Rightarrow> http_request option" where
  "slot k h \<equiv> hs_requests (http h) ! k"

abbreviation req :: "nat \<Rightarrow> ('rb, 'w http_world) host \<Rightarrow> http_request" where
  "req k h \<equiv> the (slot k h)"

definition upd_http :: "(http_vars \<Rightarrow> http_vars) \<Rightarrow> ('rb, 'w http_world) host \<Rightarrow> ('rb, 'w http_world) host" where
  "upd_http f h = h\<lparr>h_world := (h_world h)\<lparr>ht_st := f (http h)\<rparr>\<rparr>"

definition set_slot :: "nat \<Rightarrow> http_request option \<Rightarrow> http_vars \<Rightarrow> http_vars" where
  "set_slot k r s = s\<lparr>hs_requests := (hs_requests s)[k := r]\<rparr>"

definition upd_req ::
  "nat \<Rightarrow> (http_request \<Rightarrow> http_request) \<Rightarrow> ('rb, 'w http_world) host \<Rightarrow> ('rb, 'w http_world) host" where
  "upd_req k f h = upd_http (\<lambda>s. set_slot k (map_option f (hs_requests s ! k)) s) h"

definition now :: "'w http_world http_env \<Rightarrow> ('rb, 'w http_world) host \<Rightarrow> int" where
  "now H h = hc_uptime H (h_world h)"

text \<open>The deadline that is set on every activity.\<close>

definition touch ::
  "'w http_world http_env \<Rightarrow> nat \<Rightarrow> ('rb, 'w http_world) host \<Rightarrow> ('rb, 'w http_world) host" where
  "touch H k h = upd_req k (\<lambda>r. r\<lparr>rq_timeout_timestamp := now H h + hc_response_timeout_ms H\<rparr>) h"

section \<open>The table\<close>

definition active :: "http_request option \<Rightarrow> bool" where
  "active s \<longleftrightarrow> (case s of None \<Rightarrow> False | Some r \<Rightarrow> rq_state r \<noteq> HTTP_STATE_IDLE)"

definition http_any_active_request_unlocked :: "('rb, 'w http_world) host \<Rightarrow> bool" where
  "http_any_active_request_unlocked h \<longleftrightarrow> (\<exists>k \<in> set [0..<HTTP_MAX_REQUESTS]. active (slot k h))"

definition http_timeout_monitor_arm :: "('rb, 'w http_world) host \<Rightarrow> ('rb, 'w http_world) host" where
  "http_timeout_monitor_arm h = upd_http (\<lambda>s. s\<lparr>hs_timeout_armed := True\<rparr>) h"

definition find_request :: "int \<Rightarrow> ('rb, 'w http_world) host \<Rightarrow> nat option" where
  "find_request fd h =
     find (\<lambda>k. case slot k h of None \<Rightarrow> False | Some r \<Rightarrow> rq_fd r = fd) [0..<HTTP_MAX_REQUESTS]"

definition zero_request :: http_request where
  "zero_request = \<lparr>rq_fd = 0, rq_state = HTTP_STATE_IDLE, rq_method = HTTP_GET, rq_hostname = None, rq_path = None, rq_port = 0,
     rq_request_body_len = 0, rq_extra_headers = None, rq_recv_buf = [], rq_send_rest = [], rq_send_buf = False, rq_status_code = 0,
     rq_content_length = 0, rq_total_received = 0, rq_headers_complete = False, rq_need_rearm_pollin = False,
     rq_timeout_timestamp = 0, rq_pipe = None, rq_manual_mode = False, rq_hex_rx = False, rq_bytes_sent = 0,
     rq_connection_close = False\<rparr>"

definition alloc_request ::
  "('rb, 'w http_world) env \<Rightarrow> 'w http_world http_env \<Rightarrow> ('rb, 'w http_world) host \<Rightarrow> nat option \<times> ('rb, 'w http_world) host" where
  "alloc_request E H h =
     (case find (\<lambda>k. slot k h = None) [0..<HTTP_MAX_REQUESTS] of
        None \<Rightarrow> (None, h)
      | Some k \<Rightarrow>
          (case wcall (e_malloc E (hc_sizeof_request H)) h of (ok, h) \<Rightarrow>
             if \<not> ok then (None, h)
             else case wcall (e_malloc E HTTP_RECV_BUF_SIZE) h of (ok, h) \<Rightarrow>
               if \<not> ok then (None, h)
               else (Some k, upd_http (set_slot k (Some (zero_request\<lparr>rq_fd := - 1, rq_state := HTTP_STATE_IDLE,
                       rq_content_length := - 1, rq_pipe := sm_at_host_get_current_pipe E h\<rparr>))) h)))"

section \<open>The URL and the text of the request\<close>

definition strndup :: "bytes \<Rightarrow> nat \<Rightarrow> nat \<Rightarrow> string" where
  "strndup s off n = cstr (take n (drop off s))"

definition url_port :: "url_fields \<Rightarrow> bytes \<Rightarrow> 16 word" where
  "url_port u url =
     (case uf_port u of
        Some p \<Rightarrow> p
      | None \<Rightarrow>
          (case uf_schema u of
             Some (off, len) \<Rightarrow> if len = 5 \<and> take 5 (drop off url) = ''https'' then 443 else 80
           | None \<Rightarrow> 80))"

text \<open>The memory for a copy comes from the heap; a copy that cannot be allocated ends the function.\<close>

definition dup_into ::
  "('rb, 'w http_world) env \<Rightarrow> string \<Rightarrow> (string \<Rightarrow> ('rb, 'w http_world) host \<Rightarrow> int \<times> ('rb, 'w http_world) host) \<Rightarrow>
   ('rb, 'w http_world) host \<Rightarrow> int \<times> ('rb, 'w http_world) host" where
  "dup_into E s f h = (case wcall (e_malloc E (length s + 1)) h of (ok, h) \<Rightarrow> if \<not> ok then (- ENOMEM, h) else f s h)"

definition http_parse_url_components ::
  "('rb, 'w http_world) env \<Rightarrow> 'w http_world http_env \<Rightarrow> bytes \<Rightarrow> nat \<Rightarrow> ('rb, 'w http_world) host \<Rightarrow>
   int \<times> ('rb, 'w http_world) host" where
  "http_parse_url_components E H url k h =
     (case hc_parse_url H url of
        None \<Rightarrow> (- EINVAL, h)
      | Some u \<Rightarrow>
          (case uf_host u of
             None \<Rightarrow> (- EINVAL, h)
           | Some (off, host_len) \<Rightarrow>
               (if HTTP_HOST_MAX_LEN \<le> host_len then (- EINVAL, h)
                else dup_into E (strndup url off host_len) (\<lambda>s h.
                  let h = upd_req k (\<lambda>r. r\<lparr>rq_hostname := Some s, rq_port := url_port u url\<rparr>) h
                  in case uf_path u of
                       Some (off, path_len) \<Rightarrow>
                         (let query_len = (case uf_query u of Some (_, n) \<Rightarrow> 1 + n | None \<Rightarrow> 0);
                              total_len = path_len + query_len
                          in if HTTP_PATH_MAX_LEN \<le> total_len then (- EINVAL, h)
                             else dup_into E (strndup url off total_len) (\<lambda>s h. (0, upd_req k (\<lambda>r. r\<lparr>rq_path := Some s\<rparr>) h)) h)
                     | None \<Rightarrow> dup_into E ''/'' (\<lambda>s h. (0, upd_req k (\<lambda>r. r\<lparr>rq_path := Some s\<rparr>) h)) h) h)))"

text \<open>\<open>snprintf(buf + len, buf_len - len, ...)\<close> behind \<open>len\<close> characters: the length the text would have, and
  the contents of the buffer. When \<open>len\<close> is past the end the size wraps and the call writes outside.\<close>

definition snprintf_at :: "nat \<Rightarrow> string \<Rightarrow> (nat \<times> string) option \<Rightarrow> (nat \<times> string) option" where
  "snprintf_at buf_len s acc =
     (case acc of
        None \<Rightarrow> None
      | Some (len, buf) \<Rightarrow>
          if buf_len < len then None else Some (len + length s, take len buf @ take (buf_len - len - 1) s))"

definition http_build_request :: "http_request \<Rightarrow> nat \<Rightarrow> (nat \<times> string) option" where
  "http_build_request r buf_len =
     (let acc = snprintf_at buf_len (http_method_str (rq_method r) @ '' '' @ the (rq_path r) @ HTTP_VERSION_LINE @
                  ''Host: '' @ the (rq_hostname r) @ CRLF_STR @ HTTP_HDR_USER_AGENT @ HTTP_HDR_ACCEPT) (Some (0, []));
          acc = (if 0 < rq_request_body_len r
                 then snprintf_at buf_len (''Content-Length: '' @ show_int (rq_request_body_len r) @ CRLF_STR) acc else acc);
          acc = (case rq_extra_headers r of Some t \<Rightarrow> snprintf_at buf_len t acc | None \<Rightarrow> acc)
      in snprintf_at buf_len CRLF_STR acc)"

definition http_headers_size :: "http_request \<Rightarrow> nat" where
  "http_headers_size r =
     length (http_method_str (rq_method r)) + 1 +
     length (the (rq_path r)) + length HTTP_VERSION_LINE +
     length ''Host: '' + length (the (rq_hostname r)) + length CRLF_STR +
     length HTTP_HDR_USER_AGENT +
     length HTTP_HDR_ACCEPT +
     (if 0 < rq_request_body_len r then length (''Content-Length: 2147483647'' @ CRLF_STR) else 0) +
     (case rq_extra_headers r of Some t \<Rightarrow> length t | None \<Rightarrow> 0) +
     length CRLF_STR + 1"

text \<open>The bytes that were built, or the error. Sending more bytes than the buffer holds would read behind
  it.\<close>

definition http_alloc_build_headers ::
  "('rb, 'w http_world) env \<Rightarrow> nat \<Rightarrow> ('rb, 'w http_world) host \<Rightarrow> (int + bytes) \<times> ('rb, 'w http_world) host" where
  "http_alloc_build_headers E k h =
     (let send_buf_size = http_headers_size (req k h)
      in case wcall (e_malloc E send_buf_size) h of (ok, h) \<Rightarrow>
        if \<not> ok then (Inl (- ENOMEM), h)
        else
          let h = upd_req k (\<lambda>r. r\<lparr>rq_send_buf := True\<rparr>) h
          in case http_build_request (req k h) send_buf_size of
               None \<Rightarrow> (Inr [], fault h)
             | Some (len, buf) \<Rightarrow> (Inr buf, if length buf = len then h else fault h))"

section \<open>Starting and closing\<close>

definition http_start_request ::
  "('rb, 'w http_world) env \<Rightarrow> ('rb, 'w http_world) sock_env \<Rightarrow> 'w http_world http_env \<Rightarrow> nat \<Rightarrow>
   ('rb, 'w http_world) host \<Rightarrow> int \<times> ('rb, 'w http_world) host" where
  "http_start_request E S H k h =
     (case http_alloc_build_headers E k h of
        (Inl ret, h) \<Rightarrow> (ret, h)
      | (Inr buf, h) \<Rightarrow>
          (let h = upd_req k (\<lambda>r. r\<lparr>rq_send_rest := buf, rq_state := HTTP_STATE_SENDING_REQUEST\<rparr>) h;
               h = touch H k h
           in case find_socket (rq_fd (req k h)) h of
                None \<Rightarrow> (- EINVAL, h)
              | Some sock' \<Rightarrow>
                  (case set_xapoll_events E S (Some sock') (ZSOCK_POLLOUT OR ZSOCK_POLLIN) h of (ret, h) \<Rightarrow>
                     if ret \<noteq> 0 then (ret, h) else (0, http_timeout_monitor_arm h))))"

definition http_close_request ::
  "('rb, 'w http_world) env \<Rightarrow> nat \<Rightarrow> ('rb, 'w http_world) host \<Rightarrow> ('rb, 'w http_world) host" where
  "http_close_request E k h =
     (let fd = rq_fd (req k h);
          h = (if 0 \<le> fd then
                 (case find_socket fd h of Some sock' \<Rightarrow> xapoll_stop E (Some sock') h | None \<Rightarrow> h)
               else h);
          h = upd_http (\<lambda>s. s\<lparr>hs_datamode_req := (if hs_datamode_req s = Some k then None else hs_datamode_req s)\<rparr>) h
      in upd_http (set_slot k None) h)"

section \<open>Notifications\<close>

definition stat_line :: "int \<Rightarrow> int \<Rightarrow> int \<Rightarrow> bool \<Rightarrow> string" where
  "stat_line fd status n close =
     CRLF_STR @ ''#XHTTPCSTAT: '' @ show_int fd @ '','' @ show_int status @ '','' @ show_int n @ '','' @
     (if close then ''1'' else ''0'') @ CRLF_STR"

definition http_send_error ::
  "('rb, 'w http_world) env \<Rightarrow> nat \<Rightarrow> ('rb, 'w http_world) host \<Rightarrow> ('rb, 'w http_world) host" where
  "http_send_error E k h =
     (let r = req k h in urc_send_to E (rq_pipe r) (stat_line (rq_fd r) (- 1) (rq_total_received r) (rq_connection_close r)) h)"

definition http_send_status ::
  "('rb, 'w http_world) env \<Rightarrow> nat \<Rightarrow> ('rb, 'w http_world) host \<Rightarrow> ('rb, 'w http_world) host" where
  "http_send_status E k h =
     (let r = req k h
      in urc_send_to E (rq_pipe r) (stat_line (rq_fd r) (rq_status_code r) (rq_total_received r) (rq_connection_close r)) h)"

definition http_send_cancel_status ::
  "('rb, 'w http_world) env \<Rightarrow> nat \<Rightarrow> ('rb, 'w http_world) host \<Rightarrow> ('rb, 'w http_world) host" where
  "http_send_cancel_status E k h =
     (let r = req k h in urc_send_to E (rq_pipe r) (stat_line (rq_fd r) (- 1) (rq_bytes_sent r) (rq_connection_close r)) h)"

definition http_fail_request ::
  "('rb, 'w http_world) env \<Rightarrow> nat \<Rightarrow> ('rb, 'w http_world) host \<Rightarrow> ('rb, 'w http_world) host" where
  "http_fail_request E k h = http_close_request E k (http_send_error E k h)"

definition http_finish_request ::
  "('rb, 'w http_world) env \<Rightarrow> nat \<Rightarrow> ('rb, 'w http_world) host \<Rightarrow> ('rb, 'w http_world) host" where
  "http_finish_request E k h = http_close_request E k (http_send_status E k h)"

definition http_send_headers_complete ::
  "('rb, 'w http_world) env \<Rightarrow> nat \<Rightarrow> ('rb, 'w http_world) host \<Rightarrow> ('rb, 'w http_world) host" where
  "http_send_headers_complete E k h =
     (let r = req k h
      in urc_send_to E (rq_pipe r) (CRLF_STR @ ''#XHTTPCHEAD: '' @ show_int (rq_fd r) @ '','' @ show_int (rq_status_code r) @ '','' @
           show_int (rq_content_length r) @ CRLF_STR) h)"

section \<open>The idle timeout\<close>

definition timeout_scan ::
  "('rb, 'w http_world) env \<Rightarrow> 'w http_world http_env \<Rightarrow> nat \<Rightarrow> ('rb, 'w http_world) host \<Rightarrow> ('rb, 'w http_world) host" where
  "timeout_scan E H k h =
     (if \<not> active (slot k h) then h
      else if rq_state (req k h) = HTTP_STATE_SENDING_BODY then h
      else if rq_timeout_timestamp (req k h) < now H h then http_fail_request E k h
      else h)"

definition http_timeout_work_fn ::
  "('rb, 'w http_world) env \<Rightarrow> 'w http_world http_env \<Rightarrow> ('rb, 'w http_world) host \<Rightarrow> ('rb, 'w http_world) host" where
  "http_timeout_work_fn E H h =
     (let h = upd_http (\<lambda>s. s\<lparr>hs_timeout_armed := False\<rparr>) h;
          h = fold (timeout_scan E H) [0..<HTTP_MAX_REQUESTS] h
      in if http_any_active_request_unlocked h then http_timeout_monitor_arm h else h)"

section \<open>Data for the host\<close>

function http_data_send_hex ::
  "('rb, 'w) env \<Rightarrow> ('rb, 'w) sock_env \<Rightarrow> pipe option \<Rightarrow> bytes \<Rightarrow> ('rb, 'w) host \<Rightarrow> ('rb, 'w) host" where
  "http_data_send_hex E S pipe buf h =
     (if buf = [] then h
      else
        let n = min 128 (length buf)
        in http_data_send_hex E S pipe (drop n buf) (data_send E pipe (s_bin2hex S (take n buf) 257) h))"
  by pat_completeness auto
termination
  by (relation "measure (\<lambda>(E, S, pipe, buf, h). length buf)") auto

declare http_data_send_hex.simps [simp del]

definition send_body ::
  "('rb, 'w http_world) env \<Rightarrow> ('rb, 'w http_world) sock_env \<Rightarrow> nat \<Rightarrow> bytes \<Rightarrow> ('rb, 'w http_world) host \<Rightarrow>
   ('rb, 'w http_world) host" where
  "send_body E S k data h =
     (if rq_hex_rx (req k h) then http_data_send_hex E S (rq_pipe (req k h)) data h else data_send E (rq_pipe (req k h)) data h)"

definition data_line :: "int \<Rightarrow> int \<Rightarrow> nat \<Rightarrow> string" where
  "data_line fd off len =
     CRLF_STR @ ''#XHTTPCDATA: '' @ show_int fd @ '','' @ show_int off @ '','' @ show_nat len @ CRLF_STR"

definition http_send_data ::
  "('rb, 'w http_world) env \<Rightarrow> ('rb, 'w http_world) sock_env \<Rightarrow> nat \<Rightarrow> bytes \<Rightarrow> ('rb, 'w http_world) host \<Rightarrow>
   ('rb, 'w http_world) host" where
  "http_send_data E S k data h =
     (if data = [] then h
      else
        let pipe = rq_pipe (req k h);
            h = sm_at_host_lock_pipe E pipe h;
            h = rsp_send_to E pipe (data_line (rq_fd (req k h)) (rq_bytes_sent (req k h)) (length data)) h;
            h = upd_req k (\<lambda>r. r\<lparr>rq_bytes_sent := rq_bytes_sent r + int (length data)\<rparr>) h;
            h = send_body E S k data h;
            h = rsp_send_to E pipe CRLF_STR h
        in sm_at_host_cmd_done_pipe E pipe h)"

end
