(* ===== verification/Http_Client.thy ===== *)
theory Http_Client
  imports Http_State
begin

unbundle bit_operations_syntax

text \<open>
  The HTTP client (\<open>app/src/sm_at_httpc.c\<close>): parsing of the response, the state machine that the events
  of the socket drive, the handler of data mode that streams the body of a request, and the AT commands.
\<close>

abbreviation (input) ETIMEDOUT :: int where "ETIMEDOUT \<equiv> 116"

section \<open>Parsing\<close>

definition chunked_end :: bytes where "chunked_end = ''0'' @ CRLF_STR @ CRLF_STR"

definition chunked_eof :: "bytes \<Rightarrow> bool" where
  "chunked_eof data \<longleftrightarrow> 5 \<le> length data \<and> drop (length data - 5) data = chunked_end"

definition status_fmt :: "scan_dir list" where
  "status_fmt = slits ''HTTP/1.'' @ [SDec False, SSpace, SDec True]"

text \<open>The functions that parse get the text as a C string and the position of the end of the headers in
  it. A value is returned when it was parsed.\<close>

definition parse_http_status_code :: "string \<Rightarrow> int + int" where
  "parse_http_status_code buf =
     (case strstr_pos buf ''HTTP/1.'' of
        None \<Rightarrow> Inl (- ENOENT)
      | Some i \<Rightarrow> (case c_sscanf (drop i buf) status_fmt of (ret, vs) \<Rightarrow>
          (case vs of [VInt v] \<Rightarrow> if ret = 1 then Inr v else Inl (- EINVAL) | _ \<Rightarrow> Inl (- EINVAL))))"

text \<open>The position of a field name, in the spelling of the standard or in lower case.\<close>

definition find_either :: "string \<Rightarrow> string \<Rightarrow> string \<Rightarrow> nat option" where
  "find_either buf name lower = (case strstr_pos buf name of None \<Rightarrow> strstr_pos buf lower | Some i \<Rightarrow> Some i)"

definition parse_connection_close :: "string \<Rightarrow> nat \<Rightarrow> bool" where
  "parse_connection_close buf header_end =
     (case find_either buf ''Connection: close'' ''connection: close'' of None \<Rightarrow> False | Some p \<Rightarrow> p < header_end)"

definition parse_content_length :: "string \<Rightarrow> nat \<Rightarrow> int + int" where
  "parse_content_length buf header_end =
     (case find_either buf ''Content-Length:'' ''content-length:'' of
        None \<Rightarrow> Inl (- ENOENT)
      | Some p \<Rightarrow>
          (if header_end \<le> p then Inl (- ENOENT)
           else case c_sscanf (dropWhile (\<lambda>c. c = CHR '' '') (drop (p + 15) buf)) [SDec True] of (ret, vs) \<Rightarrow>
             (case vs of [VInt v] \<Rightarrow> if ret = 1 then Inr v else Inl (- EINVAL) | _ \<Rightarrow> Inl (- EINVAL))))"

section \<open>Reception\<close>

text \<open>What the headers say, stored in the request.\<close>

definition take_headers :: "string \<Rightarrow> nat \<Rightarrow> http_request \<Rightarrow> http_request" where
  "take_headers buf header_end r =
     (let r = (case parse_http_status_code buf of Inr v \<Rightarrow> r\<lparr>rq_status_code := v\<rparr> | Inl _ \<Rightarrow> r);
          r = (case parse_content_length buf header_end of Inr v \<Rightarrow> r\<lparr>rq_content_length := v\<rparr> | Inl _ \<Rightarrow> r)
      in r\<lparr>rq_connection_close := parse_connection_close buf header_end, rq_headers_complete := True,
           rq_state := HTTP_STATE_RECEIVING_BODY, rq_total_received := rq_total_received r - int (header_end + 4)\<rparr>)"

definition http_headers_complete ::
  "('rb, 'w http_world) env \<Rightarrow> ('rb, 'w http_world) sock_env \<Rightarrow> nat \<Rightarrow> nat \<Rightarrow> nat \<Rightarrow> bool \<Rightarrow> ('rb, 'w http_world) host \<Rightarrow>
   bool \<times> ('rb, 'w http_world) host" where
  "http_headers_complete E S k header_end sock' hup h =
     (let recv_buf = rq_recv_buf (req k h);
          body = drop (header_end + 4) recv_buf;
          h = upd_req k (take_headers (cstr recv_buf) header_end) h;
          h = http_send_headers_complete E k h;
          status = rq_status_code (req k h)
      in if rq_method (req k h) = HTTP_HEAD then (True, http_finish_request E k h)
         else if 100 \<le> status \<and> status \<le> 199 \<or> status = 204 \<or> status = 304 then (True, http_finish_request E k h)
         else if rq_manual_mode (req k h) then
           (True, xapoll_stop E (Some sock') (upd_req k (\<lambda>r. r\<lparr>rq_recv_buf := body\<rparr>) h))
         else
           let h = http_send_data E S k body h;
               h = upd_req k (\<lambda>r. r\<lparr>rq_recv_buf := []\<rparr>) h;
               content_length = rq_content_length (req k h)
           in if hup then (True, http_finish_request E k h)
              else if 0 \<le> content_length \<and> content_length \<le> rq_bytes_sent (req k h) \<or> content_length < 0 \<and> chunked_eof body
              then (True, http_finish_request E k h)
              else (False, h))"

definition http_recv_read ::
  "('rb, 'w http_world) env \<Rightarrow> ('rb, 'w http_world) sock_env \<Rightarrow> 'w http_world http_env \<Rightarrow> nat \<Rightarrow> nat \<Rightarrow>
   ('rb, 'w http_world) host \<Rightarrow> int \<times> ('rb, 'w http_world) host" where
  "http_recv_read E S H k sock' h =
     (case wcall (s_recv S (rq_fd (req k h)) (HTTP_RECV_BUF_SIZE - length (rq_recv_buf (req k h)) - 1) (s_msg_dontwait S)) h of
        ((ret, data), h) \<Rightarrow>
          if ret < 0 then
            (let errno = sock_errno S h
             in if errno = EAGAIN then (- 1, snd (set_xapoll_events E S (Some sock') ZSOCK_POLLIN h))
                else if errno = ETIMEDOUT then (- ETIMEDOUT, h)
                else (- errno, h))
          else if ret = 0 then (0, h)
          else
            let h = upd_req k (\<lambda>r. r\<lparr>rq_recv_buf := rq_recv_buf r @ take (nat ret) data, rq_total_received := rq_total_received r + ret\<rparr>) h
            in (ret, touch H k h))"

definition set_rearm :: "bool \<Rightarrow> nat \<Rightarrow> ('rb, 'w http_world) host \<Rightarrow> ('rb, 'w http_world) host" where
  "set_rearm b k h = upd_req k (\<lambda>r. r\<lparr>rq_need_rearm_pollin := b\<rparr>) h"

definition http_process_recv_headers ::
  "('rb, 'w http_world) env \<Rightarrow> ('rb, 'w http_world) sock_env \<Rightarrow> nat \<Rightarrow> nat \<Rightarrow> 8 word \<Rightarrow> ('rb, 'w http_world) host \<Rightarrow>
   ('rb, 'w http_world) host" where
  "http_process_recv_headers E S k sock' events h =
     (case strstr_pos (cstr (rq_recv_buf (req k h))) (CRLF_STR @ CRLF_STR) of
        Some header_end \<Rightarrow>
          (case http_headers_complete E S k header_end sock' (events AND ZSOCK_POLLHUP \<noteq> 0) h of (done, h) \<Rightarrow>
             if done then h else set_rearm True k h)
      | None \<Rightarrow>
          (if HTTP_RECV_BUF_SIZE - 1 \<le> length (rq_recv_buf (req k h)) then http_fail_request E k h
           else set_rearm True k h))"

definition http_process_recv_body ::
  "('rb, 'w http_world) env \<Rightarrow> ('rb, 'w http_world) sock_env \<Rightarrow> nat \<Rightarrow> nat \<Rightarrow> 8 word \<Rightarrow> ('rb, 'w http_world) host \<Rightarrow>
   ('rb, 'w http_world) host" where
  "http_process_recv_body E S k sock' events h =
     (if rq_manual_mode (req k h) then xapoll_stop E (Some sock') h
      else
        let body_done = chunked_eof (rq_recv_buf (req k h));
            h = http_send_data E S k (rq_recv_buf (req k h)) h;
            h = upd_req k (\<lambda>r. r\<lparr>rq_recv_buf := []\<rparr>) h
        in if body_done \<or> 0 < rq_content_length (req k h) \<and> rq_content_length (req k h) \<le> rq_bytes_sent (req k h) \<or>
              events AND ZSOCK_POLLHUP \<noteq> 0
           then http_finish_request E k h
           else set_rearm True k h)"

section \<open>The state machine\<close>

definition http_process_send ::
  "('rb, 'w http_world) env \<Rightarrow> ('rb, 'w http_world) sock_env \<Rightarrow> nat \<Rightarrow> nat \<Rightarrow> ('rb, 'w http_world) host \<Rightarrow>
   ('rb, 'w http_world) host" where
  "http_process_send E S k sock' h =
     (case wcall (s_send S (rq_fd (req k h)) (rq_send_rest (req k h)) (s_msg_dontwait S)) h of (ret, h) \<Rightarrow>
        if ret < 0 then
          (if sock_errno S h = EAGAIN then snd (set_xapoll_events E S (Some sock') (ZSOCK_POLLOUT OR ZSOCK_POLLIN) h)
           else http_fail_request E k h)
        else
          let h = upd_req k (\<lambda>r. r\<lparr>rq_send_rest := drop (nat ret) (rq_send_rest r)\<rparr>) h
          in if rq_send_rest (req k h) = []
             then snd (set_xapoll_events E S (Some sock') ZSOCK_POLLIN
                    (upd_req k (\<lambda>r. r\<lparr>rq_state := HTTP_STATE_RECEIVING_HEADERS, rq_recv_buf := []\<rparr>) h))
             else snd (set_xapoll_events E S (Some sock') (ZSOCK_POLLOUT OR ZSOCK_POLLIN) h))"

text \<open>The two states that receive: what happens when the connection was closed, and the function that
  processes what was read.\<close>

definition http_process_recv ::
  "('rb, 'w http_world) env \<Rightarrow> ('rb, 'w http_world) sock_env \<Rightarrow> 'w http_world http_env \<Rightarrow> nat \<Rightarrow> nat \<Rightarrow> 8 word \<Rightarrow>
   (('rb, 'w http_world) host \<Rightarrow> ('rb, 'w http_world) host) \<Rightarrow> (('rb, 'w http_world) host \<Rightarrow> ('rb, 'w http_world) host) \<Rightarrow>
   ('rb, 'w http_world) host \<Rightarrow> ('rb, 'w http_world) host" where
  "http_process_recv E S H k sock' events closed process h =
     (if events AND ZSOCK_POLLHUP \<noteq> 0 \<and> events AND ZSOCK_POLLIN = 0 then closed h
      else if events AND ZSOCK_POLLIN = 0 then h
      else case http_recv_read E S H k sock' h of (ret, h) \<Rightarrow>
        if ret < 0 then if ret \<noteq> - 1 then http_fail_request E k h else h
        else if ret = 0 then closed h
        else process h)"

definition http_process_request ::
  "('rb, 'w http_world) env \<Rightarrow> ('rb, 'w http_world) sock_env \<Rightarrow> 'w http_world http_env \<Rightarrow> nat \<Rightarrow> 8 word \<Rightarrow>
   ('rb, 'w http_world) host \<Rightarrow> ('rb, 'w http_world) host" where
  "http_process_request E S H k events h =
     (case find_socket (rq_fd (req k h)) h of
        None \<Rightarrow> http_fail_request E k h
      | Some sock' \<Rightarrow>
          (if events AND (ZSOCK_POLLERR OR ZSOCK_POLLNVAL) \<noteq> 0 then http_fail_request E k h
           else if events AND ZSOCK_POLLHUP \<noteq> 0 \<and> rq_state (req k h) = HTTP_STATE_SENDING_REQUEST then http_fail_request E k h
           else case rq_state (req k h) of
             HTTP_STATE_SENDING_REQUEST \<Rightarrow> if events AND ZSOCK_POLLOUT \<noteq> 0 then http_process_send E S k sock' h else h
           | HTTP_STATE_RECEIVING_HEADERS \<Rightarrow>
               http_process_recv E S H k sock' events (http_fail_request E k) (http_process_recv_headers E S k sock' events) h
           | HTTP_STATE_RECEIVING_BODY \<Rightarrow>
               http_process_recv E S H k sock' events (http_finish_request E k) (http_process_recv_body E S k sock' events) h
           | HTTP_STATE_IDLE \<Rightarrow> h
           | HTTP_STATE_SENDING_BODY \<Rightarrow> h))"

definition sm_at_httpc_poll_event ::
  "('rb, 'w http_world) env \<Rightarrow> ('rb, 'w http_world) sock_env \<Rightarrow> 'w http_world http_env \<Rightarrow> int \<Rightarrow> 8 word \<Rightarrow>
   ('rb, 'w http_world) host \<Rightarrow> bool \<times> ('rb, 'w http_world) host" where
  "sm_at_httpc_poll_event E S H fd events h =
     (case find_request fd h of
        None \<Rightarrow> (False, h)
      | Some k \<Rightarrow>
          (let h = http_process_request E S H k events (set_rearm False k h)
           in (case find_request fd h of None \<Rightarrow> False | Some k \<Rightarrow> rq_need_rearm_pollin (req k h), h)))"

definition sm_at_httpc_socket_closed ::
  "('rb, 'w http_world) env \<Rightarrow> int \<Rightarrow> ('rb, 'w http_world) host \<Rightarrow> ('rb, 'w http_world) host" where
  "sm_at_httpc_socket_closed E fd h =
     (case find_request fd h of
        None \<Rightarrow> h
      | Some k \<Rightarrow> http_close_request E k (http_send_cancel_status E k h))"

section \<open>The body of a request\<close>

text \<open>A loop that sends all data and calls \<open>f\<close> after each part that was sent; the error that ended it, if
  any. As in the loop of \<open>do_send\<close>, the length of the data is enough fuel.\<close>

fun stream_loop ::
  "('rb, 'w) sock_env \<Rightarrow> (('rb, 'w) host \<Rightarrow> ('rb, 'w) host) \<Rightarrow> int \<Rightarrow> nat \<Rightarrow> bytes \<Rightarrow> ('rb, 'w) host \<Rightarrow> int option \<times> ('rb, 'w) host" where
  "stream_loop S f fd fuel [] h = (None, h)"
| "stream_loop S f fd 0 (b # bs) h = (None, fault h)"
| "stream_loop S f fd (Suc fuel) (b # bs) h =
     (case wcall (s_send S fd (b # bs) 0) h of (ret, h) \<Rightarrow>
        if ret < 0 then (Some (- sock_errno S h), h)
        else stream_loop S f fd fuel (drop (nat ret) (b # bs)) (f h))"

definition http_send_request_headers ::
  "('rb, 'w http_world) env \<Rightarrow> ('rb, 'w http_world) sock_env \<Rightarrow> 'w http_world http_env \<Rightarrow> nat \<Rightarrow>
   ('rb, 'w http_world) host \<Rightarrow> int \<times> ('rb, 'w http_world) host" where
  "http_send_request_headers E S H k h =
     (case http_alloc_build_headers E k h of
        (Inl ret, h) \<Rightarrow> (ret, h)
      | (Inr buf, h) \<Rightarrow>
          (case stream_loop S (touch H k) (rq_fd (req k h)) (length buf) buf (touch H k h) of
             (Some err, h) \<Rightarrow> (err, h)
           | (None, h) \<Rightarrow>
               (0, http_timeout_monitor_arm (upd_req k (\<lambda>r. r\<lparr>rq_send_buf := False, rq_state := HTTP_STATE_SENDING_BODY\<rparr>) h))))"

definition set_datamode_req :: "nat option \<Rightarrow> ('rb, 'w http_world) host \<Rightarrow> ('rb, 'w http_world) host" where
  "set_datamode_req k h = upd_http (\<lambda>s. s\<lparr>hs_datamode_req := k\<rparr>) h"

definition http_datamode_send ::
  "('rb, 'w http_world) env \<Rightarrow> ('rb, 'w http_world) sock_env \<Rightarrow> 'w http_world http_env \<Rightarrow> bytes \<Rightarrow>
   ('rb, 'w http_world) host \<Rightarrow> int \<times> ('rb, 'w http_world) host" where
  "http_datamode_send E S H data h =
     (case hs_datamode_req (http h) of
        None \<Rightarrow> (- EINVAL, exit_datamode_handler E (sm_at_host_get_current E h) (- EINVAL) h)
      | Some k \<Rightarrow>
          (case stream_loop S (\<lambda>h. h) (rq_fd (req k h)) (length data) data h of
             (Some err, h) \<Rightarrow>
               (let h = set_datamode_req None h;
                    h = exit_datamode_handler E (sm_at_host_get_current E h) err h
                in (err, http_fail_request E k h))
           | (None, h) \<Rightarrow>
               (int (length data),
                if data \<noteq> [] then (case hs_datamode_req (http h) of Some k \<Rightarrow> touch H k h | None \<Rightarrow> h) else h)))"

definition http_datamode_exit ::
  "('rb, 'w http_world) env \<Rightarrow> ('rb, 'w http_world) sock_env \<Rightarrow> 'w http_world http_env \<Rightarrow> 8 word \<Rightarrow>
   ('rb, 'w http_world) host \<Rightarrow> int \<times> ('rb, 'w http_world) host" where
  "http_datamode_exit E S H flags h =
     (let handler_exit = (flags AND SM_DATAMODE_FLAGS_EXIT_HANDLER \<noteq> 0);
          h = (case hs_datamode_req (http h) of
                 None \<Rightarrow> h
               | Some k \<Rightarrow>
                   set_datamode_req None
                     (if handler_exit then http_fail_request E k (rsp_send E (cfg_datamode_terminator E) h)
                      else case find_socket (rq_fd (req k h)) h of
                        None \<Rightarrow> http_fail_request E k h
                      | Some sock' \<Rightarrow>
                          (let h = touch H k (upd_req k (\<lambda>r. r\<lparr>rq_state := HTTP_STATE_RECEIVING_HEADERS, rq_recv_buf := []\<rparr>) h)
                           in case set_xapoll_events E S (Some sock') ZSOCK_POLLIN h of (err, h) \<Rightarrow>
                             if err \<noteq> 0 then http_fail_request E k h else h)))
      in (0, if handler_exit then rsp_send E (cfg_datamode_terminator E) h else h))"

definition http_datamode_callback ::
  "('rb, 'w http_world) env \<Rightarrow> ('rb, 'w http_world) sock_env \<Rightarrow> 'w http_world http_env \<Rightarrow> sm_datamode_operation \<Rightarrow> bytes \<Rightarrow>
   8 word \<Rightarrow> ('rb, 'w http_world) host \<Rightarrow> int \<times> ('rb, 'w http_world) host" where
  "http_datamode_callback E S H op data flags h =
     (case op of
        DATAMODE_SEND \<Rightarrow> http_datamode_send E S H data h
      | DATAMODE_EXIT \<Rightarrow> http_datamode_exit E S H flags h)"

text \<open>The number that stands for the handler in a context.\<close>

abbreviation (input) HTTP_HANDLER :: nat where "HTTP_HANDLER \<equiv> 2"

end
