(* ===== verification/Http_Cmd.thy ===== *)
theory Http_Cmd
  imports Http_Client
begin

unbundle bit_operations_syntax

text \<open>
  The AT commands of the HTTP client (\<open>app/src/sm_at_httpc.c\<close>): starting a request, pulling a part of the
  body, and cancelling.
\<close>

section \<open>AT#XHTTPCREQ\<close>

text \<open>The parameters: URL, method, reception, format, length of the body, and the index of the first header
  line. A number may be missing; the parameter is then the next optional one.\<close>

record http_params =
  hp_url :: bytes
  hp_method :: sm_http_method
  hp_auto_reception :: bool
  hp_format :: bool
  hp_body_len :: int
  hp_next :: nat

definition method_of :: "int \<Rightarrow> sm_http_method option" where
  "method_of n = map_of [(0, HTTP_GET), (1, HTTP_POST), (2, HTTP_PUT), (3, HTTP_DELETE), (4, HTTP_HEAD)] n"

definition opt_num :: "'p at_parser_ops \<Rightarrow> 'p \<Rightarrow> nat \<Rightarrow> nat \<Rightarrow> int \<Rightarrow> int \<times> nat" where
  "opt_num P parser param_count i dflt =
     (if i < param_count then (case num_int P parser i of Inr v \<Rightarrow> (v, i + 1) | Inl _ \<Rightarrow> (dflt, i)) else (dflt, i))"

definition body_method :: "sm_http_method \<Rightarrow> bool" where
  "body_method m \<longleftrightarrow> m = HTTP_POST \<or> m = HTTP_PUT"

definition http_req_params :: "'p at_parser_ops \<Rightarrow> 'p \<Rightarrow> nat \<Rightarrow> int + http_params" where
  "http_req_params P parser param_count =
     (case ap_string_ptr_get P parser 2 of
        Inl err \<Rightarrow> Inl err
      | Inr url \<Rightarrow>
          (if url = [] \<or> HTTP_URL_MAX_LEN \<le> length url then Inl (- EINVAL)
           else case num_int P parser 3 of
             Inl err \<Rightarrow> Inl err
           | Inr m \<Rightarrow>
               (case method_of m of
                  None \<Rightarrow> Inl (- EINVAL)
                | Some method \<Rightarrow>
                    (case opt_num P parser param_count 4 1 of (auto_rx, i) \<Rightarrow>
                       if auto_rx \<noteq> 0 \<and> auto_rx \<noteq> 1 then Inl (- EINVAL)
                       else case opt_num P parser param_count i 0 of (format, i) \<Rightarrow>
                         if format \<noteq> 0 \<and> format \<noteq> 1 then Inl (- EINVAL)
                         else case opt_num P parser param_count i 0 of (body_len, i) \<Rightarrow>
                           if body_method method \<and> body_len < 0 \<or> \<not> body_method method \<and> body_len \<noteq> 0 then Inl (- EINVAL)
                           else Inr \<lparr>hp_url = url, hp_method = method, hp_auto_reception = (auto_rx \<noteq> 0),
                                     hp_format = (format \<noteq> 0), hp_body_len = body_len, hp_next = i\<rparr>))))"

definition header_params :: "'p at_parser_ops \<Rightarrow> 'p \<Rightarrow> nat \<Rightarrow> nat \<Rightarrow> bytes list" where
  "header_params P parser param_count i =
     concat (map (\<lambda>i. case ap_string_ptr_get P parser i of
                        Inl _ \<Rightarrow> []
                      | Inr t \<Rightarrow> if t = [] \<or> t ! 0 = NUL then [] else [t @ CRLF_STR]) [i..<Suc param_count])"

text \<open>The header lines of the command; the running total in the code exceeds the limit when the sum does.\<close>

definition http_extra_headers ::
  "('rb, 'w http_world) env \<Rightarrow> bytes list \<Rightarrow> nat \<Rightarrow> ('rb, 'w http_world) host \<Rightarrow> int \<times> ('rb, 'w http_world) host" where
  "http_extra_headers E ts k h =
     (let headers_total_len = length (concat ts)
      in if HTTP_EXTRA_HEADERS_SIZE < headers_total_len + 1 then (- ENOMEM, h)
         else if headers_total_len = 0 then (0, h)
         else case wcall (e_malloc E (headers_total_len + 1)) h of (ok, h) \<Rightarrow>
           if \<not> ok then (- ENOMEM, h)
           else (0, upd_req k (\<lambda>r. r\<lparr>rq_extra_headers := Some (cstr (concat ts))\<rparr>) h))"

definition http_req_line :: "int \<Rightarrow> string" where
  "http_req_line fd = CRLF_STR @ ''#XHTTPCREQ: '' @ show_int fd @ CRLF_STR"

text \<open>The request with a body: the headers are sent and data mode is entered.\<close>

definition http_begin_body ::
  "('rb, 'w http_world) env \<Rightarrow> ('rb, 'w http_world) sock_env \<Rightarrow> 'w http_world http_env \<Rightarrow> int \<Rightarrow> nat \<Rightarrow>
   ('rb, 'w http_world) host \<Rightarrow> int \<times> ('rb, 'w http_world) host" where
  "http_begin_body E S H body_len k h =
     (let h = upd_req k (\<lambda>r. r\<lparr>rq_request_body_len := body_len\<rparr>) h
      in case http_send_request_headers E S H k h of (err, h) \<Rightarrow>
        if err \<noteq> 0 then (err, http_close_request E k h)
        else
          let h = set_datamode_req (Some k) h;
              h = rsp_send E (http_req_line (rq_fd (req k h))) h
          in case enter_datamode E (Some HTTP_HANDLER) (nat body_len) h of (err, h) \<Rightarrow>
            if err \<noteq> 0 then (err, http_close_request E k (set_datamode_req None h)) else (0, h))"

text \<open>The request after its parameters were parsed. Every error closes it.\<close>

definition http_setup ::
  "('rb, 'w http_world) env \<Rightarrow> ('rb, 'w http_world) sock_env \<Rightarrow> 'w http_world http_env \<Rightarrow> int \<Rightarrow> http_params \<Rightarrow> bytes list \<Rightarrow> nat \<Rightarrow>
   ('rb, 'w http_world) host \<Rightarrow> int \<times> ('rb, 'w http_world) host" where
  "http_setup E S H socket_fd p ts k h =
     (let h = upd_req k (\<lambda>r. r\<lparr>rq_fd := socket_fd, rq_method := hp_method p\<rparr>) h
      in case http_extra_headers E ts k h of (err, h) \<Rightarrow>
        if err \<noteq> 0 then (err, http_close_request E k h)
        else
          let h = upd_req k (\<lambda>r. r\<lparr>rq_manual_mode := \<not> hp_auto_reception p, rq_hex_rx := hp_format p\<rparr>) h
          in case http_parse_url_components E H (hp_url p) k h of (err, h) \<Rightarrow>
            if err \<noteq> 0 then (err, http_close_request E k h)
            else if body_method (hp_method p) \<and> 0 < hp_body_len p then http_begin_body E S H (hp_body_len p) k h
            else case http_start_request E S H k h of (err, h) \<Rightarrow>
              if err \<noteq> 0 then (err, http_close_request E k h)
              else (0, rsp_send E (http_req_line (rq_fd (req k h))) h))"

definition handle_at_httpcreq ::
  "('rb, 'w http_world) env \<Rightarrow> ('rb, 'w http_world) sock_env \<Rightarrow> 'w http_world http_env \<Rightarrow> 'p at_parser_ops \<Rightarrow>
   at_parser_cmd_type \<Rightarrow> 'p \<Rightarrow> nat \<Rightarrow> ('rb, 'w http_world) host \<Rightarrow> int \<times> ('rb, 'w http_world) host" where
  "handle_at_httpcreq E S H P cmd_type parser param_count h =
     (case cmd_type of
        CMD_TYPE_SET \<Rightarrow>
          (if param_count < 4 then (- EINVAL, h)
           else param (num_int P parser 1) (\<lambda>socket_fd. with_socket socket_fd (\<lambda>sock' h.
             if find_request socket_fd h \<noteq> None then (- EBUSY, h)
             else case alloc_request E H h of
               (None, h) \<Rightarrow> (- ENOMEM, h)
             | (Some k, h) \<Rightarrow>
                 (case http_req_params P parser param_count of
                    Inl err \<Rightarrow> (err, http_close_request E k h)
                  | Inr p \<Rightarrow> http_setup E S H socket_fd p (header_params P parser param_count (hp_next p)) k h))) h)
      | CMD_TYPE_TEST \<Rightarrow>
          (0, rsp_send E (CRLF_STR @ ''#XHTTPCREQ: <handle>,<url>,<method>[,<auto_reception>[,<format>[,<body_len>[,<header>]...]]]'' @
                CRLF_STR) h)
      | CMD_TYPE_READ \<Rightarrow> (- EINVAL, h)
      | CMD_TYPE_UNKNOWN \<Rightarrow> (- EINVAL, h))"

section \<open>AT#XHTTPCDATA\<close>

text \<open>The end of a pull: \<open>sent\<close> are the bytes that were sent to the host.\<close>

definition pull_complete ::
  "('rb, 'w http_world) env \<Rightarrow> nat \<Rightarrow> bytes \<Rightarrow> ('rb, 'w http_world) host \<Rightarrow> int \<times> ('rb, 'w http_world) host" where
  "pull_complete E k sent h =
     (let r = req k h
      in if 0 < rq_content_length r \<and> rq_content_length r \<le> rq_bytes_sent r then (0, http_finish_request E k h)
         else if rq_content_length r < 0 \<and> rq_recv_buf r = [] \<and> sent \<noteq> [] \<and> chunked_eof sent then (0, http_finish_request E k h)
         else (0, h))"

definition pull_deliver ::
  "('rb, 'w http_world) env \<Rightarrow> ('rb, 'w http_world) sock_env \<Rightarrow> nat \<Rightarrow> bytes \<Rightarrow> ('rb, 'w http_world) host \<Rightarrow>
   ('rb, 'w http_world) host" where
  "pull_deliver E S k data h =
     (let h = rsp_send E (data_line (rq_fd (req k h)) (rq_bytes_sent (req k h)) (length data)) h;
          h = upd_req k (\<lambda>r. r\<lparr>rq_bytes_sent := rq_bytes_sent r + int (length data)\<rparr>) h
      in send_body E S k data h)"

definition pull_data ::
  "('rb, 'w http_world) env \<Rightarrow> ('rb, 'w http_world) sock_env \<Rightarrow> 'w http_world http_env \<Rightarrow> int \<Rightarrow> nat \<Rightarrow>
   ('rb, 'w http_world) host \<Rightarrow> int \<times> ('rb, 'w http_world) host" where
  "pull_data E S H socket_fd pull_len h =
     (case find_request socket_fd h of
        None \<Rightarrow> (- EINVAL, h)
      | Some k \<Rightarrow>
          (if \<not> rq_manual_mode (req k h) then (- EINVAL, h)
           else if \<not> rq_headers_complete (req k h) then (- EAGAIN, h)
           else if rq_recv_buf (req k h) \<noteq> [] then
             (let data = take pull_len (rq_recv_buf (req k h));
                  h = pull_deliver E S k data (touch H k h);
                  h = upd_req k (\<lambda>r. r\<lparr>rq_recv_buf := drop (length data) (rq_recv_buf r)\<rparr>) h
              in pull_complete E k data h)
           else case wcall (s_recv S (rq_fd (req k h)) pull_len (s_msg_dontwait S)) h of ((ret, data), h) \<Rightarrow>
             if ret < 0 then
               (if sock_errno S h = EAGAIN
                then (0, rsp_send E (data_line (rq_fd (req k h)) (rq_bytes_sent (req k h)) 0) h)
                else let h = http_fail_request E k h in (- sock_errno S h, h))
             else if ret = 0 then (0, http_finish_request E k h)
             else
               let data = take (nat ret) data;
                   h = touch H k (upd_req k (\<lambda>r. r\<lparr>rq_total_received := rq_total_received r + ret\<rparr>) h)
               in pull_complete E k data (pull_deliver E S k data h)))"

definition handle_at_httpcdata ::
  "('rb, 'w http_world) env \<Rightarrow> ('rb, 'w http_world) sock_env \<Rightarrow> 'w http_world http_env \<Rightarrow> 'p at_parser_ops \<Rightarrow>
   at_parser_cmd_type \<Rightarrow> 'p \<Rightarrow> nat \<Rightarrow> ('rb, 'w http_world) host \<Rightarrow> int \<times> ('rb, 'w http_world) host" where
  "handle_at_httpcdata E S H P cmd_type parser param_count h =
     (case cmd_type of
        CMD_TYPE_SET \<Rightarrow>
          (if param_count < 2 then (- EINVAL, h)
           else param (num_int P parser 1) (\<lambda>socket_fd h.
             let pull_len = (if 3 \<le> param_count then
                               (case num_int P parser 2 of
                                  Inr tmp \<Rightarrow> if 0 < tmp then min (nat tmp) (HTTP_RECV_BUF_SIZE - 1) else HTTP_RECV_BUF_SIZE - 1
                                | Inl _ \<Rightarrow> HTTP_RECV_BUF_SIZE - 1)
                             else HTTP_RECV_BUF_SIZE - 1)
             in pull_data E S H socket_fd pull_len h) h)
      | CMD_TYPE_TEST \<Rightarrow> (0, rsp_send E (CRLF_STR @ ''#XHTTPCDATA: <handle>[,<length>]'' @ CRLF_STR) h)
      | CMD_TYPE_READ \<Rightarrow> (- EINVAL, h)
      | CMD_TYPE_UNKNOWN \<Rightarrow> (- EINVAL, h))"

section \<open>AT#XHTTPCCANCEL\<close>

definition handle_at_httpccancel ::
  "('rb, 'w http_world) env \<Rightarrow> 'p at_parser_ops \<Rightarrow> at_parser_cmd_type \<Rightarrow> 'p \<Rightarrow> ('rb, 'w http_world) host \<Rightarrow>
   int \<times> ('rb, 'w http_world) host" where
  "handle_at_httpccancel E P cmd_type parser h =
     (case cmd_type of
        CMD_TYPE_SET \<Rightarrow>
          param (num_int P parser 1) (\<lambda>socket_fd h.
            case find_request socket_fd h of
              Some k \<Rightarrow> (0, http_close_request E k (http_send_cancel_status E k h))
            | None \<Rightarrow> (- EINVAL, h)) h
      | CMD_TYPE_TEST \<Rightarrow> (0, rsp_send E (CRLF_STR @ ''#XHTTPCCANCEL: <handle>'' @ CRLF_STR) h)
      | CMD_TYPE_READ \<Rightarrow> (- EINVAL, h)
      | CMD_TYPE_UNKNOWN \<Rightarrow> (- EINVAL, h))"

section \<open>The module\<close>

datatype http_cmd = XHTTPCREQ | XHTTPCDATA | XHTTPCCANCEL

definition http_command ::
  "('rb, 'w http_world) env \<Rightarrow> ('rb, 'w http_world) sock_env \<Rightarrow> 'w http_world http_env \<Rightarrow> 'p at_parser_ops \<Rightarrow> http_cmd \<Rightarrow>
   at_parser_cmd_type \<Rightarrow> 'p \<Rightarrow> nat \<Rightarrow> ('rb, 'w http_world) host \<Rightarrow> int \<times> ('rb, 'w http_world) host" where
  "http_command E S H P c cmd_type parser param_count =
     (case c of
        XHTTPCREQ \<Rightarrow> handle_at_httpcreq E S H P cmd_type parser param_count
      | XHTTPCDATA \<Rightarrow> handle_at_httpcdata E S H P cmd_type parser param_count
      | XHTTPCCANCEL \<Rightarrow> handle_at_httpccancel E P cmd_type parser)"

text \<open>The handler of data mode on a host, with two levels of calls as for the sockets, and the client as the
  hooks of the sockets module.\<close>

definition http_handler ::
  "('rb, 'w http_world) sock_env \<Rightarrow> 'w http_world http_env \<Rightarrow> ('rb, 'w http_world) env \<Rightarrow> ('rb, 'w http_world) env" where
  "http_handler S H E = E\<lparr>e_datamode_handler := (\<lambda>cb op d fl.
     if cb = HTTP_HANDLER then http_datamode_callback E S H op d fl else e_datamode_handler E cb op d fl)\<rparr>"

definition http_hooks ::
  "('rb, 'w http_world) env \<Rightarrow> 'w http_world http_env \<Rightarrow> ('rb, 'w http_world) sock_env \<Rightarrow> ('rb, 'w http_world) sock_env" where
  "http_hooks E H S = S\<lparr>cfg_httpc := True, s_httpc_poll_event := sm_at_httpc_poll_event E S H,
     s_httpc_socket_closed := sm_at_httpc_socket_closed E\<rparr>"

text \<open>\<open>G\<close> is the filter of the modem library for the commands of this module.\<close>

definition http_at_cmd ::
  "('rb, 'w http_world) sock_env \<Rightarrow> 'w http_world http_env \<Rightarrow> 'p at_parser_ops \<Rightarrow> (string \<Rightarrow> http_cmd option) \<Rightarrow>
   ('rb, 'w http_world) env \<Rightarrow> nat \<Rightarrow> string \<Rightarrow> ('rb, 'w http_world) host \<Rightarrow> (int \<times> bytes) \<times> ('rb, 'w http_world) host" where
  "http_at_cmd S H P G E len at_cmd h =
     (case G at_cmd of
        None \<Rightarrow> e_at_cmd E len at_cmd h
      | Some c \<Rightarrow>
          (case sm_at_cb_wrapper P len at_cmd (http_command E S H P c) h of
             ((err, rsp), h) \<Rightarrow> ((err, case rsp of None \<Rightarrow> [] | Some text \<Rightarrow> text @ [NUL]), h)))"

definition with_http ::
  "('rb, 'w http_world) sock_env \<Rightarrow> 'w http_world http_env \<Rightarrow> 'p at_parser_ops \<Rightarrow> (string \<Rightarrow> http_cmd option) \<Rightarrow>
   ('rb, 'w http_world) env \<Rightarrow> ('rb, 'w http_world) env" where
  "with_http S H P G B = (let E = http_handler S H (http_handler S H B) in E\<lparr>e_at_cmd := http_at_cmd S H P G E\<rparr>)"

end
