(* ===== verification/Http_Inv.thy ===== *)
theory Http_Inv
  imports Http_Cmd
begin

unbundle bit_operations_syntax

text \<open>
  The invariant of the table of requests. What the client does to the table is an update of one entry or
  its removal; every other call leaves the static variables of the module alone.
\<close>

section \<open>The invariant\<close>

text \<open>A request: the buffer is within its bounds, nothing was received before the headers are awaited, the
  buffer holds what was received while the headers are incomplete, and afterwards the bytes received are
  the ones passed on and the ones in the buffer, which holds some in manual mode only.\<close>

definition header_pos :: "bytes \<Rightarrow> nat option" where
  "header_pos buf = strstr_pos (cstr buf) (CRLF_STR @ CRLF_STR)"

definition req_ok :: "http_request \<Rightarrow> bool" where
  "req_ok r \<longleftrightarrow> length (rq_recv_buf r) < HTTP_RECV_BUF_SIZE \<and>
     (case rq_state r of
        HTTP_STATE_IDLE \<Rightarrow> False
      | HTTP_STATE_SENDING_REQUEST \<Rightarrow> \<not> rq_headers_complete r \<and> rq_total_received r = 0 \<and> rq_bytes_sent r = 0
      | HTTP_STATE_SENDING_BODY \<Rightarrow> \<not> rq_headers_complete r \<and> rq_total_received r = 0 \<and> rq_bytes_sent r = 0
      | HTTP_STATE_RECEIVING_HEADERS \<Rightarrow> \<not> rq_headers_complete r \<and> rq_total_received r = int (length (rq_recv_buf r)) \<and>
          rq_bytes_sent r = 0 \<and> header_pos (rq_recv_buf r) = None
      | HTTP_STATE_RECEIVING_BODY \<Rightarrow> rq_headers_complete r \<and> 0 \<le> rq_bytes_sent r \<and>
          rq_total_received r = rq_bytes_sent r + int (length (rq_recv_buf r)) \<and> (\<not> rq_manual_mode r \<longrightarrow> rq_recv_buf r = []))"

text \<open>The table but for the entries of a set: valid requests on different sockets; data mode belongs to a
  request that sends its body; and the timer of the idle timeout runs while there are requests.\<close>

definition http_inv_but :: "nat set \<Rightarrow> http_vars \<Rightarrow> bool" where
  "http_inv_but K s \<longleftrightarrow>
     length (hs_requests s) = HTTP_MAX_REQUESTS \<and>
     (\<forall>k < HTTP_MAX_REQUESTS. \<forall>r. k \<notin> K \<longrightarrow> hs_requests s ! k = Some r \<longrightarrow> req_ok r \<and> hs_timeout_armed s) \<and>
     (\<forall>j < HTTP_MAX_REQUESTS. \<forall>k < HTTP_MAX_REQUESTS. \<forall>q r. j \<notin> K \<longrightarrow> k \<notin> K \<longrightarrow> j \<noteq> k \<longrightarrow>
        hs_requests s ! j = Some q \<longrightarrow> hs_requests s ! k = Some r \<longrightarrow> rq_fd q \<noteq> rq_fd r) \<and>
     (\<forall>k. k \<notin> K \<longrightarrow> hs_datamode_req s = Some k \<longrightarrow> k < HTTP_MAX_REQUESTS \<and>
        (\<exists>r. hs_requests s ! k = Some r \<and> rq_state r = HTTP_STATE_SENDING_BODY))"

abbreviation http_inv :: "http_vars \<Rightarrow> bool" where "http_inv \<equiv> http_inv_but {}"

section \<open>Updates of the table\<close>

definition upd_slot :: "nat \<Rightarrow> (http_request \<Rightarrow> http_request) \<Rightarrow> http_vars \<Rightarrow> http_vars" where
  "upd_slot k f s = set_slot k (map_option f (hs_requests s ! k)) s"

definition close_slot :: "nat \<Rightarrow> http_vars \<Rightarrow> http_vars" where
  "close_slot k s = set_slot k None (s\<lparr>hs_datamode_req := (if hs_datamode_req s = Some k then None else hs_datamode_req s)\<rparr>)"

lemma set_slot_sel [simp]:
  "length (hs_requests (set_slot k r s)) = length (hs_requests s)" "hs_datamode_req (set_slot k r s) = hs_datamode_req s"
  "hs_timeout_armed (set_slot k r s) = hs_timeout_armed s"
  "j \<noteq> k \<Longrightarrow> hs_requests (set_slot k r s) ! j = hs_requests s ! j"
  "k < length (hs_requests s) \<Longrightarrow> hs_requests (set_slot k r s) ! k = r"
  by (simp_all add: set_slot_def)

lemma set_slot_twice [simp]: "set_slot k r (set_slot k q s) = set_slot k r s"
  by (simp add: set_slot_def)

lemma upd_slot_sel [simp]:
  "length (hs_requests (upd_slot k f s)) = length (hs_requests s)" "hs_datamode_req (upd_slot k f s) = hs_datamode_req s"
  "hs_timeout_armed (upd_slot k f s) = hs_timeout_armed s" "j \<noteq> k \<Longrightarrow> hs_requests (upd_slot k f s) ! j = hs_requests s ! j"
  "k < length (hs_requests s) \<Longrightarrow> hs_requests (upd_slot k f s) ! k = map_option f (hs_requests s ! k)"
  by (simp_all add: upd_slot_def)

lemma upd_slot_twice [simp]: "upd_slot k f (upd_slot k g s) = upd_slot k (\<lambda>r. f (g r)) s"
  by (cases "k < length (hs_requests s)") (simp_all add: upd_slot_def set_slot_def option.map_comp o_def list_update_beyond)

lemma close_slot_sel [simp]:
  "length (hs_requests (close_slot k s)) = length (hs_requests s)" "hs_timeout_armed (close_slot k s) = hs_timeout_armed s"
  "j \<noteq> k \<Longrightarrow> hs_requests (close_slot k s) ! j = hs_requests s ! j"
  "k < length (hs_requests s) \<Longrightarrow> hs_requests (close_slot k s) ! k = None"
  "hs_datamode_req (close_slot k s) = (if hs_datamode_req s = Some k then None else hs_datamode_req s)"
  by (simp_all add: close_slot_def set_slot_def)

lemma close_after_upd [simp]: "close_slot k (upd_slot k f s) = close_slot k s"
  by (simp add: close_slot_def upd_slot_def set_slot_def)

lemma http_inv_length [simp]: "http_inv_but K s \<Longrightarrow> length (hs_requests s) = HTTP_MAX_REQUESTS"
  unfolding http_inv_but_def by (elim conjE) assumption

lemma http_inv_slot:
  "http_inv_but K s \<Longrightarrow> k < HTTP_MAX_REQUESTS \<Longrightarrow> k \<notin> K \<Longrightarrow> hs_requests s ! k = Some r \<Longrightarrow> req_ok r \<and> hs_timeout_armed s"
  by (simp add: http_inv_but_def)

lemma http_inv_distinct:
  "http_inv_but K s \<Longrightarrow> j < HTTP_MAX_REQUESTS \<Longrightarrow> k < HTTP_MAX_REQUESTS \<Longrightarrow> j \<notin> K \<Longrightarrow> k \<notin> K \<Longrightarrow> j \<noteq> k \<Longrightarrow>
   hs_requests s ! j = Some q \<Longrightarrow> hs_requests s ! k = Some r \<Longrightarrow> rq_fd q \<noteq> rq_fd r"
  by (simp add: http_inv_but_def)

lemma http_inv_datamode:
  "http_inv_but K s \<Longrightarrow> k \<notin> K \<Longrightarrow> hs_datamode_req s = Some k \<Longrightarrow>
   k < HTTP_MAX_REQUESTS \<and> (\<exists>r. hs_requests s ! k = Some r \<and> rq_state r = HTTP_STATE_SENDING_BODY)"
  by (simp add: http_inv_but_def)

lemma http_invI:
  assumes "length (hs_requests s) = HTTP_MAX_REQUESTS"
    "\<And>k r. k < HTTP_MAX_REQUESTS \<Longrightarrow> k \<notin> K \<Longrightarrow> hs_requests s ! k = Some r \<Longrightarrow> req_ok r \<and> hs_timeout_armed s"
    "\<And>j k q r. j < HTTP_MAX_REQUESTS \<Longrightarrow> k < HTTP_MAX_REQUESTS \<Longrightarrow> j \<notin> K \<Longrightarrow> k \<notin> K \<Longrightarrow> j \<noteq> k \<Longrightarrow>
       hs_requests s ! j = Some q \<Longrightarrow> hs_requests s ! k = Some r \<Longrightarrow> rq_fd q \<noteq> rq_fd r"
    "\<And>k. k \<notin> K \<Longrightarrow> hs_datamode_req s = Some k \<Longrightarrow>
       k < HTTP_MAX_REQUESTS \<and> (\<exists>r. hs_requests s ! k = Some r \<and> rq_state r = HTTP_STATE_SENDING_BODY)"
  shows "http_inv_but K s"
  using assms by (simp add: http_inv_but_def)

lemma http_inv_mono: "http_inv_but K s \<Longrightarrow> K \<subseteq> K' \<Longrightarrow> http_inv_but K' s"
proof (rule http_invI)
  assume i: "http_inv_but K s" and "K \<subseteq> K'"
  then have K: "k \<notin> K' \<Longrightarrow> k \<notin> K" for k by blast
  show "length (hs_requests s) = HTTP_MAX_REQUESTS" using i by simp
qed (auto dest: http_inv_slot http_inv_distinct http_inv_datamode)

text \<open>The other entries of an updated table.\<close>

lemma http_inv_others:
  assumes "http_inv_but {k} s" "length (hs_requests s') = length (hs_requests s)" "hs_timeout_armed s' = hs_timeout_armed s"
    and "\<And>j. j \<noteq> k \<Longrightarrow> hs_requests s' ! j = hs_requests s ! j" "hs_datamode_req s' = hs_datamode_req s \<or> hs_datamode_req s' = None"
  shows "http_inv_but {k} s'"
proof (rule http_invI)
  show "length (hs_requests s') = HTTP_MAX_REQUESTS" using assms(1,2) by simp
  show "req_ok r \<and> hs_timeout_armed s'" if "j < HTTP_MAX_REQUESTS" "j \<notin> {k}" "hs_requests s' ! j = Some r" for j r
    using http_inv_slot [OF assms(1) that(1,2), of r] assms(3) assms(4) [of j] that by simp
  show "rq_fd q \<noteq> rq_fd r" if "i < HTTP_MAX_REQUESTS" "j < HTTP_MAX_REQUESTS" "i \<notin> {k}" "j \<notin> {k}" "i \<noteq> j"
    "hs_requests s' ! i = Some q" "hs_requests s' ! j = Some r" for i j q r
    using http_inv_distinct [OF assms(1) that(1-5)] assms(4) [of i] assms(4) [of j] that by simp
  show "j < HTTP_MAX_REQUESTS \<and> (\<exists>r. hs_requests s' ! j = Some r \<and> rq_state r = HTTP_STATE_SENDING_BODY)"
    if "j \<notin> {k}" "hs_datamode_req s' = Some j" for j
    using http_inv_datamode [OF assms(1) that(1)] assms(4) [of j] assms(5) that by auto
qed

text \<open>An entry joins the others, or leaves them.\<close>

lemma http_inv_join:
  assumes "http_inv_but {k} s"
    and "\<And>r. k < HTTP_MAX_REQUESTS \<Longrightarrow> hs_requests s ! k = Some r \<Longrightarrow> req_ok r \<and> hs_timeout_armed s \<and>
      (\<forall>j < HTTP_MAX_REQUESTS. \<forall>q. j \<noteq> k \<longrightarrow> hs_requests s ! j = Some q \<longrightarrow> rq_fd q \<noteq> rq_fd r)"
    and "hs_datamode_req s = Some k \<Longrightarrow> k < HTTP_MAX_REQUESTS \<and> (\<exists>r. hs_requests s ! k = Some r \<and> rq_state r = HTTP_STATE_SENDING_BODY)"
  shows "http_inv s"
proof (rule http_invI)
  show "length (hs_requests s) = HTTP_MAX_REQUESTS" using assms(1) by simp
  show "req_ok r \<and> hs_timeout_armed s" if "j < HTTP_MAX_REQUESTS" "hs_requests s ! j = Some r" for j r
    using http_inv_slot [OF assms(1) that(1) _ that(2)] assms(2) [of r] that by (cases "j = k") auto
  show "rq_fd q \<noteq> rq_fd r" if "i < HTTP_MAX_REQUESTS" "j < HTTP_MAX_REQUESTS" "i \<noteq> j"
    "hs_requests s ! i = Some q" "hs_requests s ! j = Some r" for i j q r
  proof (cases "i = k \<or> j = k")
    case True
    then show ?thesis using assms(2) [of q] assms(2) [of r] that by metis
  qed (use http_inv_distinct [OF assms(1) that(1,2) _ _ that(3-5)] in simp)
  show "j < HTTP_MAX_REQUESTS \<and> (\<exists>r. hs_requests s ! j = Some r \<and> rq_state r = HTTP_STATE_SENDING_BODY)"
    if "hs_datamode_req s = Some j" for j
    using http_inv_datamode [OF assms(1) _ that] assms(3) that by (cases "j = k") auto
qed

lemma http_inv_but [simp]: "http_inv s \<Longrightarrow> http_inv_but K s"
  by (erule http_inv_mono) simp

lemma http_inv_close: "http_inv_but {k} s \<Longrightarrow> k < HTTP_MAX_REQUESTS \<Longrightarrow> http_inv (close_slot k s)"
  by (rule http_inv_join [where k = k, OF http_inv_others [where s = s]]) (auto split: if_splits)

lemma http_inv_close' [simp]: "http_inv s \<Longrightarrow> http_inv (close_slot k s)"
proof (cases "k < HTTP_MAX_REQUESTS")
  case False
  assume i: "http_inv s"
  then have "hs_datamode_req s \<noteq> Some k" using http_inv_datamode [OF i, of k] False by auto
  moreover have "(hs_requests s)[k := None] = hs_requests s" using i False by (simp add: list_update_beyond)
  ultimately have "close_slot k s = s" by (simp add: close_slot_def set_slot_def)
  then show ?thesis using i by simp
qed (simp add: http_inv_close)

lemma http_inv_upd:
  assumes i: "http_inv s"
    and f: "\<And>r. k < HTTP_MAX_REQUESTS \<Longrightarrow> hs_requests s ! k = Some r \<Longrightarrow> req_ok r \<Longrightarrow>
      req_ok (f r) \<and> rq_fd (f r) = rq_fd r \<and> (hs_datamode_req s = Some k \<longrightarrow> rq_state (f r) = HTTP_STATE_SENDING_BODY)"
  shows "http_inv (upd_slot k f s)"
proof (cases "k < HTTP_MAX_REQUESTS")
  case True
  have "http_inv_but {k} (upd_slot k f s)" by (rule http_inv_others [OF http_inv_but [OF i]]) simp_all
  then show ?thesis
  proof (rule http_inv_join)
    fix r' assume "hs_requests (upd_slot k f s) ! k = Some r'"
    then obtain r where r: "hs_requests s ! k = Some r" "r' = f r" using i True by auto
    then have ok: "req_ok r" "hs_timeout_armed s" using http_inv_slot [OF i True] by auto
    have "rq_fd q \<noteq> rq_fd r'" if "j < HTTP_MAX_REQUESTS" "j \<noteq> k" "hs_requests (upd_slot k f s) ! j = Some q" for j q
      using http_inv_distinct [OF i that(1) True _ _ that(2) _ r(1)] f [OF True r(1) ok(1)] that r(2) by simp
    then show "req_ok r' \<and> hs_timeout_armed (upd_slot k f s) \<and>
        (\<forall>j < HTTP_MAX_REQUESTS. \<forall>q. j \<noteq> k \<longrightarrow> hs_requests (upd_slot k f s) ! j = Some q \<longrightarrow> rq_fd q \<noteq> rq_fd r')"
      using f [OF True r(1) ok(1)] ok r(2) by simp
  next
    assume dm: "hs_datamode_req (upd_slot k f s) = Some k"
    then obtain r where r: "hs_requests s ! k = Some r" using http_inv_datamode [OF i, of k] by auto
    then have "req_ok r" using http_inv_slot [OF i True] by auto
    then show "k < HTTP_MAX_REQUESTS \<and> (\<exists>r. hs_requests (upd_slot k f s) ! k = Some r \<and> rq_state r = HTTP_STATE_SENDING_BODY)"
      using f [OF True r] r True dm i by simp
  qed
next
  case False
  then have "upd_slot k f s = s" using i by (simp add: upd_slot_def set_slot_def list_update_beyond)
  then show ?thesis using i by simp
qed

text \<open>An update that does not touch what the invariant is about.\<close>

definition keeps_req :: "(http_request \<Rightarrow> http_request) \<Rightarrow> bool" where
  "keeps_req f \<longleftrightarrow> (\<forall>r. rq_fd (f r) = rq_fd r \<and> rq_state (f r) = rq_state r \<and> (req_ok r \<longrightarrow> req_ok (f r)))"

lemma keeps_req_simps [simp]:
  "keeps_req (\<lambda>r. r\<lparr>rq_timeout_timestamp := t\<rparr>)" "keeps_req (\<lambda>r. r\<lparr>rq_need_rearm_pollin := b\<rparr>)"
  "keeps_req (\<lambda>r. r\<lparr>rq_send_rest := g r\<rparr>)"
  by (simp_all add: keeps_req_def req_ok_def split: http_req_state.split)

lemma http_inv_keeps [simp]: "http_inv s \<Longrightarrow> keeps_req f \<Longrightarrow> http_inv (upd_slot k f s)"
proof (rule http_inv_upd)
  assume a: "http_inv s" "keeps_req f"
  fix r assume "hs_requests s ! k = Some r" "req_ok r"
  then show "req_ok (f r) \<and> rq_fd (f r) = rq_fd r \<and> (hs_datamode_req s = Some k \<longrightarrow> rq_state (f r) = HTTP_STATE_SENDING_BODY)"
    using http_inv_datamode [OF a(1), of k] a(2) by (simp add: keeps_req_def)
qed

lemma http_inv_no_datamode [simp]: "http_inv_but K s \<Longrightarrow> http_inv_but K (s\<lparr>hs_datamode_req := None\<rparr>)"
  by (simp add: http_inv_but_def)

lemma http_inv_armed: "http_inv_but K s \<Longrightarrow> http_inv_but K (s\<lparr>hs_timeout_armed := True\<rparr>)"
  by (simp add: http_inv_but_def)

section \<open>The state of the module in the host\<close>

lemma http_upd [simp]: "http (upd_http g h) = g (http h)" "http (upd_req k f h) = upd_slot k f (http h)"
  "http (set_rearm b k h) = upd_slot k (\<lambda>r. r\<lparr>rq_need_rearm_pollin := b\<rparr>) (http h)"
  "http (set_datamode_req d h) = (http h)\<lparr>hs_datamode_req := d\<rparr>"
  "http (http_timeout_monitor_arm h) = (http h)\<lparr>hs_timeout_armed := True\<rparr>"
  "http (touch H k h) = upd_slot k (\<lambda>r. r\<lparr>rq_timeout_timestamp := now H h + hc_response_timeout_ms H\<rparr>) (http h)"
  by (simp_all add: upd_http_def upd_req_def upd_slot_def set_rearm_def set_datamode_req_def http_timeout_monitor_arm_def touch_def)

lemma upd_http_sel [simp]:
  "h_socks (upd_http f h) = h_socks h" "h_ctx (upd_http f h) = h_ctx h" "h_instances (upd_http f h) = h_instances h"
  "h_current (upd_http f h) = h_current h" "h_fault (upd_http f h) = h_fault h"
  by (simp_all add: upd_http_def)

lemma find_socket_socks: "h_socks h' = h_socks h \<Longrightarrow> find_socket fd h' = find_socket fd h"
  by (simp add: find_socket_def)

lemma find_request_Some:
  "find_request fd h = Some k \<Longrightarrow> k < HTTP_MAX_REQUESTS \<and> (\<exists>r. slot k h = Some r \<and> rq_fd r = fd)"
  by (auto simp: find_request_def find_Some_iff split: option.splits)

lemma find_request_None:
  "find_request fd h = None \<Longrightarrow> k < HTTP_MAX_REQUESTS \<Longrightarrow> slot k h = Some r \<Longrightarrow> rq_fd r \<noteq> fd"
  by (auto simp: find_request_def find_None_iff split: option.splits)

text \<open>The calls that leave the module alone: on the host, and those of the sockets layer.\<close>

locale http_calls = world_kept E ht_st
  for E :: "('rb, 'w http_world) env" and S :: "('rb, 'w http_world) sock_env" +
  assumes setsockopt_st: "ht_st (snd (s_setsockopt S fd l opt v w)) = ht_st w"
    and send_st: "ht_st (snd (s_send S fd d fl w)) = ht_st w"
    and recv_st: "ht_st (snd (s_recv S fd n fl w)) = ht_st w"
    and recv_len: "s_recv S fd n fl w = ((r, d), w') \<Longrightarrow> 0 \<le> r \<Longrightarrow> nat r \<le> n \<and> nat r \<le> length d"
    and errno_pos: "0 < m_errno (s_util S) w"
begin

lemma malloc_http [simp]: "http (snd (wcall (e_malloc E n) h)) = http h"
  using malloc_obs [of n "h_world h"] by (simp add: wcall_split) (metis prod.collapse)

lemma sock_calls_http [simp]:
  "http (snd (wcall (s_setsockopt S fd l opt v) h)) = http h" "http (snd (wcall (s_send S fd d fl) h)) = http h"
  "http (snd (wcall (s_recv S fd n fl) h)) = http h"
  by (simp_all add: wcall_split setsockopt_st send_st recv_st)

lemma host_calls_http [simp]:
  "http (data_send E p d h) = http h" "http (sm_at_host_lock_pipe E p h) = http h"
  "http (sm_at_host_cmd_done_pipe E p h) = http h"
  by (simp_all add: data_send_def sm_at_host_lock_pipe_def sm_at_host_lock_ctx_def sm_at_host_cmd_done_pipe_def
      sm_at_host_cmd_done_def Let_def split: option.split)

lemma hex_http [simp]: "http (http_data_send_hex E S p buf h) = http h"
proof (induction "length buf" arbitrary: buf h rule: less_induct)
  case less
  then show ?case by (cases buf) (subst http_data_send_hex.simps, simp add: Let_def)+
qed

lemma poll_http [simp]:
  "http (snd (update_poll_events E S k ev x h)) = http h" "http (snd (set_xapoll_events E S (Some k) ev h)) = http h"
  "http (xapoll_stop E (Some k) h) = http h"
  by (simp_all add: update_poll_events_def set_xapoll_events_def set_so_poll_cb_def xapoll_stop_def Let_def case_prod_unfold)

lemma close_http [simp]: "http (http_close_request E k h) = close_slot k (http h)"
  by (simp add: http_close_request_def close_slot_def Let_def split: option.split)

lemma notify_http [simp]:
  "http (http_send_error E k h) = http h" "http (http_send_status E k h) = http h" "http (http_send_cancel_status E k h) = http h"
  "http (http_send_headers_complete E k h) = http h"
  by (simp_all add: http_send_error_def http_send_status_def http_send_cancel_status_def http_send_headers_complete_def Let_def)

lemma end_http [simp]:
  "http (http_fail_request E k h) = close_slot k (http h)" "http (http_finish_request E k h) = close_slot k (http h)"
  by (simp_all add: http_fail_request_def http_finish_request_def)

lemma send_body_http [simp]: "http (send_body E S k d h) = http h"
  by (simp add: send_body_def)

lemma send_data_http [simp]:
  "http (http_send_data E S k d h) = (if d = [] then http h else upd_slot k (\<lambda>r. r\<lparr>rq_bytes_sent := rq_bytes_sent r + int (length d)\<rparr>) (http h))"
  by (simp add: http_send_data_def Let_def)

end

end
