(* ===== verification/Http_Run.thy ===== *)
theory Http_Run
  imports Http_Inv
begin

unbundle bit_operations_syntax

text \<open>
  Every command, event and callback of the HTTP client keeps the invariant of the table of requests, and
  so does every run of them between which the rest of the program does not touch the static variables of
  the module.
\<close>

lemma upd_set_slot [simp]: "k < length (hs_requests s) \<Longrightarrow> upd_slot k f (set_slot k (Some q) s) = set_slot k (Some (f q)) s"
  by (simp add: upd_slot_def)

lemma close_set_slot [simp]: "close_slot k (set_slot k x s) = close_slot k s"
  by (simp add: close_slot_def set_slot_def)

lemma http_inv_put:
  assumes "http_inv s" "k < HTTP_MAX_REQUESTS" "hs_requests s ! k = Some r" "rq_state r \<noteq> HTTP_STATE_SENDING_BODY"
    and "rq_fd q = rq_fd r" "req_ok q"
  shows "http_inv (set_slot k (Some q) s)"
proof -
  have "set_slot k (Some q) s = upd_slot k (\<lambda>_. q) s" by (simp add: upd_slot_def assms(3))
  moreover have "hs_datamode_req s \<noteq> Some k" using http_inv_datamode [OF assms(1), of k] assms(3,4) by auto
  ultimately show ?thesis using http_inv_upd [OF assms(1), of k "\<lambda>_. q"] assms by simp
qed

lemma take_headers_sel [simp]:
  "rq_fd (take_headers b e r) = rq_fd r" "rq_recv_buf (take_headers b e r) = rq_recv_buf r" "rq_state (take_headers b e r) = HTTP_STATE_RECEIVING_BODY"
  "rq_headers_complete (take_headers b e r)" "rq_total_received (take_headers b e r) = rq_total_received r - int (e + 4)"
  "rq_manual_mode (take_headers b e r) = rq_manual_mode r" "rq_bytes_sent (take_headers b e r) = rq_bytes_sent r"
  "rq_method (take_headers b e r) = rq_method r" "rq_pipe (take_headers b e r) = rq_pipe r" "rq_hex_rx (take_headers b e r) = rq_hex_rx r"
  by (simp_all add: take_headers_def Let_def split: sum.split)

lemma header_pos_bound: "header_pos buf = Some e \<Longrightarrow> e + 4 \<le> length buf"
proof -
  assume "header_pos buf = Some e"
  then have "e + 4 \<le> length (cstr buf)" using strstr_pos_Some [of "cstr buf" "CRLF_STR @ CRLF_STR" e] by (simp add: header_pos_def)
  moreover have "length (cstr buf) \<le> length buf" by (simp add: cstr_def length_takeWhile_le)
  ultimately show ?thesis by simp
qed

text \<open>A request that is being set up in a free entry \<open>k\<close> of a table \<open>s\<close>.\<close>

definition fresh_req :: "http_request \<Rightarrow> bool" where
  "fresh_req q \<longleftrightarrow> rq_recv_buf q = [] \<and> rq_total_received q = 0 \<and> rq_bytes_sent q = 0 \<and> \<not> rq_headers_complete q"

definition building :: "http_vars \<Rightarrow> nat \<Rightarrow> int \<Rightarrow> ('rb, 'w http_world) host \<Rightarrow> bool" where
  "building s k fd h \<longleftrightarrow> k < length (hs_requests s) \<and> (\<exists>q. http h = set_slot k (Some q) s \<and> fresh_req q \<and> rq_fd q = fd)"

definition keeps_fresh :: "(http_request \<Rightarrow> http_request) \<Rightarrow> bool" where
  "keeps_fresh f \<longleftrightarrow> (\<forall>q. rq_fd (f q) = rq_fd q \<and> (fresh_req q \<longrightarrow> fresh_req (f q)))"

lemma keeps_fresh_simps [simp]:
  "keeps_fresh (\<lambda>r. r\<lparr>rq_extra_headers := x\<rparr>)" "keeps_fresh (\<lambda>r. r\<lparr>rq_path := p\<rparr>)" "keeps_fresh (\<lambda>r. r\<lparr>rq_send_buf := b\<rparr>)"
  "keeps_fresh (\<lambda>r. r\<lparr>rq_hostname := p, rq_port := n\<rparr>)" "keeps_fresh (\<lambda>r. r\<lparr>rq_timeout_timestamp := t\<rparr>)"
  "keeps_fresh (\<lambda>r. r\<lparr>rq_manual_mode := b, rq_hex_rx := c\<rparr>)" "keeps_fresh (\<lambda>r. r\<lparr>rq_request_body_len := i\<rparr>)"
  by (simp_all add: keeps_fresh_def fresh_req_def)

locale http_host = http_calls E S + host_machine E ht_st "\<lambda>h. http_inv (http h)"
  for E :: "('rb, 'w http_world) env" and S :: "('rb, 'w http_world) sock_env"
begin

section \<open>Reception\<close>

lemma headers_complete_inv:
  assumes i: "http_inv s" "k < HTTP_MAX_REQUESTS" "hs_requests s ! k = Some r" "rq_state r \<noteq> HTTP_STATE_SENDING_BODY"
    and h: "http h = set_slot k (Some q) s"
    and q: "rq_fd q = rq_fd r" "header_pos (rq_recv_buf q) = Some e" "length (rq_recv_buf q) < HTTP_RECV_BUF_SIZE"
      "rq_total_received q = int (length (rq_recv_buf q))" "rq_bytes_sent q = 0"
  shows "http_inv (http (snd (http_headers_complete E S k e j hup h)))"
proof -
  have len: "k < length (hs_requests s)" using i(1,2) by simp
  note put = http_inv_put [OF i]
  let ?q = "take_headers (cstr (rq_recv_buf q)) e q"
  define B where "B = drop (e + 4) (rq_recv_buf q)"
  have b: "int (length B) = int (length (rq_recv_buf q)) - int (e + 4)" "length B \<le> length (rq_recv_buf q)"
    using header_pos_bound [OF q(2)] by (simp_all add: B_def of_nat_diff)
  have m: "http_inv (set_slot k (Some (?q\<lparr>rq_recv_buf := B\<rparr>)) s)" if "rq_manual_mode q"
    by (rule put) (use q b that in \<open>simp_all add: req_ok_def\<close>)
  have a: "http_inv (set_slot k (Some (?q\<lparr>rq_bytes_sent := rq_bytes_sent q + int (length B), rq_recv_buf := []\<rparr>)) s)"
    by (rule put) (use q b in \<open>simp_all add: req_ok_def\<close>)
  have n: "http_inv (set_slot k (Some (?q\<lparr>rq_recv_buf := []\<rparr>)) s)" if "B = []"
    by (rule put) (use q b that in \<open>simp_all add: req_ok_def\<close>)
  show ?thesis using i(1) len m a n
    by (cases "B = []") (simp_all add: http_headers_complete_def Let_def h flip: B_def)
qed

lemma recv_read_http:
  assumes "http_recv_read E S H k j h = (ret, h')"
  shows "if 0 < ret
    then \<exists>d t. length d = nat ret \<and> length (rq_recv_buf (req k h)) + nat ret < HTTP_RECV_BUF_SIZE \<and> http h' = upd_slot k
      (\<lambda>r. r\<lparr>rq_recv_buf := rq_recv_buf r @ d, rq_total_received := rq_total_received r + ret, rq_timeout_timestamp := t\<rparr>) (http h)
    else http h' = http h"
proof -
  let ?n = "HTTP_RECV_BUF_SIZE - length (rq_recv_buf (req k h)) - 1" and ?fd = "rq_fd (req k h)"
  obtain r d w where c: "s_recv S ?fd ?n (s_msg_dontwait S) (h_world h) = ((r, d), w)" by (metis surj_pair)
  have st: "ht_st w = http h" using recv_st [of ?fd ?n "s_msg_dontwait S" "h_world h"] c by simp
  show ?thesis
  proof (cases "r \<le> 0")
    case True
    then have "ret \<le> 0 \<and> http h' = http h" using assms c st errno_pos [of w]
      by (auto simp: http_recv_read_def wcall_def Let_def sock_errno_def split: if_splits)
    then show ?thesis by simp
  next
    case False
    then have l: "nat r \<le> ?n" "nat r \<le> length d" "ret = r" using recv_len [OF c] assms c
      by (auto simp: http_recv_read_def wcall_def Let_def)
    then show ?thesis using False assms c st
      by (auto simp: http_recv_read_def wcall_def Let_def intro!: exI [of _ "take (nat r) d"])
  qed
qed

lemma process_recv_headers_inv:
  assumes i: "http_inv s" "k < HTTP_MAX_REQUESTS" "hs_requests s ! k = Some r" "rq_state r = HTTP_STATE_RECEIVING_HEADERS"
    and h: "http h = set_slot k (Some q) s"
    and q: "rq_fd q = rq_fd r" "rq_state q = HTTP_STATE_RECEIVING_HEADERS" "length (rq_recv_buf q) < HTTP_RECV_BUF_SIZE"
      "rq_total_received q = int (length (rq_recv_buf q))" "rq_bytes_sent q = 0" "\<not> rq_headers_complete q"
  shows "http_inv (http (http_process_recv_headers E S k j ev h))"
proof -
  have len: "k < length (hs_requests s)" using i(1,2) by simp
  show ?thesis
  proof (cases "header_pos (rq_recv_buf q)")
    case None
    then have "http_inv (set_slot k (Some (q\<lparr>rq_need_rearm_pollin := True\<rparr>)) s)"
      by (intro http_inv_put [OF i(1-3)]) (use i(4) q in \<open>simp_all add: req_ok_def\<close>)
    then show ?thesis using None len i(1) by (simp add: http_process_recv_headers_def h header_pos_def)
  next
    case (Some e)
    have "http_inv (http (snd (http_headers_complete E S k e j (ev AND ZSOCK_POLLHUP \<noteq> 0) h)))"
      by (rule headers_complete_inv [OF i(1-3) _ h q(1) Some]) (use q i(4) in simp_all)
    then show ?thesis using Some len
      by (simp add: http_process_recv_headers_def h header_pos_def case_prod_unfold)
  qed
qed

lemma process_recv_body_inv:
  assumes i: "http_inv s" "k < HTTP_MAX_REQUESTS" "hs_requests s ! k = Some r" "rq_state r = HTTP_STATE_RECEIVING_BODY"
    and h: "http h = set_slot k (Some q) s"
    and q: "rq_fd q = rq_fd r" "rq_state q = HTTP_STATE_RECEIVING_BODY" "length (rq_recv_buf q) < HTTP_RECV_BUF_SIZE" "0 \<le> rq_bytes_sent q"
      "rq_total_received q = rq_bytes_sent q + int (length (rq_recv_buf q))" "rq_headers_complete q"
  shows "http_inv (http (http_process_recv_body E S k j ev h))"
proof -
  have len: "k < length (hs_requests s)" using i(1,2) by simp
  have "http_inv (set_slot k (Some q) s)" if "rq_manual_mode q"
    by (rule http_inv_put [OF i(1-3)]) (use i(4) q that in \<open>simp_all add: req_ok_def\<close>)
  moreover have "http_inv (set_slot k (Some (q\<lparr>rq_bytes_sent := rq_bytes_sent q + int (length (rq_recv_buf q)), rq_recv_buf := [],
      rq_need_rearm_pollin := True\<rparr>)) s)"
    by (rule http_inv_put [OF i(1-3)]) (use i(4) q in \<open>simp_all add: req_ok_def\<close>)
  moreover have "http_inv (set_slot k (Some (q\<lparr>rq_recv_buf := [], rq_need_rearm_pollin := True\<rparr>)) s)" if "rq_recv_buf q = []"
    by (rule http_inv_put [OF i(1-3)]) (use i(4) q that in \<open>simp_all add: req_ok_def\<close>)
  ultimately show ?thesis using len i(1) by (simp add: http_process_recv_body_def Let_def h)
qed

lemma process_recv_inv:
  assumes i: "http_inv (http h)" "k < HTTP_MAX_REQUESTS" "slot k h = Some r" "rq_state r \<noteq> HTTP_STATE_SENDING_BODY" "req_ok r"
    and closed: "\<And>h. http (closed h) = close_slot k (http h)"
    and process: "\<And>h' d t. http h' = set_slot k (Some (r\<lparr>rq_recv_buf := rq_recv_buf r @ d,
        rq_total_received := rq_total_received r + int (length d), rq_timeout_timestamp := t\<rparr>)) (http h) \<Longrightarrow>
        length (rq_recv_buf r) + length d < HTTP_RECV_BUF_SIZE \<Longrightarrow> http_inv (http (process h'))"
  shows "http_inv (http (http_process_recv E S H k j ev closed process h))"
proof -
  obtain ret h' where c: "http_recv_read E S H k j h = (ret, h')" by fastforce
  have "http_inv (http (process h'))" if pos: "0 < ret"
  proof -
    obtain d t where d: "length d = nat ret" "length (rq_recv_buf r) + nat ret < HTTP_RECV_BUF_SIZE" "http h' = upd_slot k
      (\<lambda>r. r\<lparr>rq_recv_buf := rq_recv_buf r @ d, rq_total_received := rq_total_received r + ret, rq_timeout_timestamp := t\<rparr>) (http h)"
      using recv_read_http [OF c] pos i(3) by auto
    then show ?thesis by (intro process [where h' = h' and d = d and t = t]) (use pos i(3) in \<open>simp_all add: upd_slot_def\<close>)
  qed
  moreover have "http h' = http h" if "\<not> 0 < ret" using recv_read_http [OF c] that by simp
  ultimately show ?thesis using i(1) by (auto simp: http_process_recv_def c closed)
qed

section \<open>Events\<close>

lemma process_send_inv:
  assumes i: "http_inv (http h)" "k < HTTP_MAX_REQUESTS" "slot k h = Some r" "rq_state r = HTTP_STATE_SENDING_REQUEST" "req_ok r"
  shows "http_inv (http (http_process_send E S k j h))"
proof -
  have len: "k < length (hs_requests (http h))" using i(1,2) by simp
  have "http_inv (set_slot k (Some (r\<lparr>rq_send_rest := x, rq_state := HTTP_STATE_RECEIVING_HEADERS, rq_recv_buf := []\<rparr>)) (http h))" for x
    by (rule http_inv_put [OF i(1-3)]) (use i(4,5) in \<open>simp_all add: req_ok_def header_pos_def cstr_def\<close>)
  then have "http_inv (upd_slot k (\<lambda>r. r\<lparr>rq_send_rest := drop n (rq_send_rest r), rq_state := HTTP_STATE_RECEIVING_HEADERS, rq_recv_buf := []\<rparr>) (http h))"
    for n by (simp add: upd_slot_def i(3))
  then show ?thesis using i(1) by (simp add: http_process_send_def Let_def case_prod_unfold)
qed

lemma process_request_inv:
  assumes "http_inv (http h)" "k < HTTP_MAX_REQUESTS" "slot k h = Some r"
  shows "http_inv (http (http_process_request E S H k ev h))"
proof (cases "find_socket (rq_fd (req k h)) h")
  case (Some j)
  have ok: "req_ok r" using http_inv_slot [OF assms(1,2) _ assms(3)] by simp
  have "http_inv (http (http_process_recv E S H k j ev (http_fail_request E k) (http_process_recv_headers E S k j ev) h))"
    if "rq_state r = HTTP_STATE_RECEIVING_HEADERS"
    by (rule process_recv_inv [OF assms _ ok], simp add: that, simp, rule process_recv_headers_inv [OF assms that], assumption)
      (use ok that in \<open>simp_all add: req_ok_def\<close>)
  moreover have "http_inv (http (http_process_recv E S H k j ev (http_finish_request E k) (http_process_recv_body E S k j ev) h))"
    if "rq_state r = HTTP_STATE_RECEIVING_BODY"
    by (rule process_recv_inv [OF assms _ ok], simp add: that, simp, rule process_recv_body_inv [OF assms that], assumption)
      (use ok that in \<open>simp_all add: req_ok_def\<close>)
  ultimately show ?thesis using Some assms process_send_inv [OF assms _ ok]
    by (simp add: http_process_request_def split: http_req_state.split)
qed (use assms in \<open>simp add: http_process_request_def\<close>)

lemma poll_event_inv: "http_inv (http h) \<Longrightarrow> http_inv (http (snd (sm_at_httpc_poll_event E S H fd ev h)))"
proof (cases "find_request fd h")
  case (Some k)
  assume i: "http_inv (http h)"
  obtain r where r: "k < HTTP_MAX_REQUESTS" "slot k h = Some r" using find_request_Some [OF Some] by auto
  have "http_inv (http (set_rearm False k h))" using i by simp
  then have "http_inv (http (http_process_request E S H k ev (set_rearm False k h)))"
    by (rule process_request_inv [OF _ r(1)]) (use i r in simp)
  then show ?thesis by (simp add: sm_at_httpc_poll_event_def Some Let_def)
qed (simp add: sm_at_httpc_poll_event_def)

lemma socket_closed_inv: "http_inv (http h) \<Longrightarrow> http_inv (http (sm_at_httpc_socket_closed E fd h))"
  by (simp add: sm_at_httpc_socket_closed_def split: option.split)

text \<open>The timer is not armed while its work runs; it is armed again when a request is left.\<close>

lemma scan_http: "http (timeout_scan E H k h) = http h \<or> http (timeout_scan E H k h) = close_slot k (http h)"
  by (simp add: timeout_scan_def)

lemma timeout_work_inv: "http_inv (http h) \<Longrightarrow> http_inv (http (http_timeout_work_fn E H h))"
proof -
  assume i: "http_inv (http h)"
  define on :: "http_vars \<Rightarrow> http_vars" where "on = (\<lambda>s. s\<lparr>hs_timeout_armed := True\<rparr>)"
  have c: "on (close_slot k s) = close_slot k (on s)" for k s by (simp add: on_def close_slot_def set_slot_def)
  have "http_inv (on (http h)) \<Longrightarrow> http_inv (on (http (fold (timeout_scan E H) ks h)))" for ks h
  proof (induction ks arbitrary: h)
    case (Cons k ks)
    then show ?case using scan_http [of H k h] by (auto simp: c)
  qed simp
  from this [of "upd_http (\<lambda>s. s\<lparr>hs_timeout_armed := False\<rparr>) h"]
  have r: "http_inv (on (http (fold (timeout_scan E H) ks (upd_http (\<lambda>s. s\<lparr>hs_timeout_armed := False\<rparr>) h))))" for ks
    using http_inv_armed [OF i] by (simp add: on_def)
  have "http_inv s" if on: "http_inv (on s)" and off: "\<And>k. k < HTTP_MAX_REQUESTS \<Longrightarrow> \<not> active (hs_requests s ! k)" for s
  proof -
    have none: "hs_requests s ! k = None" if "k < HTTP_MAX_REQUESTS" for k
      using off [OF that] http_inv_slot [OF on that]
      by (cases "hs_requests s ! k") (auto simp: active_def on_def req_ok_def split: http_req_state.splits)
    show ?thesis by (rule http_invI) (use http_inv_length [OF on] http_inv_datamode [OF on] none in \<open>auto simp: on_def\<close>)
  qed
  note none = this
  define h' where "h' = fold (timeout_scan E H) [0..<HTTP_MAX_REQUESTS] (upd_http (\<lambda>s. s\<lparr>hs_timeout_armed := False\<rparr>) h)"
  have "http_inv (on (http h'))" unfolding h'_def by (rule r)
  moreover from this have "http_inv (http h')" if "\<not> http_any_active_request_unlocked h'"
    by (rule none) (use that in \<open>simp add: http_any_active_request_unlocked_def\<close>)
  ultimately show ?thesis unfolding http_timeout_work_fn_def Let_def h'_def [symmetric] by (simp add: on_def)
qed

section \<open>Data mode\<close>

lemma stream_loop_keeps:
  assumes "\<And>h. Q h \<Longrightarrow> Q (f h)" "\<And>h h'. Q h \<Longrightarrow> http h' = http h \<Longrightarrow> Q h'"
  shows "Q h \<Longrightarrow> Q (snd (stream_loop S f fd fuel d h))"
proof (induction fuel arbitrary: d h)
  case 0
  then show ?case using assms(2) [of h "fault h"] by (cases d) simp_all
next
  case (Suc fuel)
  then show ?case using assms(2) [of h "snd (wcall (s_send S fd d 0) h)"] assms(1)
    by (cases d) (simp_all add: case_prod_unfold)
qed

lemma stream_http [simp]: "http (snd (stream_loop S (\<lambda>h. h) fd fuel d h)) = http h"
  by (rule stream_loop_keeps [where Q = "\<lambda>h'. http h' = http h"]) simp_all

lemma stream_err: "fst (stream_loop S f fd fuel d h) = Some err \<Longrightarrow> err < 0"
proof (induction fuel arbitrary: d h)
  case (Suc fuel)
  then show ?case using errno_pos by (cases d) (auto simp: wcall_split sock_errno_def split: if_splits)
next
  case 0
  then show ?case by (cases d) simp_all
qed

lemma datamode_send_inv: "http_inv (http h) \<Longrightarrow> http_inv (http (snd (http_datamode_send E S H d h)))"
proof (cases "hs_datamode_req (http h)")
  case None
  assume "http_inv (http h)"
  then show ?thesis using exit_datamode_handler_I [of h "sm_at_host_get_current E h" "- EINVAL"]
    by (simp add: http_datamode_send_def None)
next
  case (Some k)
  assume i: "http_inv (http h)"
  obtain e h1 where l: "stream_loop S (\<lambda>h. h) (rq_fd (req k h)) (length d) d h = (e, h1)" by fastforce
  then have h1: "http h1 = http h" using stream_http [of "rq_fd (req k h)" "length d" d h] by simp
  have "http_inv (http (set_datamode_req None h1))" using i h1 by simp
  from exit_datamode_handler_I [OF this] show ?thesis using i h1 Some l
    by (cases e) (simp_all add: http_datamode_send_def Let_def)
qed

lemma upd_slot_dm: "(upd_slot k f s)\<lparr>hs_datamode_req := d\<rparr> = upd_slot k f (s\<lparr>hs_datamode_req := d\<rparr>)"
  by (simp add: upd_slot_def set_slot_def)

lemma close_slot_dm: "(close_slot k s)\<lparr>hs_datamode_req := None\<rparr> = close_slot k (s\<lparr>hs_datamode_req := None\<rparr>)"
  by (simp add: close_slot_def set_slot_def)

lemma datamode_exit_inv: "http_inv (http h) \<Longrightarrow> http_inv (http (snd (http_datamode_exit E S H fl h)))"
proof (cases "hs_datamode_req (http h)")
  case (Some k)
  assume i: "http_inv (http h)"
  let ?s = "(http h)\<lparr>hs_datamode_req := None\<rparr>"
  obtain r where r: "slot k h = Some r" "rq_state r = HTTP_STATE_SENDING_BODY" using http_inv_datamode [OF i _ Some] by auto
  have "http_inv (upd_slot k (\<lambda>r. r\<lparr>rq_state := HTTP_STATE_RECEIVING_HEADERS, rq_recv_buf := [], rq_timeout_timestamp := t\<rparr>) ?s)" for t
    by (rule http_inv_upd) (use i r in \<open>auto simp: req_ok_def header_pos_def cstr_def\<close>)
  then show ?thesis using i
    by (simp add: http_datamode_exit_def Let_def Some case_prod_unfold upd_slot_dm close_slot_dm split: option.split)
qed (simp add: http_datamode_exit_def)

lemma datamode_callback_inv: "http_inv (http h) \<Longrightarrow> http_inv (http (snd (http_datamode_callback E S H op d fl h)))"
  by (simp add: http_datamode_callback_def datamode_send_inv datamode_exit_inv split: sm_datamode_operation.split)

section \<open>Commands\<close>

lemma building_upd [simp]: "building s k fd h \<Longrightarrow> keeps_fresh f \<Longrightarrow> building s k fd (upd_req k f h)"
  by (auto simp: building_def keeps_fresh_def)

lemma building_cong: "http h' = http h \<Longrightarrow> building s k fd h' = building s k fd h"
  by (simp add: building_def)

lemma building_close: "building s k fd h \<Longrightarrow> http_inv s \<Longrightarrow> http_inv (http (http_close_request E k h))"
  by (auto simp: building_def)

lemma building_calls [simp]:
  "building s k fd (snd (wcall (e_malloc E n) h)) = building s k fd h" "building s k fd (fault h) = building s k fd h"
  by (rule building_cong, simp)+

lemma building_touch [simp]: "building s k fd h \<Longrightarrow> building s k fd (touch H k h)"
  by (simp add: touch_def)

lemma alloc_request_building:
  assumes "alloc_request E H h = (Some k, h')" "http_inv (http h)"
  shows "building (http h) k (- 1) h'" "k < HTTP_MAX_REQUESTS" "slot k h = None"
  using assms http_inv_length [OF assms(2)] malloc_http [of _ h]
  by (auto simp: alloc_request_def case_prod_unfold building_def fresh_req_def zero_request_def find_Some_iff
      split: option.splits if_splits)

lemma alloc_request_none: "alloc_request E H h = (None, h') \<Longrightarrow> http h' = http h"
  by (auto simp: alloc_request_def case_prod_unfold split: option.splits if_splits)

lemma extra_headers_building: "building s k fd h \<Longrightarrow> building s k fd (snd (http_extra_headers E ts k h))"
  by (simp add: http_extra_headers_def Let_def case_prod_unfold)

lemma dup_into_building:
  "(\<And>h. building s k fd h \<Longrightarrow> building s k fd (snd (f t h))) \<Longrightarrow> building s k fd h \<Longrightarrow> building s k fd (snd (dup_into E t f h))"
  by (simp add: dup_into_def case_prod_unfold)

lemma parse_url_building: "building s k fd h \<Longrightarrow> building s k fd (snd (http_parse_url_components E H url k h))"
  unfolding http_parse_url_components_def Let_def
  by (auto split: option.split prod.split intro!: dup_into_building)

lemma build_headers_building: "building s k fd h \<Longrightarrow> building s k fd (snd (http_alloc_build_headers E k h))"
  by (auto simp: http_alloc_build_headers_def Let_def case_prod_unfold split: option.split)

text \<open>The request is complete.\<close>

lemma building_done:
  assumes "http_inv s" "k < HTTP_MAX_REQUESTS" "fresh_req q" "rq_state q = HTTP_STATE_SENDING_REQUEST \<or> rq_state q = HTTP_STATE_SENDING_BODY"
    and "\<And>j r. j < HTTP_MAX_REQUESTS \<Longrightarrow> hs_requests s ! j = Some r \<Longrightarrow> rq_fd r \<noteq> rq_fd q" "hs_requests s ! k = None"
    and "d = hs_datamode_req s \<or> d = Some k \<and> rq_state q = HTTP_STATE_SENDING_BODY"
  shows "http_inv ((set_slot k (Some q) s)\<lparr>hs_timeout_armed := True, hs_datamode_req := d\<rparr>)"
proof (rule http_inv_join [where k = k])
  have dm: "hs_datamode_req s \<noteq> Some k" using http_inv_datamode [OF assms(1), of k] assms(6) by auto
  have k: "k < length (hs_requests s)" using assms(1,2) by simp
  let ?s = "(set_slot k (Some q) s)\<lparr>hs_timeout_armed := True\<rparr>"
  have "http_inv_but {k} ?s"
    by (rule http_inv_others [OF http_inv_armed [OF http_inv_but [OF assms(1)]]]) simp_all
  then show "http_inv_but {k} ((set_slot k (Some q) s)\<lparr>hs_timeout_armed := True, hs_datamode_req := d\<rparr>)"
    using assms(7) by (auto simp: http_inv_but_def)
  show "req_ok r \<and> hs_timeout_armed ((set_slot k (Some q) s)\<lparr>hs_timeout_armed := True, hs_datamode_req := d\<rparr>) \<and>
      (\<forall>j < HTTP_MAX_REQUESTS. \<forall>p. j \<noteq> k \<longrightarrow> hs_requests ((set_slot k (Some q) s)\<lparr>hs_timeout_armed := True, hs_datamode_req := d\<rparr>) ! j = Some p \<longrightarrow>
        rq_fd p \<noteq> rq_fd r)"
    if "hs_requests ((set_slot k (Some q) s)\<lparr>hs_timeout_armed := True, hs_datamode_req := d\<rparr>) ! k = Some r" for r
    using that k assms(3-5) by (auto simp: fresh_req_def req_ok_def)
  show "k < HTTP_MAX_REQUESTS \<and> (\<exists>r. hs_requests ((set_slot k (Some q) s)\<lparr>hs_timeout_armed := True, hs_datamode_req := d\<rparr>) ! k = Some r \<and>
      rq_state r = HTTP_STATE_SENDING_BODY)"
    if "hs_datamode_req ((set_slot k (Some q) s)\<lparr>hs_timeout_armed := True, hs_datamode_req := d\<rparr>) = Some k"
    using that assms(2,7) dm k by simp
qed

lemma start_request_inv:
  assumes "building s k fd h" "http_inv s" "k < HTTP_MAX_REQUESTS" "hs_requests s ! k = None"
    and "\<And>j r. j < HTTP_MAX_REQUESTS \<Longrightarrow> hs_requests s ! j = Some r \<Longrightarrow> rq_fd r \<noteq> fd"
    and "http_start_request E S H k h = (ret, h')"
  shows "if ret = 0 then http_inv (http h') else building s k fd h'"
proof -
  obtain b h1 where c: "http_alloc_build_headers E k h = (b, h1)" by fastforce
  then have h1: "building s k fd h1" using build_headers_building [OF assms(1)] by (metis snd_conv)
  show ?thesis
  proof (cases b)
    case (Inl err)
    then have "err \<noteq> 0 \<and> ret = err \<and> h' = h1" using assms(6) c
      by (auto simp: http_start_request_def http_alloc_build_headers_def Let_def case_prod_unfold split: if_splits option.splits)
    then show ?thesis using h1 by simp
  next
    case (Inr buf)
    obtain q where q: "http h1 = set_slot k (Some q) s" "fresh_req q" "rq_fd q = fd" "k < length (hs_requests s)"
      using h1 by (auto simp: building_def)
    define h2 where "h2 = touch H k (upd_req k (\<lambda>r. r\<lparr>rq_send_rest := buf, rq_state := HTTP_STATE_SENDING_REQUEST\<rparr>) h1)"
    obtain t where h2: "http h2 = set_slot k (Some (q\<lparr>rq_send_rest := buf, rq_state := HTTP_STATE_SENDING_REQUEST, rq_timeout_timestamp := t\<rparr>)) s"
      using q by (auto simp: h2_def)
    then have b2: "building s k fd h2" using q by (auto simp: building_def fresh_req_def)
    have "http_inv ((http h2)\<lparr>hs_timeout_armed := True, hs_datamode_req := hs_datamode_req s\<rparr>)"
      unfolding h2 by (rule building_done [OF assms(2,3)]) (use q assms(4,5) in \<open>simp_all add: fresh_req_def\<close>)
    moreover have "(http h2)\<lparr>hs_timeout_armed := True, hs_datamode_req := hs_datamode_req s\<rparr> = (http h2)\<lparr>hs_timeout_armed := True\<rparr>"
      by (simp add: h2 set_slot_def)
    moreover have "building s k fd h3" if "set_xapoll_events E S (Some j) ev h2 = (r, h3)" for j ev r h3
      using b2 poll_http(2) [of j ev h2] that building_cong [of h3 h2] by simp
    ultimately show ?thesis using assms(6) c Inr b2
      by (auto simp: http_start_request_def Let_def case_prod_unfold simp flip: h2_def split: option.splits if_splits)
  qed
qed

lemma begin_body_inv:
  assumes "building s k fd h" "http_inv s" "k < HTTP_MAX_REQUESTS" "hs_requests s ! k = None"
    and "\<And>j r. j < HTTP_MAX_REQUESTS \<Longrightarrow> hs_requests s ! j = Some r \<Longrightarrow> rq_fd r \<noteq> fd"
  shows "http_inv (http (snd (http_begin_body E S H n k h)))"
proof -
  define h0 where "h0 = upd_req k (\<lambda>r. r\<lparr>rq_request_body_len := n\<rparr>) h"
  obtain b h1 where c: "http_alloc_build_headers E k h0 = (b, h1)" by fastforce
  have "building s k fd h0" using assms(1) by (simp add: h0_def)
  then have h1: "building s k fd h1" using build_headers_building [of s k fd h0] c by simp
  show ?thesis
  proof (cases b)
    case (Inl err)
    then have "err \<noteq> 0" using c by (auto simp: http_alloc_build_headers_def Let_def case_prod_unfold split: if_splits option.splits)
    then show ?thesis using Inl c building_close [OF h1 assms(2)]
      by (simp add: http_begin_body_def http_send_request_headers_def Let_def flip: h0_def)
  next
    case (Inr buf)
    obtain e h2 where l: "stream_loop S (touch H k) (rq_fd (req k h1)) (length buf) buf (touch H k h1) = (e, h2)" by fastforce
    have "building s k fd (snd (stream_loop S (touch H k) (rq_fd (req k h1)) (length buf) buf (touch H k h1)))"
      by (rule stream_loop_keeps) (use h1 building_cong in \<open>simp_all, blast\<close>)
    then obtain q where q: "http h2 = set_slot k (Some q) s" "fresh_req q" "rq_fd q = fd" "k < length (hs_requests s)" and b2: "building s k fd h2"
      using l by (auto simp: building_def)
    have s': "http_inv ((set_slot k (Some (q\<lparr>rq_send_buf := False, rq_state := HTTP_STATE_SENDING_BODY\<rparr>)) s)\<lparr>hs_timeout_armed := True, hs_datamode_req := Some k\<rparr>)"
      by (rule building_done [OF assms(2,3)]) (use q assms(4,5) in \<open>simp_all add: fresh_req_def\<close>)
    show ?thesis
    proof (cases e)
      case None
      define h3 where "h3 = set_datamode_req (Some k) (http_timeout_monitor_arm
        (upd_req k (\<lambda>r. r\<lparr>rq_send_buf := False, rq_state := HTTP_STATE_SENDING_BODY\<rparr>) h2))"
      have "http_inv (http h3)" using s' q by (simp add: h3_def)
      then have "http_inv (http (snd (enter_datamode E cb m (rsp_send E t h3))))" for cb m t by (intro enter_datamode_I) simp
      then show ?thesis using None l c Inr
        by (simp add: http_begin_body_def http_send_request_headers_def Let_def case_prod_unfold flip: h0_def h3_def)
    next
      case (Some err)
      then have "err \<noteq> 0" using l stream_err [of "touch H k" "rq_fd (req k h1)" "length buf" buf "touch H k h1"] by simp
      then show ?thesis using Some l c Inr building_close [OF b2 assms(2)]
        by (simp add: http_begin_body_def http_send_request_headers_def Let_def flip: h0_def)
    qed
  qed
qed

end

end
