(* ===== verification/Http_Steps.thy ===== *)
theory Http_Steps
  imports Http_Run
begin

unbundle bit_operations_syntax

text \<open>
  The commands of the HTTP client keep the invariant of its table, and the client as a transition system:
  its commands, the events of its sockets, its timer, its data mode handler, and steps of the rest of the
  program, which cannot touch the static variables of the module. The client also keeps the invariant of
  the socket table, so that it is a valid hook of the sockets module.
\<close>

section \<open>Commands\<close>

context http_host
begin

lemma setup_inv:
  assumes "building s k fd0 h" "http_inv s" "k < HTTP_MAX_REQUESTS" "hs_requests s ! k = None"
    and fd: "\<And>j r. j < HTTP_MAX_REQUESTS \<Longrightarrow> hs_requests s ! j = Some r \<Longrightarrow> rq_fd r \<noteq> fd"
  shows "http_inv (http (snd (http_setup E S H fd p ts k h)))"
proof -
  define h0 where "h0 = upd_req k (\<lambda>r. r\<lparr>rq_fd := fd, rq_method := hp_method p\<rparr>) h"
  have "building s k fd h0" using assms(1) by (auto simp: building_def h0_def fresh_req_def)
  moreover obtain e1 h1 where x: "http_extra_headers E ts k h0 = (e1, h1)" by fastforce
  ultimately have b1: "building s k fd h1" using extra_headers_building [of s k fd h0 ts] by simp
  define h2 where "h2 = upd_req k (\<lambda>r. r\<lparr>rq_manual_mode := \<not> hp_auto_reception p, rq_hex_rx := hp_format p\<rparr>) h1"
  have "building s k fd h2" using b1 by (simp add: h2_def)
  moreover obtain e3 h3 where u: "http_parse_url_components E H (hp_url p) k h2 = (e3, h3)" by fastforce
  ultimately have b3: "building s k fd h3" using parse_url_building [of s k fd h2 H "hp_url p"] by simp
  obtain e4 h4 where st: "http_start_request E S H k h3 = (e4, h4)" by fastforce
  note start = start_request_inv [OF b3 assms(2-5) st]
  have "http_inv (http (http_close_request E k h4))" if "e4 \<noteq> 0" using start that by (intro building_close [OF _ assms(2)]) simp
  moreover have "http_inv (http h4)" if "e4 = 0" using start that by simp
  ultimately show ?thesis
    using x u st building_close [OF b1 assms(2)] building_close [OF b3 assms(2)] begin_body_inv [OF b3 assms(2-5)]
    by (simp add: http_setup_def Let_def flip: h0_def h2_def)
qed

lemma httpcreq_inv: "http_inv (http h) \<Longrightarrow> http_inv (http (snd (handle_at_httpcreq E S H P ct p n h)))"
proof -
  assume i: "http_inv (http h)"
  have set: "http_inv (http (snd (with_socket fd (\<lambda>j h.
      if find_request fd h \<noteq> None then (- EBUSY, h)
      else case alloc_request E H h of (None, h) \<Rightarrow> (- ENOMEM, h)
        | (Some k, h) \<Rightarrow> (case ps of Inl err \<Rightarrow> (err, http_close_request E k h) | Inr q \<Rightarrow> http_setup E S H fd q (ts q) k h)) h)))" for fd ps ts
  proof (rule with_socket_cases)
    fix j
    obtain ok h1 where a: "alloc_request E H h = (ok, h1)" by fastforce
    show "http_inv (http (snd (if find_request fd h \<noteq> None then (- EBUSY, h)
      else case alloc_request E H h of (None, h) \<Rightarrow> (- ENOMEM, h)
        | (Some k, h) \<Rightarrow> (case ps of Inl err \<Rightarrow> (err, http_close_request E k h) | Inr q \<Rightarrow> http_setup E S H fd q (ts q) k h))))"
    proof (cases ok)
      case None
      then show ?thesis using i a alloc_request_none [of H h h1] by simp
    next
      case (Some k)
      note al = alloc_request_building [OF a [unfolded Some] i]
      have "http_inv (http (snd (http_setup E S H fd q t k h1)))" if "find_request fd h = None" for q t
        by (rule setup_inv [OF al(1) i al(2,3)]) (use find_request_None [OF that] in auto)
      then show ?thesis using i a Some building_close [OF al(1) i] by (auto split: sum.split)
    qed
  qed (rule i)
  show ?thesis unfolding handle_at_httpcreq_def
    using i set by (auto split: at_parser_cmd_type.split intro!: param_cases [where Q = "\<lambda>h. http_inv (http h)"])
qed

lemma pull_deliver_http [simp]: "http (pull_deliver E S k d h) = upd_slot k (\<lambda>r. r\<lparr>rq_bytes_sent := rq_bytes_sent r + int (length d)\<rparr>) (http h)"
  by (simp add: pull_deliver_def Let_def)

lemma pull_complete_inv: "http_inv (http h) \<Longrightarrow> http_inv (http (snd (pull_complete E k d h)))"
  by (simp add: pull_complete_def Let_def)

lemma pull_data_inv: "http_inv (http h) \<Longrightarrow> http_inv (http (snd (pull_data E S H fd n h)))"
proof (cases "find_request fd h")
  case (Some k)
  assume i: "http_inv (http h)"
  obtain r where r: "k < HTTP_MAX_REQUESTS" "slot k h = Some r" "req_ok r"
    using find_request_Some [OF Some] http_inv_slot [OF i] by blast
  have body: "rq_state r = HTTP_STATE_RECEIVING_BODY" if "rq_headers_complete r"
    using r(3) that by (simp add: req_ok_def split: http_req_state.splits)
  have put: "http_inv (upd_slot k f (http h))" if "rq_headers_complete r" "rq_fd (f r) = rq_fd r" "req_ok (f r)" for f
    using http_inv_put [OF i r(1,2) _ that(2,3)] body [OF that(1)] by (simp add: upd_slot_def r(2))
  obtain ret d w where c: "s_recv S (rq_fd r) n (s_msg_dontwait S) (h_world h) = ((ret, d), w)" by (metis surj_pair)
  have w: "ht_st w = http h" using recv_st [of "rq_fd r" n "s_msg_dontwait S" "h_world h"] c by simp
  let ?d = "take n (rq_recv_buf r)" and ?e = "take (nat ret) d"
  have drain: "http_inv (upd_slot k (\<lambda>r. r\<lparr>rq_timeout_timestamp := t, rq_bytes_sent := rq_bytes_sent r + int (min (length (rq_recv_buf r')) n),
      rq_recv_buf := drop (min (length (rq_recv_buf r')) n) (rq_recv_buf r)\<rparr>) (http h))"
    if "rq_headers_complete r" "rq_manual_mode r" "r' = r" for t r'
    by (rule put) (use that r(3) body in \<open>auto simp: req_ok_def min_def\<close>)
  have got: "http_inv (upd_slot k (\<lambda>r. r\<lparr>rq_total_received := rq_total_received r + ret, rq_timeout_timestamp := t,
      rq_bytes_sent := rq_bytes_sent r + int (min (length d) (nat ret))\<rparr>) (http h))" if "rq_headers_complete r" "0 < ret" for t
    using recv_len [OF c] that r(3) body by (intro put) (auto simp: req_ok_def)
  show ?thesis
  proof (cases "rq_manual_mode r \<and> rq_headers_complete r")
    case True
    show ?thesis
    proof (cases "rq_recv_buf r = []")
      case False
      then show ?thesis using True r Some drain i by (simp add: pull_data_def Let_def pull_complete_inv)
    next
      case empty: True
      then show ?thesis using True r Some got i c w by (simp add: pull_data_def Let_def pull_complete_inv wcall_def)
    qed
  qed (use i r Some in \<open>auto simp: pull_data_def\<close>)
qed (simp add: pull_data_def)

lemma httpcdata_inv: "http_inv (http h) \<Longrightarrow> http_inv (http (snd (handle_at_httpcdata E S H P ct p n h)))"
  by (cases ct) (simp_all add: handle_at_httpcdata_def param_def Let_def pull_data_inv split: sum.split)

lemma httpccancel_inv: "http_inv (http h) \<Longrightarrow> http_inv (http (snd (handle_at_httpccancel E P ct p h)))"
  unfolding handle_at_httpccancel_def
  by (auto split: at_parser_cmd_type.split option.split intro!: param_cases [where Q = "\<lambda>h. http_inv (http h)"])

lemma http_command_inv: "http_inv (http h) \<Longrightarrow> http_inv (http (snd (http_command E S H P c ct p n h)))"
  by (simp add: http_command_def httpcreq_inv httpcdata_inv httpccancel_inv split: http_cmd.split)

end

section \<open>The client as a transition system\<close>

inductive http_step ::
  "('rb, 'w http_world) env \<Rightarrow> ('rb, 'w http_world) sock_env \<Rightarrow> 'w http_world http_env \<Rightarrow> 'p at_parser_ops \<Rightarrow>
   ('rb, 'w http_world) host \<Rightarrow> ('rb, 'w http_world) host \<Rightarrow> bool"
  for E S H P where
  Command: "http_step E S H P h (snd (http_command E S H P c ct p n h))"
| PollEvent: "http_step E S H P h (snd (sm_at_httpc_poll_event E S H fd ev h))"
| SocketClosed: "http_step E S H P h (sm_at_httpc_socket_closed E fd h)"
| Timer: "hs_timeout_armed (http h) \<Longrightarrow> http_step E S H P h (http_timeout_work_fn E H h)"
| DataMode: "http_step E S H P h (snd (http_datamode_callback E S H op d fl h))"
| Other: "http h' = http h \<Longrightarrow> http_step E S H P h h'"

inductive_cases http_stepE: "http_step E S H P h h'"

context http_host
begin

lemma http_step_inv: "http_step E S H P h h' \<Longrightarrow> http_inv (http h) \<Longrightarrow> http_inv (http h')"
  by (erule http_stepE) (simp_all add: http_command_inv poll_event_inv socket_closed_inv timeout_work_inv datamode_callback_inv)

lemma http_run_inv: "(http_step E S H P)\<^sup>*\<^sup>* h h' \<Longrightarrow> http_inv (http h) \<Longrightarrow> http_inv (http h')"
  by (induction rule: rtranclp_induct) (auto intro: http_step_inv)

end

section \<open>The client on a host\<close>

text \<open>An environment that does not touch the variables of the module, with callbacks that keep the invariant;
  the handler of data mode is such a callback.\<close>

lemma http_machine:
  fixes E :: "('rb, 'w http_world) env"
  assumes "world_kept E ht_st" and post: "\<And>i ev w. ht_st (e_event_post E i ev w) = ht_st w"
    and recv: "\<And>p w. ht_st (snd (e_pipe_receive E p w)) = ht_st w" and mal: "\<And>w. ht_st (snd (e_malloc_ctx E w)) = ht_st w"
    and free: "\<And>i w. ht_st (e_free_ctx E i w) = ht_st w"
    and cbs: "\<And>cb op d fl h. http_inv (http h) \<Longrightarrow> http_inv (http (snd (e_datamode_handler E cb op d fl h)))"
      "\<And>n s h. http_inv (http h) \<Longrightarrow> http_inv (http (snd (e_at_cmd E n s h)))"
      "\<And>x s h. http_inv (http h) \<Longrightarrow> http_inv (http (snd (e_xdfu E x s h)))"
      "\<And>h. http_inv (http h) \<Longrightarrow> http_inv (http (e_final_reset E h))" "\<And>wk h. http_inv (http h) \<Longrightarrow> http_inv (http (e_run_work E wk h))"
  shows "host_machine E ht_st (\<lambda>h. http_inv (http h))"
proof -
  have ini: "http h1 = http h" if "sm_at_host_ctx_init E i p h = (err, h1)" for i p err h h1
    using that world_kept.malloc_obs [OF assms(1)] by (auto simp: sm_at_host_ctx_init_def split: prod.splits bool.splits)
  have create: "http (snd (sm_at_host_create_new E p h)) = http h" for p h
  proof -
    obtain oi w where m: "e_malloc_ctx E (h_world h) = (oi, w)" by fastforce
    have "ht_st w = http h" using mal [of "h_world h"] m by simp
    moreover have "http h1 = ht_st w" if "sm_at_host_ctx_init E i (Some p) (h\<lparr>h_world := w\<rparr>) = (err, h1)" for i err h1
      using ini [OF that] by simp
    ultimately show ?thesis using m free
      by (cases oi) (auto simp: sm_at_host_create_new_def pipe_attach_def split: prod.split)
  qed
  have destroy: "http (snd (sm_at_host_destroy E ctx h)) = http h" for ctx h
    by (auto simp: sm_at_host_destroy_def set_c_pipe_def Let_def free split: option.split)
  show ?thesis
  proof (intro host_machine.intro host_machine_axioms.intro assms(1))
    show "e_pipe_receive E p w = (r, w') \<Longrightarrow> ht_st w' = ht_st w" for p w r w' using recv [of p w] by simp
  qed (simp_all add: create destroy post cbs)
qed

lemma http_handler_host: "http_host E S \<Longrightarrow> http_host (http_handler S H E) S"
proof -
  assume a: "http_host E S"
  then have m: "host_machine E ht_st (\<lambda>h. http_inv (http h))" and c: "http_calls_axioms S" by (simp_all add: http_host_def http_calls_def)
  have "host_machine (http_handler S H E) ht_st (\<lambda>h. http_inv (http h))"
    unfolding http_handler_def
    by (subst replace_same, rule host_machine.replace_callbacks [OF m])
      (simp_all add: http_host.datamode_callback_inv [OF a] host_machine.handler_I [OF m] host_machine.at_cmd_I [OF m] host_machine.work_I [OF m])
  then show ?thesis using c by (simp add: http_host_def http_calls_def host_machine_def)
qed

end
