(* ===== verification/Http_Socks.thy ===== *)
theory Http_Socks
  imports Http_Steps
begin

unbundle bit_operations_syntax

text \<open>
  The HTTP client on the sockets module: its operations keep the invariant of the socket table, hence the
  sockets module with the client as its hooks, and the host with the commands and the data mode handler of
  the client, satisfy the contracts of the sockets module.
\<close>

section \<open>The client keeps the socket table\<close>

text \<open>Which descriptors are open does not depend on the variables of the client.\<close>

locale http_socks = sock_host E S opened
  for E :: "('rb, 'w http_world) env" and S :: "('rb, 'w http_world) sock_env" and opened :: "'w http_world \<Rightarrow> int set" +
  assumes opened_st: "opened (w\<lparr>ht_st := s\<rparr>) = opened w"
begin

lemma upd_http_sock [simp]:
  "sock_inv_but opened K (upd_http g h) = sock_inv_but opened K h" "sock_inv_but opened K (upd_req k f h) = sock_inv_but opened K h"
  "sock_inv_but opened K (touch H k h) = sock_inv_but opened K h" "sock_inv_but opened K (set_rearm b k h) = sock_inv_but opened K h"
  "sock_inv_but opened K (set_datamode_req d h) = sock_inv_but opened K h"
  "sock_inv_but opened K (http_timeout_monitor_arm h) = sock_inv_but opened K h"
  by (simp_all add: upd_http_def upd_req_def touch_def set_rearm_def set_datamode_req_def http_timeout_monitor_arm_def
      sock_inv_world opened_st)

lemma hex_sock [simp]: "sock_inv_but opened K (http_data_send_hex E S p buf h) = sock_inv_but opened K h"
proof (induction "length buf" arbitrary: buf h rule: less_induct)
  case less
  then show ?case by (cases buf) (subst http_data_send_hex.simps, simp add: Let_def)+
qed

lemma malloc_sock [simp]: "sock_inv_but opened K (snd (wcall (e_malloc E n) h)) = sock_inv_but opened K h"
  by (simp add: wcall_split, rule sock_inv_world, rule malloc_obs, rule prod.collapse [symmetric])

lemma send_body_sock [simp]: "sock_inv_but opened K (send_body E S k d h) = sock_inv_but opened K h"
  by (simp add: send_body_def)

lemma send_data_sock [simp]: "sock_inv_but opened K (http_send_data E S k d h) = sock_inv_but opened K h"
  by (simp add: http_send_data_def Let_def)

lemma notify_sock [simp]:
  "sock_inv_but opened K (http_send_error E k h) = sock_inv_but opened K h"
  "sock_inv_but opened K (http_send_status E k h) = sock_inv_but opened K h"
  "sock_inv_but opened K (http_send_cancel_status E k h) = sock_inv_but opened K h"
  "sock_inv_but opened K (http_send_headers_complete E k h) = sock_inv_but opened K h"
  by (simp_all add: http_send_error_def http_send_status_def http_send_cancel_status_def http_send_headers_complete_def Let_def)

lemma close_sock [simp]: "sock_inv_but opened K h \<Longrightarrow> sock_inv_but opened K (http_close_request E k h)"
  by (simp add: http_close_request_def xapoll_stop_def Let_def sock_inv_upd split: option.split)

lemma end_sock [simp]:
  "sock_inv_but opened K h \<Longrightarrow> sock_inv_but opened K (http_fail_request E k h)"
  "sock_inv_but opened K h \<Longrightarrow> sock_inv_but opened K (http_finish_request E k h)"
  by (simp_all add: http_fail_request_def http_finish_request_def)

lemma recv_read_sock [simp]: "sock_inv opened h \<Longrightarrow> sock_inv opened (snd (http_recv_read E S H k j h))"
  by (simp add: http_recv_read_def case_prod_unfold Let_def wcall_inv call_kept)

lemma recv_headers_sock [simp]: "sock_inv opened h \<Longrightarrow> sock_inv opened (http_process_recv_headers E S k j ev h)"
  by (simp add: http_process_recv_headers_def http_headers_complete_def Let_def case_prod_unfold split: option.split)

lemma recv_body_sock [simp]: "sock_inv opened h \<Longrightarrow> sock_inv opened (http_process_recv_body E S k j ev h)"
  by (simp add: http_process_recv_body_def Let_def)

lemma process_recv_sock:
  "(\<And>h. sock_inv opened h \<Longrightarrow> sock_inv opened (f h)) \<Longrightarrow> (\<And>h. sock_inv opened h \<Longrightarrow> sock_inv opened (g h)) \<Longrightarrow> sock_inv opened h \<Longrightarrow>
   sock_inv opened (http_process_recv E S H k j ev f g h)"
  by (simp add: http_process_recv_def case_prod_unfold)

lemma process_request_sock [simp]: "sock_inv opened h \<Longrightarrow> sock_inv opened (http_process_request E S H k ev h)"
  by (simp add: http_process_request_def http_process_send_def case_prod_unfold Let_def wcall_inv call_kept process_recv_sock
      split: option.split http_req_state.split)

lemma poll_event_sock: "sock_inv opened h \<Longrightarrow> sock_inv opened (snd (sm_at_httpc_poll_event E S H fd ev h))"
  by (simp add: sm_at_httpc_poll_event_def Let_def split: option.split)

lemma socket_closed_sock: "sock_inv_but opened K h \<Longrightarrow> sock_inv_but opened K (sm_at_httpc_socket_closed E fd h)"
  by (simp add: sm_at_httpc_socket_closed_def split: option.split)

lemma stream_loop_sock:
  "(\<And>h. sock_inv opened h \<Longrightarrow> sock_inv opened (f h)) \<Longrightarrow> sock_inv opened h \<Longrightarrow> sock_inv opened (snd (stream_loop S f fd fuel d h))"
proof (induction fuel arbitrary: d h)
  case (Suc fuel)
  then show ?case by (cases d) (simp_all add: case_prod_unfold wcall_inv call_kept)
next
  case 0
  then show ?case by (cases d) simp_all
qed

lemma datamode_sock: "sock_inv opened h \<Longrightarrow> sock_inv opened (snd (http_datamode_callback E S H op d fl h))"
proof -
  assume i: "sock_inv opened h"
  show ?thesis
  proof (cases op)
    case DATAMODE_SEND
    have "sock_inv opened (snd (stream_loop S (\<lambda>h. h) fd (length d) d h))" for fd by (rule stream_loop_sock) (use i in simp_all)
    then have "sock_inv opened h1" if "stream_loop S (\<lambda>h. h) fd (length d) d h = (e, h1)" for fd e h1 using that by (metis snd_conv)
    then show ?thesis using DATAMODE_SEND i
      by (auto simp: http_datamode_callback_def http_datamode_send_def Let_def split: option.split prod.split)
  next
    case DATAMODE_EXIT
    then show ?thesis using i
      by (simp add: http_datamode_callback_def http_datamode_exit_def Let_def case_prod_unfold split: option.split)
  qed
qed

lemma extra_headers_sock [simp]: "sock_inv opened h \<Longrightarrow> sock_inv opened (snd (http_extra_headers E ts k h))"
  by (simp add: http_extra_headers_def Let_def case_prod_unfold)

lemma dup_into_sock:
  "(\<And>h. sock_inv opened h \<Longrightarrow> sock_inv opened (snd (f t h))) \<Longrightarrow> sock_inv opened h \<Longrightarrow> sock_inv opened (snd (dup_into E t f h))"
  by (simp add: dup_into_def case_prod_unfold)

lemma parse_url_sock [simp]: "sock_inv opened h \<Longrightarrow> sock_inv opened (snd (http_parse_url_components E H url k h))"
  unfolding http_parse_url_components_def Let_def
  by (auto split: option.split prod.split intro!: dup_into_sock)

lemma build_headers_sock: "http_alloc_build_headers E k h = (b, h') \<Longrightarrow> sock_inv opened h \<Longrightarrow> sock_inv opened h'"
  by (auto simp: http_alloc_build_headers_def Let_def case_prod_unfold split: option.splits if_splits)

lemma start_request_sock [simp]: "sock_inv opened h \<Longrightarrow> sock_inv opened (snd (http_start_request E S H k h))"
proof -
  assume i: "sock_inv opened h"
  obtain b h1 where c: "http_alloc_build_headers E k h = (b, h1)" by fastforce
  then show ?thesis using build_headers_sock [OF c i]
    by (cases b) (simp_all add: http_start_request_def Let_def case_prod_unfold split: option.split)
qed

lemma request_headers_sock [simp]: "sock_inv opened h \<Longrightarrow> sock_inv opened (snd (http_send_request_headers E S H k h))"
proof -
  assume i: "sock_inv opened h"
  obtain b h1 where c: "http_alloc_build_headers E k h = (b, h1)" by fastforce
  have "sock_inv opened (snd (stream_loop S (touch H k) fd n d (touch H k h1)))" for fd n d
    by (rule stream_loop_sock) (use build_headers_sock [OF c i] in simp_all)
  then have "sock_inv opened h2" if "stream_loop S (touch H k) fd n d (touch H k h1) = (e, h2)" for fd n d e h2
    using that by (metis snd_conv)
  then show ?thesis using c build_headers_sock [OF c i]
    by (auto simp: http_send_request_headers_def split: sum.split option.split prod.split)
qed

lemma setup_sock [simp]: "sock_inv opened h \<Longrightarrow> sock_inv opened (snd (http_setup E S H fd p ts k h))"
  by (simp add: http_setup_def http_begin_body_def Let_def case_prod_unfold)

lemma alloc_sock: "alloc_request E H h = (ok, h') \<Longrightarrow> sock_inv opened h \<Longrightarrow> sock_inv opened h'"
  by (auto simp: alloc_request_def case_prod_unfold split: option.splits if_splits)

lemma pull_parts_sock [simp]:
  "sock_inv_but opened K (pull_deliver E S k d h) = sock_inv_but opened K h"
  "sock_inv_but opened K h \<Longrightarrow> sock_inv_but opened K (snd (pull_complete E k d h))"
  by (simp_all add: pull_deliver_def pull_complete_def Let_def)

lemma pull_data_sock [simp]: "sock_inv opened h \<Longrightarrow> sock_inv opened (snd (pull_data E S H fd n h))"
  by (simp add: pull_data_def Let_def case_prod_unfold wcall_inv net_kept split: option.split)

lemma http_command_sock: "sock_inv opened h \<Longrightarrow> sock_inv opened (snd (http_command E S H P c ct p n h))"
proof -
  assume i: "sock_inv opened h"
  have "sock_inv opened (snd (handle_at_httpcreq E S H P ct p n h))"
    unfolding handle_at_httpcreq_def using i alloc_sock [OF _ i]
    by (auto split: at_parser_cmd_type.split option.split prod.split sum.split)
  moreover have "sock_inv opened (snd (handle_at_httpcdata E S H P ct p n h))"
    using i by (cases ct) (simp_all add: handle_at_httpcdata_def param_def Let_def split: sum.split)
  moreover have "sock_inv opened (snd (handle_at_httpccancel E P ct p h))"
    using i by (auto simp: handle_at_httpccancel_def split: at_parser_cmd_type.split option.split)
  ultimately show ?thesis by (simp add: http_command_def split: http_cmd.split)
qed

lemma http_at_cmd_sock: "sock_inv opened h \<Longrightarrow> sock_inv opened (snd (http_at_cmd S H P G E len s h))"
proof -
  assume i: "sock_inv opened h"
  have "sock_inv opened (snd (sm_at_cb_wrapper P len s (http_command E S H P c) h))" for c
    by (rule wrapper_inv [OF http_command_sock i])
  then show ?thesis using i by (simp add: http_at_cmd_def case_prod_unfold at_cmd_I split: option.split)
qed

section \<open>The hooks\<close>

lemma upd_http_world: "opened (h_world (upd_http f h)) = opened (h_world h)"
  by (simp add: upd_http_def opened_st)

lemma close_request_fds:
  "length (h_socks (http_close_request E k h)) = length (h_socks h)" "sk_fd (sock j (http_close_request E k h)) = sk_fd (sock j h)"
  "opened (h_world (http_close_request E k h)) = opened (h_world h)"
proof -
  have "sk_fd (sock j (upd_sock i (upd_poll f) h)) = sk_fd (sock j h)" for i f
    by (cases "j = i"; cases "i < length (h_socks h)") simp_all
  then show "length (h_socks (http_close_request E k h)) = length (h_socks h)" "sk_fd (sock j (http_close_request E k h)) = sk_fd (sock j h)"
    "opened (h_world (http_close_request E k h)) = opened (h_world h)"
    by (simp_all add: http_close_request_def xapoll_stop_def Let_def upd_http_world split: option.split)
qed

lemma urc_socks [simp]: "h_socks (urc_send_to E p t h) = h_socks h"
  by (rule out_frameD(12)) (simp add: frame)

lemma hooks_net: "sock_net (http_hooks E H S) opened"
proof -
  have u: "s_util (http_hooks E H S) = s_util S" by (simp add: http_hooks_def)
  show ?thesis
  proof
    show "length (h_socks (s_httpc_socket_closed (http_hooks E H S) fd h)) = length (h_socks h)"
      "sk_fd (sock k (s_httpc_socket_closed (http_hooks E H S) fd h)) = sk_fd (sock k h)"
      "opened (h_world (s_httpc_socket_closed (http_hooks E H S) fd h)) = opened (h_world h)" for fd h k
      by (simp_all add: http_hooks_def sm_at_httpc_socket_closed_def close_request_fds http_send_cancel_status_def Let_def split: option.split)
  qed (use socket_new socket_err accept_new accept_err close_others close_done net_kept at_cmd_kept resolve_kept poll_event_sock
      socket_closed_sock in \<open>auto simp: http_hooks_def\<close>)
qed

end

lemma http_handler_socks: "http_socks E S op \<Longrightarrow> http_socks (http_handler S H E) S op"
proof -
  assume a: "http_socks E S op"
  then have m: "host_machine E op (sock_inv op)" and n: "sock_net S op" and x: "http_socks_axioms op"
    by (simp_all add: http_socks_def sock_host_def)
  have "host_machine (http_handler S H E) op (sock_inv op)"
    unfolding http_handler_def
    by (subst replace_same, rule host_machine.replace_callbacks [OF m])
      (simp_all add: http_socks.datamode_sock [OF a] host_machine.handler_I [OF m] host_machine.at_cmd_I [OF m] host_machine.work_I [OF m])
  then show ?thesis using n x by (simp add: http_socks_def sock_host_def)
qed

lemma with_http_socks: "http_socks B S op \<Longrightarrow> http_socks (with_http S H P G B) S op"
proof -
  let ?E = "http_handler S H (http_handler S H B)"
  assume "http_socks B S op"
  then have a: "http_socks ?E S op" by (intro http_handler_socks)
  then have m: "host_machine ?E op (sock_inv op)" and n: "sock_net S op" and x: "http_socks_axioms op"
    by (simp_all add: http_socks_def sock_host_def)
  have "host_machine (?E\<lparr>e_datamode_handler := e_datamode_handler ?E, e_at_cmd := http_at_cmd S H P G ?E, e_run_work := e_run_work ?E\<rparr>) op (sock_inv op)"
    by (rule host_machine.replace_callbacks [OF m])
      (simp_all add: host_machine.handler_I [OF m] http_socks.http_at_cmd_sock [OF a] host_machine.work_I [OF m])
  then show ?thesis using n x by (simp add: http_socks_def sock_host_def with_http_def Let_def)
qed

lemma http_hooks_host: "http_socks E S op \<Longrightarrow> sock_host E (http_hooks E H S) op"
  using http_socks.hooks_net by (auto simp: http_socks_def sock_host_def)

end
