(* ===== verification/Sock_Props.thy ===== *)
theory Sock_Props
  imports Sock_Run
begin

unbundle bit_operations_syntax

text \<open>
  The properties of the sockets module: the table over all runs, opening and closing of descriptors,
  sending and receiving, poll notifications, and what goes wrong where the code forgets to reset or to
  check something.
\<close>

section \<open>The table\<close>

definition sock_fds :: "('rb, 'w) host \<Rightarrow> int set" where
  "sock_fds h = {sk_fd (sock k h) | k. k < SM_MAX_SOCKET_COUNT \<and> sk_fd (sock k h) \<noteq> INVALID_SOCKET}"

lemma init_all:
  "length (h_socks h) = SM_MAX_SOCKET_COUNT \<Longrightarrow>
   length (h_socks (fold (init_socket E) ks h)) = SM_MAX_SOCKET_COUNT \<and>
   (\<forall>k \<in> set ks. k < SM_MAX_SOCKET_COUNT \<longrightarrow> (\<exists>p. sock k (fold (init_socket E) ks h) = init_sock p)) \<and>
   (\<forall>k. (\<exists>p. sock k h = init_sock p) \<longrightarrow> (\<exists>p. sock k (fold (init_socket E) ks h) = init_sock p)) \<and>
   h_ctx (fold (init_socket E) ks h) = h_ctx h \<and> h_world (fold (init_socket E) ks h) = h_world h"
proof (induction ks arbitrary: h)
  case (Cons k ks)
  have len: "length (h_socks (init_socket E k h)) = SM_MAX_SOCKET_COUNT" using Cons.prems by (simp add: init_socket_def)
  have "\<exists>p. sock j (init_socket E k h) = init_sock p" if "(\<exists>p. sock j h = init_sock p) \<or> j = k \<and> k < SM_MAX_SOCKET_COUNT" for j
    using that Cons.prems by (cases "j = k"; cases "k < SM_MAX_SOCKET_COUNT") (auto simp: init_socket_def)
  moreover have "h_ctx (init_socket E k h) = h_ctx h" "h_world (init_socket E k h) = h_world h" by (simp_all add: init_socket_def)
  ultimately show ?case using Cons.IH [OF len] by auto
qed simp

lemma sm_at_socket_init_inv:
  assumes "length (h_socks h) = SM_MAX_SOCKET_COUNT" "\<And>i. ctx_ok (c_poll_ctx (h_ctx h i))"
  shows "sock_inv op (snd (sm_at_socket_init E h))"
proof -
  have "\<exists>p. sock k (snd (sm_at_socket_init E h)) = init_sock p" if "k < SM_MAX_SOCKET_COUNT" for k
    using init_all [OF assms(1), of E "[0..<SM_MAX_SOCKET_COUNT]"] that by (simp add: sm_at_socket_init_def)
  then have e: "sock_ok fds (sock k (snd (sm_at_socket_init E h)))" "sk_fd (sock k (snd (sm_at_socket_init E h))) = INVALID_SOCKET"
    if "k < SM_MAX_SOCKET_COUNT" for k fds using that by (metis sock_ok_init init_sock_sel(1))+
  show ?thesis using init_all [OF assms(1), of E "[0..<SM_MAX_SOCKET_COUNT]"] assms(2) e
    by (simp add: sock_inv_but_def) (simp add: sm_at_socket_init_def)
qed

lemma upd_sock_fds:
  assumes "length (h_socks h) = SM_MAX_SOCKET_COUNT" "k < SM_MAX_SOCKET_COUNT"
    "\<And>j. j < SM_MAX_SOCKET_COUNT \<Longrightarrow> j \<noteq> k \<Longrightarrow> sk_fd (sock j h) = INVALID_SOCKET \<or> sk_fd (sock j h) \<noteq> sk_fd (sock k h)"
    "\<And>s. sk_fd (f s) = INVALID_SOCKET"
  shows "sock_fds (upd_sock k f h) = sock_fds h - {sk_fd (sock k h)}"
proof -
  have "sk_fd (sock j (upd_sock k f h)) = (if j = k then INVALID_SOCKET else sk_fd (sock j h))" for j
    using assms(1,2,4) by (simp add: sock_upd)
  then show ?thesis using assms(3) by (auto simp: sock_fds_def split: if_splits) metis+
qed

context sock_host
begin

lemma rsp_send_sock [simp]: "h_socks (rsp_send E t h) = h_socks h"
  by (rule out_frameD(12) [OF rsp_send_frame])

text \<open>Closing an entry that is in use.\<close>

lemma do_socket_close_fds:
  assumes "sock_inv opened h" "k < SM_MAX_SOCKET_COUNT" "sk_fd (sock k h) \<noteq> INVALID_SOCKET"
    and "do_socket_close E S k h = (ret, h')" and errno: "\<And>w. 0 < m_errno (s_util S) w"
  shows "sk_fd (sock k h') = INVALID_SOCKET" and "sock_fds h' = sock_fds h - {sk_fd (sock k h)}"
    and "\<And>j. j \<noteq> k \<Longrightarrow> sk_fd (sock j h') = sk_fd (sock j h)" and "ret \<le> 0"
    and "opened (h_world h) - {sk_fd (sock k h)} \<subseteq> opened (h_world h')" and "opened (h_world h') \<subseteq> opened (h_world h)"
    and "ret = 0 \<Longrightarrow> opened (h_world h') = opened (h_world h) - {sk_fd (sock k h)}"
proof -
  let ?fd = "sk_fd (sock k h)"
  obtain r w where c: "s_close S ?fd (h_world h) = (r, w)" by fastforce
  let ?h1 = "h\<lparr>h_world := w\<rparr>" and ?ret = "if r \<noteq> 0 then - m_errno (s_util S) w else r"
  have "ret = ?ret \<and> (\<exists>t. h' = init_socket E k (if cfg_httpc S then s_httpc_socket_closed S ?fd (rsp_send E t ?h1) else rsp_send E t ?h1))"
    using assms(3,4) c by (cases "cfg_httpc S") (auto simp: do_socket_close_def wcall_split sock_errno_def Let_def)
  then obtain t where r: "ret = ?ret"
      "h' = init_socket E k (if cfg_httpc S then s_httpc_socket_closed S ?fd (rsp_send E t ?h1) else rsp_send E t ?h1)"
    by blast
  define h3 where "h3 = (if cfg_httpc S then s_httpc_socket_closed S ?fd (rsp_send E t ?h1) else rsp_send E t ?h1)"
  have r: "ret = ?ret" "h' = init_socket E k h3" using r by (simp_all add: h3_def)
  have h3: "length (h_socks h3) = length (h_socks h)" "sk_fd (sock j h3) = sk_fd (sock j h)" "opened (h_world h3) = opened w" for j
    by (simp_all add: h3_def httpc_closed)
  have len: "length (h_socks h) = SM_MAX_SOCKET_COUNT" using assms(1) by simp
  have "sock_fds h3 = sock_fds h" by (simp add: sock_fds_def h3(2))
  then show "sock_fds h' = sock_fds h - {?fd}" unfolding r(2) init_socket_def
    using upd_sock_fds [of h3 k "\<lambda>s. init_sock (sm_at_host_get_current_pipe E h3)"] len h3(1,2) assms(2)
      sock_inv_distinct [OF assms(1)] by simp
  show "sk_fd (sock k h') = INVALID_SOCKET" "\<And>j. j \<noteq> k \<Longrightarrow> sk_fd (sock j h') = sk_fd (sock j h)"
    using len h3(1,2) assms(2) by (simp_all add: r(2) init_socket_def)
  have o: "opened (h_world h') = opened w" using h3(3) by (simp add: r(2) init_socket_def)
  show "ret \<le> 0" using errno [of w] by (simp add: r(1))
  show "opened (h_world h) - {?fd} \<subseteq> opened (h_world h')" "opened (h_world h') \<subseteq> opened (h_world h)"
    using close_others [OF c] by (simp_all add: o)
  assume "ret = 0"
  then have "r = 0" using errno [of w] r(1) by (simp split: if_splits)
  then show "opened (h_world h') = opened (h_world h) - {?fd}" using close_done close_others [OF c] c o by blast
qed

lemma close_all:
  assumes "sock_inv opened h" "set ks \<subseteq> {..<SM_MAX_SOCKET_COUNT}" "fold (close_step E S) ks (err, h) = (err', h')"
    and errno: "\<And>w. 0 < m_errno (s_util S) w" and "err \<le> 0"
  shows "(\<forall>k \<in> set ks. sk_fd (sock k h') = INVALID_SOCKET) \<and>
    (\<forall>k. sk_fd (sock k h') = sk_fd (sock k h) \<or> sk_fd (sock k h') = INVALID_SOCKET) \<and>
    opened (h_world h) - sock_fds h \<subseteq> opened (h_world h') \<and> opened (h_world h') \<subseteq> opened (h_world h) \<and> err' \<le> 0 \<and>
    sock_fds h' \<subseteq> sock_fds h \<and>
    (err' = 0 \<longrightarrow> err = 0 \<and> opened (h_world h') = opened (h_world h) - (sock_fds h - sock_fds h'))"
  using assms(1-3,5)
proof (induction ks arbitrary: err h)
  case (Cons k ks)
  show ?case
  proof (cases "sk_fd (sock k h) = INVALID_SOCKET")
    case True
    then have "fold (close_step E S) ks (err, h) = (err', h')" using Cons.prems(3) by (simp add: close_step_def [of E S k])
    note ih = Cons.IH [OF Cons.prems(1) _ this Cons.prems(4)]
    then have "sk_fd (sock k h') = INVALID_SOCKET" using True Cons.prems(2) by (metis insert_subset list.simps(15))
    then show ?thesis using ih Cons.prems(2) by simp
  next
    case False
    obtain ret h1 where c: "do_socket_close E S k h = (ret, h1)" by fastforce
    let ?e = "if ret < 0 then ret else err"
    have k: "k < SM_MAX_SOCKET_COUNT" using Cons.prems by simp
    note f = do_socket_close_fds [OF Cons.prems(1) k False c errno]
    have inv: "sock_inv opened h1" using do_socket_close_inv [OF Cons.prems(1) k] c by simp
    have fold: "fold (close_step E S) ks (?e, h1) = (err', h')" using Cons.prems(3) False c by (simp add: close_step_def [of E S k])
    have mem: "sk_fd (sock k h) \<in> sock_fds h" using k False by (auto simp: sock_fds_def)
    have op: "sk_fd (sock k h) \<in> opened (h_world h)" using Cons.prems(1) k False by (simp add: sock_inv_but_def sock_ok_def)
    have "?e \<le> 0" using f(4) Cons.prems(4) by simp
    with Cons.IH [OF inv _ fold] Cons.prems(2)
    have ih: "\<forall>j \<in> set ks. sk_fd (sock j h') = INVALID_SOCKET"
      "\<And>j. sk_fd (sock j h') = sk_fd (sock j h1) \<or> sk_fd (sock j h') = INVALID_SOCKET"
      "opened (h_world h1) - sock_fds h1 \<subseteq> opened (h_world h')" "opened (h_world h') \<subseteq> opened (h_world h1)" "err' \<le> 0"
      "sock_fds h' \<subseteq> sock_fds h1" "err' = 0 \<Longrightarrow> ?e = 0 \<and> opened (h_world h') = opened (h_world h1) - (sock_fds h1 - sock_fds h')"
      by auto
    have "sk_fd (sock k h') = INVALID_SOCKET" using ih(2) [of k] f(1) by simp
    moreover have "sk_fd (sock j h') = sk_fd (sock j h) \<or> sk_fd (sock j h') = INVALID_SOCKET" for j
      using ih(2) [of j] f(1) f(3) [of j] by (cases "j = k") auto
    moreover have "opened (h_world h) - sock_fds h \<subseteq> opened (h_world h')" using ih(3) f(2,5) mem by auto
    moreover have "err = 0 \<and> opened (h_world h') = opened (h_world h) - (sock_fds h - sock_fds h')" if "err' = 0"
    proof -
      have e: "?e = 0" "opened (h_world h') = opened (h_world h1) - (sock_fds h1 - sock_fds h')" using ih(7) that by auto
      then have "ret = 0" "err = 0" using f(4) by (auto split: if_splits)
      with f(7) e(2) f(2) ih(6) mem show ?thesis by auto
    qed
    ultimately show ?thesis using ih(1,4,5,6) f(2,6) by auto
  qed
qed (auto simp: sock_fds_def)

end

section \<open>Opening\<close>

text \<open>The state in which a command opens a socket in entry \<open>k\<close>, and what it may do: add one new descriptor,
  or fail without one.\<close>

definition open_pre :: "('w \<Rightarrow> int set) \<Rightarrow> int set \<Rightarrow> (nat \<Rightarrow> int) \<Rightarrow> nat \<Rightarrow> ('rb, 'w) host \<Rightarrow> bool" where
  "open_pre op fds tab k h \<longleftrightarrow> free_entry op k h \<and> op (h_world h) = fds \<and> (\<forall>j. j \<noteq> k \<longrightarrow> sk_fd (sock j h) = tab j) \<and>
     poll_ctx_from_sock k h \<noteq> None"

definition open_post :: "('w \<Rightarrow> int set) \<Rightarrow> int set \<Rightarrow> (nat \<Rightarrow> int) \<Rightarrow> nat \<Rightarrow> int \<times> ('rb, 'w) host \<Rightarrow> bool" where
  "open_post op fds tab k r \<longleftrightarrow> length (h_socks (snd r)) = SM_MAX_SOCKET_COUNT \<and> (\<forall>j. j \<noteq> k \<longrightarrow> sk_fd (sock j (snd r)) = tab j) \<and>
     (if fst r = 0 then sk_fd (sock k (snd r)) \<notin> fds \<and> 0 \<le> sk_fd (sock k (snd r)) \<and> op (h_world (snd r)) = insert (sk_fd (sock k (snd r))) fds
      else op (h_world (snd r)) = fds)"

definition opens_one :: "('w \<Rightarrow> int set) \<Rightarrow> int set \<Rightarrow> (nat \<Rightarrow> int) \<Rightarrow> nat \<Rightarrow> (('rb, 'w) host \<Rightarrow> int \<times> ('rb, 'w) host) \<Rightarrow> bool" where
  "opens_one op fds tab k f \<longleftrightarrow> (\<forall>h. open_pre op fds tab k h \<longrightarrow> open_post op fds tab k (f h))"

text \<open>In between, the entry has the new descriptor.\<close>

definition open_mid :: "('w \<Rightarrow> int set) \<Rightarrow> int set \<Rightarrow> (nat \<Rightarrow> int) \<Rightarrow> nat \<Rightarrow> int \<Rightarrow> ('rb, 'w) host \<Rightarrow> bool" where
  "open_mid op fds tab k fd h \<longleftrightarrow> sk_fd (sock k h) = fd \<and> 0 \<le> fd \<and> fd \<notin> fds \<and> op (h_world h) = insert fd fds \<and>
     length (h_socks h) = SM_MAX_SOCKET_COUNT \<and> (\<forall>j. j \<noteq> k \<longrightarrow> sk_fd (sock j h) = tab j) \<and> poll_ctx_from_sock k h \<noteq> None"

lemma free_entry_length [simp]: "free_entry op k h \<Longrightarrow> length (h_socks h) = SM_MAX_SOCKET_COUNT"
  by (auto simp: free_entry_def)

lemma poll_ctx_upd_sock:
  assumes "k < length (h_socks h)" "sk_pipe (f (sock k h)) = sk_pipe (sock k h)"
  shows "poll_ctx_from_sock j (upd_sock k f h) = poll_ctx_from_sock j h"
proof -
  have "sk_pipe (sock j (upd_sock k f h)) = sk_pipe (sock j h)" using assms by (cases "j = k") simp_all
  moreover note lookup_cong(2) [of "upd_sock k f h" h]
  ultimately show ?thesis by (simp add: poll_ctx_from_sock_def)
qed

lemma poll_ctx_world: "poll_ctx_from_sock j (h\<lparr>h_world := w\<rparr>) = poll_ctx_from_sock j h"
  using lookup_cong(2) [of "h\<lparr>h_world := w\<rparr>" h] by (simp add: poll_ctx_from_sock_def)

lemma poll_ctx_out:
  assumes "out_frame h h'"
  shows "poll_ctx_from_sock j h' = poll_ctx_from_sock j h"
  using lookup_cong(2) [OF out_frameD(1) [OF assms] ctx_frameD(1) [OF out_frameD(10) [OF assms]]] out_frameD(12) [OF assms]
  by (simp add: poll_ctx_from_sock_def)

context sock_host
begin

lemma update_poll_fds:
  "sk_fd (sock j (snd (update_poll_events E S k ev x h))) = sk_fd (sock j h)"
  "opened (h_world (snd (update_poll_events E S k ev x h))) = opened (h_world h)"
proof -
  have "sk_fd (sock j (upd_sock k f h)) = sk_fd (sock j h)" if "\<And>s. sk_fd (f s) = sk_fd s" for f and h :: "('rb, 'w) host"
    using that by (cases "k < length (h_socks h)"; cases "j = k") simp_all
  then show "sk_fd (sock j (snd (update_poll_events E S k ev x h))) = sk_fd (sock j h)"
    by (simp add: update_poll_events_def set_so_poll_cb_def wcall_split Let_def)
  show "opened (h_world (snd (update_poll_events E S k ev x h))) = opened (h_world h)"
    by (simp add: update_poll_events_def set_so_poll_cb_def wcall_split Let_def call_kept)
qed

lemma update_poll_length [simp]: "length (h_socks (snd (update_poll_events E S k ev x h))) = length (h_socks h)"
  by (simp add: update_poll_events_def set_so_poll_cb_def wcall_split Let_def)

lemma adopt_fds:
  "sk_fd (sock j (adopt_poll_ctx E S i k h)) = sk_fd (sock j h)" "opened (h_world (adopt_poll_ctx E S i k h)) = opened (h_world h)"
  "length (h_socks (adopt_poll_ctx E S i k h)) = length (h_socks h)"
  by (cases "k < length (h_socks h)"; cases "j = k"; simp add: adopt_poll_ctx_def Let_def update_poll_fds)+

text \<open>The descriptor was opened: the steps behind end with it closed, or with success.\<close>

lemma opened_step:
  assumes mid: "open_mid opened fds tab k fd h" and close_ok: "\<And>fd w. fst (s_close S fd w) = 0"
  shows "ret \<noteq> 0 \<Longrightarrow> open_post opened fds tab k (open_error S k ret h)" and "open_post opened fds tab k (socket_opened E S k nm pr h)"
proof -
  assume "ret \<noteq> 0"
  obtain w where c: "s_close S fd (h_world h) = (0, w)" using close_ok [of fd "h_world h"] by (metis prod.collapse)
  have "opened w = fds" using close_done [OF c] close_others [OF c] mid by (auto simp: open_mid_def)
  then show "open_post opened fds tab k (open_error S k ret h)"
    using \<open>ret \<noteq> 0\<close> c mid by (simp add: open_error_def wcall_split open_post_def open_mid_def)
next
  obtain i where "poll_ctx_from_sock k h = Some i" using mid by (auto simp: open_mid_def)
  then show "open_post opened fds tab k (socket_opened E S k nm pr h)"
    using mid by (simp add: socket_opened_def Let_def poll_ctx_out [OF rsp_send_frame] open_post_def adopt_fds open_mid_def)
qed

text \<open>The functions that open a socket, and the parameters that precede them.\<close>

lemma open_with_one:
  assumes "open_pre opened fds tab k h" "k < SM_MAX_SOCKET_COUNT" "\<And>w. 0 < m_errno (s_util S) w"
    and g: "\<And>fd h. open_mid opened fds tab k fd h \<Longrightarrow> open_post opened fds tab k (g fd h)"
  shows "open_post opened fds tab k (case wcall (s_socket S fam ty pr) h of (ret, h) \<Rightarrow>
    if ret < 0 then (- sock_errno S h, h) else g ret (upd_sock k (\<lambda>s. s\<lparr>sk_fd := ret\<rparr>) h))"
proof -
  obtain fd w where s: "s_socket S fam ty pr (h_world h) = (fd, w)" by fastforce
  have pre: "opened (h_world h) = fds" "\<And>j. j \<noteq> k \<Longrightarrow> sk_fd (sock j h) = tab j" "poll_ctx_from_sock k h \<noteq> None"
    and len: "length (h_socks h) = SM_MAX_SOCKET_COUNT" using assms(1) by (auto simp: open_pre_def free_entry_def)
  let ?h = "upd_sock k (\<lambda>s. s\<lparr>sk_fd := fd\<rparr>) (h\<lparr>h_world := w\<rparr>)"
  show ?thesis
  proof (cases "fd < 0")
    case True
    then show ?thesis using socket_err [OF s] pre len s assms(3) [of w]
      by (simp add: wcall_split open_post_def sock_errno_def)
  next
    case False
    then have n: "fd \<notin> fds" "opened w = insert fd fds" using socket_new [OF s] pre(1) by auto
    have "poll_ctx_from_sock k ?h \<noteq> None"
      by (subst poll_ctx_upd_sock) (use len assms(2) pre(3) in \<open>simp_all add: poll_ctx_world\<close>)
    then have "open_post opened fds tab k (g fd ?h)" using False n len assms(2) pre(2) by (intro g) (simp add: open_mid_def)
    then show ?thesis using False s by (simp add: wcall_split)
  qed
qed

text \<open>Calls that leave the state as it is, but for the rest of the world.\<close>

lemma mid_kept:
  "open_mid opened fds tab k fd (snd (bind_to_pdn S k h)) = open_mid opened fds tab k fd h"
  "(\<And>w. opened (snd (f w)) = opened w) \<Longrightarrow> open_mid opened fds tab k fd (snd (wcall f h)) = open_mid opened fds tab k fd h"
  by (simp_all add: open_mid_def bind_to_pdn_def wcall_split call_kept poll_ctx_world)

lemma do_open_one:
  assumes "k < SM_MAX_SOCKET_COUNT" "\<And>w. 0 < m_errno (s_util S) w" and close_ok: "\<And>fd w. fst (s_close S fd w) = 0"
  shows "opens_one opened fds tab k (do_socket_open E S k)" and "opens_one opened fds tab k (do_secure_socket_open E S k pv)"
proof -
  have e: "- sock_errno S h1 \<noteq> 0" for h1 :: "('rb, 'w) host" using assms(2) [of "h_world h1"] by (simp add: sock_errno_def)
  note st = opened_step [OF _ close_ok]
  have g: "open_post opened fds tab k (case wcall (s_setsockopt S fd SOL_SOCKET SO_SNDTIMEO (VTime SOCKET_SEND_TMO_SEC)) h1 of (ret, h) \<Rightarrow>
      if ret \<noteq> 0 then open_error S k (- sock_errno S h) h
      else case bind_to_pdn S k h of (ret, h) \<Rightarrow> if ret \<noteq> 0 then open_error S k ret h else g h)"
    if "open_mid opened fds tab k fd h1" "\<And>h1. open_mid opened fds tab k fd h1 \<Longrightarrow> open_post opened fds tab k (g h1)" for fd h1 g
    using that e by (simp add: case_prod_unfold st [where fd = fd] mid_kept call_kept)
  have tls: "open_post opened fds tab k (case wcall (s_setsockopt S fd SOL_TLS TLS_SEC_TAG_LIST (VNum (sk_sec_tag (sock k h1)))) h1 of (ret, h) \<Rightarrow>
      if ret \<noteq> 0 then open_error S k (- sock_errno S h) h
      else case wcall (s_setsockopt S fd SOL_TLS TLS_PEER_VERIFY (VNum pv)) h of (ret, h) \<Rightarrow>
        if ret \<noteq> 0 then open_error S k (- sock_errno S h) h else socket_opened E S k nm proto h)"
    if "open_mid opened fds tab k fd h1" for fd h1 nm proto
    using that e by (simp add: case_prod_unfold st [where fd = fd] mid_kept call_kept)
  have fail: "r \<noteq> 0 \<Longrightarrow> open_pre opened fds tab k h \<Longrightarrow> open_post opened fds tab k (r, h)" for r and h :: "('rb, 'w) host"
    by (auto simp: open_pre_def open_post_def)
  show "opens_one opened fds tab k (do_socket_open E S k)" unfolding opens_one_def do_socket_open_def Let_def
    by (auto simp: fail split: option.split intro!: open_with_one assms(1,2) g st)
  show "opens_one opened fds tab k (do_secure_socket_open E S k pv)" unfolding opens_one_def do_secure_socket_open_def Let_def
    by (auto simp: fail intro!: open_with_one assms(1,2) g tls)
qed

lemma open_pre_upd:
  assumes "open_pre opened fds tab k h" "k < SM_MAX_SOCKET_COUNT" "keeps_entry g" "\<And>s. sk_pipe (g s) = sk_pipe s"
  shows "open_pre opened fds tab k (upd_sock k g h)"
proof -
  have "k < length (h_socks h)" using assms(1,2) by (auto simp: open_pre_def free_entry_def)
  then show ?thesis using assms poll_ctx_upd_sock [of k h g k] by (simp add: open_pre_def free_entry_upd)
qed

lemma opens_one_param: "(\<And>v. opens_one opened fds tab k (f v)) \<Longrightarrow> r \<noteq> Inl 0 \<Longrightarrow> opens_one opened fds tab k (param r f)"
  by (auto simp: opens_one_def param_def open_pre_def open_post_def split: sum.split)

lemma opens_one_upd: "opens_one opened fds tab k f \<Longrightarrow> k < SM_MAX_SOCKET_COUNT \<Longrightarrow> keeps_entry g \<Longrightarrow> (\<And>s. sk_pipe (g s) = sk_pipe s) \<Longrightarrow>
    opens_one opened fds tab k (\<lambda>h. f (upd_sock k g h))"
  by (simp add: opens_one_def open_pre_upd)

lemma opens_one_cid:
  assumes "opens_one opened fds tab k f" "k < SM_MAX_SOCKET_COUNT" "ap_num_get_u16 P p i \<noteq> Inl 0"
  shows "opens_one opened fds tab k (cid_param P p n i k f)"
proof (cases "i < n")
  case True
  have "open_post opened fds tab k (if 10 < v then (- EINVAL, upd_sock k (\<lambda>s. s\<lparr>sk_cid := v\<rparr>) h)
      else f (upd_sock k (\<lambda>s. s\<lparr>sk_cid := v\<rparr>) h))" if "open_pre opened fds tab k h" for v h
  proof -
    have len: "k < length (h_socks h)" using that assms(2) by (auto simp: open_pre_def free_entry_def)
    have "open_pre opened fds tab k (upd_sock k (\<lambda>s. s\<lparr>sk_cid := v\<rparr>) h)" if "v \<le> 10"
      using \<open>open_pre opened fds tab k h\<close> that assms(2) poll_ctx_upd_sock [OF len, of "\<lambda>s. s\<lparr>sk_cid := v\<rparr>" k]
      by (simp add: open_pre_def free_entry_cid)
    then show ?thesis using assms(1) that by (auto simp: opens_one_def not_less open_pre_def open_post_def)
  qed
  then have "opens_one opened fds tab k (param (ap_num_get_u16 P p i)
      (\<lambda>v h. let h = upd_sock k (\<lambda>s. s\<lparr>sk_cid := v\<rparr>) h in if 10 < v then (- EINVAL, h) else f h))"
    by (intro opens_one_param assms(3)) (simp add: opens_one_def Let_def)
  then show ?thesis using True by (simp add: opens_one_def cid_param_def)
qed (use assms(1) in \<open>simp add: opens_one_def cid_param_def\<close>)

lemma opens_one_params:
  assumes "opens_one opened fds tab k f" "k < SM_MAX_SOCKET_COUNT"
    and "\<And>i. num_int P p i \<noteq> Inl 0" "\<And>i. ap_num_get_u16 P p i \<noteq> Inl 0"
  shows "opens_one opened fds tab k (open_params P p k f)"
  unfolding open_params_def Let_def using assms by (intro opens_one_param opens_one_upd) simp_all

text \<open>The whole command: a descriptor more, in the table too, or none.\<close>

lemma open_command_one:
  assumes inv: "sock_inv opened h" and "sm_at_host_get_async_poll_ctx (sm_at_host_get_current_pipe E h) h \<noteq> None"
    and f: "\<And>k fds tab. k < SM_MAX_SOCKET_COUNT \<Longrightarrow> opens_one opened fds tab k (f k)"
    and "open_command E f h = (err, h')"
  shows "if err = 0 then \<exists>fd. 0 \<le> fd \<and> fd \<notin> opened (h_world h) \<and> opened (h_world h') = insert fd (opened (h_world h)) \<and>
      sock_fds h' = insert fd (sock_fds h)
    else opened (h_world h') = opened (h_world h) \<and> sock_fds h' = sock_fds h"
proof (cases "find_avail_socket h")
  case None
  then show ?thesis using assms(4) by (auto simp: open_command_def)
next
  case (Some k)
  then have k: "k < SM_MAX_SOCKET_COUNT" "sk_fd (sock k h) = INVALID_SOCKET" by (simp_all add: find_avail_Some)
  have len: "length (h_socks h) = SM_MAX_SOCKET_COUNT" using inv by simp
  let ?h = "init_socket E k h" and ?tab = "\<lambda>j. sk_fd (sock j h)"
  have entry: "sock k ?h = init_sock (sm_at_host_get_current_pipe E h)" "\<And>j. j \<noteq> k \<Longrightarrow> sock j ?h = sock j h"
    "h_world ?h = h_world h" using len k by (simp_all add: init_socket_def)
  have "free_entry opened k ?h" using inv k entry(1) by (simp add: free_entry_def)
  moreover have "poll_ctx_from_sock k ?h = sm_at_host_get_async_poll_ctx (sm_at_host_get_current_pipe E h) h"
    using lookup_cong(2) [of ?h h] entry(1) by (simp add: poll_ctx_from_sock_def init_sock_def init_socket_def)
  ultimately have "open_pre opened (opened (h_world h)) ?tab k ?h" using assms(2) entry by (simp add: open_pre_def)
  then have post: "open_post opened (opened (h_world h)) ?tab k (f k ?h)" using f [OF k(1)] by (simp add: opens_one_def)
  obtain e h1 where e: "f k ?h = (e, h1)" by fastforce
  have r: "err = e" "h' = (if err \<noteq> 0 then init_socket E k h1 else h1)" using assms(4) Some e by (auto simp: open_command_def)
  have others: "j \<noteq> k \<Longrightarrow> sk_fd (sock j h') = sk_fd (sock j h)" for j
    using post e r by (simp add: open_post_def) (simp add: init_socket_def)
  show ?thesis
  proof (cases "err = 0")
    case True
    then have "sock_fds h' = insert (sk_fd (sock k h1)) (sock_fds h)"
      using others k post e r by (auto simp: sock_fds_def open_post_def) metis+
    then show ?thesis using True post e r by (auto simp: open_post_def)
  next
    case False
    have "k < length (h_socks h1)" using post e k(1) by (simp add: open_post_def)
    then have "sk_fd (sock k h') = INVALID_SOCKET" using r False k by (simp add: init_socket_def)
    then have "sock_fds h' = sock_fds h" using others k(2) by (auto simp: sock_fds_def) metis+
    then show ?thesis using False post e r by (simp add: open_post_def) (simp add: init_socket_def)
  qed
qed

lemma socket_commands_one:
  assumes "sock_inv opened h" and "sm_at_host_get_async_poll_ctx (sm_at_host_get_current_pipe E h) h \<noteq> None"
    and errno: "\<And>w. 0 < m_errno (s_util S) w" and close_ok: "\<And>fd w. fst (s_close S fd w) = 0"
    and num: "\<And>i. num_int P p i \<noteq> Inl 0" "\<And>i. ap_num_get_u16 P p i \<noteq> Inl 0"
    and "c = XSOCKET \<or> c = XSSOCKET" and "sock_command E S P c CMD_TYPE_SET p n h = (err, h')"
  shows "if err = 0 then \<exists>fd. 0 \<le> fd \<and> fd \<notin> opened (h_world h) \<and> opened (h_world h') = insert fd (opened (h_world h)) \<and>
      sock_fds h' = insert fd (sock_fds h)
    else opened (h_world h') = opened (h_world h) \<and> sock_fds h' = sock_fds h"
proof -
  have cid: "opens_one opened fds tab k (cid_param P p n i k (do_socket_open E S k))"
    "opens_one opened fds tab k (cid_param P p n i k (do_secure_socket_open E S k pv))" if "k < SM_MAX_SOCKET_COUNT" for fds tab k i pv
    using that by (intro opens_one_cid do_open_one errno close_ok num; simp)+
  have sec: "opens_one opened fds tab k (\<lambda>h. if 5 < n then param (ap_num_get_u16 P p 5) (\<lambda>v. cid_param P p n 6 k (do_secure_socket_open E S k (uint v)))
       (upd_sock k (\<lambda>s. s\<lparr>sk_sec_tag := v\<rparr>) h)
     else cid_param P p n 6 k (do_secure_socket_open E S k (s_peer_verify_required S)) (upd_sock k (\<lambda>s. s\<lparr>sk_sec_tag := v\<rparr>) h))"
    if "k < SM_MAX_SOCKET_COUNT" for fds tab k v
    using that by (cases "5 < n") (auto intro!: opens_one_upd opens_one_param cid num)
  show ?thesis
  proof (cases "c = XSOCKET")
    case True
    show ?thesis by (rule open_command_one [OF assms(1,2)])
      (use assms(8) True in \<open>auto simp: sock_command_def handle_at_socket_def intro!: opens_one_params cid num\<close>)
  next
    case False
    show ?thesis by (rule open_command_one [OF assms(1,2)])
      (use assms(7,8) False in \<open>auto simp: sock_command_def handle_at_secure_socket_def Let_def
         intro!: opens_one_params opens_one_upd opens_one_param sec num\<close>)
  qed
qed

end

section \<open>Properties\<close>

text \<open>C10: Start the module and let the host run with its commands, its data mode handler, its work items and
  its callbacks, in any order. The table keeps its eight entries; the descriptors of the entries in use
  are open, not negative and pairwise different; each entry has a PDP context identifier of at most ten
  and a setting of automatic reception that the command allows.\<close>

theorem socket_table_invariant:
  fixes evs :: "sock_event list" and B :: "('rb, 'w) env" and S :: "('rb, 'w) sock_env" and P :: "'p at_parser_ops" and F
  assumes "sock_host B S opened" and "length (h_socks h) = SM_MAX_SOCKET_COUNT" and "\<And>i. ctx_ok (c_poll_ctx (h_ctx h i))"
  defines "h' \<equiv> foldl (sock_step (with_sockets S P F B)) (snd (sm_at_socket_init B h)) evs"
  shows "length (h_socks h') = SM_MAX_SOCKET_COUNT \<and>
    (\<forall>k < SM_MAX_SOCKET_COUNT. sk_cid (sock k h') \<le> 10 \<and>
       adr_ok (po_adr_flags (sk_async_poll (sock k h'))) (po_adr_hex (sk_async_poll (sock k h'))) \<and>
       (sk_fd (sock k h') \<noteq> INVALID_SOCKET \<longrightarrow> 0 \<le> sk_fd (sock k h') \<and> sk_fd (sock k h') \<in> opened (h_world h') \<and>
          (\<forall>j < SM_MAX_SOCKET_COUNT. j \<noteq> k \<longrightarrow> sk_fd (sock j h') \<noteq> sk_fd (sock k h'))))"
proof -
  have "sock_inv opened (snd (sm_at_socket_init B h))" by (rule sm_at_socket_init_inv) (use assms in auto)
  then have inv: "sock_inv opened h'"
    unfolding h'_def by (rule sock_host.sock_run [OF with_sockets_host [OF assms(1)]])
  then have "sk_fd (sock j h') \<noteq> sk_fd (sock k h')"
    if "j < SM_MAX_SOCKET_COUNT" "k < SM_MAX_SOCKET_COUNT" "j \<noteq> k" "sk_fd (sock k h') \<noteq> INVALID_SOCKET" for j k
    using that unfolding sock_inv_but_def by (metis empty_iff)
  with inv show ?thesis by (simp add: sock_inv_but_def sock_ok_def)
qed

text \<open>C32: AT#XCLOSE without a handle frees every entry of the table, whatever fails. Descriptors that are
  not in the table stay open; and when the command succeeds, exactly the descriptors of the table have
  been closed.\<close>

theorem close_all_frees_table:
  fixes P :: "'p at_parser_ops"
  assumes "sock_host E S opened" and "sock_inv opened h" and "\<And>w. 0 < m_errno (s_util S) w" and "param_count \<le> 1"
    and "handle_at_close E S P CMD_TYPE_SET parser param_count h = (err, h')"
  shows "sock_fds h' = {} \<and> opened (h_world h) - sock_fds h \<subseteq> opened (h_world h') \<and>
    (err = 0 \<longrightarrow> opened (h_world h') = opened (h_world h) - sock_fds h)"
proof -
  have "fold (close_step E S) [0..<SM_MAX_SOCKET_COUNT] (0, h) = (err, h')" using assms(4,5) by (simp add: handle_at_close_def)
  note c = sock_host.close_all [OF assms(1,2) _ this assms(3)]
  have "sk_fd (sock k h') = INVALID_SOCKET" if "k < SM_MAX_SOCKET_COUNT" for k using c that by (simp add: subset_iff)
  then have "sock_fds h' = {}" by (auto simp: sock_fds_def)
  then show ?thesis using c by (auto simp: subset_iff)
qed


end
