(* ===== verification/Sock_Data.thy ===== *)
theory Sock_Data
  imports Sock_Run
begin

unbundle bit_operations_syntax

text \<open>
  Data through a socket: a send command puts a prefix of its data on the descriptor, in order and once,
  and says how long it was; hexadecimal output in pieces is the output of the whole; and what a receive
  command asks the sockets layer for fits the buffer.
\<close>

section \<open>Sending\<close>

text \<open>A round of sending: the descriptor took a prefix of the data, all of it unless there was an error.\<close>

definition took ::
  "(int \<Rightarrow> 'w \<Rightarrow> bytes) \<Rightarrow> int \<Rightarrow> nat \<Rightarrow> bytes \<Rightarrow> ('rb, 'w) host \<Rightarrow> (int \<times> nat) \<times> ('rb, 'w) host \<Rightarrow> bool" where
  "took out fd sent data h r \<longleftrightarrow> (case r of ((ret', sent'), h') \<Rightarrow>
     h_fault h' = h_fault h \<and> h_socks h' = h_socks h \<and>
     (\<exists>n \<le> length data. sent' = sent + n \<and> out fd (h_world h') = out fd (h_world h) @ take n data \<and> (n = length data \<or> ret' < 0)))"

text \<open>What a stream descriptor has taken so far. A call of the sockets layer takes some of the data, at
  least one byte when it does not fail, and options do not take any.\<close>

locale sock_stream = world_kept E "out fd"
  for E :: "('rb, 'w) env" and S :: "('rb, 'w) sock_env" and out :: "int \<Rightarrow> 'w \<Rightarrow> bytes" and fd :: int +
  assumes send_taken: "s_send S fd d fl w = (r, w') \<Longrightarrow> d \<noteq> [] \<Longrightarrow> 0 \<le> r \<Longrightarrow>
      0 < r \<and> r \<le> int (length d) \<and> out fd w' = out fd w @ take (nat r) d"
    and send_failed: "s_send S fd d fl w = (r, w') \<Longrightarrow> r < 0 \<Longrightarrow> out fd w' = out fd w"
    and option_out: "out fd (snd (s_setsockopt S fd' l opt v w)) = out fd w"
    and errno_pos: "0 < m_errno (s_util S) w"
begin

lemma took_step:
  assumes "took out fd (sent + nat r) (drop (nat r) data) (h\<lparr>h_world := w\<rparr>) x" "0 \<le> r" "r \<le> int (length data)"
    "out fd w = out fd (h_world h) @ take (nat r) data"
  shows "took out fd sent data h x"
proof -
  obtain ret' sent' h' where x: "x = ((ret', sent'), h')" by (metis surj_pair)
  obtain n where "n \<le> length data - nat r" "sent' = sent + nat r + n" "n = length data - nat r \<or> ret' < 0"
    "out fd (h_world h') = out fd w @ take n (drop (nat r) data)" "h_fault h' = h_fault h" "h_socks h' = h_socks h"
    using assms(1) by (auto simp: took_def x)
  then show ?thesis using assms(2-4) by (auto simp: took_def x take_add intro!: exI [of _ "nat r + n"])
qed

lemma send_loop_prefix: "length data \<le> fuel \<Longrightarrow> took out fd sent data h (send_loop S fd fl fuel ret sent data h)"
proof (induction fuel arbitrary: ret sent data h)
  case (Suc fuel)
  obtain r w where call: "s_send S fd data fl (h_world h) = (r, w)" by fastforce
  show ?case
  proof (cases data)
    case (Cons b bs)
    have t: "0 < r \<and> r \<le> int (length data) \<and> out fd w = out fd (h_world h) @ take (nat r) data" if "0 \<le> r"
      using send_taken [OF call] Cons that by simp
    show ?thesis
    proof (cases "r < 0")
      case True
      then show ?thesis using send_failed [OF call] errno_pos [of w] Cons call by (auto simp: took_def wcall_def sock_errno_def)
    next
      case False
      then have "length (drop (nat r) data) \<le> fuel" using t Suc.prems Cons by (cases "nat r") auto
      then have "took out fd sent data h (send_loop S fd fl fuel r (sent + nat r) (drop (nat r) data) (h\<lparr>h_world := w\<rparr>))"
        by (rule took_step [OF Suc.IH]) (use t False in simp_all)
      then show ?thesis using False Cons call by (simp add: wcall_def)
    qed
  qed (simp add: took_def)
qed (simp add: took_def)

lemma prepare_send_out: "out fd (h_world (snd (prepare_send_cb S k ntf h))) = out fd (h_world h)"
  by (simp add: prepare_send_cb_def set_so_send_cb_def clear_so_send_cb_def wcall_split option_out)

lemma update_poll_out: "out fd (h_world (snd (update_poll_events E S k ev x h))) = out fd (h_world h)"
  by (simp add: update_poll_events_def set_so_poll_cb_def wcall_split Let_def option_out)

lemma prepare_send_fd: "sk_fd (sock j (snd (prepare_send_cb S k ntf h))) = sk_fd (sock j h)"
  by (cases "k < length (h_socks h)"; cases "j = k")
    (simp_all add: prepare_send_cb_def set_so_send_cb_def clear_so_send_cb_def wcall_split)

lemma do_send_prefix:
  assumes "sk_fd (sock k h) = fd" "do_send E S k data fl h = (ret, h')"
  shows "\<exists>n \<le> length data. out fd (h_world h') = out fd (h_world h) @ take n data \<and>
    (if 0 < n then ret = int n else ret \<le> 0 \<or> data = [])"
proof -
  define ntf where "ntf \<longleftrightarrow> fl AND SM_MSG_SEND_ACK \<noteq> 0"
  define fl' where "fl' = (if ntf then fl AND NOT SM_MSG_SEND_ACK else fl)"
  obtain r h1 where p: "prepare_send_cb S k ntf h = (r, h1)" by fastforce
  have o1: "out fd (h_world h1) = out fd (h_world h)" "sk_fd (sock k h1) = fd"
    using prepare_send_out [of k ntf h] prepare_send_fd [of k ntf h k] p assms(1) by simp_all
  show ?thesis
  proof (cases "r < 0")
    case True
    then show ?thesis using assms(2) p o1 by (intro exI [of _ 0]) (auto simp: do_send_def Let_def ntf_def)
  next
    case False
    obtain r2 sent h2 where l: "send_loop S fd fl' (length data) r 0 data h1 = ((r2, sent), h2)" by (metis surj_pair)
    then obtain n where n: "n \<le> length data" "sent = n" "out fd (h_world h2) = out fd (h_world h1) @ take n data"
      "n = length data \<or> r2 < 0" using send_loop_prefix [of data "length data" 0 h1 fl' r] l by (auto simp: took_def)
    define h3 where "h3 = (if \<not> in_datamode_ctx (sm_at_host_get_current E h2) h2
        then rsp_send E (send_rsp ''#XSEND: '' (sk_fd (sock k h2)) ntf sent) h2 else h2)"
    have "ret = (if 0 < sent then int sent else r2) \<and> h' = (if \<not> ntf then snd (update_poll_events E S k ZSOCK_POLLOUT True h3) else h3)"
      using assms(2) p l False o1(2) by (auto simp: do_send_def Let_def ntf_def fl'_def h3_def)
    then have "out fd (h_world h') = out fd (h_world h2)" "ret = (if 0 < sent then int sent else r2)"
      by (simp_all add: update_poll_out h3_def)
    then show ?thesis using n o1(1) by (intro exI [of _ n]) auto
  qed
qed

end

section \<open>Hexadecimal output\<close>

text \<open>The conversion of the library into a buffer that is large enough: two characters for each byte.\<close>

locale hex_output =
  fixes S :: "('rb, 'w) sock_env" and hex :: "char \<Rightarrow> bytes"
  assumes bin2hex: "2 * length d < n \<Longrightarrow> s_bin2hex S d n = concat (map hex d)"
    and hex_length [simp]: "length (hex c) = 2"
begin

lemma hex_total_length [simp]: "length (concat (map hex d)) = 2 * length d"
  by (induction d) simp_all

lemma data_send_hex_loop_pieces:
  assumes "length data \<le> fuel" "m = min (length data) 128" "\<And>d h. h_socks (data_send E (sk_pipe (sock k h)) d h) = h_socks h"
  shows "\<exists>ps. concat ps = data \<and> (\<forall>p \<in> set ps. p \<noteq> [] \<and> length p \<le> 128) \<and>
    data_send_hex_loop E S k fuel m data h = (0, fold (\<lambda>p. data_send E (sk_pipe (sock k h)) (concat (map hex p))) ps h)"
  using assms(1,2)
proof (induction fuel arbitrary: m data h)
  case (Suc fuel)
  show ?case
  proof (cases data)
    case (Cons b bs)
    define p where "p = take m data"
    have p: "p \<noteq> []" "length p \<le> 128" "length p = m" using Suc.prems Cons by (simp_all add: p_def)
    have hx: "s_bin2hex S p 257 = concat (map hex p)" using p by (intro bin2hex) simp
    have ne: "concat (map hex p) \<noteq> []" using p(1) hex_total_length [of p] by (metis length_0_conv mult_eq_0_iff zero_neq_numeral)
    let ?h = "data_send E (sk_pipe (sock k h)) (concat (map hex p)) h" and ?rest = "drop m data"
    have socks: "h_socks ?h = h_socks h" by (rule assms(3))
    have "length ?rest \<le> fuel" using p Suc.prems(1) Cons by (cases m) auto
    moreover have "min m (length ?rest) = min (length ?rest) 128" using Suc.prems(2) by auto
    ultimately obtain ps where ps: "concat ps = ?rest" "\<forall>p \<in> set ps. p \<noteq> [] \<and> length p \<le> 128"
      "data_send_hex_loop E S k fuel (min m (length ?rest)) ?rest ?h = (0, fold (\<lambda>p. data_send E (sk_pipe (sock k h)) (concat (map hex p))) ps ?h)"
      using Suc.IH [of ?rest "min m (length ?rest)" ?h] socks by auto
    have "data_send_hex_loop E S k (Suc fuel) m data h = data_send_hex_loop E S k fuel (min m (length ?rest)) ?rest ?h"
      using hx ne p(3) by (auto simp: Cons Let_def simp flip: p_def [unfolded Cons])
    then show ?thesis using ps p by (intro exI [of _ "p # ps"]) (simp add: p_def)
  qed (auto intro!: exI [of _ "[]"])
qed (auto intro!: exI [of _ "[]"])

end

section \<open>The destination of datagrams in data mode\<close>

lemma fault_url [simp]: "h_udp_url (fault h) = h_udp_url h"
  by (simp add: fault_def)

lemma enter_datamode_url [simp]: "h_udp_url (snd (enter_datamode E cb n h)) = h_udp_url h"
  by (auto simp: enter_datamode_def set_sm_mode_def Let_def split: option.split sm_operation_mode.split prod.split bool.split)

lemma claim_socket_url [simp]: "h_udp_url (claim_socket E k h) = h_udp_url h"
  by (simp add: claim_socket_def)

lemma handle_at_send_url:
  assumes "ap_num_get_u16 P parser 2 = Inr mode" "unat mode = AT_SOCKET_MODE_DATA"
  shows "h_udp_url (snd (handle_at_send E S P ct parser n h)) = h_udp_url h"
proof -
  have upd: "h_udp_url (snd (update_poll_events E S k ev x h)) = h_udp_url h" for k ev x and h :: "('b, 'c) host"
    by (simp add: update_poll_events_def set_so_poll_cb_def wcall_split Let_def)
  have "h_udp_url (snd (enter_socket_datamode E S P parser n 4 k h)) = h_udp_url h" for k and h :: "('b, 'c) host"
    unfolding enter_socket_datamode_def by (rule param_cases) (simp_all add: Let_def case_prod_unfold upd split: option.split)
  then show ?thesis using assms unfolding handle_at_send_def
    by (auto simp: Let_def param_def split: sum.split intro!: with_socket_cases [where Q = "\<lambda>h'. h_udp_url h' = h_udp_url h"])
qed

section \<open>Properties\<close>

text \<open>Sending on a stream socket. The descriptor takes a prefix of the data, in order and once, in as many
  calls as it needs; the result is the length of that prefix, or an error when it is empty. The loop ends
  with the number of rounds the data has bytes.\<close>

lemma socket_send_prefix:
  assumes "sock_stream E S out fd" and "sk_fd (sock k h) = fd" and "do_send E S k data flags h = (ret, h')"
  shows "\<exists>n \<le> length data. out fd (h_world h') = out fd (h_world h) @ take n data \<and>
      (if 0 < n then ret = int n else ret \<le> 0 \<or> data = []) \<and>
      (\<forall>r h1. h_fault (snd (send_loop S fd flags (length data) r 0 data h1)) = h_fault h1)"
proof -
  have "h_fault (snd (send_loop S fd flags (length data) r 0 data h1)) = h_fault h1" for r h1
    using sock_stream.send_loop_prefix [OF assms(1) order_refl, of 0 data h1 flags r] by (auto simp: took_def split: prod.splits)
  then show ?thesis using sock_stream.do_send_prefix [OF assms] by auto
qed

text \<open>C16: The command AT#XSEND with data succeeds exactly when the descriptor took all the data, and what
  it took before an error is the start of the data.\<close>

theorem xsend_ok_iff_all_sent:
  fixes P :: "'p at_parser_ops"
  assumes "sock_stream E S out fd" and "num_int P parser 1 = Inr fd" and "find_socket fd h = Some k"
    and "length (h_socks h) = SM_MAX_SOCKET_COUNT" and "ap_num_get_u16 P parser 2 = Inr mode" and "unat mode \<le> 1"
    and "ap_num_get_s32 P parser 3 = Inr flags" and "send_data_param S P parser param_count 4 (unat mode) = Inr data"
    and "data \<noteq> []" and "handle_at_send E S P CMD_TYPE_SET parser param_count h = (err, h')"
  shows "\<exists>n \<le> length data. out fd (h_world h') = out fd (h_world h) @ take n data \<and> (err = 0 \<longleftrightarrow> n = length data)"
proof -
  let ?h = "claim_socket E k (upd_sock k (\<lambda>s. s\<lparr>sk_send_flags := flags\<rparr>) h)"
  obtain ret h1 where s: "do_send E S k data (sk_send_flags (sock k ?h)) ?h = (ret, h1)" by fastforce
  have k: "k < length (h_socks h)" "sk_fd (sock k h) = fd" using find_socket_Some [OF assms(3)] assms(4) by simp_all
  then have fd: "sk_fd (sock k ?h) = fd" by (simp add: claim_socket_def)
  have "unat mode = AT_SOCKET_MODE_UNFORMATTED \<or> unat mode = AT_SOCKET_MODE_HEX" using assms(6) by arith
  then have "err = send_result ret (length data) \<and> h' = h1" using assms(2,3,5,7,8,10) s
    by (auto simp: handle_at_send_def param_def with_socket_def Let_def)
  moreover have "h_world ?h = h_world h" by (simp add: claim_socket_def)
  ultimately show ?thesis using sock_stream.do_send_prefix [OF assms(1) fd s] assms(9)
    by (auto simp: send_result_def split: if_splits)
qed

text \<open>Hexadecimal output of received data, which is converted in pieces that fit a small buffer, is the
  output of the conversion of the whole: the pieces are not empty, have at most 128 bytes, and together
  are the data; the loop ends without an error.\<close>

lemma data_send_hex_whole:
  assumes "hex_output S hex"
  shows "\<exists>ps. concat ps = data \<and> (\<forall>p \<in> set ps. p \<noteq> [] \<and> length p \<le> 128) \<and>
    concat (map (\<lambda>p. concat (map hex p)) ps) = concat (map hex data) \<and>
    data_send_hex E S k data h = (0, fold (\<lambda>p. data_send E (sk_pipe (sock k h)) (concat (map hex p))) ps h)"
proof -
  have "h_socks (data_send E p d h) = h_socks h" for p d and h :: "('a, 'b) host"
    by (rule out_frameD(12) [OF data_send_frame])
  then obtain ps where "concat ps = data" "\<forall>p \<in> set ps. p \<noteq> [] \<and> length p \<le> 128"
    "data_send_hex_loop E S k (length data) (min (length data) 128) data h =
       (0, fold (\<lambda>p. data_send E (sk_pipe (sock k h)) (concat (map hex p))) ps h)"
    using hex_output.data_send_hex_loop_pieces [OF assms order_refl refl, of E k data h] by auto
  moreover have "concat (map (\<lambda>p. concat (map hex p)) ps) = concat (map hex (concat ps))" by (induction ps) simp_all
  ultimately show ?thesis by (intro exI [of _ ps]) (simp add: data_send_hex_def)
qed

text \<open>The receive commands never ask the sockets layer for more than their buffer holds: a length above
  2048, and a negative one, which the code reads as a huge one, end the command with an error.\<close>

lemma recv_command_bound:
  fixes P :: "'p at_parser_ops"
  shows "recv_command E P cmd_type parser param_count recv h =
    recv_command E P cmd_type parser param_count
      (\<lambda>k timeout flags mode n h. if n \<le> SM_MAX_MESSAGE_SIZE then recv k timeout flags mode n h else (0, fault h)) h"
proof -
  have "unat data_len \<le> SM_MAX_MESSAGE_SIZE" if "\<not> of_nat SM_MAX_MESSAGE_SIZE < (data_len :: 32 word)" for data_len
    using that by (simp add: word_less_nat_alt)
  then show ?thesis by (auto simp: recv_command_def param_def with_socket_def split: sum.split option.split)
qed


text \<open>AT#XSSOCKETOPT on a socket that is not secure does nothing and reports success: the result is that of
  reading the handle.\<close>

lemma secure_option_on_plain_socket_ok:
  fixes P :: "'p at_parser_ops"
  assumes "num_int P parser 1 = Inr fd" and "find_socket fd h = Some k" and "sk_sec_tag (sock k h) = SEC_TAG_TLS_INVALID"
  shows "handle_at_secure_socketopt E S P CMD_TYPE_SET parser h = (0, h)"
  using assms by (simp add: handle_at_secure_socketopt_def param_def with_socket_def)

end
