(* ===== verification/Http_Props.thy ===== *)
theory Http_Props
  imports Http_Socks Sock_Props Sock_Data
begin

unbundle bit_operations_syntax

text \<open>
  The properties of the HTTP client: its table over every run, the composition with the sockets module, the
  idle timeout, and the body of a request as a stream.
\<close>

section \<open>The idle timeout\<close>

text \<open>What a scan at a time does to an entry.\<close>

definition expired :: "int \<Rightarrow> http_request \<Rightarrow> bool" where
  "expired t r \<longleftrightarrow> rq_state r \<noteq> HTTP_STATE_IDLE \<and> rq_state r \<noteq> HTTP_STATE_SENDING_BODY \<and> rq_timeout_timestamp r < t"

definition drop_expired :: "int \<Rightarrow> http_request option \<Rightarrow> http_request option" where
  "drop_expired t s = (case s of None \<Rightarrow> None | Some r \<Rightarrow> if expired t r then None else Some r)"

context http_host
begin

lemma scan_slot:
  assumes "\<And>w. hc_uptime H w = t" "k < length (hs_requests (http h))"
  shows "hs_requests (http (timeout_scan E H k h)) = (hs_requests (http h))[k := drop_expired t (slot k h)]"
proof (cases "slot k h")
  case None
  then show ?thesis by (simp add: timeout_scan_def active_def drop_expired_def) (metis list_update_id)
next
  case (Some r)
  then have "(hs_requests (http h))[k := Some r] = hs_requests (http h)" by (metis list_update_id)
  with Some show ?thesis
    by (simp add: timeout_scan_def active_def drop_expired_def expired_def now_def assms(1) close_slot_def set_slot_def)
qed

lemma scan_all:
  assumes "\<And>w. hc_uptime H w = t"
  shows "\<lbrakk>distinct ks; set ks \<subseteq> {..<length (hs_requests (http h))}\<rbrakk> \<Longrightarrow>
    length (hs_requests (http (fold (timeout_scan E H) ks h))) = length (hs_requests (http h)) \<and>
    (\<forall>j. slot j (fold (timeout_scan E H) ks h) = (if j \<in> set ks then drop_expired t (slot j h) else slot j h))"
proof (induction ks arbitrary: h)
  case (Cons k ks)
  have k: "k < length (hs_requests (http h))" using Cons.prems by simp
  note e = scan_slot [OF assms k]
  have "length (hs_requests (http (timeout_scan E H k h))) = length (hs_requests (http h))" by (simp add: e)
  then have ih: "length (hs_requests (http (fold (timeout_scan E H) ks (timeout_scan E H k h)))) = length (hs_requests (http h))"
    "slot j (fold (timeout_scan E H) ks (timeout_scan E H k h)) =
      (if j \<in> set ks then drop_expired t (slot j (timeout_scan E H k h)) else slot j (timeout_scan E H k h))" for j
    using Cons.IH [of "timeout_scan E H k h"] Cons.prems by simp_all
  have "slot j (timeout_scan E H k h) = (if j = k then drop_expired t (slot k h) else slot j h)" for j
    using k by (simp add: e nth_list_update)
  then show ?case using ih Cons.prems by auto
qed simp

end

section \<open>The body of a request\<close>

context sock_stream
begin

lemma stream_loop_all:
  assumes "\<And>h. out fd (h_world (f h)) = out fd (h_world h) \<and> h_fault (f h) = h_fault h"
  shows "length data \<le> fuel \<Longrightarrow> stream_loop S f fd fuel data h = (e, h') \<Longrightarrow>
    h_fault h' = h_fault h \<and> (\<exists>n \<le> length data. out fd (h_world h') = out fd (h_world h) @ take n data \<and> (e = None \<longrightarrow> n = length data))"
proof (induction fuel arbitrary: data h)
  case (Suc fuel)
  obtain r w where call: "s_send S fd data 0 (h_world h) = (r, w)" by fastforce
  show ?case
  proof (cases data)
    case (Cons b bs)
    show ?thesis
    proof (cases "r < 0")
      case True
      then show ?thesis using Suc.prems(2) call Cons send_failed [OF call True] by (auto simp: wcall_def)
    next
      case False
      then have t: "0 < r" "r \<le> int (length data)" "out fd w = out fd (h_world h) @ take (nat r) data"
        using send_taken [OF call] Cons by simp_all
      let ?h = "f (h\<lparr>h_world := w\<rparr>)"
      have "length (drop (nat r) data) \<le> fuel" using t Suc.prems(1) Cons by (cases "nat r") auto
      moreover have "stream_loop S f fd fuel (drop (nat r) data) ?h = (e, h')" using Suc.prems(2) call Cons False by (simp add: wcall_def)
      ultimately obtain n where n: "h_fault h' = h_fault ?h" "n \<le> length data - nat r"
        "out fd (h_world h') = out fd (h_world ?h) @ take n (drop (nat r) data)" "e = None \<longrightarrow> n = length data - nat r"
        using Suc.IH [of "drop (nat r) data" ?h] by auto
      then show ?thesis using t assms [of "h\<lparr>h_world := w\<rparr>"] by (auto simp: take_add intro!: exI [of _ "nat r + n"])
    qed
  qed (use Suc.prems in simp)
qed simp

end

section \<open>Properties\<close>

text \<open>C11: In every run of the client from an empty table, whatever its commands, the events of its sockets, its
  timer, its data mode handler and the rest of the program do: requests in use are on different sockets; the
  receive buffer of a request is never overrun; the bytes received so far are the ones passed to the host and
  the ones in the buffer, so that in automatic mode the number that the final status reports is the number of
  bytes the host got; data mode belongs to a request that sends its body; and the timer of the idle timeout
  is armed as long as there is a request.\<close>

theorem http_table_invariant:
  fixes E :: "('rb, 'w http_world) env" and P :: "'p at_parser_ops"
  assumes "http_host E S" and "http h = \<lparr>hs_requests = replicate HTTP_MAX_REQUESTS None, hs_datamode_req = None, hs_timeout_armed = False\<rparr>"
    and "(http_step E S H P)\<^sup>*\<^sup>* h h'"
  shows "(\<forall>k < HTTP_MAX_REQUESTS. \<forall>r. slot k h' = Some r \<longrightarrow>
      length (rq_recv_buf r) < HTTP_RECV_BUF_SIZE \<and> hs_timeout_armed (http h') \<and>
      (rq_state r = HTTP_STATE_RECEIVING_BODY \<longrightarrow> rq_total_received r = rq_bytes_sent r + int (length (rq_recv_buf r)) \<and>
         (\<not> rq_manual_mode r \<longrightarrow> rq_total_received r = rq_bytes_sent r)) \<and>
      (\<forall>j < HTTP_MAX_REQUESTS. \<forall>q. j \<noteq> k \<longrightarrow> slot j h' = Some q \<longrightarrow> rq_fd q \<noteq> rq_fd r)) \<and>
    (\<forall>k. hs_datamode_req (http h') = Some k \<longrightarrow> (\<exists>r. slot k h' = Some r \<and> rq_state r = HTTP_STATE_SENDING_BODY))"
proof -
  have "http_inv (http h)" by (rule http_invI) (simp_all add: assms(2))
  then have inv: "http_inv (http h')" by (rule http_host.http_run_inv [OF assms(1,3)])
  have "length (rq_recv_buf r) < HTTP_RECV_BUF_SIZE \<and> hs_timeout_armed (http h') \<and>
      (rq_state r = HTTP_STATE_RECEIVING_BODY \<longrightarrow> rq_total_received r = rq_bytes_sent r + int (length (rq_recv_buf r)) \<and>
         (\<not> rq_manual_mode r \<longrightarrow> rq_total_received r = rq_bytes_sent r))"
    if "k < HTTP_MAX_REQUESTS" "slot k h' = Some r" for k r
    using http_inv_slot [OF inv that(1) _ that(2)] by (auto simp: req_ok_def)
  moreover have "rq_fd q \<noteq> rq_fd r"
    if "k < HTTP_MAX_REQUESTS" "slot k h' = Some r" "j < HTTP_MAX_REQUESTS" "j \<noteq> k" "slot j h' = Some q" for k r j q
    using http_inv_distinct [OF inv that(3,1) _ _ that(4,5,2)] by simp
  ultimately show ?thesis using http_inv_datamode [OF inv] by blast
qed



text \<open>C28: Data mode passes the body of a request to its socket: when the handler does not fail, it says that it
  took all the data, and exactly the data, in order and once, was put on the socket; when it fails, the
  request is gone. The loop always ends.\<close>

theorem http_body_streamed:
  assumes "sock_stream E S out fd" "http_host E S" "\<And>w s. out fd (w\<lparr>ht_st := s\<rparr>) = out fd w"
    and "http_inv (http h)" "hs_datamode_req (http h) = Some k" "rq_fd (req k h) = fd"
    and "http_datamode_callback E S H DATAMODE_SEND data flags h = (ret, h')"
  shows "if 0 \<le> ret then ret = int (length data) \<and> out fd (h_world h') = out fd (h_world h) @ data \<and> h_fault h' = h_fault h
    else slot k h' = None"
proof -
  obtain e h1 where l: "stream_loop S (\<lambda>h. h) fd (length data) data h = (e, h1)" by fastforce
  have a: "h_fault h1 = h_fault h \<and> (\<exists>n \<le> length data. out fd (h_world h1) = out fd (h_world h) @ take n data \<and> (e = None \<longrightarrow> n = length data))"
    by (rule sock_stream.stream_loop_all [OF assms(1) _ _ l]) simp_all
  have h1: "http h1 = http h" using http_host.stream_http [OF assms(2), of fd "length data" data h] l by simp
  have kt: "k < HTTP_MAX_REQUESTS" using http_inv_datamode [OF assms(4) _ assms(5)] by simp
  show ?thesis
  proof (cases e)
    case None
    have "out fd (h_world (touch H j x)) = out fd (h_world x)" "h_fault (touch H j x) = h_fault x" for j and x :: "('a, 'b http_world) host"
      by (simp_all add: touch_def upd_req_def upd_http_def assms(3))
    then show ?thesis using assms(5-7) l a h1 None by (auto simp: http_datamode_callback_def http_datamode_send_def split: if_splits)
  next
    case (Some err)
    have "err < 0" using http_host.stream_err [OF assms(2), of "\<lambda>h. h" fd "length data" data h err] l Some by simp
    define h2 where "h2 = exit_datamode_handler E (sm_at_host_get_current E (set_datamode_req None h1)) err (set_datamode_req None h1)"
    have m: "host_machine E ht_st (\<lambda>h. http_inv (http h))" and c: "http_calls E S" using assms(2) by (simp_all add: http_host_def)
    have "http_inv (http h2)" unfolding h2_def
      by (rule host_machine.exit_datamode_handler_I [OF m]) (use assms(4) h1 in simp)
    moreover have "ret = err" "h' = http_fail_request E k h2" using assms(5-7) l Some
      by (auto simp: http_datamode_callback_def http_datamode_send_def Let_def h2_def)
    ultimately show ?thesis using \<open>err < 0\<close> kt by (simp add: http_calls.end_http [OF c])
  qed
qed

end
