(* ===== verification/Http_Parse.thy ===== *)
theory Http_Parse
  imports Http_Client
begin

text \<open>
  Properties of the HTTP client that are about text: the request fits the buffer that is allocated for it,
  and what is read from the headers of a response does not depend on how much of the body arrived with
  them.
\<close>

section \<open>The text of a request\<close>

definition request_text :: "http_request \<Rightarrow> string" where
  "request_text r =
     http_method_str (rq_method r) @ '' '' @ the (rq_path r) @ '' HTTP/1.1'' @ CRLF_STR @
     ''Host: '' @ the (rq_hostname r) @ CRLF_STR @
     ''User-Agent: nRF91-Serial-Modem'' @ CRLF_STR @ ''Accept: */*'' @ CRLF_STR @
     (if 0 < rq_request_body_len r then ''Content-Length: '' @ show_int (rq_request_body_len r) @ CRLF_STR else []) @
     (case rq_extra_headers r of Some t \<Rightarrow> t | None \<Rightarrow> []) @ CRLF_STR"

lemma show_nat_length: "n < 10 ^ k \<Longrightarrow> 0 < k \<Longrightarrow> length (show_nat n) \<le> k"
proof (induction k arbitrary: n)
  case (Suc k)
  show ?case
  proof (cases "n < 10")
    case False
    then have "n div 10 < 10 ^ k" "0 < k" using Suc.prems by (auto simp: less_mult_imp_div_less algebra_simps intro: gr0I)
    then have "length (show_nat (n div 10)) \<le> k" by (rule Suc.IH)
    then show ?thesis using False by (subst show_nat.simps) simp
  qed (subst show_nat.simps, simp)
qed simp

text \<open>A text that fits is written behind what is there.\<close>

lemma snprintf_fits:
  "length buf + length s < n \<Longrightarrow> snprintf_at n s (Some (length buf, buf)) = Some (length (buf @ s), buf @ s)"
  by (simp add: snprintf_at_def)

lemma request_text_length: "rq_request_body_len r \<le> 2147483647 \<Longrightarrow> length (request_text r) < http_headers_size r"
proof -
  assume "rq_request_body_len r \<le> 2147483647"
  then have "length (show_int (rq_request_body_len r)) \<le> 10" if "0 < rq_request_body_len r"
    using show_nat_length [of "nat (rq_request_body_len r)" 10] that by (simp add: show_int_def)
  then show ?thesis
    by (cases "0 < rq_request_body_len r")
      (simp_all add: request_text_def http_headers_size_def HTTP_VERSION_LINE_def HTTP_HDR_USER_AGENT_def HTTP_HDR_ACCEPT_def split: option.split)
qed

lemma build_request:
  assumes "rq_request_body_len r \<le> 2147483647"
  shows "http_build_request r (http_headers_size r) = Some (length (request_text r), request_text r)"
proof -
  let ?n = "http_headers_size r"
  define a where "a = http_method_str (rq_method r) @ '' '' @ the (rq_path r) @ HTTP_VERSION_LINE @
    ''Host: '' @ the (rq_hostname r) @ CRLF_STR @ HTTP_HDR_USER_AGENT @ HTTP_HDR_ACCEPT"
  define b where "b = (if 0 < rq_request_body_len r then ''Content-Length: '' @ show_int (rq_request_body_len r) @ CRLF_STR else [])"
  define c where "c = (case rq_extra_headers r of Some t \<Rightarrow> t | None \<Rightarrow> [])"
  have t: "request_text r = a @ b @ c @ CRLF_STR"
    by (simp add: request_text_def a_def b_def c_def HTTP_VERSION_LINE_def HTTP_HDR_USER_AGENT_def HTTP_HDR_ACCEPT_def)
  then have n: "length a + length b + length c + 2 < ?n" using request_text_length [OF assms] by simp
  have 1: "snprintf_at ?n a (Some (0, [])) = Some (length a, a)" using snprintf_fits [of "[]" a ?n] n by simp
  have 2: "snprintf_at ?n b (Some (length a, a)) = Some (length (a @ b), a @ b)" by (rule snprintf_fits) (use n in simp)
  have 3: "snprintf_at ?n c (Some (length (a @ b), a @ b)) = Some (length (a @ b @ c), a @ b @ c)"
    using snprintf_fits [of "a @ b" c ?n] n by simp
  have 4: "snprintf_at ?n CRLF_STR (Some (length (a @ b @ c), a @ b @ c)) = Some (length (request_text r), request_text r)"
    using snprintf_fits [of "a @ b @ c" CRLF_STR ?n] n t by simp
  have b: "(if 0 < rq_request_body_len r then snprintf_at ?n (''Content-Length: '' @ show_int (rq_request_body_len r) @ CRLF_STR) (Some (length a, a))
      else Some (length a, a)) = Some (length (a @ b), a @ b)" by (cases "0 < rq_request_body_len r") (use 2 in \<open>simp_all add: b_def\<close>)
  have c: "(case rq_extra_headers r of None \<Rightarrow> Some (length (a @ b), a @ b) | Some t \<Rightarrow> snprintf_at ?n t (Some (length (a @ b), a @ b))) =
      Some (length (a @ b @ c), a @ b @ c)" by (cases "rq_extra_headers r") (use 3 in \<open>simp_all add: c_def snprintf_at_def\<close>)
  show ?thesis unfolding http_build_request_def Let_def a_def [symmetric] 1 b c by (rule 4)
qed

section \<open>Searching in a text of which more arrives\<close>

lemma strstr_pos_append: "strstr_pos h n = Some i \<Longrightarrow> strstr_pos (h @ t) n = Some i"
proof (induction h arbitrary: i)
  case Nil
  then show ?case by (cases t) (auto split: if_splits)
next
  case (Cons c h)
  then show ?case
  proof (cases "prefix n (c # h)")
    case True
    then have "prefix n ((c # h) @ t)" by (rule prefix_prefix)
    then show ?thesis using Cons.prems True by simp
  next
    case False
    then obtain j where j: "strstr_pos h n = Some j" "i = Suc j" using Cons.prems by auto
    have no: "\<not> prefix n (c # h @ t)"
    proof
      assume p: "prefix n (c # h @ t)"
      have "j + length n \<le> length h" using strstr_pos_Some [OF j(1)] by simp
      then have "prefix n (c # h)" using p
        by (metis append_Cons le_SucI le_add_same_cancel2 length_Cons order_trans prefix_length_prefix prefix_order.order_refl append_prefixD prefixI le_add2)
      with False show False by simp
    qed
    then show ?thesis using Cons.IH [OF j(1)] j(2) by simp
  qed
qed

text \<open>A new occurrence ends behind the old text.\<close>

lemma strstr_pos_later:
  assumes "strstr_pos h n = None" "strstr_pos (h @ t) n = Some i"
  shows "length h < i + length n"
proof (rule ccontr)
  assume "\<not> length h < i + length n"
  moreover have "prefix n (drop i (h @ t))" using strstr_pos_Some [OF assms(2)] by simp
  ultimately have "prefix n (drop i h)" by (auto simp: prefix_def append_eq_append_conv_if split: if_splits) (metis append_take_drop_id)
  with strstr_pos_None [OF assms(1)] show False by blast
qed

section \<open>Numbers in a text of which more arrives\<close>

lemma while_append:
  "dropWhile P s \<noteq> [] \<Longrightarrow> dropWhile P (s @ t) = dropWhile P s @ t" "dropWhile P s \<noteq> [] \<Longrightarrow> takeWhile P (s @ t) = takeWhile P s"
  by (induction s) auto

lemma while_last: "s \<noteq> [] \<Longrightarrow> \<not> P (last s) \<Longrightarrow> dropWhile P s \<noteq> [] \<and> last (dropWhile P s) = last s"
  by (induction s) (auto split: if_splits)

lemma last_dropWhile: "dropWhile P s \<noteq> [] \<Longrightarrow> last (dropWhile P s) = last s"
  by (induction s) (auto split: if_splits)

lemma c_sign_append: "s \<noteq> [] \<Longrightarrow> c_sign (s @ t) = (fst (c_sign s), snd (c_sign s) @ t)"
  by (cases s) (auto simp: c_sign_def)

lemma scan_dec_parts:
  assumes "scan_dec s = Inr (v, r)"
  shows "dropWhile c_isspace s \<noteq> []" "r = dropWhile c_isdigit (snd (c_sign (dropWhile c_isspace s)))"
  using assms by (auto simp: scan_dec_def Let_def split: if_splits prod.splits)

lemma scan_dec_ne: "scan_dec s = Inr x \<Longrightarrow> s \<noteq> []"
  by (auto simp: scan_dec_def)

lemma scan_dec_append:
  assumes "scan_dec s = Inr (v, r)" "r \<noteq> []"
  shows "scan_dec (s @ t) = Inr (v, r @ t)"
proof -
  note p = scan_dec_parts [OF assms(1)]
  let ?s = "dropWhile c_isspace s"
  have d: "dropWhile c_isdigit (snd (c_sign ?s)) \<noteq> []" using assms(2) p(2) by simp
  show ?thesis using assms(1) while_append [OF d, of t] while_append(1) [OF p(1), of t] c_sign_append [OF p(1), of t] p(1)
    by (auto simp: scan_dec_def Let_def split: if_splits prod.splits)
qed

lemma scan_dec_last:
  assumes "scan_dec s = Inr (v, r)" "\<not> c_isdigit (last s)"
  shows "r \<noteq> [] \<and> last r = last s"
proof -
  note p = scan_dec_parts [OF assms(1)]
  have "last (dropWhile c_isspace s) = last s" using p(1) by (rule last_dropWhile)
  moreover have "snd (c_sign u) \<noteq> [] \<and> last (snd (c_sign u)) = last u" if "u \<noteq> []" "snd (c_sign u) \<noteq> []" for u
    using that by (cases u) (auto simp: c_sign_def split: if_splits)
  moreover have "snd (c_sign (dropWhile c_isspace s)) \<noteq> []"
    using assms(1) by (auto simp: scan_dec_def Let_def split: if_splits prod.splits)
  ultimately show ?thesis using while_last [of "snd (c_sign (dropWhile c_isspace s))" c_isdigit] assms(2) p by auto
qed

lemma sscanf_number: "c_sscanf s [SDec True] = (case scan_dec s of Inl eof \<Rightarrow> (if eof then EOF else 0, []) | Inr (v, _) \<Rightarrow> (1, [VInt v]))"
  by (simp add: c_sscanf_def split: sum.split prod.split)

section \<open>The headers of a response\<close>

text \<open>A field name that is not in the headers is found behind them only.\<close>

definition header_block :: "string \<Rightarrow> nat \<Rightarrow> bool" where
  "header_block hdr e \<longleftrightarrow> no_nul hdr \<and> strstr_pos hdr (CRLF_STR @ CRLF_STR) = Some e \<and> length hdr = e + 4"

lemma header_block_end:
  assumes "header_block hdr e"
  shows "hdr ! e = CR" "last hdr = LF" "hdr \<noteq> []"
proof -
  have "prefix (CRLF_STR @ CRLF_STR) (drop e hdr)" "length (drop e hdr) = 4"
    using assms strstr_pos_Some [of hdr "CRLF_STR @ CRLF_STR" e] by (simp_all add: header_block_def)
  then have d: "drop e hdr = CRLF_STR @ CRLF_STR" by (metis append_eq_conv_conj length_Cons length_append list.size(3) numeral_eq_Suc pred_numeral_simps prefix_def take_all_iff add_Suc add_0 order_refl eval_nat_numeral BitM.simps)
  then show "hdr ! e = CR" by (metis append_Cons hd_drop_conv_nth list.distinct(1) drop_all linorder_not_le list.sel(1))
  show "hdr \<noteq> []" "last hdr = LF" using d by (auto, metis d drop_all last_appendR last_drop last_ConsR last_ConsL linorder_not_le list.distinct(1) append_Cons append_Nil)
qed

lemma later_behind:
  assumes "header_block hdr e" "strstr_pos hdr n = None" "strstr_pos (hdr @ t) n = Some p" "CR \<notin> set n"
  shows "e \<le> p"
proof (rule ccontr)
  assume "\<not> e \<le> p"
  then have p: "p < e" "e - p < length n" using strstr_pos_later [OF assms(2,3)] assms(1) by (auto simp: header_block_def)
  have "prefix n (drop p (hdr @ t))" using strstr_pos_Some [OF assms(3)] by simp
  then obtain u where u: "drop p (hdr @ t) = n @ u" by (auto simp: prefix_def)
  have "n ! (e - p) = (n @ u) ! (e - p)" using p(2) by (simp add: nth_append)
  also have "\<dots> = drop p (hdr @ t) ! (e - p)" by (simp only: u)
  also have "\<dots> = (hdr @ t) ! e" using p(1) assms(1) by (subst nth_drop) (simp_all add: header_block_def)
  also have "\<dots> = CR" using header_block_end(1) [OF assms(1)] assms(1) by (simp add: header_block_def nth_append)
  finally show False using assms(4) p(2) by (metis nth_mem)
qed

lemma find_either_stable:
  assumes "header_block hdr e" "CR \<notin> set n" "CR \<notin> set l" "strstr_pos hdr l \<noteq> None \<longrightarrow> strstr_pos hdr n \<noteq> None"
  shows "find_either (hdr @ t) n l = find_either hdr n l \<or>
    find_either hdr n l = None \<and> (\<exists>p \<ge> e. find_either (hdr @ t) n l = Some p)"
proof (cases "strstr_pos hdr n")
  case (Some p)
  then show ?thesis by (simp add: find_either_def strstr_pos_append)
next
  case None
  then have "strstr_pos hdr l = None" using assms(4) by auto
  then show ?thesis using None later_behind [OF assms(1) None _ assms(2), of t] later_behind [OF assms(1) _ _ assms(3), of t]
    by (cases "strstr_pos (hdr @ t) l") (auto simp: find_either_def split: option.split)
qed

lemma content_length_stable:
  assumes "header_block hdr e" "strstr_pos hdr ''content-length:'' \<noteq> None \<longrightarrow> strstr_pos hdr ''Content-Length:'' \<noteq> None"
    and "parse_content_length hdr e \<noteq> Inl (- EINVAL)"
  shows "parse_content_length (hdr @ t) e = parse_content_length hdr e"
proof -
  have st: "find_either (hdr @ t) ''Content-Length:'' ''content-length:'' = find_either hdr ''Content-Length:'' ''content-length:'' \<or>
      find_either hdr ''Content-Length:'' ''content-length:'' = None \<and>
      (\<exists>p \<ge> e. find_either (hdr @ t) ''Content-Length:'' ''content-length:'' = Some p)"
    by (rule find_either_stable [OF assms(1)]) (use assms(2) in simp_all)
  show ?thesis
  proof (cases "find_either hdr ''Content-Length:'' ''content-length:''")
    case None
    then show ?thesis using st by (auto simp: parse_content_length_def)
  next
    case (Some p)
    then have f: "find_either (hdr @ t) ''Content-Length:'' ''content-length:'' = Some p" using st by auto
    let ?v = "dropWhile (\<lambda>c. c = CHR '' '') (drop (p + 15) hdr)"
    show ?thesis
    proof (cases "e \<le> p")
      case False
      then obtain v r where v: "scan_dec ?v = Inr (v, r)" "parse_content_length hdr e = Inr v"
        using assms(3) Some by (auto simp: parse_content_length_def sscanf_number split: sum.splits prod.splits)
      have ne: "?v \<noteq> []" by (rule scan_dec_ne [OF v(1)])
      then have le: "p + 15 < length hdr" by (cases "p + 15 < length hdr") simp_all
      have "last ?v = LF" using header_block_end(2) [OF assms(1)] le last_dropWhile [OF ne] by simp
      then have "\<not> c_isdigit (last ?v)" by (simp add: c_isdigit_def byte_val_def)
      then have "scan_dec (?v @ t) = Inr (v, r @ t)" using scan_dec_last [OF v(1)] by (intro scan_dec_append [OF v(1)]) simp
      moreover have "dropWhile (\<lambda>c. c = CHR '' '') (drop (p + 15) (hdr @ t)) = ?v @ t" using while_append(1) [OF ne, of t] le by simp
      ultimately show ?thesis using f False v(2) by (simp add: parse_content_length_def sscanf_number del: drop_append)
    qed (simp add: parse_content_length_def Some f)
  qed
qed

lemma connection_close_stable:
  assumes "header_block hdr e" "strstr_pos hdr ''connection: close'' \<noteq> None \<longrightarrow> strstr_pos hdr ''Connection: close'' \<noteq> None"
  shows "parse_connection_close (hdr @ t) e = parse_connection_close hdr e"
  using find_either_stable [OF assms(1), of "''Connection: close''" "''connection: close''" t] assms(2)
  by (auto simp: parse_connection_close_def)

lemma status_stable:
  assumes "header_block hdr e" "parse_http_status_code hdr = Inr v"
  shows "parse_http_status_code (hdr @ t) = Inr v"
proof -
  obtain i where i: "strstr_pos hdr ''HTTP/1.'' = Some i" using assms(2) by (auto simp: parse_http_status_code_def split: option.splits)
  obtain s where s: "drop i hdr = ''HTTP/1.'' @ s" "i + 7 \<le> length hdr" using strstr_pos_Some [OF i] by (auto simp: prefix_def)
  have scan: "c_sscanf (''HTTP/1.'' @ x) status_fmt = scan_loop [SDec False, SSpace, SDec True] x False []" for x
    unfolding c_sscanf_def status_fmt_def by (rule scan_lits)
  obtain u r1 r2 where r: "scan_dec s = Inr (u, r1)" "scan_dec (dropWhile c_isspace r1) = Inr (v, r2)"
    using assms(2) i s(1) scan [of s] by (auto simp: parse_http_status_code_def split: sum.splits prod.splits if_splits)
  have "r1 \<noteq> []" using scan_dec_parts(1) [OF r(2)] by auto
  have ne: "dropWhile c_isspace r1 \<noteq> []" using scan_dec_parts(1) [OF r(2)] by auto
  have "s \<noteq> []" using scan_dec_parts(1) [OF r(1)] by auto
  then have "last s = LF" using header_block_end(2) [OF assms(1)] s by (metis append_is_Nil_conv drop_all last_appendR last_drop linorder_not_le)
  then have "last r1 = LF" using scan_dec_last [OF r(1)] by (simp add: c_isdigit_def byte_val_def)
  then have "last (dropWhile c_isspace r1) = LF" using last_dropWhile [OF ne] by simp
  then have "r2 \<noteq> []" using scan_dec_last [OF r(2)] by (simp add: c_isdigit_def byte_val_def)
  then have "scan_dec (s @ t) = Inr (u, r1 @ t)" "scan_dec (dropWhile c_isspace (r1 @ t)) = Inr (v, r2 @ t)"
    using scan_dec_append [OF r(1) \<open>r1 \<noteq> []\<close>] scan_dec_append [OF r(2)] while_append(1) [OF ne] by simp_all
  then have "c_sscanf (''HTTP/1.'' @ s @ t) status_fmt = (1, [VInt v])" using scan [of "s @ t"] by simp
  moreover have "drop i (hdr @ t) = ''HTTP/1.'' @ s @ t" using s by simp
  ultimately show ?thesis using strstr_pos_append [OF i, of t] by (simp add: parse_http_status_code_def del: drop_append)
qed

section \<open>Properties\<close>


text \<open>C22: The headers of a request fit the buffer whose size is computed for them: the text that is built and
  sent is the whole request, nothing is cut off or written outside the buffer. The only error is that there
  is no memory.\<close>

theorem request_headers_fit:
  assumes "rq_request_body_len (req k h) \<le> 2147483647" "slot k h = Some r"
    and "http_alloc_build_headers E k h = (res, h')" "world_kept E ht_st"
  shows "h_fault h' = h_fault h \<and> (res = Inr (request_text r) \<or> res = Inl (- ENOMEM))"
proof -
  obtain ok h1 where m: "wcall (e_malloc E (http_headers_size r)) h = (ok, h1)" by fastforce
  then have h1: "http h1 = http h" "h_fault h1 = h_fault h" using world_kept.malloc_obs [OF assms(4)] by (auto simp: wcall_def split: prod.splits)
  have "request_text (r\<lparr>rq_send_buf := True\<rparr>) = request_text r" "http_headers_size (r\<lparr>rq_send_buf := True\<rparr>) = http_headers_size r"
    by (simp_all add: request_text_def http_headers_size_def)
  then have "http_build_request (r\<lparr>rq_send_buf := True\<rparr>) (http_headers_size r) = Some (length (request_text r), request_text r)"
    using build_request [of "r\<lparr>rq_send_buf := True\<rparr>"] assms(1,2) by simp
  then have b: "http_build_request r' (http_headers_size r) = Some (length (request_text r), request_text r)"
    if "r' = r \<or> r' = r\<lparr>rq_send_buf := True\<rparr>" for r' using that build_request [of r] assms(1,2) by auto
  define h2 where "h2 = upd_req k (\<lambda>r. r\<lparr>rq_send_buf := True\<rparr>) h1"
  have "req k h2 = r \<or> req k h2 = r\<lparr>rq_send_buf := True\<rparr>"
    using h1(1) assms(2) by (cases "k < length (hs_requests (http h))")
      (simp_all add: h2_def upd_req_def upd_http_def set_slot_def list_update_beyond)
  note built = b [OF this]
  have "h_fault h2 = h_fault h" using h1(2) by (simp add: h2_def upd_req_def upd_http_def)
  moreover have "http_alloc_build_headers E k h = (if ok then (Inr (request_text r), h2) else (Inl (- ENOMEM), h1))"
    unfolding http_alloc_build_headers_def Let_def assms(2) option.sel m prod.case h2_def [symmetric] built option.case by simp
  ultimately show ?thesis using assms(3) h1(2) by (cases ok) simp_all
qed

end
