(* ===== verification/Sock_Poll.thy ===== *)
theory Sock_Poll
  imports Sock_Run
begin

unbundle bit_operations_syntax

text \<open>
  Poll events: while the channel is busy they are kept for later, when it is idle they are registered
  again, a notification is sent once, and a command for all sockets only changes the sockets of its own
  channel.
\<close>

section \<open>Which entries a call changes\<close>

definition only_sock :: "nat \<Rightarrow> ('rb, 'w) host \<Rightarrow> ('rb, 'w) host \<Rightarrow> bool" where
  "only_sock k h h' \<longleftrightarrow> length (h_socks h') = length (h_socks h) \<and> (\<forall>j. j \<noteq> k \<longrightarrow> sock j h' = sock j h)"

lemma only_sock_refl [simp]: "only_sock k h h"
  by (simp add: only_sock_def)

lemma only_sock_trans: "only_sock k h h1 \<Longrightarrow> only_sock k h1 h2 \<Longrightarrow> only_sock k h h2"
  by (simp add: only_sock_def)

lemma only_sock_upd [simp]: "only_sock k h' (upd_sock k f h) = only_sock k h' h"
  by (simp add: only_sock_def)

lemma only_sock_eq: "h_socks h2 = h_socks h1 \<Longrightarrow> only_sock k h h2 = only_sock k h h1"
  by (simp add: only_sock_def)

text \<open>The host does not touch the table.\<close>

lemma out_socks [simp]:
  "h_socks (rsp_send E t h) = h_socks h" "h_socks (rsp_send_to E p t h) = h_socks h" "h_socks (urc_send_to E p t h) = h_socks h"
  "h_socks (data_send E p d h) = h_socks h" "h_socks (flush_pipe_urcs E i h) = h_socks h"
  "h_socks (check_idle_timer E ctx r h) = h_socks h" "h_socks (sm_at_host_event_notify E ctx ev h) = h_socks h"
  "h_socks (snd (work_submit E wk h)) = h_socks h"
  by (rule out_frameD(12), simp add: frame)+

lemma host_socks [simp]:
  "h_socks (sm_at_host_lock_pipe E p h) = h_socks h" "h_socks (sm_at_host_cmd_done_pipe E p h) = h_socks h"
  "h_socks (sm_at_host_queue_idle_work E p wk h) = h_socks h" "h_socks (snd (wcall f h)) = h_socks h" "h_socks (fault h) = h_socks h"
  by (simp_all add: sm_at_host_lock_pipe_def sm_at_host_lock_ctx_def sm_at_host_cmd_done_pipe_def sm_at_host_cmd_done_def
      sm_at_host_queue_idle_work_def wcall_split Let_def split: option.split)

lemma only_host [simp]:
  "only_sock k h' (rsp_send_to E p t h) = only_sock k h' h" "only_sock k h' (data_send E p d h) = only_sock k h' h"
  "only_sock k h' (urc_send_to E p t h) = only_sock k h' h" "only_sock k h' (sm_at_host_lock_pipe E p h) = only_sock k h' h"
  "only_sock k h' (sm_at_host_cmd_done_pipe E p h) = only_sock k h' h" "only_sock k h' (fault h) = only_sock k h' h"
  "only_sock k h' (snd (wcall f h)) = only_sock k h' h"
  by (rule only_sock_eq, simp)+

lemma update_poll_only [simp]: "only_sock k h' (snd (update_poll_events E S k ev x h)) = only_sock k h' h"
  by (simp add: update_poll_events_def set_so_poll_cb_def wcall_split Let_def) (simp add: only_sock_def)

section \<open>A busy channel\<close>

text \<open>What a round does to an entry when the channel of the context executes a command.\<close>

definition defer_events :: "pipe \<Rightarrow> sm_socket \<Rightarrow> sm_socket" where
  "defer_events pipe s =
     (if on_pipe (Some pipe) s
      then upd_poll (\<lambda>p. p\<lparr>po_revents := 0, po_delayed_revents := po_delayed_revents p OR ucast (po_revents p)\<rparr>) s
      else s)"

text \<open>The work of context \<open>i\<close> is queued on context \<open>j\<close>.\<close>

definition queued :: "('rb, 'w) env \<Rightarrow> ctx_id \<Rightarrow> ctx_id \<Rightarrow> ('rb, 'w) host \<Rightarrow> bool" where
  "queued E i j h \<longleftrightarrow> e_work_pending E (idle_poll_work i) (h_world h) \<or> idle_poll_work i \<in> set (c_idle_work_list (h_ctx h j))"

lemma queue_busy:
  fixes E :: "('rb, 'w) env" and i :: ctx_id
  assumes j: "sm_at_host_get_ctx_from (Some pipe) h = Some j" and busy: "\<not> is_idle_ctx (Some j) h"
  defines "h' \<equiv> sm_at_host_queue_idle_work E (Some pipe) (idle_poll_work i) h"
  shows "queued E i j h'" and "sm_at_host_get_ctx_from (Some pipe) h' = Some j" and "\<not> is_idle_ctx (Some j) h'" and "h_world h' = h_world h"
proof -
  let ?h = "upd_ctx j (\<lambda>c. c\<lparr>c_idle_work_list := c_idle_work_list c @ [idle_poll_work i]\<rparr>) h"
  have pipe: "c_pipe (h_ctx ?h x) = c_pipe (h_ctx h x)" for x by (cases "x = j") simp_all
  have "sm_at_host_get_ctx_from (Some pipe) ?h = sm_at_host_get_ctx_from (Some pipe) h" by (rule lookup_cong) (simp_all add: pipe)
  moreover have "is_idle_ctx (Some j) ?h = is_idle_ctx (Some j) h"
    by (simp add: is_idle_ctx_def sm_at_ctx_check_def in_at_mode_ctx_def get_sm_mode_def)
  moreover have "h' = (if queued E i j h then h else ?h)" using assms by (auto simp: sm_at_host_queue_idle_work_def queued_def calculation)
  ultimately show "queued E i j h'" "sm_at_host_get_ctx_from (Some pipe) h' = Some j" "\<not> is_idle_ctx (Some j) h'" "h_world h' = h_world h"
    using j busy by (auto simp: queued_def)
qed

lemma idle_cong:
  assumes "h_instances h' = h_instances h" "h_ctx h' = h_ctx h"
  shows "is_idle_ctx ctx h' = is_idle_ctx ctx h"
  by (simp add: is_idle_ctx_def sm_at_ctx_check_def in_at_mode_ctx_def get_sm_mode_def assms split: option.split)

lemma poll_busy_sock:
  fixes E :: "('rb, 'w) env" and S :: "('rb, 'w) sock_env" and i :: ctx_id
  assumes j: "sm_at_host_get_ctx_from (Some pipe) h = Some j" and busy: "\<not> is_idle_ctx (Some j) h" and k: "k < length (h_socks h)"
  defines "h' \<equiv> poll_work_sock E S i pipe False False k h"
  shows "h_socks h' = (h_socks h)[k := defer_events pipe (sock k h)]" and "on_pipe (Some pipe) (sock k h) \<Longrightarrow> queued E i j h'"
    and "queued E i j h \<Longrightarrow> queued E i j h'"
    and "sm_at_host_get_ctx_from (Some pipe) h' = Some j" and "\<not> is_idle_ctx (Some j) h'" and "h_world h' = h_world h"
proof -
  let ?h = "upd_sock k (upd_poll (\<lambda>p. p\<lparr>po_delayed_revents := po_delayed_revents p OR ucast (po_revents (sk_async_poll (sock k h)))\<rparr>))
    (upd_sock k (upd_poll (\<lambda>p. p\<lparr>po_revents := 0\<rparr>)) h)"
  have eq: "h' = (if on_pipe (Some pipe) (sock k h) then sm_at_host_queue_idle_work E (Some pipe) (idle_poll_work i) ?h else h)"
    by (simp add: h'_def poll_work_sock_def on_pipe_def Let_def)
  have "sm_at_host_get_ctx_from (Some pipe) ?h = Some j" "\<not> is_idle_ctx (Some j) ?h"
    using j busy lookup_cong(1) [of ?h h] idle_cong [of ?h h] by simp_all
  note q = queue_busy [OF this, of E i]
  show "h_socks h' = (h_socks h)[k := defer_events pipe (sock k h)]"
    using k by (simp add: eq defer_events_def) (simp add: upd_sock_def upd_poll_def)
  show "on_pipe (Some pipe) (sock k h) \<Longrightarrow> queued E i j h'" "queued E i j h \<Longrightarrow> queued E i j h'"
    "sm_at_host_get_ctx_from (Some pipe) h' = Some j" "\<not> is_idle_ctx (Some j) h'" "h_world h' = h_world h"
    using q j busy by (simp_all add: eq)
qed

lemma on_pipe_defer [simp]: "on_pipe p (defer_events pipe s) = on_pipe p s"
  by (simp add: on_pipe_def defer_events_def)

lemma poll_busy_fold:
  fixes E :: "('rb, 'w) env" and S :: "('rb, 'w) sock_env" and i :: ctx_id
  assumes "sm_at_host_get_ctx_from (Some pipe) h = Some j" "\<not> is_idle_ctx (Some j) h" "n \<le> length (h_socks h)"
  defines "h' \<equiv> fold (poll_work_sock E S i pipe False False) [0..<n] h"
  shows "h_socks h' = map (defer_events pipe) (take n (h_socks h)) @ drop n (h_socks h) \<and>
    (queued E i j h \<or> (\<exists>k < n. on_pipe (Some pipe) (sock k h)) \<longrightarrow> queued E i j h') \<and>
    sm_at_host_get_ctx_from (Some pipe) h' = Some j \<and> \<not> is_idle_ctx (Some j) h' \<and> h_world h' = h_world h"
  using assms(3) unfolding h'_def
proof (induction n)
  case (Suc n)
  let ?h = "fold (poll_work_sock E S i pipe False False) [0..<n] h"
  from Suc have ih: "h_socks ?h = map (defer_events pipe) (take n (h_socks h)) @ drop n (h_socks h)"
    "queued E i j h \<or> (\<exists>k < n. on_pipe (Some pipe) (sock k h)) \<longrightarrow> queued E i j ?h"
    "sm_at_host_get_ctx_from (Some pipe) ?h = Some j" "\<not> is_idle_ctx (Some j) ?h" "h_world ?h = h_world h" by simp_all
  have n: "n < length (h_socks ?h)" "sock n ?h = sock n h" using ih(1) Suc.prems by (simp_all add: nth_append)
  note st = poll_busy_sock [OF ih(3,4) n(1), where E = E and S = S and i = i]
  have "h_socks (poll_work_sock E S i pipe False False n ?h) = map (defer_events pipe) (take (Suc n) (h_socks h)) @ drop (Suc n) (h_socks h)"
    using st(1) ih(1) n Suc.prems by (simp add: take_Suc_conv_app_nth list_update_append flip: Cons_nth_drop_Suc)
  then show ?case using st ih n(2) by (auto simp: less_Suc_eq)
qed (use assms in simp)

section \<open>An idle channel\<close>

lemma data_send_hex_only [simp]: "only_sock k h' (snd (data_send_hex E S j d h)) = only_sock k h' h"
proof -
  have "h_socks (snd (data_send_hex_loop E S j fuel n bs h)) = h_socks h" for fuel n bs and h :: "('a, 'b) host"
    by (induction E S j fuel n bs h rule: data_send_hex_loop.induct) (simp_all add: Let_def)
  then show ?thesis unfolding data_send_hex_def by (rule only_sock_eq)
qed

lemma recv_deliver_only [simp]: "only_sock k h' (snd (recv_deliver E S k m t d h)) = only_sock k h' h"
  by (simp add: recv_deliver_def Let_def case_prod_unfold)

lemma recv_only [simp]:
  "only_sock k h' (snd (do_recv E S k tm fl m n h)) = only_sock k h' h"
  "only_sock k h' (snd (do_recvfrom E S k tm fl m n h)) = only_sock k h' h"
  by (simp_all add: do_recv_def do_recvfrom_def Let_def case_prod_unfold)

lemma auto_reception_only [simp]: "only_sock k h' (auto_reception E S k h) = only_sock k h' h"
  by (simp add: auto_reception_def Let_def case_prod_unfold)

lemma xapoll_only [simp]: "\<not> cfg_httpc S \<Longrightarrow> only_sock k h' (snd (poll_work_xapoll E S pipe k ev h)) = only_sock k h' h"
  by (simp add: poll_work_xapoll_def Let_def)

lemma poll_idle_only:
  assumes "\<not> cfg_httpc S"
  shows "only_sock k h (poll_work_sock E S i pipe True False k h)"
proof -
  have ev: "only_sock k h' (poll_work_events E S pipe True False k ev h) = only_sock k h' h" for ev h' and h :: "('a, 'b) host"
    using assms by (simp add: poll_work_events_def Let_def case_prod_unfold)
  show ?thesis by (simp add: poll_work_sock_def Let_def ev)
qed

lemma poll_idle_others:
  assumes "\<not> cfg_httpc S" "k \<notin> set ks"
  shows "sock k (fold (poll_work_sock E S i pipe True False) ks h) = sock k h \<and>
    length (h_socks (fold (poll_work_sock E S i pipe True False) ks h)) = length (h_socks h)"
  using assms(2)
proof (induction ks arbitrary: h)
  case (Cons j ks)
  then show ?case using poll_idle_only [OF assms(1), where k = j and h = h] by (simp add: only_sock_def)
qed simp

text \<open>Registering events of an entry that is not disabled adds them to its events.\<close>

lemma update_poll_events_adds:
  fixes E :: "('rb, 'w) env" and S :: "('rb, 'w) sock_env" and ev :: "8 word" and x :: bool
  assumes "\<not> po_disable (sk_async_poll (sock k h))" "k < length (h_socks h)"
  defines "q \<equiv> sk_async_poll (sock k (snd (update_poll_events E S k ev x h)))" and "p \<equiv> sk_async_poll (sock k h)"
  shows "po_events q = po_events p OR ev" "po_disable q = po_disable p" "po_revents q = po_revents p"
    "po_delayed_revents q = po_delayed_revents p"
  using assms by (simp_all add: update_poll_events_def set_so_poll_cb_def wcall_split Let_def)

lemma poll_idle_sock:
  fixes E :: "('rb, 'w) env" and S :: "('rb, 'w) sock_env" and i :: ctx_id
  assumes "on_pipe (Some pipe) (sock k h)" "k < length (h_socks h)" "po_delayed_revents (sk_async_poll (sock k h)) \<noteq> 0"
  defines "p \<equiv> sk_async_poll (sock k h)" and "q \<equiv> sk_async_poll (sock k (poll_work_sock E S i pipe True False k h))"
  shows "po_delayed_revents q = 0 \<and> po_revents q = 0 \<and> \<not> po_disable q \<and>
    po_events q = po_events p OR po_delayed_revents p OR ucast (po_revents p)"
proof -
  let ?h1 = "upd_sock k (upd_poll (\<lambda>p. p\<lparr>po_disable := False\<rparr>)) (upd_sock k (upd_poll (\<lambda>p. p\<lparr>po_revents := 0\<rparr>)) h)"
  let ?ev = "po_delayed_revents p OR ucast (po_revents p)"
  have "poll_work_sock E S i pipe True False k h =
      upd_sock k (upd_poll (\<lambda>p. p\<lparr>po_delayed_revents := 0\<rparr>)) (snd (update_poll_events E S k ?ev True ?h1))"
    using assms(1-3) by (simp add: poll_work_sock_def Let_def on_pipe_def p_def)
  moreover have "k < length (h_socks (snd (update_poll_events E S k ?ev True ?h1)))"
    using assms(2) update_poll_only [where k = k and h' = ?h1 and h = ?h1] by (simp add: only_sock_def)
  ultimately show ?thesis using update_poll_events_adds [where k = k and h = ?h1 and ev = ?ev and x = True and E = E and S = S] assms(2)
    by (simp add: q_def p_def or.assoc)
qed

section \<open>Commands for all sockets of a channel\<close>

lemma update_each_other:
  "\<not> on_pipe pipe (sock k h) \<Longrightarrow> sock k (snd (update_each E S pipe f ev x ks h)) = sock k h"
proof (induction ks arbitrary: h)
  case (Cons j ks)
  show ?case
  proof (cases "on_pipe pipe (sock j h)")
    case True
    then have "j \<noteq> k" using Cons.prems by auto
    then have "sock k (snd (update_poll_events E S j ev x (upd_sock j (upd_poll f) h))) = sock k h"
      using update_poll_only [where k = j and h' = h and h = "upd_sock j (upd_poll f) h"] by (simp add: only_sock_def)
    then show ?thesis using True Cons by (simp add: case_prod_unfold)
  qed (use Cons in simp)
qed simp

lemma xapoll_stop_other: "\<not> on_pipe (sm_at_host_get_current_pipe E h) (sock k h) \<Longrightarrow> sock k (xapoll_stop E None h) = sock k h"
proof -
  have "\<not> on_pipe p (sock k h) \<Longrightarrow> sock k (fold (\<lambda>k h. if on_pipe p (sock k h)
      then upd_sock k (upd_poll (\<lambda>p. p\<lparr>po_xapoll_events_requested := 0\<rparr>)) h else h) ks h) = sock k h" for p ks and h :: "('a, 'b) host"
  proof (induction ks arbitrary: h)
    case (Cons j ks)
    then show ?case by (cases "j = k") simp_all
  qed simp
  then show "\<not> on_pipe (sm_at_host_get_current_pipe E h) (sock k h) \<Longrightarrow> sock k (xapoll_stop E None h) = sock k h"
    by (simp add: xapoll_stop_def Let_def split: option.split)
qed

section \<open>Properties\<close>

text \<open>C14: Poll events that arrive while the channel of the context executes a command are not lost and send
  nothing: each socket of the channel keeps them as delayed events, the other sockets stay as they are,
  the work item is queued to run when the channel is idle, and the rest of the system is not touched.\<close>

theorem busy_poll_defers:
  assumes "sm_at_host_get_pipe_from_poll_ctx (Some i) h = Some pipe" and "length (h_socks h) = SM_MAX_SOCKET_COUNT"
    and "\<not> is_idle_pipe (Some pipe) h" and "\<not> in_datamode_pipe (Some pipe) h"
    and "sm_at_socket_poll_work_handler E S i h = h'"
  shows "h_socks h' = map (defer_events pipe) (h_socks h) \<and> h_world h' = h_world h \<and>
    ((\<exists>k < SM_MAX_SOCKET_COUNT. on_pipe (Some pipe) (sock k h)) \<longrightarrow>
       (\<exists>j. sm_at_host_get_ctx_from (Some pipe) h = Some j \<and> queued E i j h'))"
proof -
  have "i \<in> set (h_instances h)" "c_pipe (h_ctx h i) = Some pipe"
    using assms(1) by (auto simp: sm_at_host_get_pipe_from_poll_ctx_def sm_at_ctx_check_def split: if_splits)
  then obtain j where j: "sm_at_host_get_ctx_from (Some pipe) h = Some j"
    by (metis (mono_tags, lifting) find_None_iff option.exhaust option.simps(5) sm_at_host_get_ctx_from_def)
  then have busy: "\<not> is_idle_ctx (Some j) h" using assms(3) by (simp add: is_idle_pipe_def)
  have "h' = fold (poll_work_sock E S i pipe False False) [0..<SM_MAX_SOCKET_COUNT] h"
    using assms(1,3,4,5) by (simp add: sm_at_socket_poll_work_handler_def Let_def)
  then show ?thesis using poll_busy_fold [OF j busy, where n = SM_MAX_SOCKET_COUNT and E = E and S = S and i = i] assms(2) j by auto
qed


text \<open>A poll notification is sent once. Processing events removes those it notified from the events to
  notify, and keeps the others; the same events then send nothing and change nothing.\<close>

lemma poll_notification_once:
  assumes "\<not> cfg_httpc S" and "k < length (h_socks h)" and "poll_work_xapoll E S pipe k revents h = (revents', h')"
  shows "revents' = revents \<and>
    po_xapoll_events (sk_async_poll (sock k h')) = po_xapoll_events (sk_async_poll (sock k h)) AND NOT revents \<and>
    poll_work_xapoll E S pipe k revents h' = (revents, h')"
proof -
  let ?x = "po_xapoll_events (sk_async_poll (sock k h))"
  have a: "?x AND NOT (revents AND ?x) = ?x AND NOT revents" by (simp add: bit_eq_iff bit_simps) blast
  have b: "?x AND NOT revents = ?x" if "revents AND ?x = 0" using that by (simp add: bit_eq_iff bit_simps) blast
  have ev: "revents' = revents" "k < length (h_socks h')" "po_xapoll_events (sk_async_poll (sock k h')) = ?x AND NOT revents"
    using assms a b by (auto simp: poll_work_xapoll_def Let_def split: if_splits)
  then have z: "revents AND po_xapoll_events (sk_async_poll (sock k h')) = 0" by (simp add: bit_eq_iff bit_simps)
  have "upd_sock k (upd_poll (\<lambda>p. p\<lparr>po_xapoll_events := po_xapoll_events p\<rparr>)) h' = h'"
    by (simp add: upd_sock_def upd_poll_def)
  then have "poll_work_xapoll E S pipe k revents h' = (revents, h')" using z by (simp add: poll_work_xapoll_def Let_def)
  then show ?thesis using ev by simp
qed

text \<open>AT#XAPOLL for all sockets, to start or to stop, means the sockets of the channel of the command: an
  entry that is free or belongs to another channel is not changed.\<close>

lemma xapoll_all_own_channel:
  assumes "\<not> on_pipe (sm_at_host_get_current_pipe E h) (sock k h)"
  shows "sock k (snd (set_xapoll_events E S None events h)) = sock k h \<and> sock k (xapoll_stop E None h) = sock k h"
proof -
  let ?p = "sm_at_host_get_current_pipe E h"
  have "sock k (snd (set_xapoll_events E S None events h)) = sock k h"
  proof (cases "sm_at_host_get_async_poll_ctx ?p h")
    case (Some i)
    let ?h = "upd_ctx i (upd_poll_ctx (\<lambda>c. c\<lparr>apc_xapoll_events_requested := events\<rparr>)) h"
    have "\<not> on_pipe ?p (sock k ?h)" using assms by simp
    from update_each_other [OF this] show ?thesis using Some by (simp add: set_xapoll_events_def Let_def)
  qed (simp add: set_xapoll_events_def)
  then show ?thesis using xapoll_stop_other [OF assms] by simp
qed

end
