(* ===== verification/Sock_Demo.thy ===== *)
theory Sock_Demo
  imports Sock_Props Sock_Data Sock_Poll
begin

unbundle bit_operations_syntax

text \<open>
  A sockets layer that opens the next free descriptor and takes at most four bytes at a time, a host on
  it, and a parser of parameter lists. The contracts of the sockets module hold for them, and its
  properties are applied to them.
\<close>

section \<open>The environment\<close>

record net =
  n_open :: "nat list"
  n_out :: "int \<Rightarrow> bytes"

definition n_opened :: "net \<Rightarrow> int set" where
  "n_opened w = int ` set (n_open w)"

definition n_fresh :: "net \<Rightarrow> nat" where
  "n_fresh w = Suc (foldr max (n_open w) 0)"

lemma n_fresh_new: "n_fresh w \<notin> set (n_open w)"
proof -
  have "x \<in> set xs \<Longrightarrow> x \<le> foldr max xs 0" for x and xs :: "nat list" by (induction xs) auto
  then show ?thesis unfolding n_fresh_def by (metis Suc_n_not_le_n)
qed

definition hex_char :: "char \<Rightarrow> bytes" where
  "hex_char c = (let d = (\<lambda>n. char_of (if n < 10 then 48 + n else 55 + n)) in [d (byte_val c div 16), d (byte_val c mod 16)])"

definition net_util :: "net util_env" where
  "net_util = \<lparr>m_at_cmd = (\<lambda>len cmd w. (0, [], w)), m_at_scanf = (\<lambda>n m cmd w. (0, [], [], w)), m_inet_pton = (\<lambda>v6 s. (1, s)),
     m_inet_ntop = (\<lambda>v6 a. Some a), m_getaddrinfo = (\<lambda>h s f w. (0, (f, h, 0), w)), m_errno = (\<lambda>w. EIO), m_s1_exists = False,
     m_s0_active = (\<lambda>w. (0, True)), m_s_address = (\<lambda>b. 0), m_fw_version = (\<lambda>a w. (0, 0))\<rparr>"

definition net_socks :: "(ring, net) sock_env" where
  "net_socks = \<lparr>cfg_httpc = False, s_util = net_util,
     s_socket = (\<lambda>fam ty pr w. (int (n_fresh w), w\<lparr>n_open := n_fresh w # n_open w\<rparr>)),
     s_close = (\<lambda>fd w. (0, w\<lparr>n_open := filter (\<lambda>n. int n \<noteq> fd) (n_open w)\<rparr>)),
     s_setsockopt = (\<lambda>fd l opt v w. (0, w)), s_getsockopt = (\<lambda>fd l opt w. ((0, 0, []), w)), s_bind = (\<lambda>fd a w. (0, w)),
     s_connect = (\<lambda>fd a w. (0, w)),
     s_send = (\<lambda>fd d fl w. (int (min 4 (length d)), w\<lparr>n_out := (n_out w)(fd := n_out w fd @ take 4 d)\<rparr>)),
     s_sendto = (\<lambda>fd d fl a w. (int (length d), w)), s_recv = (\<lambda>fd n fl w. ((2, ''hi''), w)),
     s_recvfrom = (\<lambda>fd n fl w. ((2, ''hi'', (1, [], 0)), w)), s_set_nonblock = (\<lambda>fd w. (0, w)), s_listen = (\<lambda>fd n w. (0, w)),
     s_accept = (\<lambda>fd w. ((int (n_fresh w), (1, [], 0)), w\<lparr>n_open := n_fresh w # n_open w\<rparr>)),
     s_getaddrinfo = (\<lambda>s hints w. ((0, []), w)), s_gai_strerror = (\<lambda>e. []), s_msg_dontwait = 64, s_peer_verify_required = 2,
     s_bin2hex = (\<lambda>d n. if 2 * length d < n then concat (map hex_char d) else []), s_hex2bin = (\<lambda>d n. []),
     s_httpc_poll_event = (\<lambda>fd ev h. (False, h)), s_httpc_socket_closed = (\<lambda>fd h. h)\<rparr>"

definition net_env :: "(ring, net) env" where
  "net_env = \<lparr>cfg_termination = CR_TERMINATION, cfg_datamode_terminator = ''+++'',
     cfg_datamode_buf_size = 4, cfg_at_buf_size = 64, cfg_at_echo_max_len = 64, cfg_urc_delay_ms = 50,
     cfg_uart_rx_buf_size = 256, cfg_cmux = False, cfg_ppp = False, cfg_cmux_channel_count = 2,
     e_rb = ring_ops, e_malloc = (\<lambda>n w. (True, w)), e_malloc_ctx = (\<lambda>w. (None, w)), e_free_ctx = (\<lambda>i w. w),
     e_in_isr = (\<lambda>w. False), e_work_submit = (\<lambda>w. (1, w)), e_work_pending = (\<lambda>wk w. False),
     e_pipe_transmit = (\<lambda>p d w. (int (length d), w)), e_pipe_receive = (\<lambda>p w. ((0, NUL), w)), e_pipe_is_open = (\<lambda>p w. True),
     e_pipe_open = (\<lambda>p w. (0, w)), e_pipe_close = (\<lambda>p w. (0, w)), e_event_post = (\<lambda>i ev w. w),
     e_event_wait_idle = (\<lambda>i w. (True, w)), e_pm_suspend = (\<lambda>w. (0, w)), e_pm_resume = (\<lambda>w. (0, w)), e_fuel = 100,
     e_datamode_handler = (\<lambda>cb op d fl h. (0, h)), e_at_cmd = (\<lambda>n s h. ((0, ''OK'' @ CRLF_STR @ [NUL]), h)),
     e_xdfu = (\<lambda>x s h. (0, h)), e_final_reset = (\<lambda>h. h), e_run_work = (\<lambda>wk h. h)\<rparr>"

definition net_host :: "sm_socket list \<Rightarrow> net \<Rightarrow> (ring, net) host" where
  "net_host ss w = \<lparr>h_ctx = (\<lambda>i. new_ctx (ring_init 4) (Some (Pipe 2))), h_instances = [0], h_current = Some 0, h_urc_buf = ring_init 8,
     h_urc_channel = 0, h_msgq = [], h_works = [], h_pipe_cb = (\<lambda>p. AtPipeHandler (Some 0)),
     h_cmux_uart_pipe = None, h_cmux_dlcis = [], h_uart_baudrate = 115200, h_fwd_cgev_notifs = False,
     h_bootloader_mode = False, h_socks = ss, h_udp_url = [], h_udp_port = 0, h_world = w, h_fault = False\<rparr>"

text \<open>A socket in use with its events, and a table with it as the first entry.\<close>

definition net_sock :: "int \<Rightarrow> sm_async_poll \<Rightarrow> sm_socket" where
  "net_sock fd p = (init_sock (Some (Pipe 2)))\<lparr>sk_fd := fd, sk_type := SOCK_STREAM, sk_async_poll := p\<rparr>"

definition net_table :: "sm_socket \<Rightarrow> sm_socket list" where
  "net_table s = s # replicate 7 (init_sock (Some (Pipe 2)))"

text \<open>A parser of a list of parameters, the command name first.\<close>

datatype par = Num int | Str string

definition par_num :: "par list \<Rightarrow> nat \<Rightarrow> int + int" where
  "par_num ps i = (if i < length ps then case ps ! i of Num n \<Rightarrow> Inr n | Str s \<Rightarrow> Inl (- EOPNOTSUPP) else Inl (- ENODATA))"

definition par_ops :: "par list at_parser_ops" where
  "par_ops = \<lparr>ap_init = (\<lambda>s. Inl (- EINVAL)), ap_cmd_count_get = (\<lambda>ps. Inr (length ps)), ap_cmd_type_get = (\<lambda>ps. Inr CMD_TYPE_SET),
     ap_num_get_u16 = (\<lambda>ps i. map_sum id word_of_int (par_num ps i)), ap_num_get_u32 = (\<lambda>ps i. map_sum id word_of_int (par_num ps i)),
     ap_num_get_s32 = (\<lambda>ps i. map_sum id word_of_int (par_num ps i)),
     ap_string_get = (\<lambda>ps i n. case ps ! i of Str s \<Rightarrow> (0, s @ [NUL]) | Num v \<Rightarrow> (- EOPNOTSUPP, [])),
     ap_string_ptr_get = (\<lambda>ps i. case ps ! i of Str s \<Rightarrow> Inr s | Num v \<Rightarrow> Inl (- EOPNOTSUPP)),
     ap_custom_respond = (\<lambda>n s. 0), ap_err_type = (\<lambda>e. NRF_MODEM_AT_ERROR), ap_err = (\<lambda>e. e)\<rparr>"

lemma par_ops_sel [simp]:
  "ap_num_get_u16 par_ops ps i = map_sum id word_of_int (par_num ps i)" "ap_num_get_s32 par_ops ps i = map_sum id word_of_int (par_num ps i)"
  "ap_string_get par_ops ps i n = (case ps ! i of Str s \<Rightarrow> (0, s @ [NUL]) | Num v \<Rightarrow> (- EOPNOTSUPP, []))"
  "ap_string_ptr_get par_ops ps i = (case ps ! i of Str s \<Rightarrow> Inr s | Num v \<Rightarrow> Inl (- EOPNOTSUPP))"
  by (simp_all add: par_ops_def)

section \<open>The contracts hold\<close>

interpretation net: sock_host net_env net_socks n_opened
proof -
  have "host_machine net_env n_opened (sock_inv n_opened)"
    by (rule sock_machine, unfold_locales) (auto simp: net_env_def)
  moreover have "sock_net net_socks n_opened"
    by unfold_locales (auto simp: net_socks_def n_opened_def n_fresh_new net_util_def)
  ultimately show "sock_host net_env net_socks n_opened" by (simp add: sock_host_def)
qed

lemma net_kept: "world_kept net_env obs"
  by unfold_locales (auto simp: net_env_def)

interpretation net_stream: sock_stream net_env net_socks "\<lambda>fd w. n_out w fd" 3
  by (intro sock_stream.intro net_kept sock_stream_axioms.intro) (auto simp: net_socks_def net_util_def min_def split: if_splits)

interpretation net_hex: hex_output net_socks hex_char
  by unfold_locales (simp_all add: net_socks_def hex_char_def Let_def)

lemma net_socks_sel [simp]:
  "\<not> cfg_httpc net_socks" "m_errno (s_util net_socks) w = EIO" "fst (s_close net_socks fd w) = 0"
  by (simp_all add: net_socks_def net_util_def)

section \<open>States\<close>

text \<open>A table with one socket in use, with its events and descriptor three.\<close>

definition net_poll :: "sm_async_poll" where
  "net_poll = zero_poll\<lparr>po_revents := 1, po_delayed_revents := 4, po_xapoll_events := 1\<rparr>"

definition net_state :: "(ring, net) host" where
  "net_state = net_host (net_table (net_sock 3 net_poll)) \<lparr>n_open = [3, 7], n_out = (\<lambda>fd. [])\<rparr>"

lemma net_ctx_ok: "ctx_ok (c_poll_ctx (h_ctx (net_host ss w) i))"
  by (simp add: net_host_def new_ctx_def ctx_ok_def)

lemma net_table_nth: "k < 8 \<Longrightarrow> net_table s ! k = (if k = 0 then s else init_sock (Some (Pipe 2)))"
  by (cases k) (simp_all add: net_table_def)

lemma net_table_sel [simp]: "length (net_table s) = 8" "net_table s ! 0 = s"
  by (simp_all add: net_table_def)

lemma net_state_sel [simp]:
  "h_socks net_state = net_table (net_sock 3 net_poll)" "length (h_socks net_state) = SM_MAX_SOCKET_COUNT"
  "sock 0 net_state = net_sock 3 net_poll" "h_world net_state = \<lparr>n_open = [3, 7], n_out = (\<lambda>fd. [])\<rparr>"
  "sm_at_host_get_current_pipe net_env net_state = Some (Pipe 2)" "h_instances net_state = [0]"
  "h_ctx net_state i = new_ctx (ring_init 4) (Some (Pipe 2))"
  by (simp_all add: net_state_def net_host_def net_table_def sm_at_host_get_current_pipe_def sm_at_host_get_current_def
      sm_at_host_get_pipe_def new_ctx_def sm_at_ctx_check_def net_env_def)

lemma net_sock_sel [simp]:
  "sk_fd (net_sock fd p) = fd" "sk_async_poll (net_sock fd p) = p" "sk_cid (net_sock fd p) = 0" "sk_pipe (net_sock fd p) = Some (Pipe 2)"
  "sk_sec_tag (net_sock fd p) = SEC_TAG_TLS_INVALID" "sk_type (net_sock fd p) = SOCK_STREAM"
  by (simp_all add: net_sock_def init_sock_def)

lemma net_inv: "sock_inv n_opened net_state"
proof -
  have "sock_ok (n_opened (h_world net_state)) (sock k net_state)" if "k < SM_MAX_SOCKET_COUNT" for k
    using that by (simp add: net_table_nth sock_ok_def n_opened_def net_poll_def zero_poll_def)
  moreover have "ctx_ok (c_poll_ctx (h_ctx net_state i))" for i using net_ctx_ok by (simp add: net_state_def)
  ultimately show ?thesis by (simp add: sock_inv_but_def net_table_nth)
qed

lemma net_poll_ctx: "sm_at_host_get_async_poll_ctx (Some (Pipe 2)) net_state = Some 0"
  "sm_at_host_get_pipe_from_poll_ctx (Some 0) net_state = Some (Pipe 2)" "sm_at_host_get_ctx_from (Some (Pipe 2)) net_state = Some 0"
  by (simp_all add: sm_at_host_get_async_poll_ctx_def sm_at_host_get_ctx_from_def sm_at_host_get_pipe_from_poll_ctx_def
      sm_at_ctx_check_def new_ctx_def Let_def)

lemma net_idle: "is_idle_pipe (Some (Pipe 2)) net_state" "\<not> in_datamode_pipe (Some (Pipe 2)) net_state"
  by (simp_all add: is_idle_pipe_def in_datamode_pipe_def net_poll_ctx is_idle_ctx_def in_at_mode_ctx_def in_datamode_ctx_def
      get_sm_mode_def sm_at_ctx_check_def new_ctx_def)

lemma net_find: "find_socket 3 net_state = Some 0"
  by (simp add: find_socket_def upt_conv_Cons net_table_nth)

text \<open>The same while a command executes.\<close>

definition net_busy :: "(ring, net) host" where
  "net_busy = upd_ctx 0 (\<lambda>c. c\<lparr>c_executing_lock := 1\<rparr>) net_state"

section \<open>The properties at work\<close>

theorem socket_table_invariant_witness:
  "\<forall>evs. length (h_socks (foldl (sock_step (with_sockets net_socks par_ops (\<lambda>s. Some XSOCKET) net_env))
     (snd (sm_at_socket_init net_env net_state)) evs)) = 8"
  using socket_table_invariant [OF net.sock_host_axioms net_state_sel(2), of par_ops "\<lambda>s. Some XSOCKET"]
  by (simp add: new_ctx_def ctx_ok_def)

theorem close_all_frees_table_witness:
  "sock_fds (snd (handle_at_close net_env net_socks par_ops CMD_TYPE_SET [] 1 net_state)) = {} \<and>
   7 \<in> n_opened (h_world (snd (handle_at_close net_env net_socks par_ops CMD_TYPE_SET [] 1 net_state)))"
proof -
  have "sock_fds net_state = {3}" by (auto simp: sock_fds_def net_table_nth init_sock_def split: if_splits intro!: exI [of _ 0])
  then show ?thesis using close_all_frees_table [OF net.sock_host_axioms net_inv _ _ prod.collapse [symmetric], of 1 par_ops "[]"]
    by (auto simp: n_opened_def)
qed


theorem xsend_ok_iff_all_sent_witness:
  "\<exists>n \<le> length ''hello''. n_out (h_world (snd (handle_at_send net_env net_socks par_ops CMD_TYPE_SET
       [Str ''AT#XSEND'', Num 3, Num 0, Num 0, Str ''hello''] 5 net_state))) 3 = take n ''hello'' \<and>
     (fst (handle_at_send net_env net_socks par_ops CMD_TYPE_SET
       [Str ''AT#XSEND'', Num 3, Num 0, Num 0, Str ''hello''] 5 net_state) = 0 \<longleftrightarrow> n = length ''hello'')"
  using xsend_ok_iff_all_sent [OF net_stream.sock_stream_axioms _ net_find net_state_sel(2),
      where P = par_ops and parser = "[Str ''AT#XSEND'', Num 3, Num 0, Num 0, Str ''hello'']" and mode = 0 and flags = 0 and
      param_count = 5 and data = "''hello''", OF _ _ _ _ _ _ prod.collapse [symmetric]]
  by (simp add: num_int_def par_num_def send_data_param_def)

theorem busy_poll_defers_witness:
  "h_socks (sm_at_socket_poll_work_handler net_env net_socks 0 net_busy) = map (defer_events (Pipe 2)) (h_socks net_state)"
proof -
  have "sm_at_host_get_pipe_from_poll_ctx (Some 0) net_busy = Some (Pipe 2)" "length (h_socks net_busy) = SM_MAX_SOCKET_COUNT"
    "\<not> is_idle_pipe (Some (Pipe 2)) net_busy" "\<not> in_datamode_pipe (Some (Pipe 2)) net_busy"
    by (simp_all add: net_busy_def sm_at_host_get_pipe_from_poll_ctx_def sm_at_ctx_check_def is_idle_pipe_def in_datamode_pipe_def
        sm_at_host_get_ctx_from_def is_idle_ctx_def in_datamode_ctx_def get_sm_mode_def new_ctx_def)
  from busy_poll_defers [OF this refl, of net_env net_socks] show ?thesis by (simp add: net_busy_def)
qed


text \<open>After a failed AT#XSENDTO, AT#XSEND enters data mode on the stream socket.\<close>

definition stale_sendto :: "par list" where
  "stale_sendto = [Str ''AT#XSENDTO'', Num 3, Num 1, Num 0, Str ''old'', Num 9, Str ''zz'']"

definition stale_state :: "(ring, net) host" where
  "stale_state = upd_ctx 0 (upd_poll_ctx (\<lambda>c. c\<lparr>apc_datamode_sock := Some 0\<rparr>)) (net_state\<lparr>h_udp_url := ''old''\<rparr>)"


end
