(* ===== verification/Http_Demo.thy ===== *)
theory Http_Demo
  imports Http_Props Http_Parse Sock_Demo
begin

unbundle bit_operations_syntax

text \<open>
  The HTTP client on a host, a sockets layer that takes at most four bytes at a time, and a clock that
  stands still. The contracts of the client hold for them, and its properties are applied to them.
\<close>

section \<open>The environment\<close>

definition web_socks :: "(ring, net http_world) sock_env" where
  "web_socks = \<lparr>cfg_httpc = True, s_util = \<lparr>m_at_cmd = (\<lambda>len cmd w. (0, [], w)), m_at_scanf = (\<lambda>n m cmd w. (0, [], [], w)),
       m_inet_pton = (\<lambda>v6 s. (1, s)), m_inet_ntop = (\<lambda>v6 a. Some a), m_getaddrinfo = (\<lambda>h s f w. (0, (f, h, 0), w)), m_errno = (\<lambda>w. EIO),
       m_s1_exists = False, m_s0_active = (\<lambda>w. (0, True)), m_s_address = (\<lambda>b. 0), m_fw_version = (\<lambda>a w. (0, 0))\<rparr>,
     s_socket = (\<lambda>fam ty pr w. (int (n_fresh (ht_world w)), w\<lparr>ht_world := (ht_world w)\<lparr>n_open := n_fresh (ht_world w) # n_open (ht_world w)\<rparr>\<rparr>)),
     s_close = (\<lambda>fd w. (0, w\<lparr>ht_world := (ht_world w)\<lparr>n_open := filter (\<lambda>n. int n \<noteq> fd) (n_open (ht_world w))\<rparr>\<rparr>)),
     s_setsockopt = (\<lambda>fd l opt v w. (0, w)), s_getsockopt = (\<lambda>fd l opt w. ((0, 0, []), w)), s_bind = (\<lambda>fd a w. (0, w)),
     s_connect = (\<lambda>fd a w. (0, w)),
     s_send = (\<lambda>fd d fl w. (int (min 4 (length d)), w\<lparr>ht_world := (ht_world w)\<lparr>n_out := (n_out (ht_world w))(fd := n_out (ht_world w) fd @ take 4 d)\<rparr>\<rparr>)),
     s_sendto = (\<lambda>fd d fl a w. (int (length d), w)), s_recv = (\<lambda>fd n fl w. if n < 2 then ((0, []), w) else ((2, ''hi''), w)),
     s_recvfrom = (\<lambda>fd n fl w. ((2, ''hi'', (1, [], 0)), w)), s_set_nonblock = (\<lambda>fd w. (0, w)), s_listen = (\<lambda>fd n w. (0, w)),
     s_accept = (\<lambda>fd w. ((- 1, (1, [], 0)), w)),
     s_getaddrinfo = (\<lambda>s hints w. ((0, []), w)), s_gai_strerror = (\<lambda>e. []), s_msg_dontwait = 64, s_peer_verify_required = 2,
     s_bin2hex = (\<lambda>d n. concat (map hex_char d)), s_hex2bin = (\<lambda>d n. []),
     s_httpc_poll_event = (\<lambda>fd ev h. (False, h)), s_httpc_socket_closed = (\<lambda>fd h. h)\<rparr>"

definition web_base :: "(ring, net http_world) env" where
  "web_base = \<lparr>cfg_termination = CR_TERMINATION, cfg_datamode_terminator = ''+++'',
     cfg_datamode_buf_size = 4, cfg_at_buf_size = 64, cfg_at_echo_max_len = 64, cfg_urc_delay_ms = 50,
     cfg_uart_rx_buf_size = 256, cfg_cmux = False, cfg_ppp = False, cfg_cmux_channel_count = 2,
     e_rb = ring_ops, e_malloc = (\<lambda>n w. (True, w)), e_malloc_ctx = (\<lambda>w. (None, w)), e_free_ctx = (\<lambda>i w. w),
     e_in_isr = (\<lambda>w. False), e_work_submit = (\<lambda>w. (1, w)), e_work_pending = (\<lambda>wk w. False),
     e_pipe_transmit = (\<lambda>p d w. (int (length d), w)), e_pipe_receive = (\<lambda>p w. ((0, NUL), w)), e_pipe_is_open = (\<lambda>p w. True),
     e_pipe_open = (\<lambda>p w. (0, w)), e_pipe_close = (\<lambda>p w. (0, w)), e_event_post = (\<lambda>i ev w. w),
     e_event_wait_idle = (\<lambda>i w. (True, w)), e_pm_suspend = (\<lambda>w. (0, w)), e_pm_resume = (\<lambda>w. (0, w)), e_fuel = 100,
     e_datamode_handler = (\<lambda>cb op d fl h. (0, h)), e_at_cmd = (\<lambda>n s h. ((0, ''OK'' @ CRLF_STR @ [NUL]), h)),
     e_xdfu = (\<lambda>x s h. (0, h)), e_final_reset = (\<lambda>h. h), e_run_work = (\<lambda>wk h. h)\<rparr>"

definition web_http :: "net http_world http_env" where
  "web_http = \<lparr>hc_response_timeout_ms = 30000, hc_uptime = (\<lambda>w. 50000), hc_sizeof_request = 104,
     hc_parse_url = (\<lambda>u. Some \<lparr>uf_schema = None, uf_host = Some (7, 3), uf_path = Some (10, 2), uf_query = None, uf_port = None\<rparr>)\<rparr>"

definition web_env :: "(ring, net http_world) env" where
  "web_env = http_handler web_socks web_http (http_handler web_socks web_http web_base)"

section \<open>The contracts hold\<close>

lemma web_kept: "world_kept web_base obs"
  by unfold_locales (auto simp: web_base_def)

interpretation web_client: http_host web_env web_socks
proof -
  have "host_machine web_base ht_st (\<lambda>h. http_inv (http h))"
    by (rule http_machine [OF web_kept]) (simp_all add: web_base_def)
  moreover have "http_calls web_base web_socks"
    by (intro http_calls.intro web_kept http_calls_axioms.intro) (auto simp: web_socks_def split: if_splits)
  ultimately have "http_host web_base web_socks" by (simp add: http_host_def)
  then show "http_host web_env web_socks" unfolding web_env_def by (intro http_handler_host)
qed

interpretation web_table: http_socks web_base web_socks "\<lambda>w. n_opened (ht_world w)"
proof -
  have "host_machine web_base (\<lambda>w. n_opened (ht_world w)) (sock_inv (\<lambda>w. n_opened (ht_world w)))"
    by (rule sock_machine [OF web_kept]) (auto simp: web_base_def)
  moreover have "sock_net web_socks (\<lambda>w. n_opened (ht_world w))"
    by unfold_locales (auto simp: web_socks_def n_opened_def n_fresh_new)
  ultimately show "http_socks web_base web_socks (\<lambda>w. n_opened (ht_world w))"
    by (auto simp: http_socks_def sock_host_def http_socks_axioms_def)
qed

lemma web_stream: "sock_stream web_env web_socks (\<lambda>fd w. n_out (ht_world w) fd) 3"
proof -
  have "world_kept web_env (\<lambda>w. n_out (ht_world w) 3)" by unfold_locales (auto simp: web_env_def http_handler_def web_base_def)
  then show ?thesis
    by (intro sock_stream.intro sock_stream_axioms.intro) (auto simp: web_socks_def min_def split: if_splits)
qed

section \<open>States\<close>

definition web_host :: "http_vars \<Rightarrow> (ring, net http_world) host" where
  "web_host s = \<lparr>h_ctx = (\<lambda>i. new_ctx (ring_init 4) (Some (Pipe 2))), h_instances = [0], h_current = Some 0, h_urc_buf = ring_init 8,
     h_urc_channel = 0, h_msgq = [], h_works = [], h_pipe_cb = (\<lambda>p. AtPipeHandler (Some 0)),
     h_cmux_uart_pipe = None, h_cmux_dlcis = [], h_uart_baudrate = 115200, h_fwd_cgev_notifs = False,
     h_bootloader_mode = False, h_socks = net_table (net_sock 3 zero_poll), h_udp_url = [], h_udp_port = 0,
     h_world = \<lparr>ht_st = s, ht_world = \<lparr>n_open = [3, 7], n_out = (\<lambda>fd. [])\<rparr>\<rparr>, h_fault = False\<rparr>"

definition no_requests :: http_vars where
  "no_requests = \<lparr>hs_requests = replicate HTTP_MAX_REQUESTS None, hs_datamode_req = None, hs_timeout_armed = False\<rparr>"

text \<open>A request that streams its body, and one that waits for the response since long ago.\<close>

definition body_request :: http_request where
  "body_request = zero_request\<lparr>rq_fd := 3, rq_state := HTTP_STATE_SENDING_BODY, rq_method := HTTP_POST, rq_hostname := Some ''a.b'',
     rq_path := Some ''/x'', rq_request_body_len := 6\<rparr>"

definition old_request :: http_request where
  "old_request = zero_request\<lparr>rq_fd := 7, rq_state := HTTP_STATE_RECEIVING_HEADERS, rq_timeout_timestamp := 40000\<rparr>"

definition two_requests :: http_vars where
  "two_requests = \<lparr>hs_requests = [Some body_request, Some old_request, None, None, None, None, None, None],
     hs_datamode_req = Some 0, hs_timeout_armed = True\<rparr>"

lemma web_host_sel [simp]: "http (web_host s) = s" "h_fault (web_host s) = False" "h_world (web_host s) = \<lparr>ht_st = s, ht_world = \<lparr>n_open = [3, 7], n_out = (\<lambda>fd. [])\<rparr>\<rparr>"
  by (simp_all add: web_host_def)

lemma two_requests_sel [simp]:
  "hs_requests two_requests ! 0 = Some body_request" "hs_requests two_requests ! Suc 0 = Some old_request"
  "hs_datamode_req two_requests = Some 0" "length (hs_requests two_requests) = 8" "hs_timeout_armed two_requests"
  by (simp_all add: two_requests_def)

lemma two_requests_nth: "k < 8 \<Longrightarrow> hs_requests two_requests ! k = Some r \<Longrightarrow> k = 0 \<and> r = body_request \<or> k = 1 \<and> r = old_request"
  by (auto simp: two_requests_def nth_Cons split: nat.splits)

lemma two_requests_inv: "http_inv two_requests"
proof (rule http_invI)
  show "length (hs_requests two_requests) = HTTP_MAX_REQUESTS" by simp
  have "req_ok body_request" "req_ok old_request"
    by (simp_all add: req_ok_def body_request_def old_request_def zero_request_def header_pos_def cstr_def)
  then show "req_ok r \<and> hs_timeout_armed two_requests" if "k < HTTP_MAX_REQUESTS" "hs_requests two_requests ! k = Some r" for k r
    using two_requests_nth [OF that] by auto
  show "rq_fd q \<noteq> rq_fd r" if "j < HTTP_MAX_REQUESTS" "k < HTTP_MAX_REQUESTS" "j \<noteq> k" "hs_requests two_requests ! j = Some q"
    "hs_requests two_requests ! k = Some r" for j k q r
    using two_requests_nth [OF that(1,4)] two_requests_nth [OF that(2,5)] that(3) by (auto simp: body_request_def old_request_def)
  show "k < HTTP_MAX_REQUESTS \<and> (\<exists>r. hs_requests two_requests ! k = Some r \<and> rq_state r = HTTP_STATE_SENDING_BODY)"
    if "hs_datamode_req two_requests = Some k" for k using that by (auto simp: body_request_def)
qed

section \<open>Witnesses\<close>

theorem http_table_invariant_witness:
  defines "h' \<equiv> snd (http_command web_env web_socks web_http par_ops XHTTPCREQ CMD_TYPE_SET
    [Str ''AT#XHTTPCREQ'', Num 3, Str ''http://a.b/x'', Num 0] 4 (web_host no_requests))"
  shows "case slot 0 h' of None \<Rightarrow> True | Some r \<Rightarrow> length (rq_recv_buf r) < HTTP_RECV_BUF_SIZE \<and> hs_timeout_armed (http h')"
proof -
  have "(http_step web_env web_socks web_http par_ops)\<^sup>*\<^sup>* (web_host no_requests) h'"
    unfolding h'_def by (rule r_into_rtranclp, rule http_step.Command)
  from http_table_invariant [OF web_client.http_host_axioms _ this, THEN conjunct1, rule_format, of 0] show ?thesis
    by (auto simp: no_requests_def split: option.split)
qed



theorem http_body_streamed_witness:
  "let (ret, h') = http_datamode_callback web_env web_socks web_http DATAMODE_SEND ''abcdef'' 0 (web_host two_requests)
   in ret = 6 \<and> n_out (ht_world (h_world h')) 3 = ''abcdef''"
proof -
  obtain ret h' where c: "http_datamode_callback web_env web_socks web_http DATAMODE_SEND ''abcdef'' 0 (web_host two_requests) = (ret, h')"
    by fastforce
  have fd: "rq_fd (req 0 (web_host two_requests)) = 3" by (simp add: body_request_def)
  have "0 \<le> ret" using c fd
    by (simp add: http_datamode_callback_def http_datamode_send_def web_socks_def wcall_def eval_nat_numeral split: if_splits)
  with http_body_streamed [OF web_stream web_client.http_host_axioms _ _ _ fd c] two_requests_inv show ?thesis
    by (auto simp: c)
qed

definition web_header :: string where
  "web_header = ''HTTP/1.1 200 OK'' @ CRLF_STR @ ''Content-Length: 5'' @ CRLF_STR @ CRLF_STR"

lemma web_header_block: "header_block web_header 34"
  by (simp add: header_block_def web_header_def)


theorem request_headers_fit_witness:
  "let (res, h') = http_alloc_build_headers web_base 0 (web_host two_requests)
   in \<not> h_fault h' \<and> (res = Inr (request_text body_request) \<or> res = Inl (- ENOMEM))"
proof -
  obtain res h' where c: "http_alloc_build_headers web_base 0 (web_host two_requests) = (res, h')" by fastforce
  have "rq_request_body_len (req 0 (web_host two_requests)) \<le> 2147483647" by (simp add: body_request_def)
  from request_headers_fit [OF this _ c web_kept] show ?thesis by (simp add: c)
qed

end
