(* ===== verification/Icmp_Sum.thy ===== *)
theory Icmp_Sum
  imports Sm_Prelude
begin

unbundle bit_operations_syntax

text \<open>
  The internet checksum of the ICMP module (\<open>app/src/sm_at_icmp.c\<close>), which adds 32 bits at a time, and its
  equivalence with the sum of 16-bit words with end-around carry of RFC 1071. The processor is little
  endian; a byte outside of the buffer is read as zero.
\<close>

section \<open>The code\<close>

definition byte_at :: "bytes \<Rightarrow> nat \<Rightarrow> nat" where
  "byte_at buf i = (if i < length buf then byte_val (buf ! i) else 0)"

definition le16 :: "bytes \<Rightarrow> nat" where "le16 buf = byte_at buf 0 + 256 * byte_at buf 1"
definition le32 :: "bytes \<Rightarrow> nat" where "le32 buf = le16 buf + 65536 * le16 (drop 2 buf)"

definition ics_add :: "32 word \<Rightarrow> 32 word \<Rightarrow> 32 word" where
  "ics_add hcs s = (let hcs = hcs + s in if hcs < s then hcs + 1 else hcs)"

fun ics_words :: "nat \<Rightarrow> bytes \<Rightarrow> 32 word \<Rightarrow> 32 word \<times> bytes" where
  "ics_words 0 buf hcs = (hcs, buf)"
| "ics_words (Suc n) buf hcs = ics_words n (drop 4 buf) (ics_add hcs (of_nat (le32 buf)))"

text \<open>The two halves of the sum.\<close>

lemma unat_low: "unat (hcs AND 0xFFFF) = unat (hcs :: 32 word) mod 65536"
proof -
  have "hcs AND 0xFFFF = take_bit 16 hcs" by (simp add: take_bit_eq_mask mask_eq_exp_minus_1)
  moreover have "unat (take_bit 16 hcs) = take_bit 16 (unat hcs)" by (rule unsigned_take_bit_eq)
  ultimately show ?thesis by (simp only: take_bit_eq_mod) simp
qed

lemma unat_high: "unat (drop_bit 16 hcs) = unat (hcs :: 32 word) div 65536"
proof -
  have "unat (drop_bit 16 hcs) = drop_bit 16 (take_bit 32 (unat hcs))" using unsigned_drop_bit_eq [of 16 hcs] by simp
  moreover have "unat hcs < 2 ^ 32" using unsigned_less [of hcs] by simp
  ultimately show ?thesis by (simp only: drop_bit_eq_div take_bit_eq_mod) simp
qed

lemma unat_halves: "unat ((hcs AND 0xFFFF) + drop_bit 16 hcs) = unat (hcs :: 32 word) mod 65536 + unat hcs div 65536"
proof -
  have "unat hcs < 2 ^ 32" using unsigned_less [of hcs] by simp
  then have "unat hcs mod 65536 + unat hcs div 65536 < 2 ^ 32" by linarith
  then show ?thesis using unat_add_lem [of "hcs AND 0xFFFF" "drop_bit 16 hcs"] by (simp add: unat_low unat_high)
qed

function ics_fold :: "32 word \<Rightarrow> 32 word" where
  "ics_fold hcs = (if 0xFFFF < hcs then ics_fold ((hcs AND 0xFFFF) + drop_bit 16 hcs) else hcs)"
  by pat_completeness auto
termination
proof (relation "measure unat")
  fix hcs :: "32 word"
  assume "0xFFFF < hcs"
  then have "65535 < unat hcs" by (simp add: word_less_nat_alt)
  then have "unat hcs mod 65536 + unat hcs div 65536 < unat hcs" using div_mult_mod_eq [of "unat hcs" 65536] by linarith
  then show "((hcs AND 0xFFFF) + drop_bit 16 hcs, hcs) \<in> measure unat" by (simp add: unat_halves)
qed simp

declare ics_fold.simps [simp del]

definition check_ics :: "bytes \<Rightarrow> int \<Rightarrow> 16 word" where
  "check_ics buffer len =
     (let (hcs, rest) = ics_words (nat (len div 4)) buffer 0;
          (hcs, rest) = (if len AND 2 \<noteq> 0 then (ics_add hcs (of_nat (le16 rest)), drop 2 rest) else (hcs, rest));
          hcs = (if len AND 1 \<noteq> 0 then ics_add hcs (of_nat (byte_at rest 0)) else hcs)
      in NOT (ucast (ics_fold hcs)))"

text \<open>Two bytes of the buffer are replaced by a 16-bit number.\<close>

definition put16 :: "nat \<Rightarrow> 16 word \<Rightarrow> bytes \<Rightarrow> bytes" where
  "put16 i v buf = buf[i := char_of (unat v mod 256), i + 1 := char_of (unat v div 256)]"

definition calc_ics :: "bytes \<Rightarrow> int \<Rightarrow> nat \<Rightarrow> bytes" where
  "calc_ics buffer len hcs_pos = (let buffer = put16 hcs_pos 0 buffer in put16 hcs_pos (check_ics buffer len) buffer)"

section \<open>Sums with end-around carry\<close>

text \<open>The value of a sum in a ring of \<open>m + 1\<close> numbers in which the carry is added at the lower end: the
  remainder by \<open>m\<close>, with \<open>m\<close> in place of zero unless everything was zero.\<close>

definition wrapped :: "nat \<Rightarrow> nat \<Rightarrow> nat" where
  "wrapped m n = (if n = 0 then 0 else (n - 1) mod m + 1)"

lemma wrapped_le: "0 < m \<Longrightarrow> wrapped m n \<le> m"
  by (simp add: wrapped_def) (metis Suc_leI mod_less_divisor)

lemma wrapped_small: "n \<le> m \<Longrightarrow> wrapped m n = n"
  by (auto simp: wrapped_def)

lemma wrapped_zero [simp]: "wrapped m n = 0 \<longleftrightarrow> n = 0"
  by (simp add: wrapped_def)

lemma wrapped_sub: "0 < n \<Longrightarrow> wrapped m (n + m * k) = wrapped m n"
  by (cases n) (simp_all add: wrapped_def)

lemma wrapped_cong:
  assumes "(a :: nat) mod m = b mod m" "a = 0 \<longleftrightarrow> b = 0"
  shows "wrapped m a = wrapped m b"
proof (cases "a = 0")
  case False
  have up: "wrapped m x = wrapped m y" if "x \<le> y" "0 < x" "x mod m = y mod m" for x y :: nat
  proof -
    have "m dvd y - x" using that(1,3) mod_eq_dvd_iff_nat [OF that(1), of m] by simp
    then obtain k where "y - x = m * k" by (rule dvdE)
    then have "y = x + m * k" using that(1) by simp
    then show ?thesis using wrapped_sub [OF that(2)] by simp
  qed
  show ?thesis
  proof (cases "a \<le> b")
    case True
    then show ?thesis using up [of a b] assms(1) False by simp
  next
    case False
    then show ?thesis using up [of b a] assms by simp
  qed
qed (use assms in simp)

lemma wrapped_mod: "wrapped m n mod m = n mod m"
  by (cases n) (simp_all add: wrapped_def mod_Suc_eq)

lemma wrapped_add: "wrapped m (wrapped m a + b) = wrapped m (a + b)"
  by (rule wrapped_cong) (rule mod_add_cong [OF wrapped_mod refl], simp)

lemma wrapped_dvd: "m dvd m' \<Longrightarrow> wrapped m (wrapped m' n) = wrapped m n"
proof (rule wrapped_cong)
  assume "m dvd m'"
  then show "wrapped m' n mod m = n mod m" using arg_cong [OF wrapped_mod [of m' n], of "\<lambda>x. x mod m"] by (simp add: mod_mod_cancel)
qed simp

section \<open>The code computes sums with end-around carry\<close>

lemma unat_end_around:
  fixes h s :: "'a::len word"
  shows "unat (if h + s < s then h + s + 1 else h + s) = wrapped (2 ^ LENGTH('a) - 1) (unat h + unat s)"
proof -
  define M :: nat where "M = 2 ^ LENGTH('a)"
  have lt: "unat h < M" "unat s < M" "1 \<le> M" using unsigned_less [of h] unsigned_less [of s] by (simp_all add: M_def)
  have sum: "unat (h + s) = (unat h + unat s) mod M" by (simp add: unat_word_ariths M_def)
  show ?thesis unfolding M_def [symmetric]
  proof (cases "unat h + unat s < M")
    case True
    then have u: "unat (h + s) = unat h + unat s" using sum by simp
    then have "\<not> h + s < s" by (simp add: word_less_nat_alt)
    then show "unat (if h + s < s then h + s + 1 else h + s) = wrapped (M - 1) (unat h + unat s)"
      using u True wrapped_small [of "unat h + unat s" "M - 1"] by simp
  next
    case False
    then have u: "unat (h + s) = unat h + unat s - M" using sum lt by (simp add: mod_if)
    then have c: "h + s < s" using lt False by (simp add: word_less_nat_alt)
    have "unat (h + s + 1) = (unat (h + s) + 1) mod M" by (simp add: unat_word_ariths M_def mod_simps)
    then have "unat (h + s + 1) = unat h + unat s - (M - 1)" using u lt False by simp
    moreover have "wrapped (M - 1) (unat h + unat s) = unat h + unat s - (M - 1)"
      using wrapped_sub [of "unat h + unat s - (M - 1)" "M - 1" 1] wrapped_small [of "unat h + unat s - (M - 1)" "M - 1"] lt False by simp
    ultimately show "unat (if h + s < s then h + s + 1 else h + s) = wrapped (M - 1) (unat h + unat s)" using c by simp
  qed
qed

lemma unat_ics_add: "unat (ics_add h s) = wrapped (2 ^ 32 - 1) (unat h + unat s)"
  using unat_end_around [of h s] by (simp add: ics_add_def Let_def)

lemma unat_ics_fold: "unat (ics_fold h) = wrapped 65535 (unat h)"
proof (induction h rule: ics_fold.induct)
  case (1 h)
  show ?case
  proof (cases "0xFFFF < h")
    case True
    have "wrapped 65535 (unat h mod 65536 + unat h div 65536) = wrapped 65535 (unat h)"
    proof (rule wrapped_cong)
      have "unat h = (unat h mod 65536 + unat h div 65536) + 65535 * (unat h div 65536)" using div_mult_mod_eq [of "unat h" 65536] by linarith
      then show "(unat h mod 65536 + unat h div 65536) mod 65535 = unat h mod 65535" by (metis mod_mult_self2)
      show "(unat h mod 65536 + unat h div 65536 = 0) = (unat h = 0)" using div_mult_mod_eq [of "unat h" 65536] by linarith
    qed
    then show ?thesis using 1 True by (subst ics_fold.simps) (simp add: unat_halves)
  next
    case False
    then have "unat h \<le> 65535" by (simp add: word_less_nat_alt)
    then show ?thesis using False by (subst ics_fold.simps) (simp add: wrapped_small)
  qed
qed

text \<open>The sum of the little endian 16-bit words of a buffer; a last byte counts as a word.\<close>

fun sum16 :: "bytes \<Rightarrow> nat" where
  "sum16 [] = 0"
| "sum16 [a] = byte_val a"
| "sum16 (a # b # r) = byte_val a + 256 * byte_val b + sum16 r"

lemma sum16_append: "even (length xs) \<Longrightarrow> sum16 (xs @ ys) = sum16 xs + sum16 ys"
  by (induction xs rule: sum16.induct) auto

lemma le16_take: "2 \<le> length buf \<Longrightarrow> le16 buf = sum16 (take 2 buf)"
  by (cases buf rule: sum16.cases) (auto simp: le16_def byte_at_def)

lemma le16_less: "le16 buf < 65536"
  using byte_val_less [of "buf ! 0"] byte_val_less [of "buf ! 1"] by (auto simp: le16_def byte_at_def simp del: byte_val_less)

lemma le32_less: "le32 buf < 2 ^ 32"
  using le16_less [of buf] le16_less [of "drop 2 buf"] by (simp add: le32_def)

lemma wrapped_le32:
  assumes "4 \<le> length buf"
  shows "wrapped 65535 (a + le32 buf) = wrapped 65535 (a + sum16 (take 4 buf))"
proof -
  have "take 4 buf = take 2 buf @ take 2 (drop 2 buf)" by (simp add: take_add [symmetric] flip: numeral_Bit0)
  then have s: "sum16 (take 4 buf) = le16 buf + le16 (drop 2 buf)"
    using assms sum16_append [of "take 2 buf" "take 2 (drop 2 buf)"] by (simp add: le16_take)
  show ?thesis
  proof (rule wrapped_cong)
    have "a + le32 buf = a + sum16 (take 4 buf) + 65535 * le16 (drop 2 buf)" by (simp add: le32_def s)
    then show "(a + le32 buf) mod 65535 = (a + sum16 (take 4 buf)) mod 65535" by (metis mod_mult_self2)
    show "(a + le32 buf = 0) = (a + sum16 (take 4 buf) = 0)" by (simp add: le32_def s)
  qed
qed

lemma wrapped_ics_add: "wrapped 65535 (unat (ics_add h s)) = wrapped 65535 (unat h + unat s)"
proof -
  have "(65535 :: nat) dvd 2 ^ 32 - 1" by simp
  then show ?thesis by (simp add: unat_ics_add wrapped_dvd)
qed

lemma wrapped_add2: "wrapped m a = wrapped m b \<Longrightarrow> wrapped m (a + c) = wrapped m (b + c)"
  by (metis wrapped_add)

lemma ics_words_sum:
  "4 * n \<le> length buf \<Longrightarrow> ics_words n buf h = (h', rest) \<Longrightarrow>
   rest = drop (4 * n) buf \<and> wrapped 65535 (unat h') = wrapped 65535 (unat h + sum16 (take (4 * n) buf))"
proof (induction n arbitrary: buf h)
  case (Suc n)
  have u: "unat (of_nat (le32 buf) :: 32 word) = le32 buf" using le32_less [of buf] by (simp add: unat_of_nat)
  have "rest = drop (4 * n) (drop 4 buf) \<and>
      wrapped 65535 (unat h') = wrapped 65535 (unat (ics_add h (of_nat (le32 buf))) + sum16 (take (4 * n) (drop 4 buf)))"
    using Suc.IH [of "drop 4 buf" "ics_add h (of_nat (le32 buf))"] Suc.prems by simp
  moreover have "wrapped 65535 (unat (ics_add h (of_nat (le32 buf)))) = wrapped 65535 (unat h + sum16 (take 4 buf))"
    using Suc.prems(1) by (simp add: wrapped_ics_add u wrapped_le32)
  from wrapped_add2 [OF this]
  have "wrapped 65535 (unat (ics_add h (of_nat (le32 buf))) + sum16 (take (4 * n) (drop 4 buf))) =
      wrapped 65535 (unat h + (sum16 (take 4 buf) + sum16 (take (4 * n) (drop 4 buf))))" by (simp add: add.assoc)
  moreover have "sum16 (take 4 buf) + sum16 (take (4 * n) (drop 4 buf)) = sum16 (take (4 * Suc n) buf)"
    using Suc.prems(1) by (simp add: take_add flip: sum16_append)
  ultimately show ?case by (simp add: add.commute)
qed simp

lemma and_two_iff: "(int n AND 2 \<noteq> 0) = odd (n div 2)"
proof -
  have "int n AND 2 = 2 * ((int n div 2) AND 1)" using and_int_rec [of "int n" 2] by simp
  then show ?thesis by (simp add: and_one_eq odd_iff_mod_2_eq_one) presburger
qed

lemma check_ics_sum:
  assumes "len \<le> length buf"
  shows "check_ics buf (int len) = NOT (of_nat (wrapped 65535 (sum16 (take len buf))))"
proof -
  define n where "n = len div 4"
  obtain h1 r1 where w: "ics_words n buf 0 = (h1, r1)" by fastforce
  have n4: "4 * n \<le> length buf" using assms by (simp add: n_def)
  have r1: "r1 = drop (4 * n) buf" "wrapped 65535 (unat h1) = wrapped 65535 (sum16 (take (4 * n) buf))"
    using ics_words_sum [OF n4 w] by simp_all
  define m where "m = 4 * n + (if odd (len div 2) then 2 else 0)"
  define h2 where "h2 = (if odd (len div 2) then ics_add h1 (of_nat (le16 r1)) else h1)"
  have len: "len = m + (if odd len then 1 else 0)" unfolding m_def n_def by (auto elim!: oddE evenE)
  have m: "m \<le> length buf" using len assms by simp
  have h2: "wrapped 65535 (unat h2) = wrapped 65535 (sum16 (take m buf))"
  proof (cases "odd (len div 2)")
    case True
    then have l: "2 \<le> length r1" using m r1 by (simp add: m_def)
    have "unat (of_nat (le16 r1) :: 32 word) = le16 r1" using le16_less [of r1] by (simp add: unat_of_nat)
    then have "wrapped 65535 (unat h2) = wrapped 65535 (sum16 (take (4 * n) buf) + sum16 (take 2 r1))"
      using True wrapped_add2 [OF r1(2), of "le16 r1"] l by (simp add: h2_def wrapped_ics_add le16_take)
    moreover have "sum16 (take (4 * n) buf) + sum16 (take 2 r1) = sum16 (take m buf)"
      using True n4 take_add [of "4 * n" 2 buf] by (simp add: m_def r1(1) flip: sum16_append)
    ultimately show ?thesis by simp
  qed (use r1 in \<open>simp add: h2_def m_def\<close>)
  define h3 where "h3 = (if odd len then ics_add h2 (of_nat (byte_at (drop m buf) 0)) else h2)"
  have h3: "wrapped 65535 (unat h3) = wrapped 65535 (sum16 (take len buf))"
  proof (cases "odd len")
    case True
    then have l: "len = m + 1" "m < length buf" using len assms by auto
    have b: "byte_at (drop m buf) 0 = byte_val (buf ! m)" using l(2) by (simp add: byte_at_def)
    have "unat (of_nat (byte_val (buf ! m)) :: 32 word) = byte_val (buf ! m)"
      using order.strict_trans [OF byte_val_less, of 4294967296 "buf ! m"] by (simp add: unat_of_nat)
    then have "wrapped 65535 (unat h3) = wrapped 65535 (sum16 (take m buf) + byte_val (buf ! m))"
      using True wrapped_add2 [OF h2, of "byte_val (buf ! m)"] by (simp add: h3_def wrapped_ics_add b)
    moreover have "sum16 (take m buf) + byte_val (buf ! m) = sum16 (take len buf)"
    proof -
      have "even (length (take m buf))" using m by (simp add: m_def)
      then show ?thesis using l sum16_append [of "take m buf" "[buf ! m]"] by (simp add: take_Suc_conv_app_nth)
    qed
    ultimately show ?thesis by simp
  qed (use h2 len in \<open>simp add: h3_def\<close>)
  have "nat (int len div 4) = n" by (simp add: n_def nat_div_distrib)
  moreover have "(int len AND 2 \<noteq> 0) = odd (len div 2)" "(int len AND 1 \<noteq> 0) = odd len"
    by (simp add: and_two_iff) (simp add: and_one_eq, presburger)
  ultimately have "check_ics buf (int len) = NOT (ucast (ics_fold h3))"
    by (simp add: check_ics_def Let_def w h3_def h2_def m_def r1(1) add.commute split: prod.split)
  moreover have "ucast (ics_fold h3) = (of_nat (wrapped 65535 (sum16 (take len buf))) :: 16 word)"
    using h3 unat_ics_fold [of h3] by (metis of_nat_unat)
  ultimately show ?thesis by simp
qed

section \<open>The checksum of RFC 1071\<close>

text \<open>The reference: the words of 16 bits in network order, the last one filled with zero, are added in one's
  complement, that is with the carry added at the lower end, and the sum is complemented.\<close>

fun net_words :: "bytes \<Rightarrow> 16 word list" where
  "net_words [] = []"
| "net_words [a] = [of_nat (256 * byte_val a)]"
| "net_words (a # b # r) = of_nat (256 * byte_val a + byte_val b) # net_words r"

definition ones_add :: "16 word \<Rightarrow> 16 word \<Rightarrow> 16 word" where
  "ones_add a b = (if a + b < b then a + b + 1 else a + b)"

definition rfc1071 :: "bytes \<Rightarrow> 16 word" where
  "rfc1071 data = NOT (foldl ones_add 0 (net_words data))"

text \<open>The number whose bytes in memory of a little endian machine are those of \<open>w\<close> in network order.\<close>

definition swap16 :: "16 word \<Rightarrow> 16 word" where
  "swap16 w = of_nat (256 * (unat w mod 256) + unat w div 256)"

lemma wrapped_net_words:
  "wrapped 65535 (unat (foldl ones_add s (net_words data))) = wrapped 65535 (unat s + 256 * sum16 data)"
proof (induction data arbitrary: s rule: net_words.induct)
  case (2 a)
  define v where "v = 256 * byte_val a"
  have "v < 65536" using byte_val_less [of a] unfolding v_def by linarith
  then have v: "unat (of_nat v :: 16 word) = v" by (simp add: unat_of_nat)
  have "wrapped 65535 (unat (ones_add s (of_nat v))) = wrapped 65535 (unat s + v)"
    using unat_end_around [of s "of_nat v"] by (simp add: ones_add_def v wrapped_dvd)
  then show ?case by (simp add: v_def)
next
  case (3 a b r)
  define v where "v = 256 * byte_val a + byte_val b"
  have "v < 65536" using byte_val_less [of a] byte_val_less [of b] unfolding v_def by linarith
  then have v: "unat (of_nat v :: 16 word) = v" by (simp add: unat_of_nat)
  have "wrapped 65535 (unat (ones_add s (of_nat v)) + 256 * sum16 r) = wrapped 65535 (unat s + v + 256 * sum16 r)"
    using unat_end_around [of s "of_nat v"] by (intro wrapped_add2) (simp add: ones_add_def v wrapped_dvd)
  also have "\<dots> = wrapped 65535 (unat s + 256 * sum16 (a # b # r))"
  proof (rule wrapped_cong)
    have "unat s + 256 * sum16 (a # b # r) = unat s + v + 256 * sum16 r + 65535 * byte_val b" by (simp add: v_def)
    then show "(unat s + v + 256 * sum16 r) mod 65535 = (unat s + 256 * sum16 (a # b # r)) mod 65535" by (metis mod_mult_self2)
    show "(unat s + v + 256 * sum16 r = 0) = (unat s + 256 * sum16 (a # b # r) = 0)" by (simp add: v_def)
  qed
  finally show ?case using 3 [of "ones_add s (of_nat v)"] by (simp add: v_def)
qed simp

lemma unat_le_wrapped: "unat (w :: 16 word) = wrapped 65535 (unat w)"
proof -
  have "unat w < 2 ^ 16" using unsigned_less [of w, where 'a = nat] by simp
  then show ?thesis by (simp add: wrapped_small)
qed

lemma not_of_nat: "n \<le> 65535 \<Longrightarrow> NOT (of_nat n :: 16 word) = of_nat (65535 - n)"
  by (simp add: not_eq_complement of_nat_diff)

lemma unat_not_of_nat: "n \<le> 65535 \<Longrightarrow> unat (NOT (of_nat n :: 16 word)) = 65535 - n"
proof -
  assume n: "n \<le> 65535"
  define m where "m = 65535 - n"
  have "m < 65536" by (simp add: m_def)
  then have "unat (of_nat m :: 16 word) = m" by (simp add: unat_of_nat)
  then show ?thesis by (simp only: not_of_nat [OF n] m_def)
qed

lemma byte_split:
  assumes "n \<le> (65535 :: nat)"
  obtains q r where "n = 256 * q + r" "q < 256" "r < 256"
  using that [of "n div 256" "n mod 256"] assms by simp

lemma swap_wrapped:
  assumes "n \<le> 65535"
  shows "wrapped 65535 (256 * n) = 256 * (n mod 256) + n div 256"
proof -
  obtain q r where n: "n = 256 * q + r" "q < 256" "r < 256" using assms by (rule byte_split)
  have "wrapped 65535 (256 * n) = wrapped 65535 (256 * r + q)"
  proof (rule wrapped_cong)
    have "256 * n = 256 * r + q + 65535 * q" by (simp add: n(1))
    then show "256 * n mod 65535 = (256 * r + q) mod 65535" by (metis mod_mult_self2)
    show "(256 * n = 0) = (256 * r + q = 0)" by (simp add: n(1)) argo
  qed
  also have "\<dots> = 256 * r + q" using n(2,3) by (intro wrapped_small) linarith
  finally show ?thesis using n by simp
qed

lemma swap_complement:
  assumes "n \<le> (65535 :: nat)"
  shows "256 * ((65535 - n) mod 256) + (65535 - n) div 256 = 65535 - (256 * (n mod 256) + n div 256)"
proof -
  obtain q r where n: "n = 256 * q + r" "q < 256" "r < 256" using assms by (rule byte_split)
  have "65535 - n = (255 - r) + 256 * (255 - q)" using n by simp
  then have "(65535 - n) mod 256 = 255 - r" "(65535 - n) div 256 = 255 - q" by (simp_all only: mod_mult_self2 div_mult_self2) simp_all
  then show ?thesis using n by simp
qed

lemma check_ics_rfc1071:
  assumes "len \<le> length buf"
  shows "check_ics buf (int len) = swap16 (rfc1071 (take len buf))"
proof -
  define n where "n = wrapped 65535 (sum16 (take len buf))"
  have n: "n \<le> 65535" by (simp add: n_def wrapped_le)
  define s where "s = foldl ones_add 0 (net_words (take len buf))"
  have "unat s = wrapped 65535 (256 * sum16 (take len buf))"
    using wrapped_net_words [of 0 "take len buf"] unat_le_wrapped [of s] by (simp add: s_def)
  also have "\<dots> = wrapped 65535 (256 * n)" unfolding n_def
    by (rule wrapped_cong) (simp_all add: mod_mult_right_eq wrapped_mod flip: mod_mult_right_eq [of 256 "wrapped _ _"])
  finally have s: "unat s = 256 * (n mod 256) + n div 256" by (simp add: swap_wrapped [OF n])
  have le: "unat s \<le> 65535" using s n by (metis wrapped_le swap_wrapped zero_less_numeral)
  have "unat (NOT s) = 65535 - unat s"
    using unat_not_of_nat [OF le] by simp
  then have "swap16 (rfc1071 (take len buf)) = of_nat (256 * ((65535 - unat s) mod 256) + (65535 - unat s) div 256)"
    by (simp add: swap16_def rfc1071_def s_def)
  also have "\<dots> = of_nat (65535 - (256 * (unat s mod 256) + unat s div 256))" by (simp only: swap_complement [OF le])
  also have "256 * (unat s mod 256) + unat s div 256 = n"
  proof -
    obtain q r where "n = 256 * q + r" "q < 256" "r < 256" using n by (rule byte_split)
    then show ?thesis using s by simp
  qed
  finally show ?thesis using check_ics_sum [OF assms] not_of_nat [OF n] by (simp add: n_def)
qed

text \<open>C23: The checksum over 32-bit words of a little endian processor is the checksum of RFC 1071 over 16-bit
  words in network order: its bytes in memory are those of the RFC checksum on the wire, for data of any
  length.\<close>

theorem check_ics_is_rfc1071:
  assumes "len \<le> length buf"
  shows "check_ics buf (int len) = swap16 (rfc1071 (take len buf))"
  using assms by (rule check_ics_rfc1071)

section \<open>Computing and checking\<close>

lemma check_ics_cong: "take len a = take len b \<Longrightarrow> len \<le> length a \<Longrightarrow> len \<le> length b \<Longrightarrow> check_ics a (int len) = check_ics b (int len)"
  by (simp add: check_ics_sum)

lemma put16_split:
  assumes "i + 1 < length buf"
  shows "put16 i v buf = take i buf @ [char_of (unat v mod 256), char_of (unat v div 256)] @ drop (i + 2) buf"
  using assms by (intro nth_equalityI) (auto simp: put16_def nth_append nth_list_update nth_Cons' less_Suc_eq Suc_diff_Suc numeral_2_eq_2)

lemma take_put16: "i + 1 < n \<Longrightarrow> take n (put16 i v buf) = put16 i v (take n buf)"
  by (simp add: put16_def take_update_swap)

lemma byte_val_char_of_mod: "byte_val (char_of n) = n mod 256"
  by (simp add: byte_val_def)

lemma sum16_put16:
  assumes "even i" "i + 1 < length buf"
  shows "sum16 (put16 i v buf) = sum16 (take i buf) + unat v + sum16 (drop (i + 2) buf)"
proof -
  have "unat v < 65536" using unsigned_less [of v, where 'a = nat] by simp
  then have "unat v div 256 < 256" by simp
  then show ?thesis using assms by (simp add: put16_split sum16_append byte_val_char_of_mod)
qed

lemma length_put16 [simp]: "length (put16 i v buf) = length buf"
  by (simp add: put16_def)

lemma put16_put16 [simp]: "put16 i v (put16 i u buf) = put16 i v buf"
  by (simp add: put16_def list_update_swap [of "Suc i" i])

text \<open>A checksum that was computed and stored at an even position is verified: the checksum over the
  buffer is zero afterwards.\<close>

lemma calc_ics_verifies:
  assumes "even i" "i + 1 < len" "len \<le> length buf"
  shows "check_ics (calc_ics buf (int len) i) (int len) = 0"
proof -
  define b where "b = put16 i 0 buf"
  define n where "n = sum16 (take len b)"
  have split: "sum16 (take len (put16 i v buf)) = n + unat v" for v
    using assms sum16_put16 [of i "take len buf"] by (simp add: n_def b_def take_put16)
  have w: "wrapped 65535 n \<le> 65535" by (simp add: wrapped_le)
  have v: "unat (check_ics b (int len)) = 65535 - wrapped 65535 n"
    using check_ics_sum [of len b] assms(3) unat_not_of_nat [OF w] by (simp add: b_def n_def)
  have "wrapped 65535 (n + (65535 - wrapped 65535 n)) = wrapped 65535 65535"
  proof (rule wrapped_cong)
    have "(n + (65535 - wrapped 65535 n)) mod 65535 = (wrapped 65535 n + (65535 - wrapped 65535 n)) mod 65535"
      by (rule mod_add_cong) (simp_all add: wrapped_mod)
    then show "(n + (65535 - wrapped 65535 n)) mod 65535 = 65535 mod 65535" using w by simp
  qed (cases "n = 0"; simp add: wrapped_def)
  then show ?thesis
    using check_ics_sum [of len "put16 i (check_ics b (int len)) buf"] assms(3) split [of "check_ics b (int len)"]
    by (simp add: calc_ics_def Let_def v [unfolded b_def] wrapped_small not_of_nat b_def)
qed

end
