(* ===== verification/Icmp_Ping.thy ===== *)
theory Icmp_Ping
  imports Sock_Cmd Icmp_Sum
begin

unbundle bit_operations_syntax

text \<open>
  The ping command (\<open>app/src/sm_at_icmp.c\<close>): the echo request for IPv4 and IPv6, the wait for the reply,
  the work item that sends the requests and reports the times, and the command. The static variables are kept
  in the world of the host. The addresses that the resolver returns are objects of a heap: \<open>iv_infos\<close> holds
  them, a freed one is \<open>None\<close>, a pointer is an index. Using a freed object and writing outside of the packet
  buffer set the fault flag of the host.
\<close>

section \<open>Data\<close>

abbreviation (input) ICMP_DEFAULT_LINK_MTU :: nat where "ICMP_DEFAULT_LINK_MTU \<equiv> 1500"
abbreviation (input) IPPROTO_ICMP :: nat where "IPPROTO_ICMP \<equiv> 1"
abbreviation (input) IPPROTO_ICMPV6 :: nat where "IPPROTO_ICMPV6 \<equiv> 58"

record ping_argv_t =
  pa_src :: "nat option"
  pa_dest :: "nat option"
  pa_len :: "16 word"
  pa_waitms :: "32 word"
  pa_count :: "16 word"
  pa_interval :: "32 word"
  pa_pdn :: "16 word"

record icmp_vars =
  iv_argv :: ping_argv_t
  iv_pipe :: "pipe option"
  iv_seqnr :: "8 word"
  iv_start_t :: int
  iv_infos :: "(int \<times> bytes) option list"
  iv_work :: bool

record 'w icmp_world =
  ic_st :: icmp_vars
  ic_world :: 'w

text \<open>Polling one descriptor for input, the uptime, the time since a reference with the new value of the
  reference, sleeping and setting \<open>errno\<close>.\<close>

record 'w icmp_env =
  ie_poll :: "int \<Rightarrow> int \<Rightarrow> 'w \<Rightarrow> int \<times> 'w"
  ie_uptime :: "'w \<Rightarrow> int"
  ie_uptime_delta :: "int \<Rightarrow> 'w \<Rightarrow> int \<times> int"
  ie_sleep :: "int \<Rightarrow> 'w \<Rightarrow> 'w"
  ie_set_errno :: "int \<Rightarrow> 'w \<Rightarrow> 'w"

abbreviation icmp :: "('rb, 'w icmp_world) host \<Rightarrow> icmp_vars" where
  "icmp h \<equiv> ic_st (h_world h)"

abbreviation argv :: "('rb, 'w icmp_world) host \<Rightarrow> ping_argv_t" where
  "argv h \<equiv> iv_argv (icmp h)"

definition upd_icmp :: "(icmp_vars \<Rightarrow> icmp_vars) \<Rightarrow> ('rb, 'w icmp_world) host \<Rightarrow> ('rb, 'w icmp_world) host" where
  "upd_icmp f h = h\<lparr>h_world := (h_world h)\<lparr>ic_st := f (icmp h)\<rparr>\<rparr>"

definition upd_argv :: "(ping_argv_t \<Rightarrow> ping_argv_t) \<Rightarrow> ('rb, 'w icmp_world) host \<Rightarrow> ('rb, 'w icmp_world) host" where
  "upd_argv f h = upd_icmp (\<lambda>s. s\<lparr>iv_argv := f (iv_argv s)\<rparr>) h"

definition info_of :: "nat option \<Rightarrow> icmp_vars \<Rightarrow> (int \<times> bytes) option" where
  "info_of p s = (case p of None \<Rightarrow> None | Some i \<Rightarrow> if i < length (iv_infos s) then iv_infos s ! i else None)"

section \<open>The echo requests\<close>

definition setip :: "nat \<Rightarrow> 32 word \<Rightarrow> bytes \<Rightarrow> bytes" where
  "setip p ipaddr buf =
     buf[p := char_of (unat (ipaddr AND 0xFF)), p + 1 := char_of (unat (drop_bit 8 ipaddr AND 0xFF)),
         p + 2 := char_of (unat (drop_bit 16 ipaddr AND 0xFF)), p + 3 := char_of (unat (drop_bit 24 ipaddr))]"

text \<open>The number that an address is in memory, and the copy of an IPv6 address.\<close>

definition s_addr :: "bytes \<Rightarrow> 32 word" where
  "s_addr a = of_nat (le32 a)"

definition put_addr6 :: "nat \<Rightarrow> bytes \<Rightarrow> bytes \<Rightarrow> bytes" where
  "put_addr6 p a buf = take p buf @ map (\<lambda>i. char_of (byte_at a i)) [0..<16] @ drop (p + 16) buf"

text \<open>The loop that fills \<open>n\<close> bytes from position \<open>p\<close> on with digits.\<close>

definition put_payload :: "nat \<Rightarrow> nat \<Rightarrow> nat \<Rightarrow> 8 word \<Rightarrow> bytes \<Rightarrow> bytes" where
  "put_payload p n first seqnr buf = fold (\<lambda>i buf. buf[p + i := char_of ((first + i + unat seqnr) mod 10 + 48)]) [0..<n] buf"

text \<open>The buffer and the length of the packet, or nothing when bytes were written outside of the buffer.\<close>

definition echo_request4 :: "16 word \<Rightarrow> bytes \<Rightarrow> bytes \<Rightarrow> 8 word \<Rightarrow> (bytes \<times> 16 word) option" where
  "echo_request4 len src dst seqnr =
     (let total_length = len + 20 + 8;
          buf = replicate ICMP_DEFAULT_LINK_MTU NUL;
          buf = buf[0 := char_of (4 * 16 + 20 div 4 :: nat), 2 := char_of (unat (drop_bit 8 total_length)),
                    3 := char_of (unat (total_length AND 0xFF)), 8 := char_of (64 :: nat), 9 := char_of IPPROTO_ICMP];
          buf = setip 12 (s_addr src) buf;
          buf = setip 16 (s_addr dst) buf;
          buf = calc_ics buf 20 10;
          data = (drop 20 buf)[0 := char_of (8 :: nat), 7 := char_of (unat seqnr)];
          n = int (unat total_length) - 20
      in if ICMP_DEFAULT_LINK_MTU < unat total_length then None
         else
           let data = put_payload 8 (nat (n - 8)) 8 seqnr data;
               data = calc_ics data n 2
           in Some (take 20 buf @ data, total_length))"

text \<open>The sum over the pseudo header and the message without its checksum; \<open>n\<close> is the length behind the
  checksum.\<close>

definition icmp6_ics :: "bytes \<Rightarrow> int \<Rightarrow> 32 word" where
  "icmp6_ics buf n =
     (let hcs = ucast (check_ics (drop 8 buf) 32);
          hcs = hcs + ucast (check_ics (drop 4 buf) 2);
          hcs = hcs + ucast (check_ics [NUL, buf ! 6] 2);
          hcs = hcs + ucast (check_ics (drop 40 buf) 2);
          hcs = hcs + ucast (check_ics (drop 44 buf) n)
      in ics_fold hcs)"

definition echo_request6 :: "16 word \<Rightarrow> bytes \<Rightarrow> bytes \<Rightarrow> 8 word \<Rightarrow> (bytes \<times> 16 word) option" where
  "echo_request6 len src dst seqnr =
     (let payload_length = len + 8;
          total_length = payload_length + 40;
          buf = replicate ICMP_DEFAULT_LINK_MTU NUL;
          buf = buf[0 := char_of (6 * 16 :: nat), 4 := char_of (unat (drop_bit 8 payload_length)),
                    5 := char_of (unat (payload_length AND 0xFF)), 6 := char_of IPPROTO_ICMPV6, 7 := char_of (64 :: nat)];
          buf = put_addr6 8 src buf;
          buf = put_addr6 24 dst buf;
          buf = buf[40 := char_of (128 :: nat), 47 := char_of (unat seqnr)]
      in if ICMP_DEFAULT_LINK_MTU < 48 + unat len then None
         else
           let buf = put_payload 48 (unat len) 0 seqnr buf;
               hcs = icmp6_ics buf (4 + int (unat len))
           in Some (buf[42 := char_of (unat (hcs AND 0xFF)), 43 := char_of (unat (drop_bit 8 hcs))], total_length))"

section \<open>The reply\<close>

datatype ping_verdict = PingAgain | PingFailed | PingReply

definition is_icmp :: "bool \<Rightarrow> bytes \<Rightarrow> bool" where
  "is_icmp v6 buf \<longleftrightarrow> (if v6 then byte_at buf 6 = IPPROTO_ICMPV6 else byte_at buf 9 = IPPROTO_ICMP)"

text \<open>What is done with \<open>len\<close> received bytes of the right protocol.\<close>

definition ping_parse :: "bool \<Rightarrow> bytes \<Rightarrow> int \<Rightarrow> 8 word \<Rightarrow> ping_verdict" where
  "ping_parse v6 buf len seqnr =
     (let header_len = (if v6 then 40 else 20);
          data = drop header_len buf;
          bad = (if v6 then byte_at data 2 + byte_at data 3 * 256 \<noteq> unat (icmp6_ics buf (len - 40 - 4))
                 else check_ics data (len - 20) \<noteq> 0);
          pllen = (if v6 then byte_at buf 4 * 256 + byte_at buf 5 + 40 else byte_at buf 2 * 256 + byte_at buf 3)
      in if bad then PingFailed
         else if byte_at data 7 \<noteq> unat seqnr then PingAgain
         else if int pllen \<noteq> len then PingFailed
         else PingReply)"

text \<open>A number of milliseconds as seconds with three digits.\<close>

definition show_ms :: "32 word \<Rightarrow> string" where
  "show_ms d = (let f = show_nat (unat d mod 1000) in show_nat (unat d div 1000) @ ''.'' @ replicate (3 - length f) (CHR ''0'') @ f)"

definition uptime_delta :: "'w icmp_world icmp_env \<Rightarrow> ('rb, 'w icmp_world) host \<Rightarrow> int \<times> ('rb, 'w icmp_world) host" where
  "uptime_delta I h =
     (case ie_uptime_delta I (iv_start_t (icmp h)) (h_world h) of (delta, reftime) \<Rightarrow> (delta, upd_icmp (\<lambda>s. s\<lparr>iv_start_t := reftime\<rparr>) h))"

definition wait_left :: "int \<Rightarrow> ('rb, 'w icmp_world) host \<Rightarrow> int" where
  "wait_left delta_t h = sint (pa_waitms (argv h) - word_of_int delta_t)"

text \<open>The loop ends when the network does: packets of another protocol or another sequence number make it
  wait again. The fuel bounds the number of packets.\<close>

fun ping_wait ::
  "('rb, 'w icmp_world) env \<Rightarrow> ('rb, 'w icmp_world) sock_env \<Rightarrow> 'w icmp_world icmp_env \<Rightarrow> int \<Rightarrow> bool \<Rightarrow> nat \<Rightarrow> bytes \<Rightarrow> int \<Rightarrow>
   ('rb, 'w icmp_world) host \<Rightarrow> int \<times> ('rb, 'w icmp_world) host" where
  "ping_wait E S I fd v6 0 buf timeout h = (0, fault h)"
| "ping_wait E S I fd v6 (Suc fuel) buf timeout h =
     (if timeout \<le> 0 then (0, h)
      else case wcall (ie_poll I fd timeout) h of (ret, h) \<Rightarrow>
        if ret \<le> 0 then (0, h)
        else case wcall (s_recv S fd ICMP_DEFAULT_LINK_MTU 0) h of ((len, data), h) \<Rightarrow>
          let buf = take (nat len) data @ drop (nat len) buf
          in case uptime_delta I h of (delta_t, h) \<Rightarrow>
            let timeout = wait_left delta_t h
            in if len \<le> 0 \<and> sock_errno S h \<noteq> EAGAIN then (0, h)
               else if \<not> is_icmp v6 buf then ping_wait E S I fd v6 fuel buf timeout h
               else case ping_parse v6 buf len (iv_seqnr (icmp h)) of
                 PingFailed \<Rightarrow> (0, h)
               | PingAgain \<Rightarrow> if 0 < timeout then ping_wait E S I fd v6 fuel buf timeout h else (0, h)
               | PingReply \<Rightarrow>
                   (delta_t, urc_send_to E (iv_pipe (icmp h)) (''#XPING: '' @ show_ms (word_of_int delta_t) @ '' seconds'' @ CRLF_STR) h))"

definition ping_exchange ::
  "('rb, 'w icmp_world) env \<Rightarrow> ('rb, 'w icmp_world) sock_env \<Rightarrow> 'w icmp_world icmp_env \<Rightarrow> int \<Rightarrow> bool \<Rightarrow> bytes \<Rightarrow> 16 word \<Rightarrow>
   ('rb, 'w icmp_world) host \<Rightarrow> int \<times> ('rb, 'w icmp_world) host" where
  "ping_exchange E S I fd v6 buf total_length h =
     (case (if pa_pdn (argv h) \<noteq> 0 then wcall (s_setsockopt S fd SOL_SOCKET SO_BINDTOPDN (VNum (int (unat (pa_pdn (argv h)))))) h else (0, h)) of
        (ret, h) \<Rightarrow>
          if ret \<noteq> 0 then (0, h)
          else
            let ms = int (unat (pa_waitms (argv h)));
                tv = VTimeval (ms div 1000) (ms mod 1000 * 1000);
                h = snd (wcall (s_setsockopt S fd SOL_SOCKET SO_SNDTIMEO tv) h);
                h = snd (wcall (s_setsockopt S fd SOL_SOCKET SO_RCVTIMEO tv) h);
                h = upd_icmp (\<lambda>s. s\<lparr>iv_start_t := ie_uptime I (h_world h)\<rparr>) h
            in case wcall (s_send S fd (take (unat total_length) buf) 0) h of (ret, h) \<Rightarrow>
              if ret \<le> 0 then (0, h)
              else case uptime_delta I h of (delta_t, h) \<Rightarrow> ping_wait E S I fd v6 (e_fuel E) buf (wait_left delta_t h) h)"

definition send_ping_wait_reply ::
  "('rb, 'w icmp_world) env \<Rightarrow> ('rb, 'w icmp_world) sock_env \<Rightarrow> 'w icmp_world icmp_env \<Rightarrow>
   ('rb, 'w icmp_world) host \<Rightarrow> 32 word \<times> ('rb, 'w icmp_world) host" where
  "send_ping_wait_reply E S I h =
     (case (info_of (pa_src (argv h)) (icmp h), info_of (pa_dest (argv h)) (icmp h)) of
        (Some (family, src), Some (_, dst)) \<Rightarrow>
          (case wcall (e_malloc E ICMP_DEFAULT_LINK_MTU) h of (ok, h) \<Rightarrow>
             if \<not> ok then (- 1, h)
             else
               let h = upd_icmp (\<lambda>s. s\<lparr>iv_seqnr := iv_seqnr s + 1\<rparr>) h;
                   v6 = (family \<noteq> AF_INET);
                   request = (if v6 then echo_request6 else echo_request4)
               in case request (pa_len (argv h)) src dst (iv_seqnr (icmp h)) of
                    None \<Rightarrow> (0, fault h)
                  | Some (buf, total_length) \<Rightarrow>
                      (let h = h\<lparr>h_world := ie_set_errno I 0 (h_world h)\<rparr>
                       in case wcall (s_socket S AF_PACKET SOCK_RAW 0) h of (fd, h) \<Rightarrow>
                         if fd < 0 then (0, h)
                         else case ping_exchange E S I fd v6 buf total_length h of (delta_t, h) \<Rightarrow>
                           case wcall (s_close S fd) h of (_, h) \<Rightarrow> (word_of_int delta_t, h)))
      | _ \<Rightarrow> (0, fault h))"

section \<open>The work item\<close>

record ping_stat =
  ps_sum :: "32 word"
  ps_count :: "32 word"
  ps_rtt_min :: "32 word"
  ps_rtt_max :: "32 word"

definition ping_add :: "32 word \<Rightarrow> ping_stat \<Rightarrow> ping_stat" where
  "ping_add ping_t st =
     (if 0 < ping_t
      then \<lparr>ps_sum = ps_sum st + ping_t, ps_count = ps_count st + 1, ps_rtt_min = min (ps_rtt_min st) ping_t,
            ps_rtt_max = max (ps_rtt_max st) ping_t\<rparr>
      else st)"

fun ping_rounds ::
  "('rb, 'w icmp_world) env \<Rightarrow> ('rb, 'w icmp_world) sock_env \<Rightarrow> 'w icmp_world icmp_env \<Rightarrow> nat \<Rightarrow> ping_stat \<Rightarrow>
   ('rb, 'w icmp_world) host \<Rightarrow> ping_stat \<times> ('rb, 'w icmp_world) host" where
  "ping_rounds E S I 0 st h = (st, h)"
| "ping_rounds E S I (Suc n) st h =
     (case send_ping_wait_reply E S I h of (ping_t, h) \<Rightarrow>
        ping_rounds E S I n (ping_add ping_t st) (h\<lparr>h_world := ie_sleep I (int (unat (pa_interval (argv h)))) (h_world h)\<rparr>))"

definition zsock_freeaddrinfo :: "nat option \<Rightarrow> ('rb, 'w icmp_world) host \<Rightarrow> ('rb, 'w icmp_world) host" where
  "zsock_freeaddrinfo p h =
     (case p of
        None \<Rightarrow> h
      | Some i \<Rightarrow> if info_of p (icmp h) = None then fault h else upd_icmp (\<lambda>s. s\<lparr>iv_infos := (iv_infos s)[i := None]\<rparr>) h)"

definition ping_task ::
  "('rb, 'w icmp_world) env \<Rightarrow> ('rb, 'w icmp_world) sock_env \<Rightarrow> 'w icmp_world icmp_env \<Rightarrow> ('rb, 'w icmp_world) host \<Rightarrow>
   ('rb, 'w icmp_world) host" where
  "ping_task E S I h =
     (let si = pa_src (argv h);
          di = pa_dest (argv h);
          h = upd_icmp (\<lambda>s. s\<lparr>iv_work := False\<rparr>) h
      in case ping_rounds E S I (unat (pa_count (argv h))) \<lparr>ps_sum = 0, ps_count = 0, ps_rtt_min = - 1, ps_rtt_max = 0\<rparr> h of (st, h) \<Rightarrow>
        let h = (if 1 < ps_count st
                 then (let avg = (ps_sum st + ps_count st div 2) div ps_count st
                       in urc_send_to E (iv_pipe (icmp h)) (''#XPING: average '' @ show_ms avg @ '' seconds'' @ CRLF_STR) h)
                 else h);
            h = zsock_freeaddrinfo si h
        in zsock_freeaddrinfo di h)"

section \<open>The command\<close>

text \<open>The resolver returns an object or an error.\<close>

definition ping_getaddrinfo ::
  "('rb, 'w icmp_world) sock_env \<Rightarrow> string \<Rightarrow> ('rb, 'w icmp_world) host \<Rightarrow> (int + nat) \<times> ('rb, 'w icmp_world) host" where
  "ping_getaddrinfo S name h =
     (case wcall (s_getaddrinfo S name None) h of ((ret, infos), h) \<Rightarrow>
        if ret \<noteq> 0 then (Inl ret, h)
        else case infos of
          [] \<Rightarrow> (Inl 0, fault h)
        | res # _ \<Rightarrow> (Inr (length (iv_infos (icmp h))), upd_icmp (\<lambda>s. s\<lparr>iv_infos := iv_infos s @ [Some res]\<rparr>) h))"

text \<open>The source address for a destination \<open>res\<close>.\<close>

definition ping_source ::
  "('rb, 'w icmp_world) env \<Rightarrow> ('rb, 'w icmp_world) sock_env \<Rightarrow> bool \<Rightarrow> nat \<Rightarrow>
   (('rb, 'w icmp_world) host \<Rightarrow> int \<times> ('rb, 'w icmp_world) host) \<Rightarrow> ('rb, 'w icmp_world) host \<Rightarrow> int \<times> ('rb, 'w icmp_world) host" where
  "ping_source E S v6 res submit h =
     (case wcall (util_get_ip_addr (s_util S) (int (unat (pa_pdn (argv h)))) (\<not> v6) v6) h of ((addr4, addr6), h) \<Rightarrow>
        let addr = (if v6 then addr6 else addr4)
        in if addr = [] then (- 1, zsock_freeaddrinfo (Some res) h)
           else
             let h = upd_argv (\<lambda>a. a\<lparr>pa_dest := Some res\<rparr>) h
             in case ping_getaddrinfo S addr h of
                  (Inl ret, h) \<Rightarrow> (- ret, zsock_freeaddrinfo (pa_dest (argv h)) h)
                | (Inr src, h) \<Rightarrow> submit (upd_argv (\<lambda>a. a\<lparr>pa_src := Some src\<rparr>) h))"

definition ping_test_handler ::
  "('rb, 'w icmp_world) env \<Rightarrow> ('rb, 'w icmp_world) sock_env \<Rightarrow> string \<Rightarrow> ('rb, 'w icmp_world) host \<Rightarrow>
   int \<times> ('rb, 'w icmp_world) host" where
  "ping_test_handler E S target h =
     (case ping_getaddrinfo S target h of
        (Inl ret, h) \<Rightarrow> (- EAGAIN, rsp_send E (''\"'' @ s_gai_strerror S ret @ ''\"'' @ CRLF_STR) h)
      | (Inr res, h) \<Rightarrow>
          (let submit = (\<lambda>h. (0, upd_icmp (\<lambda>s. s\<lparr>iv_work := True\<rparr>) h));
               family = fst (the (info_of (Some res) (icmp h)))
           in if family = AF_INET then ping_source E S False res submit h
              else if family = AF_INET6 then ping_source E S True res submit h
              else submit h))"

definition opt_argv ::
  "nat \<Rightarrow> nat \<Rightarrow> int + 'a \<Rightarrow> ('a \<Rightarrow> ping_argv_t \<Rightarrow> ping_argv_t) \<Rightarrow> 'a \<Rightarrow>
   (('rb, 'w icmp_world) host \<Rightarrow> int \<times> ('rb, 'w icmp_world) host) \<Rightarrow> ('rb, 'w icmp_world) host \<Rightarrow> int \<times> ('rb, 'w icmp_world) host" where
  "opt_argv param_count i value put dflt f h =
     (let h = upd_argv (put dflt) h
      in if i < param_count then param value (\<lambda>v h. f (upd_argv (put v) h)) h else f h)"

definition handle_at_icmp_ping ::
  "('rb, 'w icmp_world) env \<Rightarrow> ('rb, 'w icmp_world) sock_env \<Rightarrow> 'p at_parser_ops \<Rightarrow> at_parser_cmd_type \<Rightarrow> 'p \<Rightarrow> nat \<Rightarrow>
   ('rb, 'w icmp_world) host \<Rightarrow> int \<times> ('rb, 'w icmp_world) host" where
  "handle_at_icmp_ping E S P cmd_type parser param_count h =
     (if cmd_type \<noteq> CMD_TYPE_SET then (- EINVAL, h)
      else
        param (str_param P parser 1 SM_MAX_URL) (\<lambda>target.
        param (ap_num_get_u16 P parser 2) (\<lambda>len h. let h = upd_argv (\<lambda>a. a\<lparr>pa_len := len\<rparr>) h in
        param (ap_num_get_u32 P parser 3) (\<lambda>waitms h. let h = upd_argv (\<lambda>a. a\<lparr>pa_waitms := waitms\<rparr>) h in
        opt_argv param_count 4 (ap_num_get_u16 P parser 4) (\<lambda>v a. a\<lparr>pa_count := v\<rparr>) 1 (\<lambda>h.
        if 4 < param_count \<and> pa_count (argv h) = 0 then (- EINVAL, h)
        else
        opt_argv param_count 5 (ap_num_get_u32 P parser 5) (\<lambda>v a. a\<lparr>pa_interval := v\<rparr>) 1000 (
        opt_argv param_count 6 (ap_num_get_u16 P parser 6) (\<lambda>v a. a\<lparr>pa_pdn := v\<rparr>) 0 (\<lambda>h.
        let h = upd_icmp (\<lambda>s. s\<lparr>iv_pipe := sm_at_host_get_current_pipe E h\<rparr>) h
        in ping_test_handler E S target h)) h) h) h)) h)"

end
