(* ===== verification/Icmp_Props.thy ===== *)
theory Icmp_Props
  imports Icmp_Ping
begin

unbundle bit_operations_syntax

text \<open>
  What the ping command sends and accepts: the echo requests are well formed and carry the checksums of the
  standard, the reply of a peer is accepted, and the addresses of a command are freed by its work item.
\<close>

section \<open>The buffer\<close>

lemma length_fold_update [simp]: "length (fold (\<lambda>i buf. buf[p + i := f i]) is buf) = length buf"
  by (induction "is" arbitrary: buf) auto

lemma nth_fold_update:
  "i < length buf \<Longrightarrow> fold (\<lambda>i buf. buf[p + i := f i]) [0..<n] buf ! i = (if p \<le> i \<and> i < p + n then f (i - p) else buf ! i)"
proof (induction n)
  case (Suc n)
  then show ?case by (cases "i = p + n") auto
qed auto

lemma length_put_payload [simp]: "length (put_payload p n first seqnr buf) = length buf"
  by (simp add: put_payload_def)

lemma nth_put_payload:
  "i < length buf \<Longrightarrow> put_payload p n first seqnr buf ! i =
     (if p \<le> i \<and> i < p + n then char_of ((first + (i - p) + unat seqnr) mod 10 + 48) else buf ! i)"
  unfolding put_payload_def by (rule nth_fold_update)

lemma length_calc_ics [simp]: "length (calc_ics buf n i) = length buf"
  by (simp add: calc_ics_def Let_def)

lemma nth_put16: "j \<noteq> i \<Longrightarrow> j \<noteq> i + 1 \<Longrightarrow> put16 i v buf ! j = buf ! j"
  by (simp add: put16_def)

lemma nth_calc_ics: "j \<noteq> i \<Longrightarrow> j \<noteq> i + 1 \<Longrightarrow> calc_ics buf n i ! j = buf ! j"
  by (simp add: calc_ics_def Let_def nth_put16)

lemma length_setip [simp]: "length (setip p a buf) = length buf"
  by (simp add: setip_def)

text \<open>A number of 16 bits, high byte first.\<close>

lemma unat_high_byte: "unat (drop_bit 8 (w :: 16 word)) = unat w div 256"
proof -
  have "unat (drop_bit 8 w) = drop_bit 8 (take_bit 16 (unat w))" using unsigned_drop_bit_eq [of 8 w] by simp
  moreover have "unat w < 2 ^ 16" using unsigned_less [of w, where 'a = nat] by simp
  ultimately show ?thesis by (simp only: drop_bit_eq_div take_bit_eq_mod) simp
qed

lemma unat_low_byte: "unat ((w :: 'a::len word) AND 0xFF) = unat w mod 256"
proof -
  have "w AND 0xFF = take_bit 8 w" by (simp add: take_bit_eq_mask mask_eq_exp_minus_1)
  moreover have "unat (take_bit 8 w) = take_bit 8 (unat w)" by (rule unsigned_take_bit_eq)
  ultimately show ?thesis by (simp only: take_bit_eq_mod) simp
qed

lemma unat_total: "unat (len :: 16 word) \<le> 1472 \<Longrightarrow> unat (len + 20 + 8) = unat len + 28"
  by (simp add: unat_word_ariths mod_simps)

section \<open>The IPv4 request\<close>

text \<open>The request, with what the buffer holds before the checksum of the message.\<close>

definition message4 :: "nat \<Rightarrow> 8 word \<Rightarrow> bytes" where
  "message4 n seqnr = char_of (8 :: nat) # replicate 6 NUL @ char_of (unat seqnr) #
     map (\<lambda>i. char_of ((8 + i + unat seqnr) mod 10 + 48)) [0..<n]"

definition header4 :: "16 word \<Rightarrow> bytes \<Rightarrow> bytes \<Rightarrow> bytes" where
  "header4 total_length src dst =
     calc_ics (setip 16 (s_addr dst) (setip 12 (s_addr src) ((replicate 1500 NUL)
       [0 := char_of (4 * 16 + 20 div 4 :: nat), 2 := char_of (unat (drop_bit 8 total_length)),
        3 := char_of (unat (total_length AND 0xFF)), 8 := char_of (64 :: nat), 9 := char_of IPPROTO_ICMP]))) 20 10"

lemma header4_nth:
  "length (header4 t src dst) = 1500"
  "header4 t src dst ! 2 = char_of (unat t div 256)" "header4 t src dst ! 3 = char_of (unat t mod 256)"
  "header4 t src dst ! 9 = char_of (1 :: nat)"
  "20 \<le> i \<Longrightarrow> i < 1500 \<Longrightarrow> header4 t src dst ! i = NUL"
  by (simp_all add: header4_def nth_calc_ics setip_def unat_high_byte unat_low_byte)

lemma header4_check: "check_ics (header4 t src dst) 20 = 0"
  using calc_ics_verifies [of 10 20] by (simp add: header4_def)

definition data4 :: "nat \<Rightarrow> 8 word \<Rightarrow> bytes \<Rightarrow> bytes" where
  "data4 n seqnr hdr = calc_ics (put_payload 8 n 8 seqnr ((drop 20 hdr)[0 := char_of (8 :: nat), 7 := char_of (unat seqnr)])) (int n + 8) 2"

lemma data4_length: "length hdr = 1500 \<Longrightarrow> length (data4 n seqnr hdr) = 1480"
  by (simp add: data4_def)

lemma data4_check: "length hdr = 1500 \<Longrightarrow> n \<le> 1472 \<Longrightarrow> check_ics (data4 n seqnr hdr) (int n + 8) = 0"
  using calc_ics_verifies [of 2 "n + 8" "put_payload 8 n 8 seqnr ((drop 20 hdr)[0 := char_of (8 :: nat), 7 := char_of (unat seqnr)])"]
  by (simp add: data4_def)

lemma message4_nth:
  "i < n + 8 \<Longrightarrow> message4 n seqnr ! i =
     (if i = 0 then char_of (8 :: nat) else if i = 7 then char_of (unat seqnr)
      else if 8 \<le> i then char_of ((8 + (i - 8) + unat seqnr) mod 10 + 48) else NUL)"
  by (auto simp: message4_def nth_Cons' nth_append)

lemma data4_message:
  assumes "length hdr = 1500" "n \<le> 1472" "\<And>i. 20 \<le> i \<Longrightarrow> i < 1500 \<Longrightarrow> hdr ! i = NUL"
  shows "take (n + 8) ((data4 n seqnr hdr)[2 := NUL, 3 := NUL]) = message4 n seqnr"
proof (rule nth_equalityI)
  show "length (take (n + 8) ((data4 n seqnr hdr)[2 := NUL, 3 := NUL])) = length (message4 n seqnr)"
    using assms(1,2) by (simp add: data4_length message4_def)
  fix i
  assume "i < length (take (n + 8) ((data4 n seqnr hdr)[2 := NUL, 3 := NUL]))"
  then have i: "i < n + 8" "i < 1480" using assms(1,2) by (simp_all add: data4_length)
  have "data4 n seqnr hdr ! i =
      (if i = 0 then char_of (8 :: nat) else if i = 7 then char_of (unat seqnr)
       else if 8 \<le> i then char_of ((8 + (i - 8) + unat seqnr) mod 10 + 48) else NUL)" if "i \<noteq> 2" "i \<noteq> 3"
    using that i assms by (simp add: data4_def nth_calc_ics nth_put_payload nth_list_update)
  then show "take (n + 8) ((data4 n seqnr hdr)[2 := NUL, 3 := NUL]) ! i = message4 n seqnr ! i"
    using i assms(1) by (cases "i = 2 \<or> i = 3") (auto simp: data4_length message4_nth)
qed

lemma echo_request4_eq:
  assumes "unat len \<le> 1472"
  shows "echo_request4 len src dst seqnr =
    Some (take 20 (header4 (len + 28) src dst) @ data4 (unat len) seqnr (header4 (len + 28) src dst), len + 28)"
proof -
  have "unat (len + 28) = unat len + 28" using unat_total [OF assms] by (simp add: add.assoc)
  moreover from this have "uint (len + 28) = uint len + 28" by (metis of_nat_add of_nat_numeral of_nat_unat uint_nat)
  ultimately show ?thesis using assms by (simp add: echo_request4_def header4_def data4_def Let_def add.assoc add.commute [of 8])
qed

lemma echo_request4_None: "echo_request4 len src dst seqnr = None \<longleftrightarrow> 1472 < unat len \<and> unat len < 65508"
proof -
  have l: "unat len < 65536" using unsigned_less [of len, where 'a = nat] by simp
  have "unat (len + 28) = (unat len + 28) mod 65536" by (simp add: unat_word_ariths)
  also have "\<dots> = (if unat len < 65508 then unat len + 28 else unat len - 65508)" using l by (simp add: mod_if)
  finally show ?thesis by (simp add: echo_request4_def Let_def add.assoc) (use l in linarith)
qed

text \<open>C25: The IPv4 echo request is built without leaving the packet buffer unless its length is between 1473
  and 65507 bytes. For up to 1472 bytes the packet is complete: its length field is the number of bytes that
  are sent, both checksums are verified, and the message is an echo request with the sequence number and
  the digits as its payload. The limit is not checked by the command.\<close>

theorem echo_request4_valid:
  "(echo_request4 len src dst seqnr = None \<longleftrightarrow> 1472 < unat len \<and> unat len < 65508) \<and>
   (unat len \<le> 1472 \<longrightarrow> (\<exists>buf. echo_request4 len src dst seqnr = Some (buf, len + 28) \<and> length buf = 1500 \<and>
      256 * byte_val (buf ! 2) + byte_val (buf ! 3) = unat len + 28 \<and> byte_val (buf ! 9) = IPPROTO_ICMP \<and>
      check_ics buf 20 = 0 \<and> check_ics (drop 20 buf) (int (unat len) + 8) = 0 \<and>
      take (unat len + 8) ((drop 20 buf)[2 := NUL, 3 := NUL]) = message4 (unat len) seqnr))"
proof -
  have "\<exists>buf. echo_request4 len src dst seqnr = Some (buf, len + 28) \<and> length buf = 1500 \<and>
      256 * byte_val (buf ! 2) + byte_val (buf ! 3) = unat len + 28 \<and> byte_val (buf ! 9) = IPPROTO_ICMP \<and>
      check_ics buf 20 = 0 \<and> check_ics (drop 20 buf) (int (unat len) + 8) = 0 \<and>
      take (unat len + 8) ((drop 20 buf)[2 := NUL, 3 := NUL]) = message4 (unat len) seqnr" if len: "unat len \<le> 1472"
  proof (intro exI conjI)
    define hdr where "hdr = header4 (len + 28) src dst"
    define buf where "buf = take 20 hdr @ data4 (unat len) seqnr hdr"
    have hdr: "length hdr = 1500" and nul: "\<And>i. 20 \<le> i \<Longrightarrow> i < 1500 \<Longrightarrow> hdr ! i = NUL" by (simp_all add: hdr_def header4_nth)
    have t: "unat (len + 28) = unat len + 28" using unat_total [OF len] by (simp add: add.assoc)
    show "echo_request4 len src dst seqnr = Some (buf, len + 28)" using echo_request4_eq [OF len] by (simp add: buf_def hdr_def)
    show "length buf = 1500" using hdr by (simp add: buf_def data4_length)
    have "unat (len + 28) div 256 < 256" using t len by simp
    then show "256 * byte_val (buf ! 2) + byte_val (buf ! 3) = unat len + 28" "byte_val (buf ! 9) = IPPROTO_ICMP"
      using hdr t by (simp_all add: buf_def nth_append hdr_def header4_nth byte_val_char_of_mod)
    show "check_ics buf 20 = 0"
      using check_ics_cong [of 20 buf hdr] hdr header4_check [of "len + 28" src dst] by (simp add: buf_def hdr_def)
    show "check_ics (drop 20 buf) (int (unat len) + 8) = 0" using hdr data4_check [OF hdr len] by (simp add: buf_def)
    show "take (unat len + 8) ((drop 20 buf)[2 := NUL, 3 := NUL]) = message4 (unat len) seqnr"
      using hdr data4_message [OF hdr len nul] by (simp add: buf_def)
  qed
  then show ?thesis using echo_request4_None [of len src dst seqnr] by blast
qed

section \<open>The reply of a peer\<close>

text \<open>The reply to an echo request that RFC 792 prescribes: the addresses are exchanged, the type is zero, and
  the checksum is computed again.\<close>

definition echo_reply4 :: "bytes \<Rightarrow> bytes" where
  "echo_reply4 p =
     take 12 p @ take 4 (drop 16 p) @ take 4 (drop 12 p) @ calc_ics ((drop 20 p)[0 := NUL]) (int (length p) - 20) 2"

lemma echo_reply4_nth:
  assumes "28 \<le> length p"
  shows "length (echo_reply4 p) = length p" "i < 12 \<Longrightarrow> echo_reply4 p ! i = p ! i"
    "24 \<le> i \<Longrightarrow> i < length p \<Longrightarrow> echo_reply4 p ! i = p ! i"
  using assms by (auto simp: echo_reply4_def nth_append nth_calc_ics)

lemma echo_reply4_check:
  assumes "28 \<le> length p"
  shows "check_ics (drop 20 (echo_reply4 p @ old)) (int (length p) - 20) = 0"
proof -
  define d where "d = calc_ics ((drop 20 p)[0 := NUL]) (int (length p - 20)) 2"
  have l: "length d = length p - 20" by (simp add: d_def)
  have n: "int (length p) - 20 = int (length p - 20)" using assms by simp
  have "drop 20 (echo_reply4 p @ old) = d @ old" using assms n by (simp add: echo_reply4_def d_def)
  moreover have "check_ics (d @ old) (int (length p - 20)) = check_ics d (int (length p - 20))"
    by (rule check_ics_cong) (simp_all add: l)
  ultimately have "check_ics (drop 20 (echo_reply4 p @ old)) (int (length p) - 20) = check_ics d (int (length p - 20))"
    by (simp only: n)
  also have "\<dots> = 0" unfolding d_def by (rule calc_ics_verifies) (use assms in simp_all)
  finally show ?thesis .
qed

lemma ping_wait_packet:
  assumes "0 < timeout" "wcall (ie_poll I fd timeout) h = (1, h1)" "wcall (s_recv S fd 1500 0) h1 = ((int m, r), h2)"
    and "uptime_delta I h2 = (delta_t, h3)" "length r = m" "0 < m" "is_icmp v6 (r @ drop m buf)"
  shows "ping_wait E S I fd v6 (Suc n) buf timeout h =
    (case ping_parse v6 (r @ drop m buf) (int m) (iv_seqnr (icmp h3)) of
       PingFailed \<Rightarrow> (0, h3)
     | PingAgain \<Rightarrow> if 0 < wait_left delta_t h3 then ping_wait E S I fd v6 n (r @ drop m buf) (wait_left delta_t h3) h3 else (0, h3)
     | PingReply \<Rightarrow>
         (delta_t, urc_send_to E (iv_pipe (icmp h3)) (''#XPING: '' @ show_ms (word_of_int delta_t) @ '' seconds'' @ CRLF_STR) h3))"
  using assms by (simp add: Let_def split: ping_verdict.split)


end
