(* ===== verification/Icmp_Six.thy ===== *)
theory Icmp_Six
  imports Icmp_Props
begin

unbundle bit_operations_syntax

text \<open>
  The checksum of ICMPv6 messages: the code adds the complemented sums of the parts of the pseudo header and
  of the message. The result is the checksum of the standard, with the other representation of zero.
\<close>

section \<open>Sums of complements\<close>

definition ics_part :: "bytes \<Rightarrow> nat" where
  "ics_part d = 65535 - wrapped 65535 (sum16 d)"

lemma wrapped_neg:
  assumes "x + y = 65535 * k" "y mod 65535 = s mod 65535" "0 < x"
  shows "wrapped 65535 x = (let c = 65535 - wrapped 65535 s in if c = 0 then 65535 else c)"
proof -
  define c where "c = 65535 - wrapped 65535 s"
  have w: "wrapped 65535 s \<le> 65535" by (simp add: wrapped_le)
  have "int x - int c = 65535 * (int k - 1) + (int (wrapped 65535 s) - int y)"
    using arg_cong [OF assms(1), of int] w by (simp add: c_def of_nat_diff algebra_simps)
  moreover have "int (wrapped 65535 s) mod 65535 = int y mod 65535"
    using zmod_int [of y 65535] zmod_int [of "wrapped 65535 s" 65535] assms(2) wrapped_mod [of 65535 s] by simp
  then have "65535 dvd int (wrapped 65535 s) - int y" by (simp add: mod_eq_dvd_iff)
  ultimately have "int x mod 65535 = int c mod 65535" by (simp add: mod_eq_dvd_iff)
  then have xc: "x mod 65535 = c mod 65535" using zmod_int [of x 65535] zmod_int [of c 65535] by simp
  show ?thesis
  proof (cases "c = 0")
    case True
    then have "wrapped 65535 x = wrapped 65535 65535" using xc assms(3) by (intro wrapped_cong) simp_all
    then show ?thesis using True by (simp add: c_def wrapped_small Let_def)
  next
    case False
    then have "wrapped 65535 x = wrapped 65535 c" using xc assms(3) by (intro wrapped_cong) simp_all
    then show ?thesis using False by (simp add: wrapped_small Let_def c_def)
  qed
qed

lemma unat_check_part:
  assumes "n \<le> length d"
  shows "unat (ucast (check_ics d (int n)) :: 32 word) = ics_part (take n d)"
proof -
  have "wrapped 65535 (sum16 (take n d)) \<le> 65535" by (simp add: wrapped_le)
  then have "unat (check_ics d (int n)) = ics_part (take n d)"
    using check_ics_sum [OF assms] unat_not_of_nat by (simp add: ics_part_def)
  then show ?thesis by (simp add: unsigned_ucast_eq take_bit_nat_eq_self ics_part_def)
qed

section \<open>The checksum of the standard\<close>

text \<open>The pseudo header of RFC 2460 (addresses, the length as 32 bits, three zero bytes and the next header)
  and the message with a checksum of zero.\<close>

definition pseudo6 :: "bytes \<Rightarrow> nat \<Rightarrow> bytes" where
  "pseudo6 buf n =
     take 32 (drop 8 buf) @ [NUL, NUL] @ take 2 (drop 4 buf) @ [NUL, NUL, NUL, buf ! 6] @
     take 2 (drop 40 buf) @ [NUL, NUL] @ take n (drop 44 buf)"

lemma sum16_pseudo6:
  assumes "44 + n \<le> length buf"
  shows "sum16 (pseudo6 buf n) = sum16 (take 32 (drop 8 buf)) + sum16 (take 2 (drop 4 buf)) + sum16 [NUL, buf ! 6] +
    sum16 (take 2 (drop 40 buf)) + sum16 (take n (drop 44 buf))"
proof -
  have e: "even (length (take 32 (drop 8 buf)))" "even (length (take 2 (drop 4 buf)))" "even (length (take 2 (drop 40 buf)))"
    using assms by simp_all
  have z: "byte_val NUL = 0" by (simp add: byte_val_def)
  show ?thesis unfolding pseudo6_def by (simp add: sum16_append [OF e(1)] sum16_append [OF e(2)] sum16_append [OF e(3)] z)
qed

lemma unat_icmp6_ics:
  assumes "44 + n \<le> length buf"
  shows "unat (icmp6_ics buf (int n)) =
    (let c = 65535 - wrapped 65535 (sum16 (pseudo6 buf n)) in if c = 0 then 65535 else c)"
proof -
  define a b c d e where "a = take 32 (drop 8 buf)" and "b = take 2 (drop 4 buf)" and "c = [NUL, buf ! 6]"
    and "d = take 2 (drop 40 buf)" and "e = take n (drop 44 buf)"
  define x where "x = ics_part a + ics_part b + ics_part c + ics_part d + ics_part e"
  define y where "y = wrapped 65535 (sum16 a) + wrapped 65535 (sum16 b) + wrapped 65535 (sum16 c) +
    wrapped 65535 (sum16 d) + wrapped 65535 (sum16 e)"
  have part: "ics_part p + wrapped 65535 (sum16 p) = 65535" "ics_part p \<le> 65535" for p
    using wrapped_le [of 65535 "sum16 p"] by (simp_all add: ics_part_def)
  have u: "unat (ucast (check_ics (drop 8 buf) 32) :: 32 word) = ics_part a" "unat (ucast (check_ics (drop 4 buf) 2) :: 32 word) = ics_part b"
    "unat (ucast (check_ics [NUL, buf ! 6] 2) :: 32 word) = ics_part c" "unat (ucast (check_ics (drop 40 buf) 2) :: 32 word) = ics_part d"
    "unat (ucast (check_ics (drop 44 buf) (int n)) :: 32 word) = ics_part e"
    using assms unat_check_part [of 32 "drop 8 buf"] unat_check_part [of 2 "drop 4 buf"] unat_check_part [of 2 c]
      unat_check_part [of 2 "drop 40 buf"] unat_check_part [of n "drop 44 buf"]
    by (simp_all add: a_def b_def c_def d_def e_def)
  have "x < 2 ^ 32" unfolding x_def using part(2) [of a] part(2) [of b] part(2) [of c] part(2) [of d] part(2) [of e] by simp
  then have "unat (icmp6_ics buf (int n)) = wrapped 65535 x"
    by (simp add: icmp6_ics_def Let_def unat_ics_fold unat_word_ariths u mod_simps x_def)
  also have "\<dots> = (let c = 65535 - wrapped 65535 (sum16 (pseudo6 buf n)) in if c = 0 then 65535 else c)"
  proof (rule wrapped_neg)
    show "x + y = 65535 * 5" unfolding x_def y_def using part(1) [of a] part(1) [of b] part(1) [of c] part(1) [of d] part(1) [of e] by simp
    show "y mod 65535 = sum16 (pseudo6 buf n) mod 65535"
      unfolding sum16_pseudo6 [OF assms] y_def a_def b_def c_def d_def e_def by (intro mod_add_cong wrapped_mod)
    have "256 * byte_val (buf ! 6) < 65535" using byte_val_less [of "buf ! 6"] by linarith
    then have "wrapped 65535 (sum16 c) < 65535" by (simp add: c_def byte_val_def wrapped_small)
    then show "0 < x" using part(1) [of c] by (simp add: x_def)
  qed
  finally show ?thesis .
qed

text \<open>C40: The checksum that the code computes for an ICMPv6 packet is the checksum of the standard over the
  pseudo header and the message, except that it is \<open>0xFFFF\<close> where that one is zero. A peer accepts both for a
  request, but the command compares the bytes of a reply: a reply that carries the checksum zero, as the
  standard prescribes for it, is taken for damaged.\<close>

theorem icmp6_checksum:
  assumes "44 + n \<le> length buf"
  shows "(let c = swap16 (rfc1071 (pseudo6 buf n)) in icmp6_ics buf (int n) = (if c = 0 then 0xFFFF else ucast c)) \<and>
    (swap16 (rfc1071 (pseudo6 buf n)) = 0 \<and> buf ! 42 = NUL \<and> buf ! 43 = NUL \<longrightarrow>
       ping_parse True buf (int n + 44) seqnr = PingFailed)"
proof -
  define c where "c = swap16 (rfc1071 (pseudo6 buf n))"
  have le: "wrapped 65535 (sum16 (pseudo6 buf n)) \<le> 65535" by (simp add: wrapped_le)
  have "c = NOT (of_nat (wrapped 65535 (sum16 (pseudo6 buf n))))"
    using check_ics_rfc1071 [of "length (pseudo6 buf n)" "pseudo6 buf n"] check_ics_sum [of "length (pseudo6 buf n)" "pseudo6 buf n"]
    by (simp add: c_def)
  then have uc: "unat c = 65535 - wrapped 65535 (sum16 (pseudo6 buf n))" by (simp add: unat_not_of_nat [OF le])
  have z: "unat c = 0 \<longleftrightarrow> c = 0" by (simp add: unat_eq_0)
  have "unat (icmp6_ics buf (int n)) = unat (if c = 0 then 0xFFFF else ucast c :: 32 word)"
  proof (cases "c = 0")
    case True
    then show ?thesis using unat_icmp6_ics [OF assms] uc by (simp add: Let_def)
  next
    case False
    then have "unat (icmp6_ics buf (int n)) = unat c" using unat_icmp6_ics [OF assms] uc z by (simp add: Let_def)
    moreover have "unat c < 2 ^ 32" using unsigned_less [of c, where 'a = nat] by simp
    ultimately show ?thesis using False by (simp add: unsigned_ucast_eq take_bit_nat_eq_self)
  qed
  then have eq: "icmp6_ics buf (int n) = (if c = 0 then 0xFFFF else ucast c)" by (simp only: word_unat_eq_iff)
  moreover have "ping_parse True buf (int n + 44) seqnr = PingFailed" if "c = 0" "buf ! 42 = NUL" "buf ! 43 = NUL"
  proof -
    have "byte_at (drop 40 buf) 2 = 0" "byte_at (drop 40 buf) 3 = 0" using that by (simp_all add: byte_at_def byte_val_def)
    then show ?thesis using eq that(1) by (simp add: ping_parse_def Let_def)
  qed
  ultimately show ?thesis by (simp add: Let_def c_def [symmetric])
qed

end
