(* ===== verification/Icmp_Mem.thy ===== *)
theory Icmp_Mem
  imports Icmp_Six Sock_Table
begin

unbundle bit_operations_syntax

text \<open>
  The addresses that the ping command gets from the resolver: what a command that succeeds allocates is freed by
  its work item, and a command that fails leaves nothing behind. This relies on the calls of the network stack
  and of the modem library leaving the variables of the module alone.
\<close>

locale icmp_calls = world_kept E ic_st
  for E :: "('rb, 'w icmp_world) env" and S :: "('rb, 'w icmp_world) sock_env" and I :: "'w icmp_world icmp_env" +
  assumes socket_st: "ic_st (snd (s_socket S fam ty pr w)) = ic_st w"
    and close_st: "ic_st (snd (s_close S fd w)) = ic_st w"
    and setsockopt_st: "ic_st (snd (s_setsockopt S fd l opt v w)) = ic_st w"
    and send_st: "ic_st (snd (s_send S fd d fl w)) = ic_st w"
    and recv_st: "ic_st (snd (s_recv S fd n fl w)) = ic_st w"
    and getaddrinfo_st: "ic_st (snd (s_getaddrinfo S name hints w)) = ic_st w"
    and at_cmd_st: "m_at_cmd (s_util S) n cmd w = (r, b, w') \<Longrightarrow> ic_st w' = ic_st w"
    and poll_st: "ic_st (snd (ie_poll I fd t w)) = ic_st w"
    and sleep_st: "ic_st (ie_sleep I ms w) = ic_st w"
    and errno_st: "ic_st (ie_set_errno I e w) = ic_st w"
begin

lemma malloc_icmp: "icmp (snd (wcall (e_malloc E n) h)) = icmp h"
  using malloc_obs [of n "h_world h"] by (simp add: wcall_split) (metis prod.collapse)

lemma scanf_st: "ic_st (snd (sm_util_at_scanf (s_util S) cmd fmt w)) = ic_st w"
proof -
  obtain r b w' where c: "m_at_cmd (s_util S) 256 cmd w = (r, b, w')" by (metis prod.collapse)
  show ?thesis using at_cmd_st [OF c] by (simp add: sm_util_at_scanf_def c Let_def split: prod.split)
qed

lemma util_icmp: "icmp (snd (wcall (util_get_ip_addr (s_util S) cid a4 a6) h)) = icmp h"
proof -
  obtain ret vs w' where c: "sm_util_at_scanf (s_util S) (''AT+CGPADDR='' @ show_int cid) cgpaddr_fmt (h_world h) = ((ret, vs), w')"
    by (metis prod.collapse)
  have "ic_st w' = icmp h" using scanf_st [of "''AT+CGPADDR='' @ show_int cid" cgpaddr_fmt "h_world h"] by (simp only: c snd_conv)
  moreover have "snd (util_get_ip_addr (s_util S) cid a4 a6 (h_world h)) = w'"
    unfolding util_get_ip_addr_def c by (simp add: Let_def)
  ultimately show ?thesis by (simp add: wcall_split)
qed

lemma calls_icmp [simp]:
  "icmp (snd (wcall (s_socket S fam ty pr) h)) = icmp h" "icmp (snd (wcall (s_close S fd) h)) = icmp h"
  "icmp (snd (wcall (s_setsockopt S fd l opt v) h)) = icmp h" "icmp (snd (wcall (s_send S fd d fl) h)) = icmp h"
  "icmp (snd (wcall (s_recv S fd n fl) h)) = icmp h" "icmp (snd (wcall (s_getaddrinfo S name hints) h)) = icmp h"
  "icmp (snd (wcall (ie_poll I fd t) h)) = icmp h"
  by (simp_all add: wcall_split socket_st close_st setsockopt_st send_st recv_st getaddrinfo_st poll_st)

lemma calls_icmpD:
  "wcall (e_malloc E n) h = (ok, h') \<Longrightarrow> icmp h' = icmp h"
  "wcall (s_socket S fam ty pr) h = (i, h') \<Longrightarrow> icmp h' = icmp h" "wcall (s_close S fd) h = (i, h') \<Longrightarrow> icmp h' = icmp h"
  "wcall (s_setsockopt S fd l opt v) h = (i, h') \<Longrightarrow> icmp h' = icmp h" "wcall (s_send S fd d fl) h = (i, h') \<Longrightarrow> icmp h' = icmp h"
  "wcall (s_recv S fd n fl) h = (r, h') \<Longrightarrow> icmp h' = icmp h" "wcall (s_getaddrinfo S name hints) h = (g, h') \<Longrightarrow> icmp h' = icmp h"
  "wcall (ie_poll I fd t) h = (i, h') \<Longrightarrow> icmp h' = icmp h"
  "wcall (util_get_ip_addr (s_util S) cid a4 a6) h = (ss, h') \<Longrightarrow> icmp h' = icmp h"
  using calls_icmp malloc_icmp util_icmp by (metis snd_conv)+

end

text \<open>What the round trips keep: the addresses and the arguments.\<close>

definition ping_frame :: "('rb, 'w icmp_world) host \<Rightarrow> ('rb, 'w icmp_world) host \<Rightarrow> bool" where
  "ping_frame h h' \<longleftrightarrow> iv_infos (icmp h') = iv_infos (icmp h) \<and> iv_argv (icmp h') = iv_argv (icmp h)"

lemma ping_frame_upd [simp]:
  "ping_frame h (upd_icmp (\<lambda>s. s\<lparr>iv_start_t := t\<rparr>) h') = ping_frame h h'"
  "ping_frame h (upd_icmp (\<lambda>s. s\<lparr>iv_seqnr := iv_seqnr s + 1\<rparr>) h') = ping_frame h h'"
  "ping_frame h (fault h') = ping_frame h h'"
  by (simp_all add: ping_frame_def upd_icmp_def fault_def)

lemma ping_frame_refl [simp]: "ping_frame h h"
  by (simp add: ping_frame_def)

lemma ping_frame_icmp: "icmp h' = icmp h'' \<Longrightarrow> ping_frame h h' = ping_frame h h''"
  by (simp add: ping_frame_def)

lemma ping_frame_trans: "ping_frame h h' \<Longrightarrow> ping_frame h' h'' \<Longrightarrow> ping_frame h h''"
  by (simp add: ping_frame_def)

context icmp_calls
begin

lemma delta_frame: "uptime_delta I h = (d, h') \<Longrightarrow> ping_frame h h'"
  by (auto simp: uptime_delta_def split: prod.splits)

lemma urc_frame [simp]: "ping_frame h (urc_send_to E p t h') = ping_frame h h'"
  by (rule ping_frame_icmp) simp

lemma ping_wait_frame: "ping_frame h (snd (ping_wait E S I fd v6 fuel buf timeout h))"
proof (induction fuel arbitrary: buf timeout h)
  case (Suc fuel)
  show ?case
  proof (cases "timeout \<le> 0")
    case False
    obtain ret h1 where p: "wcall (ie_poll I fd timeout) h = (ret, h1)" by fastforce
    obtain len data h2 where r: "wcall (s_recv S fd 1500 0) h1 = ((len, data), h2)" by (metis prod.collapse)
    obtain d h3 where k: "uptime_delta I h2 = (d, h3)" by fastforce
    have f: "ping_frame h h1" "ping_frame h h3" "ping_frame h3 h4 \<Longrightarrow> ping_frame h h4" for h4
      using calls_icmpD(8) [OF p] calls_icmpD(6) [OF r] delta_frame [OF k] by (auto simp: ping_frame_def)
    show ?thesis using False f f(3) [OF Suc] by (simp add: p r k Let_def split: ping_verdict.split)
  qed simp
qed simp

lemma ping_exchange_frame: "ping_frame h (snd (ping_exchange E S I fd v6 buf t h))"
proof -
  define pdn where "pdn = (if pa_pdn (argv h) \<noteq> 0
    then wcall (s_setsockopt S fd SOL_SOCKET SO_BINDTOPDN (VNum (int (unat (pa_pdn (argv h)))))) h else (0, h))"
  define tv where "tv = VTimeval (int (unat (pa_waitms (argv h))) div 1000) (int (unat (pa_waitms (argv h))) mod 1000 * 1000)"
  obtain ret h1 where p: "pdn = (ret, h1)" by fastforce
  have h1: "icmp h1 = icmp h" using p by (auto simp: pdn_def dest: calls_icmpD split: if_splits)
  define h2 where "h2 = snd (wcall (s_setsockopt S fd SOL_SOCKET SO_RCVTIMEO tv) (snd (wcall (s_setsockopt S fd SOL_SOCKET SO_SNDTIMEO tv) h1)))"
  define h3 where "h3 = upd_icmp (\<lambda>s. s\<lparr>iv_start_t := ie_uptime I (h_world h2)\<rparr>) h2"
  obtain n h4 where s: "wcall (s_send S fd (take (unat t) buf) 0) h3 = (n, h4)" by fastforce
  obtain d h5 where k: "uptime_delta I h4 = (d, h5)" by fastforce
  have f: "ping_frame h h1" "ping_frame h h4" "ping_frame h h5"
    using h1 calls_icmpD(5) [OF s] delta_frame [OF k] by (auto simp: h3_def h2_def ping_frame_def upd_icmp_def)
  have eq: "ping_exchange E S I fd v6 buf t h = (if ret \<noteq> 0 then (0, h1) else if n \<le> 0 then (0, h4)
      else ping_wait E S I fd v6 (e_fuel E) buf (wait_left d h5) h5)"
    unfolding ping_exchange_def pdn_def [symmetric] p
    using h1 by (simp add: Let_def s [unfolded h3_def h2_def tv_def] k del: of_nat_unat)
  show ?thesis using f ping_frame_trans [OF f(3) ping_wait_frame] by (auto simp: eq)
qed

lemma send_ping_frame: "ping_frame h (snd (send_ping_wait_reply E S I h))"
proof (cases "info_of (pa_src (argv h)) (icmp h) = None \<or> info_of (pa_dest (argv h)) (icmp h) = None")
  case False
  then obtain fam src fam' dst where i: "info_of (pa_src (argv h)) (icmp h) = Some (fam, src)" "info_of (pa_dest (argv h)) (icmp h) = Some (fam', dst)"
    by auto
  obtain ok h1 where m: "wcall (e_malloc E 1500) h = (ok, h1)" by fastforce
  define h2 where "h2 = upd_icmp (\<lambda>s. s\<lparr>iv_seqnr := iv_seqnr s + 1\<rparr>) h1"
  have f2: "ping_frame h h1" "ping_frame h h2" using calls_icmpD(1) [OF m] by (simp_all add: h2_def ping_frame_icmp [of h1 h])
  define rq where "rq = (if fam \<noteq> AF_INET then echo_request6 else echo_request4) (pa_len (argv h2)) src dst (iv_seqnr (icmp h2))"
  define h3 where "h3 = h2\<lparr>h_world := ie_set_errno I 0 (h_world h2)\<rparr>"
  obtain fd h4 where o: "wcall (s_socket S AF_PACKET SOCK_RAW 0) h3 = (fd, h4)" by fastforce
  have f4: "ping_frame h h4" using f2 calls_icmpD(2) [OF o] by (simp add: ping_frame_def h3_def errno_st)
  have fin: "ping_frame h (snd (case ping_exchange E S I fd v6 buf t h4 of (delta_t, h) \<Rightarrow>
      case wcall (s_close S fd) h of (_, h) \<Rightarrow> (word_of_int delta_t :: 32 word, h)))" for v6 buf t
  proof -
    obtain d h5 where x: "ping_exchange E S I fd v6 buf t h4 = (d, h5)" by fastforce
    obtain c h6 where c: "wcall (s_close S fd) h5 = (c, h6)" by fastforce
    have "ping_frame h h5" using ping_frame_trans [OF f4 ping_exchange_frame [of h4 fd v6 buf t]] by (simp add: x)
    then show ?thesis using calls_icmpD(3) [OF c] by (simp add: x c ping_frame_def)
  qed
  have "send_ping_wait_reply E S I h = (if \<not> ok then (- 1, h1) else case rq of None \<Rightarrow> (0, fault h2)
      | Some (buf, t) \<Rightarrow> if fd < 0 then (0, h4) else (case ping_exchange E S I fd (fam \<noteq> AF_INET) buf t h4 of (delta_t, h) \<Rightarrow>
          case wcall (s_close S fd) h of (_, h) \<Rightarrow> (word_of_int delta_t, h)))"
    using o by (simp add: send_ping_wait_reply_def i m Let_def h3_def h2_def rq_def cong: option.case_cong)
  then show ?thesis using f2 f4 fin by (auto split: option.split)
qed (auto simp: send_ping_wait_reply_def split: option.split)

lemma ping_rounds_frame: "ping_frame h (snd (ping_rounds E S I n st h))"
proof (induction n arbitrary: st h)
  case (Suc n)
  obtain t h1 where s: "send_ping_wait_reply E S I h = (t, h1)" by fastforce
  define h2 where "h2 = h1\<lparr>h_world := ie_sleep I (int (unat (pa_interval (argv h1)))) (h_world h1)\<rparr>"
  have "ping_frame h h2" using send_ping_frame [of h] by (simp add: s h2_def ping_frame_def sleep_st)
  then show ?case using ping_frame_trans [OF _ Suc [of h2 "ping_add t st"]] by (simp add: s h2_def)
qed simp

end

section \<open>Addresses\<close>

definition live_infos :: "icmp_vars \<Rightarrow> nat set" where
  "live_infos s = {i. i < length (iv_infos s) \<and> iv_infos s ! i \<noteq> None}"

lemma live_infos_append:
  "iv_infos s' = iv_infos s @ replicate n None \<Longrightarrow> live_infos s' = live_infos s"
proof (rule set_eqI)
  fix i
  assume "iv_infos s' = iv_infos s @ replicate n None"
  then show "i \<in> live_infos s' \<longleftrightarrow> i \<in> live_infos s"
    by (cases "i < length (iv_infos s)") (auto simp: live_infos_def nth_append)
qed

text \<open>The outcome of a command: the destination and the source are allocated and the work is submitted, or the
  command failed and the destination, if there was one, is freed.\<close>

definition ping_outcome :: "(int \<times> bytes) option list \<Rightarrow> int \<times> ('rb, 'w icmp_world) host \<Rightarrow> bool" where
  "ping_outcome infos r \<longleftrightarrow>
     (if fst r = 0 then
        (\<exists>d s. iv_infos (icmp (snd r)) = infos @ [Some d, Some s]) \<and> iv_work (icmp (snd r)) \<and>
        pa_dest (argv (snd r)) = Some (length infos) \<and> pa_src (argv (snd r)) = Some (length infos + 1)
      else \<exists>n. iv_infos (icmp (snd r)) = infos @ replicate n None)"

text \<open>What is expected of the resolver: a result, and the first address of a known family.\<close>

definition resolver_ok :: "('rb, 'w) sock_env \<Rightarrow> bool" where
  "resolver_ok S \<longleftrightarrow> (\<forall>name w infos. fst (s_getaddrinfo S name None w) = (0, infos) \<longrightarrow>
     infos \<noteq> [] \<and> (fst (hd infos) = AF_INET \<or> fst (hd infos) = AF_INET6))"

context icmp_calls
begin

lemma ping_task_frees:
  assumes "ping_outcome infos (0, h)"
  shows "iv_infos (icmp (ping_task E S I h)) = infos @ [None, None]"
proof -
  obtain d s where i: "iv_infos (icmp h) = infos @ [Some d, Some s]" "pa_dest (argv h) = Some (length infos)" "pa_src (argv h) = Some (length infos + 1)"
    using assms by (auto simp: ping_outcome_def)
  define h1 where "h1 = upd_icmp (\<lambda>s. s\<lparr>iv_work := False\<rparr>) h"
  obtain st h2 where r: "ping_rounds E S I (unat (pa_count (argv h1))) \<lparr>ps_sum = 0, ps_count = 0, ps_rtt_min = - 1, ps_rtt_max = 0\<rparr> h1 = (st, h2)"
    by fastforce
  define h3 where "h3 = (if 1 < ps_count st then urc_send_to E (iv_pipe (icmp h2)) (''#XPING: average '' @
      show_ms ((ps_sum st + ps_count st div 2) div ps_count st) @ '' seconds'' @ CRLF_STR) h2 else h2)"
  have "ping_frame h1 h3" using ping_rounds_frame [of h1 "unat (pa_count (argv h1))" "\<lparr>ps_sum = 0, ps_count = 0, ps_rtt_min = - 1, ps_rtt_max = 0\<rparr>"] r
    by (simp add: h3_def)
  then have "iv_infos (icmp h3) = infos @ [Some d, Some s]" using i(1) by (simp add: h1_def upd_icmp_def ping_frame_def)
  moreover have "ping_task E S I h = zsock_freeaddrinfo (Some (length infos)) (zsock_freeaddrinfo (Some (length infos + 1)) h3)"
    using r i(2,3) by (simp add: ping_task_def Let_def h1_def [symmetric] h3_def)
  ultimately show ?thesis
    by (simp add: zsock_freeaddrinfo_def info_of_def upd_icmp_def nth_append list_update_append)
qed

lemma getaddrinfo_outcome:
  assumes "ping_getaddrinfo S name h = (r, h')" "resolver_ok S"
  shows "iv_argv (icmp h') = iv_argv (icmp h) \<and>
    (case r of Inl ret \<Rightarrow> ret \<noteq> 0 \<and> icmp h' = icmp h
     | Inr i \<Rightarrow> i = length (iv_infos (icmp h)) \<and>
         (\<exists>a. iv_infos (icmp h') = iv_infos (icmp h) @ [Some a] \<and> (fst a = AF_INET \<or> fst a = AF_INET6)))"
proof -
  obtain ret infos h1 where g: "wcall (s_getaddrinfo S name None) h = ((ret, infos), h1)" by (metis prod.collapse)
  have h1: "icmp h1 = icmp h" by (rule calls_icmpD(7) [OF g])
  have w: "fst (s_getaddrinfo S name None (h_world h)) = (ret, infos)" using g by (simp add: wcall_split)
  show ?thesis
  proof (cases "ret = 0")
    case True
    then have "infos \<noteq> [] \<and> (fst (hd infos) = AF_INET \<or> fst (hd infos) = AF_INET6)"
      using assms(2) w unfolding resolver_ok_def by blast
    then show ?thesis using assms(1) True h1 by (cases infos) (auto simp: ping_getaddrinfo_def g upd_icmp_def)
  qed (use assms(1) h1 in \<open>auto simp: ping_getaddrinfo_def g\<close>)
qed

lemma free_last:
  "iv_infos (icmp h) = infos @ [Some a] \<Longrightarrow> iv_infos (icmp (zsock_freeaddrinfo (Some (length infos)) h)) = infos @ [None]"
  by (simp add: zsock_freeaddrinfo_def info_of_def upd_icmp_def)

lemma ping_source_outcome:
  assumes "iv_infos (icmp h) = infos @ [Some a]"
    and ne: "resolver_ok S"
  shows "ping_outcome infos (ping_source E S v6 (length infos) (\<lambda>h. (0, upd_icmp (\<lambda>s. s\<lparr>iv_work := True\<rparr>) h)) h)"
proof -
  obtain a4 a6 h1 where u: "wcall (util_get_ip_addr (s_util S) (int (unat (pa_pdn (argv h)))) (\<not> v6) v6) h = ((a4, a6), h1)" by (metis prod.collapse)
  have h1: "icmp h1 = icmp h" by (rule calls_icmpD(9) [OF u])
  define addr where "addr = (if v6 then a6 else a4)"
  define h2 where "h2 = upd_argv (\<lambda>a. a\<lparr>pa_dest := Some (length infos)\<rparr>) h1"
  obtain r h3 where g: "ping_getaddrinfo S addr h2 = (r, h3)" by fastforce
  have eq: "ping_source E S v6 (length infos) submit h =
      (if addr = [] then (- 1, zsock_freeaddrinfo (Some (length infos)) h1)
       else case r of Inl ret \<Rightarrow> (- ret, zsock_freeaddrinfo (pa_dest (argv h3)) h3)
         | Inr src \<Rightarrow> submit (upd_argv (\<lambda>a. a\<lparr>pa_src := Some src\<rparr>) h3))" for submit
    using g by (simp add: ping_source_def u Let_def addr_def h2_def cong: if_cong del: of_nat_unat)
  have h2: "iv_infos (icmp h2) = infos @ [Some a]" "pa_dest (argv h2) = Some (length infos)"
    using assms(1) h1 by (simp_all add: h2_def upd_argv_def upd_icmp_def)
  have n: "\<exists>n. [None] = replicate n (None :: (int \<times> bytes) option)" by (rule exI [of _ 1]) simp
  show ?thesis
  proof (cases r)
    case (Inl ret)
    then show ?thesis using getaddrinfo_outcome [OF g ne] h2 n free_last [of h3 infos a] free_last [of h1 infos a] assms(1) h1
      by (auto simp: eq ping_outcome_def)
  next
    case (Inr i)
    then show ?thesis using getaddrinfo_outcome [OF g ne] h2 n free_last [of h1 infos a] assms(1) h1
      by (auto simp: eq ping_outcome_def upd_argv_def upd_icmp_def)
  qed
qed

lemma ping_test_outcome:
  assumes "resolver_ok S"
  shows "ping_outcome (iv_infos (icmp h)) (ping_test_handler E S target h)"
proof -
  obtain r h1 where g: "ping_getaddrinfo S target h = (r, h1)" by fastforce
  note out = getaddrinfo_outcome [OF g assms]
  show ?thesis
  proof (cases r)
    case (Inl ret)
    then show ?thesis using out by (auto simp: ping_test_handler_def g ping_outcome_def intro: exI [of _ 0])
  next
    case (Inr i)
    then obtain a where a: "i = length (iv_infos (icmp h))" "iv_infos (icmp h1) = iv_infos (icmp h) @ [Some a]" "fst a = AF_INET \<or> fst a = AF_INET6"
      using out by auto
    then have "info_of (Some i) (icmp h1) = Some a" by (simp add: info_of_def)
    then show ?thesis using Inr a ping_source_outcome [OF a(2) assms] by (auto simp: ping_test_handler_def g Let_def)
  qed
qed

end

lemma upd_argv_infos [simp]: "iv_infos (icmp (upd_argv g h)) = iv_infos (icmp h)"
  by (simp add: upd_argv_def upd_icmp_def)

lemma outcome_error: "e \<noteq> 0 \<Longrightarrow> iv_infos (icmp h) = infos \<Longrightarrow> ping_outcome infos (e, h)"
  by (auto simp: ping_outcome_def intro: exI [of _ 0])

lemma param_outcome:
  assumes "\<And>x. ping_outcome infos (f x h)" "\<And>e. v = Inl e \<Longrightarrow> e \<noteq> 0" "iv_infos (icmp h) = infos"
  shows "ping_outcome infos (param v f h)"
  using assms by (auto simp: param_def outcome_error split: sum.split)

lemma opt_argv_outcome:
  assumes "\<And>h. iv_infos (icmp h) = infos \<Longrightarrow> ping_outcome infos (f h)" "\<And>e. v = Inl e \<Longrightarrow> e \<noteq> 0" "iv_infos (icmp h) = infos"
  shows "ping_outcome infos (opt_argv n i v put dflt f h)"
  unfolding opt_argv_def Let_def using assms by (auto intro!: param_outcome)


end
