(* ===== verification/Icmp_Demo.thy ===== *)
theory Icmp_Demo
  imports Icmp_Mem Sock_Demo
begin

unbundle bit_operations_syntax

text \<open>
  The ping command on a host with a network on which every packet is the reply to an echo request of eight
  bytes. The contract of the module holds there, and its properties are applied.
\<close>

section \<open>The environment\<close>

definition quiet_socks :: "(ring, unit icmp_world) sock_env" where
  "quiet_socks = \<lparr>cfg_httpc = False, s_util = \<lparr>m_at_cmd = (\<lambda>len cmd w. (0, ''+CGPADDR: 0,'' @ [CHR 0x22] @ ''10.0.0.1'' @ [CHR 0x22], w)),
       m_at_scanf = (\<lambda>n m cmd w. (0, [], [], w)),
       m_inet_pton = (\<lambda>v6 s. (if v6 then 0 else 1, s)), m_inet_ntop = (\<lambda>v6 a. Some a), m_getaddrinfo = (\<lambda>h s f w. (0, (f, h, 0), w)),
       m_errno = (\<lambda>w. EIO), m_s1_exists = False, m_s0_active = (\<lambda>w. (0, True)), m_s_address = (\<lambda>b. 0), m_fw_version = (\<lambda>a w. (0, 0))\<rparr>,
     s_socket = (\<lambda>fam ty pr w. (5, w)), s_close = (\<lambda>fd w. (0, w)),
     s_setsockopt = (\<lambda>fd l opt v w. (0, w)), s_getsockopt = (\<lambda>fd l opt w. ((0, 0, []), w)), s_bind = (\<lambda>fd a w. (0, w)),
     s_connect = (\<lambda>fd a w. (0, w)), s_send = (\<lambda>fd d fl w. (int (length d), w)),
     s_sendto = (\<lambda>fd d fl a w. (int (length d), w)), s_recv = (\<lambda>fd n fl w. ((0, []), w)),
     s_recvfrom = (\<lambda>fd n fl w. ((0, [], (1, [], 0)), w)), s_set_nonblock = (\<lambda>fd w. (0, w)), s_listen = (\<lambda>fd n w. (0, w)),
     s_accept = (\<lambda>fd w. ((- 1, (1, [], 0)), w)),
     s_getaddrinfo = (\<lambda>s hints w. ((0, [(AF_INET, ''abcd'')]), w)), s_gai_strerror = (\<lambda>e. []), s_msg_dontwait = 64, s_peer_verify_required = 2,
     s_bin2hex = (\<lambda>d n. []), s_hex2bin = (\<lambda>d n. []),
     s_httpc_poll_event = (\<lambda>fd ev h. (False, h)), s_httpc_socket_closed = (\<lambda>fd h. h)\<rparr>"

definition demo_request :: bytes where
  "demo_request = fst (the (echo_request4 8 ''abcd'' ''efgh'' 1))"

definition ping_socks :: "(ring, unit icmp_world) sock_env" where
  "ping_socks = quiet_socks\<lparr>s_recv := (\<lambda>fd n fl w. ((36, echo_reply4 (take 36 demo_request)), w))\<rparr>"

definition ping_env :: "(ring, unit icmp_world) env" where
  "ping_env = \<lparr>cfg_termination = CR_TERMINATION, cfg_datamode_terminator = ''+++'',
     cfg_datamode_buf_size = 4, cfg_at_buf_size = 64, cfg_at_echo_max_len = 64, cfg_urc_delay_ms = 50,
     cfg_uart_rx_buf_size = 256, cfg_cmux = False, cfg_ppp = False, cfg_cmux_channel_count = 2,
     e_rb = ring_ops, e_malloc = (\<lambda>n w. (True, w)), e_malloc_ctx = (\<lambda>w. (None, w)), e_free_ctx = (\<lambda>i w. w),
     e_in_isr = (\<lambda>w. False), e_work_submit = (\<lambda>w. (1, w)), e_work_pending = (\<lambda>wk w. False),
     e_pipe_transmit = (\<lambda>p d w. (int (length d), w)), e_pipe_receive = (\<lambda>p w. ((0, NUL), w)), e_pipe_is_open = (\<lambda>p w. True),
     e_pipe_open = (\<lambda>p w. (0, w)), e_pipe_close = (\<lambda>p w. (0, w)), e_event_post = (\<lambda>i ev w. w),
     e_event_wait_idle = (\<lambda>i w. (True, w)), e_pm_suspend = (\<lambda>w. (0, w)), e_pm_resume = (\<lambda>w. (0, w)), e_fuel = 100,
     e_datamode_handler = (\<lambda>cb op d fl h. (0, h)), e_at_cmd = (\<lambda>n s h. ((0, ''OK'' @ CRLF_STR @ [NUL]), h)),
     e_xdfu = (\<lambda>x s h. (0, h)), e_final_reset = (\<lambda>h. h), e_run_work = (\<lambda>wk h. h)\<rparr>"

definition ping_net :: "unit icmp_world icmp_env" where
  "ping_net = \<lparr>ie_poll = (\<lambda>fd t w. (1, w)), ie_uptime = (\<lambda>w. 1000), ie_uptime_delta = (\<lambda>t w. (1000 - t, 1000)), ie_sleep = (\<lambda>ms w. w), ie_set_errno = (\<lambda>e w. w)\<rparr>"

definition ping_vars :: icmp_vars where
  "ping_vars = \<lparr>iv_argv = \<lparr>pa_src = None, pa_dest = None, pa_len = 8, pa_waitms = 500, pa_count = 1, pa_interval = 0, pa_pdn = 0\<rparr>,
     iv_pipe = Some (Pipe 2), iv_seqnr = 1, iv_start_t = 970, iv_infos = [], iv_work = False\<rparr>"

definition ping_host :: "(ring, unit icmp_world) host" where
  "ping_host = \<lparr>h_ctx = (\<lambda>i. new_ctx (ring_init 4) (Some (Pipe 2))), h_instances = [0], h_current = Some 0, h_urc_buf = ring_init 8,
     h_urc_channel = 0, h_msgq = [], h_works = [], h_pipe_cb = (\<lambda>p. AtPipeHandler (Some 0)),
     h_cmux_uart_pipe = None, h_cmux_dlcis = [], h_uart_baudrate = 115200, h_fwd_cgev_notifs = False,
     h_bootloader_mode = False, h_socks = [], h_udp_url = [], h_udp_port = 0,
     h_world = \<lparr>ic_st = ping_vars, ic_world = ()\<rparr>, h_fault = False\<rparr>"

interpretation quiet_calls: icmp_calls ping_env quiet_socks ping_net
  by unfold_locales (auto simp: ping_env_def quiet_socks_def ping_net_def)

interpretation ping_calls: icmp_calls ping_env ping_socks ping_net
  by unfold_locales (auto simp: ping_env_def ping_socks_def quiet_socks_def ping_net_def)

section \<open>Witnesses\<close>

theorem check_ics_is_rfc1071_witness: "check_ics ''abcde'' 5 = swap16 (rfc1071 ''abcde'')"
  using check_ics_is_rfc1071 [of 5 "''abcde''"] by simp

theorem echo_request4_valid_witness:
  "\<exists>buf. echo_request4 8 ''abcd'' ''efgh'' 1 = Some (buf, 36) \<and> check_ics buf 20 = 0 \<and> check_ics (drop 20 buf) 16 = 0"
  using echo_request4_valid [of 8 "''abcd''" "''efgh''" 1] by auto


text \<open>A reply whose checksum is zero.\<close>

definition zero_reply :: bytes where
  "zero_reply = replicate 4 NUL @ [NUL, char_of (16 :: nat), char_of (58 :: nat), char_of (64 :: nat)] @ replicate 32 NUL @
     [char_of (129 :: nat), NUL, NUL, NUL, char_of (126 :: nat), char_of (181 :: nat)] @ replicate 10 NUL"

lemma byte_val_nul: "byte_val NUL = 0"
  by (simp add: byte_val_def)

lemma sum16_replicate: "sum16 (replicate n NUL) = 0"
  by (induction n rule: induct_nat_012) (simp_all add: byte_val_nul)

theorem icmp6_checksum_witness: "icmp6_ics zero_reply 12 = 0xFFFF \<and> ping_parse True zero_reply 56 0 = PingFailed"
proof -
  have l: "length zero_reply = 56" by (simp add: zero_reply_def)
  have "sum16 (pseudo6 zero_reply 12) = 65535"
    by (simp add: sum16_pseudo6 l) (simp add: zero_reply_def sum16_replicate byte_val_nul byte_val_char_of_mod nth_append)
  then have "swap16 (rfc1071 (pseudo6 zero_reply 12)) = 0"
    using check_ics_rfc1071 [of "length (pseudo6 zero_reply 12)" "pseudo6 zero_reply 12"]
      check_ics_sum [of "length (pseudo6 zero_reply 12)" "pseudo6 zero_reply 12"]
    by (simp add: wrapped_small)
  moreover have "length zero_reply = 56" "zero_reply ! 42 = NUL" "zero_reply ! 43 = NUL" by (simp_all add: zero_reply_def nth_append nth_Cons')
  ultimately show ?thesis using icmp6_checksum [of 12 zero_reply 0] by simp
qed

abbreviation (input) ping_params :: "par list" where
  "ping_params \<equiv> [Str ''AT#XPING'', Str ''host'', Num 8, Num 500]"

lemma quiet_ip: "util_get_ip_addr (s_util quiet_socks) 0 True False w = ((''10.0.0.1'', []), w)"
  by code_simp

lemma ping_target: "str_param par_ops ping_params 1 SM_MAX_URL = Inr ''host''"
  by code_simp

lemma ping_numbers: "ap_num_get_u16 par_ops ping_params 2 = Inr 8" "ap_num_get_u32 par_ops ping_params 3 = Inr 500"
  by (simp_all add: par_ops_def par_num_def)

lemma quiet_resolves: "s_getaddrinfo quiet_socks name hints w = ((0, [(AF_INET, ''abcd'')]), w)"
  by (simp add: quiet_socks_def)

lemma ping_ok: "fst (handle_at_icmp_ping ping_env quiet_socks par_ops CMD_TYPE_SET ping_params 4 ping_host) = 0"
  by (simp add: handle_at_icmp_ping_def ping_numbers [simplified] param_def ping_target [simplified] opt_argv_def Let_def ping_test_handler_def ping_getaddrinfo_def
      wcall_def quiet_resolves info_of_def upd_argv_def upd_icmp_def ping_source_def quiet_ip ping_host_def ping_vars_def)


end
